(* ===== verification/Mqtt_Prelude.thy ===== *)
theory Mqtt_Prelude
  imports Main "HOL-Library.Word"
begin

text \<open>
  Shared vocabulary of the development: the machine integer types of the Rust sources, the
  \<open>Result\<close> combinators that the sources write with the question mark operator and
  \<open>ok_or\<close>, the collections of rewrite rules the component theories add to, and generic facts
  about lists, sums and words.
\<close>

section \<open>Machine integers and buffers\<close>

type_synonym u8 = "8 word"
type_synonym u16 = "16 word"
type_synonym u32 = "32 word"
type_synonym u64 = "64 word"

text \<open>The contents of a \<open>Shared\<close> buffer, of a byte slice or of a Rust \<open>str\<close> (its UTF-8 bytes).\<close>

type_synonym bytes = "u8 list"

text \<open>ASCII text as the bytes of a Rust string literal.\<close>

definition ascii :: "string \<Rightarrow> bytes" where
  "ascii s = map of_char s"

named_theorems result_simps \<open>evaluation of the Result combinators\<close>
named_theorems imap_simps \<open>keys, lookup and size of the insertion ordered maps\<close>
named_theorems session_defs \<open>definitions of the session operations\<close>
named_theorems codec_defs \<open>definitions of the encoders and decoders\<close>
named_theorems roundtrip \<open>decoding what was encoded\<close>

section \<open>Results\<close>

text \<open>
  A Rust \<open>Result<T, E>\<close> is the sum \<open>'e + 'a\<close> with \<open>Inl\<close> for \<open>Err\<close>.
  \<open>and_then r f\<close> is what \<open>f(r?)\<close> does: an error leaves the function at once.
\<close>

definition and_then :: "'e + 'a \<Rightarrow> ('a \<Rightarrow> 'e + 'b) \<Rightarrow> 'e + 'b" where
  "and_then r f = (case r of Inl e \<Rightarrow> Inl e | Inr x \<Rightarrow> f x)"

definition ok_or :: "'a option \<Rightarrow> 'e \<Rightarrow> 'e + 'a" where
  "ok_or v e = (case v of None \<Rightarrow> Inl e | Some x \<Rightarrow> Inr x)"

definition map_err :: "('e \<Rightarrow> 'f) \<Rightarrow> 'e + 'a \<Rightarrow> 'f + 'a" where
  "map_err g r = (case r of Inl e \<Rightarrow> Inl (g e) | Inr x \<Rightarrow> Inr x)"

lemma and_then_Inl [simp, result_simps]: "and_then (Inl e) f = Inl e"
  and and_then_Inr [simp, result_simps]: "and_then (Inr x) f = f x"
  by (simp_all add: and_then_def)

lemma and_then_eq_Inr [result_simps]:
  "and_then r f = Inr y \<longleftrightarrow> (\<exists>x. r = Inr x \<and> f x = Inr y)"
  by (cases r) auto

lemma and_then_eq_Inl:
  "and_then r f = Inl e \<longleftrightarrow> r = Inl e \<or> (\<exists>x. r = Inr x \<and> f x = Inl e)"
  by (cases r) auto

lemma and_then_assoc: "and_then (and_then r f) g = and_then r (\<lambda>x. and_then (f x) g)"
  by (cases r) auto

lemma ok_or_simps [simp, result_simps]: "ok_or None e = Inl e" "ok_or (Some x) e = Inr x"
  by (simp_all add: ok_or_def)

lemma ok_or_eq_Inr [result_simps]: "ok_or v e = Inr x \<longleftrightarrow> v = Some x"
  by (cases v) auto

lemma map_err_simps [simp, result_simps]: "map_err g (Inl e) = Inl (g e)" "map_err g (Inr x) = Inr x"
  by (simp_all add: map_err_def)

lemma map_err_eq_Inr [result_simps]: "map_err g r = Inr x \<longleftrightarrow> r = Inr x"
  by (cases r) auto

section \<open>Polling\<close>

text \<open>
  What one run of an asynchronous function of the sources gives: a value, \<open>Pending\<close>
  when it suspends on an await, \<open>Panic\<close> when it reaches a panic (\<open>assert!\<close>,
  \<open>expect\<close>, \<open>todo!\<close>), or \<open>Diverges\<close> when a loop in it never ends.
\<close>

datatype 'a poll = Ready 'a | Pending | Panic string | Diverges

primrec poll_value :: "'a poll \<Rightarrow> 'a option" where
  "poll_value (Ready x) = Some x"
| "poll_value Pending = None"
| "poll_value (Panic m) = None"
| "poll_value Diverges = None"

text \<open>A run that neither panics nor runs forever.\<close>

primrec poll_ok :: "'a poll \<Rightarrow> bool" where
  "poll_ok (Ready x) = True"
| "poll_ok Pending = True"
| "poll_ok (Panic m) = False"
| "poll_ok Diverges = False"

section \<open>Generic facts\<close>

lemma u16_bound: "unat (w :: u16) < 65536"
  using unsigned_less [of w, where 'a = nat] by simp

lemma u8_bound: "unat (w :: u8) < 256"
  using unsigned_less [of w, where 'a = nat] by simp

lemma u32_bound: "unat (w :: u32) < 4294967296"
  using unsigned_less [of w, where 'a = nat] by simp

lemma find_eq_SomeI:
  assumes "i < length xs" and "P (xs ! i)" and "\<And>j. j < i \<Longrightarrow> \<not> P (xs ! j)"
  shows "find P xs = Some (xs ! i)"
  using assms by (auto simp: find_Some_iff)

end
