(* ===== verification/Pkid_Pool.thy ===== *)
theory Pkid_Pool
  imports Mqtt_Prelude
begin

text \<open>
  Packet identifiers (\<open>PacketIdentifier\<close> of src/src/mqtt_proto.rs) and the pool that leases
  them (src/src/client/session/pkid.rs): the bespoke range iterator, the standard library's
  \<open>Cycle\<close> over it, leasing and releasing. The loop of \<open>lease_next_pkid\<close> is a partial
  function, so that it returns is a theorem, and the interface the session uses is the locale
  \<open>pkid_allocator\<close>.
\<close>

section \<open>Packet identifiers\<close>

text \<open>\<open>PacketIdentifier(NonZeroU16)\<close>: a 16 bit word that is not 0.\<close>

type_synonym pkid = u16

definition pkid_new :: "u16 \<Rightarrow> pkid option" where
  "pkid_new raw = (if raw = 0 then None else Some raw)"

definition pkid_add :: "pkid \<Rightarrow> u16 \<Rightarrow> pkid" where
  "pkid_add p n = (let result = p + n in if result = 0 then 1 else result)"

section \<open>The range iterator and its cycle\<close>

record pkid_range =
  current :: pkid
  end_pkid :: pkid
  finished :: bool

definition pkid_range_new :: "pkid \<Rightarrow> pkid \<Rightarrow> pkid_range" where
  "pkid_range_new start e = \<lparr>current = start, end_pkid = e, finished = False\<rparr>"

definition pkid_range_next :: "pkid_range \<Rightarrow> pkid option \<times> pkid_range" where
  "pkid_range_next r =
     (if finished r then (None, r)
      else (Some (current r),
        if current r = end_pkid r then r\<lparr>finished := True\<rparr>
        else r\<lparr>current := pkid_add (current r) 1\<rparr>))"

text \<open>\<open>std::iter::Cycle\<close>: when the iterator is exhausted it restarts from the original.\<close>

record pkid_cycle =
  orig :: pkid_range
  iter :: pkid_range

definition cycle_next :: "pkid_cycle \<Rightarrow> pkid option \<times> pkid_cycle" where
  "cycle_next c =
     (case pkid_range_next (iter c) of
        (Some p, it) \<Rightarrow> (Some p, c\<lparr>iter := it\<rparr>)
      | (None, it) \<Rightarrow>
          (case pkid_range_next (orig c) of (y, it') \<Rightarrow> (y, c\<lparr>iter := it'\<rparr>)))"

section \<open>The pool\<close>

record pkid_pool =
  leased :: "pkid set"
  pool_cycle :: pkid_cycle
  max_pkid :: pkid

definition pkid_pool_new :: "pkid \<Rightarrow> pkid_pool" where
  "pkid_pool_new m =
     \<lparr>leased = {},
      pool_cycle = \<lparr>orig = pkid_range_new 1 m, iter = pkid_range_new 1 m\<rparr>,
      max_pkid = m\<rparr>"

text \<open>
  The body of \<open>lease_next_pkid\<close> is an infinite loop with a \<open>return\<close>: \<open>None\<close> here means
  that it never returns (or that the \<open>expect\<close> on the cycle panics).
\<close>

partial_function (option) lease_loop :: "pkid_pool \<Rightarrow> (pkid \<times> pkid_pool) option" where
  "lease_loop p =
     (case cycle_next (pool_cycle p) of
        (None, c) \<Rightarrow> None
      | (Some k, c) \<Rightarrow>
          if k \<notin> leased p
          then Some (k, p\<lparr>leased := insert k (leased p), pool_cycle := c\<rparr>)
          else lease_loop (p\<lparr>pool_cycle := c\<rparr>))"

definition lease_next_pkid :: "pkid_pool \<Rightarrow> (pkid option \<times> pkid_pool) option" where
  "lease_next_pkid p =
     (if card (leased p) = unat (max_pkid p) then Some (None, p)
      else map_option (\<lambda>(k, p'). (Some k, p')) (lease_loop p))"

definition release_pkid :: "pkid \<Rightarrow> pkid_pool \<Rightarrow> bool \<times> pkid_pool" where
  "release_pkid k p = (k \<in> leased p, p\<lparr>leased := leased p - {k}\<rparr>)"

section \<open>Invariant\<close>

definition pkid_space :: "pkid_pool \<Rightarrow> pkid set" where
  "pkid_space p = {1..max_pkid p}"

definition cycle_inv :: "pkid \<Rightarrow> pkid_cycle \<Rightarrow> bool" where
  "cycle_inv m c \<longleftrightarrow>
     1 \<le> m \<and> orig c = pkid_range_new 1 m \<and> end_pkid (iter c) = m \<and>
     current (iter c) \<in> {1..m} \<and> (finished (iter c) \<longrightarrow> current (iter c) = m)"

definition pool_inv :: "pkid_pool \<Rightarrow> bool" where
  "pool_inv p \<longleftrightarrow> cycle_inv (max_pkid p) (pool_cycle p) \<and> leased p \<subseteq> pkid_space p"

text \<open>The identifier the cycle yields next.\<close>

definition cursor :: "pkid_cycle \<Rightarrow> pkid" where
  "cursor c = (if finished (iter c) then current (orig c) else current (iter c))"

text \<open>The \<open>i\<close>-th identifier after \<open>k\<close> in the circular order \<open>1, 2, ..., m, 1, ...\<close>.\<close>

definition nth_after :: "pkid \<Rightarrow> pkid \<Rightarrow> nat \<Rightarrow> pkid" where
  "nth_after m k i = word_of_nat (Suc ((unat k - 1 + i) mod unat m))"

text \<open>Reference: the first identifier in circular order from the cursor that is not leased.\<close>

definition next_free :: "pkid_pool \<Rightarrow> pkid option" where
  "next_free p =
     find (\<lambda>k. k \<notin> leased p)
       (map (nth_after (max_pkid p) (cursor (pool_cycle p))) [0..<unat (max_pkid p)])"

section \<open>The circular order\<close>

lemma pkid_range_iff: "k \<in> {1..m} \<longleftrightarrow> 0 < unat k \<and> unat k \<le> unat (m :: pkid)"
  by (auto simp: word_le_nat_alt unat_gt_0 Suc_le_eq)

lemma unat_nth_after:
  assumes "1 \<le> m"
  shows "unat (nth_after m k i) = Suc ((unat k - 1 + i) mod unat m)"
proof -
  have "0 < unat m" using assms by (auto simp: word_le_nat_alt)
  then have "Suc ((unat k - 1 + i) mod unat m) \<le> unat m" by (simp add: Suc_leI)
  then show ?thesis unfolding nth_after_def by (rule le_unat_uoi)
qed

lemma nth_after_in_range: "1 \<le> m \<Longrightarrow> nth_after m k i \<in> {1..m}"
  unfolding pkid_range_iff by (simp add: unat_nth_after Suc_le_eq word_le_nat_alt)

lemma nth_after_0: "k \<in> {1..m} \<Longrightarrow> nth_after m k 0 = k"
  unfolding pkid_range_iff word_unat_eq_iff
  by (subst unat_nth_after) (auto simp: word_le_nat_alt)

lemma nth_after_nth_after:
  "1 \<le> m \<Longrightarrow> nth_after m (nth_after m k i) j = nth_after m k (i + j)"
  unfolding word_unat_eq_iff by (simp add: unat_nth_after mod_add_left_eq add.assoc)

lemma nth_after_surj:
  assumes k: "k \<in> {1..m}" and l: "l \<in> {1..m}"
  shows "\<exists>i < unat m. nth_after m k i = l"
proof -
  define i where "i = (unat m + unat l - unat k) mod unat m"
  from k l have pos: "0 < unat k" "unat k \<le> unat m" "0 < unat l" "unat l \<le> unat m"
    and m: "1 \<le> m"
    unfolding pkid_range_iff by (auto simp: word_le_nat_alt)
  have "(unat k - 1 + i) mod unat m = (unat k - 1 + (unat m + unat l - unat k)) mod unat m"
    unfolding i_def by (simp add: mod_add_right_eq)
  also have "unat k - 1 + (unat m + unat l - unat k) = unat m + (unat l - 1)"
    using pos by linarith
  also have "(unat m + (unat l - 1)) mod unat m = (unat l - 1) mod unat m"
    by (rule mod_add_self1)
  also have "\<dots> = unat l - 1"
    using pos by (intro mod_less) linarith
  finally have "nth_after m k i = l"
    using m pos unfolding word_unat_eq_iff by (simp add: unat_nth_after)
  moreover have "i < unat m" unfolding i_def using pos by simp
  ultimately show ?thesis by blast
qed

section \<open>The cycle walks the circular order\<close>

lemma cursor_in_range: "cycle_inv m c \<Longrightarrow> cursor c \<in> {1..m}"
  by (auto simp: cycle_inv_def cursor_def pkid_range_new_def)

lemma pkid_succ_no_wrap:
  assumes "k < (m :: pkid)"
  shows "pkid_add k 1 = k + 1" and "unat (k + 1) = Suc (unat k)"
proof -
  have "Suc (unat k) < 65536"
    using assms u16_bound [of m] by (simp add: word_less_nat_alt)
  then show u: "unat (k + 1) = Suc (unat k)"
    by (simp add: unat_word_ariths)
  then have "k + 1 \<noteq> 0" by (metis unat_0 nat.distinct(1))
  then show "pkid_add k 1 = k + 1" by (simp add: pkid_add_def)
qed

lemma pkid_step_eq_nth_after:
  assumes "k \<in> {1..m}"
  shows "(if k = m then 1 else pkid_add k 1) = nth_after m k 1"
proof (cases "k = m")
  case True
  with assms have m: "1 \<le> m" and "0 < unat m" unfolding pkid_range_iff by (auto simp: word_le_nat_alt)
  with True show ?thesis
    unfolding word_unat_eq_iff unat_nth_after [OF m] by simp
next
  case False
  with assms have "k < m" and m: "1 \<le> m" by auto
  moreover from assms have "0 < unat k" unfolding pkid_range_iff by simp
  ultimately show ?thesis
    unfolding word_unat_eq_iff
    by (simp add: unat_nth_after pkid_succ_no_wrap word_less_nat_alt)
qed

lemma cycle_next_cursor:
  assumes "cycle_inv m c"
  shows "\<exists>c'. cycle_next c = (Some (cursor c), c') \<and> cycle_inv m c' \<and>
              cursor c' = nth_after m (cursor c) 1"
proof -
  have step: "cursor c \<in> {1..m}" using assms by (rule cursor_in_range)
  note defs = cycle_next_def pkid_range_next_def cursor_def cycle_inv_def pkid_range_new_def
  have in_range: "pkid_add (cursor c) 1 \<in> {1..m}" if "cursor c \<noteq> m"
    using that pkid_step_eq_nth_after [OF step] nth_after_in_range [of m "cursor c" 1] step by auto
  show ?thesis
    unfolding pkid_step_eq_nth_after [OF step, symmetric]
    using assms in_range by (auto simp: defs)
qed

section \<open>Leasing\<close>

lemma lease_loop_finds:
  assumes "cycle_inv (max_pkid p) (pool_cycle p)"
    and "nth_after (max_pkid p) (cursor (pool_cycle p)) i \<notin> leased p"
    and "\<And>j. j < i \<Longrightarrow> nth_after (max_pkid p) (cursor (pool_cycle p)) j \<in> leased p"
  shows "\<exists>c. lease_loop p =
           Some (nth_after (max_pkid p) (cursor (pool_cycle p)) i,
                 p\<lparr>leased := insert (nth_after (max_pkid p) (cursor (pool_cycle p)) i) (leased p),
                   pool_cycle := c\<rparr>) \<and>
         cycle_inv (max_pkid p) c"
  using assms
proof (induction i arbitrary: p)
  case 0
  let ?m = "max_pkid p" and ?k = "cursor (pool_cycle p)"
  obtain c where c: "cycle_next (pool_cycle p) = (Some ?k, c)" "cycle_inv ?m c"
    using cycle_next_cursor [OF "0.prems"(1)] by blast
  have "nth_after ?m ?k 0 = ?k" by (intro nth_after_0 cursor_in_range "0.prems"(1))
  with c "0.prems"(2) show ?case by (subst (1) lease_loop.simps) auto
next
  case (Suc i)
  let ?m = "max_pkid p" and ?k = "cursor (pool_cycle p)"
  obtain c where c: "cycle_next (pool_cycle p) = (Some ?k, c)" "cycle_inv ?m c"
      "cursor c = nth_after ?m ?k 1"
    using cycle_next_cursor [OF Suc.prems(1)] by blast
  have m: "1 \<le> ?m" using Suc.prems(1) by (simp add: cycle_inv_def)
  have shift: "nth_after ?m (cursor c) j = nth_after ?m ?k (Suc j)" for j
    using nth_after_nth_after [OF m, of ?k 1 j] c(3) by simp
  have "nth_after ?m ?k 0 = ?k" by (intro nth_after_0 cursor_in_range Suc.prems(1))
  with Suc.prems(3) [of 0] have "?k \<in> leased p" by simp
  with c(1) have loop: "lease_loop p = lease_loop (p\<lparr>pool_cycle := c\<rparr>)"
    by (subst (1) lease_loop.simps) simp
  have "\<exists>c'. lease_loop (p\<lparr>pool_cycle := c\<rparr>) =
           Some (nth_after ?m (cursor c) i,
                 (p\<lparr>pool_cycle := c\<rparr>)\<lparr>leased := insert (nth_after ?m (cursor c) i) (leased p),
                   pool_cycle := c'\<rparr>) \<and> cycle_inv ?m c'"
    using Suc.IH [of "p\<lparr>pool_cycle := c\<rparr>"] c(2) Suc.prems(2,3) by (simp add: shift)
  then show ?case unfolding loop shift by auto
qed

lemma finite_leased [simp]: "finite (leased p)"
  by (rule finite_subset [OF subset_UNIV]) simp

lemma card_pkid_space: "1 \<le> m \<Longrightarrow> card {1..m :: pkid} = unat m"
proof -
  assume "1 \<le> m"
  have "bij_betw unat {1..m} {1..unat m}"
  proof (rule bij_betw_imageI)
    show "inj_on unat {1..m}" by (rule inj_onI) (simp add: word_unat_eq_iff)
    show "unat ` {1..m} = {1..unat m}"
    proof (rule set_eqI, rule iffI)
      fix x assume "x \<in> {1..unat m}"
      then have "unat (word_of_nat x :: pkid) = x" by (auto intro: le_unat_uoi)
      moreover from this \<open>x \<in> {1..unat m}\<close> have "(word_of_nat x :: pkid) \<in> {1..m}"
        unfolding pkid_range_iff by simp
      ultimately show "x \<in> unat ` {1..m}" by force
    qed (auto simp: word_le_nat_alt)
  qed
  then show ?thesis by (simp add: bij_betw_same_card)
qed

lemma pool_invD:
  assumes "pool_inv p"
  shows "cycle_inv (max_pkid p) (pool_cycle p)" "leased p \<subseteq> {1..max_pkid p}" "1 \<le> max_pkid p"
    "card (leased p) \<le> unat (max_pkid p)"
  using assms card_pkid_space [of "max_pkid p"] card_mono [of "{1..max_pkid p}" "leased p"]
  by (auto simp: pool_inv_def cycle_inv_def pkid_space_def)

lemma card_leased_full:
  assumes "pool_inv p"
  shows "card (leased p) = unat (max_pkid p) \<longleftrightarrow> leased p = pkid_space p"
proof -
  note pool = pool_invD [OF assms]
  have card: "card (pkid_space p) = unat (max_pkid p)"
    unfolding pkid_space_def using pool(3) by (rule card_pkid_space)
  show ?thesis
  proof
    assume "card (leased p) = unat (max_pkid p)"
    with card pool(2) show "leased p = pkid_space p"
      unfolding pkid_space_def by (intro card_subset_eq) simp_all
  next
    assume "leased p = pkid_space p"
    with card show "card (leased p) = unat (max_pkid p)" by simp
  qed
qed

lemma pkid_ge_1: "m \<noteq> 0 \<Longrightarrow> 1 \<le> (m :: pkid)"
  by (metis linorder_not_le word_less_1)

lemma pool_inv_new: "m \<noteq> 0 \<Longrightarrow> pool_inv (pkid_pool_new m)"
  by (simp add: pool_inv_def pkid_pool_new_def cycle_inv_def pkid_range_new_def pkid_ge_1)

lemma lease_next_pkid_cases:
  assumes inv: "pool_inv p"
  shows "(leased p = pkid_space p \<longrightarrow> lease_next_pkid p = Some (None, p)) \<and>
    (leased p \<noteq> pkid_space p \<longrightarrow>
      (\<exists>k c. next_free p = Some k \<and> k \<in> pkid_space p - leased p \<and> cycle_inv (max_pkid p) c \<and>
        lease_next_pkid p = Some (Some k, p\<lparr>leased := insert k (leased p), pool_cycle := c\<rparr>)))"
proof (cases "leased p = pkid_space p")
  case True
  then show ?thesis using card_leased_full [OF inv] by (simp add: lease_next_pkid_def)
next
  case False
  let ?m = "max_pkid p" and ?k = "cursor (pool_cycle p)"
  note pool = pool_invD [OF inv]
  from False pool(2) obtain l where l: "l \<in> {1..?m}" "l \<notin> leased p"
    unfolding pkid_space_def by blast
  obtain i0 where i0: "i0 < unat ?m" "nth_after ?m ?k i0 \<notin> leased p"
    using nth_after_surj [OF cursor_in_range [OF pool(1)] l(1)] l(2) by blast
  define i where "i = (LEAST i. nth_after ?m ?k i \<notin> leased p)"
  have i: "nth_after ?m ?k i \<notin> leased p" and "i \<le> i0"
    unfolding i_def using i0(2) by (rule LeastI) (rule Least_le, rule i0(2))
  have before: "nth_after ?m ?k j \<in> leased p" if "j < i" for j
    using that not_less_Least [of j] unfolding i_def by blast
  obtain c where c: "lease_loop p = Some (nth_after ?m ?k i,
        p\<lparr>leased := insert (nth_after ?m ?k i) (leased p), pool_cycle := c\<rparr>)" "cycle_inv ?m c"
    using lease_loop_finds [OF pool(1) i before] by blast
  have "next_free p = Some (map (nth_after ?m ?k) [0..<unat ?m] ! i)"
    unfolding next_free_def using i before \<open>i \<le> i0\<close> i0(1) by (intro find_eq_SomeI) auto
  then have "next_free p = Some (nth_after ?m ?k i)"
    using \<open>i \<le> i0\<close> i0(1) by simp
  moreover have "nth_after ?m ?k i \<in> pkid_space p - leased p"
    using nth_after_in_range [OF pool(3)] i by (simp add: pkid_space_def)
  ultimately show ?thesis
    using False c card_leased_full [OF inv] by (auto simp: lease_next_pkid_def)
qed

lemma lease_next_pkid_None:
  assumes "pool_inv p" and "lease_next_pkid p = Some (None, p')"
  shows "p' = p \<and> leased p = pkid_space p"
  using lease_next_pkid_cases [OF assms(1)] assms(2) by (cases "leased p = pkid_space p") auto

lemma lease_next_pkid_Some:
  assumes "pool_inv p" and "lease_next_pkid p = Some (Some k, p')"
  shows "k \<in> pkid_space p - leased p \<and> leased p' = insert k (leased p) \<and>
    pkid_space p' = pkid_space p \<and> pool_inv p'"
  using lease_next_pkid_cases [OF assms(1)] assms
  by (cases "leased p = pkid_space p") (auto simp: pool_inv_def pkid_space_def)

lemma release_pkid_simps [simp]:
  "leased (snd (release_pkid k p)) = leased p - {k}"
  "fst (release_pkid k p) = (k \<in> leased p)"
  "pkid_space (snd (release_pkid k p)) = pkid_space p"
  by (simp_all add: release_pkid_def pkid_space_def)

lemma release_pkid_inv: "pool_inv p \<Longrightarrow> pool_inv (snd (release_pkid k p))"
  by (auto simp: pool_inv_def release_pkid_def pkid_space_def)

section \<open>The interface of the pool\<close>

text \<open>
  What the session relies on: leasing returns, hands out identifiers that are in the space and
  free, refuses only when none is free, and releasing makes exactly one identifier free again.
\<close>

locale pkid_allocator =
  fixes lease :: "'p \<Rightarrow> ('k option \<times> 'p) option"
    and release :: "'k \<Rightarrow> 'p \<Rightarrow> bool \<times> 'p"
    and in_use :: "'p \<Rightarrow> 'k set"
    and space :: "'p \<Rightarrow> 'k set"
    and invar :: "'p \<Rightarrow> bool"
  assumes lease_returns: "invar p \<Longrightarrow> lease p \<noteq> None"
    and lease_none: "invar p \<Longrightarrow> lease p = Some (None, p') \<Longrightarrow> p' = p \<and> in_use p = space p"
    and lease_some: "invar p \<Longrightarrow> lease p = Some (Some k, p') \<Longrightarrow>
      k \<in> space p - in_use p \<and> in_use p' = insert k (in_use p) \<and> space p' = space p \<and> invar p'"
    and release_in_use: "in_use (snd (release k p)) = in_use p - {k}"
    and release_result: "fst (release k p) = (k \<in> in_use p)"
    and release_space: "space (snd (release k p)) = space p"
    and release_invar: "invar p \<Longrightarrow> invar (snd (release k p))"
begin

lemma lease_outcome:
  assumes "invar p"
  obtains (full) "lease p = Some (None, p)" "in_use p = space p"
  | (fresh) k p' where "lease p = Some (Some k, p')" "k \<in> space p" "k \<notin> in_use p"
      "in_use p' = insert k (in_use p)" "space p' = space p" "invar p'"
proof -
  obtain r p' where r: "lease p = Some (r, p')" using lease_returns [OF assms] by auto
  show thesis
  proof (cases r)
    case None
    with r lease_none [OF assms] show thesis by (intro full) auto
  next
    case (Some k)
    with r lease_some [OF assms, of k p'] show thesis by (intro fresh [of k p']) auto
  qed
qed

text \<open>A lease can be taken exactly when some identifier is free.\<close>

lemma lease_available:
  assumes "invar p" and "in_use p \<subseteq> space p"
  shows "(\<exists>k p'. lease p = Some (Some k, p')) \<longleftrightarrow> in_use p \<noteq> space p"
  using assms(1) by (cases rule: lease_outcome) auto

text \<open>Giving back what was just leased restores the set of identifiers in use.\<close>

lemma release_lease:
  assumes "invar p" and "lease p = Some (Some k, p')"
  shows "in_use (snd (release k p')) = in_use p \<and> fst (release k p')"
  using lease_some [OF assms] by (auto simp: release_in_use release_result)

text \<open>Releasing the keys of a drained map, one after the other.\<close>

lemma release_all_in_use:
  "in_use (fold (\<lambda>k q. snd (release k q)) ks p) = in_use p - set ks"
  by (induction ks arbitrary: p) (auto simp: release_in_use)

lemma release_all_space: "space (fold (\<lambda>k q. snd (release k q)) ks p) = space p"
  by (induction ks arbitrary: p) (auto simp: release_space)

lemma release_all_invar: "invar p \<Longrightarrow> invar (fold (\<lambda>k q. snd (release k q)) ks p)"
  by (induction ks arbitrary: p) (auto simp: release_invar)

end

interpretation pool: pkid_allocator lease_next_pkid release_pkid leased pkid_space pool_inv
proof unfold_locales
  fix p p' :: pkid_pool and k :: pkid assume inv: "pool_inv p"
  show "lease_next_pkid p \<noteq> None"
    using lease_next_pkid_cases [OF inv] by (cases "leased p = pkid_space p") auto
  show "pool_inv (snd (release_pkid k p))" using inv by (rule release_pkid_inv)
  show "lease_next_pkid p = Some (None, p') \<Longrightarrow> p' = p \<and> leased p = pkid_space p"
    using inv by (rule lease_next_pkid_None)
  show "lease_next_pkid p = Some (Some k, p') \<Longrightarrow>
    k \<in> pkid_space p - leased p \<and> leased p' = insert k (leased p) \<and>
    pkid_space p' = pkid_space p \<and> pool_inv p'"
    using inv by (rule lease_next_pkid_Some)
qed simp_all

section \<open>Leasing implements the reference\<close>

lemma next_free_full:
  assumes "pool_inv p" and "leased p = pkid_space p"
  shows "next_free p = None"
  using nth_after_in_range [OF pool_invD(3) [OF assms(1)]] assms(2)
  by (auto simp: next_free_def find_None_iff pkid_space_def)

text \<open>C19. Leasing always returns, and what it returns is the reference's choice: the first identifier,
  in the circular order from where the last search stopped, that is not leased, and none exactly when
  all are. The lease is recorded and nothing else changes.\<close>

theorem lease_next_pkid_refines:
  assumes "pool_inv p"
  shows "\<exists>p'. lease_next_pkid p = Some (next_free p, p') \<and> pool_inv p' \<and>
    leased p' = leased p \<union> set_option (next_free p) \<and> set_option (next_free p) \<inter> leased p = {} \<and>
    pkid_space p' = pkid_space p \<and> (next_free p = None \<longleftrightarrow> leased p = pkid_space p)"
proof (cases "leased p = pkid_space p")
  case True
  then have "lease_next_pkid p = Some (None, p)" "next_free p = None"
    using lease_next_pkid_cases [OF assms] next_free_full [OF assms] by blast+
  with True assms show ?thesis by simp
next
  case False
  then obtain k p' where k: "next_free p = Some k" "lease_next_pkid p = Some (Some k, p')"
    using lease_next_pkid_cases [OF assms] by blast
  from lease_next_pkid_Some [OF assms k(2)] k False show ?thesis by simp
qed

theorem lease_next_pkid_refines_witness:
  "\<exists>p'. lease_next_pkid (pkid_pool_new 3) = Some (next_free (pkid_pool_new 3), p') \<and> pool_inv p'"
  using lease_next_pkid_refines [OF pool_inv_new [of 3]] by (simp, blast)

end
