(* ===== verification/Mqtt_Types.thy ===== *)
theory Mqtt_Types
  imports Pkid_Pool
begin

text \<open>
  The data of the protocol layer: the structs and enums of src/src/mqtt_proto.rs and of the
  modules below it, and the error types of src/src/mqtt_proto.rs and src/src/error.rs. A
  \<open>Shared\<close> buffer is its bytes. Fields carry the name of their struct in front, since the sources
  use the same field names in many structs; enum variants likewise where they clash.
\<close>

section \<open>Strings, topics and filters\<close>

text \<open>
  \<open>BinaryData\<close> and \<open>ByteStr\<close> wrap a buffer that starts with its two byte length prefix.
\<close>

datatype binary_data = BinaryData (bd_shared: bytes)

datatype byte_str = ByteStr (bs_binary: binary_data)

datatype 's topic = Topic (topic_inner: 's)

datatype filter_kind = Regular | Dollar | Shared (index_group_name_and_filter: nat)

record 's filter =
  filter_inner :: 's
  filter_kind :: filter_kind

type_synonym user_property = "byte_str \<times> byte_str"
type_synonym user_properties = "user_property list"

section \<open>Small protocol types\<close>

datatype protocol_version = V3 | V5

definition is_v3 :: "protocol_version \<Rightarrow> bool" where "is_v3 v \<longleftrightarrow> v = V3"
definition is_v5 :: "protocol_version \<Rightarrow> bool" where "is_v5 v \<longleftrightarrow> v = V5"

primrec version_to_u8 :: "protocol_version \<Rightarrow> u8" where
  "version_to_u8 V3 = 0x04"
| "version_to_u8 V5 = 0x05"

datatype qos = AtMostOnce | AtLeastOnce | ExactlyOnce

datatype packet_identifier_dup_qos =
    PdqAtMostOnce
  | PdqAtLeastOnce pkid bool
  | PdqExactlyOnce pkid bool

fun pdq_into :: "packet_identifier_dup_qos \<Rightarrow> qos \<times> bool \<times> pkid option" where
  "pdq_into PdqAtMostOnce = (AtMostOnce, False, None)"
| "pdq_into (PdqAtLeastOnce packet_id dup) = (AtLeastOnce, dup, Some packet_id)"
| "pdq_into (PdqExactlyOnce packet_id dup) = (ExactlyOnce, dup, Some packet_id)"

definition pdq_qos :: "packet_identifier_dup_qos \<Rightarrow> qos" where
  "pdq_qos p = fst (pdq_into p)"

datatype keep_alive = KeepAliveInfinite | KeepAliveDuration u16

definition keep_alive_from_u16 :: "u16 \<Rightarrow> keep_alive" where
  "keep_alive_from_u16 v = (if v = 0 then KeepAliveInfinite else KeepAliveDuration v)"

primrec keep_alive_to_u16 :: "keep_alive \<Rightarrow> u16" where
  "keep_alive_to_u16 KeepAliveInfinite = 0"
| "keep_alive_to_u16 (KeepAliveDuration v) = v"

datatype session_expiry_interval = ExpiryInfinite | ExpiryDuration u32

definition session_expiry_from_u32 :: "u32 \<Rightarrow> session_expiry_interval" where
  "session_expiry_from_u32 v = (if v = - 1 then ExpiryInfinite else ExpiryDuration v)"

primrec session_expiry_to_u32 :: "session_expiry_interval \<Rightarrow> u32" where
  "session_expiry_to_u32 ExpiryInfinite = - 1"
| "session_expiry_to_u32 (ExpiryDuration v) = v"

record authentication =
  authentication_method :: byte_str
  authentication_data :: "binary_data option"

section \<open>Reason codes\<close>

datatype (plugins only: code size) pub_ack_reason_code =
    PubAckSuccess | PubAckNoMatchingSubscribers | PubAckUnspecifiedError
  | PubAckImplementationSpecificError | PubAckNotAuthorized | PubAckTopicNameInvalid
  | PubAckPacketIdentifierInUse | PubAckQuotaExceeded | PubAckPayloadFormatInvalid

datatype (plugins only: code size) pub_rec_reason_code =
    PubRecSuccess | PubRecNoMatchingSubscribers | PubRecUnspecifiedError
  | PubRecImplementationSpecificError | PubRecNotAuthorized | PubRecTopicNameInvalid
  | PubRecPacketIdentifierInUse | PubRecQuotaExceeded | PubRecPayloadFormatInvalid

datatype pub_rel_reason_code = PubRelSuccess | PubRelPacketIdentifierNotFound

datatype pub_comp_reason_code = PubCompSuccess | PubCompPacketIdentifierNotFound

datatype (plugins only: code size) subscribe_reason_code =
    GrantedQoS0 | GrantedQoS1 | GrantedQoS2 | SubUnspecifiedError
  | SubImplementationSpecificError | SubNotAuthorized | SubTopicFilterInvalid
  | SubPacketIdentifierInUse | SubQuotaExceeded | SubSharedSubscriptionsNotSupported
  | SubSubscriptionIdentifiersNotSupported | SubWildcardSubscriptionsNotSupported

datatype (plugins only: code size) unsub_ack_reason_code =
    UnsubSuccess | UnsubNoSubscriptionExisted | UnsubUnspecifiedError
  | UnsubImplementationSpecificError | UnsubNotAuthorized | UnsubTopicFilterInvalid
  | UnsubPacketIdentifierInUse

datatype authenticate_reason_code = AuthSuccess | ContinueAuthentication | ReAuthenticate

datatype retain_handling = Send | SendOnlyIfSubscriptionDoesNotCurrentlyExist | DoNotSend

datatype (plugins only: code size) connection_refused_reason =
    RefusedUnspecifiedError | RefusedMalformedPacket | RefusedProtocolError
  | RefusedImplementationSpecificError | UnsupportedProtocolVersion | ClientIdentifierNotValid
  | BadUserNameOrPassword | RefusedNotAuthorized | ServerUnavailable | RefusedServerBusy | Banned
  | BadAuthenticationMethod | RefusedTopicNameInvalid | RefusedPacketTooLarge
  | RefusedQuotaExceeded | RefusedPayloadFormatInvalid | RefusedRetainNotSupported
  | QoSNotSupported | RefusedUseAnotherServer | RefusedServerMoved | RefusedConnectionRateExceeded

datatype connect_reason_code =
    ConnectSuccess (session_present: bool)
  | ConnectRefused connection_refused_reason

datatype (plugins only: code size) disconnect_reason_code =
    DisconnectNormal | DisconnectWithWillMessage | DisconnectUnspecifiedError
  | DisconnectMalformedPacket | DisconnectProtocolError | DisconnectImplementationSpecificError
  | DisconnectNotAuthorized | DisconnectServerBusy | ServerShuttingDown | KeepAliveTimeout
  | SessionTakenOver | DisconnectTopicFilterInvalid | DisconnectTopicNameInvalid
  | ReceiveMaximumExceeded | TopicAliasInvalid | DisconnectPacketTooLarge | MessageRateTooHigh
  | DisconnectQuotaExceeded | AdministrativeAction | DisconnectPayloadFormatInvalid
  | DisconnectRetainNotSupported | QosNotSupported | DisconnectUseAnotherServer
  | DisconnectServerMoved | DisconnectSharedSubscriptionsNotSupported
  | DisconnectConnectionRateExceeded | MaximumConnectTime
  | DisconnectSubscriptionIdentifiersNotSupported | DisconnectWildcardSubscriptionsNotSupported

section \<open>Packets\<close>

text \<open>
  \<open>PubAckOtherProperties\<close>, \<open>PubRecOtherProperties\<close>, \<open>PubRelOtherProperties\<close>,
  \<open>PubCompOtherProperties\<close>, \<open>SubAckOtherProperties\<close> and \<open>UnsubAckOtherProperties\<close> have the same
  two fields; they are one record here.
\<close>

record ack_other_properties =
  ack_reason_string :: "byte_str option"
  ack_user_properties :: user_properties

definition ack_other_properties_default :: ack_other_properties where
  "ack_other_properties_default = \<lparr>ack_reason_string = None, ack_user_properties = []\<rparr>"

record pub_ack =
  puback_packet_identifier :: pkid
  puback_reason_code :: pub_ack_reason_code
  puback_other_properties :: ack_other_properties

record pub_rec =
  pubrec_packet_identifier :: pkid
  pubrec_reason_code :: pub_rec_reason_code
  pubrec_other_properties :: ack_other_properties

record pub_rel =
  pubrel_packet_identifier :: pkid
  pubrel_reason_code :: pub_rel_reason_code
  pubrel_other_properties :: ack_other_properties

record pub_comp =
  pubcomp_packet_identifier :: pkid
  pubcomp_reason_code :: pub_comp_reason_code
  pubcomp_other_properties :: ack_other_properties

record sub_ack =
  suback_packet_identifier :: pkid
  suback_reason_codes :: "subscribe_reason_code list"
  suback_other_properties :: ack_other_properties

record unsub_ack =
  unsuback_packet_identifier :: pkid
  unsuback_reason_codes :: "unsub_ack_reason_code list"
  unsuback_other_properties :: ack_other_properties

record publish_other_properties =
  publish_payload_is_utf8 :: bool
  publish_message_expiry_interval :: "u32 option"
  publish_topic_alias :: "u16 option"
  publish_response_topic :: "byte_str topic option"
  publish_correlation_data :: "binary_data option"
  publish_user_properties :: user_properties
  publish_subscription_identifiers :: "u32 list"
  publish_content_type :: "byte_str option"

definition publish_other_properties_default :: publish_other_properties where
  "publish_other_properties_default =
     \<lparr>publish_payload_is_utf8 = False, publish_message_expiry_interval = None,
      publish_topic_alias = None, publish_response_topic = None, publish_correlation_data = None,
      publish_user_properties = [], publish_subscription_identifiers = [],
      publish_content_type = None\<rparr>"

record publish =
  publish_topic_name :: "byte_str topic"
  packet_identifier_dup_qos :: packet_identifier_dup_qos
  publish_retain :: bool
  publish_payload :: bytes
  publish_other_properties :: publish_other_properties

record subscribe_options_other_properties =
  no_local :: bool
  retain_as_published :: bool
  retain_handling :: retain_handling

record subscribe_options =
  maximum_qos :: qos
  options_other_properties :: subscribe_options_other_properties

record subscribe_to =
  topic_filter :: "byte_str filter"
  options :: subscribe_options

record subscribe_other_properties =
  subscription_identifier :: "u32 option"
  subscribe_user_properties :: user_properties

record subscribe =
  subscribe_packet_identifier :: pkid
  subscribe_to_list :: "subscribe_to list"
  subscribe_other_properties :: subscribe_other_properties

record unsubscribe =
  unsubscribe_packet_identifier :: pkid
  unsubscribe_from :: "byte_str filter list"
  unsubscribe_user_properties :: user_properties

record auth =
  auth_reason_code :: authenticate_reason_code
  auth_authentication :: "authentication option"
  auth_reason_string :: "byte_str option"
  auth_user_properties :: user_properties

record disconnect_other_properties =
  disconnect_session_expiry_interval :: "session_expiry_interval option"
  disconnect_reason_string :: "byte_str option"
  disconnect_user_properties :: user_properties
  disconnect_server_reference :: "byte_str option"

record disconnect =
  disconnect_reason_code :: disconnect_reason_code
  disconnect_other_properties :: disconnect_other_properties

record conn_ack_other_properties =
  connack_session_expiry_interval :: "session_expiry_interval option"
  connack_receive_maximum :: u16
  connack_maximum_qos :: qos
  connack_retain_available :: bool
  connack_maximum_packet_size :: u32
  connack_assigned_client_id :: "byte_str option"
  connack_topic_alias_maximum :: u16
  connack_reason_string :: "byte_str option"
  connack_user_properties :: user_properties
  connack_wildcard_subscription_available :: bool
  connack_shared_subscription_available :: bool
  connack_subscription_identifiers_available :: bool
  connack_server_keep_alive :: "keep_alive option"
  connack_response_information :: "byte_str option"
  connack_server_reference :: "byte_str option"
  connack_authentication :: "authentication option"

definition conn_ack_other_properties_default :: conn_ack_other_properties where
  "conn_ack_other_properties_default =
     \<lparr>connack_session_expiry_interval = None, connack_receive_maximum = - 1,
      connack_maximum_qos = ExactlyOnce, connack_retain_available = True,
      connack_maximum_packet_size = - 1, connack_assigned_client_id = None,
      connack_topic_alias_maximum = 0, connack_reason_string = None, connack_user_properties = [],
      connack_wildcard_subscription_available = True,
      connack_shared_subscription_available = True,
      connack_subscription_identifiers_available = True, connack_server_keep_alive = None,
      connack_response_information = None, connack_server_reference = None,
      connack_authentication = None\<rparr>"

record conn_ack =
  connack_reason_code :: connect_reason_code
  connack_other_properties :: conn_ack_other_properties

definition connack_is_success :: "conn_ack \<Rightarrow> bool" where
  "connack_is_success c = (case connack_reason_code c of ConnectSuccess _ \<Rightarrow> True | _ \<Rightarrow> False)"

record publication_other_properties =
  publication_payload_is_utf8 :: bool
  publication_message_expiry_interval :: "u32 option"
  publication_response_topic :: "byte_str topic option"
  publication_correlation_data :: "binary_data option"
  publication_user_properties :: user_properties
  publication_content_type :: "byte_str option"

record publication =
  publication_topic_name :: "byte_str topic"
  publication_qos :: qos
  publication_retain :: bool
  publication_payload :: bytes
  publication_other_properties :: publication_other_properties

record connect_other_properties =
  connect_session_expiry_interval :: session_expiry_interval
  connect_receive_maximum :: u16
  connect_maximum_packet_size :: u32
  connect_topic_alias_maximum :: u16
  connect_request_response_information :: bool
  connect_request_problem_information :: bool
  connect_user_properties :: user_properties
  connect_authentication :: "authentication option"

record connect =
  connect_username :: "byte_str option"
  connect_password :: "binary_data option"
  connect_will :: "(publication \<times> u32) option"
  connect_client_id :: "byte_str option"
  connect_clean_start :: bool
  connect_keep_alive :: keep_alive
  connect_other_properties :: connect_other_properties

datatype (plugins only: code size) packet =
    AuthPacket auth
  | ConnAckPacket conn_ack
  | ConnectPacket connect
  | DisconnectPacket disconnect
  | PingReqPacket
  | PingRespPacket
  | PubAckPacket pub_ack
  | PubCompPacket pub_comp
  | PublishPacket publish
  | PubRecPacket pub_rec
  | PubRelPacket pub_rel
  | SubAckPacket sub_ack
  | SubscribePacket subscribe
  | UnsubAckPacket unsub_ack
  | UnsubscribePacket unsubscribe

section \<open>Errors\<close>

text \<open>
  \<open>DecodeError\<close>, without the two variants that wrap errors of the buffer pool and of I/O, which
  no decoder modelled here raises. \<open>NoProgress\<close> is not a variant of the code: it stands for the
  validation loop not returning, should the UTF-8 decoder of the \<open>bstr\<close> crate report that it
  consumed nothing.
\<close>

datatype (plugins only: code size) decode_error =
    ConnectReservedSet | ConnectZeroLengthIdWithExistingSession | EmptyFilter | EmptyTopic
  | IncompletePacket | InvalidByteStr string | InvalidFilter bytes | InvalidTopic bytes
  | DecodeNoTopics | PublishDupAtMostOnce | TrailingGarbage | UnrecognizedConnAckFlags u8
  | UnrecognizedPacket u8 u8 nat
  | UnrecognizedProtocolName bytes | UnrecognizedProtocolVersion u8 | UnrecognizedQoS u8
  | DecodeVarintTooHigh | WillPropertiesFlagsSetButNotWillFlag | ZeroPacketIdentifier
  | ConnectPasswordFlagSetButNotUsernameFlag
  | DuplicateProperty string | MissingRequiredProperty string | UnexpectedProperty
  | UnrecognizedPropertyIdentifier u8
  | InvalidMaximumPacketSize u32 | InvalidReceiveMaximum u16 | InvalidSubscriptionIdentifier u32
  | InvalidTopicAlias u16
  | UnrecognizedAuthenticateReasonCode u8 | UnrecognizedConnectReasonCode u8
  | UnrecognizedConnectReturnCode u8 | UnrecognizedDisconnectReasonCode u8
  | UnrecognizedMaximumQoS u8 | UnrecognizedPayloadFormatIndicator u8
  | UnrecognizedPubAckReasonCode u8 | UnrecognizedPubCompReasonCode u8
  | UnrecognizedPubRecReasonCode u8 | UnrecognizedPubRelReasonCode u8
  | UnrecognizedRequestProblemInformation u8 | UnrecognizedRequestResponseInformation u8
  | UnrecognizedRetainAvailable u8 | UnrecognizedRetainHandling u8
  | UnrecognizedSharedSubscriptionAvailable u8 | UnrecognizedSubscribeReasonCode u8
  | UnrecognizedSubscriptionIdentifiersAvailable u8 | UnrecognizedUnsubAckReasonCode u8
  | UnrecognizedWildcardSubscriptionAvailable u8 | SubscriptionOptionsReservedSet
  | NoLocalWithSharedSubscription
  | NoProgress

text \<open>
  \<open>EncodeError\<close>; \<open>Unreachable\<close> stands for the panic of encoding an AUTH packet for version 3.1.1.
\<close>

datatype (plugins only: code size) encode_error =
    InsufficientBuffer | EncodeNoTopics | RemainingLengthTooHigh nat
  | VarintTooHigh u32 | WillTooLarge nat | Unreachable | ConnectPasswordWithoutUsername
  | NegativePubAck pub_ack_reason_code | NegativePubComp pub_comp_reason_code
  | NegativePubRec pub_rec_reason_code | NegativePubRel pub_rel_reason_code
  | NegativeUnsubAck unsub_ack_reason_code

datatype protocol_error =
    MalformedPacket decode_error
  | UnexpectedPacket
  | AuthenticationMethodMismatch

section \<open>Conversions\<close>

text \<open>The two numeric encodings with a special value are inverse to their decoding.\<close>

lemma keep_alive_roundtrip [roundtrip]:
  "keep_alive_to_u16 (keep_alive_from_u16 v) = v"
  "k \<noteq> KeepAliveDuration 0 \<Longrightarrow> keep_alive_from_u16 (keep_alive_to_u16 k) = k"
  by (cases k; auto simp: keep_alive_from_u16_def)+

lemma session_expiry_roundtrip [roundtrip]:
  "session_expiry_to_u32 (session_expiry_from_u32 v) = v"
  "e \<noteq> ExpiryDuration (- 1) \<Longrightarrow> session_expiry_from_u32 (session_expiry_to_u32 e) = e"
  by (cases e; auto simp: session_expiry_from_u32_def)+

primrec pubrec_is_success :: "pub_rec_reason_code \<Rightarrow> bool" where
  "pubrec_is_success PubRecSuccess = True"
| "pubrec_is_success PubRecNoMatchingSubscribers = True"
| "pubrec_is_success PubRecUnspecifiedError = False"
| "pubrec_is_success PubRecImplementationSpecificError = False"
| "pubrec_is_success PubRecNotAuthorized = False"
| "pubrec_is_success PubRecTopicNameInvalid = False"
| "pubrec_is_success PubRecPacketIdentifierInUse = False"
| "pubrec_is_success PubRecQuotaExceeded = False"
| "pubrec_is_success PubRecPayloadFormatInvalid = False"

end
