(* ===== verification/Client_Channels.thy ===== *)
theory Client_Channels
  imports Mqtt_Types
begin

text \<open>
  What the client's parts exchange: the completion pairs of
  src/src/client/token/completion.rs, the requests of src/src/client/channel_data.rs, the
  acknowledgement tokens of src/src/client/token/acknowledgement.rs, the reauthentication token
  of src/src/client/token/reauth.rs and the timer of src/src/client/timer.rs. A completion pair
  is a number: the notifier half is consumed by what it sends, so what became of it is an entry
  of a log. A channel is the list of the messages in it, oldest first.
\<close>

section \<open>Completion pairs\<close>

type_synonym notifier = nat

datatype completion_error = Detached | Canceled string

record reauth_token =
  reauth_method :: byte_str

datatype reauth_result =
    ReauthContinue auth reauth_token
  | ReauthSuccess auth
  | ReauthFailure

text \<open>The payloads a notifier can deliver, one constructor for each notifier type.\<close>

datatype (plugins only: code size) completion =
    CompletedUnit
  | CompletedPubAck pub_ack
  | CompletedPubRec pub_rec "pkid option"
  | CompletedPubRel pub_rel pkid
  | CompletedPubComp pub_comp
  | CompletedSubAck sub_ack
  | CompletedUnsubAck unsub_ack
  | CompletedReauth reauth_result
  | CompletedPing nat

text \<open>
  What a notifier did: \<open>complete\<close>, \<open>cancel\<close>, or dropped without either (then the token finds
  the channel closed).
\<close>

datatype (plugins only: code size) notification =
    NComplete notifier completion
  | NCancel notifier string
  | NDrop notifier

primrec notified :: "notification \<Rightarrow> notifier" where
  "notified (NComplete n v) = n"
| "notified (NCancel n r) = n"
| "notified (NDrop n) = n"

text \<open>\<open>CompletionToken::poll\<close>: the token of pair \<open>n\<close> against the log of what notifiers did.\<close>

fun completion_poll :: "notifier \<Rightarrow> notification list \<Rightarrow> (completion_error + completion) poll" where
  "completion_poll n [] = Pending"
| "completion_poll n (NComplete k v # log) =
     (if k = n then Ready (Inr v) else completion_poll n log)"
| "completion_poll n (NCancel k r # log) =
     (if k = n then Ready (Inl (Canceled r)) else completion_poll n log)"
| "completion_poll n (NDrop k # log) =
     (if k = n then Ready (Inl Detached) else completion_poll n log)"

section \<open>Requests\<close>

datatype disconnect_request = DisconnectRequest disconnect

datatype publish_request_qos0 =
  PublishRequestQoS0 notifier "byte_str topic" bytes bool publish_other_properties

datatype publish_request_qos12 =
    PublishQoS1Request notifier "byte_str topic" bytes bool publish_other_properties
  | PublishQoS2Request notifier "byte_str topic" bytes bool publish_other_properties

datatype subscription_request =
    SubscribeRequest notifier "byte_str filter" subscribe_options subscribe_other_properties
  | UnsubscribeRequest notifier "byte_str filter" user_properties

datatype acknowledgement_request =
    AckPubAck notifier pub_ack u64
  | AckPubRecAccept notifier pub_rec
  | AckPubRecReject notifier pub_rec
  | AckPubRel notifier pub_rel
  | AckPubComp notifier pub_comp

datatype reauth_request = ReauthRequest notifier auth

datatype ping_request = PingRequest notifier

primrec ack_notifier :: "acknowledgement_request \<Rightarrow> notifier" where
  "ack_notifier (AckPubAck n p e) = n"
| "ack_notifier (AckPubRecAccept n p) = n"
| "ack_notifier (AckPubRecReject n p) = n"
| "ack_notifier (AckPubRel n p) = n"
| "ack_notifier (AckPubComp n p) = n"

section \<open>Acknowledgement tokens\<close>

record pub_ack_token =
  token_pkid :: pkid
  token_epoch :: u64
  token_triggered :: bool

definition pub_ack_token_new :: "pkid \<Rightarrow> u64 \<Rightarrow> pub_ack_token" where
  "pub_ack_token_new k e = \<lparr>token_pkid = k, token_epoch = e, token_triggered = False\<rparr>"

text \<open>
  The acknowledgement channel as a token sees it: \<open>None\<close> once the session that holds the
  receiving half is gone.
\<close>

type_synonym ack_channel = "acknowledgement_request list option"

text \<open>\<open>n\<close> is the completion pair that \<open>inner_send\<close> makes.\<close>

definition inner_send ::
    "notifier \<Rightarrow> ack_channel \<Rightarrow> pkid \<Rightarrow> ack_other_properties \<Rightarrow> pub_ack_reason_code \<Rightarrow> u64 \<Rightarrow>
     (completion_error + notifier) \<times> ack_channel" where
  "inner_send n tx k props reason e =
     (let puback = \<lparr>puback_packet_identifier = k, puback_reason_code = reason,
                    puback_other_properties = props\<rparr>
      in case tx of
           None \<Rightarrow> (Inl Detached, None)
         | Some q \<Rightarrow> (Inr n, Some (q @ [AckPubAck n puback e])))"

text \<open>\<open>Drop for PubAckToken\<close>.\<close>

definition pub_ack_token_drop :: "notifier \<Rightarrow> pub_ack_token \<Rightarrow> ack_channel \<Rightarrow> ack_channel" where
  "pub_ack_token_drop n t tx =
     (if token_triggered t then tx
      else snd (inner_send n tx (token_pkid t) ack_other_properties_default PubAckSuccess
                  (token_epoch t)))"

text \<open>
  \<open>send\<close> takes the token by value, so the token is dropped when it returns: \<open>n'\<close> is the pair
  that drop would make.
\<close>

definition pub_ack_token_send ::
    "notifier \<Rightarrow> notifier \<Rightarrow> pub_ack_token \<Rightarrow> ack_other_properties \<Rightarrow> pub_ack_reason_code \<Rightarrow>
     ack_channel \<Rightarrow> (completion_error + notifier) \<times> ack_channel" where
  "pub_ack_token_send n n' t props reason tx =
     (case inner_send n tx (token_pkid t) props reason (token_epoch t) of
        (Inl e, tx') \<Rightarrow> (Inl e, pub_ack_token_drop n' t tx')
      | (Inr c, tx') \<Rightarrow> (Inr c, pub_ack_token_drop n' (t\<lparr>token_triggered := True\<rparr>) tx'))"

definition pub_ack_token_accept ::
    "notifier \<Rightarrow> notifier \<Rightarrow> pub_ack_token \<Rightarrow> ack_other_properties \<Rightarrow> ack_channel \<Rightarrow>
     (completion_error + notifier) \<times> ack_channel" where
  "pub_ack_token_accept n n' t props tx = pub_ack_token_send n n' t props PubAckSuccess tx"

definition pub_ack_token_reject ::
    "notifier \<Rightarrow> notifier \<Rightarrow> pub_ack_token \<Rightarrow> pub_ack_reason_code \<Rightarrow> ack_other_properties \<Rightarrow>
     ack_channel \<Rightarrow> (completion_error + notifier) \<times> ack_channel" where
  "pub_ack_token_reject n n' t reason props tx = pub_ack_token_send n n' t props reason tx"

datatype incoming_publish_and_token =
    IncomingQoS0 publish
  | IncomingQoS1 publish pub_ack_token

text \<open>
  However a token ends, whether accepted, rejected or dropped, the session gets exactly one
  request for it, which carries the token's packet identifier and epoch.
\<close>

lemma pub_ack_token_drop_open [simp]:
  "pub_ack_token_drop n (pub_ack_token_new k e) (Some q) =
     Some (q @ [AckPubAck n \<lparr>puback_packet_identifier = k, puback_reason_code = PubAckSuccess,
       puback_other_properties = ack_other_properties_default\<rparr> e])"
  by (simp add: pub_ack_token_drop_def pub_ack_token_new_def inner_send_def)

lemma pub_ack_token_send_open [simp]:
  "pub_ack_token_send n n' t props reason (Some q) =
     (Inr n, Some (q @ [AckPubAck n \<lparr>puback_packet_identifier = token_pkid t,
        puback_reason_code = reason, puback_other_properties = props\<rparr> (token_epoch t)]))"
  by (simp add: pub_ack_token_send_def pub_ack_token_drop_def inner_send_def)

lemma pub_ack_token_send_closed [simp]:
  "pub_ack_token_send n n' t props reason None = (Inl Detached, None)"
  by (simp add: pub_ack_token_send_def pub_ack_token_drop_def inner_send_def)

section \<open>The reauthentication token\<close>

text \<open>\<open>ReauthToken::continue_reauth\<close>: the request it puts on the channel.\<close>

definition continue_reauth_request ::
    "notifier \<Rightarrow> reauth_token \<Rightarrow> binary_data option \<Rightarrow> byte_str option \<Rightarrow> user_properties \<Rightarrow>
     reauth_request" where
  "continue_reauth_request n t data reason_string props =
     ReauthRequest n
       \<lparr>auth_reason_code = ContinueAuthentication,
        auth_authentication =
          Some \<lparr>authentication_method = reauth_method t, authentication_data = data\<rparr>,
        auth_reason_string = reason_string,
        auth_user_properties = props\<rparr>"

section \<open>Timers\<close>

text \<open>Times are milliseconds of the runtime's clock.\<close>

record timer =
  deadline :: nat
  duration :: nat

definition timer_new :: "nat \<Rightarrow> nat \<Rightarrow> timer" where
  "timer_new now d = \<lparr>deadline = now + d, duration = d\<rparr>"

definition timer_reset :: "nat \<Rightarrow> timer \<Rightarrow> timer" where
  "timer_reset now t = t\<lparr>deadline := now + duration t\<rparr>"

definition timer_remaining :: "nat \<Rightarrow> timer \<Rightarrow> nat" where
  "timer_remaining now t = deadline t - now"

definition timer_poll :: "nat \<Rightarrow> timer \<Rightarrow> unit poll" where
  "timer_poll now t = (if deadline t \<le> now then Ready () else Pending)"

end
