(* ===== verification/Index_Map.thy ===== *)
theory Index_Map
  imports Mqtt_Prelude
begin

text \<open>
  The keyed containers of the session state. The session keeps \<open>IndexMap\<close>s (crate
  \<open>indexmap\<close>: a map that remembers insertion order) where the order of entries matters and
  \<open>HashMap\<close>s where it does not. Both are association lists with distinct keys here; for a
  \<open>HashMap\<close> the order of the list carries no meaning. The locale \<open>insertion_map\<close> states the
  documented behaviour of \<open>IndexMap\<close> that the session relies on, and the association list
  operations are shown to have it.
\<close>

type_synonym ('k, 'v) imap = "('k \<times> 'v) list"

definition im_keys :: "('k, 'v) imap \<Rightarrow> 'k list" where
  "im_keys m = map fst m"

definition im_get :: "('k, 'v) imap \<Rightarrow> 'k \<Rightarrow> 'v option" where
  "im_get m k = map_of m k"

text \<open>
  \<open>insert\<close>: an existing key keeps its position and gets the new value, a new key goes to the
  end. The value it returns is \<open>im_get m k\<close> of the map before.
\<close>

fun im_insert :: "'k \<Rightarrow> 'v \<Rightarrow> ('k, 'v) imap \<Rightarrow> ('k, 'v) imap" where
  "im_insert k v [] = [(k, v)]"
| "im_insert k v ((a, b) # m) = (if a = k then (k, v) # m else (a, b) # im_insert k v m)"

text \<open>\<open>shift_remove\<close> (and \<open>HashMap::remove\<close>): the other entries keep their order.\<close>

fun im_remove :: "'k \<Rightarrow> ('k, 'v) imap \<Rightarrow> ('k, 'v) imap" where
  "im_remove k [] = []"
| "im_remove k ((a, b) # m) = (if a = k then m else (a, b) # im_remove k m)"

definition im_wf :: "('k, 'v) imap \<Rightarrow> bool" where
  "im_wf m \<longleftrightarrow> distinct (im_keys m)"

lemma im_keys_simps [simp, imap_simps]:
  "im_keys [] = []" "im_keys ((k, v) # m) = k # im_keys m" "im_keys (m @ n) = im_keys m @ im_keys n"
  by (simp_all add: im_keys_def)

lemma im_get_simps [simp, imap_simps]:
  "im_get [] k = None" "im_get ((a, b) # m) k = (if a = k then Some b else im_get m k)"
  by (simp_all add: im_get_def)

lemma im_get_None_iff [imap_simps]: "im_get m k = None \<longleftrightarrow> k \<notin> set (im_keys m)"
  by (induction m) (auto split: if_splits)

lemma im_get_Some_key: "im_get m k = Some v \<Longrightarrow> k \<in> set (im_keys m)"
  by (metis im_get_None_iff option.distinct(1))

lemma im_get_insert [simp, imap_simps]:
  "im_get (im_insert k v m) a = (if a = k then Some v else im_get m a)"
  by (induction m) auto

lemma im_keys_insert [simp, imap_simps]:
  "im_keys (im_insert k v m) = (if k \<in> set (im_keys m) then im_keys m else im_keys m @ [k])"
  by (induction m) auto

lemma im_insert_fresh: "k \<notin> set (im_keys m) \<Longrightarrow> im_insert k v m = m @ [(k, v)]"
  by (induction m) auto

lemma im_keys_remove [imap_simps]:
  "im_wf m \<Longrightarrow> im_keys (im_remove k m) = filter (\<lambda>a. a \<noteq> k) (im_keys m)"
proof (induction m)
  case (Cons e m)
  then show ?case
    by (cases e) (auto simp: im_wf_def intro!: filter_True [symmetric])
qed (simp add: im_wf_def)

lemma set_im_keys_remove [imap_simps]:
  "im_wf m \<Longrightarrow> set (im_keys (im_remove k m)) = set (im_keys m) - {k}"
  by (auto simp: im_keys_remove)

lemma im_remove_absent: "k \<notin> set (im_keys m) \<Longrightarrow> im_remove k m = m"
  by (induction m) auto

lemma im_get_remove [imap_simps]:
  "im_wf m \<Longrightarrow> im_get (im_remove k m) a = (if a = k then None else im_get m a)"
proof (induction m)
  case (Cons e m)
  then show ?case
    by (cases e) (auto simp: im_wf_def im_get_None_iff)
qed simp

lemma im_wf_simps [simp]: "im_wf []" "im_wf ((k, v) # m) \<longleftrightarrow> k \<notin> set (im_keys m) \<and> im_wf m"
  by (simp_all add: im_wf_def)

lemma im_wf_insert [simp]: "im_wf m \<Longrightarrow> im_wf (im_insert k v m)"
  by (simp add: im_wf_def)

lemma im_wf_remove [simp]: "im_wf m \<Longrightarrow> im_wf (im_remove k m)"
  by (simp add: im_keys_remove im_wf_def)

section \<open>The contract of the insertion ordered map\<close>

locale insertion_map =
  fixes empty :: "'m"
    and get :: "'m \<Rightarrow> 'k \<Rightarrow> 'v option"
    and insert :: "'k \<Rightarrow> 'v \<Rightarrow> 'm \<Rightarrow> 'm"
    and remove :: "'k \<Rightarrow> 'm \<Rightarrow> 'm"
    and keys :: "'m \<Rightarrow> 'k list"
    and invar :: "'m \<Rightarrow> bool"
  assumes keys_empty: "keys empty = []"
    and invar_empty: "invar empty"
    and keys_distinct: "invar m \<Longrightarrow> distinct (keys m)"
    and get_None: "get m k = None \<longleftrightarrow> k \<notin> set (keys m)"
    and get_insert: "get (insert k v m) a = (if a = k then Some v else get m a)"
    and keys_insert: "keys (insert k v m) = (if k \<in> set (keys m) then keys m else keys m @ [k])"
    and invar_insert: "invar m \<Longrightarrow> invar (insert k v m)"
    and get_remove: "invar m \<Longrightarrow> get (remove k m) a = (if a = k then None else get m a)"
    and keys_remove: "invar m \<Longrightarrow> keys (remove k m) = filter (\<lambda>a. a \<noteq> k) (keys m)"
    and invar_remove: "invar m \<Longrightarrow> invar (remove k m)"
begin

text \<open>Replacing a value moves no entry; a fresh key is the youngest.\<close>

lemma keys_update: "k \<in> set (keys m) \<Longrightarrow> keys (insert k v m) = keys m"
  by (simp add: keys_insert)

lemma keys_fresh: "k \<notin> set (keys m) \<Longrightarrow> keys (insert k v m) = keys m @ [k]"
  by (simp add: keys_insert)

text \<open>Completing an entry that was just added gives the old map back, seen through its keys and lookups.\<close>

lemma remove_insert_fresh:
  assumes "invar m" and "k \<notin> set (keys m)"
  shows "keys (remove k (insert k v m)) = keys m \<and> get (remove k (insert k v m)) = get m"
proof -
  have "filter (\<lambda>a. a \<noteq> k) (keys m) = keys m"
    using assms(2) by (auto intro: filter_True)
  moreover have "get (remove k (insert k v m)) a = get m a" for a
    using assms get_None [of m k] by (simp add: get_remove invar_insert get_insert)
  ultimately show ?thesis
    using assms by (auto simp: keys_remove invar_insert keys_fresh)
qed

text \<open>Removal is the only way to shorten the list of keys, and it keeps the relative order.\<close>

lemma remove_first:
  assumes "invar m" and "keys m = k # ks"
  shows "keys (remove k m) = ks"
  using keys_distinct [OF assms(1)] assms by (auto simp: keys_remove intro: filter_True)

end

interpretation im: insertion_map "[]" im_get im_insert im_remove im_keys im_wf
  by unfold_locales
    (auto simp: im_get_None_iff im_keys_remove im_get_remove im_wf_def [symmetric] im_keys_insert
       simp flip: im_wf_def)

end
