(* ===== verification/Session.thy ===== *)
theory Session
  imports Client_Channels Index_Map
begin

text \<open>
  The session of src/src/client/session.rs: its state, the poll for the next outgoing request,
  the handlers of incoming packets and the transitions at the end of a connection. The state is
  passed explicitly; \<open>notifications\<close> is the log of what the session did with the completion
  notifiers it owns, and \<open>i_pub_tx\<close> holds the publishes handed to the application that it has
  not received yet. The buffer \<open>owned\<close> of the struct takes no part in any operation here.
\<close>

section \<open>State\<close>

datatype connection_state = Disconnected | Connected conn_ack

datatype outgoing_operation =
    OpSubscribe pkid notifier
  | OpUnsubscribe pkid notifier
  | OpPublishQoS1 publish notifier

datatype completed_operation =
    CompletedOpPublishQoS1 pub_ack
  | CompletedOpPublishQoS2 pub_rec
  | CompletedOpPubRec pub_rel
  | CompletedOpPubRel pub_comp
  | CompletedOpSubscribe sub_ack
  | CompletedOpUnsubscribe unsub_ack

text \<open>The receiving half of the one-shot disconnect channel: nothing sent yet, a request, or the
  sender dropped.\<close>

datatype disconnect_receiver = DisconnectOpen | DisconnectSent disconnect_request | DisconnectClosed

record channels =
  disconnect_rx :: "disconnect_receiver option"
  o_pub_q0_rx :: "publish_request_qos0 list"
  o_pub_q12_rx :: "publish_request_qos12 list"
  sub_rx :: "subscription_request list"
  ack_rx :: "acknowledgement_request list"
  auth_rx :: "reauth_request list"
  ping_rx :: "ping_request list"
  i_pub_tx :: "incoming_publish_and_token list"
  i_pub_rx_alive :: bool

datatype publish_request_with_pkid =
    WithPkidQoS0 notifier "byte_str topic" bytes bool publish_other_properties
  | WithPkidQoS1 notifier "byte_str topic" bytes bool publish_other_properties pkid
  | WithPkidQoS2 notifier "byte_str topic" bytes bool publish_other_properties pkid

datatype outgoing_packet_request =
    OutDisconnect disconnect_request
  | OutAcknowledgement acknowledgement_request
  | OutSubscription subscription_request pkid
  | OutPublish publish_request_with_pkid
  | OutReauth reauth_request
  | OutPingReq "notifier option"

record inflight_tracker =
  publish_qos1 :: "(pkid, publish \<times> notifier) imap"
  publish_qos2 :: "(pkid, publish \<times> notifier) imap"
  inflight_subscribe :: "(pkid, notifier) imap"
  inflight_unsubscribe :: "(pkid, notifier) imap"
  inflight_pubrec :: "(pkid, pub_rec \<times> notifier) imap"
  inflight_pubrel :: "(pkid, pub_rel \<times> notifier) imap"
  packets_to_replay :: "packet list"
  inflight_auth :: "(byte_str \<times> notifier) option"
  inflight_pingreq :: "(nat \<times> notifier option) list"

definition inflight_tracker_default :: inflight_tracker where
  "inflight_tracker_default =
     \<lparr>publish_qos1 = [], publish_qos2 = [], inflight_subscribe = [], inflight_unsubscribe = [],
      inflight_pubrec = [], inflight_pubrel = [], packets_to_replay = [], inflight_auth = None,
      inflight_pingreq = []\<rparr>"

datatype pending_acknowledgement = NotReady | AckReady acknowledgement_request

record session =
  ch :: channels
  session_pool :: pkid_pool
  outgoing_queue :: "outgoing_operation list"
  inflight :: inflight_tracker
  in_application :: "(pkid, pending_acknowledgement) imap"
  connected :: connection_state
  connection_epoch :: u64
  expiry_interval :: session_expiry_interval
  pingreq_timer :: "timer option"
  notifications :: "notification list"

definition channels_new :: channels where
  "channels_new =
     \<lparr>disconnect_rx = None, o_pub_q0_rx = [], o_pub_q12_rx = [], sub_rx = [], ack_rx = [],
      auth_rx = [], ping_rx = [], i_pub_tx = [], i_pub_rx_alive = True\<rparr>"

definition session_new :: "pkid \<Rightarrow> session" where
  "session_new m =
     \<lparr>ch = channels_new, session_pool = pkid_pool_new m, outgoing_queue = [],
      inflight = inflight_tracker_default, in_application = [], connected = Disconnected,
      connection_epoch = 0, expiry_interval = ExpiryDuration 0, pingreq_timer = None,
      notifications = []\<rparr>"

definition is_connected :: "session \<Rightarrow> bool" where
  "is_connected s = (case connected s of Connected _ \<Rightarrow> True | Disconnected \<Rightarrow> False)"

definition notify :: "notification list \<Rightarrow> session \<Rightarrow> session" where
  "notify ns s = s\<lparr>notifications := notifications s @ ns\<rparr>"

section \<open>Polling for an outgoing request\<close>

text \<open>The stages of \<open>poll_for_outgoing_request\<close>, last first. Keep-alive pings come last.\<close>

definition poll_keep_alive ::
    "nat \<Rightarrow> channels \<Rightarrow> timer option \<Rightarrow> pkid_pool \<Rightarrow>
     outgoing_packet_request poll \<times> channels \<times> pkid_pool" where
  "poll_keep_alive now c t pool =
     (case t of
        None \<Rightarrow> (Pending, c, pool)
      | Some tm \<Rightarrow> (if timer_poll now tm = Ready () then (Ready (OutPingReq None), c, pool)
                  else (Pending, c, pool)))"

fun with_pkid :: "publish_request_qos12 \<Rightarrow> pkid \<Rightarrow> publish_request_with_pkid" where
  "with_pkid (PublishQoS1Request n topic payload retain props) k =
     WithPkidQoS1 n topic payload retain props k"
| "with_pkid (PublishQoS2Request n topic payload retain props) k =
     WithPkidQoS2 n topic payload retain props k"

definition poll_publish_qos12 ::
    "nat \<Rightarrow> channels \<Rightarrow> timer option \<Rightarrow> pkid_pool \<Rightarrow>
     outgoing_packet_request poll \<times> channels \<times> pkid_pool" where
  "poll_publish_qos12 now c t pool =
     (case o_pub_q12_rx c of
        [] \<Rightarrow> poll_keep_alive now c t pool
      | publish # rest \<Rightarrow>
          (case lease_next_pkid pool of
             None \<Rightarrow> (Diverges, c, pool)
           | Some (Some k, pool') \<Rightarrow>
               (Ready (OutPublish (with_pkid publish k)), c\<lparr>o_pub_q12_rx := rest\<rparr>, pool')
           | Some (None, pool') \<Rightarrow> poll_keep_alive now c t pool'))"

fun qos0_request :: "publish_request_qos0 \<Rightarrow> publish_request_with_pkid" where
  "qos0_request (PublishRequestQoS0 n topic payload retain props) =
     WithPkidQoS0 n topic payload retain props"

definition poll_publish_qos0 ::
    "nat \<Rightarrow> channels \<Rightarrow> timer option \<Rightarrow> pkid_pool \<Rightarrow>
     outgoing_packet_request poll \<times> channels \<times> pkid_pool" where
  "poll_publish_qos0 now c t pool =
     (case o_pub_q0_rx c of
        [] \<Rightarrow> poll_publish_qos12 now c t pool
      | req # rest \<Rightarrow> (Ready (OutPublish (qos0_request req)), c\<lparr>o_pub_q0_rx := rest\<rparr>, pool))"

definition poll_subscriptions ::
    "nat \<Rightarrow> channels \<Rightarrow> timer option \<Rightarrow> pkid_pool \<Rightarrow>
     outgoing_packet_request poll \<times> channels \<times> pkid_pool" where
  "poll_subscriptions now c t pool =
     (case sub_rx c of
        [] \<Rightarrow> poll_publish_qos0 now c t pool
      | sub_req # rest \<Rightarrow>
          (case lease_next_pkid pool of
             None \<Rightarrow> (Diverges, c, pool)
           | Some (Some k, pool') \<Rightarrow> (Ready (OutSubscription sub_req k), c\<lparr>sub_rx := rest\<rparr>, pool')
           | Some (None, pool') \<Rightarrow> poll_publish_qos0 now c t pool'))"

text \<open>Acknowledgements, then reauthentication, then manual pings.\<close>

definition poll_control ::
    "nat \<Rightarrow> channels \<Rightarrow> timer option \<Rightarrow> pkid_pool \<Rightarrow>
     outgoing_packet_request poll \<times> channels \<times> pkid_pool" where
  "poll_control now c t pool =
     (case ack_rx c of
        ack_req # rest \<Rightarrow> (Ready (OutAcknowledgement ack_req), c\<lparr>ack_rx := rest\<rparr>, pool)
      | [] \<Rightarrow>
          (case auth_rx c of
             auth_req # rest \<Rightarrow> (Ready (OutReauth auth_req), c\<lparr>auth_rx := rest\<rparr>, pool)
           | [] \<Rightarrow>
               (case ping_rx c of
                  PingRequest n # rest \<Rightarrow> (Ready (OutPingReq (Some n)), c\<lparr>ping_rx := rest\<rparr>, pool)
                | [] \<Rightarrow> poll_subscriptions now c t pool)))"

text \<open>Disconnects get top priority. A dropped sender leaves the channel slot empty.\<close>

definition poll_for_outgoing_request ::
    "nat \<Rightarrow> channels \<Rightarrow> timer option \<Rightarrow> pkid_pool \<Rightarrow>
     outgoing_packet_request poll \<times> channels \<times> pkid_pool" where
  "poll_for_outgoing_request now c t pool =
     (case disconnect_rx c of
        Some (DisconnectSent req) \<Rightarrow> (Ready (OutDisconnect req), c\<lparr>disconnect_rx := None\<rparr>, pool)
      | Some DisconnectClosed \<Rightarrow> poll_control now (c\<lparr>disconnect_rx := None\<rparr>) t pool
      | _ \<Rightarrow> poll_control now c t pool)"

lemmas poll_defs = poll_for_outgoing_request_def poll_control_def poll_subscriptions_def
  poll_publish_qos0_def poll_publish_qos12_def poll_keep_alive_def

lemma poll_ack_rx:
  assumes "poll_for_outgoing_request now c t pool = (r, c', pool')"
  shows "ack_rx c = (case r of Ready (OutAcknowledgement a) \<Rightarrow> [a] | _ \<Rightarrow> []) @ ack_rx c'"
  using assms
  by (auto simp: poll_defs split: option.splits disconnect_receiver.splits list.splits
      ping_request.splits if_splits prod.splits)

section \<open>The next outgoing request\<close>

text \<open>The packet identifier an acknowledgement is ordered by; \<open>None\<close> for PUBCOMP, which is not.\<close>

primrec ordered_pkid :: "acknowledgement_request \<Rightarrow> pkid option" where
  "ordered_pkid (AckPubAck n p e) = Some (puback_packet_identifier p)"
| "ordered_pkid (AckPubRecAccept n p) = Some (pubrec_packet_identifier p)"
| "ordered_pkid (AckPubRecReject n p) = Some (pubrec_packet_identifier p)"
| "ordered_pkid (AckPubRel n p) = Some (pubrel_packet_identifier p)"
| "ordered_pkid (AckPubComp n p) = None"

text \<open>A PUBACK request of another connection epoch. Only PUBACK requests carry an epoch.\<close>

primrec stale_ack :: "u64 \<Rightarrow> acknowledgement_request \<Rightarrow> bool" where
  "stale_ack epoch (AckPubAck n p e) \<longleftrightarrow> e \<noteq> epoch"
| "stale_ack epoch (AckPubRecAccept n p) \<longleftrightarrow> False"
| "stale_ack epoch (AckPubRecReject n p) \<longleftrightarrow> False"
| "stale_ack epoch (AckPubRel n p) \<longleftrightarrow> False"
| "stale_ack epoch (AckPubComp n p) \<longleftrightarrow> False"

text \<open>Overwriting a pending acknowledgement drops the notifier of the one it held.\<close>

fun dropped_pending :: "pending_acknowledgement option \<Rightarrow> notification list" where
  "dropped_pending (Some (AckReady a)) = [NDrop (ack_notifier a)]"
| "dropped_pending _ = []"

text \<open>The first entry of the tracker, if it is ready, and what is left after
  \<open>shift_remove_index(0)\<close>.\<close>

fun first_ready ::
    "(pkid, pending_acknowledgement) imap \<Rightarrow>
     (acknowledgement_request \<times> (pkid, pending_acknowledgement) imap) option" where
  "first_ready ((k, AckReady ack_req) # rest) = Some (ack_req, rest)"
| "first_ready _ = None"

function next_outgoing_request :: "nat \<Rightarrow> session \<Rightarrow> outgoing_packet_request poll \<times> session" where
  "next_outgoing_request now s =
     (case first_ready (in_application s) of
        Some (ack_req, rest) \<Rightarrow>
          (let s' = s\<lparr>in_application := rest\<rparr> in
           if stale_ack (connection_epoch s) ack_req
           then next_outgoing_request now (notify [NDrop (ack_notifier ack_req)] s')
           else (Ready (OutAcknowledgement ack_req), s'))
      | None \<Rightarrow>
          (case poll_for_outgoing_request now (ch s) (pingreq_timer s) (session_pool s) of
             (r, c, pool) \<Rightarrow>
               (let s' = s\<lparr>ch := c, session_pool := pool\<rparr> in
                case r of
                  Ready (OutAcknowledgement ack_req) \<Rightarrow>
                    (if stale_ack (connection_epoch s) ack_req
                     then next_outgoing_request now (notify [NDrop (ack_notifier ack_req)] s')
                     else case ordered_pkid ack_req of
                            None \<Rightarrow> (Ready (OutAcknowledgement ack_req), s')
                          | Some k \<Rightarrow>
                              (case im_get (in_application s') k of
                                 None \<Rightarrow> (Panic ''application forged an AcknowledgementRequest for a PUBLISH that we did not give it'', s')
                               | Some old \<Rightarrow>
                                   next_outgoing_request now
                                     (notify (dropped_pending (Some old))
                                        (s'\<lparr>in_application := im_insert k (AckReady ack_req) (in_application s')\<rparr>))))
                | _ \<Rightarrow> (r, s'))))"
  by pat_completeness auto

lemma length_im_insert_present:
  "im_get m k = Some v \<Longrightarrow> length (im_insert k w m) = length m"
  by (induction m) (auto split: if_splits)

lemma first_ready_Some: "first_ready m = Some (a, rest) \<longleftrightarrow> (\<exists>k. m = (k, AckReady a) # rest)"
  by (cases m rule: first_ready.cases) auto

termination next_outgoing_request
  by (relation "measure (\<lambda>(now, s). length (ack_rx (ch s)) + length (in_application s))")
    (auto simp: notify_def length_im_insert_present first_ready_Some dest!: poll_ack_rx [OF sym])

declare next_outgoing_request.simps [simp del]

section \<open>The next outgoing packet\<close>

primrec set_dup :: "packet_identifier_dup_qos \<Rightarrow> packet_identifier_dup_qos" where
  "set_dup PdqAtMostOnce = PdqAtMostOnce"
| "set_dup (PdqAtLeastOnce k dup) = PdqAtLeastOnce k True"
| "set_dup (PdqExactlyOnce k dup) = PdqExactlyOnce k True"

definition publish_set_dup :: "publish \<Rightarrow> publish" where
  "publish_set_dup p = p\<lparr>packet_identifier_dup_qos := set_dup (packet_identifier_dup_qos p)\<rparr>"

text \<open>A replayed PUBLISH gets its DUP flag, every other packet goes out as it was stored.\<close>

definition replayed :: "packet \<Rightarrow> packet" where
  "replayed p = (case p of PublishPacket publish \<Rightarrow> PublishPacket (publish_set_dup publish) | _ \<Rightarrow> p)"

text \<open>The notifier that an \<open>insert\<close> drops when the key was in use.\<close>

definition dropped_value :: "('v \<Rightarrow> notifier) \<Rightarrow> 'v option \<Rightarrow> notification list" where
  "dropped_value f v = (case v of None \<Rightarrow> [] | Some x \<Rightarrow> [NDrop (f x)])"

fun acknowledgement_packet :: "acknowledgement_request \<Rightarrow> session \<Rightarrow> packet \<times> session" where
  "acknowledgement_packet (AckPubAck n puback epoch) s =
     (PubAckPacket puback, notify [NComplete n CompletedUnit] s)"
| "acknowledgement_packet (AckPubRecAccept n pubrec) s =
     (PubRecPacket pubrec,
      (let m = inflight_pubrec (inflight s); k = pubrec_packet_identifier pubrec in
       notify (dropped_value snd (im_get m k))
         (s\<lparr>inflight := (inflight s)\<lparr>inflight_pubrec := im_insert k (pubrec, n) m\<rparr>\<rparr>)))"
| "acknowledgement_packet (AckPubRecReject n pubrec) s =
     (PubRecPacket pubrec, notify [NComplete n CompletedUnit] s)"
| "acknowledgement_packet (AckPubRel n pubrel) s =
     (PubRelPacket pubrel,
      (let m = inflight_pubrel (inflight s); k = pubrel_packet_identifier pubrel in
       notify (dropped_value snd (im_get m k))
         (s\<lparr>inflight := (inflight s)\<lparr>inflight_pubrel := im_insert k (pubrel, n) m\<rparr>\<rparr>)))"
| "acknowledgement_packet (AckPubComp n pubcomp) s =
     (PubCompPacket pubcomp, notify [NComplete n CompletedUnit] s)"

fun subscription_packet :: "subscription_request \<Rightarrow> pkid \<Rightarrow> session \<Rightarrow> packet \<times> session" where
  "subscription_packet (SubscribeRequest n filt opts props) k s =
     (SubscribePacket
        \<lparr>subscribe_packet_identifier = k,
         subscribe_to_list = [\<lparr>topic_filter = filt, options = opts\<rparr>],
         subscribe_other_properties = props\<rparr>,
      (let m = inflight_subscribe (inflight s) in
       notify (dropped_value id (im_get m k))
         (s\<lparr>inflight := (inflight s)\<lparr>inflight_subscribe := im_insert k n m\<rparr>\<rparr>)))"
| "subscription_packet (UnsubscribeRequest n filt props) k s =
     (UnsubscribePacket
        \<lparr>unsubscribe_packet_identifier = k, unsubscribe_from = [filt],
         unsubscribe_user_properties = props\<rparr>,
      (let m = inflight_unsubscribe (inflight s) in
       notify (dropped_value id (im_get m k))
         (s\<lparr>inflight := (inflight s)\<lparr>inflight_unsubscribe := im_insert k n m\<rparr>\<rparr>)))"

fun publish_packet :: "publish_request_with_pkid \<Rightarrow> session \<Rightarrow> packet \<times> session" where
  "publish_packet (WithPkidQoS0 n topic payload retain props) s =
     (PublishPacket
        \<lparr>publish_topic_name = topic, packet_identifier_dup_qos = PdqAtMostOnce,
         publish_retain = retain, publish_payload = payload, publish_other_properties = props\<rparr>,
      notify [NComplete n CompletedUnit] s)"
| "publish_packet (WithPkidQoS1 n topic payload retain props k) s =
     (let publish =
        \<lparr>publish_topic_name = topic, packet_identifier_dup_qos = PdqAtLeastOnce k False,
         publish_retain = retain, publish_payload = payload, publish_other_properties = props\<rparr>;
          m = publish_qos1 (inflight s)
      in (PublishPacket publish,
          notify (dropped_value snd (im_get m k))
            (s\<lparr>inflight := (inflight s)\<lparr>publish_qos1 := im_insert k (publish, n) m\<rparr>\<rparr>)))"
| "publish_packet (WithPkidQoS2 n topic payload retain props k) s =
     (let publish =
        \<lparr>publish_topic_name = topic, packet_identifier_dup_qos = PdqExactlyOnce k False,
         publish_retain = retain, publish_payload = payload, publish_other_properties = props\<rparr>;
          m = publish_qos2 (inflight s)
      in (PublishPacket publish,
          notify (dropped_value snd (im_get m k))
            (s\<lparr>inflight := (inflight s)\<lparr>publish_qos2 := im_insert k (publish, n) m\<rparr>\<rparr>)))"

text \<open>Turning a request into the packet to send, with the bookkeeping for its response.\<close>

fun request_packet :: "nat \<Rightarrow> outgoing_packet_request \<Rightarrow> session \<Rightarrow> packet poll \<times> session" where
  "request_packet now (OutDisconnect (DisconnectRequest d)) s = (Ready (DisconnectPacket d), s)"
| "request_packet now (OutAcknowledgement ack_req) s =
     apfst Ready (acknowledgement_packet ack_req s)"
| "request_packet now (OutSubscription sub_req k) s = apfst Ready (subscription_packet sub_req k s)"
| "request_packet now (OutPublish pub_req) s = apfst Ready (publish_packet pub_req s)"
| "request_packet now (OutReauth (ReauthRequest n a)) s =
     (case auth_authentication a of
        None \<Rightarrow> (Panic ''outgoing AUTH guaranteed to contain an Authentication Method'', s)
      | Some au \<Rightarrow>
          (Ready (AuthPacket a),
           notify (dropped_value snd (inflight_auth (inflight s)))
             (s\<lparr>inflight := (inflight s)\<lparr>inflight_auth := Some (authentication_method au, n)\<rparr>\<rparr>)))"
| "request_packet now (OutPingReq n) s =
     (Ready PingReqPacket,
      s\<lparr>inflight := (inflight s)\<lparr>inflight_pingreq := inflight_pingreq (inflight s) @ [(now, n)]\<rparr>\<rparr>)"

definition reset_pingreq_timer :: "nat \<Rightarrow> session \<Rightarrow> session" where
  "reset_pingreq_timer now s = s\<lparr>pingreq_timer := map_option (timer_reset now) (pingreq_timer s)\<rparr>"

definition next_outgoing_packet :: "nat \<Rightarrow> session \<Rightarrow> packet poll \<times> session" where
  "next_outgoing_packet now s =
     (if \<not> is_connected s then (Panic ''assertion failed: self.is_connected()'', s)
      else case packets_to_replay (inflight s) of
        p # rest \<Rightarrow>
          (Ready (replayed p),
           reset_pingreq_timer now (s\<lparr>inflight := (inflight s)\<lparr>packets_to_replay := rest\<rparr>\<rparr>))
      | [] \<Rightarrow>
          (case next_outgoing_request now s of
             (Ready req, s') \<Rightarrow>
               (case request_packet now req s' of
                  (Ready p, s'') \<Rightarrow> (Ready p, reset_pingreq_timer now s'')
                | (r, s'') \<Rightarrow> (r, s''))
           | (Pending, s') \<Rightarrow> (Pending, s')
           | (Panic m, s') \<Rightarrow> (Panic m, s')
           | (Diverges, s') \<Rightarrow> (Diverges, s')))"

section \<open>Completing operations in flight\<close>

definition release_in_session :: "pkid \<Rightarrow> session \<Rightarrow> session" where
  "release_in_session k s = s\<lparr>session_pool := snd (release_pkid k (session_pool s))\<rparr>"

fun complete_inflight ::
    "completed_operation \<Rightarrow> session \<Rightarrow> (protocol_error + unit) \<times> session" where
  "complete_inflight (CompletedOpSubscribe suback) s =
     (let k = suback_packet_identifier suback;
          s1 = release_in_session k s;
          m = inflight_subscribe (inflight s1)
      in case im_get m k of
           None \<Rightarrow> (Inl UnexpectedPacket, s1)
         | Some n \<Rightarrow> (Inr (), notify [NComplete n (CompletedSubAck suback)]
             (s1\<lparr>inflight := (inflight s1)\<lparr>inflight_subscribe := im_remove k m\<rparr>\<rparr>)))"
| "complete_inflight (CompletedOpUnsubscribe unsuback) s =
     (let k = unsuback_packet_identifier unsuback;
          s1 = release_in_session k s;
          m = inflight_unsubscribe (inflight s1)
      in case im_get m k of
           None \<Rightarrow> (Inl UnexpectedPacket, s1)
         | Some n \<Rightarrow> (Inr (), notify [NComplete n (CompletedUnsubAck unsuback)]
             (s1\<lparr>inflight := (inflight s1)\<lparr>inflight_unsubscribe := im_remove k m\<rparr>\<rparr>)))"
| "complete_inflight (CompletedOpPublishQoS1 puback) s =
     (let k = puback_packet_identifier puback;
          s1 = release_in_session k s;
          m = publish_qos1 (inflight s1)
      in case im_get m k of
           None \<Rightarrow> (Inl UnexpectedPacket, s1)
         | Some (p, n) \<Rightarrow> (Inr (), notify [NComplete n (CompletedPubAck puback)]
             (s1\<lparr>inflight := (inflight s1)\<lparr>publish_qos1 := im_remove k m\<rparr>\<rparr>)))"
| "complete_inflight (CompletedOpPublishQoS2 pubrec) s =
     (let k = pubrec_packet_identifier pubrec;
          (token, s1) =
            (if pubrec_is_success (pubrec_reason_code pubrec) then (Some k, s)
             else (None, release_in_session k s));
          m = publish_qos2 (inflight s1)
      in case im_get m k of
           None \<Rightarrow> (Inl UnexpectedPacket, s1)
         | Some (p, n) \<Rightarrow> (Inr (), notify [NComplete n (CompletedPubRec pubrec token)]
             (s1\<lparr>inflight := (inflight s1)\<lparr>publish_qos2 := im_remove k m\<rparr>\<rparr>)))"
| "complete_inflight (CompletedOpPubRec pubrel) s =
     (let k = pubrel_packet_identifier pubrel;
          m = inflight_pubrec (inflight s)
      in case im_get m k of
           None \<Rightarrow> (Inl UnexpectedPacket, s)
         | Some (p, n) \<Rightarrow> (Inr (), notify [NComplete n (CompletedPubRel pubrel k)]
             (s\<lparr>inflight := (inflight s)\<lparr>inflight_pubrec := im_remove k m\<rparr>\<rparr>)))"
| "complete_inflight (CompletedOpPubRel pubcomp) s =
     (let k = pubcomp_packet_identifier pubcomp;
          s1 = release_in_session k s;
          m = inflight_pubrel (inflight s1)
      in case im_get m k of
           None \<Rightarrow> (Inl UnexpectedPacket, s1)
         | Some (p, n) \<Rightarrow> (Inr (), notify [NComplete n (CompletedPubComp pubcomp)]
             (s1\<lparr>inflight := (inflight s1)\<lparr>inflight_pubrel := im_remove k m\<rparr>\<rparr>)))"

section \<open>The end of a session and of a connection\<close>

text \<open>
  Draining a map: each notifier is cancelled with the reason, and each identifier is released.
  The order in which a \<open>HashMap\<close> drains is not specified; here it is the order of the list.
\<close>

definition release_all :: "pkid list \<Rightarrow> pkid_pool \<Rightarrow> pkid_pool" where
  "release_all ks p = fold (\<lambda>k q. snd (release_pkid k q)) ks p"

definition cancel_all :: "string \<Rightarrow> notifier list \<Rightarrow> notification list" where
  "cancel_all reason ns = map (\<lambda>n. NCancel n reason) ns"

definition session_expired :: "session \<Rightarrow> session" where
  "session_expired s =
     (let i = inflight s;
          s1 = notify (cancel_all ''MQTT session expired'' (map (snd \<circ> snd) (publish_qos1 i)))
                 (s\<lparr>session_pool := release_all (im_keys (publish_qos1 i)) (session_pool s)\<rparr>);
          s2 = notify (cancel_all ''MQTT session expired'' (map (snd \<circ> snd) (publish_qos2 i)))
                 (s1\<lparr>session_pool := release_all (im_keys (publish_qos2 i)) (session_pool s1)\<rparr>);
          s3 = notify (cancel_all ''MQTT session expired'' (map (snd \<circ> snd) (inflight_pubrec i))) s2;
          s4 = notify (cancel_all ''MQTT session expired'' (map (snd \<circ> snd) (inflight_pubrel i))) s3
      in s4\<lparr>inflight := i\<lparr>publish_qos1 := [], publish_qos2 := [], inflight_pubrec := [],
              inflight_pubrel := [], packets_to_replay := []\<rparr>\<rparr>)"

text \<open>The packets to send again on the next connection, if the server still has the session.\<close>

definition replay_list :: "inflight_tracker \<Rightarrow> packet list" where
  "replay_list i =
     map (\<lambda>(k, pubrel, n). PubRelPacket pubrel) (inflight_pubrel i) @
     map (\<lambda>(k, publish, n). PublishPacket (publish_set_dup publish))
       (publish_qos1 i @ publish_qos2 i)"

definition disconnected :: "session \<Rightarrow> session" where
  "disconnected s =
     (let i = inflight s;
          s1 = s\<lparr>connected := Disconnected, pingreq_timer := None\<rparr>;
          s2 = notify (cancel_all ''Client disconnected'' (map snd (inflight_subscribe i)))
                 (s1\<lparr>session_pool := release_all (im_keys (inflight_subscribe i)) (session_pool s1)\<rparr>);
          s3 = notify (cancel_all ''Client disconnected'' (map snd (inflight_unsubscribe i)))
                 (s2\<lparr>session_pool := release_all (im_keys (inflight_unsubscribe i)) (session_pool s2)\<rparr>);
          s4 = notify (cancel_all ''Client disconnected''
                 (case inflight_auth i of None \<Rightarrow> [] | Some (m, n) \<Rightarrow> [n])) s3;
          s5 = notify (cancel_all ''Client disconnected''
                 (List.map_filter snd (inflight_pingreq i))) s4;
          s6 = notify (concat (map (\<lambda>(k, v). dropped_pending (Some v)) (in_application s5)))
                 (s5\<lparr>in_application := []\<rparr>)
      in s6\<lparr>inflight := i\<lparr>inflight_subscribe := [], inflight_unsubscribe := [],
              inflight_auth := None, inflight_pingreq := [],
              packets_to_replay := replay_list i\<rparr>\<rparr>)"

definition expire_if_zero :: "session \<Rightarrow> session" where
  "expire_if_zero s = (if expiry_interval s = ExpiryDuration 0 then session_expired s else s)"

definition client_disconnect :: "disconnect \<Rightarrow> session \<Rightarrow> session" where
  "client_disconnect d s =
     (let s1 = disconnected s;
          s2 = (case disconnect_session_expiry_interval (disconnect_other_properties d) of
                  Some e \<Rightarrow> s1\<lparr>expiry_interval := e\<rparr> | None \<Rightarrow> s1)
      in expire_if_zero s2)"

definition server_disconnect :: "disconnect \<Rightarrow> session \<Rightarrow> session" where
  "server_disconnect d s = expire_if_zero (disconnected s)"

definition transport_disconnect :: "session \<Rightarrow> session" where
  "transport_disconnect s = expire_if_zero (disconnected s)"

section \<open>Incoming packets\<close>

text \<open>\<open>ByteStr\<close> compared with a Rust string: its bytes after the length prefix.\<close>

definition byte_str_bytes :: "byte_str \<Rightarrow> bytes" where
  "byte_str_bytes b = drop 2 (bd_shared (bs_binary b))"

definition authentication_method_matches ::
    "authentication option \<Rightarrow> bytes option \<Rightarrow> bool" where
  "authentication_method_matches authentication expected =
     (case (authentication, expected) of
        (None, None) \<Rightarrow> True
      | (Some a, Some e) \<Rightarrow> byte_str_bytes (authentication_method a) = e
      | _ \<Rightarrow> False)"

text \<open>\<open>allow\<close> is the crate feature \<open>__allow_omitted_auth_method\<close>.\<close>

definition connack_auth_ok :: "bool \<Rightarrow> conn_ack \<Rightarrow> bytes option \<Rightarrow> bool" where
  "connack_auth_ok allow connack client_auth_method =
     (let server_authentication = connack_authentication (connack_other_properties connack);
          is_rejected_enhanced_auth =
            client_auth_method \<noteq> None \<and> \<not> connack_is_success connack;
          is_allowed_omission =
            allow \<and> client_auth_method \<noteq> None \<and> connack_is_success connack \<and>
            server_authentication = None
      in is_allowed_omission \<or> is_rejected_enhanced_auth \<or>
         authentication_method_matches server_authentication client_auth_method)"

definition keep_alive_timer :: "nat \<Rightarrow> keep_alive \<Rightarrow> timer option" where
  "keep_alive_timer now k =
     (case k of KeepAliveDuration d \<Rightarrow> Some (timer_new now (1000 * unat d))
      | KeepAliveInfinite \<Rightarrow> None)"

definition incoming_connack ::
    "bool \<Rightarrow> nat \<Rightarrow> conn_ack \<Rightarrow> keep_alive \<Rightarrow> bytes option \<Rightarrow> session_expiry_interval \<Rightarrow> session \<Rightarrow>
     (protocol_error + unit) \<times> session" where
  "incoming_connack allow now connack client_keep_alive client_auth_method client_expiry s =
     (if \<not> connack_auth_ok allow connack client_auth_method
      then (Inl AuthenticationMethodMismatch, s)
      else case connack_reason_code connack of
        ConnectRefused r \<Rightarrow> (Inr (), s)
      | ConnectSuccess present \<Rightarrow>
          (let s1 = (if present then s else session_expired s);
               props = connack_other_properties connack;
               keep_alive = (case connack_server_keep_alive props of
                               Some k \<Rightarrow> k | None \<Rightarrow> client_keep_alive)
           in (Inr (), s1\<lparr>connection_epoch := connection_epoch s1 + 1,
                 expiry_interval := (case connack_session_expiry_interval props of
                                       Some e \<Rightarrow> e | None \<Rightarrow> client_expiry),
                 pingreq_timer := keep_alive_timer now keep_alive,
                 connected := Connected connack\<rparr>)))"

text \<open>
  Handing a publish to the application. When it dropped its receiver, the token is dropped here,
  which acknowledges the publish (\<open>n\<close> is the completion pair that drop makes).
\<close>

fun deliver :: "notifier \<Rightarrow> incoming_publish_and_token \<Rightarrow> channels \<Rightarrow> channels" where
  "deliver n (IncomingQoS0 p) c =
     (if i_pub_rx_alive c then c\<lparr>i_pub_tx := i_pub_tx c @ [IncomingQoS0 p]\<rparr> else c)"
| "deliver n (IncomingQoS1 p t) c =
     (if i_pub_rx_alive c then c\<lparr>i_pub_tx := i_pub_tx c @ [IncomingQoS1 p t]\<rparr>
      else case pub_ack_token_drop n t (Some (ack_rx c)) of
             Some q \<Rightarrow> c\<lparr>ack_rx := q\<rparr> | None \<Rightarrow> c)"

definition incoming_publish :: "notifier \<Rightarrow> publish \<Rightarrow> session \<Rightarrow> unit poll \<times> session" where
  "incoming_publish n publish s =
     (case packet_identifier_dup_qos publish of
        PdqAtMostOnce \<Rightarrow> (Ready (), s\<lparr>ch := deliver n (IncomingQoS0 publish) (ch s)\<rparr>)
      | PdqAtLeastOnce k dup \<Rightarrow>
          (let s' = notify (dropped_pending (im_get (in_application s) k))
                      (s\<lparr>in_application := im_insert k NotReady (in_application s)\<rparr>)
           in if im_get (in_application s) k \<noteq> None
              then (Panic ''TODO: Handle the case where pkid already exists'', s')
              else (Ready (), s'\<lparr>ch :=
                deliver n (IncomingQoS1 publish (pub_ack_token_new k (connection_epoch s))) (ch s)\<rparr>))
      | PdqExactlyOnce k dup \<Rightarrow>
          (Panic ''not yet implemented'',
           notify (dropped_pending (im_get (in_application s) k))
             (s\<lparr>in_application := im_insert k NotReady (in_application s)\<rparr>)))"

definition incoming_auth :: "bool \<Rightarrow> auth \<Rightarrow> session \<Rightarrow> (protocol_error + unit) \<times> session" where
  "incoming_auth allow a s =
     (case inflight_auth (inflight s) of
        None \<Rightarrow> (Inl UnexpectedPacket, s)
      | Some (method, n) \<Rightarrow>
          (let is_allowed_omission =
                 allow \<and> auth_reason_code a = AuthSuccess \<and> auth_authentication a = None;
               taken = s\<lparr>inflight := (inflight s)\<lparr>inflight_auth := None\<rparr>\<rparr>
           in if \<not> is_allowed_omission \<and>
                 \<not> authentication_method_matches (auth_authentication a) (Some (byte_str_bytes method))
              then (Inl AuthenticationMethodMismatch, s)
              else case auth_reason_code a of
                AuthSuccess \<Rightarrow>
                  (Inr (), notify [NComplete n (CompletedReauth (ReauthSuccess a))] taken)
              | ContinueAuthentication \<Rightarrow>
                  (Inr (), notify [NComplete n (CompletedReauth
                     (ReauthContinue a \<lparr>reauth_method = method\<rparr>))] taken)
              | ReAuthenticate \<Rightarrow> (Inl UnexpectedPacket, s)))"

definition incoming_pingresp :: "nat \<Rightarrow> session \<Rightarrow> session" where
  "incoming_pingresp now s =
     (case inflight_pingreq (inflight s) of
        [] \<Rightarrow> s
      | (sent_at, n) # rest \<Rightarrow>
          (let s' = s\<lparr>inflight := (inflight s)\<lparr>inflight_pingreq := rest\<rparr>\<rparr>
           in case n of None \<Rightarrow> s' | Some k \<Rightarrow> notify [NComplete k (CompletedPing (now - sent_at))] s'))"

end
