(* ===== verification/Session_Invariant.thy ===== *)
theory Session_Invariant
  imports Session
begin

text \<open>
  The packet identifiers of the session: every operation in flight holds an identifier leased
  from the pool, no two operations hold the same one, and every operation of the session keeps
  it so. The lemmas are organised by what each operation leaves alone, what it does to the pool
  and what it does to the maps of operations in flight.
\<close>

section \<open>What polling does\<close>

primrec publish_request_pkid :: "publish_request_with_pkid \<Rightarrow> pkid option" where
  "publish_request_pkid (WithPkidQoS0 n t p r props) = None"
| "publish_request_pkid (WithPkidQoS1 n t p r props k) = Some k"
| "publish_request_pkid (WithPkidQoS2 n t p r props k) = Some k"

text \<open>The identifier that was leased for a request.\<close>

primrec request_pkid :: "outgoing_packet_request \<Rightarrow> pkid option" where
  "request_pkid (OutDisconnect d) = None"
| "request_pkid (OutAcknowledgement a) = None"
| "request_pkid (OutSubscription q k) = Some k"
| "request_pkid (OutPublish p) = publish_request_pkid p"
| "request_pkid (OutReauth a) = None"
| "request_pkid (OutPingReq n) = None"

definition polled_pkids :: "outgoing_packet_request poll \<Rightarrow> pkid set" where
  "polled_pkids r = (case poll_value r of Some q \<Rightarrow> set_option (request_pkid q) | None \<Rightarrow> {})"

lemma polled_pkids_simps [simp]:
  "polled_pkids Pending = {}" "polled_pkids Diverges = {}" "polled_pkids (Panic m) = {}"
  "polled_pkids (Ready q) = set_option (request_pkid q)"
  by (simp_all add: polled_pkids_def)

lemma with_pkid_pkid [simp]: "publish_request_pkid (with_pkid p k) = Some k"
  by (cases p) simp_all

lemma qos0_request_pkid [simp]: "publish_request_pkid (qos0_request p) = None"
  by (cases p) simp

text \<open>
  A poll leases exactly the identifier that its request carries, never one in use, and it
  returns.
\<close>

definition pool_grows :: "pkid_pool \<Rightarrow> outgoing_packet_request poll \<Rightarrow> pkid_pool \<Rightarrow> bool" where
  "pool_grows p r p' \<longleftrightarrow>
     r \<noteq> Diverges \<and> pool_inv p' \<and> pkid_space p' = pkid_space p \<and>
     leased p' = leased p \<union> polled_pkids r \<and> polled_pkids r \<inter> leased p = {}"

lemma poll_keep_alive_pool:
  "pool_inv p \<Longrightarrow> poll_keep_alive now c t p = (r, c', p') \<Longrightarrow> pool_grows p r p'"
  by (auto simp: poll_keep_alive_def pool_grows_def split: option.splits if_splits)

lemma poll_publish_qos12_pool:
  assumes "pool_inv p" and "poll_publish_qos12 now c t p = (r, c', p')"
  shows "pool_grows p r p'"
  using assms(1)
proof (cases rule: pool.lease_outcome)
  case full
  with assms show ?thesis
    by (auto simp: poll_publish_qos12_def intro: poll_keep_alive_pool split: list.splits)
next
  case (fresh k q)
  show ?thesis
  proof (cases "o_pub_q12_rx c")
    case Nil
    with assms show ?thesis by (simp add: poll_publish_qos12_def poll_keep_alive_pool)
  qed (use fresh assms in \<open>auto simp: poll_publish_qos12_def pool_grows_def\<close>)
qed

lemma poll_publish_qos0_pool:
  assumes "pool_inv p" and "poll_publish_qos0 now c t p = (r, c', p')"
  shows "pool_grows p r p'"
  using assms poll_publish_qos12_pool [OF assms(1)]
  by (auto simp: poll_publish_qos0_def pool_grows_def split: list.splits)

lemma poll_subscriptions_pool:
  assumes "pool_inv p" and "poll_subscriptions now c t p = (r, c', p')"
  shows "pool_grows p r p'"
  using assms(1)
proof (cases rule: pool.lease_outcome)
  case full
  with assms show ?thesis
    by (auto simp: poll_subscriptions_def intro: poll_publish_qos0_pool split: list.splits)
next
  case (fresh k q)
  show ?thesis
  proof (cases "sub_rx c")
    case Nil
    with assms show ?thesis by (simp add: poll_subscriptions_def poll_publish_qos0_pool)
  qed (use fresh assms in \<open>auto simp: poll_subscriptions_def pool_grows_def\<close>)
qed

lemma poll_for_outgoing_request_pool:
  assumes "pool_inv p" and "poll_for_outgoing_request now c t p = (r, c', p')"
  shows "pool_grows p r p'"
  using assms poll_subscriptions_pool [OF assms(1)]
  by (auto simp: poll_for_outgoing_request_def poll_control_def pool_grows_def
      split: option.splits disconnect_receiver.splits list.splits ping_request.splits)

section \<open>What the request loop does\<close>

text \<open>
  The rule for the loop of \<open>next_outgoing_request\<close>: \<open>P\<close> holds before every iteration, and every
  way to leave the loop establishes \<open>Q\<close>.
\<close>

lemma next_outgoing_request_rule:
  assumes run: "next_outgoing_request now s = (r, s')"
    and start: "P s"
    and skip_ready: "\<And>s k a rest. P s \<Longrightarrow> in_application s = (k, AckReady a) # rest \<Longrightarrow>
      stale_ack (connection_epoch s) a \<Longrightarrow>
      P (notify [NDrop (ack_notifier a)] (s\<lparr>in_application := rest\<rparr>))"
    and send_ready: "\<And>s k a rest. P s \<Longrightarrow> in_application s = (k, AckReady a) # rest \<Longrightarrow>
      \<not> stale_ack (connection_epoch s) a \<Longrightarrow>
      Q (Ready (OutAcknowledgement a)) (s\<lparr>in_application := rest\<rparr>)"
    and skip_polled: "\<And>s a c p. P s \<Longrightarrow> first_ready (in_application s) = None \<Longrightarrow>
      poll_for_outgoing_request now (ch s) (pingreq_timer s) (session_pool s) =
        (Ready (OutAcknowledgement a), c, p) \<Longrightarrow> stale_ack (connection_epoch s) a \<Longrightarrow>
      P (notify [NDrop (ack_notifier a)] (s\<lparr>ch := c, session_pool := p\<rparr>))"
    and file_polled: "\<And>s a c p k old. P s \<Longrightarrow> first_ready (in_application s) = None \<Longrightarrow>
      poll_for_outgoing_request now (ch s) (pingreq_timer s) (session_pool s) =
        (Ready (OutAcknowledgement a), c, p) \<Longrightarrow> \<not> stale_ack (connection_epoch s) a \<Longrightarrow>
      ordered_pkid a = Some k \<Longrightarrow> im_get (in_application s) k = Some old \<Longrightarrow>
      P (notify (dropped_pending (Some old))
          (s\<lparr>ch := c, session_pool := p,
             in_application := im_insert k (AckReady a) (in_application s)\<rparr>))"
    and forged: "\<And>s a c p k m. P s \<Longrightarrow> first_ready (in_application s) = None \<Longrightarrow>
      poll_for_outgoing_request now (ch s) (pingreq_timer s) (session_pool s) =
        (Ready (OutAcknowledgement a), c, p) \<Longrightarrow> \<not> stale_ack (connection_epoch s) a \<Longrightarrow>
      ordered_pkid a = Some k \<Longrightarrow> im_get (in_application s) k = None \<Longrightarrow>
      Q (Panic m) (s\<lparr>ch := c, session_pool := p\<rparr>)"
    and unordered: "\<And>s a c p. P s \<Longrightarrow> first_ready (in_application s) = None \<Longrightarrow>
      poll_for_outgoing_request now (ch s) (pingreq_timer s) (session_pool s) =
        (Ready (OutAcknowledgement a), c, p) \<Longrightarrow> \<not> stale_ack (connection_epoch s) a \<Longrightarrow>
      ordered_pkid a = None \<Longrightarrow>
      Q (Ready (OutAcknowledgement a)) (s\<lparr>ch := c, session_pool := p\<rparr>)"
    and other: "\<And>s q c p. P s \<Longrightarrow> first_ready (in_application s) = None \<Longrightarrow>
      poll_for_outgoing_request now (ch s) (pingreq_timer s) (session_pool s) = (q, c, p) \<Longrightarrow>
      (\<And>a. q \<noteq> Ready (OutAcknowledgement a)) \<Longrightarrow> Q q (s\<lparr>ch := c, session_pool := p\<rparr>)"
  shows "Q r s'"
  using run start
proof (induction "length (ack_rx (ch s)) + length (in_application s)" arbitrary: s rule: less_induct)
  case (less s)
  note unfold = next_outgoing_request.simps [of now s]
  show ?case
  proof (cases "first_ready (in_application s)")
    case (Some x)
    then obtain a rest k where x: "x = (a, rest)" and k: "in_application s = (k, AckReady a) # rest"
      by (cases x) (auto simp: first_ready_Some)
    show ?thesis
    proof (cases "stale_ack (connection_epoch s) a")
      case True
      show ?thesis
        by (rule less.hyps [OF _ _ skip_ready [OF less.prems(2) k True]])
          (use less.prems(1) Some x k True in \<open>simp_all add: unfold notify_def\<close>)
    next
      case False
      with less.prems(1) Some x send_ready [OF less.prems(2) k False] show ?thesis
        by (simp add: unfold)
    qed
  next
    case None
    obtain q c p where poll: "poll_for_outgoing_request now (ch s) (pingreq_timer s) (session_pool s) = (q, c, p)"
      by (metis prod_cases3)
    show ?thesis
    proof (cases "\<exists>a. q = Ready (OutAcknowledgement a)")
      case False
      have "(r, s') = (q, s\<lparr>ch := c, session_pool := p\<rparr>)"
        using less.prems(1) None poll False
        by (auto simp: unfold Let_def split: poll.splits outgoing_packet_request.splits)
      with other [OF less.prems(2) None poll] False show ?thesis by auto
    next
      case True
      then obtain a where a: "q = Ready (OutAcknowledgement a)" by blast
      note polled = poll [unfolded a]
      note shorter = poll_ack_rx [OF polled]
      consider "stale_ack (connection_epoch s) a"
        | "\<not> stale_ack (connection_epoch s) a" "ordered_pkid a = None"
        | k where "\<not> stale_ack (connection_epoch s) a" "ordered_pkid a = Some k"
            "im_get (in_application s) k = None"
        | k old where "\<not> stale_ack (connection_epoch s) a" "ordered_pkid a = Some k"
            "im_get (in_application s) k = Some old"
        by (cases "ordered_pkid a") force+
      then show ?thesis
      proof cases
        case 1
        show ?thesis
          by (rule less.hyps [OF _ _ skip_polled [OF less.prems(2) None polled 1]])
            (use less.prems(1) None polled shorter 1 in \<open>simp_all add: unfold notify_def\<close>)
      next
        case 2
        with less.prems(1) None polled unordered [OF less.prems(2) None polled 2] show ?thesis
          by (simp add: unfold)
      next
        case 3
        with less.prems(1) None polled forged [OF less.prems(2) None polled 3] show ?thesis
          by (auto simp: unfold)
      next
        case (4 k old)
        show ?thesis
          by (rule less.hyps [OF _ _ file_polled [OF less.prems(2) None polled 4]])
            (use less.prems(1) None polled shorter 4 in
              \<open>simp_all add: unfold notify_def length_im_insert_present\<close>)
      qed
    qed
  qed
qed

text \<open>The parts of the session that the request loop never touches.\<close>

lemma next_outgoing_request_frame:
  assumes "next_outgoing_request now s = (r, s')"
  shows "inflight s' = inflight s \<and> connected s' = connected s \<and>
    connection_epoch s' = connection_epoch s \<and> expiry_interval s' = expiry_interval s \<and>
    pingreq_timer s' = pingreq_timer s \<and> outgoing_queue s' = outgoing_queue s"
  by (rule next_outgoing_request_rule [OF assms, where P = "\<lambda>t. inflight t = inflight s \<and>
      connected t = connected s \<and> connection_epoch t = connection_epoch s \<and>
      expiry_interval t = expiry_interval s \<and> pingreq_timer t = pingreq_timer s \<and>
      outgoing_queue t = outgoing_queue s"])
    (simp_all add: notify_def)

lemma next_outgoing_request_pool:
  assumes "pool_inv (session_pool s)" and "next_outgoing_request now s = (r, s')"
  shows "pool_grows (session_pool s) r (session_pool s')"
proof (rule next_outgoing_request_rule [OF assms(2), where P = "\<lambda>t. pool_inv (session_pool t) \<and>
    leased (session_pool t) = leased (session_pool s) \<and>
    pkid_space (session_pool t) = pkid_space (session_pool s)"], goal_cases)
  case (4 t a c p)
  with poll_for_outgoing_request_pool show ?case by (fastforce simp: notify_def pool_grows_def)
next
  case (5 t a c p k old)
  with poll_for_outgoing_request_pool show ?case by (fastforce simp: notify_def pool_grows_def)
next
  case (6 t a c p k m)
  with poll_for_outgoing_request_pool show ?case by (fastforce simp: notify_def pool_grows_def)
next
  case (7 t a c p)
  with poll_for_outgoing_request_pool show ?case by (fastforce simp: notify_def pool_grows_def)
next
  case (8 t q c p)
  with poll_for_outgoing_request_pool [of "session_pool t" now "ch t" "pingreq_timer t" q c p]
  show ?case by (simp add: pool_grows_def)
qed (use assms(1) in \<open>simp_all add: notify_def pool_grows_def\<close>)

section \<open>The identifiers in flight\<close>

definition inflight_pkids :: "inflight_tracker \<Rightarrow> pkid list" where
  "inflight_pkids i =
     im_keys (publish_qos1 i) @ im_keys (publish_qos2 i) @ im_keys (inflight_subscribe i) @
     im_keys (inflight_unsubscribe i) @ im_keys (inflight_pubrel i)"

text \<open>The acknowledgements that wait in the channel or in the tracker.\<close>

definition pending_acks :: "(pkid, pending_acknowledgement) imap \<Rightarrow> acknowledgement_request list" where
  "pending_acks m = concat (map (\<lambda>(k, v). case v of AckReady a \<Rightarrow> [a] | NotReady \<Rightarrow> []) m)"

definition acks_of :: "session \<Rightarrow> acknowledgement_request list" where
  "acks_of s = ack_rx (ch s) @ pending_acks (in_application s)"

primrec is_pubrel_request :: "acknowledgement_request \<Rightarrow> bool" where
  "is_pubrel_request (AckPubAck n p e) = False"
| "is_pubrel_request (AckPubRecAccept n p) = False"
| "is_pubrel_request (AckPubRecReject n p) = False"
| "is_pubrel_request (AckPubRel n p) = True"
| "is_pubrel_request (AckPubComp n p) = False"

text \<open>
  The invariant: the maps of operations in flight share no key (which the sources say is not
  enforced) and all their keys are leased. No PUBREL request is pending, since
  \<open>PubRelToken::confirm\<close> and its \<open>Drop\<close> are not implemented and nothing else makes one.
\<close>

definition pkid_inv :: "session \<Rightarrow> bool" where
  "pkid_inv s \<longleftrightarrow>
     pool_inv (session_pool s) \<and> distinct (inflight_pkids (inflight s)) \<and>
     set (inflight_pkids (inflight s)) \<subseteq> leased (session_pool s) \<and>
     list_all (\<lambda>a. \<not> is_pubrel_request a) (acks_of s)"

text \<open>Identifiers that are leased although no operation in flight holds them.\<close>

definition leaked :: "session \<Rightarrow> pkid set" where
  "leaked s = leased (session_pool s) - set (inflight_pkids (inflight s))"

lemma pending_acks_simps [simp]:
  "pending_acks [] = []"
  "pending_acks ((k, NotReady) # m) = pending_acks m"
  "pending_acks ((k, AckReady a) # m) = a # pending_acks m"
  by (simp_all add: pending_acks_def)

lemma set_pending_acks: "set (pending_acks m) = {a. \<exists>k. (k, AckReady a) \<in> set m}"
proof (induction m)
  case (Cons e m)
  then show ?case by (cases e; cases "snd e") auto
qed simp

lemma set_im_insert: "set (im_insert k v m) \<subseteq> insert (k, v) (set m)"
  by (induction m) (auto split: if_splits)

lemma pending_acks_insert:
  "set (pending_acks (im_insert k (AckReady a) m)) \<subseteq> insert a (set (pending_acks m))"
  "set (pending_acks (im_insert k NotReady m)) \<subseteq> set (pending_acks m)"
  using set_im_insert [of k _ m] by (auto simp: set_pending_acks)

lemma next_outgoing_request_acks:
  assumes "next_outgoing_request now s = (r, s')"
  shows "set (acks_of s') \<subseteq> set (acks_of s) \<and>
    (\<forall>a. r = Ready (OutAcknowledgement a) \<longrightarrow> a \<in> set (acks_of s))"
proof (rule next_outgoing_request_rule [OF assms,
      where P = "\<lambda>t. set (acks_of t) \<subseteq> set (acks_of s)"], goal_cases)
  case (5 t a c p k old)
  then show ?case
    using poll_ack_rx [OF 5(3)] pending_acks_insert(1) [of k a "in_application t"]
    by (auto simp: acks_of_def notify_def)
qed (auto simp: acks_of_def notify_def dest!: poll_ack_rx)

section \<open>Every operation keeps the invariant\<close>

lemma inflight_pkids_update [simp]:
  "inflight_pkids (i\<lparr>inflight_pubrec := x\<rparr>) = inflight_pkids i"
  "inflight_pkids (i\<lparr>packets_to_replay := y\<rparr>) = inflight_pkids i"
  "inflight_pkids (i\<lparr>inflight_auth := z\<rparr>) = inflight_pkids i"
  "inflight_pkids (i\<lparr>inflight_pingreq := w\<rparr>) = inflight_pkids i"
  by (simp_all add: inflight_pkids_def)

lemma inflight_wf:
  assumes "distinct (inflight_pkids i)"
  shows "im_wf (publish_qos1 i)" "im_wf (publish_qos2 i)" "im_wf (inflight_subscribe i)"
    "im_wf (inflight_unsubscribe i)" "im_wf (inflight_pubrel i)"
  using assms by (simp_all add: inflight_pkids_def im_wf_def)

text \<open>Adding an operation under an identifier that none of the maps has.\<close>

definition adds_pkids :: "pkid set \<Rightarrow> inflight_tracker \<Rightarrow> inflight_tracker \<Rightarrow> bool" where
  "adds_pkids K i i' \<longleftrightarrow>
     distinct (inflight_pkids i') \<and> set (inflight_pkids i') = set (inflight_pkids i) \<union> K"

lemma adds_pkids_same: "distinct (inflight_pkids i) \<Longrightarrow> inflight_pkids i' = inflight_pkids i \<Longrightarrow> adds_pkids {} i i'"
  by (simp add: adds_pkids_def)

lemma adds_pkids_insert:
  assumes "distinct (inflight_pkids i)" and "k \<notin> set (inflight_pkids i)"
  shows "adds_pkids {k} i (i\<lparr>publish_qos1 := im_insert k v (publish_qos1 i)\<rparr>)"
    "adds_pkids {k} i (i\<lparr>publish_qos2 := im_insert k v (publish_qos2 i)\<rparr>)"
    "adds_pkids {k} i (i\<lparr>inflight_subscribe := im_insert k n (inflight_subscribe i)\<rparr>)"
    "adds_pkids {k} i (i\<lparr>inflight_unsubscribe := im_insert k n (inflight_unsubscribe i)\<rparr>)"
  using assms by (auto simp: adds_pkids_def inflight_pkids_def)

lemma request_packet_inflight:
  assumes "distinct (inflight_pkids (inflight s))"
    and "set_option (request_pkid q) \<inter> set (inflight_pkids (inflight s)) = {}"
    and "\<And>a. q = OutAcknowledgement a \<Longrightarrow> \<not> is_pubrel_request a"
    and "request_packet now q s = (r, s')"
  shows "adds_pkids (set_option (request_pkid q)) (inflight s) (inflight s')"
proof (cases q)
  case (OutAcknowledgement a)
  with assms show ?thesis
    by (cases a) (auto simp: adds_pkids_same notify_def Let_def)
next
  case (OutSubscription sub k)
  with assms show ?thesis
    by (cases sub) (auto simp: adds_pkids_insert notify_def Let_def)
next
  case (OutPublish p)
  with assms show ?thesis
    by (cases p) (auto simp: adds_pkids_insert adds_pkids_same notify_def Let_def)
next
  case (OutReauth x)
  with assms show ?thesis
    by (cases x) (auto simp: adds_pkids_same notify_def split: option.splits)
next
  case (OutDisconnect d)
  with assms show ?thesis by (cases d) (auto simp: adds_pkids_same)
qed (use assms in \<open>auto simp: adds_pkids_same\<close>)

text \<open>Parts of the session that building the packet leaves alone.\<close>

lemma request_packet_frame:
  assumes "request_packet now q s = (r, s')"
  shows "session_pool s' = session_pool s \<and> ch s' = ch s \<and> in_application s' = in_application s \<and>
    connected s' = connected s \<and> connection_epoch s' = connection_epoch s \<and>
    packets_to_replay (inflight s') = packets_to_replay (inflight s)"
proof (cases q)
  case (OutAcknowledgement a)
  with assms show ?thesis by (cases a) (auto simp: notify_def Let_def)
next
  case (OutSubscription sub k)
  with assms show ?thesis by (cases sub) (auto simp: notify_def Let_def)
next
  case (OutPublish p)
  with assms show ?thesis by (cases p) (auto simp: notify_def Let_def)
next
  case (OutReauth x)
  with assms show ?thesis by (cases x) (auto simp: notify_def split: option.splits)
next
  case (OutDisconnect d)
  with assms show ?thesis by (cases d) auto
qed (use assms in auto)

text \<open>The ways \<open>next_outgoing_packet\<close> can go on an established connection.\<close>

lemma next_outgoing_packet_cases:
  assumes "next_outgoing_packet now s = (r, s')"
  obtains (not_connected) m where "\<not> is_connected s" "r = Panic m" "s' = s"
  | (replay) p rest where "is_connected s" "packets_to_replay (inflight s) = p # rest"
      "r = Ready (replayed p)"
      "s' = reset_pingreq_timer now (s\<lparr>inflight := (inflight s)\<lparr>packets_to_replay := rest\<rparr>\<rparr>)"
  | (request) q s1 s2 where "is_connected s" "packets_to_replay (inflight s) = []"
      "next_outgoing_request now s = (Ready q, s1)" "request_packet now q s1 = (r, s2)"
      "s' = s2 \<and> (\<forall>p. r \<noteq> Ready p) \<or> s' = reset_pingreq_timer now s2"
  | (stopped) q where "is_connected s" "packets_to_replay (inflight s) = []"
      "next_outgoing_request now s = (q, s')" "poll_value q = None" "poll_ok r = poll_ok q"
      "(r = Diverges) = (q = Diverges)" "poll_value r = None"
proof (cases "is_connected s")
  case False
  with assms show thesis by (intro not_connected) (auto simp: next_outgoing_packet_def)
next
  case True
  show thesis
  proof (cases "packets_to_replay (inflight s)")
    case (Cons p rest)
    with assms True show thesis by (intro replay) (auto simp: next_outgoing_packet_def)
  next
    case Nil
    obtain q s1 where q: "next_outgoing_request now s = (q, s1)" by (cases "next_outgoing_request now s")
    show thesis
    proof (cases q)
      case (Ready req)
      obtain x s2 where x: "request_packet now req s1 = (x, s2)" by (cases "request_packet now req s1")
      with True Nil q Ready have "next_outgoing_packet now s =
          (case x of Ready p \<Rightarrow> (Ready p, reset_pingreq_timer now s2) | _ \<Rightarrow> (x, s2))"
        by (simp add: next_outgoing_packet_def split: poll.split)
      with assms have "x = r \<and> (s' = s2 \<and> (\<forall>p. r \<noteq> Ready p) \<or> s' = reset_pingreq_timer now s2)"
        by (auto split: poll.splits)
      with x q Ready show thesis by (intro request [OF True Nil, of req s1 s2]) auto
    qed (use assms True Nil q stopped [of q] in \<open>auto simp: next_outgoing_packet_def\<close>)
  qed
qed

lemma reset_pingreq_timer_frame [simp]:
  "session_pool (reset_pingreq_timer now s) = session_pool s"
  "inflight (reset_pingreq_timer now s) = inflight s"
  "ch (reset_pingreq_timer now s) = ch s"
  "in_application (reset_pingreq_timer now s) = in_application s"
  "connected (reset_pingreq_timer now s) = connected s"
  "connection_epoch (reset_pingreq_timer now s) = connection_epoch s"
  "expiry_interval (reset_pingreq_timer now s) = expiry_interval s"
  "notifications (reset_pingreq_timer now s) = notifications s"
  "acks_of (reset_pingreq_timer now s) = acks_of s"
  by (simp_all add: reset_pingreq_timer_def acks_of_def)

lemma request_packet_returns: "request_packet now q s = (r, s') \<Longrightarrow> r \<noteq> Diverges"
  by (cases "(now, q, s)" rule: request_packet.cases)
    (auto simp: apfst_def map_prod_def split: option.splits prod.splits)

lemma next_outgoing_packet_pkid_inv:
  assumes "pkid_inv s" and "next_outgoing_packet now s = (r, s')"
  shows "pkid_inv s' \<and> leaked s' = leaked s \<and> r \<noteq> Diverges"
  using assms(2)
proof (cases rule: next_outgoing_packet_cases)
  case (replay p rest)
  with assms(1) show ?thesis by (simp add: pkid_inv_def acks_of_def leaked_def)
next
  case (request q s1 s2)
  have grows: "pool_grows (session_pool s) (Ready q) (session_pool s1)"
    using assms(1) request(3) by (intro next_outgoing_request_pool) (simp add: pkid_inv_def)
  note loop = next_outgoing_request_frame [OF request(3)] next_outgoing_request_acks [OF request(3)]
  note frame = request_packet_frame [OF request(4)]
  have adds: "adds_pkids (set_option (request_pkid q)) (inflight s1) (inflight s2)"
    using assms(1) grows loop request(4)
    by (intro request_packet_inflight [of s1 q now r s2])
      (auto simp: pkid_inv_def pool_grows_def list_all_iff)
  have "pkid_inv s2"
    using assms(1) grows loop frame adds
    by (auto simp: pkid_inv_def pool_grows_def adds_pkids_def list_all_iff acks_of_def)
  moreover have "leaked s2 = leaked s"
    using assms(1) grows loop frame adds
    by (auto simp: pkid_inv_def pool_grows_def adds_pkids_def leaked_def)
  ultimately have "pkid_inv s' \<and> leaked s' = leaked s"
    using request(5) by (auto simp: pkid_inv_def leaked_def)
  with request_packet_returns [OF request(4)] show ?thesis by simp
next
  case (stopped q)
  have "pool_grows (session_pool s) q (session_pool s')"
    using assms(1) stopped(3) by (intro next_outgoing_request_pool) (simp add: pkid_inv_def)
  then show ?thesis
    using assms(1) stopped next_outgoing_request_frame [OF stopped(3)]
      next_outgoing_request_acks [OF stopped(3)]
    by (auto simp: pkid_inv_def pool_grows_def list_all_iff polled_pkids_def leaked_def)
qed (use assms in simp)

text \<open>A completed operation takes its identifier out of the map and out of the pool.\<close>

definition removes_pkid :: "pkid \<Rightarrow> inflight_tracker \<Rightarrow> inflight_tracker \<Rightarrow> bool" where
  "removes_pkid k i i' \<longleftrightarrow>
     distinct (inflight_pkids i') \<and> set (inflight_pkids i') = set (inflight_pkids i) - {k}"

lemma removes_pkid_remove:
  assumes "distinct (inflight_pkids i)"
  shows "im_get (publish_qos1 i) k = Some v \<Longrightarrow>
      removes_pkid k i (i\<lparr>publish_qos1 := im_remove k (publish_qos1 i)\<rparr>)"
    "im_get (publish_qos2 i) k = Some v \<Longrightarrow>
      removes_pkid k i (i\<lparr>publish_qos2 := im_remove k (publish_qos2 i)\<rparr>)"
    "im_get (inflight_subscribe i) k = Some n \<Longrightarrow>
      removes_pkid k i (i\<lparr>inflight_subscribe := im_remove k (inflight_subscribe i)\<rparr>)"
    "im_get (inflight_unsubscribe i) k = Some n \<Longrightarrow>
      removes_pkid k i (i\<lparr>inflight_unsubscribe := im_remove k (inflight_unsubscribe i)\<rparr>)"
    "im_get (inflight_pubrel i) k = Some w \<Longrightarrow>
      removes_pkid k i (i\<lparr>inflight_pubrel := im_remove k (inflight_pubrel i)\<rparr>)"
  using assms inflight_wf [OF assms]
  by (auto simp: removes_pkid_def inflight_pkids_def im_keys_remove dest!: im_get_Some_key)

lemma removes_pkid_inv:
  assumes "pkid_inv s" and "removes_pkid k (inflight s) i"
    and "session_pool s' = session_pool s \<or> session_pool s' = snd (release_pkid k (session_pool s))"
    and "inflight s' = i" and "acks_of s' = acks_of s"
  shows "pkid_inv s'"
  using assms by (auto simp: pkid_inv_def removes_pkid_def release_pkid_inv)

lemma complete_inflight_pkid_inv:
  assumes inv: "pkid_inv s" and run: "complete_inflight op s = (Inr (), s')"
  shows "pkid_inv s'"
proof -
  have d: "distinct (inflight_pkids (inflight s))" using inv by (simp add: pkid_inv_def)
  note simps = Let_def notify_def release_in_session_def acks_of_def
  show ?thesis
  proof (cases op)
    case (CompletedOpPubRec p)
    with run inv show ?thesis
      by (auto simp: simps pkid_inv_def split: option.splits)
  next
    case (CompletedOpPublishQoS1 p)
    with run show ?thesis
      by (auto simp: simps split: option.splits
          intro!: removes_pkid_inv [OF inv removes_pkid_remove(1) [OF d]])
  next
    case (CompletedOpPublishQoS2 p)
    with run show ?thesis
      by (auto simp: simps split: option.splits if_splits
          intro!: removes_pkid_inv [OF inv removes_pkid_remove(2) [OF d]])
  next
    case (CompletedOpSubscribe p)
    with run show ?thesis
      by (auto simp: simps split: option.splits
          intro!: removes_pkid_inv [OF inv removes_pkid_remove(3) [OF d]])
  next
    case (CompletedOpUnsubscribe p)
    with run show ?thesis
      by (auto simp: simps split: option.splits
          intro!: removes_pkid_inv [OF inv removes_pkid_remove(4) [OF d]])
  next
    case (CompletedOpPubRel p)
    with run show ?thesis
      by (auto simp: simps split: option.splits
          intro!: removes_pkid_inv [OF inv removes_pkid_remove(5) [OF d]])
  qed
qed

lemma release_all_simps [simp]:
  "leased (release_all ks p) = leased p - set ks"
  "pkid_space (release_all ks p) = pkid_space p"
  "pool_inv p \<Longrightarrow> pool_inv (release_all ks p)"
  unfolding release_all_def
  by (rule pool.release_all_in_use, rule pool.release_all_space, rule pool.release_all_invar)

lemma session_expired_fields:
  "leased (session_pool (session_expired s)) =
     leased (session_pool s) - set (im_keys (publish_qos1 (inflight s))) -
     set (im_keys (publish_qos2 (inflight s)))"
  "pool_inv (session_pool s) \<Longrightarrow> pool_inv (session_pool (session_expired s))"
  "inflight (session_expired s) = (inflight s)\<lparr>publish_qos1 := [], publish_qos2 := [],
     inflight_pubrec := [], inflight_pubrel := [], packets_to_replay := []\<rparr>"
  "ch (session_expired s) = ch s" "in_application (session_expired s) = in_application s"
  "connected (session_expired s) = connected s"
  "connection_epoch (session_expired s) = connection_epoch s"
  "expiry_interval (session_expired s) = expiry_interval s"
  "pingreq_timer (session_expired s) = pingreq_timer s"
  by (simp_all add: session_expired_def Let_def notify_def)

lemma disconnected_fields:
  "leased (session_pool (disconnected s)) =
     leased (session_pool s) - set (im_keys (inflight_subscribe (inflight s))) -
     set (im_keys (inflight_unsubscribe (inflight s)))"
  "pool_inv (session_pool s) \<Longrightarrow> pool_inv (session_pool (disconnected s))"
  "inflight (disconnected s) = (inflight s)\<lparr>inflight_subscribe := [], inflight_unsubscribe := [],
     inflight_auth := None, inflight_pingreq := [],
     packets_to_replay := replay_list (inflight s)\<rparr>"
  "ch (disconnected s) = ch s" "in_application (disconnected s) = []"
  "connected (disconnected s) = Disconnected"
  "connection_epoch (disconnected s) = connection_epoch s"
  "expiry_interval (disconnected s) = expiry_interval s"
  "pingreq_timer (disconnected s) = None"
  by (simp_all add: disconnected_def Let_def notify_def)

lemma session_expired_pkid_inv: "pkid_inv s \<Longrightarrow> pkid_inv (session_expired s)"
  by (auto simp: pkid_inv_def session_expired_fields acks_of_def inflight_pkids_def)

lemma disconnected_pkid_inv: "pkid_inv s \<Longrightarrow> pkid_inv (disconnected s)"
  by (auto simp: pkid_inv_def disconnected_fields acks_of_def inflight_pkids_def)

lemma expire_if_zero_pkid_inv: "pkid_inv s \<Longrightarrow> pkid_inv (expire_if_zero s)"
  by (simp add: expire_if_zero_def session_expired_pkid_inv)

lemma pkid_inv_cong:
  assumes "session_pool s = session_pool t" and "acks_of s = acks_of t"
    and "inflight_pkids (inflight s) = inflight_pkids (inflight t)"
  shows "pkid_inv s = pkid_inv t"
  by (simp add: pkid_inv_def assms)

lemma disconnect_pkid_inv:
  assumes "pkid_inv s"
  shows "pkid_inv (client_disconnect d s)" "pkid_inv (server_disconnect d s)"
    "pkid_inv (transport_disconnect s)"
proof -
  have inv: "pkid_inv (disconnected s)" using assms by (rule disconnected_pkid_inv)
  then show "pkid_inv (server_disconnect d s)" "pkid_inv (transport_disconnect s)"
    by (simp_all add: server_disconnect_def transport_disconnect_def expire_if_zero_pkid_inv)
  have "pkid_inv ((disconnected s)\<lparr>expiry_interval := e\<rparr>)" for e
    using inv by (subst pkid_inv_cong) (simp_all add: acks_of_def)
  with inv show "pkid_inv (client_disconnect d s)"
    by (simp add: client_disconnect_def Let_def expire_if_zero_pkid_inv split: option.split)
qed

lemma incoming_connack_pkid_inv:
  assumes "pkid_inv s"
  shows "pkid_inv (snd (incoming_connack allow now c ka am ei s))"
proof -
  have "pkid_inv (t\<lparr>connection_epoch := e, expiry_interval := x, pingreq_timer := y, connected := z\<rparr>)"
    if "pkid_inv t" for t :: session and e x y z
    using that by (subst pkid_inv_cong) (simp_all add: acks_of_def)
  with assms session_expired_pkid_inv [OF assms] show ?thesis
    by (auto simp: incoming_connack_def Let_def split: connect_reason_code.splits)
qed

lemma deliver_ack_rx:
  "set (ack_rx (deliver n i c)) \<subseteq> set (ack_rx c) \<or>
   (\<exists>p e. set (ack_rx (deliver n i c)) = insert (AckPubAck n p e) (set (ack_rx c)))"
  by (cases i) (auto simp: pub_ack_token_drop_def inner_send_def split: option.splits)

lemma incoming_publish_pkid_inv:
  assumes "pkid_inv s"
  shows "pkid_inv (snd (incoming_publish n p s))"
proof -
  have acks: "list_all (\<lambda>a. \<not> is_pubrel_request a) (ack_rx (deliver n i (ch s)))" for i
    using assms deliver_ack_rx [of n i "ch s"] by (auto simp: pkid_inv_def list_all_iff acks_of_def)
  have pending: "list_all (\<lambda>a. \<not> is_pubrel_request a) (pending_acks (im_insert k NotReady (in_application s)))" for k
    using assms pending_acks_insert(2) [of k "in_application s"]
    by (auto simp: pkid_inv_def list_all_iff acks_of_def)
  show ?thesis
    using assms acks pending
    by (auto simp: incoming_publish_def Let_def notify_def pkid_inv_def acks_of_def
        split: packet_identifier_dup_qos.splits)
qed

lemma incoming_auth_pkid_inv: "pkid_inv s \<Longrightarrow> pkid_inv (snd (incoming_auth allow a s))"
  by (auto simp: incoming_auth_def Let_def notify_def pkid_inv_def acks_of_def
      split: option.splits authenticate_reason_code.splits)

lemma incoming_pingresp_pkid_inv: "pkid_inv s \<Longrightarrow> pkid_inv (incoming_pingresp now s)"
  by (auto simp: incoming_pingresp_def Let_def notify_def pkid_inv_def acks_of_def
      split: option.splits list.splits)

lemma session_new_pkid_inv: "m \<noteq> 0 \<Longrightarrow> pkid_inv (session_new m)"
  by (simp add: pkid_inv_def session_new_def pool_inv_new inflight_tracker_default_def
      inflight_pkids_def acks_of_def channels_new_def)

end
