(* ===== verification/Client_System.thy ===== *)
theory Client_System
  imports Session_Invariant "HOL-Library.Multiset"
begin

text \<open>
  The session together with the application it serves: publishes handed over with their
  acknowledgement tokens, tokens accepted, rejected or dropped in any order, requests submitted,
  packets received and sent, connections made and lost. A step is one call of an operation of
  the session or one action of the application, so that a run is any interleaving of them. Three
  history variables record what the properties speak of: the QoS 1 publishes received on the
  connection, the PUBACKs sent on it, and whether the server ever acknowledged an operation that
  was not in flight.
\<close>

record client_system =
  sys :: session
  held :: "pub_ack_token list"
  received :: "pkid list"
  acked :: "pkid list"
  server_fault :: bool

definition system_new :: "pkid \<Rightarrow> client_system" where
  "system_new m = \<lparr>sys = session_new m, held = [], received = [], acked = [], server_fault = False\<rparr>"

section \<open>What the application does\<close>

primrec incoming_tokens :: "incoming_publish_and_token \<Rightarrow> pub_ack_token list" where
  "incoming_tokens (IncomingQoS0 p) = []"
| "incoming_tokens (IncomingQoS1 p t) = [t]"

definition queued_tokens :: "session \<Rightarrow> pub_ack_token list" where
  "queued_tokens s = concat (map incoming_tokens (i_pub_tx (ch s)))"

text \<open>Requests of \<open>Client\<close> and of the handles, except acknowledgements.\<close>

datatype submission =
    SubmitQoS0 publish_request_qos0
  | SubmitQoS1 notifier "byte_str topic" bytes bool publish_other_properties
  | SubmitSubscription subscription_request
  | SubmitPing ping_request
  | SubmitReauth notifier authenticate_reason_code authentication "byte_str option" user_properties
  | SubmitDisconnect disconnect_request
  | DropDisconnectHandle

fun submit :: "submission \<Rightarrow> channels \<Rightarrow> channels" where
  "submit (SubmitQoS0 r) c = c\<lparr>o_pub_q0_rx := o_pub_q0_rx c @ [r]\<rparr>"
| "submit (SubmitQoS1 n topic payload retain props) c =
     c\<lparr>o_pub_q12_rx := o_pub_q12_rx c @ [PublishQoS1Request n topic payload retain props]\<rparr>"
| "submit (SubmitSubscription r) c = c\<lparr>sub_rx := sub_rx c @ [r]\<rparr>"
| "submit (SubmitPing r) c = c\<lparr>ping_rx := ping_rx c @ [r]\<rparr>"
| "submit (SubmitReauth n reason au rs ups) c =
     c\<lparr>auth_rx := auth_rx c @ [ReauthRequest n
        \<lparr>auth_reason_code = reason, auth_authentication = Some au, auth_reason_string = rs,
         auth_user_properties = ups\<rparr>]\<rparr>"
| "submit (SubmitDisconnect r) c =
     c\<lparr>disconnect_rx := map_option (\<lambda>_. DisconnectSent r) (disconnect_rx c)\<rparr>"
| "submit DropDisconnectHandle c =
     c\<lparr>disconnect_rx := map_option (\<lambda>_. DisconnectClosed) (disconnect_rx c)\<rparr>"

text \<open>How a token is used up: \<open>accept\<close>, \<open>reject\<close> or \<open>drop\<close>.\<close>

datatype token_use =
    Accept ack_other_properties
  | Reject pub_ack_reason_code ack_other_properties
  | DropToken

fun use_token :: "notifier \<Rightarrow> notifier \<Rightarrow> token_use \<Rightarrow> pub_ack_token \<Rightarrow> channels \<Rightarrow> channels" where
  "use_token n n' (Accept props) t c =
     c\<lparr>ack_rx := the (snd (pub_ack_token_accept n n' t props (Some (ack_rx c))))\<rparr>"
| "use_token n n' (Reject reason props) t c =
     c\<lparr>ack_rx := the (snd (pub_ack_token_reject n n' t reason props (Some (ack_rx c))))\<rparr>"
| "use_token n n' DropToken t c =
     c\<lparr>ack_rx := the (pub_ack_token_drop n t (Some (ack_rx c)))\<rparr>"

text \<open>Dropping the receiver drops what it had not received, tokens included.\<close>

definition drop_receiver :: "(nat \<Rightarrow> notifier) \<Rightarrow> session \<Rightarrow> channels" where
  "drop_receiver ns s =
     fold (\<lambda>(i, t) c. use_token (ns i) (ns i) DropToken t c) (enumerate 0 (queued_tokens s))
       ((ch s)\<lparr>i_pub_tx := [], i_pub_rx_alive := False\<rparr>)"

section \<open>Steps\<close>

fun sent_pubacks :: "packet \<Rightarrow> pkid list" where
  "sent_pubacks (PubAckPacket p) = [puback_packet_identifier p]"
| "sent_pubacks _ = []"

fun received_qos1 :: "publish \<Rightarrow> pkid list" where
  "received_qos1 p = (case packet_identifier_dup_qos p of PdqAtLeastOnce k dup \<Rightarrow> [k] | _ \<Rightarrow> [])"

text \<open>
  The steps. \<open>recv_publish\<close> covers the servers that reuse no packet identifier before it is
  acknowledged and send no QoS 2 publish (\<open>incoming_publish\<close> panics otherwise). \<open>connack\<close> leaves
  out the 2 to the 64th connection, where the epoch counter would start again.
\<close>

inductive client_step :: "bool \<Rightarrow> client_system \<Rightarrow> client_system \<Rightarrow> bool" for allow :: bool where
  send: "is_connected (sys c) \<Longrightarrow> next_outgoing_packet now (sys c) = (Ready p, s) \<Longrightarrow>
    client_step allow c (c\<lparr>sys := s, acked := acked c @ sent_pubacks p\<rparr>)"
| idle: "is_connected (sys c) \<Longrightarrow> next_outgoing_packet now (sys c) = (Pending, s) \<Longrightarrow>
    client_step allow c (c\<lparr>sys := s\<rparr>)"
| recv_publish: "is_connected (sys c) \<Longrightarrow> incoming_publish n p (sys c) = (Ready (), s) \<Longrightarrow>
    client_step allow c (c\<lparr>sys := s, received := received c @ received_qos1 p\<rparr>)"
| recv_ack: "is_connected (sys c) \<Longrightarrow> complete_inflight op (sys c) = (r, s) \<Longrightarrow>
    client_step allow c (c\<lparr>sys := s, server_fault := server_fault c \<or> r \<noteq> Inr ()\<rparr>)"
| recv_auth: "is_connected (sys c) \<Longrightarrow> incoming_auth allow a (sys c) = (r, s) \<Longrightarrow>
    client_step allow c (c\<lparr>sys := s\<rparr>)"
| recv_pingresp: "is_connected (sys c) \<Longrightarrow>
    client_step allow c (c\<lparr>sys := incoming_pingresp now (sys c)\<rparr>)"
| connack: "\<not> is_connected (sys c) \<Longrightarrow> connection_epoch (sys c) < - 1 \<Longrightarrow>
    incoming_connack allow now k ka am ei (sys c) = (r, s) \<Longrightarrow>
    client_step allow c (c\<lparr>sys := s, received := [], acked := []\<rparr>)"
| open_disconnect: "is_connected (sys c) \<Longrightarrow>
    client_step allow c (c\<lparr>sys := (sys c)\<lparr>ch := (ch (sys c))\<lparr>disconnect_rx := Some DisconnectOpen\<rparr>\<rparr>\<rparr>)"
| client_gone: "is_connected (sys c) \<Longrightarrow>
    client_step allow c (c\<lparr>sys := client_disconnect d (sys c), received := [], acked := []\<rparr>)"
| server_gone: "is_connected (sys c) \<Longrightarrow>
    client_step allow c (c\<lparr>sys := server_disconnect d (sys c), received := [], acked := []\<rparr>)"
| transport_gone: "is_connected (sys c) \<Longrightarrow>
    client_step allow c (c\<lparr>sys := transport_disconnect (sys c), received := [], acked := []\<rparr>)"
| app_submit: "client_step allow c (c\<lparr>sys := (sys c)\<lparr>ch := submit x (ch (sys c))\<rparr>\<rparr>)"
| app_recv: "i_pub_tx (ch (sys c)) = x # rest \<Longrightarrow>
    client_step allow c (c\<lparr>sys := (sys c)\<lparr>ch := (ch (sys c))\<lparr>i_pub_tx := rest\<rparr>\<rparr>,
      held := held c @ incoming_tokens x\<rparr>)"
| app_token: "held c = ts @ t # us \<Longrightarrow>
    client_step allow c (c\<lparr>sys := (sys c)\<lparr>ch := use_token n n' u t (ch (sys c))\<rparr>, held := ts @ us\<rparr>)"
| app_drop_receiver:
    "client_step allow c (c\<lparr>sys := (sys c)\<lparr>ch := drop_receiver ns (sys c)\<rparr>\<rparr>)"

inductive reachable :: "bool \<Rightarrow> client_system \<Rightarrow> bool" for allow :: bool where
  start: "m \<noteq> 0 \<Longrightarrow> reachable allow (system_new m)"
| step: "reachable allow c \<Longrightarrow> client_step allow c c' \<Longrightarrow> reachable allow c'"

section \<open>Acknowledgements and tokens\<close>

primrec ack_live :: "u64 \<Rightarrow> acknowledgement_request \<Rightarrow> pkid list" where
  "ack_live e (AckPubAck n p e') = (if e' = e then [puback_packet_identifier p] else [])"
| "ack_live e (AckPubRecAccept n p) = []"
| "ack_live e (AckPubRecReject n p) = []"
| "ack_live e (AckPubRel n p) = []"
| "ack_live e (AckPubComp n p) = []"

primrec ack_ok :: "u64 \<Rightarrow> acknowledgement_request \<Rightarrow> bool" where
  "ack_ok e (AckPubAck n p e') = (e' \<le> e)"
| "ack_ok e (AckPubRecAccept n p) = False"
| "ack_ok e (AckPubRecReject n p) = False"
| "ack_ok e (AckPubRel n p) = False"
| "ack_ok e (AckPubComp n p) = False"

definition token_live :: "u64 \<Rightarrow> pub_ack_token \<Rightarrow> pkid list" where
  "token_live e t = (if token_epoch t = e then [token_pkid t] else [])"

definition token_ok :: "u64 \<Rightarrow> pub_ack_token \<Rightarrow> bool" where
  "token_ok e t \<longleftrightarrow> token_epoch t \<le> e \<and> \<not> token_triggered t"

text \<open>
  The identifiers for which this connection can still produce an acknowledgement request: its
  tokens, undelivered or held, and its requests in the channel.
\<close>

definition live_pkids :: "client_system \<Rightarrow> pkid multiset" where
  "live_pkids c =
     (let e = connection_epoch (sys c) in
      mset (concat (map (token_live e) (queued_tokens (sys c) @ held c))) +
      mset (concat (map (ack_live e) (ack_rx (ch (sys c))))))"

definition unready :: "(pkid, pending_acknowledgement) imap \<Rightarrow> pkid list" where
  "unready m = concat (map (\<lambda>(k, v). case v of NotReady \<Rightarrow> [k] | AckReady a \<Rightarrow> []) m)"

fun entry_ok :: "u64 \<Rightarrow> pkid \<times> pending_acknowledgement \<Rightarrow> bool" where
  "entry_ok e (k, NotReady) = True"
| "entry_ok e (k, AckReady (AckPubAck n p e')) = (e' = e \<and> puback_packet_identifier p = k)"
| "entry_ok e (k, AckReady _) = False"

primrec reauth_ok :: "reauth_request \<Rightarrow> bool" where
  "reauth_ok (ReauthRequest n a) = (auth_authentication a \<noteq> None)"

fun replay_ok :: "packet \<Rightarrow> bool" where
  "replay_ok (PublishPacket p) = True"
| "replay_ok (PubRelPacket p) = True"
| "replay_ok _ = False"

text \<open>The invariant of the session's own part, kept while the request loop runs.\<close>

definition ack_inv :: "client_system \<Rightarrow> bool" where
  "ack_inv c \<longleftrightarrow>
     (let s = sys c; e = connection_epoch s in
      pool_inv (session_pool s) \<and> im_wf (in_application s) \<and>
      list_all (entry_ok e) (in_application s) \<and> list_all (ack_ok e) (ack_rx (ch s)) \<and>
      list_all (token_ok e) (queued_tokens s @ held c) \<and>
      list_all reauth_ok (auth_rx (ch s)) \<and> list_all replay_ok (packets_to_replay (inflight s)) \<and>
      (if is_connected s
       then live_pkids c = mset (unready (in_application s)) \<and>
            received c = acked c @ im_keys (in_application s)
       else in_application s = []))"

section \<open>Facts about the tracker\<close>

lemma unready_simps [simp]:
  "unready [] = []" "unready ((k, NotReady) # m) = k # unready m"
  "unready ((k, AckReady a) # m) = unready m" "unready (m @ m') = unready m @ unready m'"
  by (simp_all add: unready_def)

lemma unready_cons: "unready ((k, v) # m) = (if v = NotReady then [k] else []) @ unready m"
  by (cases v) simp_all

lemma set_unready: "set (unready m) \<subseteq> set (im_keys m)"
  by (induction m) (auto simp: unready_cons)

lemma unready_get:
  "im_wf m \<Longrightarrow> k \<in> set (unready m) \<Longrightarrow> im_get m k = Some NotReady"
  by (induction m) (auto simp: unready_cons im_get_None_iff dest: subsetD [OF set_unready] split: if_splits)

lemma unready_insert_ready:
  assumes "im_wf m" and "im_get m k = Some NotReady"
  shows "mset (unready m) = add_mset k (mset (unready (im_insert k (AckReady a) m)))"
  using assms by (induction m) (auto simp: unready_cons split: if_splits)

lemma entry_ok_insert:
  assumes "list_all (entry_ok e) m" and "entry_ok e (k, v)"
  shows "list_all (entry_ok e) (im_insert k v m)"
  using assms set_im_insert [of k v m] by (auto simp: list_all_iff)

lemma first_ready_None:
  assumes "first_ready m = None" and "m \<noteq> []"
  obtains k rest where "m = (k, NotReady) # rest"
  using assms by (cases m rule: first_ready.cases) auto

lemma poll_frame:
  assumes "poll_for_outgoing_request now c t pool = (r, c', pool')"
  shows "i_pub_tx c' = i_pub_tx c \<and> i_pub_rx_alive c' = i_pub_rx_alive c \<and>
    auth_rx c = (case r of Ready (OutReauth a) \<Rightarrow> [a] | _ \<Rightarrow> []) @ auth_rx c'"
  using assms
  by (auto simp: poll_defs split: option.splits disconnect_receiver.splits list.splits
      ping_request.splits if_splits prod.splits)

lemma is_connected_update [simp]:
  "is_connected (s\<lparr>ch := a\<rparr>) = is_connected s" "is_connected (s\<lparr>session_pool := b\<rparr>) = is_connected s"
  "is_connected (s\<lparr>inflight := d\<rparr>) = is_connected s"
  "is_connected (s\<lparr>in_application := f\<rparr>) = is_connected s"
  "is_connected (s\<lparr>notifications := g\<rparr>) = is_connected s"
  "is_connected (reset_pingreq_timer now s) = is_connected s"
  "is_connected (notify ns s) = is_connected s"
  by (simp_all add: is_connected_def notify_def)

lemma pub_ack_token_new_ok [simp]:
  "token_ok e (pub_ack_token_new k e)" "token_live e (pub_ack_token_new k e) = [k]"
  by (simp_all add: token_ok_def token_live_def pub_ack_token_new_def)

lemma ack_inv_cong:
  assumes "session_pool s = session_pool t" and "in_application s = in_application t"
    and "connection_epoch s = connection_epoch t" and "ch s = ch t"
    and "packets_to_replay (inflight s) = packets_to_replay (inflight t)"
    and "connected s = connected t"
  shows "ack_inv (c\<lparr>sys := s\<rparr>) = ack_inv (c\<lparr>sys := t\<rparr>)"
  by (simp add: ack_inv_def live_pkids_def queued_tokens_def is_connected_def assms)

lemma ack_inv_connectedD:
  assumes "ack_inv c" and "is_connected (sys c)"
  shows "live_pkids c = mset (unready (in_application (sys c)))"
    and "received c = acked c @ im_keys (in_application (sys c))"
  using assms by (simp_all add: ack_inv_def Let_def)

lemma live_pkids_ack:
  assumes "ack_rx (ch (sys c)) = a # q"
  shows "live_pkids c = mset (ack_live (connection_epoch (sys c)) a) +
    live_pkids (c\<lparr>sys := (sys c)\<lparr>ch := (ch (sys c))\<lparr>ack_rx := q\<rparr>\<rparr>\<rparr>)"
  by (simp add: live_pkids_def assms queued_tokens_def Let_def)

section \<open>The request loop\<close>

fun request_pubacks :: "outgoing_packet_request poll \<Rightarrow> pkid list" where
  "request_pubacks (Ready (OutAcknowledgement (AckPubAck n p e))) = [puback_packet_identifier p]"
| "request_pubacks _ = []"

text \<open>What a request may be under the invariant, so that building its packet cannot panic.\<close>

fun request_ok :: "outgoing_packet_request poll \<Rightarrow> bool" where
  "request_ok (Ready (OutAcknowledgement (AckPubAck n p e))) = True"
| "request_ok (Ready (OutAcknowledgement _)) = False"
| "request_ok (Ready (OutReauth a)) = reauth_ok a"
| "request_ok r = poll_ok r"

text \<open>
  An acknowledgement taken from the channel under the invariant is a PUBACK; if it belongs to
  this connection then the tracker still waits for it.
\<close>

lemma polled_ack_inv:
  assumes inv: "ack_inv c" and con: "is_connected (sys c)"
    and poll: "poll_for_outgoing_request now (ch (sys c)) t (session_pool (sys c)) =
      (Ready (OutAcknowledgement a), c', p')"
  defines "e \<equiv> connection_epoch (sys c)"
  obtains n pa e' where "a = AckPubAck n pa e'" "e' \<le> e"
    "e' = e \<Longrightarrow> im_get (in_application (sys c)) (puback_packet_identifier pa) = Some NotReady"
proof -
  have ack: "ack_rx (ch (sys c)) = a # ack_rx c'" using poll_ack_rx [OF poll] by simp
  then have "ack_ok e a" using inv by (simp add: ack_inv_def Let_def e_def)
  then obtain n pa e' where a: "a = AckPubAck n pa e'" "e' \<le> e" by (cases a) auto
  have "im_get (in_application (sys c)) (puback_packet_identifier pa) = Some NotReady" if "e' = e"
  proof (rule unready_get)
    show "im_wf (in_application (sys c))" using inv by (simp add: ack_inv_def Let_def)
    have "puback_packet_identifier pa \<in># live_pkids c"
      using live_pkids_ack [OF ack] a that by (simp add: e_def)
    then show "puback_packet_identifier pa \<in> set (unready (in_application (sys c)))"
      using ack_inv_connectedD(1) [OF inv con] by simp
  qed
  with a show thesis by (intro that)
qed

text \<open>Taking a PUBACK from the channel: skipping a stale one, and filing one of this connection.\<close>

lemma ack_inv_skip:
  assumes inv: "ack_inv c" and con: "is_connected (sys c)"
    and poll: "poll_for_outgoing_request now (ch (sys c)) t (session_pool (sys c)) =
      (Ready (OutAcknowledgement a), c', p')"
    and stale: "stale_ack (connection_epoch (sys c)) a"
  shows "ack_inv (c\<lparr>sys := notify ns ((sys c)\<lparr>ch := c', session_pool := p'\<rparr>)\<rparr>)"
proof -
  obtain n pa e' where a: "a = AckPubAck n pa e'" using polled_ack_inv [OF inv con poll] .
  have "pool_inv p'"
    using inv poll_for_outgoing_request_pool [OF _ poll]
    by (auto simp: ack_inv_def Let_def pool_grows_def)
  with inv con stale a poll_ack_rx [OF poll] poll_frame [OF poll] show ?thesis
    by (auto simp: ack_inv_def Let_def notify_def live_pkids_def queued_tokens_def)
qed

lemma ack_inv_file:
  assumes inv: "ack_inv c" and con: "is_connected (sys c)"
    and poll: "poll_for_outgoing_request now (ch (sys c)) t (session_pool (sys c)) =
      (Ready (OutAcknowledgement a), c', p')"
    and fresh: "\<not> stale_ack (connection_epoch (sys c)) a"
    and k: "ordered_pkid a = Some k"
  shows "im_get (in_application (sys c)) k = Some NotReady"
    and "ack_inv (c\<lparr>sys := notify ns ((sys c)\<lparr>ch := c', session_pool := p',
      in_application := im_insert k (AckReady a) (in_application (sys c))\<rparr>)\<rparr>)"
proof -
  obtain n pa e' where a: "a = AckPubAck n pa e'"
      "e' = connection_epoch (sys c) \<Longrightarrow> im_get (in_application (sys c)) (puback_packet_identifier pa) = Some NotReady"
    using polled_ack_inv [OF inv con poll] by metis
  with fresh k have e': "e' = connection_epoch (sys c)" "k = puback_packet_identifier pa" by auto
  with a show old: "im_get (in_application (sys c)) k = Some NotReady" by simp
  have "pool_inv p'"
    using inv poll_for_outgoing_request_pool [OF _ poll]
    by (auto simp: ack_inv_def Let_def pool_grows_def)
  moreover have "list_all (entry_ok (connection_epoch (sys c)))
      (im_insert k (AckReady a) (in_application (sys c)))"
    using inv a(1) e' by (intro entry_ok_insert) (auto simp: ack_inv_def Let_def)
  moreover have "im_keys (im_insert k (AckReady a) (in_application (sys c))) = im_keys (in_application (sys c))"
    using im_get_Some_key [OF old] by simp
  moreover have "mset (unready (in_application (sys c))) =
      add_mset k (mset (unready (im_insert k (AckReady a) (in_application (sys c)))))"
    using inv old by (intro unready_insert_ready) (auto simp: ack_inv_def Let_def)
  ultimately show "ack_inv (c\<lparr>sys := notify ns ((sys c)\<lparr>ch := c', session_pool := p',
      in_application := im_insert k (AckReady a) (in_application (sys c))\<rparr>)\<rparr>)"
    using inv con a(1) e' poll_ack_rx [OF poll] poll_frame [OF poll]
    by (auto simp: ack_inv_def Let_def notify_def live_pkids_def queued_tokens_def)
qed

lemma next_outgoing_request_ack_inv:
  assumes inv: "ack_inv c" and con: "is_connected (sys c)"
    and run: "next_outgoing_request now (sys c) = (r, s')"
  shows "ack_inv (c\<lparr>sys := s', acked := acked c @ request_pubacks r\<rparr>) \<and> request_ok r"
proof (rule next_outgoing_request_rule [OF run, where P = "\<lambda>t. ack_inv (c\<lparr>sys := t\<rparr>) \<and> is_connected t"],
    goal_cases)
  case 1
  with inv con show ?case by simp
next
  case (2 s k a rest)
  then have "entry_ok (connection_epoch s) (k, AckReady a)" by (simp add: ack_inv_def Let_def)
  with 2 show ?case by (cases a) auto
next
  case (3 s k a rest)
  then have ok: "entry_ok (connection_epoch s) (k, AckReady a)" by (simp add: ack_inv_def Let_def)
  then obtain n pa where a: "a = AckPubAck n pa (connection_epoch s)" "puback_packet_identifier pa = k"
    by (cases a) auto
  from 3 a show ?case
    by (auto simp: ack_inv_def Let_def live_pkids_def queued_tokens_def)
next
  case (4 s a c' p)
  have "ack_inv (c\<lparr>sys := notify [NDrop (ack_notifier a)] (s\<lparr>ch := c', session_pool := p\<rparr>)\<rparr>)"
    using ack_inv_skip [of "c\<lparr>sys := s\<rparr>" now "pingreq_timer s" a c' p] 4 by simp
  with 4 show ?case by simp
next
  case (5 s a c' p k old)
  have "ack_inv (c\<lparr>sys := notify (dropped_pending (Some old)) (s\<lparr>ch := c', session_pool := p,
      in_application := im_insert k (AckReady a) (in_application s)\<rparr>)\<rparr>)"
    using ack_inv_file(2) [of "c\<lparr>sys := s\<rparr>" now "pingreq_timer s" a c' p k] 5 by simp
  with 5 show ?case by simp
next
  case (6 s a c' p k m)
  then show ?case
    using ack_inv_file(1) [of "c\<lparr>sys := s\<rparr>" now "pingreq_timer s" a c' p k] by simp
next
  case (7 s a c' p)
  have "\<exists>n pa e'. a = AckPubAck n pa e'"
    by (rule polled_ack_inv [of "c\<lparr>sys := s\<rparr>" now "pingreq_timer s" a c' p]) (use 7 in auto)
  with 7(5) show ?case by auto
next
  case (8 s q c' p)
  have "pool_grows (session_pool s) q p"
    using 8 by (intro poll_for_outgoing_request_pool) (auto simp: ack_inv_def Let_def)
  then have "pool_inv p" "q \<noteq> Diverges" by (simp_all add: pool_grows_def)
  moreover have "request_pubacks q = []"
    using 8(4) by (cases q rule: request_pubacks.cases) auto
  moreover have "ack_rx c' = ack_rx (ch s)"
    using poll_ack_rx [OF 8(3)] 8(4) by (auto split: poll.splits outgoing_packet_request.splits)
  moreover have "list_all reauth_ok (auth_rx (ch s))"
    using 8(1) by (simp add: ack_inv_def Let_def)
  moreover have "\<not> (\<exists>m. q = Panic m)"
    using 8(3) by (auto simp: poll_defs split: option.splits disconnect_receiver.splits list.splits
      ping_request.splits if_splits prod.splits)
  ultimately have "request_ok q \<and> list_all reauth_ok (auth_rx c')"
    using 8(4) poll_frame [OF 8(3)] by (cases q rule: request_ok.cases) auto
  with \<open>pool_inv p\<close> \<open>request_pubacks q = []\<close> \<open>ack_rx c' = ack_rx (ch s)\<close> 8(1) poll_frame [OF 8(3)]
  show ?case
    by (auto simp add: ack_inv_def Let_def live_pkids_def queued_tokens_def)
qed

section \<open>Every step keeps the invariant\<close>

lemma request_packet_ok:
  assumes "request_ok (Ready q)" and "request_packet now q s = (r, s')"
  shows "\<exists>p. r = Ready p \<and> sent_pubacks p = request_pubacks (Ready q)"
proof (cases q)
  case (OutAcknowledgement a)
  with assms show ?thesis by (cases a) auto
next
  case (OutSubscription sub k)
  with assms show ?thesis by (cases sub) auto
next
  case (OutPublish x)
  with assms show ?thesis by (cases x) (auto simp: Let_def)
next
  case (OutReauth x)
  with assms show ?thesis by (cases x) auto
next
  case (OutDisconnect x)
  with assms show ?thesis by (cases x) auto
qed (use assms in auto)

lemma next_outgoing_packet_ack_inv:
  assumes inv: "ack_inv c" and con: "is_connected (sys c)"
    and run: "next_outgoing_packet now (sys c) = (r, s')"
  shows "poll_ok r \<and> ack_inv (c\<lparr>sys := s',
    acked := acked c @ (case r of Ready p \<Rightarrow> sent_pubacks p | _ \<Rightarrow> [])\<rparr>)"
  using run
proof (cases rule: next_outgoing_packet_cases)
  case (not_connected m)
  with con show ?thesis by simp
next
  case (replay p rest)
  then have "replay_ok p" "list_all replay_ok rest" using inv by (simp_all add: ack_inv_def Let_def)
  then have "sent_pubacks (replayed p) = []" by (cases p) (simp_all add: replayed_def)
  with replay inv \<open>list_all replay_ok rest\<close> show ?thesis
    by (simp add: ack_inv_def Let_def live_pkids_def queued_tokens_def)
next
  case (request q s1 s2)
  have loop: "ack_inv (c\<lparr>sys := s1, acked := acked c @ request_pubacks (Ready q)\<rparr>)" "request_ok (Ready q)"
    using next_outgoing_request_ack_inv [OF inv con request(3)] by simp_all
  obtain p where p: "r = Ready p" "sent_pubacks p = request_pubacks (Ready q)"
    using request_packet_ok [OF loop(2) request(4)] by blast
  note frame = request_packet_frame [OF request(4)]
  from p request(5) have s': "s' = reset_pingreq_timer now s2" by simp
  have swap: "c\<lparr>sys := x, acked := y\<rparr> = (c\<lparr>acked := y\<rparr>)\<lparr>sys := x\<rparr>" for x y by simp
  have "ack_inv (c\<lparr>sys := s', acked := acked c @ request_pubacks (Ready q)\<rparr>)"
    using loop(1) frame s' unfolding swap by (subst ack_inv_cong [of s' s1]) simp_all
  with p show ?thesis by simp
next
  case (stopped q)
  have loop: "ack_inv (c\<lparr>sys := s', acked := acked c @ request_pubacks q\<rparr>)" "request_ok q"
    using next_outgoing_request_ack_inv [OF inv con stopped(3)] by simp_all
  have "request_pubacks q = []" "poll_ok q"
    using stopped(4) loop(2) by (cases q; simp)+
  with loop stopped show ?thesis by (cases r) auto
qed

lemma live_pkids_simps:
  "live_pkids c = mset (concat (map (token_live (connection_epoch (sys c))) (queued_tokens (sys c)))) +
     mset (concat (map (token_live (connection_epoch (sys c))) (held c))) +
     mset (concat (map (ack_live (connection_epoch (sys c))) (ack_rx (ch (sys c)))))"
  by (simp add: live_pkids_def Let_def)

lemma queued_tokens_simps [simp]:
  "queued_tokens (s\<lparr>ch := (ch s)\<lparr>i_pub_tx := i_pub_tx (ch s) @ [i]\<rparr>\<rparr>) = queued_tokens s @ incoming_tokens i"
  by (simp add: queued_tokens_def)

lemma incoming_publish_ack_inv:
  assumes inv: "ack_inv c" and con: "is_connected (sys c)"
    and run: "incoming_publish n p (sys c) = (Ready (), s)"
  shows "ack_inv (c\<lparr>sys := s, received := received c @ received_qos1 p\<rparr>)"
proof (cases "packet_identifier_dup_qos p")
  case PdqAtMostOnce
  with inv con run show ?thesis
    by (auto simp: incoming_publish_def ack_inv_def Let_def live_pkids_simps queued_tokens_def)
next
  case (PdqExactlyOnce k dup)
  with run show ?thesis by (simp add: incoming_publish_def)
next
  case (PdqAtLeastOnce k dup)
  let ?t = "pub_ack_token_new k (connection_epoch (sys c))"
  from run PdqAtLeastOnce have fresh: "im_get (in_application (sys c)) k = None"
    by (auto simp: incoming_publish_def Let_def split: if_splits)
  then have ins: "im_insert k NotReady (in_application (sys c)) = in_application (sys c) @ [(k, NotReady)]"
    by (intro im_insert_fresh) (simp add: im_get_None_iff)
  have s: "s = (sys c)\<lparr>notifications := notifications (sys c),
      in_application := in_application (sys c) @ [(k, NotReady)],
      ch := deliver n (IncomingQoS1 p ?t) (ch (sys c))\<rparr>"
    using run PdqAtLeastOnce fresh ins by (simp add: incoming_publish_def notify_def)
  have "k \<notin> set (im_keys (in_application (sys c)))" using fresh by (simp add: im_get_None_iff)
  with inv con PdqAtLeastOnce show ?thesis unfolding s
    by (auto simp: ack_inv_def Let_def live_pkids_simps queued_tokens_def
        im_wf_def)
qed

text \<open>Operations that touch only the pool, the maps of operations in flight and the log.\<close>

lemma ack_inv_frame:
  assumes "ack_inv c" and "pool_inv (session_pool s)" and "ch s = ch (sys c)"
    and "in_application s = in_application (sys c)" and "connected s = connected (sys c)"
    and "connection_epoch s = connection_epoch (sys c)"
    and "packets_to_replay (inflight s) = packets_to_replay (inflight (sys c))"
  shows "ack_inv (c\<lparr>sys := s\<rparr>)"
  using assms by (auto simp: ack_inv_def Let_def live_pkids_def queued_tokens_def is_connected_def)

lemma complete_inflight_frame:
  assumes "complete_inflight op s = (r, s')"
  shows "ch s' = ch s \<and> in_application s' = in_application s \<and> connected s' = connected s \<and>
    connection_epoch s' = connection_epoch s \<and>
    packets_to_replay (inflight s') = packets_to_replay (inflight s) \<and>
    (pool_inv (session_pool s) \<longrightarrow> pool_inv (session_pool s'))"
  using assms
  by (cases op)
    (auto simp: Let_def notify_def release_in_session_def release_pkid_inv split: option.splits if_splits)

lemma incoming_auth_frame:
  assumes "incoming_auth allow a s = (r, s')"
  shows "ch s' = ch s \<and> in_application s' = in_application s \<and> connected s' = connected s \<and>
    connection_epoch s' = connection_epoch s \<and> session_pool s' = session_pool s \<and>
    packets_to_replay (inflight s') = packets_to_replay (inflight s) \<and>
    inflight_pkids (inflight s') = inflight_pkids (inflight s) \<and>
    publish_qos2 (inflight s') = publish_qos2 (inflight s) \<and>
    inflight_pubrel (inflight s') = inflight_pubrel (inflight s)"
  using assms
  by (auto simp: incoming_auth_def Let_def notify_def
      split: option.splits if_splits authenticate_reason_code.splits)

lemma incoming_pingresp_frame:
  "ch (incoming_pingresp now s) = ch s \<and> in_application (incoming_pingresp now s) = in_application s \<and>
   connected (incoming_pingresp now s) = connected s \<and>
   connection_epoch (incoming_pingresp now s) = connection_epoch s \<and>
   session_pool (incoming_pingresp now s) = session_pool s \<and>
   packets_to_replay (inflight (incoming_pingresp now s)) = packets_to_replay (inflight s) \<and>
   inflight_pkids (inflight (incoming_pingresp now s)) = inflight_pkids (inflight s) \<and>
   publish_qos2 (inflight (incoming_pingresp now s)) = publish_qos2 (inflight s) \<and>
   inflight_pubrel (inflight (incoming_pingresp now s)) = inflight_pubrel (inflight s)"
  by (auto simp: incoming_pingresp_def Let_def notify_def split: list.split option.split)

lemma replay_list_ok: "list_all replay_ok (replay_list i)"
  by (auto simp: replay_list_def list_all_iff)

text \<open>After a disconnect nothing is tracked, and what is to be replayed is PUBREL and PUBLISH.\<close>

lemma ack_inv_disconnected:
  assumes "ack_inv c" and "pool_inv (session_pool s)" and "ch s = ch (sys c)"
    and "in_application s = []" and "connected s = Disconnected"
    and "connection_epoch s = connection_epoch (sys c)"
    and "list_all replay_ok (packets_to_replay (inflight s))"
  shows "ack_inv (c\<lparr>sys := s, received := r, acked := a\<rparr>)"
  using assms by (auto simp: ack_inv_def Let_def queued_tokens_def is_connected_def)

lemma expire_if_zero_fields:
  "ch (expire_if_zero s) = ch s" "in_application (expire_if_zero s) = in_application s"
  "connected (expire_if_zero s) = connected s" "connection_epoch (expire_if_zero s) = connection_epoch s"
  "pool_inv (session_pool s) \<Longrightarrow> pool_inv (session_pool (expire_if_zero s))"
  "list_all replay_ok (packets_to_replay (inflight s)) \<Longrightarrow>
     list_all replay_ok (packets_to_replay (inflight (expire_if_zero s)))"
  by (simp_all add: expire_if_zero_def session_expired_fields)

lemma disconnect_ack_inv:
  assumes "ack_inv c"
  shows "ack_inv (c\<lparr>sys := client_disconnect d (sys c), received := [], acked := []\<rparr>)"
    "ack_inv (c\<lparr>sys := server_disconnect d (sys c), received := [], acked := []\<rparr>)"
    "ack_inv (c\<lparr>sys := transport_disconnect (sys c), received := [], acked := []\<rparr>)"
  using assms
  by (intro ack_inv_disconnected;
      simp add: client_disconnect_def server_disconnect_def transport_disconnect_def Let_def
        expire_if_zero_fields disconnected_fields replay_list_ok ack_inv_def split: option.split)+

text \<open>A new epoch: no token and no request of an earlier connection is live any more.\<close>

lemma epoch_less: "e < (- 1 :: u64) \<Longrightarrow> e' \<le> e \<Longrightarrow> e' < e + 1"
  unfolding not_le [symmetric] inc_less_eq_iff by auto

lemma not_live:
  assumes "e < - 1"
  shows "list_all (token_ok e) ts \<Longrightarrow> concat (map (token_live (e + 1)) ts) = [] \<and> list_all (token_ok (e + 1)) ts"
    "list_all (ack_ok e) q \<Longrightarrow> concat (map (ack_live (e + 1)) q) = [] \<and> list_all (ack_ok (e + 1)) q"
proof -
  have less: "e' < e + 1" "e' \<noteq> e + 1" "e' \<le> e + 1" if "e' \<le> e" for e'
    using epoch_less [OF assms that] by auto
  have "token_ok e t \<Longrightarrow> token_live (e + 1) t = [] \<and> token_ok (e + 1) t" for t
    using less [of "token_epoch t"] by (simp add: token_live_def token_ok_def)
  then show "list_all (token_ok e) ts \<Longrightarrow>
      concat (map (token_live (e + 1)) ts) = [] \<and> list_all (token_ok (e + 1)) ts"
    by (induction ts) auto
  have "ack_ok e a \<Longrightarrow> ack_live (e + 1) a = [] \<and> ack_ok (e + 1) a" for a
    using less by (cases a) simp_all
  then show "list_all (ack_ok e) q \<Longrightarrow> concat (map (ack_live (e + 1)) q) = [] \<and> list_all (ack_ok (e + 1)) q"
    by (induction q) auto
qed

lemma connack_ack_inv:
  assumes inv: "ack_inv c" and off: "\<not> is_connected (sys c)" and e: "connection_epoch (sys c) < - 1"
    and run: "incoming_connack allow now k ka am ei (sys c) = (r, s)"
  shows "ack_inv (c\<lparr>sys := s, received := [], acked := []\<rparr>)"
proof -
  have base: "in_application (sys c) = []" using inv off by (simp add: ack_inv_def Let_def)
  consider "s = sys c"
    | s1 where "s1 = sys c \<or> s1 = session_expired (sys c)"
        "\<exists>x y. s = s1\<lparr>connection_epoch := connection_epoch s1 + 1, expiry_interval := x,
           pingreq_timer := y, connected := Connected k\<rparr>"
    using run by (auto simp: incoming_connack_def Let_def split: if_splits connect_reason_code.splits)
  then show ?thesis
  proof cases
    case 1
    with inv off base show ?thesis by (simp add: ack_inv_def Let_def queued_tokens_def)
  next
    case (2 s1)
    then have s1: "ch s1 = ch (sys c)" "in_application s1 = []"
        "connection_epoch s1 = connection_epoch (sys c)" "pool_inv (session_pool s1)"
        "list_all replay_ok (packets_to_replay (inflight s1))"
      using inv base by (auto simp: session_expired_fields ack_inv_def Let_def)
    then show ?thesis
      using 2 inv not_live [OF e]
      by (auto simp: ack_inv_def Let_def live_pkids_simps queued_tokens_def is_connected_def)
  qed
qed

lemma use_token_fields:
  assumes "token_ok e t"
  obtains p where "use_token n n' u t c = c\<lparr>ack_rx := ack_rx c @ [AckPubAck n p (token_epoch t)]\<rparr>"
    "puback_packet_identifier p = token_pkid t"
  using assms
  by (cases u)
    (auto simp: pub_ack_token_accept_def pub_ack_token_reject_def pub_ack_token_drop_def inner_send_def token_ok_def)

lemma app_token_ack_inv:
  assumes inv: "ack_inv c" and h: "held c = ts @ t # us"
  shows "ack_inv (c\<lparr>sys := (sys c)\<lparr>ch := use_token n n' u t (ch (sys c))\<rparr>, held := ts @ us\<rparr>)"
proof -
  have t: "token_ok (connection_epoch (sys c)) t" using inv h by (simp add: ack_inv_def Let_def)
  from use_token_fields [OF this] obtain p where
    "use_token n n' u t (ch (sys c)) = (ch (sys c))\<lparr>ack_rx := ack_rx (ch (sys c)) @ [AckPubAck n p (token_epoch t)]\<rparr>"
    "puback_packet_identifier p = token_pkid t" .
  with inv h t show ?thesis
    by (auto simp: ack_inv_def Let_def live_pkids_simps queued_tokens_def token_live_def token_ok_def)
qed

lemma app_recv_ack_inv:
  assumes inv: "ack_inv c" and x: "i_pub_tx (ch (sys c)) = x # rest"
  shows "ack_inv (c\<lparr>sys := (sys c)\<lparr>ch := (ch (sys c))\<lparr>i_pub_tx := rest\<rparr>\<rparr>, held := held c @ incoming_tokens x\<rparr>)"
  using inv x by (auto simp: ack_inv_def Let_def live_pkids_simps queued_tokens_def ac_simps)

lemma app_submit_ack_inv:
  assumes "ack_inv c"
  shows "ack_inv (c\<lparr>sys := (sys c)\<lparr>ch := submit x (ch (sys c))\<rparr>\<rparr>)"
  using assms by (cases x) (auto simp: ack_inv_def Let_def live_pkids_simps queued_tokens_def)

lemma drop_tokens:
  assumes "list_all (token_ok e) ts"
  shows "\<exists>q. fold (\<lambda>(i, t) c. use_token (ns i) (ns i) DropToken t c) (enumerate j ts) c =
       c\<lparr>ack_rx := ack_rx c @ q\<rparr> \<and>
     concat (map (ack_live e) q) = concat (map (token_live e) ts) \<and> list_all (ack_ok e) q"
  using assms
proof (induction ts arbitrary: j c)
  case Nil
  show ?case by (rule exI [of _ "[]"]) simp
next
  case (Cons t ts)
  then have t: "token_ok e t" by simp
  obtain p where p: "use_token (ns j) (ns j) DropToken t c =
      c\<lparr>ack_rx := ack_rx c @ [AckPubAck (ns j) p (token_epoch t)]\<rparr>" "puback_packet_identifier p = token_pkid t"
    using use_token_fields [OF t] .
  obtain q where q: "fold (\<lambda>(i, t) c. use_token (ns i) (ns i) DropToken t c) (enumerate (Suc j) ts)
      (c\<lparr>ack_rx := ack_rx c @ [AckPubAck (ns j) p (token_epoch t)]\<rparr>) =
      c\<lparr>ack_rx := ack_rx c @ AckPubAck (ns j) p (token_epoch t) # q\<rparr>"
    "concat (map (ack_live e) q) = concat (map (token_live e) ts)" "list_all (ack_ok e) q"
    using Cons.IH [of "Suc j" "c\<lparr>ack_rx := ack_rx c @ [AckPubAck (ns j) p (token_epoch t)]\<rparr>"] Cons.prems
    by auto
  show ?case
    by (rule exI [of _ "AckPubAck (ns j) p (token_epoch t) # q"])
      (use p q t in \<open>auto simp: token_live_def [of e t] token_ok_def\<close>)
qed

lemma app_drop_receiver_ack_inv:
  assumes inv: "ack_inv c"
  shows "ack_inv (c\<lparr>sys := (sys c)\<lparr>ch := drop_receiver ns (sys c)\<rparr>\<rparr>)"
proof -
  let ?e = "connection_epoch (sys c)"
  have "list_all (token_ok ?e) (queued_tokens (sys c))" using inv by (simp add: ack_inv_def Let_def)
  from drop_tokens [OF this, of ns 0 "(ch (sys c))\<lparr>i_pub_tx := [], i_pub_rx_alive := False\<rparr>"]
  obtain q where "drop_receiver ns (sys c) =
      (ch (sys c))\<lparr>i_pub_tx := [], i_pub_rx_alive := False, ack_rx := ack_rx (ch (sys c)) @ q\<rparr>"
    "concat (map (ack_live ?e) q) = concat (map (token_live ?e) (queued_tokens (sys c)))"
    "list_all (ack_ok ?e) q"
    unfolding drop_receiver_def by (auto simp del: use_token.simps)
  with inv show ?thesis
    by (auto simp: ack_inv_def Let_def live_pkids_simps queued_tokens_def ac_simps)
qed

lemma client_step_ack_inv:
  assumes "client_step allow c c'" and "ack_inv c"
  shows "ack_inv c'"
  using assms
proof (cases rule: client_step.cases)
  case (send now p s)
  with assms(2) next_outgoing_packet_ack_inv [OF assms(2) send(2,3)] show ?thesis by simp
next
  case (idle now s)
  with assms(2) next_outgoing_packet_ack_inv [OF assms(2) idle(2,3)] show ?thesis by simp
next
  case (recv_publish n p s)
  with incoming_publish_ack_inv [OF assms(2) recv_publish(2,3)] show ?thesis by simp
next
  case (recv_ack op r s)
  have "ack_inv (c\<lparr>sys := s\<rparr>)"
    using complete_inflight_frame [OF recv_ack(3)] assms(2)
    by (intro ack_inv_frame) (simp_all add: ack_inv_def Let_def)
  with recv_ack(1) show ?thesis by (auto simp: ack_inv_def Let_def live_pkids_simps)
next
  case (recv_auth a r s)
  have "ack_inv (c\<lparr>sys := s\<rparr>)"
    using incoming_auth_frame [OF recv_auth(3)] assms(2)
    by (intro ack_inv_frame) (simp_all add: ack_inv_def Let_def)
  with recv_auth(1) show ?thesis by simp
next
  case (recv_pingresp now)
  have "ack_inv (c\<lparr>sys := incoming_pingresp now (sys c)\<rparr>)"
    using incoming_pingresp_frame [of now "sys c"] assms(2)
    by (intro ack_inv_frame) (simp_all add: ack_inv_def Let_def)
  with recv_pingresp(1) show ?thesis by simp
next
  case (connack now k ka am ei r s)
  with connack_ack_inv [OF assms(2) connack(2-4)] show ?thesis by simp
next
  case open_disconnect
  with assms(2) show ?thesis
    by (auto simp: ack_inv_def Let_def live_pkids_simps queued_tokens_def)
next
  case (app_token ts t us n n' u)
  with app_token_ack_inv [OF assms(2)] show ?thesis by simp
next
  case (app_recv x rest)
  with app_recv_ack_inv [OF assms(2)] show ?thesis by simp
qed (use assms(2) in \<open>simp_all add: disconnect_ack_inv app_submit_ack_inv app_drop_receiver_ack_inv\<close>)

lemma system_new_ack_inv: "m \<noteq> 0 \<Longrightarrow> ack_inv (system_new m)"
  by (simp add: ack_inv_def system_new_def session_new_def is_connected_def pool_inv_new
      queued_tokens_def channels_new_def inflight_tracker_default_def Let_def)

lemma reachable_ack_inv: "reachable allow c \<Longrightarrow> ack_inv c"
  by (induction rule: reachable.induct) (auto intro: system_new_ack_inv client_step_ack_inv)

section \<open>Identifiers are leased exactly while in use\<close>

primrec is_qos1_request :: "publish_request_qos12 \<Rightarrow> bool" where
  "is_qos1_request (PublishQoS1Request n t p r props) = True"
| "is_qos1_request (PublishQoS2Request n t p r props) = False"

text \<open>
  With QoS 2 out of the picture, as it is for every caller of the public interface, the leased
  identifiers are exactly those in flight: none is lost and none is shared.
\<close>

definition exact_inv :: "session \<Rightarrow> bool" where
  "exact_inv s \<longleftrightarrow>
     pkid_inv s \<and> leaked s = {} \<and>
     publish_qos2 (inflight s) = [] \<and> inflight_pubrel (inflight s) = [] \<and>
     list_all is_qos1_request (o_pub_q12_rx (ch s))"

lemma poll_qos12:
  assumes "poll_for_outgoing_request now c t pool = (r, c', pool')"
  shows "(\<exists>x. o_pub_q12_rx c = x # o_pub_q12_rx c' \<and> (\<exists>k. r = Ready (OutPublish (with_pkid x k)))) \<or>
    o_pub_q12_rx c' = o_pub_q12_rx c \<and>
      (\<forall>n t p ret props k. r \<noteq> Ready (OutPublish (WithPkidQoS2 n t p ret props k)))"
proof -
  have "qos0_request q \<noteq> WithPkidQoS2 n t p ret props k" for q n t p ret props k by (cases q) simp
  with assms show ?thesis
    by (auto simp: poll_defs split: option.splits disconnect_receiver.splits list.splits
        ping_request.splits if_splits prod.splits)
qed

fun no_qos2_request :: "outgoing_packet_request poll \<Rightarrow> bool" where
  "no_qos2_request (Ready (OutPublish (WithPkidQoS2 n t p ret props k))) = False"
| "no_qos2_request _ = True"

lemma next_outgoing_request_qos1:
  assumes "list_all is_qos1_request (o_pub_q12_rx (ch s))" and "next_outgoing_request now s = (r, s')"
  shows "list_all is_qos1_request (o_pub_q12_rx (ch s')) \<and> no_qos2_request r"
proof (rule next_outgoing_request_rule [OF assms(2),
      where P = "\<lambda>t. list_all is_qos1_request (o_pub_q12_rx (ch t))"], goal_cases)
  case (8 s q c p)
  then show ?case
    using poll_qos12 [OF 8(3)]
  proof (elim disjE exE conjE)
    fix x k assume x: "o_pub_q12_rx (ch s) = x # o_pub_q12_rx c" "q = Ready (OutPublish (with_pkid x k))"
    with 8(1) show ?case by (cases x) auto
  next
    assume "o_pub_q12_rx c = o_pub_q12_rx (ch s)"
      "\<forall>n t p ret props k. q \<noteq> Ready (OutPublish (WithPkidQoS2 n t p ret props k))"
    with 8(1) show ?case by (cases q rule: no_qos2_request.cases) auto
  qed
qed (use assms(1) in \<open>auto simp: notify_def dest: poll_qos12\<close>)

lemma request_packet_no_qos2:
  assumes "request_packet now q s = (r, s')" and "no_qos2_request (Ready q)" and "request_ok (Ready q)"
  shows "publish_qos2 (inflight s') = publish_qos2 (inflight s) \<and>
    inflight_pubrel (inflight s') = inflight_pubrel (inflight s)"
proof (cases q)
  case (OutAcknowledgement a)
  with assms show ?thesis by (cases a) (auto simp: notify_def)
next
  case (OutSubscription sub k)
  with assms show ?thesis by (cases sub) (auto simp: notify_def Let_def)
next
  case (OutPublish x)
  with assms show ?thesis by (cases x) (auto simp: notify_def Let_def)
next
  case (OutReauth x)
  with assms show ?thesis by (cases x) (auto simp: notify_def split: option.splits)
next
  case (OutDisconnect x)
  with assms show ?thesis by (cases x) auto
qed (use assms in auto)

lemma next_outgoing_packet_exact_inv:
  assumes "exact_inv (sys c)" and "ack_inv c" and "is_connected (sys c)"
    and run: "next_outgoing_packet now (sys c) = (r, s')"
  shows "exact_inv s'"
proof -
  have "pkid_inv s' \<and> leaked s' = {}"
    using next_outgoing_packet_pkid_inv [OF _ run] assms(1) by (simp add: exact_inv_def)
  moreover have "publish_qos2 (inflight s') = [] \<and> inflight_pubrel (inflight s') = [] \<and>
      list_all is_qos1_request (o_pub_q12_rx (ch s'))"
    using run
  proof (cases rule: next_outgoing_packet_cases)
    case (request q s1 s2)
    have ok: "request_ok (Ready q)"
      using next_outgoing_request_ack_inv [OF assms(2,3) request(3)] by simp
    have q1: "list_all is_qos1_request (o_pub_q12_rx (ch s1)) \<and> no_qos2_request (Ready q)"
      using assms(1) next_outgoing_request_qos1 [OF _ request(3)] by (simp add: exact_inv_def)
    show ?thesis
      using request(5) request_packet_no_qos2 [OF request(4) _ ok] q1
        request_packet_frame [OF request(4)] next_outgoing_request_frame [OF request(3)] assms(1)
      by (auto simp: exact_inv_def)
  next
    case (stopped q)
    show ?thesis
      using assms(1) next_outgoing_request_qos1 [OF _ stopped(3)] next_outgoing_request_frame [OF stopped(3)]
      by (auto simp: exact_inv_def)
  qed (use assms in \<open>auto simp: exact_inv_def\<close>)
  ultimately show ?thesis by (simp add: exact_inv_def)
qed

lemma complete_inflight_exact_inv:
  assumes inv: "exact_inv s" and run: "complete_inflight op s = (Inr (), s')"
  shows "exact_inv s'"
proof -
  have p: "pkid_inv s'" using inv complete_inflight_pkid_inv [OF _ run] by (simp add: exact_inv_def)
  note frame = complete_inflight_frame [OF run]
  have wf: "im_wf (publish_qos1 (inflight s))" "im_wf (inflight_subscribe (inflight s))"
      "im_wf (inflight_unsubscribe (inflight s))"
    using inv inflight_wf [of "inflight s"] by (simp_all add: exact_inv_def pkid_inv_def)
  have "leaked s' = {} \<and> publish_qos2 (inflight s') = [] \<and> inflight_pubrel (inflight s') = []"
    using inv run wf
    by (cases op) (auto simp: exact_inv_def leaked_def Let_def notify_def release_in_session_def
        inflight_pkids_def im_keys_remove split: option.splits if_splits prod.splits)
  with p frame inv show ?thesis by (simp add: exact_inv_def)
qed

lemma expired_exact_inv:
  assumes "exact_inv s"
  shows "exact_inv (session_expired s)" "exact_inv (disconnected s)"
  using assms session_expired_pkid_inv disconnected_pkid_inv
  by (auto simp: exact_inv_def leaked_def session_expired_fields disconnected_fields inflight_pkids_def)

lemma exact_inv_cong:
  assumes "exact_inv t" and "session_pool s = session_pool t" and "acks_of s = acks_of t"
    and "inflight_pkids (inflight s) = inflight_pkids (inflight t)"
    and "publish_qos2 (inflight s) = publish_qos2 (inflight t)"
    and "inflight_pubrel (inflight s) = inflight_pubrel (inflight t)"
    and "o_pub_q12_rx (ch s) = o_pub_q12_rx (ch t)"
  shows "exact_inv s"
  using assms(1) pkid_inv_cong [of s t] by (simp add: exact_inv_def leaked_def assms(2-))

lemma expire_if_zero_exact_inv: "exact_inv s \<Longrightarrow> exact_inv (expire_if_zero s)"
  by (simp add: expire_if_zero_def expired_exact_inv)

lemma disconnect_exact_inv:
  assumes "exact_inv s"
  shows "exact_inv (client_disconnect d s)" "exact_inv (server_disconnect d s)"
    "exact_inv (transport_disconnect s)"
proof -
  have inv: "exact_inv (disconnected s)" using assms by (rule expired_exact_inv)
  then show "exact_inv (server_disconnect d s)" "exact_inv (transport_disconnect s)"
    by (simp_all add: server_disconnect_def transport_disconnect_def expire_if_zero_exact_inv)
  have "exact_inv ((disconnected s)\<lparr>expiry_interval := e\<rparr>)" for e
    using inv by (rule exact_inv_cong) (simp_all add: acks_of_def)
  with inv show "exact_inv (client_disconnect d s)"
    by (simp add: client_disconnect_def Let_def expire_if_zero_exact_inv split: option.split)
qed

lemma incoming_connack_exact_inv:
  assumes "exact_inv s" and "incoming_connack allow now k ka am ei s = (r, s')"
  shows "exact_inv s'"
proof -
  have "exact_inv (t\<lparr>connection_epoch := e, expiry_interval := x, pingreq_timer := y, connected := z\<rparr>)"
    if "exact_inv t" for t :: session and e x y z
    using that by (rule exact_inv_cong) (simp_all add: acks_of_def)
  with assms expired_exact_inv(1) [OF assms(1)] show ?thesis
    by (auto simp: incoming_connack_def Let_def split: connect_reason_code.splits if_splits)
qed

lemma incoming_publish_exact_inv:
  assumes "exact_inv s" and "incoming_publish n p s = (r, s')"
  shows "exact_inv s'"
proof -
  have "session_pool s' = session_pool s \<and> inflight s' = inflight s \<and>
      o_pub_q12_rx (ch s') = o_pub_q12_rx (ch s)"
    using assms(2)
    by (auto simp: incoming_publish_def Let_def notify_def
        split: packet_identifier_dup_qos.splits if_splits option.splits)
  moreover have "pkid_inv s'"
    using incoming_publish_pkid_inv [of s n p] assms by (simp add: exact_inv_def)
  ultimately show ?thesis using assms(1) by (simp add: exact_inv_def leaked_def)
qed

text \<open>A change of the acknowledgement channel that adds only PUBACK requests.\<close>

lemma exact_inv_channels:
  assumes "exact_inv s" and "list_all (ack_ok e) q"
    and "ack_rx c = ack_rx (ch s) @ q" and "list_all is_qos1_request (o_pub_q12_rx c)"
  shows "exact_inv (s\<lparr>ch := c\<rparr>)"
proof -
  have "ack_ok e a \<Longrightarrow> \<not> is_pubrel_request a" for a by (cases a) simp_all
  with assms show ?thesis
    by (auto simp: exact_inv_def pkid_inv_def leaked_def acks_of_def list_all_iff)
qed

lemma client_step_exact_inv:
  assumes "client_step allow c c'" and ack: "ack_inv c"
    and inv: "\<not> server_fault c \<Longrightarrow> exact_inv (sys c)"
  shows "\<not> server_fault c' \<Longrightarrow> exact_inv (sys c')"
  using assms(1)
proof (cases rule: client_step.cases)
  case (send now p s)
  assume "\<not> server_fault c'"
  with send inv show ?thesis using next_outgoing_packet_exact_inv [OF _ ack send(2,3)] by simp
next
  case (idle now s)
  assume "\<not> server_fault c'"
  with idle inv show ?thesis using next_outgoing_packet_exact_inv [OF _ ack idle(2,3)] by simp
next
  case (recv_publish n p s)
  assume "\<not> server_fault c'"
  with recv_publish inv incoming_publish_exact_inv [OF _ recv_publish(3)] show ?thesis by simp
next
  case (recv_ack op r s)
  assume "\<not> server_fault c'"
  with recv_ack inv complete_inflight_exact_inv [of "sys c" op s] show ?thesis by auto
next
  case (recv_auth a r s)
  assume "\<not> server_fault c'"
  with recv_auth inv have "exact_inv (sys c)" by simp
  then have "exact_inv s"
    by (rule exact_inv_cong) (use incoming_auth_frame [OF recv_auth(3)] in \<open>simp_all add: acks_of_def\<close>)
  with recv_auth(1) show ?thesis by simp
next
  case (recv_pingresp now)
  assume "\<not> server_fault c'"
  with recv_pingresp inv have e: "exact_inv (sys c)" by simp
  then have "exact_inv (incoming_pingresp now (sys c))"
    by (rule exact_inv_cong) (use incoming_pingresp_frame [of now "sys c"] in \<open>simp_all add: acks_of_def\<close>)
  with recv_pingresp(1) show ?thesis by simp
next
  case (connack now k ka am ei r s)
  assume "\<not> server_fault c'"
  with connack inv incoming_connack_exact_inv [OF _ connack(4)] show ?thesis by simp
next
  case open_disconnect
  assume "\<not> server_fault c'"
  with open_disconnect inv have "exact_inv (sys c)" by simp
  then have "exact_inv ((sys c)\<lparr>ch := (ch (sys c))\<lparr>disconnect_rx := Some DisconnectOpen\<rparr>\<rparr>)"
    by (rule exact_inv_cong) (simp_all add: acks_of_def)
  with open_disconnect show ?thesis by simp
next
  case (app_submit x)
  assume "\<not> server_fault c'"
  with app_submit inv have e: "exact_inv (sys c)" by simp
  then have "exact_inv ((sys c)\<lparr>ch := submit x (ch (sys c))\<rparr>)"
    by (rule exact_inv_channels [where q = "[]"]) (use e in \<open>cases x; simp add: exact_inv_def\<close>)+
  with app_submit show ?thesis by simp
next
  case (app_recv x rest)
  assume "\<not> server_fault c'"
  with app_recv inv have e: "exact_inv (sys c)" by simp
  then have "exact_inv ((sys c)\<lparr>ch := (ch (sys c))\<lparr>i_pub_tx := rest\<rparr>\<rparr>)"
    by (rule exact_inv_cong) (simp_all add: acks_of_def)
  with app_recv show ?thesis by simp
next
  case (app_token ts t us n n' u)
  assume "\<not> server_fault c'"
  with app_token inv have e: "exact_inv (sys c)" by simp
  have t: "token_ok (connection_epoch (sys c)) t" using ack app_token(2) by (simp add: ack_inv_def Let_def)
  obtain p where "use_token n n' u t (ch (sys c)) =
      (ch (sys c))\<lparr>ack_rx := ack_rx (ch (sys c)) @ [AckPubAck n p (token_epoch t)]\<rparr>"
    using use_token_fields [OF t] .
  then have "exact_inv ((sys c)\<lparr>ch := use_token n n' u t (ch (sys c))\<rparr>)"
    by (intro exact_inv_channels [OF e, where q = "[AckPubAck n p (token_epoch t)]" and e = "connection_epoch (sys c)"])
      (use e t in \<open>simp_all add: exact_inv_def token_ok_def\<close>)
  with app_token show ?thesis by simp
next
  case (app_drop_receiver ns)
  assume "\<not> server_fault c'"
  with app_drop_receiver inv have e: "exact_inv (sys c)" by simp
  have "list_all (token_ok (connection_epoch (sys c))) (queued_tokens (sys c))"
    using ack by (simp add: ack_inv_def Let_def)
  from drop_tokens [OF this, of ns 0 "(ch (sys c))\<lparr>i_pub_tx := [], i_pub_rx_alive := False\<rparr>"]
  obtain q where "drop_receiver ns (sys c) =
      (ch (sys c))\<lparr>i_pub_tx := [], i_pub_rx_alive := False, ack_rx := ack_rx (ch (sys c)) @ q\<rparr>"
    "list_all (ack_ok (connection_epoch (sys c))) q"
    unfolding drop_receiver_def by (auto simp del: use_token.simps)
  then have "exact_inv ((sys c)\<lparr>ch := drop_receiver ns (sys c)\<rparr>)"
    by (intro exact_inv_channels [OF e]) (use e in \<open>simp_all add: exact_inv_def\<close>)
  with app_drop_receiver show ?thesis by simp
qed (use inv in \<open>simp_all add: disconnect_exact_inv\<close>)

lemma session_new_exact_inv: "m \<noteq> 0 \<Longrightarrow> exact_inv (session_new m)"
  using session_new_pkid_inv [of m]
  by (simp add: exact_inv_def leaked_def session_new_def inflight_tracker_default_def channels_new_def
      pkid_pool_new_def)

lemma reachable_exact_inv: "reachable allow c \<Longrightarrow> \<not> server_fault c \<Longrightarrow> exact_inv (sys c)"
proof (induction rule: reachable.induct)
  case (start m)
  then show ?case using session_new_exact_inv [of m] by (simp add: system_new_def)
next
  case (step c c')
  then show ?case using client_step_exact_inv [OF step(2) reachable_ack_inv [OF step(1)]] by blast
qed

section \<open>Progress of acknowledgements\<close>

lemma poll_prefers_acks:
  assumes "poll_for_outgoing_request now c t pool = (r, c', pool')"
    and "\<And>d. disconnect_rx c \<noteq> Some (DisconnectSent d)"
  shows "(\<forall>d. disconnect_rx c' \<noteq> Some (DisconnectSent d)) \<and>
    (ack_rx c \<noteq> [] \<longrightarrow> r = Ready (OutAcknowledgement (hd (ack_rx c))))"
  using assms
  by (auto simp: poll_defs split: option.splits disconnect_receiver.splits list.splits
      ping_request.splits if_splits prod.splits)

text \<open>
  The token of the oldest unacknowledged publish has been used: then its PUBACK is the next
  packet, whatever the channel holds before it.
\<close>

definition token_used :: "client_system \<Rightarrow> pkid \<Rightarrow> bool" where
  "token_used c k \<longleftrightarrow> list_all (\<lambda>t. token_live (connection_epoch (sys c)) t \<noteq> [k]) (queued_tokens (sys c) @ held c)"

definition awaits_puback :: "client_system \<Rightarrow> pkid \<Rightarrow> bool" where
  "awaits_puback c k \<longleftrightarrow> ack_inv c \<and> is_connected (sys c) \<and> token_used c k \<and>
     (\<exists>v rest. in_application (sys c) = (k, v) # rest) \<and>
     (\<forall>d. disconnect_rx (ch (sys c)) \<noteq> Some (DisconnectSent d))"

lemma awaits_puback_pending:
  assumes "awaits_puback c k" and "first_ready (in_application (sys c)) = None"
  shows "ack_rx (ch (sys c)) \<noteq> []"
proof
  assume empty: "ack_rx (ch (sys c)) = []"
  let ?e = "connection_epoch (sys c)"
  from assms obtain rest where "in_application (sys c) = (k, NotReady) # rest"
    by (cases "in_application (sys c)" rule: first_ready.cases) (auto simp: awaits_puback_def)
  with assms(1) have "k \<in># live_pkids c"
    using ack_inv_connectedD(1) [of c] by (simp add: awaits_puback_def)
  with empty obtain t where "t \<in> set (queued_tokens (sys c) @ held c)" "k \<in> set (token_live ?e t)"
    by (auto simp: live_pkids_simps)
  with assms(1) show False
    by (auto simp: awaits_puback_def token_used_def list_all_iff token_live_def split: if_splits)
qed

lemma awaits_puback_loop:
  assumes start: "awaits_puback c k" and run: "next_outgoing_request now (sys c) = (r, s')"
  shows "\<exists>n p e. r = Ready (OutAcknowledgement (AckPubAck n p e)) \<and> puback_packet_identifier p = k"
proof (rule next_outgoing_request_rule [OF run, where P = "\<lambda>t. awaits_puback (c\<lparr>sys := t\<rparr>) k"], goal_cases)
  case 1
  with start show ?case by simp
next
  case (2 s j a rest)
  then have "entry_ok (connection_epoch s) (j, AckReady a)" by (auto simp: awaits_puback_def ack_inv_def Let_def)
  with 2 show ?case by (cases a) auto
next
  case (3 s j a rest)
  then have "entry_ok (connection_epoch s) (j, AckReady a)" "j = k"
    by (auto simp: awaits_puback_def ack_inv_def Let_def)
  then show ?case by (cases a) auto
next
  case (4 s a c' p)
  then have aw: "ack_inv (c\<lparr>sys := s\<rparr>)" "is_connected s" by (simp_all add: awaits_puback_def)
  have "ack_inv (c\<lparr>sys := notify [NDrop (ack_notifier a)] (s\<lparr>ch := c', session_pool := p\<rparr>)\<rparr>)"
    using ack_inv_skip [of "c\<lparr>sys := s\<rparr>" now "pingreq_timer s" a c' p] aw 4 by simp
  with 4 poll_frame [OF 4(3)] poll_prefers_acks [OF 4(3)] show ?case
    by (auto simp: awaits_puback_def token_used_def queued_tokens_def notify_def is_connected_def)
next
  case (5 s a c' p j old)
  then have aw: "ack_inv (c\<lparr>sys := s\<rparr>)" "is_connected s" by (simp_all add: awaits_puback_def)
  have "ack_inv (c\<lparr>sys := notify (dropped_pending (Some old)) (s\<lparr>ch := c', session_pool := p,
      in_application := im_insert j (AckReady a) (in_application s)\<rparr>)\<rparr>)"
    using ack_inv_file(2) [of "c\<lparr>sys := s\<rparr>" now "pingreq_timer s" a c' p j] aw 5 by simp
  moreover have "\<exists>v rest. im_insert j (AckReady a) (in_application s) = (k, v) # rest"
    using 5(1) by (auto simp: awaits_puback_def)
  ultimately show ?case
    using 5 poll_frame [OF 5(3)] poll_prefers_acks [OF 5(3)]
    by (auto simp: awaits_puback_def token_used_def queued_tokens_def notify_def is_connected_def)
next
  case (6 s a c' p j m)
  then show ?case
    using ack_inv_file(1) [of "c\<lparr>sys := s\<rparr>" now "pingreq_timer s" a c' p j] by (simp add: awaits_puback_def)
next
  case (7 s a c' p)
  have "\<exists>n pa e'. a = AckPubAck n pa e'"
    by (rule polled_ack_inv [of "c\<lparr>sys := s\<rparr>" now "pingreq_timer s" a c' p])
      (use 7 in \<open>auto simp: awaits_puback_def\<close>)
  with 7(5) show ?case by auto
next
  case (8 s q c' p)
  have "ack_rx (ch s) \<noteq> []" using awaits_puback_pending [OF 8(1)] 8(2) by simp
  moreover have "\<And>d. disconnect_rx (ch s) \<noteq> Some (DisconnectSent d)"
    using 8(1) by (simp add: awaits_puback_def)
  ultimately show ?case using poll_prefers_acks [OF 8(3)] 8(4) by blast
qed

end
