(* ===== verification/Codec_Base.thy ===== *)
theory Codec_Base
  imports Mqtt_Types
begin

text \<open>
  The lowest layer of the codec: what encoders put into a \<open>BytesAccumulator\<close>
  (src/src/buffer_pool/accumulators.rs) and what decoders take from a \<open>Shared\<close> buffer
  (src/src/buffer_pool.rs, src/src/mqtt_proto/buffer.rs), the variable byte integers and the fixed
  header (src/src/mqtt_proto.rs). A decoder takes the bytes and gives the value and the bytes left,
  or a \<open>DecodeError\<close>.
\<close>

unbundle bit_operations_syntax

section \<open>Encoders\<close>

text \<open>
  An encoder of the sources is generic in the accumulator, and all it does with it is to put
  slices, which may fail and then end the encoder with an error, and to put shared buffers. So it
  is the list of these calls, each slice with the error that its failure is turned into, and the
  error the encoder itself ends with after them, if any.
\<close>

datatype put = TryPut bytes encode_error | PutShared bytes | PutDone

type_synonym enc = "put list \<times> encode_error option"

definition enc_ok :: enc where "enc_ok = ([], None)"

definition enc_fail :: "encode_error \<Rightarrow> enc" where "enc_fail e = ([], Some e)"

text \<open>One encoder after the other, with the question mark operator between them.\<close>

definition enc_then :: "enc \<Rightarrow> enc \<Rightarrow> enc" where
  "enc_then a b = (case snd a of Some e \<Rightarrow> a | None \<Rightarrow> (fst a @ fst b, snd b))"

primrec enc_all :: "enc list \<Rightarrow> enc" where
  "enc_all [] = enc_ok"
| "enc_all (a # as) = enc_then a (enc_all as)"

definition enc_when :: "bool \<Rightarrow> enc \<Rightarrow> enc" where
  "enc_when b e = (if b then e else enc_ok)"

definition put_slice :: "bytes \<Rightarrow> enc" where
  "put_slice b = ([TryPut b InsufficientBuffer], None)"

definition put_shared :: "bytes \<Rightarrow> enc" where
  "put_shared b = ([PutShared b], None)"

definition be16 :: "u16 \<Rightarrow> bytes" where
  "be16 w = [ucast (drop_bit 8 w), ucast w]"

definition be32 :: "u32 \<Rightarrow> bytes" where
  "be32 w = [ucast (drop_bit 24 w), ucast (drop_bit 16 w), ucast (drop_bit 8 w), ucast w]"

definition put_u8 :: "u8 \<Rightarrow> enc" where "put_u8 b = put_slice [b]"
definition put_u16_be :: "u16 \<Rightarrow> enc" where "put_u16_be w = put_slice (be16 w)"
definition put_u32_be :: "u32 \<Rightarrow> enc" where "put_u32_be w = put_slice (be32 w)"

primrec put_bytes :: "put \<Rightarrow> bytes" where
  "put_bytes (TryPut b e) = b"
| "put_bytes (PutShared b) = b"
| "put_bytes PutDone = []"

text \<open>The bytes an encoder emits, and the part of them that goes through slices.\<close>

definition enc_bytes :: "enc \<Rightarrow> bytes" where
  "enc_bytes a = concat (map put_bytes (fst a))"

primrec slice_len :: "put \<Rightarrow> nat" where
  "slice_len (TryPut b e) = length b"
| "slice_len (PutShared b) = 0"
| "slice_len PutDone = 0"

definition slice_bytes :: "enc \<Rightarrow> nat" where
  "slice_bytes a = sum_list (map slice_len (fst a))"

lemma enc_simps [simp]:
  "enc_then enc_ok a = a" "snd enc_ok = None" "enc_bytes enc_ok = []"
  "snd (put_slice b) = None" "snd (put_shared b) = None"
  "enc_bytes (put_slice b) = b" "enc_bytes (put_shared b) = b"
  "snd (enc_fail e) = Some e"
  by (simp_all add: enc_ok_def enc_then_def enc_bytes_def put_slice_def put_shared_def enc_fail_def)

lemma enc_then_None [simp]:
  "snd (enc_then a b) = None \<longleftrightarrow> snd a = None \<and> snd b = None"
  by (simp add: enc_then_def split: option.split)

lemma enc_then_bytes [simp]:
  "snd a = None \<Longrightarrow> enc_bytes (enc_then a b) = enc_bytes a @ enc_bytes b"
  by (simp add: enc_then_def enc_bytes_def)

lemma enc_when_simps [simp]: "enc_when True e = e" "enc_when False e = enc_ok"
  by (simp_all add: enc_when_def)

lemma put_ints [simp]:
  "snd (put_u8 b) = None" "snd (put_u16_be v) = None" "snd (put_u32_be w) = None"
  "enc_bytes (put_u8 b) = [b]" "enc_bytes (put_u16_be v) = be16 v" "enc_bytes (put_u32_be w) = be32 w"
  by (simp_all add: put_u8_def put_u16_be_def put_u32_be_def)

lemma enc_all_None: "snd (enc_all as) = None \<longleftrightarrow> list_all (\<lambda>a. snd a = None) as"
  by (induction as) auto

lemma enc_all_bytes: "snd (enc_all as) = None \<Longrightarrow> enc_bytes (enc_all as) = concat (map enc_bytes as)"
  by (induction as) auto

section \<open>Decoders\<close>

type_synonym 'a dec = "decode_error + 'a \<times> bytes"

definition u16_from_be :: "u8 \<Rightarrow> u8 \<Rightarrow> u16" where
  "u16_from_be a b = push_bit 8 (ucast a) OR ucast b"

definition u32_from_be :: "u8 \<Rightarrow> u8 \<Rightarrow> u8 \<Rightarrow> u8 \<Rightarrow> u32" where
  "u32_from_be a b c d =
     push_bit 24 (ucast a) OR push_bit 16 (ucast b) OR push_bit 8 (ucast c) OR ucast d"

fun try_get_u8 :: "bytes \<Rightarrow> u8 dec" where
  "try_get_u8 (a # r) = Inr (a, r)"
| "try_get_u8 [] = Inl IncompletePacket"

fun try_get_u16_be :: "bytes \<Rightarrow> u16 dec" where
  "try_get_u16_be (a # b # r) = Inr (u16_from_be a b, r)"
| "try_get_u16_be _ = Inl IncompletePacket"

fun try_get_u32_be :: "bytes \<Rightarrow> u32 dec" where
  "try_get_u32_be (a # b # c # d # r) = Inr (u32_from_be a b c d, r)"
| "try_get_u32_be _ = Inl IncompletePacket"

definition try_get_packet_identifier :: "bytes \<Rightarrow> pkid dec" where
  "try_get_packet_identifier src =
     and_then (try_get_u16_be src) (\<lambda>(n, r).
       and_then (ok_or (pkid_new n) ZeroPacketIdentifier) (\<lambda>k. Inr (k, r)))"

lemma u16_from_be16: "u16_from_be (ucast (drop_bit 8 w)) (ucast w) = w"
  by (rule bit_word_eqI) (auto simp: u16_from_be_def bit_simps)

lemma u32_from_be32:
  "u32_from_be (ucast (drop_bit 24 w)) (ucast (drop_bit 16 w)) (ucast (drop_bit 8 w)) (ucast w) = w"
proof (rule bit_word_eqI)
  fix n assume "n < LENGTH(32)"
  then consider "n < 8" | "8 \<le> n" "n < 16" | "16 \<le> n" "n < 24" | "24 \<le> n" "n < 32"
    by (cases "n < 8"; cases "n < 16"; cases "n < 24"; simp)
  then show "bit (u32_from_be (ucast (drop_bit 24 w)) (ucast (drop_bit 16 w)) (ucast (drop_bit 8 w)) (ucast w)) n =
      bit w n"
    by cases (auto simp: u32_from_be_def bit_simps)
qed

lemma get_put_ints [simp, roundtrip]:
  "try_get_u8 (a # r) = Inr (a, r)"
  "try_get_u16_be (be16 v @ r) = Inr (v, r)"
  "try_get_u32_be (be32 w @ r) = Inr (w, r)"
  by (simp_all add: be16_def be32_def u16_from_be16 u32_from_be32)

lemma get_pkid [simp, roundtrip]:
  "k \<noteq> 0 \<Longrightarrow> try_get_packet_identifier (be16 k @ r) = Inr (k, r)"
  by (simp add: try_get_packet_identifier_def pkid_new_def)

lemma length_be [simp]: "length (be16 v) = 2" "length (be32 w) = 4"
  by (simp_all add: be16_def be32_def)

section \<open>Variable byte integers\<close>

text \<open>\<open>result\<close> and \<open>n\<close> are the accumulator and the number of bytes read; \<open>None\<close> is an incomplete number.\<close>

fun decode_varint_loop :: "u32 \<Rightarrow> nat \<Rightarrow> bytes \<Rightarrow> decode_error + (u32 \<times> bytes) option" where
  "decode_varint_loop result n [] = Inr None"
| "decode_varint_loop result n (b # rest) =
     (let result' = result OR push_bit (n * 7) (ucast (b AND 0x7F));
          n' = n + 1
      in if b AND 0x80 = 0 then Inr (Some (result', rest))
         else if n' = 4 then Inl DecodeVarintTooHigh
         else decode_varint_loop result' n' rest)"

definition decode_varint :: "bytes \<Rightarrow> decode_error + (u32 \<times> bytes) option" where
  "decode_varint src = decode_varint_loop 0 0 src"

lemma unat_drop_7: "unat (drop_bit 7 (w :: u32)) = unat w div 128"
  by (simp add: unat_drop_bit_eq drop_bit_nat_def)

lemma drop_bit_less: "drop_bit 7 w \<noteq> 0 \<Longrightarrow> drop_bit 7 w < (w :: u32)"
  by (simp only: word_less_nat_alt unat_drop_7 word_unat_eq_iff unat_0)

function encode_varint_loop :: "u32 \<Rightarrow> u32 \<Rightarrow> nat \<Rightarrow> enc" where
  "encode_varint_loop original item n =
     (let item' = drop_bit 7 item;
          byte = (if item' > 0 then ucast (item AND 0x7F) OR 0x80 else ucast (item AND 0x7F))
      in enc_then (put_u8 byte)
           (if item' = 0 then enc_ok
            else if n + 1 = 4 then enc_fail (VarintTooHigh original)
            else encode_varint_loop original item' (n + 1)))"
  by pat_completeness auto
termination
  by (relation "measure (\<lambda>(_, item, _). unat item)") (auto simp: drop_bit_less simp flip: word_less_nat_alt)

declare encode_varint_loop.simps [simp del]

definition encode_varint :: "u32 \<Rightarrow> enc" where
  "encode_varint item = encode_varint_loop item item 0"

text \<open>\<open>usize\<close> has at least 32 bits, so a decoded remaining length is its value.\<close>

definition decode_remaining_length :: "bytes \<Rightarrow> decode_error + (nat \<times> bytes) option" where
  "decode_remaining_length src =
     and_then (decode_varint src) (\<lambda>v. Inr (map_option (\<lambda>(n, rest). (unat n, rest)) v))"

text \<open>Every failure to encode the number, also for want of room, is \<open>RemainingLengthTooHigh\<close>.\<close>

definition enc_map_err :: "encode_error \<Rightarrow> enc \<Rightarrow> enc" where
  "enc_map_err e a =
     (map (\<lambda>p. case p of TryPut b _ \<Rightarrow> TryPut b e | _ \<Rightarrow> p) (fst a), map_option (\<lambda>_. e) (snd a))"

definition encode_remaining_length :: "nat \<Rightarrow> enc" where
  "encode_remaining_length item =
     (if item < 2 ^ 32 then enc_map_err (RemainingLengthTooHigh item) (encode_varint (of_nat item))
      else enc_fail (RemainingLengthTooHigh item))"

definition decode_fixed_header :: "bytes \<Rightarrow> decode_error + ((u8 \<times> nat) \<times> bytes) option" where
  "decode_fixed_header src =
     (case src of
        [] \<Rightarrow> Inr None
      | first_byte # rest \<Rightarrow>
          and_then (decode_remaining_length rest) (\<lambda>v.
            Inr (map_option (\<lambda>(n, rest'). ((first_byte, n), rest')) v)))"

subsection \<open>Reference\<close>

text \<open>Base 128, least significant digit first, with the continuation bit on all but the last.\<close>

fun varint_digits :: "nat \<Rightarrow> nat \<Rightarrow> bytes" where
  "varint_digits 0 v = []"
| "varint_digits (Suc k) v =
     (if v < 128 then [of_nat v] else of_nat (v mod 128 + 128) # varint_digits k (v div 128))"

lemma varint_digits_ne: "varint_digits 4 v \<noteq> []"
proof -
  have "(4 :: nat) = Suc 3" by simp
  then show ?thesis by (simp only: varint_digits.simps(2)) simp
qed

fun varint_value :: "bytes \<Rightarrow> nat" where
  "varint_value [] = 0"
| "varint_value (b # bs) = unat b mod 128 + 128 * varint_value bs"

lemma continue_bit: "b AND 0x80 = 0 \<longleftrightarrow> unat (b :: u8) < 128"
proof -
  have "b AND 0x80 = 0 \<longleftrightarrow> \<not> bit b 7"
    using and_exp_eq_0_iff_not_bit [of b 7] by simp
  also have "bit b 7 \<longleftrightarrow> bit (unat b) 7" by (simp add: bit_unsigned_iff)
  also have "\<dots> \<longleftrightarrow> odd (unat b div 128)" by (simp add: bit_iff_odd)
  also have "unat b div 128 = (if unat b < 128 then 0 else 1)"
    using u8_bound [of b] by (auto intro: div_nat_eqI)
  also have "odd (if unat b < 128 then 0 else 1 :: nat) \<longleftrightarrow> \<not> unat b < 128" by simp
  finally show ?thesis by simp
qed

lemma nat_and_7F: "n AND 127 = n mod (128 :: nat)"
  using take_bit_eq_mask [of 7 n] by (simp add: mask_eq_exp_minus_1 take_bit_nat_def)

lemma unat_and_7F: "unat (b AND 0x7F :: u8) = unat b mod 128" "unat (w AND 0x7F :: u32) = unat w mod 128"
  using unsigned_take_bit_eq [of 7 b, where 'a = nat] unsigned_take_bit_eq [of 7 w, where 'a = nat]
  by (simp_all add: take_bit_eq_mask mask_eq_exp_minus_1 nat_and_7F)

text \<open>The byte the encoder puts, with and without the continuation bit.\<close>

lemma varint_byte:
  "ucast (w AND 0x7F :: u32) = (of_nat (unat w mod 128) :: u8)"
  "ucast (w AND 0x7F :: u32) OR (0x80 :: u8) = of_nat (unat w mod 128 + 128)"
proof -
  show low: "ucast (w AND 0x7F :: u32) = (of_nat (unat w mod 128) :: u8)"
    by (simp add: word_unat_eq_iff unsigned_ucast_eq take_bit_nat_def unat_and_7F unat_of_nat)
  have "unat w mod 128 < 2 ^ 7" by simp
  then have "(of_nat (unat w mod 128) :: u8) = take_bit 7 (of_nat (unat w mod 128))"
    by (simp add: word_unat_eq_iff unsigned_take_bit_eq take_bit_nat_def unat_of_nat)
  then have "(of_nat (unat w mod 128) :: u8) AND 0x80 = 0"
    by (simp add: continue_bit unat_of_nat)
  then have "(of_nat (unat w mod 128) :: u8) OR 0x80 = of_nat (unat w mod 128) + 0x80"
    by (simp add: disjunctive_add_eq_or)
  with low show "ucast (w AND 0x7F :: u32) OR (0x80 :: u8) = of_nat (unat w mod 128 + 128)" by simp
qed

lemma unat_u8_of_nat: "n < 256 \<Longrightarrow> unat (of_nat n :: u8) = n"
  by (simp add: unat_of_nat)

lemma encode_varint_loop_digits:
  assumes "n < 4" and "unat item < 128 ^ (4 - n)"
  shows "snd (encode_varint_loop original item n) = None \<and>
    enc_bytes (encode_varint_loop original item n) = varint_digits (4 - n) (unat item)"
  using assms
proof (induction original item n rule: encode_varint_loop.induct)
  case (1 original item n)
  obtain k where k: "4 - n = Suc k" using "1.prems"(1) by (cases "4 - n") auto
  show ?case
  proof (cases "unat item < 128")
    case True
    then have "drop_bit 7 item = 0" by (simp only: word_unat_eq_iff unat_drop_7 unat_0 div_less)
    with True k show ?thesis
      by (simp add: encode_varint_loop.simps varint_byte(1))
  next
    case False
    then have nz: "drop_bit 7 item \<noteq> 0" "drop_bit 7 item > 0"
      by (simp_all only: word_unat_eq_iff unat_drop_7 unat_0 word_gt_0)
    have "n + 1 < 4" using False "1.prems" by (cases "n = 3") auto
    have k': "3 - n = k" using k by simp
    moreover note \<open>n + 1 < 4\<close>
    moreover have "unat (drop_bit 7 item) < 128 ^ (4 - (n + 1))"
    proof -
      have "4 - (n + 1) = k" using k by simp
      with "1.prems"(2) k show ?thesis unfolding unat_drop_7
        by (simp add: less_mult_imp_div_less mult.commute)
    qed
    ultimately have IH: "snd (encode_varint_loop original (drop_bit 7 item) (n + 1)) = None \<and>
        enc_bytes (encode_varint_loop original (drop_bit 7 item) (n + 1)) = varint_digits k (unat item div 128)"
      using "1.IH" [OF refl refl] nz k by (simp add: unat_drop_7)
    have "encode_varint_loop original item n =
        enc_then (put_u8 (of_nat (unat item mod 128 + 128))) (encode_varint_loop original (drop_bit 7 item) (n + 1))"
      using nz \<open>n + 1 < 4\<close> encode_varint_loop.simps [of original item n]
      by (simp add: varint_byte(2) Let_def del: of_nat_add)
    with IH False k show ?thesis by (simp del: of_nat_add)
  qed
qed

lemma unat_or_push:
  assumes "unat r < 128 ^ n" and "n < 4" and "x < 128"
  shows "unat (r OR push_bit (n * 7) (of_nat x :: u32)) = unat r + x * 128 ^ n"
proof -
  have "(128 :: nat) ^ n = (2 ^ 7) ^ n" by simp
  then have pow: "(128 :: nat) ^ n = 2 ^ (n * 7)" by (metis mult.commute power_mult)
  have "n * 7 \<le> 21" using assms(2) by simp
  then have le: "(2 :: nat) ^ (n * 7) \<le> 2 ^ 21" by (rule power_increasing) simp
  have "take_bit (n * 7) r = r"
    using assms(1) unfolding pow by (simp add: word_unat_eq_iff unsigned_take_bit_eq take_bit_nat_def)
  then have bits: "bit r i \<Longrightarrow> i < n * 7" for i by (metis bit_take_bit_iff)
  have "r AND push_bit (n * 7) (of_nat x) = 0"
    by (rule bit_word_eqI) (auto simp: bit_simps dest: bits)
  then have "r OR push_bit (n * 7) (of_nat x) = r + push_bit (n * 7) (of_nat x)"
    by (simp add: disjunctive_add_eq_or)
  moreover have small: "x * 2 ^ (n * 7) < 2 ^ 28"
  proof -
    have "x * 2 ^ (n * 7) \<le> 127 * 2 ^ 21" using assms(3) le by (intro mult_mono) auto
    then show ?thesis by simp
  qed
  moreover have "unat (push_bit (n * 7) (of_nat x :: u32)) = x * 2 ^ (n * 7)"
    using small assms(3) by (simp add: unsigned_push_bit_eq take_bit_nat_def push_bit_nat_def unat_of_nat)
  moreover have "unat r < 2 ^ 21" using assms(1) le unfolding pow by linarith
  ultimately show ?thesis unfolding pow by (simp add: unat_word_ariths)
qed

lemma base_128_digits: "d * b + q * (128 * b) = (q * 128 + d) * (b :: nat)"
  by (simp add: algebra_simps)

lemma decode_varint_loop_digits:
  assumes "n < 4" and "unat r < 128 ^ n" and "v < 128 ^ (4 - n)"
  shows "\<exists>r'. decode_varint_loop r n (varint_digits (4 - n) v @ rest) = Inr (Some (r', rest)) \<and>
    unat r' = unat r + v * 128 ^ n"
  using assms
proof (induction "4 - n" arbitrary: n r v)
  case (Suc k)
  then have k: "4 - n = Suc k" by simp
  have byte: "ucast ((of_nat x :: u8) AND 0x7F) = (of_nat (x mod 128) :: u32)" if "x < 256" for x
    using that by (simp add: word_unat_eq_iff unsigned_ucast_eq take_bit_nat_def unat_and_7F unat_of_nat)
  show ?case
  proof (cases "v < 128")
    case True
    then have "(of_nat v :: u8) AND 0x80 = 0" by (simp add: continue_bit unat_u8_of_nat)
    moreover have "unat (r OR push_bit (n * 7) (of_nat v :: u32)) = unat r + v * 128 ^ n"
      by (rule unat_or_push [OF Suc.prems(2,1) True])
    ultimately show ?thesis using True k byte [of v] by simp
  next
    case False
    let ?d = "v mod 128" and ?r = "r OR push_bit (n * 7) (of_nat (v mod 128) :: u32)"
    have r: "unat ?r = unat r + ?d * 128 ^ n"
      by (rule unat_or_push [OF Suc.prems(2,1)]) simp
    have n: "n + 1 < 4" using False Suc.prems k by (cases "n = 3") auto
    have "unat ?r < 128 ^ (n + 1)"
    proof -
      have "?d * 128 ^ n \<le> 127 * 128 ^ n" by (rule mult_right_mono) simp_all
      with Suc.prems(2) r have "unat ?r < 128 ^ n + 127 * 128 ^ n" by linarith
      then show ?thesis by simp
    qed
    moreover have k': "k = 4 - (n + 1)" using k by simp
    moreover have "v div 128 < 128 ^ (4 - (n + 1))"
      using Suc.prems(3) k unfolding k' [symmetric] by (simp add: less_mult_imp_div_less mult.commute)
    ultimately obtain r' where r': "decode_varint_loop ?r (n + 1) (varint_digits k (v div 128) @ rest) = Inr (Some (r', rest))"
        "unat r' = unat ?r + v div 128 * 128 ^ (n + 1)"
      using Suc.hyps(1) [of "n + 1" ?r "v div 128"] n by auto
    have "\<not> (of_nat (?d + 128) :: u8) AND 0x80 = 0" by (simp add: continue_bit unat_u8_of_nat del: of_nat_add)
    moreover have "unat r' = unat r + v * 128 ^ n"
      using r r'(2) base_128_digits [of ?d "128 ^ n" "v div 128"] by simp
    ultimately show ?thesis using False k n r'(1) byte [of "?d + 128"] by (auto simp del: of_nat_add)
  qed
qed simp

subsection \<open>Round trip, limit and streaming\<close>

text \<open>Four digits of seven bits: the largest remaining length is 268 435 455.\<close>

abbreviation varint_limit :: nat where "varint_limit \<equiv> 128 ^ 4"

lemma encode_varint_bytes:
  assumes "unat v < varint_limit"
  shows "snd (encode_varint v) = None" and "enc_bytes (encode_varint v) = varint_digits 4 (unat v)"
  using encode_varint_loop_digits [of 0 v v] assms by (simp_all add: encode_varint_def)

lemma decode_varint_digits:
  assumes "n < varint_limit"
  shows "decode_varint (varint_digits 4 n @ rest) = Inr (Some (of_nat n, rest))"
proof -
  have "\<exists>r'. decode_varint (varint_digits 4 n @ rest) = Inr (Some (r', rest)) \<and> unat r' = n"
    using decode_varint_loop_digits [of 0 0 n rest] assms by (simp add: decode_varint_def)
  then obtain r' where r': "decode_varint (varint_digits 4 n @ rest) = Inr (Some (r', rest))" "unat r' = n"
    by blast
  then have "r' = of_nat n" by (metis of_nat_unat ucast_id)
  with r' show ?thesis by simp
qed

lemma varint_roundtrip [roundtrip]:
  assumes "unat v < varint_limit"
  shows "decode_varint (enc_bytes (encode_varint v) @ rest) = Inr (Some (v, rest))"
  using encode_varint_bytes(2) [OF assms] decode_varint_digits [OF assms, of rest] by simp

lemma encode_varint_loop_too_high:
  assumes "n < 4" and "unat item \<ge> 128 ^ (4 - n)"
  shows "snd (encode_varint_loop original item n) = Some (VarintTooHigh original)"
  using assms
proof (induction original item n rule: encode_varint_loop.induct)
  case (1 original item n)
  obtain k where k: "4 - n = Suc k" using "1.prems"(1) by (cases "4 - n") auto
  have "128 ^ Suc k \<le> unat item" using "1.prems"(2) k by simp
  then have high: "128 ^ k \<le> unat (drop_bit 7 item)"
    unfolding unat_drop_7 by (simp add: less_eq_div_iff_mult_less_eq mult.commute)
  then have "unat (drop_bit 7 item) \<noteq> 0" by (metis le_zero_eq power_not_zero zero_neq_numeral)
  then have nz: "drop_bit 7 item \<noteq> 0" by (metis unat_0)
  show ?case
  proof (cases "n + 1 = 4")
    case True
    with nz show ?thesis
      using encode_varint_loop.simps [of original item n] by (simp add: Let_def enc_then_def)
  next
    case False
    have "4 - (n + 1) = k" using k by simp
    with False nz high "1.prems"(1)
    have "snd (encode_varint_loop original (drop_bit 7 item) (n + 1)) = Some (VarintTooHigh original)"
      using "1.IH" [OF refl refl] by simp
    with False nz show ?thesis
      using encode_varint_loop.simps [of original item n] by (simp add: Let_def enc_then_def)
  qed
qed

lemma encode_varint_fails_iff:
  "snd (encode_varint v) = (if unat v < varint_limit then None else Some (VarintTooHigh v))"
  using encode_varint_bytes(1) encode_varint_loop_too_high [of 0 v v]
  by (simp add: encode_varint_def)

text \<open>A number that is complete does not depend on the bytes after it.\<close>

lemma decode_varint_loop_append:
  "decode_varint_loop r n src = Inr (Some (v, rest)) \<Longrightarrow>
     decode_varint_loop r n (src @ later) = Inr (Some (v, rest @ later))"
  by (induction r n src rule: decode_varint_loop.induct) (auto simp: Let_def split: if_splits)

lemma decode_varint_append:
  "decode_varint src = Inr (Some (v, rest)) \<Longrightarrow> decode_varint (src @ later) = Inr (Some (v, rest @ later))"
  unfolding decode_varint_def by (rule decode_varint_loop_append)

lemma decode_varint_loop_shorter:
  "decode_varint_loop r n src = Inr (Some (v, rest)) \<Longrightarrow> length rest < length src"
  by (induction r n src rule: decode_varint_loop.induct) (fastforce simp: Let_def less_Suc_eq split: if_splits)+

lemma decode_varint_shorter: "decode_varint src = Inr (Some (v, rest)) \<Longrightarrow> length rest < length src"
  unfolding decode_varint_def by (rule decode_varint_loop_shorter)

text \<open>The decoder asks for more bytes only while it has fewer than four.\<close>

lemma decode_varint_loop_incomplete:
  "decode_varint_loop r n src = Inr None \<Longrightarrow> n \<le> 3 \<Longrightarrow> n + length src \<le> 3"
  by (induction r n src rule: decode_varint_loop.induct) (auto simp: Let_def split: if_splits)

lemma decode_varint_incomplete: "decode_varint src = Inr None \<Longrightarrow> length src \<le> 3"
  unfolding decode_varint_def using decode_varint_loop_incomplete by fastforce

lemma decode_varint_loop_bound:
  assumes "decode_varint_loop r n src = Inr (Some (v, rest))" and "n < 4" and "unat r < 128 ^ n"
  shows "unat v < varint_limit"
  using assms
proof (induction r n src rule: decode_varint_loop.induct)
  case (2 r n b bs)
  let ?r = "r OR push_bit (n * 7) (ucast (b AND 0x7F))"
  have "ucast (b AND 0x7F) = (of_nat (unat b mod 128) :: u32)"
    by (simp add: word_unat_eq_iff unsigned_ucast_eq take_bit_nat_def unat_and_7F unat_of_nat)
  then have "unat ?r = unat r + unat b mod 128 * 128 ^ n"
    using unat_or_push [OF "2.prems"(3,2), of "unat b mod 128"] by simp
  moreover have "unat b mod 128 * 128 ^ n \<le> 127 * 128 ^ n" by (rule mult_right_mono) simp_all
  ultimately have "unat ?r < 128 ^ n + 127 * 128 ^ n" using "2.prems"(3) by linarith
  then have less: "unat ?r < 128 ^ (n + 1)" by simp
  show ?case
  proof (cases "b AND 0x80 = 0")
    case True
    have "(128 :: nat) ^ (n + 1) \<le> 128 ^ 4" using "2.prems"(2) by (intro power_increasing) auto
    with True less "2.prems"(1) show ?thesis by (simp add: Let_def)
  next
    case False
    with "2.prems"(1) have "n + 1 \<noteq> 4"
      and "decode_varint_loop ?r (n + 1) bs = Inr (Some (v, rest))"
      by (auto simp: Let_def split: if_splits)
    with False "2.prems"(2) less show ?thesis using "2.IH" [OF refl refl] by simp
  qed
qed simp

lemma decode_varint_bound: "decode_varint src = Inr (Some (v, rest)) \<Longrightarrow> unat v < varint_limit"
  unfolding decode_varint_def by (rule decode_varint_loop_bound) auto

subsection \<open>Remaining length and fixed header\<close>

lemma enc_map_err_simps [simp]:
  "enc_bytes (enc_map_err e a) = enc_bytes a" "snd (enc_map_err e a) = map_option (\<lambda>_. e) (snd a)"
  "slice_bytes (enc_map_err e a) = slice_bytes a"
  by (auto simp: enc_bytes_def slice_bytes_def enc_map_err_def split: put.split
        intro!: arg_cong [where f = concat] arg_cong [where f = sum_list])

lemma encode_remaining_length_bytes:
  assumes "n < varint_limit"
  shows "snd (encode_remaining_length n) = None"
    and "enc_bytes (encode_remaining_length n) = varint_digits 4 n"
proof -
  have "unat (of_nat n :: u32) = n" using assms by (simp add: unat_of_nat)
  with assms encode_varint_bytes [of "of_nat n"]
  show "snd (encode_remaining_length n) = None"
    and "enc_bytes (encode_remaining_length n) = varint_digits 4 n"
    by (simp_all add: encode_remaining_length_def)
qed

lemma encode_remaining_length_fails:
  assumes "n \<ge> varint_limit"
  shows "snd (encode_remaining_length n) = Some (RemainingLengthTooHigh n)"
proof (cases "n < 2 ^ 32")
  case True
  then have "unat (of_nat n :: u32) = n" by (simp add: unat_of_nat)
  with True assms show ?thesis
    using encode_varint_fails_iff [of "of_nat n"] by (simp add: encode_remaining_length_def)
qed (simp add: encode_remaining_length_def)

lemma encode_remaining_length_None: "snd (encode_remaining_length n) = None \<longleftrightarrow> n < varint_limit"
  using encode_remaining_length_bytes(1) encode_remaining_length_fails by (metis not_le option.distinct(1))

lemma decode_remaining_length_digits [roundtrip]:
  assumes "n < varint_limit"
  shows "decode_remaining_length (varint_digits 4 n @ rest) = Inr (Some (n, rest))"
  using decode_varint_digits [OF assms, of rest] assms
  by (simp add: decode_remaining_length_def unat_of_nat)

lemma decode_remaining_length_append:
  "decode_remaining_length src = Inr (Some (n, rest)) \<Longrightarrow>
     decode_remaining_length (src @ later) = Inr (Some (n, rest @ later))"
  by (auto simp: decode_remaining_length_def and_then_eq_Inr decode_varint_append)

lemma decode_remaining_length_shorter:
  "decode_remaining_length src = Inr (Some (n, rest)) \<Longrightarrow> length rest < length src"
  by (auto simp: decode_remaining_length_def and_then_eq_Inr dest: decode_varint_shorter)

lemma decode_fixed_header_incomplete: "decode_fixed_header src = Inr None \<Longrightarrow> length src \<le> 4"
  by (auto simp: decode_fixed_header_def decode_remaining_length_def and_then_eq_Inr
      split: list.splits dest: decode_varint_incomplete)

lemma decode_fixed_header_append:
  "decode_fixed_header src = Inr (Some (h, rest)) \<Longrightarrow>
     decode_fixed_header (src @ later) = Inr (Some (h, rest @ later))"
  by (cases src) (auto simp: decode_fixed_header_def and_then_eq_Inr decode_remaining_length_append)

lemma decode_fixed_header_shorter:
  "decode_fixed_header src = Inr (Some (h, rest)) \<Longrightarrow> length rest < length src"
  by (cases src) (auto simp: decode_fixed_header_def and_then_eq_Inr dest: decode_remaining_length_shorter)

lemma decode_fixed_header_digits [roundtrip]:
  "n < varint_limit \<Longrightarrow>
     decode_fixed_header (b # varint_digits 4 n @ rest) = Inr (Some ((b, n), rest))"
  by (simp add: decode_fixed_header_def decode_remaining_length_digits)

end
