(* ===== verification/Accumulators.thy ===== *)
theory Accumulators
  imports Codec_Base
begin

text \<open>
  The targets of an encoder: \<open>ByteCounter\<close> (src/src/mqtt_proto/byte_counter.rs),
  \<open>SingleAccumulator\<close>, \<open>IovecsAccumulator\<close> and \<open>EitherAccumulator\<close>
  (src/src/buffer_pool/accumulators). The locale \<open>bytes_accumulator\<close> is the contract of the trait
  \<open>BytesAccumulator\<close>: encoders rely on nothing else, and every implementation is an
  interpretation of it. A \<open>usize\<close> that counts bytes is a natural number.
\<close>

section \<open>Buffers of the pool\<close>

text \<open>
  \<open>Owned\<close> is a filled region and an unfilled one. How far \<open>reserve\<close> and \<open>unfilled_mut\<close> extend the
  unfilled region is up to the buffer pool: a \<open>pool\<close> gives the new length of the unfilled region
  for the old one, \<open>None\<close> being the pool's error.
\<close>

record owned =
  filled :: bytes
  unfilled_len :: nat

record pool =
  pool_reserve :: "nat \<Rightarrow> nat \<Rightarrow> nat option"
  pool_unfilled_mut :: "nat \<Rightarrow> nat"

text \<open>
  What the traits document: after \<open>reserve\<close> there is at least as much room as asked for, and the
  slice of the unfilled region is all of it.
\<close>

definition pool_ok :: "pool \<Rightarrow> bool" where
  "pool_ok bp \<longleftrightarrow>
     (\<forall>u n u'. pool_reserve bp u n = Some u' \<longrightarrow> n \<le> u') \<and> (\<forall>u. u \<le> pool_unfilled_mut bp u)"

definition owned_reserve :: "pool \<Rightarrow> nat \<Rightarrow> owned \<Rightarrow> owned option" where
  "owned_reserve bp n ow =
     map_option (\<lambda>u. ow\<lparr>unfilled_len := u\<rparr>) (pool_reserve bp (unfilled_len ow) n)"

definition owned_unfilled_mut :: "pool \<Rightarrow> owned \<Rightarrow> owned" where
  "owned_unfilled_mut bp ow = ow\<lparr>unfilled_len := pool_unfilled_mut bp (unfilled_len ow)\<rparr>"

text \<open>The bytes copied to the start of the unfilled region become filled.\<close>

definition owned_fill :: "bytes \<Rightarrow> owned \<Rightarrow> owned" where
  "owned_fill b ow = ow\<lparr>filled := filled ow @ b, unfilled_len := unfilled_len ow - length b\<rparr>"

section \<open>Running an encoder on an accumulator\<close>

fun run_puts ::
  "(bytes \<Rightarrow> 'a \<Rightarrow> bool \<times> 'a) \<Rightarrow> (bytes \<Rightarrow> 'a \<Rightarrow> 'a) \<Rightarrow> ('a \<Rightarrow> 'a) \<Rightarrow> put list \<Rightarrow> 'a \<Rightarrow>
     'a \<times> encode_error option"
where
  "run_puts tp sh dn [] a = (a, None)"
| "run_puts tp sh dn (TryPut b e # ps) a =
     (case tp b a of (True, a') \<Rightarrow> run_puts tp sh dn ps a' | (False, a') \<Rightarrow> (a', Some e))"
| "run_puts tp sh dn (PutShared b # ps) a = run_puts tp sh dn ps (sh b a)"
| "run_puts tp sh dn (PutDone # ps) a = run_puts tp sh dn ps (dn a)"

definition run_enc ::
  "(bytes \<Rightarrow> 'a \<Rightarrow> bool \<times> 'a) \<Rightarrow> (bytes \<Rightarrow> 'a \<Rightarrow> 'a) \<Rightarrow> ('a \<Rightarrow> 'a) \<Rightarrow> enc \<Rightarrow> 'a \<Rightarrow>
     'a \<times> encode_error option"
where
  "run_enc tp sh dn e a =
     (case run_puts tp sh dn (fst e) a of (a', Some err) \<Rightarrow> (a', Some err) | (a', None) \<Rightarrow> (a', snd e))"

primrec put_effect :: "(bytes \<Rightarrow> 'c \<Rightarrow> 'c) \<Rightarrow> (bytes \<Rightarrow> 'c \<Rightarrow> 'c) \<Rightarrow> put \<Rightarrow> 'c \<Rightarrow> 'c" where
  "put_effect sl sh (TryPut b e) = sl b"
| "put_effect sl sh (PutShared b) = sh b"
| "put_effect sl sh PutDone = id"

text \<open>
  The contract of the trait: an accumulator has a view that slices and shared buffers are added to,
  and \<open>fits n\<close> promises that slices of \<open>n\<close> bytes in all will be accepted, however many shared
  buffers come between them.
\<close>

locale bytes_accumulator =
  fixes try_put_slice :: "bytes \<Rightarrow> 'a \<Rightarrow> bool \<times> 'a"
    and put_shared :: "bytes \<Rightarrow> 'a \<Rightarrow> 'a"
    and put_done :: "'a \<Rightarrow> 'a"
    and view :: "'a \<Rightarrow> 'c"
    and add_slice :: "bytes \<Rightarrow> 'c \<Rightarrow> 'c"
    and add_shared :: "bytes \<Rightarrow> 'c \<Rightarrow> 'c"
    and fits :: "nat \<Rightarrow> 'a \<Rightarrow> bool"
  assumes fits_slice:
      "fits (length b + n) a \<Longrightarrow>
         \<exists>a'. try_put_slice b a = (True, a') \<and> fits n a' \<and> view a' = add_slice b (view a)"
    and fits_shared: "fits n a \<Longrightarrow> fits n (put_shared b a)"
    and view_shared: "view (put_shared b a) = add_shared b (view a)"
    and fits_done: "fits n a \<Longrightarrow> fits n (put_done a)"
    and view_done: "view (put_done a) = view a"
begin

lemma run_puts_fits:
  "fits (sum_list (map slice_len ps) + n) a \<Longrightarrow>
     \<exists>a'. run_puts try_put_slice put_shared put_done ps a = (a', None) \<and> fits n a' \<and>
       view a' = fold (put_effect add_slice add_shared) ps (view a)"
proof (induction ps arbitrary: a)
  case (Cons p ps)
  show ?case
  proof (cases p)
    case (TryPut b e)
    with Cons.prems have "fits (length b + (sum_list (map slice_len ps) + n)) a"
      by (simp add: add.assoc)
    from fits_slice [OF this] Cons.IH TryPut show ?thesis by fastforce
  next
    case (PutShared b)
    with Cons.IH [of "put_shared b a"] Cons.prems show ?thesis by (simp add: fits_shared view_shared)
  next
    case PutDone
    with Cons.IH [of "put_done a"] Cons.prems show ?thesis by (simp add: fits_done view_done)
  qed
qed simp

text \<open>An encoder that has room ends with its own error or none, and its puts are in the view.\<close>

lemma run_enc_fits:
  assumes "fits (slice_bytes e + n) a"
  shows "\<exists>a'. run_enc try_put_slice put_shared put_done e a = (a', snd e) \<and> fits n a' \<and>
    view a' = fold (put_effect add_slice add_shared) (fst e) (view a)"
  using run_puts_fits [of "fst e" n a] assms by (auto simp: run_enc_def slice_bytes_def)

end

section \<open>ByteCounter\<close>

text \<open>The state is the count; the flag is \<open>COUNT_SHARED\<close>.\<close>

definition counter_try_put_slice :: "bytes \<Rightarrow> nat \<Rightarrow> bool \<times> nat" where
  "counter_try_put_slice src count = (True, count + length src)"

definition counter_put_shared :: "bool \<Rightarrow> bytes \<Rightarrow> nat \<Rightarrow> nat" where
  "counter_put_shared count_shared src count = (if count_shared then count + length src else count)"

definition counter_put_done :: "nat \<Rightarrow> nat" where
  "counter_put_done count = count"

interpretation counter: bytes_accumulator counter_try_put_slice "counter_put_shared cs" counter_put_done
  id "\<lambda>b n. n + length b" "\<lambda>b n. if cs then n + length b else n" "\<lambda>_ _. True"
  for cs
  by unfold_locales
    (auto simp: counter_try_put_slice_def counter_put_shared_def counter_put_done_def)

definition byte_count :: "bool \<Rightarrow> enc \<Rightarrow> nat \<times> encode_error option" where
  "byte_count count_shared e =
     run_enc counter_try_put_slice (counter_put_shared count_shared) counter_put_done e 0"

lemma fold_count_all:
  "fold (put_effect (\<lambda>b n. n + length b) (\<lambda>b n. n + length b)) ps k = k + length (concat (map put_bytes ps))"
proof (induction ps arbitrary: k)
  case (Cons p ps) then show ?case by (cases p) auto
qed simp

lemma fold_count_slices:
  "fold (put_effect (\<lambda>b n. n + length b) (\<lambda>b n. n)) ps k = k + sum_list (map slice_len ps)"
proof (induction ps arbitrary: k)
  case (Cons p ps) then show ?case by (cases p) auto
qed simp

text \<open>Counting shared buffers gives the length of the encoding, not counting them the slices.\<close>

lemma byte_count_all: "byte_count True e = (length (enc_bytes e), snd e)"
  using counter.run_enc_fits [where cs = True and e = e and a = 0]
  by (auto simp: byte_count_def fold_count_all enc_bytes_def)

lemma byte_count_slices: "byte_count False e = (slice_bytes e, snd e)"
  using counter.run_enc_fits [where cs = False and e = e and a = 0]
  by (auto simp: byte_count_def fold_count_slices slice_bytes_def)

section \<open>SingleAccumulator\<close>

definition single_try_put_slice :: "bytes \<Rightarrow> bytes \<Rightarrow> bool \<times> bytes" where
  "single_try_put_slice src a = (True, a @ src)"

definition single_put_shared :: "bytes \<Rightarrow> bytes \<Rightarrow> bytes" where
  "single_put_shared src a = a @ src"

definition single_put_done :: "bytes \<Rightarrow> bytes" where
  "single_put_done a = a"

definition single_to_iovecs :: "bytes \<Rightarrow> bytes list" where
  "single_to_iovecs a = (if a = [] then [] else [a])"

text \<open>\<open>None\<close> is the panic of \<open>advance\<close> past the end.\<close>

definition single_drain :: "nat \<Rightarrow> bytes \<Rightarrow> bytes option" where
  "single_drain n a = (if n \<le> length a then Some (drop n a) else None)"

interpretation single: bytes_accumulator single_try_put_slice single_put_shared single_put_done
  id "\<lambda>b v. v @ b" "\<lambda>b v. v @ b" "\<lambda>_ _. True"
  by unfold_locales (auto simp: single_try_put_slice_def single_put_shared_def single_put_done_def)

section \<open>IovecsAccumulator\<close>

record iovecs_accumulator =
  acc_owned :: owned
  chunks :: "bytes list"
  total_size :: nat

definition iovecs_new :: "owned \<Rightarrow> iovecs_accumulator" where
  "iovecs_new ow = \<lparr>acc_owned = ow, chunks = [], total_size = 0\<rparr>"

definition iovecs_can_accept_more :: "iovecs_accumulator \<Rightarrow> bool" where
  "iovecs_can_accept_more a \<longleftrightarrow> length (chunks a) < 128 - 10"

definition iovecs_reserve :: "pool \<Rightarrow> nat \<Rightarrow> iovecs_accumulator \<Rightarrow> iovecs_accumulator option" where
  "iovecs_reserve bp n a = map_option (\<lambda>ow. a\<lparr>acc_owned := ow\<rparr>) (owned_reserve bp n (acc_owned a))"

definition iovecs_put_done :: "iovecs_accumulator \<Rightarrow> iovecs_accumulator" where
  "iovecs_put_done a =
     (let shared = filled (acc_owned a)
      in if shared = [] then a
         else a\<lparr>acc_owned := (acc_owned a)\<lparr>filled := []\<rparr>, total_size := total_size a + length shared,
                chunks := chunks a @ [shared]\<rparr>)"

definition iovecs_put_shared :: "bytes \<Rightarrow> iovecs_accumulator \<Rightarrow> iovecs_accumulator" where
  "iovecs_put_shared src a =
     (if src = [] then a
      else let a = iovecs_put_done a
           in a\<lparr>total_size := total_size a + length src, chunks := chunks a @ [src]\<rparr>)"

definition iovecs_try_put_slice :: "pool \<Rightarrow> bytes \<Rightarrow> iovecs_accumulator \<Rightarrow> bool \<times> iovecs_accumulator" where
  "iovecs_try_put_slice bp src a =
     (let ow = owned_unfilled_mut bp (acc_owned a)
      in if unfilled_len ow \<ge> length src then (True, a\<lparr>acc_owned := owned_fill src ow\<rparr>)
         else (False, a\<lparr>acc_owned := ow\<rparr>))"

text \<open>The I/O slices, at most \<open>k\<close> of them; \<open>None\<close> is the failing assertion.\<close>

definition iovecs_to_iovecs :: "nat \<Rightarrow> iovecs_accumulator \<Rightarrow> bytes list option" where
  "iovecs_to_iovecs k a = (if filled (acc_owned a) = [] then Some (take k (chunks a)) else None)"

text \<open>\<open>None\<close> is the failing assertion, or the overflow of the subtraction from \<open>total_size\<close>.\<close>

fun drain_slow :: "nat \<Rightarrow> bytes list \<Rightarrow> nat \<Rightarrow> (bytes list \<times> nat) option" where
  "drain_slow n [] t = (if n = 0 then Some ([], t) else None)"
| "drain_slow n (chunk # rest) t =
     (if t < length chunk then None
      else if length chunk \<le> n then drain_slow (n - length chunk) rest (t - length chunk)
      else Some (drop n chunk # rest, t - length chunk + length (drop n chunk)))"

definition iovecs_drain :: "nat \<Rightarrow> iovecs_accumulator \<Rightarrow> iovecs_accumulator option" where
  "iovecs_drain n a =
     (if total_size a = n then Some (a\<lparr>total_size := 0, chunks := []\<rparr>)
      else map_option (\<lambda>(cs, t). a\<lparr>chunks := cs, total_size := t\<rparr>) (drain_slow n (chunks a) (total_size a)))"

definition iovecs_is_empty :: "iovecs_accumulator \<Rightarrow> bool" where
  "iovecs_is_empty a \<longleftrightarrow> filled (acc_owned a) = [] \<and> list_all (\<lambda>c. c = []) (chunks a)"

text \<open>All bytes it holds, those not yet committed last.\<close>

definition iovecs_view :: "iovecs_accumulator \<Rightarrow> bytes" where
  "iovecs_view a = concat (chunks a) @ filled (acc_owned a)"

definition iovecs_inv :: "iovecs_accumulator \<Rightarrow> bool" where
  "iovecs_inv a \<longleftrightarrow> total_size a = length (concat (chunks a)) \<and> [] \<notin> set (chunks a)"

lemma owned_put_fits:
  assumes "pool_ok bp" and "length b + n \<le> unfilled_len ow"
  shows "length b \<le> unfilled_len (owned_unfilled_mut bp ow)"
    and "n \<le> unfilled_len (owned_fill b (owned_unfilled_mut bp ow))"
proof -
  have "unfilled_len ow \<le> pool_unfilled_mut bp (unfilled_len ow)"
    using assms(1) by (simp add: pool_ok_def)
  with assms(2) show "length b \<le> unfilled_len (owned_unfilled_mut bp ow)"
    and "n \<le> unfilled_len (owned_fill b (owned_unfilled_mut bp ow))"
    by (simp_all add: owned_unfilled_mut_def owned_fill_def)
qed

lemma filled_ops [simp]:
  "filled (owned_unfilled_mut bp ow) = filled ow" "filled (owned_fill b ow) = filled ow @ b"
  by (simp_all add: owned_unfilled_mut_def owned_fill_def)

lemma iovecs_accumulator_laws:
  assumes "pool_ok bp"
  shows "bytes_accumulator (iovecs_try_put_slice bp) iovecs_put_shared iovecs_put_done
    iovecs_view (\<lambda>b v. v @ b) (\<lambda>b v. v @ b) (\<lambda>n a. n \<le> unfilled_len (acc_owned a))"
proof unfold_locales
  fix b :: bytes and n :: nat and a :: iovecs_accumulator
  assume "length b + n \<le> unfilled_len (acc_owned a)"
  from owned_put_fits [OF assms this]
  show "\<exists>a'. iovecs_try_put_slice bp b a = (True, a') \<and> n \<le> unfilled_len (acc_owned a') \<and>
      iovecs_view a' = iovecs_view a @ b"
    by (simp add: iovecs_try_put_slice_def iovecs_view_def Let_def)
qed (auto simp: iovecs_put_shared_def iovecs_put_done_def iovecs_view_def Let_def)

lemma iovecs_inv_new [simp]: "iovecs_inv (iovecs_new ow)"
  by (simp add: iovecs_inv_def iovecs_new_def)

lemma iovecs_inv_ops [simp]:
  assumes "iovecs_inv a"
  shows "iovecs_inv (iovecs_put_done a)" "iovecs_inv (iovecs_put_shared b a)"
    "iovecs_inv (snd (iovecs_try_put_slice bp b a))"
    "iovecs_reserve bp n a = Some a' \<Longrightarrow> iovecs_inv a'"
  using assms
  by (auto simp: iovecs_inv_def iovecs_put_done_def iovecs_put_shared_def iovecs_try_put_slice_def
      iovecs_reserve_def Let_def)

lemma iovecs_reserve_room:
  "pool_ok bp \<Longrightarrow> iovecs_reserve bp n a = Some a' \<Longrightarrow>
     n \<le> unfilled_len (acc_owned a') \<and> iovecs_view a' = iovecs_view a"
  by (auto simp: iovecs_reserve_def owned_reserve_def pool_ok_def iovecs_view_def)

text \<open>Draining, by either path, drops a prefix of the bytes and of nothing else.\<close>

lemma drain_slow_drops:
  "n \<le> length (concat cs) \<Longrightarrow> [] \<notin> set cs \<Longrightarrow>
     \<exists>cs'. drain_slow n cs (length (concat cs)) = Some (cs', length (concat cs')) \<and>
       concat cs' = drop n (concat cs) \<and> [] \<notin> set cs'"
proof (induction cs arbitrary: n)
  case (Cons c cs)
  show ?case
  proof (cases "length c \<le> n")
    case True
    with Cons.prems Cons.IH [of "n - length c"] show ?thesis by simp
  qed (use Cons.prems in auto)
qed simp

lemma iovecs_drain_drops:
  assumes "iovecs_inv a" and "n \<le> total_size a" and "filled (acc_owned a) = []"
  shows "\<exists>a'. iovecs_drain n a = Some a' \<and> iovecs_inv a' \<and> acc_owned a' = acc_owned a \<and>
    iovecs_view a' = drop n (iovecs_view a)"
proof (cases "total_size a = n")
  case True
  with assms show ?thesis by (auto simp: iovecs_drain_def iovecs_inv_def iovecs_view_def)
next
  case False
  with assms drain_slow_drops [of n "chunks a"] show ?thesis
    by (auto simp: iovecs_drain_def iovecs_inv_def iovecs_view_def)
qed

section \<open>EitherAccumulator\<close>

datatype either_accumulator = Iovecs iovecs_accumulator | Single bytes

primrec either_can_accept_more :: "either_accumulator \<Rightarrow> bool" where
  "either_can_accept_more (Iovecs a) = iovecs_can_accept_more a"
| "either_can_accept_more (Single a) = True"

primrec either_reserve :: "pool \<Rightarrow> nat \<Rightarrow> either_accumulator \<Rightarrow> either_accumulator option" where
  "either_reserve bp n (Iovecs a) = map_option Iovecs (iovecs_reserve bp n a)"
| "either_reserve bp n (Single a) = Some (Single a)"

primrec either_try_put_slice :: "pool \<Rightarrow> bytes \<Rightarrow> either_accumulator \<Rightarrow> bool \<times> either_accumulator" where
  "either_try_put_slice bp src (Iovecs a) = apsnd Iovecs (iovecs_try_put_slice bp src a)"
| "either_try_put_slice bp src (Single a) = apsnd Single (single_try_put_slice src a)"

primrec either_put_shared :: "bytes \<Rightarrow> either_accumulator \<Rightarrow> either_accumulator" where
  "either_put_shared src (Iovecs a) = Iovecs (iovecs_put_shared src a)"
| "either_put_shared src (Single a) = Single (single_put_shared src a)"

primrec either_put_done :: "either_accumulator \<Rightarrow> either_accumulator" where
  "either_put_done (Iovecs a) = Iovecs (iovecs_put_done a)"
| "either_put_done (Single a) = Single (single_put_done a)"

primrec either_to_iovecs :: "nat \<Rightarrow> either_accumulator \<Rightarrow> bytes list option" where
  "either_to_iovecs k (Iovecs a) = iovecs_to_iovecs k a"
| "either_to_iovecs k (Single a) = Some (take k (single_to_iovecs a))"

primrec either_drain :: "nat \<Rightarrow> either_accumulator \<Rightarrow> either_accumulator option" where
  "either_drain n (Iovecs a) = map_option Iovecs (iovecs_drain n a)"
| "either_drain n (Single a) = map_option Single (single_drain n a)"

primrec either_view :: "either_accumulator \<Rightarrow> bytes" where
  "either_view (Iovecs a) = iovecs_view a"
| "either_view (Single a) = a"

primrec either_inv :: "either_accumulator \<Rightarrow> bool" where
  "either_inv (Iovecs a) = iovecs_inv a"
| "either_inv (Single a) = True"

primrec either_fits :: "nat \<Rightarrow> either_accumulator \<Rightarrow> bool" where
  "either_fits n (Iovecs a) = (n \<le> unfilled_len (acc_owned a))"
| "either_fits n (Single a) = True"

text \<open>No byte waits for \<open>put_done\<close>.\<close>

primrec either_committed :: "either_accumulator \<Rightarrow> bool" where
  "either_committed (Iovecs a) = (filled (acc_owned a) = [])"
| "either_committed (Single a) = True"

lemma either_accumulator_laws:
  assumes "pool_ok bp"
  shows "bytes_accumulator (either_try_put_slice bp) either_put_shared either_put_done
    either_view (\<lambda>b v. v @ b) (\<lambda>b v. v @ b) either_fits"
proof -
  note iov = iovecs_accumulator_laws [OF assms]
  show ?thesis
  proof unfold_locales
    fix b :: bytes and n :: nat and a :: either_accumulator
    assume "either_fits (length b + n) a"
    then show "\<exists>a'. either_try_put_slice bp b a = (True, a') \<and> either_fits n a' \<and>
        either_view a' = either_view a @ b"
      using bytes_accumulator.fits_slice [OF iov, of b n]
      by (cases a) (fastforce simp: single_try_put_slice_def)+
  next
    fix n :: nat and b :: bytes and a :: either_accumulator
    show "either_fits n a \<Longrightarrow> either_fits n (either_put_shared b a)"
      by (cases a) (auto intro: bytes_accumulator.fits_shared [OF iov])
    show "either_view (either_put_shared b a) = either_view a @ b"
      by (cases a) (auto simp: bytes_accumulator.view_shared [OF iov] single_put_shared_def)
    show "either_fits n a \<Longrightarrow> either_fits n (either_put_done a)"
      by (cases a) (auto intro: bytes_accumulator.fits_done [OF iov])
    show "either_view (either_put_done a) = either_view a"
      by (cases a) (auto simp: bytes_accumulator.view_done [OF iov] single_put_done_def)
  qed
qed

lemma fold_append:
  "fold (put_effect (\<lambda>b v. v @ b) (\<lambda>b v. v @ b)) ps v = v @ concat (map put_bytes ps)"
proof (induction ps arbitrary: v)
  case (Cons p ps) then show ?case by (cases p) auto
qed simp

abbreviation run_either :: "pool \<Rightarrow> enc \<Rightarrow> either_accumulator \<Rightarrow> either_accumulator \<times> encode_error option" where
  "run_either bp \<equiv> run_enc (either_try_put_slice bp) either_put_shared either_put_done"

text \<open>With room for the slices, an encoding that has no error is appended as it is.\<close>

lemma run_either_fits:
  assumes "pool_ok bp" and "either_fits (slice_bytes e) a"
  shows "\<exists>a'. run_either bp e a = (a', snd e) \<and> either_view a' = either_view a @ enc_bytes e"
  using bytes_accumulator.run_enc_fits [OF either_accumulator_laws [OF assms(1)], of e 0 a] assms(2)
  by (auto simp: fold_append enc_bytes_def)

lemma either_inv_ops:
  assumes "either_inv a"
  shows "either_inv (either_put_done a)" "either_inv (either_put_shared b a)"
    "either_inv (snd (either_try_put_slice bp b a))"
    "either_reserve bp n a = Some a' \<Longrightarrow> either_inv a'"
  using assms by (cases a; auto)+

lemma run_puts_inv:
  assumes "\<And>b a. I a \<Longrightarrow> I (snd (tp b a))" "\<And>b a. I a \<Longrightarrow> I (sh b a)" "\<And>a. I a \<Longrightarrow> I (dn a)" "I a"
  shows "I (fst (run_puts tp sh dn ps a))"
  using assms by (induction tp sh dn ps a rule: run_puts.induct) (auto split: prod.splits bool.splits, (metis snd_conv)+)

lemma run_either_inv: "either_inv a \<Longrightarrow> either_inv (fst (run_either bp e a))"
  using run_puts_inv [of either_inv "either_try_put_slice bp" either_put_shared either_put_done a "fst e"]
  by (auto simp: run_enc_def either_inv_ops split: prod.splits option.splits)

lemma either_reserve_room:
  "pool_ok bp \<Longrightarrow> either_reserve bp n a = Some a' \<Longrightarrow> either_fits n a' \<and> either_view a' = either_view a"
  using iovecs_reserve_room by (cases a) auto

end
