(* ===== verification/Mqtt_Strings.thy ===== *)
theory Mqtt_Strings
  imports Accumulators
begin

text \<open>
  Binary data, strings and topic names: src/src/mqtt_proto/binary_data.rs, byte_str.rs, topic.rs
  and the public wrapper src/src/topic.rs. A Rust \<open>str\<close> is its UTF-8 bytes. Decoding UTF-8 and the
  general category of a code point are functions of other crates; they come in as a parameter.
\<close>

section \<open>Binary data\<close>

text \<open>
  Copying into a buffer of the pool. The error is the one of the pool; the panics are the
  assertion, the conversion of the length, and the slice of the unfilled region.
\<close>

definition binary_new :: "pool \<Rightarrow> owned \<Rightarrow> bytes \<Rightarrow> (unit + binary_data \<times> owned) poll" where
  "binary_new bp ow s =
     (if filled ow \<noteq> [] then Panic ''assertion failed''
      else case owned_reserve bp (length s + 2) ow of
        None \<Rightarrow> Ready (Inl ())
      | Some ow \<Rightarrow>
          if length s > 65535 then Panic ''len is too big for u16''
          else let ow = owned_unfilled_mut bp ow
               in if unfilled_len ow < 2 then Panic ''range end index''
                  else let ow = owned_unfilled_mut bp (owned_fill (be16 (of_nat (length s))) ow)
                       in if unfilled_len ow < length s then Panic ''range end index''
                          else let ow = owned_fill s ow
                               in Ready (Inr (BinaryData (filled ow), ow\<lparr>filled := []\<rparr>)))"

definition binary_as_bytes :: "binary_data \<Rightarrow> bytes" where
  "binary_as_bytes b = drop 2 (bd_shared b)"

definition binary_len :: "binary_data \<Rightarrow> nat" where
  "binary_len b = length (bd_shared b) - 2"

definition binary_is_empty :: "binary_data \<Rightarrow> bool" where
  "binary_is_empty b \<longleftrightarrow> bd_shared b = [0, 0]"

fun binary_decode :: "bytes \<Rightarrow> (binary_data \<times> bytes) option" where
  "binary_decode (a # b # r) =
     (let len = unat (u16_from_be a b)
      in if length (a # b # r) < 2 + len then None
         else Some (BinaryData (take (2 + len) (a # b # r)), drop (2 + len) (a # b # r)))"
| "binary_decode _ = None"

definition binary_from_shared :: "bytes \<Rightarrow> decode_error + binary_data" where
  "binary_from_shared src =
     (case binary_decode src of
        Some (b, src') \<Rightarrow> if src' = [] then Inr b else Inl TrailingGarbage
      | None \<Rightarrow> Inl IncompletePacket)"

definition binary_encode :: "binary_data \<Rightarrow> enc" where
  "binary_encode b = put_shared (bd_shared b)"

text \<open>The panic is the one of converting the length to sixteen bits.\<close>

definition binary_from :: "bytes \<Rightarrow> binary_data poll" where
  "binary_from s =
     (if length s > 65535 then Panic ''called Result::unwrap() on an Err value''
      else Ready (BinaryData (be16 (of_nat (length s)) @ s)))"

text \<open>Buffers that really start with their length.\<close>

fun binary_ok :: "binary_data \<Rightarrow> bool" where
  "binary_ok (BinaryData (a # b # r)) = (length r = unat (u16_from_be a b))"
| "binary_ok _ = False"

lemma be16_u16: "u16_from_be (ucast (drop_bit 8 w)) (ucast w :: u8) = w"
  by (rule u16_from_be16)

lemma binary_ok_prefixed [simp]: "length s \<le> 65535 \<Longrightarrow> binary_ok (BinaryData (be16 (of_nat (length s)) @ s))"
  by (simp add: be16_def u16_from_be16 unat_of_nat)

lemma binary_as_bytes_prefixed [simp]: "binary_as_bytes (BinaryData (be16 w @ s)) = s"
  by (simp add: binary_as_bytes_def be16_def)

lemma binary_okE:
  assumes "binary_ok d"
  obtains a b r where "d = BinaryData (a # b # r)" and "length r = unat (u16_from_be a b)"
  using assms by (cases d rule: binary_ok.cases) auto

lemma binary_decode_shared [roundtrip]: "binary_ok d \<Longrightarrow> binary_decode (bd_shared d @ r) = Some (d, r)"
  by (erule binary_okE) simp

lemma binary_decode_ok:
  assumes "binary_decode src = Some (d, r)"
  shows "binary_ok d \<and> src = bd_shared d @ r \<and> length r < length src"
proof -
  obtain a b s where src: "src = a # b # s" using assms by (cases src rule: binary_decode.cases) auto
  with assms show ?thesis by (auto simp: Let_def split: if_splits)
qed

lemma binary_encode_simps [simp]:
  "snd (binary_encode d) = None" "enc_bytes (binary_encode d) = bd_shared d"
  by (simp_all add: binary_encode_def)

lemma binary_new_prefixed:
  assumes "pool_ok bp" and "filled ow = []" and "length s \<le> 65535"
    and "pool_reserve bp (unfilled_len ow) (length s + 2) = Some u"
  shows "\<exists>ow'. binary_new bp ow s = Ready (Inr (BinaryData (be16 (of_nat (length s)) @ s), ow')) \<and> filled ow' = []"
proof -
  let ?l = "be16 (of_nat (length s))"
  let ?o = "ow\<lparr>unfilled_len := u\<rparr>"
  have u: "length s + 2 \<le> u" using assms(1,4) by (auto simp: pool_ok_def)
  then have 1: "length ?l \<le> unfilled_len (owned_unfilled_mut bp ?o)"
      "length s \<le> unfilled_len (owned_fill ?l (owned_unfilled_mut bp ?o))"
    using owned_put_fits [OF assms(1), of ?l "length s" ?o] by simp_all
  from owned_put_fits(1) [OF assms(1), of s 0 "owned_fill ?l (owned_unfilled_mut bp ?o)"] 1(2)
  have "length s \<le> unfilled_len (owned_unfilled_mut bp (owned_fill ?l (owned_unfilled_mut bp ?o)))"
    by simp
  with 1(1) assms(2,3,4) show ?thesis
    by (simp add: binary_new_def owned_reserve_def Let_def not_less)
qed

section \<open>Strings\<close>

datatype general_category = Control | Unassigned | OtherCategory

text \<open>
  \<open>decode_utf8\<close> gives the first code point, if the bytes start with a valid one, and how many bytes
  it looked at; \<open>general_category\<close> classifies a code point.
\<close>

record unicode =
  decode_utf8 :: "bytes \<Rightarrow> nat option \<times> nat"
  general_category :: "nat \<Rightarrow> general_category"

text \<open>A decoded code point has at least one byte, and its bytes are there.\<close>

definition utf8_ok :: "unicode \<Rightarrow> bool" where
  "utf8_ok uc \<longleftrightarrow>
     (\<forall>b c n. b \<noteq> [] \<and> decode_utf8 uc b = (Some c, n) \<longrightarrow> 0 < n \<and> n \<le> length b)"

text \<open>
  \<open>NoProgress\<close> stands for not returning or for the panic of slicing past the end, should the
  decoder consume nothing or too much; \<open>utf8_ok\<close> excludes both.
\<close>

function validate_mqtt_string :: "unicode \<Rightarrow> bytes \<Rightarrow> decode_error + unit" where
  "validate_mqtt_string uc b =
     (if b = [] then Inr ()
      else case decode_utf8 uc b of
        (Some c, c_len) \<Rightarrow>
          if c = 0 then Inl (InvalidByteStr ''contains U+0000'')
          else if general_category uc c = Control then Inl (InvalidByteStr ''contains control codepoint'')
          else if general_category uc c = Unassigned then
            Inl (InvalidByteStr ''contains non-character codepoint'')
          else if c_len = 0 \<or> length b < c_len then Inl NoProgress
          else validate_mqtt_string uc (drop c_len b)
      | (None, _) \<Rightarrow> Inl (InvalidByteStr ''invalid UTF-8''))"
  by pat_completeness auto
termination
  by (relation "measure (\<lambda>(uc, b). length b)") auto

declare validate_mqtt_string.simps [simp del]

lemma validate_returns: "utf8_ok uc \<Longrightarrow> validate_mqtt_string uc b \<noteq> Inl NoProgress"
proof (induction uc b rule: validate_mqtt_string.induct)
  case (1 uc b)
  obtain o1 n where d: "decode_utf8 uc b = (o1, n)" by (cases "decode_utf8 uc b")
  show ?case
  proof (cases "b = []")
    case True
    then show ?thesis by (simp add: validate_mqtt_string.simps)
  next
    case False
    with "1.prems" have "o1 = Some c \<Longrightarrow> 0 < n \<and> n \<le> length b" for c
      using d by (simp add: utf8_ok_def)
    with "1.IH" [OF False d [symmetric]] "1.prems" False d show ?thesis
      by (cases o1) (simp_all add: validate_mqtt_string.simps [of uc b])
  qed
qed

definition str_as_ref :: "byte_str \<Rightarrow> bytes" where
  "str_as_ref s = binary_as_bytes (bs_binary s)"

definition str_decode :: "unicode \<Rightarrow> bytes \<Rightarrow> decode_error + (byte_str \<times> bytes) option" where
  "str_decode uc src =
     (case binary_decode src of
        None \<Rightarrow> Inr None
      | Some (b, src') \<Rightarrow>
          and_then (validate_mqtt_string uc (binary_as_bytes b)) (\<lambda>_. Inr (Some (ByteStr b, src'))))"

definition str_from_utf8_shared :: "unicode \<Rightarrow> bytes \<Rightarrow> decode_error + byte_str" where
  "str_from_utf8_shared uc src =
     (case str_decode uc src of
        Inr (Some (s, src')) \<Rightarrow> if src' = [] then Inr s else Inl TrailingGarbage
      | Inr None \<Rightarrow> Inl IncompletePacket
      | Inl err \<Rightarrow> Inl err)"

definition str_encode :: "byte_str \<Rightarrow> enc" where
  "str_encode s = binary_encode (bs_binary s)"

definition str_from :: "bytes \<Rightarrow> byte_str poll" where
  "str_from s =
     (case binary_from s of Ready b \<Rightarrow> Ready (ByteStr b) | Panic m \<Rightarrow> Panic m | Pending \<Rightarrow> Pending | Diverges \<Rightarrow> Diverges)"

definition str_ok :: "unicode \<Rightarrow> byte_str \<Rightarrow> bool" where
  "str_ok uc s \<longleftrightarrow> binary_ok (bs_binary s) \<and> validate_mqtt_string uc (str_as_ref s) = Inr ()"

text \<open>The bytes of a string on the wire.\<close>

abbreviation str_wire :: "byte_str \<Rightarrow> bytes" where
  "str_wire s \<equiv> bd_shared (bs_binary s)"

lemma str_encode_simps [simp]: "snd (str_encode s) = None" "enc_bytes (str_encode s) = str_wire s"
  by (simp_all add: str_encode_def)

lemma str_decode_wire [roundtrip]: "str_ok uc s \<Longrightarrow> str_decode uc (str_wire s @ r) = Inr (Some (s, r))"
  by (cases s) (simp add: str_ok_def str_decode_def binary_decode_shared str_as_ref_def)

lemma str_decode_ok:
  assumes "str_decode uc src = Inr (Some (s, r))"
  shows "str_ok uc s \<and> src = str_wire s @ r \<and> length r < length src"
  using assms binary_decode_ok
  by (auto simp: str_decode_def and_then_eq_Inr str_ok_def str_as_ref_def split: option.splits)

section \<open>Topic names\<close>

definition DOLLAR_SIGN :: u8 where "DOLLAR_SIGN = 0x24"
definition SEPARATOR :: u8 where "SEPARATOR = 0x2F"
definition SINGLE_LEVEL_MATCH :: u8 where "SINGLE_LEVEL_MATCH = 0x2B"
definition MULTI_LEVEL_MATCH :: u8 where "MULTI_LEVEL_MATCH = 0x23"
definition SHARED_SUBSCRIPTION_PREFIX :: bytes where
  "SHARED_SUBSCRIPTION_PREFIX = [0x24, 0x73, 0x68, 0x61, 0x72, 0x65, 0x2F]"

lemmas wildcard_defs = DOLLAR_SIGN_def SEPARATOR_def SINGLE_LEVEL_MATCH_def MULTI_LEVEL_MATCH_def
  SHARED_SUBSCRIPTION_PREFIX_def

definition contains_wildcard :: "bytes \<Rightarrow> bool" where
  "contains_wildcard s \<longleftrightarrow> MULTI_LEVEL_MATCH \<in> set s \<or> SINGLE_LEVEL_MATCH \<in> set s"

text \<open>The argument \<open>as_ref\<close> is the string a backing value stands for.\<close>

definition topic_new :: "unicode \<Rightarrow> ('s \<Rightarrow> bytes) \<Rightarrow> 's \<Rightarrow> decode_error + 's topic" where
  "topic_new uc as_ref inner =
     (let s = as_ref inner
      in if s = [] then Inl EmptyTopic
         else if length s > 65535 then Inl (InvalidByteStr ''longer than 65,535 bytes'')
         else and_then (validate_mqtt_string uc s) (\<lambda>_.
           if contains_wildcard s then Inl (InvalidTopic s) else Inr (Topic inner)))"

definition topic_decode :: "unicode \<Rightarrow> bytes \<Rightarrow> decode_error + (byte_str topic \<times> bytes) option" where
  "topic_decode uc src =
     and_then (str_decode uc src) (\<lambda>v.
       case v of
         None \<Rightarrow> Inr None
       | Some (s, src') \<Rightarrow> and_then (topic_new uc str_as_ref s) (\<lambda>t. Inr (Some (t, src'))))"

definition topic_encode :: "byte_str topic \<Rightarrow> enc" where
  "topic_encode t = str_encode (topic_inner t)"

text \<open>For a topic backed by a \<open>String\<close>; the panic is the conversion of the length.\<close>

definition topic_string_encode :: "bytes topic \<Rightarrow> enc poll" where
  "topic_string_encode t =
     (if length (topic_inner t) > 65535 then Panic ''topic too long''
      else Ready (enc_then (put_u16_be (of_nat (length (topic_inner t)))) (put_slice (topic_inner t))))"

definition topic_combine :: "unicode \<Rightarrow> bytes \<Rightarrow> bytes topic \<Rightarrow> decode_error + bytes topic" where
  "topic_combine uc first second =
     (if contains_wildcard first then Inl (InvalidTopic first)
      else topic_new uc id (first @ topic_inner second))"

definition topic_ok :: "unicode \<Rightarrow> byte_str topic \<Rightarrow> bool" where
  "topic_ok uc t \<longleftrightarrow> str_ok uc (topic_inner t) \<and> topic_new uc str_as_ref (topic_inner t) = Inr t"

lemma topic_encode_simps [simp]:
  "snd (topic_encode t) = None" "enc_bytes (topic_encode t) = str_wire (topic_inner t)"
  by (simp_all add: topic_encode_def)

lemma topic_decode_wire [roundtrip]:
  "topic_ok uc t \<Longrightarrow> topic_decode uc (str_wire (topic_inner t) @ r) = Inr (Some (t, r))"
  by (simp add: topic_ok_def topic_decode_def str_decode_wire)

lemma topic_new_inner: "topic_new uc as_ref s = Inr t \<Longrightarrow> t = Topic s"
  by (auto simp: topic_new_def Let_def and_then_eq_Inr split: if_splits)

lemma topic_decode_ok:
  assumes "topic_decode uc src = Inr (Some (t, r))"
  shows "topic_ok uc t \<and> src = str_wire (topic_inner t) @ r \<and> length r < length src"
proof -
  obtain s where s: "str_decode uc src = Inr (Some (s, r))" "topic_new uc str_as_ref s = Inr t"
    using assms by (auto simp: topic_decode_def and_then_eq_Inr split: option.splits)
  with topic_new_inner [OF s(2)] str_decode_ok [OF s(1)] show ?thesis by (auto simp: topic_ok_def)
qed

text \<open>
  When a topic name is valid: a string of the protocol that is not empty, fits its length prefix
  and has no wildcard.
\<close>

lemma topic_new_iff:
  "(\<exists>t. topic_new uc as_ref inner = Inr t) \<longleftrightarrow>
     as_ref inner \<noteq> [] \<and> length (as_ref inner) \<le> 65535 \<and>
     validate_mqtt_string uc (as_ref inner) = Inr () \<and> \<not> contains_wildcard (as_ref inner)"
  by (auto simp: topic_new_def Let_def and_then_eq_Inr)

lemma topic_string_encode_bytes:
  assumes "topic_new uc id s = Inr t"
  shows "\<exists>e. topic_string_encode t = Ready e \<and> snd e = None \<and> enc_bytes e = be16 (of_nat (length s)) @ s"
  using assms topic_new_inner [OF assms] topic_new_iff [of uc id s]
  by (auto simp: topic_string_encode_def)

end
