(* ===== verification/Topic_Filter.thy ===== *)
theory Topic_Filter
  imports Mqtt_Strings
begin

text \<open>
  Topic filters (src/src/mqtt_proto/filter.rs, src/src/topic.rs): validation, classification and
  matching. The sources walk over characters; since the characters they look for are ASCII, and no
  byte of a longer UTF-8 sequence is ASCII, walking over bytes is the same.
\<close>

section \<open>Validation\<close>

datatype (plugins only: code size) parse_state = PsSeparator | PsLiteral | PsSingle | PsMultiple

text \<open>One step of the transition table; \<open>None\<close> is \<open>InvalidFilter\<close>.\<close>

definition parse_step :: "parse_state \<Rightarrow> u8 \<Rightarrow> parse_state option" where
  "parse_step state c =
     (if state = PsMultiple then None
      else if c = SEPARATOR then Some PsSeparator
      else if state = PsSeparator then
        (if c = SINGLE_LEVEL_MATCH then Some PsSingle
         else if c = MULTI_LEVEL_MATCH then Some PsMultiple
         else Some PsLiteral)
      else if state = PsLiteral then
        (if c = SINGLE_LEVEL_MATCH \<or> c = MULTI_LEVEL_MATCH then None else Some PsLiteral)
      else None)"

fun parse_filter :: "parse_state \<Rightarrow> bytes \<Rightarrow> bool" where
  "parse_filter state [] = True"
| "parse_filter state (c # cs) =
     (case parse_step state c of None \<Rightarrow> False | Some state' \<Rightarrow> parse_filter state' cs)"

text \<open>The end of the group name; a wildcard in it is \<open>InvalidFilter\<close>.\<close>

fun group_end :: "bytes \<Rightarrow> nat \<Rightarrow> bytes \<Rightarrow> decode_error + nat option" where
  "group_end inner i [] = Inr None"
| "group_end inner i (c # cs) =
     (if c = SINGLE_LEVEL_MATCH \<or> c = MULTI_LEVEL_MATCH then Inl (InvalidFilter inner)
      else if c = SEPARATOR then Inr (Some i)
      else group_end inner (i + 1) cs)"

definition strip_prefix :: "bytes \<Rightarrow> bytes \<Rightarrow> bytes option" where
  "strip_prefix p s = (if take (length p) s = p then Some (drop (length p) s) else None)"

definition filter_classify :: "bytes \<Rightarrow> decode_error + filter_kind \<times> bytes" where
  "filter_classify inner =
     (if hd inner = DOLLAR_SIGN then
        (case strip_prefix SHARED_SUBSCRIPTION_PREFIX inner of
           Some rest \<Rightarrow>
             and_then (group_end inner 0 rest) (\<lambda>e.
               case e of
                 None \<Rightarrow> Inl (InvalidFilter inner)
               | Some i \<Rightarrow>
                   if i = 0 then Inl (InvalidFilter inner)
                   else let index = length SHARED_SUBSCRIPTION_PREFIX + i;
                            f = drop (index + 1) inner
                        in if f = [] then Inl EmptyFilter
                           else Inr (Shared index, f))
         | None \<Rightarrow> Inr (Dollar, inner))
      else Inr (Regular, inner))"

definition filter_new :: "unicode \<Rightarrow> ('s \<Rightarrow> bytes) \<Rightarrow> 's \<Rightarrow> decode_error + 's filter" where
  "filter_new uc as_ref inner =
     (let s = as_ref inner
      in if s = [] then Inl EmptyFilter
         else if length s > 65535 then Inl (InvalidByteStr ''longer than 65,535 bytes'')
         else and_then (validate_mqtt_string uc s) (\<lambda>_.
           and_then (filter_classify s) (\<lambda>(kind, f).
             if f = [] then Inl EmptyFilter
             else if parse_filter PsSeparator f
             then Inr \<lparr>filter_inner = inner, filter_kind = kind\<rparr>
             else Inl (InvalidFilter f))))"

definition filter_decode :: "unicode \<Rightarrow> bytes \<Rightarrow> decode_error + (byte_str filter \<times> bytes) option" where
  "filter_decode uc src =
     and_then (str_decode uc src) (\<lambda>v.
       case v of
         None \<Rightarrow> Inr None
       | Some (s, src') \<Rightarrow> and_then (filter_new uc str_as_ref s) (\<lambda>f. Inr (Some (f, src'))))"

definition filter_encode :: "byte_str filter \<Rightarrow> enc" where
  "filter_encode f = str_encode (filter_inner f)"

definition filter_string_encode :: "bytes filter \<Rightarrow> enc poll" where
  "filter_string_encode f =
     (if length (filter_inner f) > 65535 then Panic ''filter too long''
      else Ready (enc_then (put_u16_be (of_nat (length (filter_inner f)))) (put_slice (filter_inner f))))"

definition filter_is_wildcard :: "('s \<Rightarrow> bytes) \<Rightarrow> 's filter \<Rightarrow> bool" where
  "filter_is_wildcard as_ref f = contains_wildcard (as_ref (filter_inner f))"

definition filter_is_shared :: "'s filter \<Rightarrow> bool" where
  "filter_is_shared f \<longleftrightarrow> (case filter_kind f of Shared _ \<Rightarrow> True | _ \<Rightarrow> False)"

datatype classified_filter =
    ClassifiedRegular bytes
  | ClassifiedDollar bytes
  | ClassifiedShared (group_name: bytes) (shared_filter: "bytes filter")

definition classify :: "('s \<Rightarrow> bytes) \<Rightarrow> 's filter \<Rightarrow> classified_filter" where
  "classify as_ref f =
     (let s = as_ref (filter_inner f)
      in case filter_kind f of
           Regular \<Rightarrow> ClassifiedRegular s
         | Dollar \<Rightarrow> ClassifiedDollar s
         | Shared i \<Rightarrow>
             ClassifiedShared
               (drop (length SHARED_SUBSCRIPTION_PREFIX) (take i s))
               \<lparr>filter_inner = drop (i + 1) s, filter_kind = Regular\<rparr>)"

section \<open>Matching\<close>

text \<open>The iterator over the levels, as \<open>str::split\<close> gives it.\<close>

fun split_levels :: "bytes \<Rightarrow> bytes list" where
  "split_levels [] = [[]]"
| "split_levels (c # cs) =
     (if c = SEPARATOR then [] # split_levels cs
      else (c # hd (split_levels cs)) # tl (split_levels cs))"

fun match_levels :: "bytes list \<Rightarrow> bytes list \<Rightarrow> bool" where
  "match_levels (f # fs) (t # ts) =
     (if \<not> (t \<noteq> [] \<and> hd t = DOLLAR_SIGN) \<and> f = [MULTI_LEVEL_MATCH] then True
      else if \<not> (t \<noteq> [] \<and> hd t = DOLLAR_SIGN) \<and> f = [SINGLE_LEVEL_MATCH] then match_levels fs ts
      else if f \<noteq> t then False
      else match_levels fs ts)"
| "match_levels [] [] = True"
| "match_levels _ _ = False"

definition matches_topic :: "('s \<Rightarrow> bytes) \<Rightarrow> 's filter \<Rightarrow> 's topic \<Rightarrow> bool" where
  "matches_topic as_ref f t =
     (case classify as_ref f of
        ClassifiedDollar _ \<Rightarrow>
          match_levels (split_levels (as_ref (filter_inner f))) (split_levels (as_ref (topic_inner t)))
      | ClassifiedRegular _ \<Rightarrow>
          match_levels (split_levels (as_ref (filter_inner f))) (split_levels (as_ref (topic_inner t)))
      | ClassifiedShared _ g \<Rightarrow>
          match_levels (split_levels (filter_inner g)) (split_levels (as_ref (topic_inner t))))"

text \<open>The wrappers of src/src/topic.rs.\<close>

definition topic_name_new :: "unicode \<Rightarrow> bytes \<Rightarrow> decode_error + bytes topic" where
  "topic_name_new uc s = topic_new uc id s"

definition topic_filter_new :: "unicode \<Rightarrow> bytes \<Rightarrow> decode_error + bytes filter" where
  "topic_filter_new uc s = filter_new uc id s"

definition matches_topic_filter :: "bytes topic \<Rightarrow> bytes filter \<Rightarrow> bool" where
  "matches_topic_filter name f = matches_topic id f name"

definition matches_topic_name :: "bytes filter \<Rightarrow> bytes topic \<Rightarrow> bool" where
  "matches_topic_name f name = matches_topic id f name"

section \<open>Reference definitions\<close>

text \<open>
  The rules of section 4.7 of the MQTT specification on the levels of a filter: a level is free of
  wildcards, or it is \<open>+\<close>, or it is \<open>#\<close> and the last one.
\<close>

abbreviation plain_level :: "bytes \<Rightarrow> bool" where
  "plain_level l \<equiv> \<not> contains_wildcard l"

fun valid_levels :: "bytes list \<Rightarrow> bool" where
  "valid_levels [] = True"
| "valid_levels [l] = (plain_level l \<or> l = [SINGLE_LEVEL_MATCH] \<or> l = [MULTI_LEVEL_MATCH])"
| "valid_levels (l # ls) = ((plain_level l \<or> l = [SINGLE_LEVEL_MATCH]) \<and> valid_levels ls)"

text \<open>
  Matching by position: the filter has as many levels as the topic, or ends in \<open>#\<close> at a position the
  topic has; a wildcard stands for any level that does not start with a dollar sign.
\<close>

definition level_matches :: "bytes \<Rightarrow> bytes \<Rightarrow> bool" where
  "level_matches f t \<longleftrightarrow>
     f = t \<or> (f = [SINGLE_LEVEL_MATCH] \<and> \<not> (t \<noteq> [] \<and> hd t = DOLLAR_SIGN))"

definition positional_match :: "bytes list \<Rightarrow> bytes list \<Rightarrow> bool" where
  "positional_match fs ts \<longleftrightarrow>
     (let n = length fs in
       (length ts = n \<and> (\<forall>i<n. level_matches (fs ! i) (ts ! i))) \<or>
       (0 < n \<and> last fs = [MULTI_LEVEL_MATCH] \<and> n \<le> length ts \<and>
          (\<forall>i<n - 1. level_matches (fs ! i) (ts ! i)) \<and>
          \<not> (ts ! (n - 1) \<noteq> [] \<and> hd (ts ! (n - 1)) = DOLLAR_SIGN)))"

section \<open>The parser accepts exactly the valid filters\<close>

lemma split_levels_ne [simp]: "split_levels s \<noteq> []"
  by (cases s) auto

lemma wildcard_neq [simp]:
  "SINGLE_LEVEL_MATCH \<noteq> MULTI_LEVEL_MATCH" "MULTI_LEVEL_MATCH \<noteq> SINGLE_LEVEL_MATCH"
  "SINGLE_LEVEL_MATCH \<noteq> SEPARATOR" "MULTI_LEVEL_MATCH \<noteq> SEPARATOR"
  "SEPARATOR \<noteq> SINGLE_LEVEL_MATCH" "SEPARATOR \<noteq> MULTI_LEVEL_MATCH"
  "DOLLAR_SIGN \<noteq> SINGLE_LEVEL_MATCH" "DOLLAR_SIGN \<noteq> MULTI_LEVEL_MATCH" "DOLLAR_SIGN \<noteq> SEPARATOR"
  by (simp_all add: wildcard_defs)

lemma valid_levels_Cons:
  "ls \<noteq> [] \<Longrightarrow> valid_levels (l # ls) \<longleftrightarrow> (plain_level l \<or> l = [SINGLE_LEVEL_MATCH]) \<and> valid_levels ls"
  by (cases ls) auto

lemma valid_levels_iff:
  "valid_levels (l # ls) \<longleftrightarrow>
     (if ls = [] then plain_level l \<or> l = [SINGLE_LEVEL_MATCH] \<or> l = [MULTI_LEVEL_MATCH]
      else (plain_level l \<or> l = [SINGLE_LEVEL_MATCH]) \<and> valid_levels ls)"
  by (cases ls) auto

text \<open>What each state of the parser has read of the current level.\<close>

lemma parse_filter_levels:
  "parse_filter PsLiteral s \<longleftrightarrow>
     (plain_level (hd (split_levels s)) \<and> (tl (split_levels s) \<noteq> [] \<longrightarrow> valid_levels (tl (split_levels s))))"
  "parse_filter PsSingle s \<longleftrightarrow>
     (hd (split_levels s) = [] \<and> (tl (split_levels s) \<noteq> [] \<longrightarrow> valid_levels (tl (split_levels s))))"
  "parse_filter PsMultiple s \<longleftrightarrow> s = []"
  "parse_filter PsSeparator s \<longleftrightarrow> valid_levels (split_levels s)"
proof (induction s)
  case Nil
  {
    case 1 show ?case by (simp add: contains_wildcard_def)
  next
    case 2 show ?case by simp
  next
    case 3 show ?case by simp
  next
    case 4 show ?case by (simp add: contains_wildcard_def)
  }
next
  case (Cons c s)
  {
    case 1 show ?case
      using Cons by (auto simp: parse_step_def contains_wildcard_def)
  next
    case 2 show ?case
      using Cons by (auto simp: parse_step_def contains_wildcard_def)
  next
    case 3 show ?case by (simp add: parse_step_def)
  next
    case 4
    have hdtl: "split_levels s = hd (split_levels s) # tl (split_levels s)" by simp
    show ?case
    proof (cases "c = SEPARATOR")
      case True
      then show ?thesis using Cons(4) by (simp add: parse_step_def valid_levels_Cons contains_wildcard_def)
    next
      case False
      have empty: "s = [] \<longleftrightarrow> hd (split_levels s) = [] \<and> tl (split_levels s) = []"
        by (cases s) auto
      show ?thesis
        using False Cons(1,2,3) empty
        by (auto simp: parse_step_def valid_levels_iff contains_wildcard_def)
    qed
  }
qed

section \<open>Matching agrees with the reference\<close>

lemma positional_match_Nil [simp]: "positional_match [] ts \<longleftrightarrow> ts = []"
  by (auto simp: positional_match_def)

lemma positional_match_Nil2 [simp]: "positional_match (f # fs) [] \<longleftrightarrow> False"
  by (auto simp: positional_match_def)

lemma all_less_Suc_split: "(\<forall>i<Suc n. P i) \<longleftrightarrow> P 0 \<and> (\<forall>i<n. P (Suc i))"
  by (metis less_Suc_eq_0_disj zero_less_Suc)

lemma positional_match_Cons:
  assumes "fs \<noteq> [] \<Longrightarrow> f \<noteq> [MULTI_LEVEL_MATCH]"
  shows "positional_match (f # fs) (t # ts) \<longleftrightarrow>
    (if fs = [] then (ts = [] \<and> level_matches f t) \<or>
                     (f = [MULTI_LEVEL_MATCH] \<and> \<not> (t \<noteq> [] \<and> hd t = DOLLAR_SIGN))
     else level_matches f t \<and> positional_match fs ts)"
proof (cases fs)
  case Nil
  then show ?thesis by (auto simp: positional_match_def)
next
  case (Cons g gs)
  then show ?thesis
    by (auto simp: positional_match_def Let_def all_less_Suc_split)
qed

lemma multi_only_last:
  "valid_levels (f # fs) \<Longrightarrow> fs \<noteq> [] \<Longrightarrow> f \<noteq> [MULTI_LEVEL_MATCH]"
  by (auto simp: valid_levels_Cons contains_wildcard_def)

lemma match_levels_positional:
  assumes "valid_levels fs" and "list_all plain_level ts"
  shows "match_levels fs ts \<longleftrightarrow> positional_match fs ts"
  using assms
proof (induction fs ts rule: match_levels.induct)
  case (1 f fs t ts)
  have v: "fs \<noteq> [] \<Longrightarrow> valid_levels fs" using "1.prems"(1) by (auto simp: valid_levels_Cons)
  have ts: "list_all plain_level ts" "plain_level t" using "1.prems"(2) by auto
  have ftm: "f = t \<Longrightarrow> f \<noteq> [MULTI_LEVEL_MATCH]" "f = t \<Longrightarrow> f \<noteq> [SINGLE_LEVEL_MATCH]"
    using ts(2) by (auto simp: contains_wildcard_def)
  have rec: "match_levels fs ts = positional_match fs ts"
    if "level_matches f t" and "f \<noteq> [MULTI_LEVEL_MATCH]"
  proof (cases "fs = []")
    case True
    then show ?thesis by (cases ts) auto
  next
    case False
    from that "1.IH"(1) [OF _ _ v [OF False] ts(1)] "1.IH"(2) [OF _ _ _ v [OF False] ts(1)]
    show ?thesis by (auto simp: level_matches_def)
  qed
  have "fs \<noteq> [] \<Longrightarrow> f \<noteq> [MULTI_LEVEL_MATCH]" using multi_only_last [OF "1.prems"(1)] .
  then have pm: "positional_match (f # fs) (t # ts) \<longleftrightarrow>
      (if fs = [] then (ts = [] \<and> level_matches f t) \<or>
                       (f = [MULTI_LEVEL_MATCH] \<and> \<not> (t \<noteq> [] \<and> hd t = DOLLAR_SIGN))
       else level_matches f t \<and> positional_match fs ts)"
    by (rule positional_match_Cons)
  show ?case
  proof (cases "fs = []")
    case True
    then show ?thesis using pm ftm by (cases ts) (auto simp: level_matches_def)
  next
    case False
    then show ?thesis using pm rec multi_only_last [OF "1.prems"(1)] by (auto simp: level_matches_def)
  qed
qed auto

section \<open>Which filters are accepted\<close>

lemma group_end_Inr:
  "group_end inner i s = Inr (Some j) \<longleftrightarrow>
     (\<exists>g rest. s = g @ SEPARATOR # rest \<and> SEPARATOR \<notin> set g \<and> plain_level g \<and> j = i + length g)"
proof (induction inner i s rule: group_end.induct)
  case (2 inner i c cs)
  show ?case
  proof (cases "c = SINGLE_LEVEL_MATCH \<or> c = MULTI_LEVEL_MATCH \<or> c = SEPARATOR")
    case True
    then show ?thesis
      by (auto simp: Cons_eq_append_conv contains_wildcard_def)
  next
    case False
    with 2 have "group_end inner i (c # cs) = Inr (Some j) \<longleftrightarrow>
      (\<exists>g rest. cs = g @ SEPARATOR # rest \<and> SEPARATOR \<notin> set g \<and> plain_level g \<and> j = i + 1 + length g)"
      by auto
    also have "\<dots> \<longleftrightarrow>
      (\<exists>g rest. c # cs = g @ SEPARATOR # rest \<and> SEPARATOR \<notin> set g \<and> plain_level g \<and> j = i + length g)"
      (is "?l \<longleftrightarrow> ?r")
    proof
      assume ?l
      then obtain g rest where "cs = g @ SEPARATOR # rest" "SEPARATOR \<notin> set g" "plain_level g" "j = i + 1 + length g"
        by blast
      with False show ?r by (intro exI [of _ "c # g"] exI [of _ rest]) (auto simp: contains_wildcard_def)
    next
      assume ?r
      with False show ?l by (auto simp: Cons_eq_append_conv contains_wildcard_def)
    qed
    finally show ?thesis .
  qed
qed simp

lemma group_unique:
  "g @ SEPARATOR # r = g' @ SEPARATOR # r' \<Longrightarrow> SEPARATOR \<notin> set g \<Longrightarrow> SEPARATOR \<notin> set g' \<Longrightarrow> g = g' \<and> r = r'"
  by (induction g arbitrary: g') (auto simp: Cons_eq_append_conv)

text \<open>A shared subscription: prefix, group name, separator, and the filter proper.\<close>

definition shared_parts :: "bytes \<Rightarrow> bytes \<Rightarrow> bytes \<Rightarrow> bool" where
  "shared_parts s g rest \<longleftrightarrow>
     s = SHARED_SUBSCRIPTION_PREFIX @ g @ SEPARATOR # rest \<and> g \<noteq> [] \<and> SEPARATOR \<notin> set g \<and>
     plain_level g \<and> rest \<noteq> []"

abbreviation is_share :: "bytes \<Rightarrow> bool" where
  "is_share s \<equiv> strip_prefix SHARED_SUBSCRIPTION_PREFIX s \<noteq> None"

lemma share_hd: "strip_prefix SHARED_SUBSCRIPTION_PREFIX s = Some r \<Longrightarrow> s = SHARED_SUBSCRIPTION_PREFIX @ r"
  by (metis append_take_drop_id option.distinct(1) option.inject strip_prefix_def)

lemma strip_share [simp]:
  "strip_prefix SHARED_SUBSCRIPTION_PREFIX (SHARED_SUBSCRIPTION_PREFIX @ r) = Some r"
  by (simp add: strip_prefix_def)

lemma hd_share: "hd (SHARED_SUBSCRIPTION_PREFIX @ r) = DOLLAR_SIGN"
  by (simp add: wildcard_defs)

lemma filter_classify_share:
  assumes "is_share s"
  shows "filter_classify s = Inr (k, f) \<longleftrightarrow>
    (\<exists>g. shared_parts s g f \<and> k = Shared (length SHARED_SUBSCRIPTION_PREFIX + length g))"
proof -
  obtain r where r: "s = SHARED_SUBSCRIPTION_PREFIX @ r" using assms share_hd by blast
  have "filter_classify s = Inr (k, f) \<longleftrightarrow>
    (\<exists>i. group_end s 0 r = Inr (Some i) \<and> i \<noteq> 0 \<and> f = drop (i + 1) r \<and> f \<noteq> [] \<and>
       k = Shared (length SHARED_SUBSCRIPTION_PREFIX + i))"
    by (auto simp: r filter_classify_def hd_share and_then_eq_Inr Let_def
        split: option.splits if_splits)
  also have "\<dots> \<longleftrightarrow> (\<exists>g. shared_parts s g f \<and> k = Shared (length SHARED_SUBSCRIPTION_PREFIX + length g))"
    unfolding group_end_Inr by (fastforce simp: shared_parts_def r)
  finally show ?thesis .
qed

lemma filter_classify_plain:
  "\<not> is_share s \<Longrightarrow> filter_classify s = Inr (if hd s = DOLLAR_SIGN then Dollar else Regular, s)"
  by (simp add: filter_classify_def)

lemma filter_new_Inr:
  "filter_new uc as_ref inner = Inr f \<longleftrightarrow>
     as_ref inner \<noteq> [] \<and> length (as_ref inner) \<le> 65535 \<and> validate_mqtt_string uc (as_ref inner) = Inr () \<and>
     (\<exists>k g. filter_classify (as_ref inner) = Inr (k, g) \<and> g \<noteq> [] \<and> valid_levels (split_levels g) \<and>
        f = \<lparr>filter_inner = inner, filter_kind = k\<rparr>)"
  by (auto simp: filter_new_def Let_def and_then_eq_Inr parse_filter_levels(4) split: prod.splits if_splits)

lemma filter_new_inner: "filter_new uc as_ref s = Inr f \<Longrightarrow> filter_inner f = s"
  by (auto simp: filter_new_Inr)

definition filter_ok :: "unicode \<Rightarrow> byte_str filter \<Rightarrow> bool" where
  "filter_ok uc f \<longleftrightarrow> str_ok uc (filter_inner f) \<and> filter_new uc str_as_ref (filter_inner f) = Inr f"

lemma filter_encode_simps [simp]:
  "snd (filter_encode f) = None" "enc_bytes (filter_encode f) = str_wire (filter_inner f)"
  by (simp_all add: filter_encode_def)

lemma filter_decode_wire [roundtrip]:
  "filter_ok uc f \<Longrightarrow> filter_decode uc (str_wire (filter_inner f) @ r) = Inr (Some (f, r))"
  by (simp add: filter_ok_def filter_decode_def str_decode_wire)

lemma filter_decode_ok:
  assumes "filter_decode uc src = Inr (Some (f, r))"
  shows "filter_ok uc f \<and> src = str_wire (filter_inner f) @ r \<and> length r < length src"
proof -
  obtain s where s: "str_decode uc src = Inr (Some (s, r))" "filter_new uc str_as_ref s = Inr f"
    using assms by (auto simp: filter_decode_def and_then_eq_Inr split: option.splits)
  with filter_new_inner [OF s(2)] str_decode_ok [OF s(1)] show ?thesis by (auto simp: filter_ok_def)
qed

text \<open>The levels a filter matches with: those after the group name, for a shared subscription.\<close>

definition filter_levels :: "bytes \<Rightarrow> bytes list" where
  "filter_levels s =
     (case strip_prefix SHARED_SUBSCRIPTION_PREFIX s of
        None \<Rightarrow> split_levels s
      | Some r \<Rightarrow> split_levels (tl (dropWhile (\<lambda>c. c \<noteq> SEPARATOR) r)))"

lemma dropWhile_group:
  "SEPARATOR \<notin> set g \<Longrightarrow> dropWhile (\<lambda>c. c \<noteq> SEPARATOR) (g @ SEPARATOR # rest) = SEPARATOR # rest"
  by (induction g) auto

lemma filter_levels_share: "shared_parts s g rest \<Longrightarrow> filter_levels s = split_levels rest"
  by (simp add: shared_parts_def filter_levels_def dropWhile_group)

lemma matches_topic_levels:
  assumes "filter_new uc as_ref s = Inr f"
  shows "matches_topic as_ref f (Topic t) =
      match_levels (filter_levels (as_ref s)) (split_levels (as_ref t))"
    and "valid_levels (filter_levels (as_ref s))"
proof -
  obtain k g where k: "filter_classify (as_ref s) = Inr (k, g)" "valid_levels (split_levels g)"
      and f: "f = \<lparr>filter_inner = s, filter_kind = k\<rparr>"
    using assms by (auto simp: filter_new_Inr)
  show "matches_topic as_ref f (Topic t) =
      match_levels (filter_levels (as_ref s)) (split_levels (as_ref t))"
    and "valid_levels (filter_levels (as_ref s))"
  proof (atomize (full), cases "is_share (as_ref s)")
    case True
    then obtain h where h: "shared_parts (as_ref s) h g" "k = Shared (length SHARED_SUBSCRIPTION_PREFIX + length h)"
      using filter_classify_share k(1) by blast
    then have "drop (length SHARED_SUBSCRIPTION_PREFIX + length h + 1) (as_ref s) = g"
      by (simp add: shared_parts_def)
    with h k(2) filter_levels_share [OF h(1)]
    show "matches_topic as_ref f (Topic t) =
        match_levels (filter_levels (as_ref s)) (split_levels (as_ref t)) \<and>
        valid_levels (filter_levels (as_ref s))"
      by (simp add: matches_topic_def classify_def f Let_def)
  next
    case False
    with k f show "matches_topic as_ref f (Topic t) =
        match_levels (filter_levels (as_ref s)) (split_levels (as_ref t)) \<and>
        valid_levels (filter_levels (as_ref s))"
      using filter_classify_plain [OF False]
      by (auto simp: matches_topic_def classify_def filter_levels_def Let_def split: if_splits)
  qed
qed

lemma plain_levels: "plain_level s \<Longrightarrow> list_all plain_level (split_levels s)"
proof (induction s)
  case (Cons c s)
  then have IH: "list_all plain_level (split_levels s)" by (simp add: contains_wildcard_def)
  moreover have "split_levels s = hd (split_levels s) # tl (split_levels s)" by simp
  ultimately have "plain_level (hd (split_levels s))" "list_all plain_level (tl (split_levels s))"
    by (metis list.pred_inject(2))+
  with Cons.prems IH show ?case by (auto simp: contains_wildcard_def)
qed (simp add: contains_wildcard_def)

lemma split_levels_append:
  "split_levels (s @ SEPARATOR # t) = split_levels s @ split_levels t"
proof (induction s)
  case (Cons c s)
  then show ?case by (cases "split_levels s") auto
qed simp

end
