(* ===== verification/Property_Codec.thy ===== *)
theory Property_Codec
  imports Topic_Filter
begin

text \<open>
  The properties of MQTT 5 (src/src/mqtt_proto/property.rs): one property on the wire, a property
  section with its length, and the macros \<open>decode_properties\<close> and \<open>encode_properties\<close> that packets
  use. The bindings of the decoding macro are read off the list of properties it went through.
\<close>

unbundle bit_operations_syntax

section \<open>Properties\<close>

datatype (plugins only: code size) property =
    AssignedClientIdentifier byte_str
  | AuthenticationData binary_data
  | AuthenticationMethod byte_str
  | ConnectSessionExpiryInterval session_expiry_interval
  | ContentType byte_str
  | CorrelationData binary_data
  | MaximumPacketSize u32
  | MaximumQoS qos
  | MessageExpiryInterval u32
  | PayloadIsUtf8 bool
  | ReasonString byte_str
  | ReceiveMaximum u16
  | RequestProblemInformation bool
  | RequestResponseInformation bool
  | ResponseInformation byte_str
  | ResponseTopic "byte_str topic"
  | RetainAvailable bool
  | ServerKeepAlive keep_alive
  | ServerReference byte_str
  | SessionExpiryInterval session_expiry_interval
  | SharedSubscriptionAvailable bool
  | SubscriptionIdentifier u32
  | SubscriptionIdentifiersAvailable bool
  | TopicAlias u16
  | TopicAliasMaximum u16
  | UserProperty byte_str byte_str
  | WildcardSubscriptionAvailable bool
  | WillDelayInterval u32

text \<open>The variant of a property, as the macro's \<open>stringify\<close> names it.\<close>

primrec variant :: "property \<Rightarrow> string" where
  "variant (AssignedClientIdentifier _) = ''AssignedClientIdentifier''"
| "variant (AuthenticationData _) = ''AuthenticationData''"
| "variant (AuthenticationMethod _) = ''AuthenticationMethod''"
| "variant (ConnectSessionExpiryInterval _) = ''ConnectSessionExpiryInterval''"
| "variant (ContentType _) = ''ContentType''"
| "variant (CorrelationData _) = ''CorrelationData''"
| "variant (MaximumPacketSize _) = ''MaximumPacketSize''"
| "variant (MaximumQoS _) = ''MaximumQoS''"
| "variant (MessageExpiryInterval _) = ''MessageExpiryInterval''"
| "variant (PayloadIsUtf8 _) = ''PayloadIsUtf8''"
| "variant (ReasonString _) = ''ReasonString''"
| "variant (ReceiveMaximum _) = ''ReceiveMaximum''"
| "variant (RequestProblemInformation _) = ''RequestProblemInformation''"
| "variant (RequestResponseInformation _) = ''RequestResponseInformation''"
| "variant (ResponseInformation _) = ''ResponseInformation''"
| "variant (ResponseTopic _) = ''ResponseTopic''"
| "variant (RetainAvailable _) = ''RetainAvailable''"
| "variant (ServerKeepAlive _) = ''ServerKeepAlive''"
| "variant (ServerReference _) = ''ServerReference''"
| "variant (SessionExpiryInterval _) = ''SessionExpiryInterval''"
| "variant (SharedSubscriptionAvailable _) = ''SharedSubscriptionAvailable''"
| "variant (SubscriptionIdentifier _) = ''SubscriptionIdentifier''"
| "variant (SubscriptionIdentifiersAvailable _) = ''SubscriptionIdentifiersAvailable''"
| "variant (TopicAlias _) = ''TopicAlias''"
| "variant (TopicAliasMaximum _) = ''TopicAliasMaximum''"
| "variant (UserProperty _ _) = ''UserProperty''"
| "variant (WildcardSubscriptionAvailable _) = ''WildcardSubscriptionAvailable''"
| "variant (WillDelayInterval _) = ''WillDelayInterval''"

section \<open>Decoding one property\<close>

text \<open>\<open>T::decode(src)?.ok_or(IncompletePacket)?\<close>, and the constructor applied to its value.\<close>

definition required :: "decode_error + ('a \<times> bytes) option \<Rightarrow> 'a dec" where
  "required r = and_then r (\<lambda>v. ok_or v IncompletePacket)"

definition dec_map :: "('a \<Rightarrow> 'b) \<Rightarrow> 'a dec \<Rightarrow> 'b dec" where
  "dec_map c d = and_then d (\<lambda>(x, r). Inr (c x, r))"

text \<open>A byte that must be 0 or 1, a number that must not be 0.\<close>

definition dec_flag :: "(u8 \<Rightarrow> decode_error) \<Rightarrow> bytes \<Rightarrow> bool dec" where
  "dec_flag err src =
     and_then (try_get_u8 src) (\<lambda>(v, r).
       if v = 0x00 then Inr (False, r) else if v = 0x01 then Inr (True, r) else Inl (err v))"

definition dec_nonzero :: "('n::zero \<Rightarrow> decode_error) \<Rightarrow> 'n dec \<Rightarrow> 'n dec" where
  "dec_nonzero err d = and_then d (\<lambda>(v, r). if v = 0 then Inl (err v) else Inr (v, r))"

definition decode_property :: "unicode \<Rightarrow> bytes \<Rightarrow> property dec" where
  "decode_property uc src =
     and_then (try_get_u8 src) (\<lambda>(identifier, src).
       if identifier = 0x01 then dec_map PayloadIsUtf8 (dec_flag UnrecognizedPayloadFormatIndicator src)
       else if identifier = 0x02 then dec_map MessageExpiryInterval (try_get_u32_be src)
       else if identifier = 0x03 then dec_map ContentType (required (str_decode uc src))
       else if identifier = 0x08 then dec_map ResponseTopic (required (topic_decode uc src))
       else if identifier = 0x09 then dec_map CorrelationData (ok_or (binary_decode src) IncompletePacket)
       else if identifier = 0x0B then
         dec_map SubscriptionIdentifier (dec_nonzero InvalidSubscriptionIdentifier (required (decode_varint src)))
       else if identifier = 0x11 then
         dec_map (\<lambda>v. SessionExpiryInterval (session_expiry_from_u32 v)) (try_get_u32_be src)
       else if identifier = 0x12 then dec_map AssignedClientIdentifier (required (str_decode uc src))
       else if identifier = 0x13 then dec_map (\<lambda>v. ServerKeepAlive (keep_alive_from_u16 v)) (try_get_u16_be src)
       else if identifier = 0x15 then dec_map AuthenticationMethod (required (str_decode uc src))
       else if identifier = 0x16 then
         dec_map AuthenticationData (ok_or (binary_decode src) IncompletePacket)
       else if identifier = 0x17 then
         dec_map RequestProblemInformation (dec_flag UnrecognizedRequestProblemInformation src)
       else if identifier = 0x18 then dec_map WillDelayInterval (try_get_u32_be src)
       else if identifier = 0x19 then
         dec_map RequestResponseInformation (dec_flag UnrecognizedRequestResponseInformation src)
       else if identifier = 0x1A then dec_map ResponseInformation (required (str_decode uc src))
       else if identifier = 0x1C then dec_map ServerReference (required (str_decode uc src))
       else if identifier = 0x1F then dec_map ReasonString (required (str_decode uc src))
       else if identifier = 0x21 then
         dec_map ReceiveMaximum (dec_nonzero InvalidReceiveMaximum (try_get_u16_be src))
       else if identifier = 0x22 then dec_map TopicAliasMaximum (try_get_u16_be src)
       else if identifier = 0x23 then dec_map TopicAlias (dec_nonzero InvalidTopicAlias (try_get_u16_be src))
       else if identifier = 0x24 then
         dec_map (\<lambda>b. MaximumQoS (if b then AtLeastOnce else AtMostOnce)) (dec_flag UnrecognizedMaximumQoS src)
       else if identifier = 0x25 then dec_map RetainAvailable (dec_flag UnrecognizedRetainAvailable src)
       else if identifier = 0x26 then
         and_then (required (str_decode uc src)) (\<lambda>(name, src).
           and_then (required (str_decode uc src)) (\<lambda>(v, src). Inr (UserProperty name v, src)))
       else if identifier = 0x27 then
         dec_map MaximumPacketSize (dec_nonzero InvalidMaximumPacketSize (try_get_u32_be src))
       else if identifier = 0x28 then
         dec_map WildcardSubscriptionAvailable (dec_flag UnrecognizedWildcardSubscriptionAvailable src)
       else if identifier = 0x29 then
         dec_map SubscriptionIdentifiersAvailable (dec_flag UnrecognizedSubscriptionIdentifiersAvailable src)
       else if identifier = 0x2A then
         dec_map SharedSubscriptionAvailable (dec_flag UnrecognizedSharedSubscriptionAvailable src)
       else Inl (UnrecognizedPropertyIdentifier identifier))"

section \<open>Encoding one property\<close>

primrec qos_to_u8 :: "qos \<Rightarrow> u8" where
  "qos_to_u8 AtMostOnce = 0x00"
| "qos_to_u8 AtLeastOnce = 0x01"
| "qos_to_u8 ExactlyOnce = 0x02"

definition encode_session_expiry :: "session_expiry_interval \<Rightarrow> enc" where
  "encode_session_expiry interval = enc_then (put_u8 0x11) (put_u32_be (session_expiry_to_u32 interval))"

primrec encode_property :: "property \<Rightarrow> enc" where
  "encode_property (AssignedClientIdentifier s) = enc_then (put_u8 0x12) (str_encode s)"
| "encode_property (AuthenticationData d) = enc_then (put_u8 0x16) (binary_encode d)"
| "encode_property (AuthenticationMethod s) = enc_then (put_u8 0x15) (str_encode s)"
| "encode_property (ConnectSessionExpiryInterval i) =
     enc_when (session_expiry_to_u32 i > 0) (encode_session_expiry i)"
| "encode_property (ContentType s) = enc_then (put_u8 0x03) (str_encode s)"
| "encode_property (CorrelationData d) = enc_then (put_u8 0x09) (binary_encode d)"
| "encode_property (MaximumPacketSize v) = enc_when (v < - 1) (enc_then (put_u8 0x27) (put_u32_be v))"
| "encode_property (MaximumQoS q) =
     enc_when (q = AtMostOnce \<or> q = AtLeastOnce) (enc_then (put_u8 0x24) (put_u8 (qos_to_u8 q)))"
| "encode_property (MessageExpiryInterval v) = enc_then (put_u8 0x02) (put_u32_be v)"
| "encode_property (PayloadIsUtf8 b) = enc_when b (enc_then (put_u8 0x01) (put_u8 0x01))"
| "encode_property (ReasonString s) = enc_then (put_u8 0x1F) (str_encode s)"
| "encode_property (ReceiveMaximum v) = enc_when (v < - 1) (enc_then (put_u8 0x21) (put_u16_be v))"
| "encode_property (RequestProblemInformation b) = enc_when (\<not> b) (enc_then (put_u8 0x17) (put_u8 0x00))"
| "encode_property (RequestResponseInformation b) = enc_when b (enc_then (put_u8 0x19) (put_u8 0x01))"
| "encode_property (ResponseInformation s) = enc_then (put_u8 0x1A) (str_encode s)"
| "encode_property (ResponseTopic t) = enc_then (put_u8 0x08) (topic_encode t)"
| "encode_property (RetainAvailable b) = enc_when (\<not> b) (enc_then (put_u8 0x25) (put_u8 0x00))"
| "encode_property (ServerKeepAlive k) = enc_then (put_u8 0x13) (put_u16_be (keep_alive_to_u16 k))"
| "encode_property (ServerReference s) = enc_then (put_u8 0x1C) (str_encode s)"
| "encode_property (SessionExpiryInterval i) = encode_session_expiry i"
| "encode_property (SharedSubscriptionAvailable b) = enc_when (\<not> b) (enc_then (put_u8 0x2A) (put_u8 0x00))"
| "encode_property (SubscriptionIdentifier v) = enc_then (put_u8 0x0B) (encode_varint v)"
| "encode_property (SubscriptionIdentifiersAvailable b) = enc_when (\<not> b) (enc_then (put_u8 0x29) (put_u8 0x00))"
| "encode_property (TopicAlias v) = enc_then (put_u8 0x23) (put_u16_be v)"
| "encode_property (TopicAliasMaximum v) = enc_when (v > 0) (enc_then (put_u8 0x22) (put_u16_be v))"
| "encode_property (UserProperty name v) = enc_then (put_u8 0x26) (enc_then (str_encode name) (str_encode v))"
| "encode_property (WildcardSubscriptionAvailable b) = enc_when (\<not> b) (enc_then (put_u8 0x28) (put_u8 0x00))"
| "encode_property (WillDelayInterval v) = enc_when (v > 0) (enc_then (put_u8 0x18) (put_u32_be v))"

section \<open>Property sections\<close>

text \<open>\<open>Property::decode_all\<close>: the bytes of the properties, and those after them.\<close>

definition decode_all :: "bytes \<Rightarrow> bytes dec" where
  "decode_all src =
     and_then (required (decode_remaining_length src)) (\<lambda>(remaining_length, src).
       if length src < remaining_length then Inl IncompletePacket
       else Inr (take remaining_length src, drop remaining_length src))"

lemma required_Inr: "required r = Inr (x, s) \<longleftrightarrow> r = Inr (Some (x, s))"
  by (cases r) (auto simp: required_def ok_or_def split: option.split)

lemma dec_map_Inr: "dec_map c d = Inr (y, s) \<longleftrightarrow> (\<exists>x. d = Inr (x, s) \<and> y = c x)"
  by (cases d) (auto simp: dec_map_def)

lemma dec_flag_length: "dec_flag err src = Inr (x, s) \<Longrightarrow> length s < length src"
  by (cases src) (auto simp: dec_flag_def split: if_splits)

lemma dec_nonzero_Inr: "dec_nonzero err d = Inr (x, s) \<longleftrightarrow> d = Inr (x, s) \<and> x \<noteq> 0"
  by (cases d) (auto simp: dec_nonzero_def split: if_splits)

lemma get_length:
  "try_get_u8 src = Inr (a, s) \<Longrightarrow> length s < length src"
  "try_get_u16_be src = Inr (b, s) \<Longrightarrow> length s < length src"
  "try_get_u32_be src = Inr (c, s) \<Longrightarrow> length s < length src"
  subgoal by (cases src rule: try_get_u8.cases) auto
  subgoal by (cases src rule: try_get_u16_be.cases) auto
  subgoal by (cases src rule: try_get_u32_be.cases) auto
  done

lemmas dec_length = get_length dec_flag_length decode_varint_shorter str_decode_ok [THEN conjunct2, THEN conjunct2]
  topic_decode_ok [THEN conjunct2, THEN conjunct2] binary_decode_ok [THEN conjunct2, THEN conjunct2]

text \<open>Every property takes at least its identifier.\<close>

lemma decode_property_length:
  assumes "decode_property uc src = Inr (p, r)"
  shows "length r < length src"
proof -
  obtain i s where src: "src = i # s" using assms by (cases src) (auto simp: decode_property_def)
  have two: "required (str_decode uc s) = Inr (n, s1) \<Longrightarrow> required (str_decode uc s1) = Inr (v, r) \<Longrightarrow>
      length r < length s" for n v s1
    by (auto simp: required_Inr dest!: str_decode_ok)
  have "length r < length s \<or> length r = length s"
    using assms two unfolding src decode_property_def
    by (auto simp: required_Inr dec_map_Inr dec_nonzero_Inr ok_or_eq_Inr and_then_eq_Inr
        split: if_splits dest!: dec_length)
  with src show ?thesis by auto
qed

text \<open>
  The loop of \<open>decode_properties\<close>: \<open>single\<close> are the variants bound to an option, \<open>many\<close> those bound to
  a vector, and \<open>seen\<close> the properties so far.
\<close>

function decode_loop :: "unicode \<Rightarrow> string list \<Rightarrow> string list \<Rightarrow> property list \<Rightarrow> bytes \<Rightarrow> decode_error + property list"
where
  "decode_loop uc single many seen src =
     (if src = [] then Inr seen
      else case decode_property uc src of
        Inl e \<Rightarrow> Inl e
      | Inr (p, src') \<Rightarrow>
          if variant p \<in> set many then decode_loop uc single many (seen @ [p]) src'
          else if variant p \<in> set single then
            (if variant p \<in> variant ` set seen then Inl (DuplicateProperty (variant p))
             else decode_loop uc single many (seen @ [p]) src')
          else Inl UnexpectedProperty)"
  by pat_completeness auto
termination
  by (relation "measure (\<lambda>(_, _, _, _, src). length src)") (auto dest: decode_property_length sym)

declare decode_loop.simps [simp del]

definition decode_properties :: "unicode \<Rightarrow> string list \<Rightarrow> string list \<Rightarrow> bytes \<Rightarrow> property list dec" where
  "decode_properties uc single many src =
     and_then (decode_all src) (\<lambda>(properties, src).
       and_then (decode_loop uc single many [] properties) (\<lambda>ps. Inr (ps, src)))"

text \<open>\<open>PropertyRef::encode_all\<close>: the length, counted first, and the properties.\<close>

definition encode_all :: "property list \<Rightarrow> enc" where
  "encode_all ps =
     (let inner = enc_all (map encode_property ps)
      in case byte_count True inner of
           (properties_length, None) \<Rightarrow> enc_then (encode_remaining_length properties_length) inner
         | (_, Some e) \<Rightarrow> enc_fail e)"

text \<open>How the macros list an optional property, and bind an option and a vector.\<close>

definition opt_prop :: "('a \<Rightarrow> property) \<Rightarrow> 'a option \<Rightarrow> property list" where
  "opt_prop c v = (case v of None \<Rightarrow> [] | Some x \<Rightarrow> [c x])"

primrec bound :: "(property \<Rightarrow> 'a option) \<Rightarrow> property list \<Rightarrow> 'a option" where
  "bound f [] = None"
| "bound f (p # ps) = (case f p of None \<Rightarrow> bound f ps | Some x \<Rightarrow> Some x)"

definition collected :: "(property \<Rightarrow> 'a option) \<Rightarrow> property list \<Rightarrow> 'a list" where
  "collected f ps = concat (map (\<lambda>p. case f p of None \<Rightarrow> [] | Some x \<Rightarrow> [x]) ps)"

definition unwrap_or :: "'a option \<Rightarrow> 'a \<Rightarrow> 'a" where
  "unwrap_or v d = (case v of None \<Rightarrow> d | Some x \<Rightarrow> x)"

section \<open>Round trip of one property\<close>

text \<open>The values a Rust value of the type can have, and the limit of the wire format.\<close>

fun property_ok :: "unicode \<Rightarrow> property \<Rightarrow> bool" where
  "property_ok uc (AssignedClientIdentifier s) = str_ok uc s"
| "property_ok uc (AuthenticationData d) = binary_ok d"
| "property_ok uc (AuthenticationMethod s) = str_ok uc s"
| "property_ok uc (ConnectSessionExpiryInterval i) = (i \<noteq> ExpiryDuration (- 1))"
| "property_ok uc (ContentType s) = str_ok uc s"
| "property_ok uc (CorrelationData d) = binary_ok d"
| "property_ok uc (MaximumPacketSize v) = (v \<noteq> 0)"
| "property_ok uc (ReasonString s) = str_ok uc s"
| "property_ok uc (ReceiveMaximum v) = (v \<noteq> 0)"
| "property_ok uc (ResponseInformation s) = str_ok uc s"
| "property_ok uc (ResponseTopic t) = topic_ok uc t"
| "property_ok uc (ServerKeepAlive k) = (k \<noteq> KeepAliveDuration 0)"
| "property_ok uc (ServerReference s) = str_ok uc s"
| "property_ok uc (SessionExpiryInterval i) = (i \<noteq> ExpiryDuration (- 1))"
| "property_ok uc (SubscriptionIdentifier v) = (v \<noteq> 0 \<and> unat v < varint_limit)"
| "property_ok uc (TopicAlias v) = (v \<noteq> 0)"
| "property_ok uc (UserProperty n v) = (str_ok uc n \<and> str_ok uc v)"
| "property_ok uc _ = True"

text \<open>A property with its default value is left out.\<close>

fun emitted :: "property \<Rightarrow> bool" where
  "emitted (ConnectSessionExpiryInterval i) = (session_expiry_to_u32 i \<noteq> 0)"
| "emitted (MaximumPacketSize v) = (v \<noteq> - 1)"
| "emitted (MaximumQoS q) = (q \<noteq> ExactlyOnce)"
| "emitted (PayloadIsUtf8 b) = b"
| "emitted (ReceiveMaximum v) = (v \<noteq> - 1)"
| "emitted (RequestProblemInformation b) = (\<not> b)"
| "emitted (RequestResponseInformation b) = b"
| "emitted (RetainAvailable b) = (\<not> b)"
| "emitted (SharedSubscriptionAvailable b) = (\<not> b)"
| "emitted (SubscriptionIdentifiersAvailable b) = (\<not> b)"
| "emitted (TopicAliasMaximum v) = (v \<noteq> 0)"
| "emitted (WildcardSubscriptionAvailable b) = (\<not> b)"
| "emitted (WillDelayInterval v) = (v \<noteq> 0)"
| "emitted _ = True"

text \<open>The variant only CONNECT encodes with is decoded as the general one.\<close>

fun received_as :: "property \<Rightarrow> property" where
  "received_as (ConnectSessionExpiryInterval i) = SessionExpiryInterval i"
| "received_as p = p"

lemma less_max_word: "v < (- 1 :: 'a::len word) \<longleftrightarrow> v \<noteq> - 1"
  by (metis word_not_simps(3) word_order.not_eq_extremum)

lemma encode_property_None:
  "property_ok uc p \<Longrightarrow> snd (encode_property p) = None"
  by (cases p) (simp_all add: enc_when_def encode_session_expiry_def encode_varint_bytes(1))

lemma encode_property_silent: "\<not> emitted p \<Longrightarrow> encode_property p = enc_ok"
  by (cases p) (auto simp: enc_when_def less_max_word word_gt_0 intro: qos.exhaust)

lemmas dec_eval = required_def dec_map_def dec_flag_def dec_nonzero_def

lemma decode_property_wire:
  assumes "property_ok uc p" and "emitted p"
  shows "decode_property uc (enc_bytes (encode_property p) @ r) = Inr (received_as p, r)"
proof (cases p)
  case (MaximumQoS q)
  with assms show ?thesis by (cases q) (simp_all add: decode_property_def dec_eval)
qed (use assms in \<open>simp_all add: decode_property_def dec_eval less_max_word word_gt_0 encode_session_expiry_def
      roundtrip encode_varint_bytes(1)\<close>)

lemma encode_property_nonempty:
  "property_ok uc p \<Longrightarrow> emitted p \<Longrightarrow> enc_bytes (encode_property p) \<noteq> []"
  using decode_property_wire [of uc p "[]"] by (auto simp: decode_property_def)

section \<open>Round trip of a property section\<close>

definition wired :: "property list \<Rightarrow> property list" where
  "wired ps = map received_as (filter emitted ps)"

fun admissible :: "string list \<Rightarrow> string list \<Rightarrow> property list \<Rightarrow> property list \<Rightarrow> bool" where
  "admissible single many seen [] = True"
| "admissible single many seen (p # ps) =
     ((variant p \<in> set many \<or> variant p \<in> set single \<and> variant p \<notin> variant ` set seen) \<and>
      admissible single many (seen @ [p]) ps)"

abbreviation property_bytes :: "property list \<Rightarrow> bytes" where
  "property_bytes ps \<equiv> concat (map (\<lambda>p. enc_bytes (encode_property p)) ps)"

lemma property_bytes_emitted: "property_bytes ps = property_bytes (filter emitted ps)"
  by (induction ps) (auto simp: encode_property_silent)

lemma decode_loop_wire:
  assumes "list_all (\<lambda>p. property_ok uc p \<and> emitted p) ps"
    and "admissible single many seen (map received_as ps)"
  shows "decode_loop uc single many seen (property_bytes ps) = Inr (seen @ map received_as ps)"
  using assms
proof (induction ps arbitrary: seen)
  case (Cons p ps)
  then show ?case
    using encode_property_nonempty [of uc p] decode_property_wire [of uc p "property_bytes ps"]
    by (subst decode_loop.simps) auto
qed (simp add: decode_loop.simps)

text \<open>
  Properties listed group by group, each group of one variant and each variant once, of which the
  macro allows any number or at most one, are accepted.
\<close>

definition groups_ok :: "string list \<Rightarrow> string list \<Rightarrow> (string \<times> property list) list \<Rightarrow> bool" where
  "groups_ok single many gs \<longleftrightarrow>
     distinct (map fst gs) \<and>
     list_all (\<lambda>(k, ps). list_all (\<lambda>p. variant (received_as p) = k) ps \<and>
        (k \<in> set many \<or> k \<in> set single \<and> length ps \<le> 1)) gs"

lemma admissible_append:
  "admissible single many seen (ps @ qs) \<longleftrightarrow>
     admissible single many seen ps \<and> admissible single many (seen @ ps) qs"
  by (induction ps arbitrary: seen) auto

lemma admissible_many: "list_all (\<lambda>p. variant p \<in> set many) ps \<Longrightarrow> admissible single many seen ps"
  by (induction ps arbitrary: seen) auto

lemma admissible_group:
  assumes "list_all (\<lambda>p. variant p = k) ps" and "k \<in> set many \<or> k \<in> set single \<and> length ps \<le> 1"
    and "k \<notin> variant ` set seen"
  shows "admissible single many seen ps"
proof (cases "k \<in> set many")
  case True
  with assms(1) have "list_all (\<lambda>p. variant p \<in> set many) ps" by (auto simp: list_all_iff)
  then show ?thesis by (rule admissible_many)
next
  case False
  with assms show ?thesis by (cases ps) auto
qed

lemma groups_ok_admissible:
  assumes "groups_ok single many gs" and "set (map fst gs) \<inter> variant ` set seen = {}"
  shows "admissible single many seen (wired (concat (map snd gs)))"
  using assms
proof (induction gs arbitrary: seen)
  case (Cons g gs)
  obtain k ps where g: "g = (k, ps)" by (cases g)
  have k: "list_all (\<lambda>p. variant p = k) (wired ps)"
      "k \<in> set many \<or> k \<in> set single \<and> length (wired ps) \<le> 1"
    using Cons.prems(1) le_trans [OF length_filter_le [of emitted ps]]
    by (auto simp: groups_ok_def g wired_def list_all_iff)
  have "variant ` set (seen @ wired ps) \<subseteq> insert k (variant ` set seen)"
    using k(1) by (auto simp: list_all_iff)
  moreover have "k \<notin> set (map fst gs)" using Cons.prems(1) by (simp add: groups_ok_def g)
  ultimately have "set (map fst gs) \<inter> variant ` set (seen @ wired ps) = {}"
    using Cons.prems(2) unfolding g list.map fst_conv list.set by blast
  moreover have "groups_ok single many gs" using Cons.prems(1) by (simp add: groups_ok_def)
  ultimately have "admissible single many (seen @ wired ps) (wired (concat (map snd gs)))"
    by (rule Cons.IH [rotated])
  moreover have "admissible single many seen (wired ps)"
    using k by (rule admissible_group) (use Cons.prems(2) g in auto)
  ultimately show ?case by (simp add: g wired_def admissible_append)
qed (simp add: wired_def)

text \<open>The bytes of a section, and when it can be encoded.\<close>

lemma encode_all_parts:
  assumes "list_all (property_ok uc) ps"
  shows "snd (encode_all ps) = None \<longleftrightarrow> length (property_bytes ps) < varint_limit"
    and "snd (encode_all ps) = None \<Longrightarrow>
      enc_bytes (encode_all ps) = varint_digits 4 (length (property_bytes ps)) @ property_bytes ps"
proof -
  let ?i = "enc_all (map encode_property ps)"
  have none: "snd ?i = None"
    using assms by (auto simp: enc_all_None list_all_iff intro: encode_property_None)
  then have bytes: "enc_bytes ?i = property_bytes ps" by (simp add: enc_all_bytes o_def)
  have eq: "encode_all ps = enc_then (encode_remaining_length (length (property_bytes ps))) ?i"
    using none bytes by (simp add: encode_all_def byte_count_all Let_def)
  show iff: "snd (encode_all ps) = None \<longleftrightarrow> length (property_bytes ps) < varint_limit"
    using none by (simp add: eq encode_remaining_length_None del: power_numeral)
  assume "snd (encode_all ps) = None"
  then have "length (property_bytes ps) < varint_limit" by (simp add: iff)
  note len = encode_remaining_length_bytes [OF this]
  then show "enc_bytes (encode_all ps) = varint_digits 4 (length (property_bytes ps)) @ property_bytes ps"
    using bytes by (simp add: eq del: power_numeral)
qed

lemma decode_properties_wire:
  assumes "ps = concat (map snd gs)" and "groups_ok single many gs" and "list_all (property_ok uc) ps"
    and "snd (encode_all ps) = None"
  shows "decode_properties uc single many (enc_bytes (encode_all ps) @ r) = Inr (wired ps, r)"
proof -
  have limit: "length (property_bytes ps) < varint_limit"
    using encode_all_parts(1) [OF assms(3)] assms(4) by simp
  have "decode_all (enc_bytes (encode_all ps) @ r) = Inr (property_bytes ps, r)"
    using encode_all_parts(2) [OF assms(3,4)] decode_remaining_length_digits [OF limit, of "property_bytes ps @ r"]
    by (simp add: decode_all_def required_def del: power_numeral)
  moreover have "decode_loop uc single many [] (property_bytes ps) = Inr (wired ps)"
  proof -
    have "list_all (\<lambda>p. property_ok uc p \<and> emitted p) (filter emitted ps)"
      using assms(3) by (auto simp: list_all_iff)
    moreover have "admissible single many [] (map received_as (filter emitted ps))"
      using groups_ok_admissible [OF assms(2), of "[]"] assms(1) by (simp add: wired_def)
    ultimately show ?thesis
      using decode_loop_wire [of uc "filter emitted ps" single many "[]"] property_bytes_emitted [of ps]
      by (simp add: wired_def)
  qed
  ultimately show ?thesis by (simp add: decode_properties_def)
qed

subsection \<open>Reading the bindings back\<close>

abbreviation user_props :: "user_properties \<Rightarrow> property list" where
  "user_props us \<equiv> map (\<lambda>(n, v). UserProperty n v) us"

abbreviation get_user_property :: "property \<Rightarrow> user_property option" where
  "get_user_property p \<equiv> (case p of UserProperty n v \<Rightarrow> Some (n, v) | _ \<Rightarrow> None)"

text \<open>A property that is listed always: it is on the wire unless it has its default value.\<close>

definition once_prop :: "property \<Rightarrow> property list" where
  "once_prop p = (if emitted p then [received_as p] else [])"

lemma wired_simps [simp]:
  "wired [] = []" "wired (ps @ qs) = wired ps @ wired qs"
  "wired (p # ps) = once_prop p @ wired ps"
  "wired (user_props us) = user_props us"
  by (induction us) (auto simp: wired_def once_prop_def)

lemma wired_map: "(\<And>x. emitted (c x)) \<Longrightarrow> (\<And>x. received_as (c x) = c x) \<Longrightarrow> wired (map c xs) = map c xs"
  by (induction xs) (auto simp: wired_def)

lemma wired_opt [simp]:
  "(\<And>x. emitted (c x)) \<Longrightarrow> (\<And>x. received_as (c x) = c x) \<Longrightarrow> wired (opt_prop c v) = opt_prop c v"
  by (cases v) (simp_all add: opt_prop_def once_prop_def)

definition or_else :: "'a option \<Rightarrow> 'a option \<Rightarrow> 'a option" where
  "or_else a b = (case a of None \<Rightarrow> b | Some x \<Rightarrow> Some x)"

lemma or_else_simps [simp]: "or_else None b = b" "or_else (Some x) b = Some x" "or_else a None = a"
  by (simp_all add: or_else_def split: option.split)

lemma bound_append [simp]: "bound f (ps @ qs) = or_else (bound f ps) (bound f qs)"
  by (induction ps) (auto split: option.split)

lemma bound_opt_same: "(\<And>x. f (c x) = Some x) \<Longrightarrow> bound f (opt_prop c v) = v"
  by (cases v) (simp_all add: opt_prop_def)

lemma bound_opt_other: "(\<And>x. f (c x) = None) \<Longrightarrow> bound f (opt_prop c v) = None"
  by (cases v) (simp_all add: opt_prop_def)

lemma bound_map_other: "(\<And>x. f (c x) = None) \<Longrightarrow> bound f (map c xs) = None"
  by (induction xs) auto

lemma bound_user_other: "(\<And>n v. f (UserProperty n v) = None) \<Longrightarrow> bound f (user_props us) = None"
  by (induction us) auto

lemma bound_once_same: "f (received_as p) = Some x \<Longrightarrow> bound f (once_prop p) = (if emitted p then Some x else None)"
  by (simp add: once_prop_def)

lemma bound_once_other: "f (received_as p) = None \<Longrightarrow> bound f (once_prop p) = None"
  by (simp add: once_prop_def)

lemmas bound_simps = bound_opt_same bound_opt_other bound_map_other bound_user_other bound_once_same
  bound_once_other

lemma collected_simps [simp]:
  "collected f [] = []" "collected f (ps @ qs) = collected f ps @ collected f qs"
  "collected f (p # ps) = (case f p of None \<Rightarrow> collected f ps | Some x \<Rightarrow> x # collected f ps)"
  by (auto simp: collected_def split: option.split)

lemma collected_once_other: "f (received_as p) = None \<Longrightarrow> collected f (once_prop p) = []"
  by (simp add: once_prop_def)

lemma collected_opt_other: "(\<And>x. f (c x) = None) \<Longrightarrow> collected f (opt_prop c v) = []"
  by (cases v) (simp_all add: opt_prop_def)

lemma collected_map_other: "(\<And>x. f (c x) = None) \<Longrightarrow> collected f (map c xs) = []"
  by (induction xs) auto

lemma collected_map_same: "(\<And>x. f (c x) = Some x) \<Longrightarrow> collected f (map c xs) = xs"
  by (induction xs) auto

lemma collected_user_same: "collected get_user_property (user_props us) = us"
  by (induction us) auto

lemma collected_user_other: "(\<And>n v. f (UserProperty n v) = None) \<Longrightarrow> collected f (user_props us) = []"
  by (induction us) auto

lemmas collect_simps = collected_opt_other collected_map_other collected_map_same collected_user_same
  collected_user_other collected_once_other

lemma opt_prop_ok [simp]:
  "list_all P (opt_prop c v) \<longleftrightarrow> (case v of None \<Rightarrow> True | Some x \<Rightarrow> P (c x))"
  "length (opt_prop c v) \<le> Suc 0"
  by (cases v; simp add: opt_prop_def)+

lemma unwrap_or_simps [simp]:
  "unwrap_or None d = d" "unwrap_or (Some x) d = x"
  "unwrap_or (if b then Some x else None) d = (if b then x else d)"
  by (simp_all add: unwrap_or_def)

lemma user_props_ok [simp]:
  "list_all (property_ok uc) (user_props us) \<longleftrightarrow> list_all (\<lambda>(n, v). str_ok uc n \<and> str_ok uc v) us"
  by (induction us) auto

lemma user_props_variant [simp]:
  "list_all (\<lambda>p. variant (received_as p) = ''UserProperty'') (user_props us)"
  by (induction us) auto

end
