(* ===== verification/Reason_Codes.thy ===== *)
theory Reason_Codes
  imports Property_Codec
begin

text \<open>
  The enums that the macro \<open>define_u8_code\<close> of src/src/mqtt_proto.rs defines from a table of variants
  and values. The macro gives a conversion from \<open>u8\<close> and one to it; here they are two functions of
  the table, and the locale \<open>u8_code\<close> holds what the packet codecs rely on.
\<close>

section \<open>The macro\<close>

definition code_try_from :: "(u8 \<Rightarrow> decode_error) \<Rightarrow> ('c \<times> u8) list \<Rightarrow> u8 \<Rightarrow> decode_error + 'c" where
  "code_try_from error_variant table code =
     (case find (\<lambda>(_, v). v = code) table of
        Some (c, _) \<Rightarrow> Inr c
      | None \<Rightarrow> Inl (error_variant code))"

definition code_to_u8 :: "('c \<times> u8) list \<Rightarrow> 'c \<Rightarrow> u8" where
  "code_to_u8 table c = the (map_of table c)"

locale u8_code =
  fixes error_variant :: "u8 \<Rightarrow> decode_error" and table :: "('c \<times> u8) list"
  assumes total: "c \<in> fst ` set table"
    and distinct_variants: "distinct (map fst table)"
    and distinct_values: "distinct (map snd table)"
begin

lemma try_from_to_u8: "code_try_from error_variant table (code_to_u8 table c) = Inr c"
proof -
  from total have "map_of table c \<noteq> None" by (simp add: map_of_eq_None_iff)
  then obtain n where n: "map_of table c = Some n" by blast
  then have mem: "(c, n) \<in> set table" by (rule map_of_SomeD)
  have "find (\<lambda>(_, v). v = n) table = Some (c, n)"
    using distinct_values mem
  proof (induction table)
    case (Cons a t)
    then show ?case by (cases a) (auto simp: rev_image_eqI)
  qed simp
  with n show ?thesis by (simp add: code_try_from_def code_to_u8_def)
qed

lemma find_value:
  "find (\<lambda>(_, v). v = n) table = Some (c, m) \<Longrightarrow> (c, n) \<in> set table \<and> m = n"
  "find (\<lambda>(_, v). v = n) table = None \<longleftrightarrow> n \<notin> snd ` set table"
  by (induction table) (auto split: if_splits)

lemma try_from_Inr: "code_try_from error_variant table n = Inr c \<longleftrightarrow> n = code_to_u8 table c"
proof
  assume "code_try_from error_variant table n = Inr c"
  then have "(c, n) \<in> set table"
    by (auto simp: code_try_from_def split: option.splits dest: find_value(1))
  with distinct_variants show "n = code_to_u8 table c" by (simp add: code_to_u8_def)
qed (simp add: try_from_to_u8)

text \<open>A byte that is not in the table is reported with the variant of the enum.\<close>

lemma try_from_Inl:
  "code_try_from error_variant table n = Inl e \<longleftrightarrow> n \<notin> snd ` set table \<and> e = error_variant n"
  using find_value(2) [of n] by (auto simp: code_try_from_def split: option.splits)

end

section \<open>The tables\<close>

definition qos_table :: "(qos \<times> u8) list" where
  "qos_table = [(AtMostOnce, 0x00), (AtLeastOnce, 0x01), (ExactlyOnce, 0x02)]"

definition pub_ack_table :: "(pub_ack_reason_code \<times> u8) list" where
  "pub_ack_table =
     [(PubAckSuccess, 0x00), (PubAckNoMatchingSubscribers, 0x10), (PubAckUnspecifiedError, 0x80),
      (PubAckImplementationSpecificError, 0x83), (PubAckNotAuthorized, 0x87),
      (PubAckTopicNameInvalid, 0x90), (PubAckPacketIdentifierInUse, 0x91),
      (PubAckQuotaExceeded, 0x97), (PubAckPayloadFormatInvalid, 0x99)]"

definition pub_rec_table :: "(pub_rec_reason_code \<times> u8) list" where
  "pub_rec_table =
     [(PubRecSuccess, 0x00), (PubRecNoMatchingSubscribers, 0x10), (PubRecUnspecifiedError, 0x80),
      (PubRecImplementationSpecificError, 0x83), (PubRecNotAuthorized, 0x87),
      (PubRecTopicNameInvalid, 0x90), (PubRecPacketIdentifierInUse, 0x91),
      (PubRecQuotaExceeded, 0x97), (PubRecPayloadFormatInvalid, 0x99)]"

definition pub_rel_table :: "(pub_rel_reason_code \<times> u8) list" where
  "pub_rel_table = [(PubRelSuccess, 0x00), (PubRelPacketIdentifierNotFound, 0x92)]"

definition pub_comp_table :: "(pub_comp_reason_code \<times> u8) list" where
  "pub_comp_table = [(PubCompSuccess, 0x00), (PubCompPacketIdentifierNotFound, 0x92)]"

definition subscribe_table :: "(subscribe_reason_code \<times> u8) list" where
  "subscribe_table =
     [(GrantedQoS0, 0x00), (GrantedQoS1, 0x01), (GrantedQoS2, 0x02), (SubUnspecifiedError, 0x80),
      (SubImplementationSpecificError, 0x83), (SubNotAuthorized, 0x87), (SubTopicFilterInvalid, 0x8F),
      (SubPacketIdentifierInUse, 0x91), (SubQuotaExceeded, 0x97),
      (SubSharedSubscriptionsNotSupported, 0x9E), (SubSubscriptionIdentifiersNotSupported, 0xA1),
      (SubWildcardSubscriptionsNotSupported, 0xA2)]"

definition unsub_ack_table :: "(unsub_ack_reason_code \<times> u8) list" where
  "unsub_ack_table =
     [(UnsubSuccess, 0x00), (UnsubNoSubscriptionExisted, 0x11), (UnsubUnspecifiedError, 0x80),
      (UnsubImplementationSpecificError, 0x83), (UnsubNotAuthorized, 0x87),
      (UnsubTopicFilterInvalid, 0x8F), (UnsubPacketIdentifierInUse, 0x91)]"

definition authenticate_table :: "(authenticate_reason_code \<times> u8) list" where
  "authenticate_table = [(AuthSuccess, 0x00), (ContinueAuthentication, 0x18), (ReAuthenticate, 0x19)]"

definition retain_handling_table :: "(retain_handling \<times> u8) list" where
  "retain_handling_table =
     [(Send, 0x00), (SendOnlyIfSubscriptionDoesNotCurrentlyExist, 0x01), (DoNotSend, 0x02)]"

definition connection_refused_table :: "(connection_refused_reason \<times> u8) list" where
  "connection_refused_table =
     [(RefusedUnspecifiedError, 0x80), (RefusedMalformedPacket, 0x81), (RefusedProtocolError, 0x82),
      (RefusedImplementationSpecificError, 0x83), (UnsupportedProtocolVersion, 0x84),
      (ClientIdentifierNotValid, 0x85), (BadUserNameOrPassword, 0x86), (RefusedNotAuthorized, 0x87),
      (ServerUnavailable, 0x88), (RefusedServerBusy, 0x89), (Banned, 0x8A),
      (BadAuthenticationMethod, 0x8C), (RefusedTopicNameInvalid, 0x90), (RefusedPacketTooLarge, 0x95),
      (RefusedQuotaExceeded, 0x97), (RefusedPayloadFormatInvalid, 0x99),
      (RefusedRetainNotSupported, 0x9A), (QoSNotSupported, 0x9B), (RefusedUseAnotherServer, 0x9C),
      (RefusedServerMoved, 0x9D), (RefusedConnectionRateExceeded, 0x9F)]"

definition disconnect_table :: "(disconnect_reason_code \<times> u8) list" where
  "disconnect_table =
     [(DisconnectNormal, 0x00), (DisconnectWithWillMessage, 0x04), (DisconnectUnspecifiedError, 0x80),
      (DisconnectMalformedPacket, 0x81), (DisconnectProtocolError, 0x82),
      (DisconnectImplementationSpecificError, 0x83), (DisconnectNotAuthorized, 0x87),
      (DisconnectServerBusy, 0x89), (ServerShuttingDown, 0x8B), (KeepAliveTimeout, 0x8D),
      (SessionTakenOver, 0x8E), (DisconnectTopicFilterInvalid, 0x8F),
      (DisconnectTopicNameInvalid, 0x90), (ReceiveMaximumExceeded, 0x93), (TopicAliasInvalid, 0x94),
      (DisconnectPacketTooLarge, 0x95), (MessageRateTooHigh, 0x96), (DisconnectQuotaExceeded, 0x97),
      (AdministrativeAction, 0x98), (DisconnectPayloadFormatInvalid, 0x99),
      (DisconnectRetainNotSupported, 0x9A), (QosNotSupported, 0x9B),
      (DisconnectUseAnotherServer, 0x9C), (DisconnectServerMoved, 0x9D),
      (DisconnectSharedSubscriptionsNotSupported, 0x9E), (DisconnectConnectionRateExceeded, 0x9F),
      (MaximumConnectTime, 0xA0), (DisconnectSubscriptionIdentifiersNotSupported, 0xA1),
      (DisconnectWildcardSubscriptionsNotSupported, 0xA2)]"

section \<open>Interpretations\<close>

interpretation qos_code: u8_code UnrecognizedQoS qos_table
  by unfold_locales (auto simp: qos_table_def intro: qos.exhaust)

interpretation pub_ack_code: u8_code UnrecognizedPubAckReasonCode pub_ack_table
proof
  fix c show "c \<in> fst ` set pub_ack_table" by (cases c) (simp_all add: pub_ack_table_def)
qed (simp_all add: pub_ack_table_def)

interpretation pub_rec_code: u8_code UnrecognizedPubRecReasonCode pub_rec_table
proof
  fix c show "c \<in> fst ` set pub_rec_table" by (cases c) (simp_all add: pub_rec_table_def)
qed (simp_all add: pub_rec_table_def)

interpretation pub_rel_code: u8_code UnrecognizedPubRelReasonCode pub_rel_table
  by unfold_locales (auto simp: pub_rel_table_def intro: pub_rel_reason_code.exhaust)

interpretation pub_comp_code: u8_code UnrecognizedPubCompReasonCode pub_comp_table
  by unfold_locales (auto simp: pub_comp_table_def intro: pub_comp_reason_code.exhaust)

interpretation subscribe_code: u8_code UnrecognizedSubscribeReasonCode subscribe_table
proof
  fix c show "c \<in> fst ` set subscribe_table" by (cases c) (simp_all add: subscribe_table_def)
qed (simp_all add: subscribe_table_def)

interpretation unsub_ack_code: u8_code UnrecognizedUnsubAckReasonCode unsub_ack_table
proof
  fix c show "c \<in> fst ` set unsub_ack_table" by (cases c) (simp_all add: unsub_ack_table_def)
qed (simp_all add: unsub_ack_table_def)

interpretation authenticate_code: u8_code UnrecognizedAuthenticateReasonCode authenticate_table
  by unfold_locales (auto simp: authenticate_table_def intro: authenticate_reason_code.exhaust)

interpretation retain_handling_code: u8_code UnrecognizedRetainHandling retain_handling_table
  by unfold_locales (auto simp: retain_handling_table_def intro: retain_handling.exhaust)

interpretation connection_refused_code: u8_code UnrecognizedConnectReasonCode connection_refused_table
proof
  fix c show "c \<in> fst ` set connection_refused_table" by (cases c) (simp_all add: connection_refused_table_def)
qed (simp_all add: connection_refused_table_def)

interpretation disconnect_code: u8_code UnrecognizedDisconnectReasonCode disconnect_table
proof
  fix c show "c \<in> fst ` set disconnect_table" by (cases c) (simp_all add: disconnect_table_def)
qed (simp_all add: disconnect_table_def)

lemmas code_roundtrip [simp, roundtrip] =
  qos_code.try_from_to_u8 pub_ack_code.try_from_to_u8 pub_rec_code.try_from_to_u8
  pub_rel_code.try_from_to_u8 pub_comp_code.try_from_to_u8 subscribe_code.try_from_to_u8
  unsub_ack_code.try_from_to_u8 authenticate_code.try_from_to_u8 retain_handling_code.try_from_to_u8
  connection_refused_code.try_from_to_u8 disconnect_code.try_from_to_u8

end
