(* ===== verification/Ack_Codec.thy ===== *)
theory Ack_Codec
  imports Reason_Codes
begin

text \<open>
  Encoding and decoding of the acknowledgements: src/src/mqtt_proto/puback.rs, pubrec.rs, pubrel.rs,
  pubcomp.rs, suback.rs and unsuback.rs. The first four have the same body, so they share one
  decoder and one encoder that take what differs: the reason codes.
\<close>

unbundle bit_operations_syntax

section \<open>Properties of acknowledgements\<close>

abbreviation get_reason_string :: "property \<Rightarrow> byte_str option" where
  "get_reason_string p \<equiv> (case p of ReasonString s \<Rightarrow> Some s | _ \<Rightarrow> None)"

definition decode_ack_properties :: "unicode \<Rightarrow> bytes \<Rightarrow> ack_other_properties dec" where
  "decode_ack_properties uc src =
     and_then (decode_properties uc [''ReasonString''] [''UserProperty''] src) (\<lambda>(ps, src).
       Inr (\<lparr>ack_reason_string = bound get_reason_string ps,
             ack_user_properties = collected get_user_property ps\<rparr>, src))"

definition ack_properties :: "ack_other_properties \<Rightarrow> property list" where
  "ack_properties o1 = opt_prop ReasonString (ack_reason_string o1) @ user_props (ack_user_properties o1)"

definition encode_ack_properties :: "ack_other_properties \<Rightarrow> enc" where
  "encode_ack_properties o1 = encode_all (ack_properties o1)"

definition ack_properties_ok :: "unicode \<Rightarrow> ack_other_properties \<Rightarrow> bool" where
  "ack_properties_ok uc o1 \<longleftrightarrow>
     list_all (property_ok uc) (ack_properties o1) \<and> snd (encode_ack_properties o1) = None"

lemma decode_ack_properties_wire [roundtrip]:
  assumes "ack_properties_ok uc o1"
  shows "decode_ack_properties uc (enc_bytes (encode_ack_properties o1) @ r) = Inr (o1, r)"
proof -
  let ?gs = "[(''ReasonString'', opt_prop ReasonString (ack_reason_string o1)),
              (''UserProperty'', user_props (ack_user_properties o1))]"
  have "ack_properties o1 = concat (map snd ?gs)" by (simp add: ack_properties_def)
  moreover have "groups_ok [''ReasonString''] [''UserProperty''] ?gs"
    by (simp add: groups_ok_def split: option.split)
  ultimately have "decode_properties uc [''ReasonString''] [''UserProperty'']
      (enc_bytes (encode_all (ack_properties o1)) @ r) = Inr (wired (ack_properties o1), r)"
    using assms unfolding ack_properties_ok_def encode_ack_properties_def
    by (intro decode_properties_wire) auto
  then show ?thesis
    by (simp add: decode_ack_properties_def encode_ack_properties_def ack_properties_def bound_simps collect_simps)
qed

lemma encode_ack_properties_nonempty:
  assumes "ack_properties_ok uc o1"
  shows "enc_bytes (encode_ack_properties o1) \<noteq> []"
proof
  assume "enc_bytes (encode_ack_properties o1) = []"
  with decode_ack_properties_wire [OF assms, of "[]"] show False
    by (simp add: decode_ack_properties_def decode_properties_def decode_all_def required_def
        decode_remaining_length_def decode_varint_def)
qed

section \<open>PUBACK, PUBREC, PUBREL and PUBCOMP\<close>

definition decode_ack ::
  "unicode \<Rightarrow> protocol_version \<Rightarrow> (u8 \<Rightarrow> decode_error + 'c) \<Rightarrow> 'c \<Rightarrow> bytes \<Rightarrow>
     (pkid \<times> 'c \<times> ack_other_properties) dec"
where
  "decode_ack uc version try_from success src =
     and_then (try_get_packet_identifier src) (\<lambda>(packet_identifier, src).
       case version of
         V3 \<Rightarrow> Inr ((packet_identifier, success, ack_other_properties_default), src)
       | V5 \<Rightarrow>
           (case try_get_u8 src of
              Inr (reason_code, src) \<Rightarrow>
                and_then (try_from reason_code) (\<lambda>reason_code.
                  if src = [] then Inr ((packet_identifier, reason_code, ack_other_properties_default), src)
                  else and_then (decode_ack_properties uc src) (\<lambda>(other, src).
                    Inr ((packet_identifier, reason_code, other), src)))
            | Inl IncompletePacket \<Rightarrow> Inr ((packet_identifier, success, ack_other_properties_default), src)
            | Inl err \<Rightarrow> Inl err))"

definition encode_ack ::
  "protocol_version \<Rightarrow> ('c \<Rightarrow> u8) \<Rightarrow> 'c \<Rightarrow> ('c \<Rightarrow> bool) \<Rightarrow> ('c \<Rightarrow> encode_error) \<Rightarrow>
     pkid \<Rightarrow> 'c \<Rightarrow> ack_other_properties \<Rightarrow> enc"
where
  "encode_ack version to_u8 success is_success negative packet_identifier reason_code other =
     enc_then (put_u16_be packet_identifier)
       (case version of
          V3 \<Rightarrow> if is_success reason_code then enc_ok else enc_fail (negative reason_code)
        | V5 \<Rightarrow>
            let default_reason_code = (reason_code = success);
                default_property_length = (ack_reason_string other = None \<and> ack_user_properties other = [])
            in enc_then
                 (enc_when (\<not> default_reason_code \<or> \<not> default_property_length) (put_u8 (to_u8 reason_code)))
                 (enc_when (\<not> default_property_length) (encode_ack_properties other)))"

text \<open>What survives the wire: version 3.1.1 has room for the identifier only.\<close>

definition ack_ok :: "unicode \<Rightarrow> protocol_version \<Rightarrow> 'c \<Rightarrow> pkid \<Rightarrow> 'c \<Rightarrow> ack_other_properties \<Rightarrow> bool" where
  "ack_ok uc version success k code other \<longleftrightarrow>
     k \<noteq> 0 \<and>
     (case version of
        V3 \<Rightarrow> code = success \<and> other = ack_other_properties_default
      | V5 \<Rightarrow> other = ack_other_properties_default \<or> ack_properties_ok uc other)"

lemma ack_default:
  "ack_reason_string other = None \<and> ack_user_properties other = [] \<longleftrightarrow> other = ack_other_properties_default"
  by (cases other) (auto simp: ack_other_properties_default_def)

lemma decode_encode_ack [roundtrip]:
  assumes ok: "ack_ok uc version success k code other"
    and code: "try_from (to_u8 code) = Inr code"
    and success: "is_success success"
  shows "snd (encode_ack version to_u8 success is_success negative k code other) = None"
    and "decode_ack uc version try_from success
      (enc_bytes (encode_ack version to_u8 success is_success negative k code other)) =
      Inr ((k, code, other), [])"
proof -
  let ?e = "encode_ack version to_u8 success is_success negative k code other"
  have "snd ?e = None \<and> decode_ack uc version try_from success (enc_bytes ?e) = Inr ((k, code, other), [])"
  proof (cases version)
    case V3
    with ok success get_pkid [of k "[]"] show ?thesis
      by (simp add: ack_ok_def encode_ack_def decode_ack_def)
  next
    case V5
    show ?thesis
    proof (cases "other = ack_other_properties_default")
      case True
      with V5 ok code get_pkid [of k "[]"] get_pkid [of k "[to_u8 code]"] show ?thesis
        by (auto simp: ack_ok_def encode_ack_def decode_ack_def Let_def ack_default enc_when_def)
    next
      case False
      with V5 ok have p: "ack_properties_ok uc other" "k \<noteq> 0" by (auto simp: ack_ok_def)
      have "snd (encode_ack_properties other) = None" using p(1) by (simp add: ack_properties_ok_def)
      with V5 False p code decode_ack_properties_wire [OF p(1), of "[]"] encode_ack_properties_nonempty [OF p(1)]
        get_pkid [of k "to_u8 code # enc_bytes (encode_ack_properties other)"]
      show ?thesis
        by (simp add: encode_ack_def decode_ack_def Let_def ack_default)
    qed
  qed
  then show "snd ?e = None" and "decode_ack uc version try_from success (enc_bytes ?e) = Inr ((k, code, other), [])"
    by simp_all
qed

primrec puback_is_success :: "pub_ack_reason_code \<Rightarrow> bool" where
  "puback_is_success PubAckSuccess = True"
| "puback_is_success PubAckNoMatchingSubscribers = True"
| "puback_is_success PubAckUnspecifiedError = False"
| "puback_is_success PubAckImplementationSpecificError = False"
| "puback_is_success PubAckNotAuthorized = False"
| "puback_is_success PubAckTopicNameInvalid = False"
| "puback_is_success PubAckPacketIdentifierInUse = False"
| "puback_is_success PubAckQuotaExceeded = False"
| "puback_is_success PubAckPayloadFormatInvalid = False"

definition puback_decode :: "unicode \<Rightarrow> protocol_version \<Rightarrow> bytes \<Rightarrow> pub_ack dec" where
  "puback_decode uc version src =
     dec_map (\<lambda>(k, c, o1). \<lparr>puback_packet_identifier = k, puback_reason_code = c, puback_other_properties = o1\<rparr>)
       (decode_ack uc version (code_try_from UnrecognizedPubAckReasonCode pub_ack_table) PubAckSuccess src)"

definition puback_encode :: "protocol_version \<Rightarrow> pub_ack \<Rightarrow> enc" where
  "puback_encode version p =
     encode_ack version (code_to_u8 pub_ack_table) PubAckSuccess puback_is_success NegativePubAck
       (puback_packet_identifier p) (puback_reason_code p) (puback_other_properties p)"

definition pubrec_decode :: "unicode \<Rightarrow> protocol_version \<Rightarrow> bytes \<Rightarrow> pub_rec dec" where
  "pubrec_decode uc version src =
     dec_map (\<lambda>(k, c, o1). \<lparr>pubrec_packet_identifier = k, pubrec_reason_code = c, pubrec_other_properties = o1\<rparr>)
       (decode_ack uc version (code_try_from UnrecognizedPubRecReasonCode pub_rec_table) PubRecSuccess src)"

definition pubrec_encode :: "protocol_version \<Rightarrow> pub_rec \<Rightarrow> enc" where
  "pubrec_encode version p =
     encode_ack version (code_to_u8 pub_rec_table) PubRecSuccess pubrec_is_success NegativePubRec
       (pubrec_packet_identifier p) (pubrec_reason_code p) (pubrec_other_properties p)"

definition pubrel_decode :: "unicode \<Rightarrow> protocol_version \<Rightarrow> bytes \<Rightarrow> pub_rel dec" where
  "pubrel_decode uc version src =
     dec_map (\<lambda>(k, c, o1). \<lparr>pubrel_packet_identifier = k, pubrel_reason_code = c, pubrel_other_properties = o1\<rparr>)
       (decode_ack uc version (code_try_from UnrecognizedPubRelReasonCode pub_rel_table) PubRelSuccess src)"

definition pubrel_encode :: "protocol_version \<Rightarrow> pub_rel \<Rightarrow> enc" where
  "pubrel_encode version p =
     encode_ack version (code_to_u8 pub_rel_table) PubRelSuccess (\<lambda>c. c = PubRelSuccess) NegativePubRel
       (pubrel_packet_identifier p) (pubrel_reason_code p) (pubrel_other_properties p)"

definition pubcomp_decode :: "unicode \<Rightarrow> protocol_version \<Rightarrow> bytes \<Rightarrow> pub_comp dec" where
  "pubcomp_decode uc version src =
     dec_map (\<lambda>(k, c, o1). \<lparr>pubcomp_packet_identifier = k, pubcomp_reason_code = c, pubcomp_other_properties = o1\<rparr>)
       (decode_ack uc version (code_try_from UnrecognizedPubCompReasonCode pub_comp_table) PubCompSuccess src)"

definition pubcomp_encode :: "protocol_version \<Rightarrow> pub_comp \<Rightarrow> enc" where
  "pubcomp_encode version p =
     encode_ack version (code_to_u8 pub_comp_table) PubCompSuccess (\<lambda>c. c = PubCompSuccess) NegativePubComp
       (pubcomp_packet_identifier p) (pubcomp_reason_code p) (pubcomp_other_properties p)"

definition puback_ok :: "unicode \<Rightarrow> protocol_version \<Rightarrow> pub_ack \<Rightarrow> bool" where
  "puback_ok uc v p = ack_ok uc v PubAckSuccess (puback_packet_identifier p) (puback_reason_code p) (puback_other_properties p)"

definition pubrec_ok :: "unicode \<Rightarrow> protocol_version \<Rightarrow> pub_rec \<Rightarrow> bool" where
  "pubrec_ok uc v p = ack_ok uc v PubRecSuccess (pubrec_packet_identifier p) (pubrec_reason_code p) (pubrec_other_properties p)"

definition pubrel_ok :: "unicode \<Rightarrow> protocol_version \<Rightarrow> pub_rel \<Rightarrow> bool" where
  "pubrel_ok uc v p = ack_ok uc v PubRelSuccess (pubrel_packet_identifier p) (pubrel_reason_code p) (pubrel_other_properties p)"

definition pubcomp_ok :: "unicode \<Rightarrow> protocol_version \<Rightarrow> pub_comp \<Rightarrow> bool" where
  "pubcomp_ok uc v p = ack_ok uc v PubCompSuccess (pubcomp_packet_identifier p) (pubcomp_reason_code p) (pubcomp_other_properties p)"

lemma puback_roundtrip:
  assumes "puback_ok uc v p"
  shows "snd (puback_encode v p) = None" "puback_decode uc v (enc_bytes (puback_encode v p)) = Inr (p, [])"
  using assms
  by (simp_all add: puback_ok_def puback_encode_def puback_decode_def decode_encode_ack dec_map_def)

lemma pubrec_roundtrip:
  assumes "pubrec_ok uc v p"
  shows "snd (pubrec_encode v p) = None" "pubrec_decode uc v (enc_bytes (pubrec_encode v p)) = Inr (p, [])"
  using assms
  by (simp_all add: pubrec_ok_def pubrec_encode_def pubrec_decode_def decode_encode_ack dec_map_def)

lemma pubrel_roundtrip:
  assumes "pubrel_ok uc v p"
  shows "snd (pubrel_encode v p) = None" "pubrel_decode uc v (enc_bytes (pubrel_encode v p)) = Inr (p, [])"
  using assms
  by (simp_all add: pubrel_ok_def pubrel_encode_def pubrel_decode_def decode_encode_ack dec_map_def)

lemma pubcomp_roundtrip:
  assumes "pubcomp_ok uc v p"
  shows "snd (pubcomp_encode v p) = None" "pubcomp_decode uc v (enc_bytes (pubcomp_encode v p)) = Inr (p, [])"
  using assms
  by (simp_all add: pubcomp_ok_def pubcomp_encode_def pubcomp_decode_def decode_encode_ack dec_map_def)

section \<open>SUBACK and UNSUBACK\<close>

text \<open>Collecting a conversion of every byte stops at the first error.\<close>

fun collect_codes :: "(u8 \<Rightarrow> decode_error + 'c) \<Rightarrow> bytes \<Rightarrow> decode_error + 'c list" where
  "collect_codes f [] = Inr []"
| "collect_codes f (b # bs) = and_then (f b) (\<lambda>c. and_then (collect_codes f bs) (\<lambda>cs. Inr (c # cs)))"

definition subscribe_code_try_from :: "protocol_version \<Rightarrow> u8 \<Rightarrow> decode_error + subscribe_reason_code" where
  "subscribe_code_try_from version code =
     (case version of
        V3 \<Rightarrow> if code = 0x00 then Inr GrantedQoS0
              else if code = 0x01 then Inr GrantedQoS1
              else if code = 0x02 then Inr GrantedQoS2
              else if code = 0x80 then Inr SubUnspecifiedError
              else Inl (UnrecognizedQoS code)
      | V5 \<Rightarrow> code_try_from UnrecognizedSubscribeReasonCode subscribe_table code)"

definition subscribe_code_to_u8 :: "protocol_version \<Rightarrow> subscribe_reason_code \<Rightarrow> u8" where
  "subscribe_code_to_u8 version code =
     (case version of
        V3 \<Rightarrow> if code = GrantedQoS0 then 0x00
              else if code = GrantedQoS1 then 0x01
              else if code = GrantedQoS2 then 0x02
              else 0x80
      | V5 \<Rightarrow> code_to_u8 subscribe_table code)"

definition suback_decode :: "unicode \<Rightarrow> protocol_version \<Rightarrow> bytes \<Rightarrow> sub_ack dec" where
  "suback_decode uc version src =
     and_then (try_get_packet_identifier src) (\<lambda>(packet_identifier, src).
       and_then
         (case version of
            V3 \<Rightarrow> Inr (ack_other_properties_default, src)
          | V5 \<Rightarrow> decode_ack_properties uc src) (\<lambda>(other, src).
         and_then (collect_codes (subscribe_code_try_from version) src) (\<lambda>codes.
           if codes = [] then Inl DecodeNoTopics
           else Inr (\<lparr>suback_packet_identifier = packet_identifier, suback_reason_codes = codes,
                      suback_other_properties = other\<rparr>, drop (length codes) src))))"

definition suback_encode :: "protocol_version \<Rightarrow> sub_ack \<Rightarrow> enc" where
  "suback_encode version p =
     enc_then (put_u16_be (suback_packet_identifier p))
       (enc_then (enc_when (is_v5 version) (encode_ack_properties (suback_other_properties p)))
          (enc_all (map (\<lambda>c. put_u8 (subscribe_code_to_u8 version c)) (suback_reason_codes p))))"

primrec unsuback_is_success :: "unsub_ack_reason_code \<Rightarrow> bool" where
  "unsuback_is_success UnsubSuccess = True"
| "unsuback_is_success UnsubNoSubscriptionExisted = True"
| "unsuback_is_success UnsubUnspecifiedError = False"
| "unsuback_is_success UnsubImplementationSpecificError = False"
| "unsuback_is_success UnsubNotAuthorized = False"
| "unsuback_is_success UnsubTopicFilterInvalid = False"
| "unsuback_is_success UnsubPacketIdentifierInUse = False"

definition unsuback_decode :: "unicode \<Rightarrow> protocol_version \<Rightarrow> bytes \<Rightarrow> unsub_ack dec" where
  "unsuback_decode uc version src =
     and_then (try_get_packet_identifier src) (\<lambda>(packet_identifier, src).
       case version of
         V3 \<Rightarrow> Inr (\<lparr>unsuback_packet_identifier = packet_identifier, unsuback_reason_codes = [],
                      unsuback_other_properties = ack_other_properties_default\<rparr>, src)
       | V5 \<Rightarrow>
           and_then (decode_ack_properties uc src) (\<lambda>(other, src).
             and_then (collect_codes (code_try_from UnrecognizedUnsubAckReasonCode unsub_ack_table) src) (\<lambda>codes.
               if codes = [] then Inl DecodeNoTopics
               else Inr (\<lparr>unsuback_packet_identifier = packet_identifier, unsuback_reason_codes = codes,
                          unsuback_other_properties = other\<rparr>, drop (length codes) src))))"

definition unsuback_encode :: "protocol_version \<Rightarrow> unsub_ack \<Rightarrow> enc" where
  "unsuback_encode version p =
     enc_then (put_u16_be (unsuback_packet_identifier p))
       (case version of
          V3 \<Rightarrow>
            (case find (\<lambda>c. \<not> unsuback_is_success c) (unsuback_reason_codes p) of
               Some reason_code \<Rightarrow> enc_fail (NegativeUnsubAck reason_code)
             | None \<Rightarrow> enc_ok)
        | V5 \<Rightarrow>
            enc_then (encode_ack_properties (unsuback_other_properties p))
              (enc_all (map (\<lambda>c. put_u8 (code_to_u8 unsub_ack_table c)) (unsuback_reason_codes p))))"

definition suback_ok :: "unicode \<Rightarrow> protocol_version \<Rightarrow> sub_ack \<Rightarrow> bool" where
  "suback_ok uc version p \<longleftrightarrow>
     suback_packet_identifier p \<noteq> 0 \<and> suback_reason_codes p \<noteq> [] \<and>
     (case version of
        V3 \<Rightarrow> suback_other_properties p = ack_other_properties_default \<and>
              set (suback_reason_codes p) \<subseteq> {GrantedQoS0, GrantedQoS1, GrantedQoS2, SubUnspecifiedError}
      | V5 \<Rightarrow> ack_properties_ok uc (suback_other_properties p))"

definition unsuback_ok :: "unicode \<Rightarrow> protocol_version \<Rightarrow> unsub_ack \<Rightarrow> bool" where
  "unsuback_ok uc version p \<longleftrightarrow>
     unsuback_packet_identifier p \<noteq> 0 \<and>
     (case version of
        V3 \<Rightarrow> unsuback_other_properties p = ack_other_properties_default \<and> unsuback_reason_codes p = []
      | V5 \<Rightarrow> unsuback_reason_codes p \<noteq> [] \<and> ack_properties_ok uc (unsuback_other_properties p))"

lemma put_codes [simp]:
  "snd (enc_all (map (\<lambda>c. put_u8 (f c)) cs)) = None"
  "enc_bytes (enc_all (map (\<lambda>c. put_u8 (f c)) cs)) = map f cs"
  by (induction cs) simp_all

lemma collect_codes_map: "\<forall>c\<in>set cs. f (g c) = Inr c \<Longrightarrow> collect_codes f (map g cs) = Inr cs"
  by (induction cs) auto

lemma suback_roundtrip:
  assumes "suback_ok uc v p"
  shows "snd (suback_encode v p) = None" and "suback_decode uc v (enc_bytes (suback_encode v p)) = Inr (p, [])"
proof -
  let ?codes = "map (subscribe_code_to_u8 v) (suback_reason_codes p)"
  have "collect_codes (subscribe_code_try_from v) ?codes = Inr (suback_reason_codes p)"
  proof (rule collect_codes_map, rule ballI)
    fix c assume "c \<in> set (suback_reason_codes p)"
    with assms show "subscribe_code_try_from v (subscribe_code_to_u8 v c) = Inr c"
      by (cases v) (auto simp: suback_ok_def subscribe_code_try_from_def subscribe_code_to_u8_def)
  qed
  then have "snd (suback_encode v p) = None \<and> suback_decode uc v (enc_bytes (suback_encode v p)) = Inr (p, [])"
    using assms
  proof (cases v)
    case V3
    with assms \<open>collect_codes _ _ = _\<close> show ?thesis
      by (simp add: suback_ok_def suback_encode_def suback_decode_def is_v5_def get_pkid)
  next
    case V5
    with assms have "ack_properties_ok uc (suback_other_properties p)" by (simp add: suback_ok_def)
    with V5 assms \<open>collect_codes _ _ = _\<close> decode_ack_properties_wire [OF this, of ?codes] show ?thesis
      by (simp add: suback_ok_def suback_encode_def suback_decode_def is_v5_def get_pkid ack_properties_ok_def)
  qed
  then show "snd (suback_encode v p) = None" and "suback_decode uc v (enc_bytes (suback_encode v p)) = Inr (p, [])"
    by simp_all
qed

lemma unsuback_roundtrip:
  assumes "unsuback_ok uc v p"
  shows "snd (unsuback_encode v p) = None" and "unsuback_decode uc v (enc_bytes (unsuback_encode v p)) = Inr (p, [])"
proof -
  let ?codes = "map (code_to_u8 unsub_ack_table) (unsuback_reason_codes p)"
  have codes: "collect_codes (code_try_from UnrecognizedUnsubAckReasonCode unsub_ack_table) ?codes =
      Inr (unsuback_reason_codes p)"
    by (rule collect_codes_map) simp
  have "snd (unsuback_encode v p) = None \<and> unsuback_decode uc v (enc_bytes (unsuback_encode v p)) = Inr (p, [])"
  proof (cases v)
    case V3
    with assms get_pkid [of "unsuback_packet_identifier p" "[]"] show ?thesis
      by (simp add: unsuback_ok_def unsuback_encode_def unsuback_decode_def)
  next
    case V5
    with assms have "ack_properties_ok uc (unsuback_other_properties p)" by (simp add: unsuback_ok_def)
    with V5 assms codes decode_ack_properties_wire [OF this, of ?codes] show ?thesis
      by (simp add: unsuback_ok_def unsuback_encode_def unsuback_decode_def get_pkid ack_properties_ok_def)
  qed
  then show "snd (unsuback_encode v p) = None"
    and "unsuback_decode uc v (enc_bytes (unsuback_encode v p)) = Inr (p, [])"
    by simp_all
qed

end
