(* ===== verification/Message_Codec.thy ===== *)
theory Message_Codec
  imports Ack_Codec
begin

text \<open>
  Encoding and decoding of PUBLISH, SUBSCRIBE and UNSUBSCRIBE: src/src/mqtt_proto/publish.rs,
  subscribe.rs and unsubscribe.rs, with the conversions of src/src/mqtt_proto/publication.rs.
\<close>

unbundle bit_operations_syntax

lemma list_all_map: "(\<And>x. P (c x)) \<Longrightarrow> list_all P (map c xs)"
  by (induction xs) auto

section \<open>PUBLISH\<close>

abbreviation publish_single :: "string list" where
  "publish_single \<equiv> [''PayloadIsUtf8'', ''MessageExpiryInterval'', ''TopicAlias'', ''ResponseTopic'',
     ''CorrelationData'', ''ContentType'']"

abbreviation publish_many :: "string list" where
  "publish_many \<equiv> [''UserProperty'', ''SubscriptionIdentifier'']"

definition decode_publish_properties :: "unicode \<Rightarrow> bytes \<Rightarrow> publish_other_properties dec" where
  "decode_publish_properties uc src =
     and_then (decode_properties uc publish_single publish_many src) (\<lambda>(ps, src).
       Inr (\<lparr>publish_payload_is_utf8 =
               unwrap_or (bound (\<lambda>p. case p of PayloadIsUtf8 b \<Rightarrow> Some b | _ \<Rightarrow> None) ps) False,
             publish_message_expiry_interval =
               bound (\<lambda>p. case p of MessageExpiryInterval v \<Rightarrow> Some v | _ \<Rightarrow> None) ps,
             publish_topic_alias = bound (\<lambda>p. case p of TopicAlias v \<Rightarrow> Some v | _ \<Rightarrow> None) ps,
             publish_response_topic = bound (\<lambda>p. case p of ResponseTopic t \<Rightarrow> Some t | _ \<Rightarrow> None) ps,
             publish_correlation_data = bound (\<lambda>p. case p of CorrelationData d \<Rightarrow> Some d | _ \<Rightarrow> None) ps,
             publish_user_properties = collected get_user_property ps,
             publish_subscription_identifiers =
               collected (\<lambda>p. case p of SubscriptionIdentifier v \<Rightarrow> Some v | _ \<Rightarrow> None) ps,
             publish_content_type = bound (\<lambda>p. case p of ContentType s \<Rightarrow> Some s | _ \<Rightarrow> None) ps\<rparr>, src))"

definition publish_properties :: "publish_other_properties \<Rightarrow> property list" where
  "publish_properties o1 =
     [PayloadIsUtf8 (publish_payload_is_utf8 o1)] @
     opt_prop MessageExpiryInterval (publish_message_expiry_interval o1) @
     opt_prop TopicAlias (publish_topic_alias o1) @
     opt_prop ResponseTopic (publish_response_topic o1) @
     opt_prop CorrelationData (publish_correlation_data o1) @
     user_props (publish_user_properties o1) @
     map SubscriptionIdentifier (publish_subscription_identifiers o1) @
     opt_prop ContentType (publish_content_type o1)"

definition publish_decode :: "unicode \<Rightarrow> protocol_version \<Rightarrow> u8 \<Rightarrow> bytes \<Rightarrow> publish dec" where
  "publish_decode uc version flags src =
     (let dup = (flags AND 0b00001000 \<noteq> 0);
          retain = (flags AND 0b00000001 \<noteq> 0)
      in and_then (required (topic_decode uc src)) (\<lambda>(topic_name, src).
           and_then
             (let q = drop_bit 1 (flags AND 0b00000110)
              in if q = 0x00 then (if dup then Inl PublishDupAtMostOnce else Inr (PdqAtMostOnce, src))
                 else if q = 0x01 then dec_map (\<lambda>k. PdqAtLeastOnce k dup) (try_get_packet_identifier src)
                 else if q = 0x02 then dec_map (\<lambda>k. PdqExactlyOnce k dup) (try_get_packet_identifier src)
                 else Inl (UnrecognizedQoS q))
             (\<lambda>(pdq, src).
                and_then
                  (case version of
                     V3 \<Rightarrow> Inr (publish_other_properties_default, src)
                   | V5 \<Rightarrow> decode_publish_properties uc src)
                  (\<lambda>(other, src).
                     Inr (\<lparr>publish_topic_name = topic_name, packet_identifier_dup_qos = pdq,
                           publish_retain = retain, publish_payload = src,
                           publish_other_properties = other\<rparr>, [])))))"

definition publish_encode :: "protocol_version \<Rightarrow> publish \<Rightarrow> enc" where
  "publish_encode version p =
     enc_then (topic_encode (publish_topic_name p))
       (enc_then
          (case packet_identifier_dup_qos p of
             PdqAtMostOnce \<Rightarrow> enc_ok
           | PdqAtLeastOnce k _ \<Rightarrow> put_u16_be k
           | PdqExactlyOnce k _ \<Rightarrow> put_u16_be k)
          (enc_then
             (enc_when (is_v5 version) (encode_all (publish_properties (publish_other_properties p))))
             (put_shared (publish_payload p))))"

text \<open>The flags of the fixed header, of \<open>PacketRef::encode\<close>.\<close>

definition publish_flags :: "publish \<Rightarrow> u8" where
  "publish_flags p =
     (case packet_identifier_dup_qos p of
        PdqAtMostOnce \<Rightarrow> 0b0000
      | PdqAtLeastOnce _ dup \<Rightarrow> if dup then 0b1010 else 0b0010
      | PdqExactlyOnce _ dup \<Rightarrow> if dup then 0b1100 else 0b0100)
     OR (if publish_retain p then 0b0001 else 0)"

text \<open>The conversions between a publication and a PUBLISH packet.\<close>

definition publish_properties_from :: "publication_other_properties \<Rightarrow> publish_other_properties" where
  "publish_properties_from props =
     publish_other_properties_default
       \<lparr>publish_payload_is_utf8 := publication_payload_is_utf8 props,
        publish_message_expiry_interval := publication_message_expiry_interval props,
        publish_response_topic := publication_response_topic props,
        publish_correlation_data := publication_correlation_data props,
        publish_user_properties := publication_user_properties props,
        publish_content_type := publication_content_type props\<rparr>"

definition publication_properties_from :: "publish_other_properties \<Rightarrow> publication_other_properties" where
  "publication_properties_from props =
     \<lparr>publication_payload_is_utf8 = publish_payload_is_utf8 props,
      publication_message_expiry_interval = publish_message_expiry_interval props,
      publication_response_topic = publish_response_topic props,
      publication_correlation_data = publish_correlation_data props,
      publication_user_properties = publish_user_properties props,
      publication_content_type = publish_content_type props\<rparr>"

definition publication_from :: "publish \<Rightarrow> publication" where
  "publication_from p =
     \<lparr>publication_topic_name = publish_topic_name p, publication_qos = pdq_qos (packet_identifier_dup_qos p),
      publication_retain = publish_retain p, publication_payload = publish_payload p,
      publication_other_properties = publication_properties_from (publish_other_properties p)\<rparr>"

definition publish_from :: "publication \<Rightarrow> packet_identifier_dup_qos \<Rightarrow> publish" where
  "publish_from p pdq =
     \<lparr>publish_topic_name = publication_topic_name p, packet_identifier_dup_qos = pdq,
      publish_retain = publication_retain p, publish_payload = publication_payload p,
      publish_other_properties = publish_properties_from (publication_other_properties p)\<rparr>"

definition publish_from_publication :: "publication \<Rightarrow> publish" where
  "publish_from_publication p =
     publish_from p
       (case publication_qos p of
          AtMostOnce \<Rightarrow> PdqAtMostOnce
        | AtLeastOnce \<Rightarrow> PdqAtLeastOnce 1 False
        | ExactlyOnce \<Rightarrow> PdqExactlyOnce 1 False)"

lemma publication_roundtrip [roundtrip]: "publication_from (publish_from_publication p) = p"
  by (cases p) (simp add: publication_from_def publish_from_publication_def publish_from_def
      publication_properties_from_def publish_properties_from_def pdq_qos_def split: qos.split)

fun pdq_ok :: "packet_identifier_dup_qos \<Rightarrow> bool" where
  "pdq_ok PdqAtMostOnce = True"
| "pdq_ok (PdqAtLeastOnce k _) = (k \<noteq> 0)"
| "pdq_ok (PdqExactlyOnce k _) = (k \<noteq> 0)"

definition publish_ok :: "unicode \<Rightarrow> protocol_version \<Rightarrow> publish \<Rightarrow> bool" where
  "publish_ok uc version p \<longleftrightarrow>
     topic_ok uc (publish_topic_name p) \<and> pdq_ok (packet_identifier_dup_qos p) \<and>
     (case version of
        V3 \<Rightarrow> publish_other_properties p = publish_other_properties_default
      | V5 \<Rightarrow> list_all (property_ok uc) (publish_properties (publish_other_properties p)) \<and>
              snd (encode_all (publish_properties (publish_other_properties p))) = None)"

lemma decode_publish_properties_wire [roundtrip]:
  assumes "list_all (property_ok uc) (publish_properties o1)" and "snd (encode_all (publish_properties o1)) = None"
  shows "decode_publish_properties uc (enc_bytes (encode_all (publish_properties o1)) @ r) = Inr (o1, r)"
proof -
  let ?gs = "[(''PayloadIsUtf8'', [PayloadIsUtf8 (publish_payload_is_utf8 o1)]),
     (''MessageExpiryInterval'', opt_prop MessageExpiryInterval (publish_message_expiry_interval o1)),
     (''TopicAlias'', opt_prop TopicAlias (publish_topic_alias o1)),
     (''ResponseTopic'', opt_prop ResponseTopic (publish_response_topic o1)),
     (''CorrelationData'', opt_prop CorrelationData (publish_correlation_data o1)),
     (''UserProperty'', user_props (publish_user_properties o1)),
     (''SubscriptionIdentifier'', map SubscriptionIdentifier (publish_subscription_identifiers o1)),
     (''ContentType'', opt_prop ContentType (publish_content_type o1))]"
  have gs: "publish_properties o1 = concat (map snd ?gs)" by (simp add: publish_properties_def)
  have "groups_ok publish_single publish_many ?gs"
    by (simp add: groups_ok_def list_all_map split: option.split)
  note dec = decode_properties_wire [OF gs this assms, of r]
  show ?thesis
    unfolding decode_publish_properties_def dec
    by (cases o1) (simp add: publish_properties_def bound_simps collect_simps wired_map)
qed

lemma publish_roundtrip:
  assumes "publish_ok uc v p"
  shows "snd (publish_encode v p) = None"
    and "publish_decode uc v (publish_flags p) (enc_bytes (publish_encode v p)) = Inr (p, [])"
proof -
  show none: "snd (publish_encode v p) = None"
    using assms
    by (cases v) (auto simp: publish_encode_def publish_ok_def is_v5_def split: packet_identifier_dup_qos.split)
  obtain t pdq rt pl o1 where p: "p = \<lparr>publish_topic_name = t, packet_identifier_dup_qos = pdq,
      publish_retain = rt, publish_payload = pl, publish_other_properties = o1\<rparr>" by (cases p)
  let ?tail = "enc_bytes (enc_when (is_v5 v) (encode_all (publish_properties o1))) @ pl"
  have other: "(case v of V3 \<Rightarrow> Inr (publish_other_properties_default, ?tail)
      | V5 \<Rightarrow> decode_publish_properties uc ?tail) = Inr (o1, pl)"
    using assms by (cases v) (auto simp: publish_ok_def p is_v5_def decode_publish_properties_wire)
  have "topic_ok uc t" and k: "pdq_ok pdq" using assms by (auto simp: publish_ok_def p)
  note topic = topic_decode_wire [OF this(1)]
  have enc: "enc_bytes (publish_encode v p) = str_wire (topic_inner t) @
      (case pdq of PdqAtMostOnce \<Rightarrow> [] | PdqAtLeastOnce k _ \<Rightarrow> be16 k | PdqExactlyOnce k _ \<Rightarrow> be16 k) @ ?tail"
    using none by (cases pdq) (auto simp: publish_encode_def p)
  show "publish_decode uc v (publish_flags p) (enc_bytes (publish_encode v p)) = Inr (p, [])"
    using k other unfolding enc
    by (cases pdq; cases rt) (auto simp: publish_decode_def required_def topic p publish_flags_def dec_map_def get_pkid Let_def)
qed

section \<open>SUBSCRIBE\<close>

definition subscribe_options_default :: subscribe_options_other_properties where
  "subscribe_options_default = \<lparr>no_local = False, retain_as_published = True, retain_handling = Send\<rparr>"

definition options_decode :: "protocol_version \<Rightarrow> bytes \<Rightarrow> subscribe_options dec" where
  "options_decode version src =
     (case version of
        V3 \<Rightarrow>
          and_then (try_get_u8 src) (\<lambda>(q, src).
            and_then
              (if q = 0x00 then Inr AtMostOnce
               else if q = 0x01 then Inr AtLeastOnce
               else if q = 0x02 then Inr ExactlyOnce
               else Inl (UnrecognizedQoS q)) (\<lambda>maximum_qos.
              Inr (\<lparr>maximum_qos = maximum_qos, options_other_properties = subscribe_options_default\<rparr>, src)))
      | V5 \<Rightarrow>
          and_then (try_get_u8 src) (\<lambda>(options, src).
            and_then (code_try_from UnrecognizedQoS qos_table (options AND 0b00000011)) (\<lambda>maximum_qos.
              and_then (code_try_from UnrecognizedRetainHandling retain_handling_table
                  (drop_bit 4 (options AND 0b00110000))) (\<lambda>retain_handling.
                if options AND 0b11000000 \<noteq> 0 then Inl SubscriptionOptionsReservedSet
                else Inr (\<lparr>maximum_qos = maximum_qos,
                     options_other_properties =
                       \<lparr>no_local = (options AND 0b00000100 \<noteq> 0),
                        retain_as_published = (options AND 0b00001000 \<noteq> 0),
                        retain_handling = retain_handling\<rparr>\<rparr>, src)))))"

definition subscribe_options_byte :: "subscribe_options \<Rightarrow> u8" where
  "subscribe_options_byte o1 =
     code_to_u8 qos_table (maximum_qos o1)
     OR (if no_local (options_other_properties o1) then 0b00000100 else 0)
     OR (if retain_as_published (options_other_properties o1) then 0b00001000 else 0)
     OR push_bit 4 (code_to_u8 retain_handling_table (retain_handling (options_other_properties o1)))"

definition options_encode :: "protocol_version \<Rightarrow> subscribe_options \<Rightarrow> enc" where
  "options_encode version o1 =
     (case version of
        V3 \<Rightarrow> put_u8 (code_to_u8 qos_table (maximum_qos o1))
      | V5 \<Rightarrow> put_u8 (subscribe_options_byte o1))"

definition subscribe_to_decode :: "unicode \<Rightarrow> protocol_version \<Rightarrow> bytes \<Rightarrow> subscribe_to dec" where
  "subscribe_to_decode uc version src =
     and_then (required (filter_decode uc src)) (\<lambda>(f, src).
       and_then (options_decode version src) (\<lambda>(o1, src).
         if filter_is_shared f \<and> no_local (options_other_properties o1) then Inl NoLocalWithSharedSubscription
         else Inr (\<lparr>topic_filter = f, options = o1\<rparr>, src)))"

definition subscribe_to_encode :: "protocol_version \<Rightarrow> subscribe_to \<Rightarrow> enc" where
  "subscribe_to_encode version s = enc_then (filter_encode (topic_filter s)) (options_encode version (options s))"

definition subscribe_properties :: "subscribe_other_properties \<Rightarrow> property list" where
  "subscribe_properties o1 =
     opt_prop SubscriptionIdentifier (subscription_identifier o1) @ user_props (subscribe_user_properties o1)"

definition subscribe_properties_decode ::
  "unicode \<Rightarrow> protocol_version \<Rightarrow> bytes \<Rightarrow> subscribe_other_properties dec"
where
  "subscribe_properties_decode uc version src =
     (case version of
        V3 \<Rightarrow> Inr (\<lparr>subscription_identifier = None, subscribe_user_properties = []\<rparr>, src)
      | V5 \<Rightarrow>
          and_then (decode_properties uc [''SubscriptionIdentifier''] [''UserProperty''] src) (\<lambda>(ps, src).
            Inr (\<lparr>subscription_identifier =
                    bound (\<lambda>p. case p of SubscriptionIdentifier v \<Rightarrow> Some v | _ \<Rightarrow> None) ps,
                  subscribe_user_properties = collected get_user_property ps\<rparr>, src)))"

definition subscribe_properties_encode :: "protocol_version \<Rightarrow> subscribe_other_properties \<Rightarrow> enc" where
  "subscribe_properties_encode version o1 = enc_when (is_v5 version) (encode_all (subscribe_properties o1))"

lemma options_decode_length: "options_decode v src = Inr (x, r) \<Longrightarrow> length r < length src"
  by (cases v; cases src) (auto simp: options_decode_def and_then_eq_Inr split: if_splits)

lemma subscribe_to_decode_length:
  assumes "subscribe_to_decode uc v src = Inr (x, r)"
  shows "length r < length src"
proof -
  obtain f s o1 where "filter_decode uc src = Inr (Some (f, s))" "options_decode v s = Inr (o1, r)"
    using assms by (auto simp: subscribe_to_decode_def and_then_eq_Inr required_Inr split: if_splits)
  with filter_decode_ok options_decode_length show ?thesis by (meson less_trans)
qed

text \<open>The loop over the rest of the packet.\<close>

function subscribe_to_loop :: "unicode \<Rightarrow> protocol_version \<Rightarrow> bytes \<Rightarrow> decode_error + subscribe_to list" where
  "subscribe_to_loop uc version src =
     (if src = [] then Inr []
      else case subscribe_to_decode uc version src of
        Inl e \<Rightarrow> Inl e
      | Inr (s, src') \<Rightarrow> and_then (subscribe_to_loop uc version src') (\<lambda>ss. Inr (s # ss)))"
  by pat_completeness auto
termination
  by (relation "measure (\<lambda>(_, _, src). length src)") (auto dest: subscribe_to_decode_length sym)

declare subscribe_to_loop.simps [simp del]

definition subscribe_decode :: "unicode \<Rightarrow> protocol_version \<Rightarrow> bytes \<Rightarrow> subscribe dec" where
  "subscribe_decode uc version src =
     and_then (try_get_packet_identifier src) (\<lambda>(packet_identifier, src).
       and_then (subscribe_properties_decode uc version src) (\<lambda>(other, src).
         and_then (subscribe_to_loop uc version src) (\<lambda>tos.
           if tos = [] then Inl DecodeNoTopics
           else Inr (\<lparr>subscribe_packet_identifier = packet_identifier, subscribe_to_list = tos,
                      subscribe_other_properties = other\<rparr>, []))))"

definition subscribe_encode :: "protocol_version \<Rightarrow> subscribe \<Rightarrow> enc" where
  "subscribe_encode version p =
     enc_then (put_u16_be (subscribe_packet_identifier p))
       (enc_then (subscribe_properties_encode version (subscribe_other_properties p))
          (if subscribe_to_list p = [] then enc_fail EncodeNoTopics
           else enc_all (map (subscribe_to_encode version) (subscribe_to_list p))))"

definition options_ok :: "protocol_version \<Rightarrow> subscribe_to \<Rightarrow> bool" where
  "options_ok version s \<longleftrightarrow>
     \<not> (filter_is_shared (topic_filter s) \<and> no_local (options_other_properties (options s))) \<and>
     (version = V3 \<longrightarrow> options_other_properties (options s) = subscribe_options_default)"

definition subscribe_ok :: "unicode \<Rightarrow> protocol_version \<Rightarrow> subscribe \<Rightarrow> bool" where
  "subscribe_ok uc version p \<longleftrightarrow>
     subscribe_packet_identifier p \<noteq> 0 \<and> subscribe_to_list p \<noteq> [] \<and>
     list_all (\<lambda>s. filter_ok uc (topic_filter s) \<and> options_ok version s) (subscribe_to_list p) \<and>
     (case version of
        V3 \<Rightarrow> subscribe_other_properties p = \<lparr>subscription_identifier = None, subscribe_user_properties = []\<rparr>
      | V5 \<Rightarrow> list_all (property_ok uc) (subscribe_properties (subscribe_other_properties p)) \<and>
              snd (encode_all (subscribe_properties (subscribe_other_properties p))) = None)"

lemma options_encode_simps [simp]:
  "snd (options_encode v o1) = None"
  "enc_bytes (options_encode v o1) =
     [case v of V3 \<Rightarrow> code_to_u8 qos_table (maximum_qos o1) | V5 \<Rightarrow> subscribe_options_byte o1]"
  by (cases v; simp add: options_encode_def)+

lemma subscribe_options_byte_decode:
  "options_decode V5 (subscribe_options_byte o1 # r) = Inr (o1, r)"
proof -
  obtain q nl rap rh where o1: "o1 = \<lparr>maximum_qos = q,
      options_other_properties = \<lparr>no_local = nl, retain_as_published = rap, retain_handling = rh\<rparr>\<rparr>"
    by (metis subscribe_options.cases subscribe_options_other_properties.cases)
  show ?thesis unfolding o1
    by (cases q; cases rh; cases nl; cases rap)
      (simp_all add: options_decode_def subscribe_options_byte_def qos_table_def retain_handling_table_def
        code_to_u8_def code_try_from_def)
qed

lemma options_decode_wire:
  assumes "options_ok v s"
  shows "options_decode v ((case v of V3 \<Rightarrow> code_to_u8 qos_table (maximum_qos (options s))
      | V5 \<Rightarrow> subscribe_options_byte (options s)) # r) = Inr (options s, r)"
proof (cases v)
  case V3
  obtain q o2 where s: "options s = \<lparr>maximum_qos = q, options_other_properties = o2\<rparr>"
    by (cases "options s")
  with assms V3 show ?thesis
    by (cases q) (simp_all add: options_decode_def options_ok_def qos_table_def code_to_u8_def)
qed (simp add: subscribe_options_byte_decode)

lemma subscribe_to_decode_wire [roundtrip]:
  assumes "filter_ok uc (topic_filter s)" and "options_ok v s"
  shows "subscribe_to_decode uc v (enc_bytes (subscribe_to_encode v s) @ r) = Inr (s, r)"
  using options_decode_wire [OF assms(2)] assms
  by (auto simp: subscribe_to_decode_def subscribe_to_encode_def required_def filter_decode_wire options_ok_def)

lemma subscribe_to_encode_simps [simp]:
  "snd (subscribe_to_encode v s) = None" "enc_bytes (subscribe_to_encode v s) \<noteq> []"
  by (simp_all add: subscribe_to_encode_def)

lemma subscribe_to_loop_wire [roundtrip]:
  "list_all (\<lambda>s. filter_ok uc (topic_filter s) \<and> options_ok v s) ss \<Longrightarrow>
     subscribe_to_loop uc v (concat (map (\<lambda>s. enc_bytes (subscribe_to_encode v s)) ss)) = Inr ss"
proof (induction ss)
  case (Cons s ss)
  then show ?case by (subst subscribe_to_loop.simps) (simp add: subscribe_to_decode_wire)
qed (simp add: subscribe_to_loop.simps)

lemma subscribe_properties_wire [roundtrip]:
  assumes "case v of
        V3 \<Rightarrow> o1 = \<lparr>subscription_identifier = None, subscribe_user_properties = []\<rparr>
      | V5 \<Rightarrow> list_all (property_ok uc) (subscribe_properties o1) \<and> snd (encode_all (subscribe_properties o1)) = None"
  shows "snd (subscribe_properties_encode v o1) = None"
    and "subscribe_properties_decode uc v (enc_bytes (subscribe_properties_encode v o1) @ r) = Inr (o1, r)"
proof (atomize (full), cases v)
  case V3
  with assms show "snd (subscribe_properties_encode v o1) = None \<and>
      subscribe_properties_decode uc v (enc_bytes (subscribe_properties_encode v o1) @ r) = Inr (o1, r)"
    by (simp add: subscribe_properties_encode_def subscribe_properties_decode_def is_v5_def)
next
  case V5
  let ?gs = "[(''SubscriptionIdentifier'', opt_prop SubscriptionIdentifier (subscription_identifier o1)),
              (''UserProperty'', user_props (subscribe_user_properties o1))]"
  have gs: "subscribe_properties o1 = concat (map snd ?gs)" by (simp add: subscribe_properties_def)
  have "groups_ok [''SubscriptionIdentifier''] [''UserProperty''] ?gs"
    by (simp add: groups_ok_def split: option.split)
  note dec = decode_properties_wire [OF gs this, of uc r]
  with V5 assms show "snd (subscribe_properties_encode v o1) = None \<and>
      subscribe_properties_decode uc v (enc_bytes (subscribe_properties_encode v o1) @ r) = Inr (o1, r)"
    by (simp add: subscribe_properties_encode_def subscribe_properties_decode_def is_v5_def)
      (simp add: subscribe_properties_def bound_simps collect_simps)
qed

lemma subscribe_roundtrip:
  assumes "subscribe_ok uc v p"
  shows "snd (subscribe_encode v p) = None" and "subscribe_decode uc v (enc_bytes (subscribe_encode v p)) = Inr (p, [])"
proof -
  let ?to = "concat (map (\<lambda>s. enc_bytes (subscribe_to_encode v s)) (subscribe_to_list p))"
  have tos: "snd (enc_all (map (subscribe_to_encode v) (subscribe_to_list p))) = None"
    by (simp add: enc_all_None list_all_iff)
  then have to_bytes: "enc_bytes (enc_all (map (subscribe_to_encode v) (subscribe_to_list p))) = ?to"
    by (simp add: enc_all_bytes o_def)
  have "snd (subscribe_properties_encode v (subscribe_other_properties p)) = None"
      "subscribe_properties_decode uc v
        (enc_bytes (subscribe_properties_encode v (subscribe_other_properties p)) @ ?to) =
        Inr (subscribe_other_properties p, ?to)"
    using subscribe_properties_wire [where v = v and uc = uc and ?o1.0 = "subscribe_other_properties p"] assms
    by (auto simp: subscribe_ok_def split: protocol_version.splits)
  with assms tos to_bytes
  show "snd (subscribe_encode v p) = None" and "subscribe_decode uc v (enc_bytes (subscribe_encode v p)) = Inr (p, [])"
    by (simp_all add: subscribe_ok_def subscribe_encode_def subscribe_decode_def get_pkid subscribe_to_loop_wire)
qed

section \<open>UNSUBSCRIBE\<close>

lemma required_filter_length: "required (filter_decode uc src) = Inr (f, r) \<Longrightarrow> length r < length src"
  by (simp add: required_Inr filter_decode_ok)

function filter_loop :: "unicode \<Rightarrow> bytes \<Rightarrow> decode_error + byte_str filter list" where
  "filter_loop uc src =
     (if src = [] then Inr []
      else case required (filter_decode uc src) of
        Inl e \<Rightarrow> Inl e
      | Inr (f, src') \<Rightarrow> and_then (filter_loop uc src') (\<lambda>fs. Inr (f # fs)))"
  by pat_completeness auto
termination
  by (relation "measure (\<lambda>(_, src). length src)") (auto dest: required_filter_length sym)

declare filter_loop.simps [simp del]

definition unsubscribe_decode :: "unicode \<Rightarrow> protocol_version \<Rightarrow> bytes \<Rightarrow> unsubscribe dec" where
  "unsubscribe_decode uc version src =
     and_then (try_get_packet_identifier src) (\<lambda>(packet_identifier, src).
       and_then
         (case version of
            V3 \<Rightarrow> Inr ([], src)
          | V5 \<Rightarrow> dec_map (collected get_user_property) (decode_properties uc [] [''UserProperty''] src))
         (\<lambda>(users, src).
            and_then (filter_loop uc src) (\<lambda>fs.
              if fs = [] then Inl DecodeNoTopics
              else Inr (\<lparr>unsubscribe_packet_identifier = packet_identifier, unsubscribe_from = fs,
                         unsubscribe_user_properties = users\<rparr>, []))))"

definition unsubscribe_encode :: "protocol_version \<Rightarrow> unsubscribe \<Rightarrow> enc" where
  "unsubscribe_encode version p =
     enc_then (put_u16_be (unsubscribe_packet_identifier p))
       (enc_then (enc_when (is_v5 version) (encode_all (user_props (unsubscribe_user_properties p))))
          (if unsubscribe_from p = [] then enc_fail EncodeNoTopics
           else enc_all (map filter_encode (unsubscribe_from p))))"

definition unsubscribe_ok :: "unicode \<Rightarrow> protocol_version \<Rightarrow> unsubscribe \<Rightarrow> bool" where
  "unsubscribe_ok uc version p \<longleftrightarrow>
     unsubscribe_packet_identifier p \<noteq> 0 \<and> unsubscribe_from p \<noteq> [] \<and>
     list_all (filter_ok uc) (unsubscribe_from p) \<and>
     (case version of
        V3 \<Rightarrow> unsubscribe_user_properties p = []
      | V5 \<Rightarrow> list_all (property_ok uc) (user_props (unsubscribe_user_properties p)) \<and>
              snd (encode_all (user_props (unsubscribe_user_properties p))) = None)"

lemma filter_wire_nonempty: "filter_ok uc f \<Longrightarrow> str_wire (filter_inner f) \<noteq> []"
  by (auto simp: filter_ok_def str_ok_def elim!: binary_okE)

lemma filter_loop_wire [roundtrip]:
  "list_all (filter_ok uc) fs \<Longrightarrow> filter_loop uc (concat (map (\<lambda>f. str_wire (filter_inner f)) fs)) = Inr fs"
proof (induction fs)
  case (Cons f fs)
  with filter_wire_nonempty [of uc f] show ?case
    by (subst filter_loop.simps) (simp add: filter_decode_wire required_def)
qed (simp add: filter_loop.simps)

lemma unsubscribe_roundtrip:
  assumes "unsubscribe_ok uc v p"
  shows "snd (unsubscribe_encode v p) = None"
    and "unsubscribe_decode uc v (enc_bytes (unsubscribe_encode v p)) = Inr (p, [])"
proof -
  let ?fs = "concat (map (\<lambda>f. str_wire (filter_inner f)) (unsubscribe_from p))"
  let ?us = "user_props (unsubscribe_user_properties p)"
  have fs: "snd (enc_all (map filter_encode (unsubscribe_from p))) = None"
    by (simp add: enc_all_None list_all_iff)
  then have fb: "enc_bytes (enc_all (map filter_encode (unsubscribe_from p))) = ?fs"
    by (simp add: enc_all_bytes o_def)
  have props: "decode_properties uc [] [''UserProperty''] (enc_bytes (encode_all ?us) @ ?fs) = Inr (?us, ?fs)"
    if "v = V5"
  proof -
    have 1: "?us = concat (map snd [(''UserProperty'', ?us)])" by simp
    have 2: "groups_ok [] [''UserProperty''] [(''UserProperty'', ?us)]" by (simp add: groups_ok_def)
    have 3: "list_all (property_ok uc) ?us" "snd (encode_all ?us) = None"
      using assms that unfolding unsubscribe_ok_def by simp_all
    show ?thesis using decode_properties_wire [OF 1 2 3, of ?fs] by simp
  qed
  have v3: "v = V3 \<Longrightarrow> unsubscribe_user_properties p = []" using assms by (simp add: unsubscribe_ok_def)
  have none: "snd (unsubscribe_encode v p) = None"
    using assms fs by (cases v) (auto simp: unsubscribe_ok_def unsubscribe_encode_def is_v5_def)
  moreover have "unsubscribe_decode uc v (enc_bytes (unsubscribe_encode v p)) = Inr (p, [])"
    using assms fs fb props v3 none
    by (cases v) (simp_all add: unsubscribe_ok_def unsubscribe_encode_def unsubscribe_decode_def is_v5_def get_pkid
        filter_loop_wire dec_map_def collected_user_same)
  ultimately show "snd (unsubscribe_encode v p) = None"
    and "unsubscribe_decode uc v (enc_bytes (unsubscribe_encode v p)) = Inr (p, [])" by simp_all
qed

end
