(* ===== verification/Connection_Codec.thy ===== *)
theory Connection_Codec
  imports Message_Codec
begin

text \<open>
  Encoding and decoding of AUTH, DISCONNECT and CONNACK: src/src/mqtt_proto/auth.rs, disconnect.rs
  and connack.rs, with \<open>Authentication\<close> of src/src/mqtt_proto.rs.
\<close>

unbundle bit_operations_syntax

section \<open>Authentication\<close>

definition authentication_of ::
  "byte_str option \<Rightarrow> binary_data option \<Rightarrow> decode_error + authentication option"
where
  "authentication_of m d =
     (case (m, d) of
        (Some s, data) \<Rightarrow> Inr (Some \<lparr>authentication_method = s, authentication_data = data\<rparr>)
      | (None, Some _) \<Rightarrow> Inl (MissingRequiredProperty ''authentication method'')
      | (None, None) \<Rightarrow> Inr None)"

definition authentication_into_parts :: "authentication option \<Rightarrow> byte_str option \<times> binary_data option" where
  "authentication_into_parts this =
     (case this of
        Some a \<Rightarrow> (Some (authentication_method a), authentication_data a)
      | None \<Rightarrow> (None, None))"

lemma authentication_of_parts [simp, roundtrip]:
  "authentication_of (fst (authentication_into_parts a)) (snd (authentication_into_parts a)) = Inr a"
  by (auto simp: authentication_of_def authentication_into_parts_def split: option.split)

abbreviation get_auth_method :: "property \<Rightarrow> byte_str option" where
  "get_auth_method p \<equiv> (case p of AuthenticationMethod s \<Rightarrow> Some s | _ \<Rightarrow> None)"

abbreviation get_auth_data :: "property \<Rightarrow> binary_data option" where
  "get_auth_data p \<equiv> (case p of AuthenticationData d \<Rightarrow> Some d | _ \<Rightarrow> None)"

section \<open>AUTH\<close>

abbreviation auth_single :: "string list" where
  "auth_single \<equiv> [''AuthenticationMethod'', ''AuthenticationData'', ''ReasonString'']"

definition auth_decode :: "unicode \<Rightarrow> protocol_version \<Rightarrow> u8 \<Rightarrow> bytes \<Rightarrow> auth dec" where
  "auth_decode uc version flags src =
     (case version of
        V3 \<Rightarrow> Inl (UnrecognizedPacket 0xF0 flags (length src))
      | V5 \<Rightarrow>
          (case try_get_u8 src of
             Inr (reason_code, src) \<Rightarrow>
               and_then (code_try_from UnrecognizedAuthenticateReasonCode authenticate_table reason_code) (\<lambda>reason_code.
                 and_then (decode_properties uc auth_single [''UserProperty''] src) (\<lambda>(ps, src).
                   and_then (authentication_of (bound get_auth_method ps) (bound get_auth_data ps)) (\<lambda>authentication.
                     Inr (\<lparr>auth_reason_code = reason_code, auth_authentication = authentication,
                           auth_reason_string = bound get_reason_string ps,
                           auth_user_properties = collected get_user_property ps\<rparr>, src))))
           | Inl IncompletePacket \<Rightarrow>
               Inr (\<lparr>auth_reason_code = AuthSuccess, auth_authentication = None, auth_reason_string = None,
                     auth_user_properties = []\<rparr>, src)
           | Inl err \<Rightarrow> Inl err))"

definition auth_properties :: "auth \<Rightarrow> property list" where
  "auth_properties p =
     opt_prop AuthenticationMethod (fst (authentication_into_parts (auth_authentication p))) @
     opt_prop AuthenticationData (snd (authentication_into_parts (auth_authentication p))) @
     opt_prop ReasonString (auth_reason_string p) @
     user_props (auth_user_properties p)"

definition auth_encode :: "protocol_version \<Rightarrow> auth \<Rightarrow> enc" where
  "auth_encode version p =
     (case version of
        V3 \<Rightarrow> enc_fail Unreachable
      | V5 \<Rightarrow> enc_then (put_u8 (code_to_u8 authenticate_table (auth_reason_code p))) (encode_all (auth_properties p)))"

definition auth_ok :: "unicode \<Rightarrow> protocol_version \<Rightarrow> auth \<Rightarrow> bool" where
  "auth_ok uc version p \<longleftrightarrow>
     version = V5 \<and> list_all (property_ok uc) (auth_properties p) \<and> snd (encode_all (auth_properties p)) = None"

lemma auth_roundtrip:
  assumes "auth_ok uc v p"
  shows "snd (auth_encode v p) = None" and "auth_decode uc v flags (enc_bytes (auth_encode v p)) = Inr (p, [])"
proof -
  let ?m = "fst (authentication_into_parts (auth_authentication p))"
  let ?d = "snd (authentication_into_parts (auth_authentication p))"
  let ?gs = "[(''AuthenticationMethod'', opt_prop AuthenticationMethod ?m),
              (''AuthenticationData'', opt_prop AuthenticationData ?d),
              (''ReasonString'', opt_prop ReasonString (auth_reason_string p)),
              (''UserProperty'', user_props (auth_user_properties p))]"
  have ok: "v = V5" "list_all (property_ok uc) (auth_properties p)" "snd (encode_all (auth_properties p)) = None"
    using assms by (simp_all add: auth_ok_def)
  have gs: "auth_properties p = concat (map snd ?gs)" by (simp add: auth_properties_def)
  have "groups_ok auth_single [''UserProperty''] ?gs" by (simp add: groups_ok_def split: option.split)
  note dec = decode_properties_wire [OF gs this ok(2,3), of "[]"]
  show none: "snd (auth_encode v p) = None" using ok by (simp add: auth_encode_def)
  show "auth_decode uc v flags (enc_bytes (auth_encode v p)) = Inr (p, [])"
    using ok dec none
    by (cases p) (simp add: auth_encode_def auth_decode_def auth_properties_def bound_simps collect_simps)
qed

section \<open>DISCONNECT\<close>

definition disconnect_other_properties_default :: disconnect_other_properties where
  "disconnect_other_properties_default =
     \<lparr>disconnect_session_expiry_interval = None, disconnect_reason_string = None,
      disconnect_user_properties = [], disconnect_server_reference = None\<rparr>"

abbreviation get_session_expiry :: "property \<Rightarrow> session_expiry_interval option" where
  "get_session_expiry p \<equiv> (case p of SessionExpiryInterval i \<Rightarrow> Some i | _ \<Rightarrow> None)"

abbreviation get_server_reference :: "property \<Rightarrow> byte_str option" where
  "get_server_reference p \<equiv> (case p of ServerReference s \<Rightarrow> Some s | _ \<Rightarrow> None)"

abbreviation disconnect_single :: "string list" where
  "disconnect_single \<equiv> [''SessionExpiryInterval'', ''ReasonString'', ''ServerReference'']"

definition disconnect_decode :: "unicode \<Rightarrow> protocol_version \<Rightarrow> bytes \<Rightarrow> disconnect dec" where
  "disconnect_decode uc version src =
     (case version of
        V3 \<Rightarrow> Inr (\<lparr>disconnect_reason_code = DisconnectNormal,
                    disconnect_other_properties = disconnect_other_properties_default\<rparr>, src)
      | V5 \<Rightarrow>
          (case try_get_u8 src of
             Inr (reason_code, src) \<Rightarrow>
               and_then (code_try_from UnrecognizedDisconnectReasonCode disconnect_table reason_code) (\<lambda>reason_code.
                 and_then
                   (if length src \<ge> 1 then
                      and_then (decode_properties uc disconnect_single [''UserProperty''] src) (\<lambda>(ps, src).
                        Inr (\<lparr>disconnect_session_expiry_interval = bound get_session_expiry ps,
                              disconnect_reason_string = bound get_reason_string ps,
                              disconnect_user_properties = collected get_user_property ps,
                              disconnect_server_reference = bound get_server_reference ps\<rparr>, src))
                    else Inr (disconnect_other_properties_default, src))
                   (\<lambda>(other, src).
                      Inr (\<lparr>disconnect_reason_code = reason_code, disconnect_other_properties = other\<rparr>, src)))
           | Inl IncompletePacket \<Rightarrow>
               Inr (\<lparr>disconnect_reason_code = DisconnectNormal,
                     disconnect_other_properties = disconnect_other_properties_default\<rparr>, src)
           | Inl err \<Rightarrow> Inl err))"

definition disconnect_properties :: "disconnect_other_properties \<Rightarrow> property list" where
  "disconnect_properties o1 =
     opt_prop SessionExpiryInterval (disconnect_session_expiry_interval o1) @
     opt_prop ReasonString (disconnect_reason_string o1) @
     user_props (disconnect_user_properties o1) @
     opt_prop ServerReference (disconnect_server_reference o1)"

definition disconnect_encode :: "protocol_version \<Rightarrow> disconnect \<Rightarrow> enc" where
  "disconnect_encode version p =
     (let o1 = disconnect_other_properties p;
          any_property = (disconnect_session_expiry_interval o1 \<noteq> None \<or> disconnect_reason_string o1 \<noteq> None \<or>
             disconnect_user_properties o1 \<noteq> [] \<or> disconnect_server_reference o1 \<noteq> None);
          need_variable_header = (disconnect_reason_code p \<noteq> DisconnectNormal \<or> any_property)
      in enc_when (is_v5 version)
           (enc_when need_variable_header
              (enc_then (put_u8 (code_to_u8 disconnect_table (disconnect_reason_code p)))
                 (enc_when any_property (encode_all (disconnect_properties o1))))))"

definition disconnect_ok :: "unicode \<Rightarrow> protocol_version \<Rightarrow> disconnect \<Rightarrow> bool" where
  "disconnect_ok uc version p \<longleftrightarrow>
     (case version of
        V3 \<Rightarrow> p = \<lparr>disconnect_reason_code = DisconnectNormal,
                    disconnect_other_properties = disconnect_other_properties_default\<rparr>
      | V5 \<Rightarrow> list_all (property_ok uc) (disconnect_properties (disconnect_other_properties p)) \<and>
              snd (encode_all (disconnect_properties (disconnect_other_properties p))) = None)"

lemma disconnect_default:
  "\<not> (disconnect_session_expiry_interval o1 \<noteq> None \<or> disconnect_reason_string o1 \<noteq> None \<or>
      disconnect_user_properties o1 \<noteq> [] \<or> disconnect_server_reference o1 \<noteq> None) \<longleftrightarrow>
   o1 = disconnect_other_properties_default"
  by (cases o1) (auto simp: disconnect_other_properties_default_def)

lemma encode_all_nonempty:
  assumes "list_all (property_ok uc) ps" and "snd (encode_all ps) = None"
  shows "enc_bytes (encode_all ps) \<noteq> []"
  using encode_all_parts(2) [OF assms] by (simp add: varint_digits_ne)

lemma disconnect_roundtrip:
  assumes "disconnect_ok uc v p"
  shows "snd (disconnect_encode v p) = None"
    and "disconnect_decode uc v (enc_bytes (disconnect_encode v p)) = Inr (p, [])"
proof (atomize (full), cases v)
  case V3
  with assms show "snd (disconnect_encode v p) = None \<and>
      disconnect_decode uc v (enc_bytes (disconnect_encode v p)) = Inr (p, [])"
    by (simp add: disconnect_ok_def disconnect_encode_def disconnect_decode_def is_v5_def Let_def)
next
  case V5
  obtain c o1 where p: "p = \<lparr>disconnect_reason_code = c, disconnect_other_properties = o1\<rparr>" by (cases p)
  let ?ps = "disconnect_properties o1"
  have ok: "list_all (property_ok uc) ?ps" "snd (encode_all ?ps) = None"
    using assms V5 by (simp_all add: disconnect_ok_def p)
  let ?gs = "[(''SessionExpiryInterval'', opt_prop SessionExpiryInterval (disconnect_session_expiry_interval o1)),
     (''ReasonString'', opt_prop ReasonString (disconnect_reason_string o1)),
     (''UserProperty'', user_props (disconnect_user_properties o1)),
     (''ServerReference'', opt_prop ServerReference (disconnect_server_reference o1))]"
  have gs: "?ps = concat (map snd ?gs)" by (simp add: disconnect_properties_def)
  have "groups_ok disconnect_single [''UserProperty''] ?gs" by (simp add: groups_ok_def split: option.split)
  note dec = decode_properties_wire [OF gs this ok, of "[]"]
  have len: "length (enc_bytes (encode_all ?ps)) \<ge> 1"
    using encode_all_nonempty [OF ok] by (simp add: Suc_le_eq)
  show "snd (disconnect_encode v p) = None \<and>
      disconnect_decode uc v (enc_bytes (disconnect_encode v p)) = Inr (p, [])"
  proof (cases "o1 = disconnect_other_properties_default")
    case True
    then have "disconnect_encode v p =
        (if c = DisconnectNormal then enc_ok else enc_then (put_u8 (code_to_u8 disconnect_table c)) enc_ok)"
      using V5 by (simp add: p disconnect_encode_def is_v5_def disconnect_other_properties_default_def enc_when_def)
    with V5 True show ?thesis
      by (cases "c = DisconnectNormal") (simp_all add: disconnect_decode_def p)
  next
    case False
    then have "disconnect_session_expiry_interval o1 \<noteq> None \<or> disconnect_reason_string o1 \<noteq> None \<or>
        disconnect_user_properties o1 \<noteq> [] \<or> disconnect_server_reference o1 \<noteq> None"
      using disconnect_default by blast
    then have enc: "disconnect_encode v p = enc_then (put_u8 (code_to_u8 disconnect_table c)) (encode_all ?ps)"
      using V5 by (simp add: p disconnect_encode_def is_v5_def Let_def enc_when_def)
    have wired: "wired ?ps = ?ps" by (simp add: disconnect_properties_def)
    have "\<lparr>disconnect_session_expiry_interval = bound get_session_expiry ?ps,
        disconnect_reason_string = bound get_reason_string ?ps,
        disconnect_user_properties = collected get_user_property ?ps,
        disconnect_server_reference = bound get_server_reference ?ps\<rparr> = o1"
      by (cases o1) (simp add: disconnect_properties_def bound_simps collect_simps)
    with ok V5 dec len wired show ?thesis
      unfolding enc by (simp add: disconnect_decode_def p)
  qed
qed

section \<open>CONNACK\<close>

definition connect_code_try_from :: "protocol_version \<Rightarrow> bool \<Rightarrow> u8 \<Rightarrow> decode_error + connect_reason_code" where
  "connect_code_try_from version present code =
     (if code = 0x00 then Inr (ConnectSuccess present)
      else case version of
        V3 \<Rightarrow> if code = 0x01 then Inr (ConnectRefused UnsupportedProtocolVersion)
              else if code = 0x02 then Inr (ConnectRefused ClientIdentifierNotValid)
              else if code = 0x03 then Inr (ConnectRefused ServerUnavailable)
              else if code = 0x04 then Inr (ConnectRefused BadUserNameOrPassword)
              else if code = 0x05 then Inr (ConnectRefused RefusedNotAuthorized)
              else Inl (UnrecognizedConnectReturnCode code)
      | V5 \<Rightarrow> and_then (code_try_from UnrecognizedConnectReasonCode connection_refused_table code)
                (\<lambda>r. Inr (ConnectRefused r)))"

definition connect_code_to_u8 :: "protocol_version \<Rightarrow> connect_reason_code \<Rightarrow> u8" where
  "connect_code_to_u8 version code =
     (case code of
        ConnectSuccess _ \<Rightarrow> 0x00
      | ConnectRefused reason \<Rightarrow>
          (case version of
             V3 \<Rightarrow> if reason = UnsupportedProtocolVersion then 0x01
                   else if reason = ClientIdentifierNotValid then 0x02
                   else if reason = BadUserNameOrPassword then 0x04
                   else if reason = RefusedNotAuthorized then 0x05
                   else 0x03
           | V5 \<Rightarrow> code_to_u8 connection_refused_table reason))"

abbreviation connack_single :: "string list" where
  "connack_single \<equiv> [''SessionExpiryInterval'', ''ReceiveMaximum'', ''MaximumQoS'', ''RetainAvailable'',
     ''MaximumPacketSize'', ''AssignedClientIdentifier'', ''TopicAliasMaximum'', ''ReasonString'',
     ''WildcardSubscriptionAvailable'', ''SharedSubscriptionAvailable'',
     ''SubscriptionIdentifiersAvailable'', ''ServerKeepAlive'', ''ResponseInformation'',
     ''ServerReference'', ''AuthenticationMethod'', ''AuthenticationData'']"

definition decode_connack_properties :: "unicode \<Rightarrow> bytes \<Rightarrow> conn_ack_other_properties dec" where
  "decode_connack_properties uc src =
     and_then (decode_properties uc connack_single [''UserProperty''] src) (\<lambda>(ps, src).
       and_then (authentication_of (bound get_auth_method ps) (bound get_auth_data ps)) (\<lambda>authentication.
         Inr (\<lparr>connack_session_expiry_interval = bound get_session_expiry ps,
            connack_receive_maximum =
              unwrap_or (bound (\<lambda>p. case p of ReceiveMaximum v \<Rightarrow> Some v | _ \<Rightarrow> None) ps) (- 1),
            connack_maximum_qos =
              unwrap_or (bound (\<lambda>p. case p of MaximumQoS q \<Rightarrow> Some q | _ \<Rightarrow> None) ps) ExactlyOnce,
            connack_retain_available =
              unwrap_or (bound (\<lambda>p. case p of RetainAvailable b \<Rightarrow> Some b | _ \<Rightarrow> None) ps) True,
            connack_maximum_packet_size =
              unwrap_or (bound (\<lambda>p. case p of MaximumPacketSize v \<Rightarrow> Some v | _ \<Rightarrow> None) ps) (- 1),
            connack_assigned_client_id =
              bound (\<lambda>p. case p of AssignedClientIdentifier s \<Rightarrow> Some s | _ \<Rightarrow> None) ps,
            connack_topic_alias_maximum =
              unwrap_or (bound (\<lambda>p. case p of TopicAliasMaximum v \<Rightarrow> Some v | _ \<Rightarrow> None) ps) 0,
            connack_reason_string = bound get_reason_string ps,
            connack_user_properties = collected get_user_property ps,
            connack_wildcard_subscription_available =
              unwrap_or (bound (\<lambda>p. case p of WildcardSubscriptionAvailable b \<Rightarrow> Some b | _ \<Rightarrow> None) ps) True,
            connack_shared_subscription_available =
              unwrap_or (bound (\<lambda>p. case p of SharedSubscriptionAvailable b \<Rightarrow> Some b | _ \<Rightarrow> None) ps) True,
            connack_subscription_identifiers_available =
              unwrap_or (bound (\<lambda>p. case p of SubscriptionIdentifiersAvailable b \<Rightarrow> Some b | _ \<Rightarrow> None) ps) True,
            connack_server_keep_alive = bound (\<lambda>p. case p of ServerKeepAlive k \<Rightarrow> Some k | _ \<Rightarrow> None) ps,
            connack_response_information =
              bound (\<lambda>p. case p of ResponseInformation s \<Rightarrow> Some s | _ \<Rightarrow> None) ps,
            connack_server_reference = bound get_server_reference ps,
            connack_authentication = authentication\<rparr>, src)))"

definition connack_decode :: "unicode \<Rightarrow> protocol_version \<Rightarrow> bytes \<Rightarrow> conn_ack dec" where
  "connack_decode uc version src =
     and_then (dec_flag UnrecognizedConnAckFlags src) (\<lambda>(session_present, src).
       and_then (try_get_u8 src) (\<lambda>(code, src).
         and_then (connect_code_try_from version session_present code) (\<lambda>reason_code.
           and_then
             (case version of
                V3 \<Rightarrow> Inr (conn_ack_other_properties_default, src)
              | V5 \<Rightarrow> decode_connack_properties uc src)
             (\<lambda>(other, src).
                Inr (\<lparr>connack_reason_code = reason_code, connack_other_properties = other\<rparr>, src)))))"

definition connack_properties :: "conn_ack_other_properties \<Rightarrow> property list" where
  "connack_properties o1 =
     opt_prop SessionExpiryInterval (connack_session_expiry_interval o1) @
     [ReceiveMaximum (connack_receive_maximum o1)] @
     [MaximumQoS (connack_maximum_qos o1)] @
     [RetainAvailable (connack_retain_available o1)] @
     [MaximumPacketSize (connack_maximum_packet_size o1)] @
     opt_prop AssignedClientIdentifier (connack_assigned_client_id o1) @
     [TopicAliasMaximum (connack_topic_alias_maximum o1)] @
     opt_prop ReasonString (connack_reason_string o1) @
     user_props (connack_user_properties o1) @
     [WildcardSubscriptionAvailable (connack_wildcard_subscription_available o1)] @
     [SharedSubscriptionAvailable (connack_shared_subscription_available o1)] @
     [SubscriptionIdentifiersAvailable (connack_subscription_identifiers_available o1)] @
     opt_prop ServerKeepAlive (connack_server_keep_alive o1) @
     opt_prop ResponseInformation (connack_response_information o1) @
     opt_prop ServerReference (connack_server_reference o1) @
     opt_prop AuthenticationMethod (fst (authentication_into_parts (connack_authentication o1))) @
     opt_prop AuthenticationData (snd (authentication_into_parts (connack_authentication o1)))"

definition connack_encode :: "protocol_version \<Rightarrow> conn_ack \<Rightarrow> enc" where
  "connack_encode version p =
     (let session_present = (case connack_reason_code p of ConnectSuccess b \<Rightarrow> b | _ \<Rightarrow> False)
      in enc_then (if session_present then put_u8 0x01 else put_u8 0x00)
           (enc_then (put_u8 (connect_code_to_u8 version (connack_reason_code p)))
              (enc_when (is_v5 version) (encode_all (connack_properties (connack_other_properties p))))))"

fun connect_code_ok :: "protocol_version \<Rightarrow> connect_reason_code \<Rightarrow> bool" where
  "connect_code_ok v (ConnectSuccess _) = True"
| "connect_code_ok V5 (ConnectRefused _) = True"
| "connect_code_ok V3 (ConnectRefused r) =
     (r \<in> {UnsupportedProtocolVersion, ClientIdentifierNotValid, ServerUnavailable, BadUserNameOrPassword,
           RefusedNotAuthorized})"

definition connack_ok :: "unicode \<Rightarrow> protocol_version \<Rightarrow> conn_ack \<Rightarrow> bool" where
  "connack_ok uc version p \<longleftrightarrow>
     connect_code_ok version (connack_reason_code p) \<and>
     (case version of
        V3 \<Rightarrow> connack_other_properties p = conn_ack_other_properties_default
      | V5 \<Rightarrow> list_all (property_ok uc) (connack_properties (connack_other_properties p)) \<and>
              snd (encode_all (connack_properties (connack_other_properties p))) = None)"

lemma connect_code_roundtrip [roundtrip]:
  assumes "connect_code_ok v c"
  shows "connect_code_try_from v (case c of ConnectSuccess b \<Rightarrow> b | _ \<Rightarrow> False) (connect_code_to_u8 v c) = Inr c"
proof (cases c)
  case (ConnectRefused r)
  show ?thesis
  proof (cases v)
    case V5
    have "code_to_u8 connection_refused_table r \<noteq> 0"
      by (cases r) (simp_all add: code_to_u8_def connection_refused_table_def)
    with V5 ConnectRefused show ?thesis by (simp add: connect_code_try_from_def connect_code_to_u8_def)
  next
    case V3
    with assms ConnectRefused show ?thesis by (auto simp: connect_code_try_from_def connect_code_to_u8_def)
  qed
qed (simp add: connect_code_try_from_def connect_code_to_u8_def)

definition connack_groups :: "conn_ack_other_properties \<Rightarrow> (string \<times> property list) list" where
  "connack_groups o1 =
     [(''SessionExpiryInterval'', opt_prop SessionExpiryInterval (connack_session_expiry_interval o1)),
      (''ReceiveMaximum'', [ReceiveMaximum (connack_receive_maximum o1)]),
      (''MaximumQoS'', [MaximumQoS (connack_maximum_qos o1)]),
      (''RetainAvailable'', [RetainAvailable (connack_retain_available o1)]),
      (''MaximumPacketSize'', [MaximumPacketSize (connack_maximum_packet_size o1)]),
      (''AssignedClientIdentifier'', opt_prop AssignedClientIdentifier (connack_assigned_client_id o1)),
      (''TopicAliasMaximum'', [TopicAliasMaximum (connack_topic_alias_maximum o1)]),
      (''ReasonString'', opt_prop ReasonString (connack_reason_string o1)),
      (''UserProperty'', user_props (connack_user_properties o1)),
      (''WildcardSubscriptionAvailable'', [WildcardSubscriptionAvailable (connack_wildcard_subscription_available o1)]),
      (''SharedSubscriptionAvailable'', [SharedSubscriptionAvailable (connack_shared_subscription_available o1)]),
      (''SubscriptionIdentifiersAvailable'',
         [SubscriptionIdentifiersAvailable (connack_subscription_identifiers_available o1)]),
      (''ServerKeepAlive'', opt_prop ServerKeepAlive (connack_server_keep_alive o1)),
      (''ResponseInformation'', opt_prop ResponseInformation (connack_response_information o1)),
      (''ServerReference'', opt_prop ServerReference (connack_server_reference o1)),
      (''AuthenticationMethod'', opt_prop AuthenticationMethod (fst (authentication_into_parts (connack_authentication o1)))),
      (''AuthenticationData'', opt_prop AuthenticationData (snd (authentication_into_parts (connack_authentication o1))))]"

lemma connack_groups_ok: "groups_ok connack_single [''UserProperty''] (connack_groups o1)"
  by (simp add: groups_ok_def connack_groups_def split: option.split)

lemma decode_connack_properties_wire [roundtrip]:
  assumes "list_all (property_ok uc) (connack_properties o1)" and "snd (encode_all (connack_properties o1)) = None"
  shows "decode_connack_properties uc (enc_bytes (encode_all (connack_properties o1)) @ r) = Inr (o1, r)"
proof -
  have gs: "connack_properties o1 = concat (map snd (connack_groups o1))"
    by (simp add: connack_properties_def connack_groups_def)
  note dec = decode_properties_wire [OF gs connack_groups_ok assms, of r]
  show ?thesis
    unfolding decode_connack_properties_def dec
    by (cases o1) (auto simp: connack_properties_def bound_simps collect_simps)
qed

lemma connack_roundtrip:
  assumes "connack_ok uc v p"
  shows "snd (connack_encode v p) = None" and "connack_decode uc v (enc_bytes (connack_encode v p)) = Inr (p, [])"
proof -
  obtain c o1 where p: "p = \<lparr>connack_reason_code = c, connack_other_properties = o1\<rparr>" by (cases p)
  let ?sp = "case c of ConnectSuccess b \<Rightarrow> b | _ \<Rightarrow> False"
  show none: "snd (connack_encode v p) = None"
    using assms by (cases v) (auto simp: connack_ok_def connack_encode_def is_v5_def Let_def)
  have enc: "enc_bytes (connack_encode v p) = (if ?sp then 0x01 else 0x00) # connect_code_to_u8 v c #
      enc_bytes (enc_when (is_v5 v) (encode_all (connack_properties o1)))"
    by (simp add: p connack_encode_def Let_def)
  have code: "connect_code_try_from v ?sp (connect_code_to_u8 v c) = Inr c"
    using assms by (intro connect_code_roundtrip) (simp add: connack_ok_def p)
  show "connack_decode uc v (enc_bytes (connack_encode v p)) = Inr (p, [])"
  proof (cases v)
    case V3
    with assms code show ?thesis
      unfolding enc by (cases ?sp) (simp_all add: connack_decode_def dec_flag_def connack_ok_def p is_v5_def)
  next
    case V5
    with assms have "decode_connack_properties uc (enc_bytes (encode_all (connack_properties o1)) @ []) = Inr (o1, [])"
      by (intro decode_connack_properties_wire) (simp_all add: connack_ok_def p)
    with V5 code show ?thesis
      unfolding enc by (cases ?sp) (simp_all add: connack_decode_def dec_flag_def p is_v5_def)
  qed
qed

end
