(* ===== verification/Connect_Codec.thy ===== *)
theory Connect_Codec
  imports Connection_Codec
begin

text \<open>
  Encoding and decoding of CONNECT: src/src/mqtt_proto/connect.rs. The flags byte says which of the
  optional parts follow; version 3.1.1 and version 5 differ in the properties.
\<close>

unbundle bit_operations_syntax

section \<open>Flags\<close>

definition CONNECT_FLAGS_RESERVED :: u8 where "CONNECT_FLAGS_RESERVED = 0b00000001"
definition CONNECT_FLAGS_CLEAN_SESSION :: u8 where "CONNECT_FLAGS_CLEAN_SESSION = 0b00000010"
definition CONNECT_FLAGS_WILL :: u8 where "CONNECT_FLAGS_WILL = 0b00000100"
definition CONNECT_FLAGS_WILL_QOS :: u8 where "CONNECT_FLAGS_WILL_QOS = 0b00011000"
definition CONNECT_FLAGS_WILL_RETAIN :: u8 where "CONNECT_FLAGS_WILL_RETAIN = 0b00100000"
definition CONNECT_FLAGS_PASSWORD :: u8 where "CONNECT_FLAGS_PASSWORD = 0b01000000"
definition CONNECT_FLAGS_USERNAME :: u8 where "CONNECT_FLAGS_USERNAME = 0b10000000"

lemmas connect_flag_defs = CONNECT_FLAGS_RESERVED_def CONNECT_FLAGS_CLEAN_SESSION_def CONNECT_FLAGS_WILL_def
  CONNECT_FLAGS_WILL_QOS_def CONNECT_FLAGS_WILL_RETAIN_def CONNECT_FLAGS_PASSWORD_def CONNECT_FLAGS_USERNAME_def

text \<open>\<open>will\<close> is the quality of service and the retain flag of the will, if there is one.\<close>

definition connect_flags :: "bool \<Rightarrow> bool \<Rightarrow> (qos \<times> bool) option \<Rightarrow> bool \<Rightarrow> u8" where
  "connect_flags username password will clean_start =
     (if username then CONNECT_FLAGS_USERNAME else 0)
     OR (if password then CONNECT_FLAGS_PASSWORD else 0)
     OR (case will of
           None \<Rightarrow> 0
         | Some (qos, retain) \<Rightarrow>
             CONNECT_FLAGS_WILL OR (if retain then CONNECT_FLAGS_WILL_RETAIN else 0)
             OR push_bit 3 (code_to_u8 qos_table qos))
     OR (if clean_start then CONNECT_FLAGS_CLEAN_SESSION else 0)"

definition decode_will_qos :: "u8 \<Rightarrow> decode_error + qos" where
  "decode_will_qos flags =
     (let q = flags AND CONNECT_FLAGS_WILL_QOS
      in if q = 0x00 then Inr AtMostOnce
         else if q = 0x08 then Inr AtLeastOnce
         else if q = 0x10 then Inr ExactlyOnce
         else Inl (UnrecognizedQoS (drop_bit 3 q)))"

text \<open>The decoder reads back each part of the flags.\<close>

lemma connect_flags_bits:
  "connect_flags u p w c AND CONNECT_FLAGS_RESERVED = 0"
  "connect_flags u p w c AND CONNECT_FLAGS_CLEAN_SESSION = 0 \<longleftrightarrow> \<not> c"
  "connect_flags u p w c AND CONNECT_FLAGS_WILL = 0 \<longleftrightarrow> w = None"
  "connect_flags u p w c AND CONNECT_FLAGS_PASSWORD = 0 \<longleftrightarrow> \<not> p"
  "connect_flags u p w c AND CONNECT_FLAGS_USERNAME = 0 \<longleftrightarrow> \<not> u"
  "connect_flags u p w c AND (CONNECT_FLAGS_USERNAME OR CONNECT_FLAGS_PASSWORD) = 0b01000000 \<longleftrightarrow> p \<and> \<not> u"
  "connect_flags u p None c AND (CONNECT_FLAGS_WILL_QOS OR CONNECT_FLAGS_WILL_RETAIN) = 0"
  "connect_flags u p (Some (q, r)) c AND CONNECT_FLAGS_WILL_RETAIN = 0 \<longleftrightarrow> \<not> r"
  "decode_will_qos (connect_flags u p (Some (q, r)) c) = Inr q"
proof -
  have q: "code_to_u8 qos_table AtMostOnce = 0" "code_to_u8 qos_table AtLeastOnce = 1"
      "code_to_u8 qos_table ExactlyOnce = 2"
    by (simp_all add: code_to_u8_def qos_table_def)
  obtain q' r' where w: "w = None \<or> w = Some (q', r')" by (cases w) auto
  note [simp] = connect_flags_def connect_flag_defs q decode_will_qos_def
  show "connect_flags u p w c AND CONNECT_FLAGS_RESERVED = 0"
    using w by (cases q'; cases r'; cases u; cases p; cases c) auto
  show "connect_flags u p w c AND CONNECT_FLAGS_CLEAN_SESSION = 0 \<longleftrightarrow> \<not> c"
    using w by (cases q'; cases r'; cases u; cases p; cases c) auto
  show "connect_flags u p w c AND CONNECT_FLAGS_WILL = 0 \<longleftrightarrow> w = None"
    using w by (cases q'; cases r'; cases u; cases p; cases c) auto
  show "connect_flags u p w c AND CONNECT_FLAGS_PASSWORD = 0 \<longleftrightarrow> \<not> p"
    using w by (cases q'; cases r'; cases u; cases p; cases c) auto
  show "connect_flags u p w c AND CONNECT_FLAGS_USERNAME = 0 \<longleftrightarrow> \<not> u"
    using w by (cases q'; cases r'; cases u; cases p; cases c) auto
  show "connect_flags u p w c AND (CONNECT_FLAGS_USERNAME OR CONNECT_FLAGS_PASSWORD) = 0b01000000 \<longleftrightarrow> p \<and> \<not> u"
    using w by (cases q'; cases r'; cases u; cases p; cases c) auto
  show "connect_flags u p None c AND (CONNECT_FLAGS_WILL_QOS OR CONNECT_FLAGS_WILL_RETAIN) = 0"
    by (cases u; cases p; cases c) auto
  show "connect_flags u p (Some (q, r)) c AND CONNECT_FLAGS_WILL_RETAIN = 0 \<longleftrightarrow> \<not> r"
    by (cases q; cases r; cases u; cases p; cases c) auto
  show "decode_will_qos (connect_flags u p (Some (q, r)) c) = Inr q"
    by (cases q; cases r; cases u; cases p; cases c) auto
qed

section \<open>Decoding\<close>

definition PROTOCOL_NAME :: bytes where "PROTOCOL_NAME = [0x00, 0x04, 0x4D, 0x51, 0x54, 0x54]"
definition PROTOCOL_NAME_STR :: bytes where "PROTOCOL_NAME_STR = [0x4D, 0x51, 0x54, 0x54]"

definition decode_start :: "unicode \<Rightarrow> u8 \<Rightarrow> bytes \<Rightarrow> protocol_version dec" where
  "decode_start uc flags src =
     (if flags \<noteq> 0 then Inl (UnrecognizedPacket 0x10 flags (length src))
      else and_then (required (str_decode uc src)) (\<lambda>(protocol_name, src).
        if str_as_ref protocol_name \<noteq> PROTOCOL_NAME_STR
        then Inl (UnrecognizedProtocolName (str_as_ref protocol_name))
        else and_then (try_get_u8 src) (\<lambda>(v, src).
          if v = 0x04 then Inr (V3, src)
          else if v = 0x05 then Inr (V5, src)
          else Inl (UnrecognizedProtocolVersion v))))"

definition connect_other_properties_default :: connect_other_properties where
  "connect_other_properties_default =
     \<lparr>connect_session_expiry_interval = ExpiryDuration 0, connect_receive_maximum = - 1,
      connect_maximum_packet_size = - 1, connect_topic_alias_maximum = 0,
      connect_request_response_information = False, connect_request_problem_information = True,
      connect_user_properties = [], connect_authentication = None\<rparr>"

definition publication_other_properties_default :: publication_other_properties where
  "publication_other_properties_default =
     \<lparr>publication_payload_is_utf8 = False, publication_message_expiry_interval = None,
      publication_response_topic = None, publication_correlation_data = None,
      publication_user_properties = [], publication_content_type = None\<rparr>"

text \<open>An optional part of the payload, as the two decoders read username and password.\<close>

definition dec_when :: "bool \<Rightarrow> (bytes \<Rightarrow> 'a dec) \<Rightarrow> bytes \<Rightarrow> 'a option dec" where
  "dec_when b d src = (if b then dec_map Some (d src) else Inr (None, src))"

definition decode_client_id :: "unicode \<Rightarrow> bytes \<Rightarrow> byte_str option dec" where
  "decode_client_id uc src =
     dec_map (\<lambda>s. if binary_is_empty (bs_binary s) then None else Some s) (required (str_decode uc src))"

abbreviation will_single :: "string list" where
  "will_single \<equiv> [''WillDelayInterval'', ''PayloadIsUtf8'', ''MessageExpiryInterval'', ''ContentType'',
     ''ResponseTopic'', ''CorrelationData'']"

definition decode_will_properties :: "unicode \<Rightarrow> bytes \<Rightarrow> (u32 \<times> publication_other_properties) dec" where
  "decode_will_properties uc src =
     and_then (decode_properties uc will_single [''UserProperty''] src) (\<lambda>(ps, src).
       Inr ((unwrap_or (bound (\<lambda>p. case p of WillDelayInterval v \<Rightarrow> Some v | _ \<Rightarrow> None) ps) 0,
         \<lparr>publication_payload_is_utf8 =
            unwrap_or (bound (\<lambda>p. case p of PayloadIsUtf8 b \<Rightarrow> Some b | _ \<Rightarrow> None) ps) False,
          publication_message_expiry_interval =
            bound (\<lambda>p. case p of MessageExpiryInterval v \<Rightarrow> Some v | _ \<Rightarrow> None) ps,
          publication_response_topic = bound (\<lambda>p. case p of ResponseTopic t \<Rightarrow> Some t | _ \<Rightarrow> None) ps,
          publication_correlation_data = bound (\<lambda>p. case p of CorrelationData d \<Rightarrow> Some d | _ \<Rightarrow> None) ps,
          publication_user_properties = collected get_user_property ps,
          publication_content_type = bound (\<lambda>p. case p of ContentType s \<Rightarrow> Some s | _ \<Rightarrow> None) ps\<rparr>), src))"

text \<open>The will of both versions: only version 5 has properties before the topic.\<close>

definition decode_will ::
  "unicode \<Rightarrow> (bytes \<Rightarrow> (u32 \<times> publication_other_properties) dec) \<Rightarrow> u8 \<Rightarrow> bytes \<Rightarrow> (publication \<times> u32) option dec"
where
  "decode_will uc properties flags src =
     (if flags AND CONNECT_FLAGS_WILL = 0 then
        (if flags AND (CONNECT_FLAGS_WILL_QOS OR CONNECT_FLAGS_WILL_RETAIN) \<noteq> 0
         then Inl WillPropertiesFlagsSetButNotWillFlag else Inr (None, src))
      else and_then (properties src) (\<lambda>((delay, other), src).
        and_then (required (topic_decode uc src)) (\<lambda>(topic_name, src).
          and_then (decode_will_qos flags) (\<lambda>qos.
            and_then (ok_or (binary_decode src) IncompletePacket) (\<lambda>(payload, src).
              Inr (Some (\<lparr>publication_topic_name = topic_name, publication_qos = qos,
                 publication_retain = (flags AND CONNECT_FLAGS_WILL_RETAIN \<noteq> 0),
                 publication_payload = drop 2 (bd_shared payload),
                 publication_other_properties = other\<rparr>, delay), src))))))"

definition decode_rest_v3 :: "unicode \<Rightarrow> bytes \<Rightarrow> connect dec" where
  "decode_rest_v3 uc src =
     and_then (try_get_u8 src) (\<lambda>(flags, src).
       if flags AND CONNECT_FLAGS_RESERVED \<noteq> 0 then Inl ConnectReservedSet
       else if flags AND (CONNECT_FLAGS_USERNAME OR CONNECT_FLAGS_PASSWORD) = 0b01000000
       then Inl ConnectPasswordFlagSetButNotUsernameFlag
       else and_then (try_get_u16_be src) (\<lambda>(keep_alive, src).
         and_then (decode_client_id uc src) (\<lambda>(client_id, src).
           let clean_start = (flags AND CONNECT_FLAGS_CLEAN_SESSION \<noteq> 0)
           in if client_id = None \<and> \<not> clean_start then Inl ConnectZeroLengthIdWithExistingSession
              else and_then (decode_will uc (\<lambda>src. Inr ((0, publication_other_properties_default), src)) flags src)
                (\<lambda>(will, src).
                 and_then (dec_when (flags AND CONNECT_FLAGS_USERNAME \<noteq> 0) (\<lambda>src. required (str_decode uc src)) src)
                   (\<lambda>(username, src).
                    and_then (dec_when (flags AND CONNECT_FLAGS_PASSWORD \<noteq> 0)
                        (\<lambda>src. ok_or (binary_decode src) IncompletePacket) src) (\<lambda>(password, src).
                      Inr (\<lparr>connect_username = username, connect_password = password, connect_will = will,
                         connect_client_id = client_id, connect_clean_start = clean_start,
                         connect_keep_alive = keep_alive_from_u16 keep_alive,
                         connect_other_properties = connect_other_properties_default
                           \<lparr>connect_session_expiry_interval :=
                              if clean_start then ExpiryDuration 0 else ExpiryInfinite\<rparr>\<rparr>, src)))))))"

abbreviation connect_single :: "string list" where
  "connect_single \<equiv> [''SessionExpiryInterval'', ''ReceiveMaximum'', ''MaximumPacketSize'', ''TopicAliasMaximum'',
     ''RequestResponseInformation'', ''RequestProblemInformation'', ''AuthenticationMethod'',
     ''AuthenticationData'']"

text \<open>
  The values of the properties, without the check of the authentication, which the decoder makes
  only after the rest of the packet.
\<close>

definition connect_properties_of :: "property list \<Rightarrow> authentication option \<Rightarrow> connect_other_properties" where
  "connect_properties_of ps authentication =
     \<lparr>connect_session_expiry_interval = unwrap_or (bound get_session_expiry ps) (ExpiryDuration 0),
      connect_receive_maximum =
        unwrap_or (bound (\<lambda>p. case p of ReceiveMaximum v \<Rightarrow> Some v | _ \<Rightarrow> None) ps) (- 1),
      connect_maximum_packet_size =
        unwrap_or (bound (\<lambda>p. case p of MaximumPacketSize v \<Rightarrow> Some v | _ \<Rightarrow> None) ps) (- 1),
      connect_topic_alias_maximum =
        unwrap_or (bound (\<lambda>p. case p of TopicAliasMaximum v \<Rightarrow> Some v | _ \<Rightarrow> None) ps) 0,
      connect_request_response_information =
        unwrap_or (bound (\<lambda>p. case p of RequestResponseInformation b \<Rightarrow> Some b | _ \<Rightarrow> None) ps) False,
      connect_request_problem_information =
        unwrap_or (bound (\<lambda>p. case p of RequestProblemInformation b \<Rightarrow> Some b | _ \<Rightarrow> None) ps) True,
      connect_user_properties = collected get_user_property ps,
      connect_authentication = authentication\<rparr>"

definition decode_rest_v5 :: "unicode \<Rightarrow> bytes \<Rightarrow> connect dec" where
  "decode_rest_v5 uc src =
     and_then (try_get_u8 src) (\<lambda>(flags, src).
       if flags AND CONNECT_FLAGS_RESERVED \<noteq> 0 then Inl ConnectReservedSet
       else and_then (try_get_u16_be src) (\<lambda>(keep_alive, src).
         and_then (decode_properties uc connect_single [''UserProperty''] src) (\<lambda>(ps, src).
           and_then (decode_client_id uc src) (\<lambda>(client_id, src).
             and_then (decode_will uc (decode_will_properties uc) flags src) (\<lambda>(will, src).
               and_then (dec_when (flags AND CONNECT_FLAGS_USERNAME \<noteq> 0) (\<lambda>src. required (str_decode uc src)) src)
                 (\<lambda>(username, src).
                  and_then (dec_when (flags AND CONNECT_FLAGS_PASSWORD \<noteq> 0)
                      (\<lambda>src. ok_or (binary_decode src) IncompletePacket) src) (\<lambda>(password, src).
                    and_then (authentication_of (bound get_auth_method ps) (bound get_auth_data ps))
                      (\<lambda>authentication.
                       Inr (\<lparr>connect_username = username, connect_password = password, connect_will = will,
                          connect_client_id = client_id,
                          connect_clean_start = (flags AND CONNECT_FLAGS_CLEAN_SESSION \<noteq> 0),
                          connect_keep_alive = keep_alive_from_u16 keep_alive,
                          connect_other_properties = connect_properties_of ps authentication\<rparr>, src)))))))))"

definition connect_decode :: "unicode \<Rightarrow> protocol_version \<Rightarrow> u8 \<Rightarrow> bytes \<Rightarrow> connect dec" where
  "connect_decode uc version flags src =
     and_then (decode_start uc flags src) (\<lambda>(actual_version, src).
       if actual_version \<noteq> version then Inl (UnrecognizedProtocolVersion (version_to_u8 actual_version))
       else case version of V3 \<Rightarrow> decode_rest_v3 uc src | V5 \<Rightarrow> decode_rest_v5 uc src)"

definition connect_decode_any_version :: "unicode \<Rightarrow> u8 \<Rightarrow> bytes \<Rightarrow> (connect \<times> protocol_version) dec" where
  "connect_decode_any_version uc flags src =
     and_then (decode_start uc flags src) (\<lambda>(version, src).
       dec_map (\<lambda>c. (c, version))
         (case version of V3 \<Rightarrow> decode_rest_v3 uc src | V5 \<Rightarrow> decode_rest_v5 uc src))"

section \<open>Encoding\<close>

definition connect_properties :: "connect_other_properties \<Rightarrow> property list" where
  "connect_properties o1 =
     [ConnectSessionExpiryInterval (connect_session_expiry_interval o1)] @
     [ReceiveMaximum (connect_receive_maximum o1)] @
     [MaximumPacketSize (connect_maximum_packet_size o1)] @
     [TopicAliasMaximum (connect_topic_alias_maximum o1)] @
     [RequestResponseInformation (connect_request_response_information o1)] @
     [RequestProblemInformation (connect_request_problem_information o1)] @
     user_props (connect_user_properties o1) @
     opt_prop AuthenticationMethod (fst (authentication_into_parts (connect_authentication o1))) @
     opt_prop AuthenticationData (snd (authentication_into_parts (connect_authentication o1)))"

definition will_properties :: "u32 \<Rightarrow> publication_other_properties \<Rightarrow> property list" where
  "will_properties delay o1 =
     [WillDelayInterval delay] @
     [PayloadIsUtf8 (publication_payload_is_utf8 o1)] @
     opt_prop MessageExpiryInterval (publication_message_expiry_interval o1) @
     opt_prop ContentType (publication_content_type o1) @
     opt_prop ResponseTopic (publication_response_topic o1) @
     opt_prop CorrelationData (publication_correlation_data o1) @
     user_props (publication_user_properties o1)"

definition encode_will :: "protocol_version \<Rightarrow> publication \<times> u32 \<Rightarrow> enc" where
  "encode_will version w =
     (let (will, delay) = w; will_len = length (publication_payload will)
      in enc_then (enc_when (is_v5 version) (encode_all (will_properties delay (publication_other_properties will))))
           (enc_then (topic_encode (publication_topic_name will))
              (if will_len > 65535 then enc_fail (WillTooLarge will_len)
               else enc_then (put_u16_be (of_nat will_len)) (put_shared (publication_payload will)))))"

definition enc_opt :: "('a \<Rightarrow> enc) \<Rightarrow> 'a option \<Rightarrow> enc" where
  "enc_opt f v = (case v of None \<Rightarrow> enc_ok | Some x \<Rightarrow> f x)"

definition connect_flags_of :: "connect \<Rightarrow> u8" where
  "connect_flags_of p =
     connect_flags (connect_username p \<noteq> None) (connect_password p \<noteq> None)
       (map_option (\<lambda>(will, _). (publication_qos will, publication_retain will)) (connect_will p))
       (connect_clean_start p)"

definition connect_encode :: "protocol_version \<Rightarrow> connect \<Rightarrow> enc" where
  "connect_encode version p =
     enc_then (put_slice PROTOCOL_NAME)
       (enc_then (put_u8 (version_to_u8 version))
          (if version = V3 \<and> connect_username p = None \<and> connect_password p \<noteq> None
           then enc_fail ConnectPasswordWithoutUsername
           else
             enc_then (put_u8 (connect_flags_of p))
               (enc_then (put_u16_be (keep_alive_to_u16 (connect_keep_alive p)))
                  (enc_then (enc_when (is_v5 version) (encode_all (connect_properties (connect_other_properties p))))
                     (enc_then
                        (case connect_client_id p of Some s \<Rightarrow> str_encode s | None \<Rightarrow> put_slice [0x00, 0x00])
                        (enc_then (enc_opt (encode_will version) (connect_will p))
                           (enc_then (enc_opt str_encode (connect_username p))
                              (enc_opt binary_encode (connect_password p)))))))))"

section \<open>Round trip\<close>

text \<open>What the UTF-8 decoder does on ASCII, and that printable ASCII is assigned and no control character.\<close>

definition utf8_ascii :: "unicode \<Rightarrow> bool" where
  "utf8_ascii uc \<longleftrightarrow>
     (\<forall>b r. unat b < 128 \<longrightarrow> decode_utf8 uc (b # r) = (Some (unat b), 1)) \<and>
     (\<forall>c. 32 \<le> c \<and> c < 127 \<longrightarrow> general_category uc c = OtherCategory)"

lemma validate_ascii:
  assumes "utf8_ascii uc" and "\<forall>b\<in>set s. 32 \<le> unat b \<and> unat b < 127"
  shows "validate_mqtt_string uc s = Inr ()"
  using assms(2)
proof (induction s)
  case (Cons b s)
  with assms(1) show ?case
    by (subst validate_mqtt_string.simps) (simp add: utf8_ascii_def)
qed (simp add: validate_mqtt_string.simps)

lemma decode_protocol_name:
  assumes "utf8_ascii uc"
  shows "str_decode uc (PROTOCOL_NAME @ r) = Inr (Some (ByteStr (BinaryData PROTOCOL_NAME), r))"
proof -
  have "validate_mqtt_string uc PROTOCOL_NAME_STR = Inr ()"
    using assms by (rule validate_ascii) (simp add: PROTOCOL_NAME_STR_def)
  then have "str_ok uc (ByteStr (BinaryData PROTOCOL_NAME))"
    by (simp add: str_ok_def str_as_ref_def binary_as_bytes_def PROTOCOL_NAME_def PROTOCOL_NAME_STR_def u16_from_be_def)
  from str_decode_wire [OF this] show ?thesis by simp
qed

lemma protocol_name_str: "str_as_ref (ByteStr (BinaryData PROTOCOL_NAME)) = PROTOCOL_NAME_STR"
  by (simp add: str_as_ref_def binary_as_bytes_def PROTOCOL_NAME_def PROTOCOL_NAME_STR_def)

definition will_ok :: "unicode \<Rightarrow> protocol_version \<Rightarrow> publication \<times> u32 \<Rightarrow> bool" where
  "will_ok uc version w \<longleftrightarrow>
     topic_ok uc (publication_topic_name (fst w)) \<and> length (publication_payload (fst w)) \<le> 65535 \<and>
     (case version of
        V3 \<Rightarrow> snd w = 0 \<and> publication_other_properties (fst w) = publication_other_properties_default
      | V5 \<Rightarrow> list_all (property_ok uc) (will_properties (snd w) (publication_other_properties (fst w))) \<and>
              snd (encode_all (will_properties (snd w) (publication_other_properties (fst w)))) = None)"

definition connect_ok :: "unicode \<Rightarrow> protocol_version \<Rightarrow> connect \<Rightarrow> bool" where
  "connect_ok uc version p \<longleftrightarrow>
     pred_option (str_ok uc) (connect_username p) \<and> pred_option binary_ok (connect_password p) \<and>
     pred_option (will_ok uc version) (connect_will p) \<and>
     pred_option (\<lambda>s. str_ok uc s \<and> \<not> binary_is_empty (bs_binary s)) (connect_client_id p) \<and>
     connect_keep_alive p \<noteq> KeepAliveDuration 0 \<and>
     (case version of
        V3 \<Rightarrow> (connect_username p = None \<longrightarrow> connect_password p = None) \<and>
              (connect_client_id p = None \<longrightarrow> connect_clean_start p) \<and>
              connect_other_properties p = connect_other_properties_default
                \<lparr>connect_session_expiry_interval :=
                   if connect_clean_start p then ExpiryDuration 0 else ExpiryInfinite\<rparr>
      | V5 \<Rightarrow> list_all (property_ok uc) (connect_properties (connect_other_properties p)) \<and>
              snd (encode_all (connect_properties (connect_other_properties p))) = None)"

lemma decode_will_properties_wire [roundtrip]:
  assumes "list_all (property_ok uc) (will_properties delay o1)" and "snd (encode_all (will_properties delay o1)) = None"
  shows "decode_will_properties uc (enc_bytes (encode_all (will_properties delay o1)) @ r) = Inr ((delay, o1), r)"
proof -
  let ?gs = "[(''WillDelayInterval'', [WillDelayInterval delay]),
     (''PayloadIsUtf8'', [PayloadIsUtf8 (publication_payload_is_utf8 o1)]),
     (''MessageExpiryInterval'', opt_prop MessageExpiryInterval (publication_message_expiry_interval o1)),
     (''ContentType'', opt_prop ContentType (publication_content_type o1)),
     (''ResponseTopic'', opt_prop ResponseTopic (publication_response_topic o1)),
     (''CorrelationData'', opt_prop CorrelationData (publication_correlation_data o1)),
     (''UserProperty'', user_props (publication_user_properties o1))]"
  have gs: "will_properties delay o1 = concat (map snd ?gs)" by (simp add: will_properties_def)
  have "groups_ok will_single [''UserProperty''] ?gs" by (simp add: groups_ok_def split: option.split)
  note dec = decode_properties_wire [OF gs this assms, of r]
  show ?thesis
    unfolding decode_will_properties_def dec
    by (cases o1) (simp add: will_properties_def bound_simps collect_simps)
qed

lemma connect_properties_wire [roundtrip]:
  assumes "list_all (property_ok uc) (connect_properties o1)" and "snd (encode_all (connect_properties o1)) = None"
  shows "decode_properties uc connect_single [''UserProperty''] (enc_bytes (encode_all (connect_properties o1)) @ r) =
      Inr (wired (connect_properties o1), r)"
    and "authentication_of (bound get_auth_method (wired (connect_properties o1)))
      (bound get_auth_data (wired (connect_properties o1))) = Inr (connect_authentication o1)"
    and "connect_properties_of (wired (connect_properties o1)) (connect_authentication o1) = o1"
proof -
  let ?gs = "[(''SessionExpiryInterval'', [ConnectSessionExpiryInterval (connect_session_expiry_interval o1)]),
     (''ReceiveMaximum'', [ReceiveMaximum (connect_receive_maximum o1)]),
     (''MaximumPacketSize'', [MaximumPacketSize (connect_maximum_packet_size o1)]),
     (''TopicAliasMaximum'', [TopicAliasMaximum (connect_topic_alias_maximum o1)]),
     (''RequestResponseInformation'', [RequestResponseInformation (connect_request_response_information o1)]),
     (''RequestProblemInformation'', [RequestProblemInformation (connect_request_problem_information o1)]),
     (''UserProperty'', user_props (connect_user_properties o1)),
     (''AuthenticationMethod'', opt_prop AuthenticationMethod (fst (authentication_into_parts (connect_authentication o1)))),
     (''AuthenticationData'', opt_prop AuthenticationData (snd (authentication_into_parts (connect_authentication o1))))]"
  have gs: "connect_properties o1 = concat (map snd ?gs)" by (simp add: connect_properties_def)
  have "groups_ok connect_single [''UserProperty''] ?gs" by (simp add: groups_ok_def split: option.split)
  then show "decode_properties uc connect_single [''UserProperty'']
      (enc_bytes (encode_all (connect_properties o1)) @ r) = Inr (wired (connect_properties o1), r)"
    using gs assms by (intro decode_properties_wire) auto
  show "authentication_of (bound get_auth_method (wired (connect_properties o1)))
      (bound get_auth_data (wired (connect_properties o1))) = Inr (connect_authentication o1)"
    by (simp add: connect_properties_def bound_simps)
  have zero: "session_expiry_to_u32 i = 0 \<Longrightarrow> i = ExpiryDuration 0" for i by (cases i) auto
  show "connect_properties_of (wired (connect_properties o1)) (connect_authentication o1) = o1"
    by (cases o1) (auto simp: connect_properties_of_def connect_properties_def bound_simps collect_simps dest: zero)
qed

lemma encode_will_None: "will_ok uc v w \<Longrightarrow> snd (encode_will v w) = None"
  by (cases w; cases v) (auto simp: will_ok_def encode_will_def is_v5_def Let_def)

lemma decode_will_wire [roundtrip]:
  assumes "pred_option (will_ok uc v) w"
    and "flags = connect_flags u p (map_option (\<lambda>(will, _). (publication_qos will, publication_retain will)) w) c"
  shows "decode_will uc
      (case v of V3 \<Rightarrow> (\<lambda>src. Inr ((0, publication_other_properties_default), src)) | V5 \<Rightarrow> decode_will_properties uc)
      flags (enc_bytes (enc_opt (encode_will v) w) @ r) = Inr (w, r)"
proof (cases w)
  case None
  with assms(2) show ?thesis by (simp add: decode_will_def enc_opt_def connect_flags_bits)
next
  case (Some wd)
  obtain will delay where wd: "wd = (will, delay)" by (cases wd)
  obtain t q rt pl o1 where will: "will = \<lparr>publication_topic_name = t, publication_qos = q,
      publication_retain = rt, publication_payload = pl, publication_other_properties = o1\<rparr>" by (cases will)
  have ok: "will_ok uc v (will, delay)" using assms(1) Some wd by simp
  then have t: "topic_ok uc t" and pl: "length pl \<le> 65535" by (simp_all add: will_ok_def will)
  let ?props = "enc_bytes (enc_when (is_v5 v) (encode_all (will_properties delay o1)))"
  let ?pay = "be16 (of_nat (length pl)) @ pl"
  have enc: "enc_bytes (enc_opt (encode_will v) w) = ?props @ str_wire (topic_inner t) @ ?pay"
    using ok by (cases v) (simp_all add: Some wd will enc_opt_def encode_will_def will_ok_def is_v5_def)
  have props: "(case v of V3 \<Rightarrow> (\<lambda>src. Inr ((0, publication_other_properties_default), src))
      | V5 \<Rightarrow> decode_will_properties uc) (?props @ s) = Inr ((delay, o1), s)" for s
    using ok by (cases v) (auto simp: will_ok_def will is_v5_def decode_will_properties_wire)
  have "binary_decode (bd_shared (BinaryData ?pay) @ r) = Some (BinaryData ?pay, r)"
    using pl by (intro binary_decode_shared binary_ok_prefixed)
  then have pay: "binary_decode (be16 (of_nat (length pl)) @ pl @ r) = Some (BinaryData ?pay, r)" by simp
  have cut: "drop 2 ?pay = pl" by (simp add: be16_def)
  have "flags = connect_flags u p (Some (q, rt)) c" using assms(2) by (simp add: Some wd will)
  then show ?thesis
    unfolding enc
    by (simp add: decode_will_def connect_flags_bits props topic_decode_wire [OF t] pay required_def Some wd will cut)
qed

lemma decode_client_id_wire [roundtrip]:
  assumes "pred_option (\<lambda>s. str_ok uc s \<and> \<not> binary_is_empty (bs_binary s)) i"
  shows "decode_client_id uc
    (enc_bytes (case i of Some s \<Rightarrow> str_encode s | None \<Rightarrow> put_slice [0x00, 0x00]) @ r) = Inr (i, r)"
proof (cases i)
  case None
  have "str_ok uc (ByteStr (BinaryData [0, 0]))"
    by (simp add: str_ok_def str_as_ref_def binary_as_bytes_def validate_mqtt_string.simps u16_from_be_def)
  from str_decode_wire [OF this, of r] None show ?thesis
    by (simp add: decode_client_id_def required_def dec_map_def binary_is_empty_def)
next
  case (Some s)
  with assms show ?thesis by (simp add: decode_client_id_def required_def dec_map_def str_decode_wire)
qed

lemma dec_when_wire [roundtrip]:
  "pred_option (str_ok uc) u \<Longrightarrow>
     dec_when (u \<noteq> None) (\<lambda>src. required (str_decode uc src)) (enc_bytes (enc_opt str_encode u) @ r) = Inr (u, r)"
  "pred_option binary_ok p \<Longrightarrow>
     dec_when (p \<noteq> None) (\<lambda>src. ok_or (binary_decode src) IncompletePacket) (enc_bytes (enc_opt binary_encode p) @ r) =
       Inr (p, r)"
  by (cases u; simp add: dec_when_def enc_opt_def required_def dec_map_def str_decode_wire)
     (cases p; simp add: dec_when_def enc_opt_def dec_map_def binary_decode_shared)

lemma enc_opt_None:
  "snd (enc_opt str_encode u) = None" "snd (enc_opt binary_encode p) = None"
  "pred_option (will_ok uc v) w \<Longrightarrow> snd (enc_opt (encode_will v) w) = None"
  by (auto simp: enc_opt_def encode_will_None split: option.split)

lemma connect_roundtrip:
  assumes ok: "connect_ok uc v p" and ascii: "utf8_ascii uc"
  shows "snd (connect_encode v p) = None" and "connect_decode uc v 0 (enc_bytes (connect_encode v p)) = Inr (p, [])"
proof -
  obtain u pw w i cs k o1 where p: "p = \<lparr>connect_username = u, connect_password = pw, connect_will = w,
      connect_client_id = i, connect_clean_start = cs, connect_keep_alive = k, connect_other_properties = o1\<rparr>"
    by (cases p)
  have parts: "pred_option (str_ok uc) u" "pred_option binary_ok pw" "pred_option (will_ok uc v) w"
      "pred_option (\<lambda>s. str_ok uc s \<and> \<not> binary_is_empty (bs_binary s)) i" "k \<noteq> KeepAliveDuration 0"
    using ok by (simp_all add: connect_ok_def p)
  define ub pb where "ub \<longleftrightarrow> u \<noteq> None" and "pb \<longleftrightarrow> pw \<noteq> None"
  let ?flags = "connect_flags ub pb
      (map_option (\<lambda>(will, _). (publication_qos will, publication_retain will)) w) cs"
  let ?props = "enc_bytes (enc_when (is_v5 v) (encode_all (connect_properties o1)))"
  let ?tail = "enc_bytes (case i of Some s \<Rightarrow> str_encode s | None \<Rightarrow> put_slice [0x00, 0x00]) @
      enc_bytes (enc_opt (encode_will v) w) @ enc_bytes (enc_opt str_encode u) @ enc_bytes (enc_opt binary_encode pw)"
  have ci: "snd (case i of Some s \<Rightarrow> str_encode s | None \<Rightarrow> put_slice [0x00, 0x00]) = None"
    by (simp split: option.split)
  have no_fail: "\<not> (v = V3 \<and> u = None \<and> pw \<noteq> None)" using ok by (auto simp: connect_ok_def p)
  have props: "snd (enc_when (is_v5 v) (encode_all (connect_properties o1))) = None"
    using ok by (cases v) (simp_all add: connect_ok_def p is_v5_def)
  show "snd (connect_encode v p) = None"
    using no_fail ci props enc_opt_None parts by (auto simp: connect_encode_def p)
  have enc: "enc_bytes (connect_encode v p) =
      PROTOCOL_NAME @ version_to_u8 v # ?flags # be16 (keep_alive_to_u16 k) @ ?props @ ?tail"
    using no_fail ci props enc_opt_None(3) [OF parts(3)] enc_opt_None(1,2)
    by (auto simp: connect_encode_def p connect_flags_of_def ub_def pb_def)
  have start: "decode_start uc 0 (enc_bytes (connect_encode v p)) =
      Inr (v, ?flags # be16 (keep_alive_to_u16 k) @ ?props @ ?tail)"
    unfolding enc
    by (cases v) (simp_all add: decode_start_def required_def decode_protocol_name [OF ascii] protocol_name_str)
  note will = decode_will_wire [OF parts(3) refl, of ub pb cs]
  note reads = decode_client_id_wire [OF parts(4)] dec_when_wire(1) [OF parts(1), folded ub_def]
    dec_when_wire(2) [OF parts(2), of "[]", folded pb_def, simplified] keep_alive_roundtrip(2) [OF parts(5)]
  show "connect_decode uc v 0 (enc_bytes (connect_encode v p)) = Inr (p, [])"
  proof (cases v)
    case V3
    with ok have o1: "o1 = connect_other_properties_default
        \<lparr>connect_session_expiry_interval := if cs then ExpiryDuration 0 else ExpiryInfinite\<rparr>"
      by (simp add: connect_ok_def p)
    have "\<not> cs \<Longrightarrow> i \<noteq> None" "pb \<Longrightarrow> ub"
      using ok V3 by (auto simp: connect_ok_def p ub_def pb_def)
    with V3 reads will [unfolded V3] show ?thesis
      unfolding connect_decode_def start
      by (cases cs; cases ub; cases pb)
        (simp_all add: decode_rest_v3_def connect_flags_bits is_v5_def p o1 del: not_None_eq)
  next
    case V5
    with ok have "list_all (property_ok uc) (connect_properties o1)" "snd (encode_all (connect_properties o1)) = None"
      by (simp_all add: connect_ok_def p)
    note cp = connect_properties_wire [OF this]
    with V5 reads will [unfolded V5] show ?thesis
      unfolding connect_decode_def start
      by (simp add: decode_rest_v5_def connect_flags_bits is_v5_def p)
  qed
qed

end
