(* ===== verification/Packet_Codec.thy ===== *)
theory Packet_Codec
  imports Connect_Codec
begin

text \<open>
  Whole packets: the fixed header and the dispatch on the packet type (\<open>Packet::decode\<close>,
  \<open>Packet::decode_full\<close>, \<open>PacketRef::encode\<close> and \<open>encode_inner\<close> of src/src/mqtt_proto.rs, and
  pingreq.rs and pingresp.rs).
\<close>

unbundle bit_operations_syntax

section \<open>Encoding\<close>

definition pingreq_encode :: enc where "pingreq_encode = enc_ok"
definition pingresp_encode :: enc where "pingresp_encode = enc_ok"
definition pingreq_decode :: "bytes \<Rightarrow> unit dec" where "pingreq_decode src = Inr ((), src)"
definition pingresp_decode :: "bytes \<Rightarrow> unit dec" where "pingresp_decode src = Inr ((), src)"

definition put_done :: enc where "put_done = ([PutDone], None)"

definition encode_inner :: "u8 \<Rightarrow> u8 \<Rightarrow> enc \<Rightarrow> enc" where
  "encode_inner packet_type flags body =
     (case byte_count True body of
        (_, Some e) \<Rightarrow> enc_fail e
      | (body_len, None) \<Rightarrow>
          enc_then (put_u8 (packet_type OR flags))
            (enc_then (encode_remaining_length body_len) (enc_then body put_done)))"

primrec packet_body :: "protocol_version \<Rightarrow> packet \<Rightarrow> enc" where
  "packet_body v (AuthPacket p) = auth_encode v p"
| "packet_body v (ConnAckPacket p) = connack_encode v p"
| "packet_body v (ConnectPacket p) = connect_encode v p"
| "packet_body v (DisconnectPacket p) = disconnect_encode v p"
| "packet_body v PingReqPacket = pingreq_encode"
| "packet_body v PingRespPacket = pingresp_encode"
| "packet_body v (PubAckPacket p) = puback_encode v p"
| "packet_body v (PubCompPacket p) = pubcomp_encode v p"
| "packet_body v (PublishPacket p) = publish_encode v p"
| "packet_body v (PubRecPacket p) = pubrec_encode v p"
| "packet_body v (PubRelPacket p) = pubrel_encode v p"
| "packet_body v (SubAckPacket p) = suback_encode v p"
| "packet_body v (SubscribePacket p) = subscribe_encode v p"
| "packet_body v (UnsubAckPacket p) = unsuback_encode v p"
| "packet_body v (UnsubscribePacket p) = unsubscribe_encode v p"

text \<open>\<open>PACKET_TYPE\<close>, and the flags that \<open>PacketRef::encode\<close> passes.\<close>

primrec packet_type :: "packet \<Rightarrow> u8" where
  "packet_type (AuthPacket _) = 0xF0"
| "packet_type (ConnAckPacket _) = 0x20"
| "packet_type (ConnectPacket _) = 0x10"
| "packet_type (DisconnectPacket _) = 0xE0"
| "packet_type PingReqPacket = 0xC0"
| "packet_type PingRespPacket = 0xD0"
| "packet_type (PubAckPacket _) = 0x40"
| "packet_type (PubCompPacket _) = 0x70"
| "packet_type (PublishPacket _) = 0x30"
| "packet_type (PubRecPacket _) = 0x50"
| "packet_type (PubRelPacket _) = 0x60"
| "packet_type (SubAckPacket _) = 0x90"
| "packet_type (SubscribePacket _) = 0x80"
| "packet_type (UnsubAckPacket _) = 0xB0"
| "packet_type (UnsubscribePacket _) = 0xA0"

definition packet_flags :: "packet \<Rightarrow> u8" where
  "packet_flags p =
     (case p of
        PublishPacket publish \<Rightarrow> publish_flags publish
      | PubRelPacket _ \<Rightarrow> 0x02
      | SubscribePacket _ \<Rightarrow> 0x02
      | UnsubscribePacket _ \<Rightarrow> 0x02
      | _ \<Rightarrow> 0)"

definition packet_encode :: "protocol_version \<Rightarrow> packet \<Rightarrow> enc" where
  "packet_encode version p = encode_inner (packet_type p) (packet_flags p) (packet_body version p)"

section \<open>Decoding\<close>

definition packet_decode_body :: "unicode \<Rightarrow> protocol_version \<Rightarrow> u8 \<Rightarrow> bytes \<Rightarrow> packet dec" where
  "packet_decode_body uc version first_byte body =
     (let t = first_byte AND 0xF0; flags = first_byte AND 0x0F
      in if t = 0xF0 \<and> flags = 0 then dec_map AuthPacket (auth_decode uc version flags body)
         else if t = 0x20 \<and> flags = 0 then dec_map ConnAckPacket (connack_decode uc version body)
         else if t = 0x10 \<and> flags = 0 then dec_map ConnectPacket (connect_decode uc version flags body)
         else if t = 0xE0 \<and> flags = 0 then dec_map DisconnectPacket (disconnect_decode uc version body)
         else if t = 0xC0 \<and> flags = 0 then dec_map (\<lambda>_. PingReqPacket) (pingreq_decode body)
         else if t = 0xD0 \<and> flags = 0 then dec_map (\<lambda>_. PingRespPacket) (pingresp_decode body)
         else if t = 0x40 \<and> flags = 0 then dec_map PubAckPacket (puback_decode uc version body)
         else if t = 0x70 \<and> flags = 0 then dec_map PubCompPacket (pubcomp_decode uc version body)
         else if t = 0x30 then dec_map PublishPacket (publish_decode uc version flags body)
         else if t = 0x50 \<and> flags = 0 then dec_map PubRecPacket (pubrec_decode uc version body)
         else if t = 0x60 \<and> flags = 2 then dec_map PubRelPacket (pubrel_decode uc version body)
         else if t = 0x90 \<and> flags = 0 then dec_map SubAckPacket (suback_decode uc version body)
         else if t = 0x80 \<and> flags = 2 then dec_map SubscribePacket (subscribe_decode uc version body)
         else if t = 0xB0 \<and> flags = 0 then dec_map UnsubAckPacket (unsuback_decode uc version body)
         else if t = 0xA0 \<and> flags = 2 then dec_map UnsubscribePacket (unsubscribe_decode uc version body)
         else Inl (UnrecognizedPacket t flags (length body)))"

definition packet_decode :: "unicode \<Rightarrow> protocol_version \<Rightarrow> u8 \<Rightarrow> bytes \<Rightarrow> decode_error + packet" where
  "packet_decode uc version first_byte body =
     and_then (packet_decode_body uc version first_byte body) (\<lambda>(p, body).
       if body \<noteq> [] then Inl TrailingGarbage else Inr p)"

definition packet_decode_full :: "unicode \<Rightarrow> protocol_version \<Rightarrow> bytes \<Rightarrow> decode_error + packet" where
  "packet_decode_full uc version src =
     and_then (required (decode_fixed_header src)) (\<lambda>((first_byte, remaining_length), src).
       if length src < remaining_length then Inl IncompletePacket
       else if length src > remaining_length then Inl TrailingGarbage
       else packet_decode uc version first_byte src)"

section \<open>Round trip\<close>

primrec packet_ok :: "unicode \<Rightarrow> protocol_version \<Rightarrow> packet \<Rightarrow> bool" where
  "packet_ok uc v (AuthPacket p) = auth_ok uc v p"
| "packet_ok uc v (ConnAckPacket p) = connack_ok uc v p"
| "packet_ok uc v (ConnectPacket p) = connect_ok uc v p"
| "packet_ok uc v (DisconnectPacket p) = disconnect_ok uc v p"
| "packet_ok uc v PingReqPacket = True"
| "packet_ok uc v PingRespPacket = True"
| "packet_ok uc v (PubAckPacket p) = puback_ok uc v p"
| "packet_ok uc v (PubCompPacket p) = pubcomp_ok uc v p"
| "packet_ok uc v (PublishPacket p) = publish_ok uc v p"
| "packet_ok uc v (PubRecPacket p) = pubrec_ok uc v p"
| "packet_ok uc v (PubRelPacket p) = pubrel_ok uc v p"
| "packet_ok uc v (SubAckPacket p) = suback_ok uc v p"
| "packet_ok uc v (SubscribePacket p) = subscribe_ok uc v p"
| "packet_ok uc v (UnsubAckPacket p) = unsuback_ok uc v p"
| "packet_ok uc v (UnsubscribePacket p) = unsubscribe_ok uc v p"

lemma put_done_simps [simp]: "snd put_done = None" "enc_bytes put_done = []"
  by (simp_all add: put_done_def enc_bytes_def)

lemma publish_flags_bits:
  "publish_flags p AND 0x0F = publish_flags p" "(0x30 OR publish_flags p) AND 0xF0 = 0x30"
  "(0x30 OR publish_flags p) AND 0x0F = publish_flags p"
  by (cases "packet_identifier_dup_qos p"; simp add: publish_flags_def)+

lemmas body_roundtrips = auth_roundtrip connack_roundtrip connect_roundtrip disconnect_roundtrip
  puback_roundtrip pubcomp_roundtrip publish_roundtrip pubrec_roundtrip pubrel_roundtrip suback_roundtrip
  subscribe_roundtrip unsuback_roundtrip unsubscribe_roundtrip

lemma packet_body_None: "packet_ok uc v p \<Longrightarrow> utf8_ascii uc \<Longrightarrow> snd (packet_body v p) = None"
  by (cases p) (auto simp: pingreq_encode_def pingresp_encode_def intro: body_roundtrips)

lemma packet_decode_body_wire:
  "packet_ok uc v p \<Longrightarrow> utf8_ascii uc \<Longrightarrow>
     packet_decode uc v (packet_type p OR packet_flags p) (enc_bytes (packet_body v p)) = Inr p"
  by (cases p)
    (simp_all add: packet_decode_def packet_decode_body_def packet_flags_def body_roundtrips(2,4,6,8,10,12,14,16,18,20,22,24,26)
      dec_map_def publish_flags_bits pingreq_encode_def pingresp_encode_def pingreq_decode_def pingresp_decode_def)

lemma packet_encode_bytes:
  assumes "packet_ok uc v p" and "utf8_ascii uc" and "length (enc_bytes (packet_body v p)) < varint_limit"
  shows "snd (packet_encode v p) = None"
    and "enc_bytes (packet_encode v p) =
      (packet_type p OR packet_flags p) # varint_digits 4 (length (enc_bytes (packet_body v p))) @
        enc_bytes (packet_body v p)"
  using packet_body_None [OF assms(1,2)] encode_remaining_length_bytes [OF assms(3)]
  by (simp_all add: packet_encode_def encode_inner_def byte_count_all)

lemma packet_encode_too_long:
  assumes "packet_ok uc v p" and "utf8_ascii uc" and "length (enc_bytes (packet_body v p)) \<ge> varint_limit"
  shows "snd (packet_encode v p) = Some (RemainingLengthTooHigh (length (enc_bytes (packet_body v p))))"
  using packet_body_None [OF assms(1,2)] encode_remaining_length_fails [OF assms(3)]
  by (simp add: packet_encode_def encode_inner_def byte_count_all enc_then_def)

lemma packet_full_roundtrip:
  assumes "packet_ok uc v p" and "utf8_ascii uc" and "snd (packet_encode v p) = None"
  shows "packet_decode_full uc v (enc_bytes (packet_encode v p)) = Inr p"
proof -
  have "length (enc_bytes (packet_body v p)) < varint_limit"
    using packet_encode_too_long [OF assms(1,2)] assms(3) by (metis not_le option.distinct(1))
  then show ?thesis
    using packet_encode_bytes(2) [OF assms(1,2)] packet_decode_body_wire [OF assms(1,2)]
    by (simp add: packet_decode_full_def required_def decode_fixed_header_digits del: power_numeral)
qed

end
