(* ===== verification/Stream_Io.thy ===== *)
theory Stream_Io
  imports Packet_Codec
begin

text \<open>
  \<open>Reader\<close> (src/src/io/reader.rs). The network stream below it is a parameter: a state and the
  function that one \<open>read\<close> call is. A \<open>read\<close> may leave the caller suspended, in which case the
  client may drop the future and call \<open>Reader::read\<close> again: what was read until then stays in the
  buffer of the reader.
\<close>

section \<open>Results of I/O\<close>

datatype io_error =
    UnexpectedEof
  | OtherDecode decode_error
  | OtherEncode encode_error
  | OtherPool
  | StreamError string

datatype 'a io = IoReady 'a | IoErr io_error | IoPending

section \<open>Reader\<close>

type_synonym 's read_fn = "nat \<Rightarrow> 's \<Rightarrow> bytes io \<times> 's"

record 's reader =
  reader_inner :: 's
  reader_buf :: owned

record raw_packet =
  raw_first_byte :: u8
  raw_rest :: bytes

definition owned_drain :: "nat \<Rightarrow> owned \<Rightarrow> owned" where
  "owned_drain n ow = ow\<lparr>filled := drop n (filled ow)\<rparr>"

definition owned_split_to :: "nat \<Rightarrow> owned \<Rightarrow> bytes \<times> owned" where
  "owned_split_to n ow = (take n (filled ow), ow\<lparr>filled := drop n (filled ow)\<rparr>)"

text \<open>One read into the unfilled region; reading nothing is the end of the stream.\<close>

definition reader_fill :: "pool \<Rightarrow> 's read_fn \<Rightarrow> 's reader \<Rightarrow> unit io \<times> 's reader" where
  "reader_fill bp rd r =
     (let ow = owned_unfilled_mut bp (reader_buf r)
      in case rd (unfilled_len ow) (reader_inner r) of
           (IoErr e, s) \<Rightarrow> (IoErr e, r\<lparr>reader_inner := s, reader_buf := ow\<rparr>)
         | (IoPending, s) \<Rightarrow> (IoPending, r\<lparr>reader_inner := s, reader_buf := ow\<rparr>)
         | (IoReady b, s) \<Rightarrow>
             let r' = r\<lparr>reader_inner := s, reader_buf := owned_fill b ow\<rparr>
             in if b = [] then (IoErr UnexpectedEof, r') else (IoReady (), r'))"

lemma reader_fill_grows:
  "reader_fill bp rd r = (IoReady (), r') \<Longrightarrow>
     length (filled (reader_buf r)) < length (filled (reader_buf r'))"
  by (auto simp: reader_fill_def Let_def split: prod.splits io.splits if_splits)

function read_header_loop :: "pool \<Rightarrow> 's read_fn \<Rightarrow> 's reader \<Rightarrow> (nat \<times> u8 \<times> nat) io \<times> 's reader" where
  "read_header_loop bp rd r =
     (let original = filled (reader_buf r)
      in case decode_fixed_header original of
           Inl e \<Rightarrow> (IoErr (OtherDecode e), r)
         | Inr (Some ((first_byte, remaining_length), rest)) \<Rightarrow>
             (IoReady (length original - length rest, first_byte, remaining_length), r)
         | Inr None \<Rightarrow>
             (case owned_reserve bp 5 (reader_buf r) of
                None \<Rightarrow> (IoErr OtherPool, r)
              | Some ow \<Rightarrow>
                  (case reader_fill bp rd (r\<lparr>reader_buf := ow\<rparr>) of
                     (IoErr e, r') \<Rightarrow> (IoErr e, r')
                   | (IoPending, r') \<Rightarrow> (IoPending, r')
                   | (IoReady _, r') \<Rightarrow> read_header_loop bp rd r')))"
  by pat_completeness auto
termination
proof (relation "measure (\<lambda>(bp, rd, r). 5 - length (filled (reader_buf r)))", goal_cases)
  case (2 bp rd r)
  then show ?case
    by (auto simp: owned_reserve_def dest!: decode_fixed_header_incomplete reader_fill_grows [OF sym])
qed simp

declare read_header_loop.simps [simp del]

function read_body_loop :: "pool \<Rightarrow> 's read_fn \<Rightarrow> nat \<Rightarrow> 's reader \<Rightarrow> unit io \<times> 's reader" where
  "read_body_loop bp rd n r =
     (if length (filled (reader_buf r)) < n then
        (case reader_fill bp rd r of
           (IoErr e, r') \<Rightarrow> (IoErr e, r')
         | (IoPending, r') \<Rightarrow> (IoPending, r')
         | (IoReady _, r') \<Rightarrow> read_body_loop bp rd n r')
      else (IoReady (), r))"
  by pat_completeness auto
termination
  by (relation "measure (\<lambda>(bp, rd, n, r). n - length (filled (reader_buf r)))")
    (auto dest!: reader_fill_grows [OF sym])

declare read_body_loop.simps [simp del]

text \<open>The room for the rest of the packet, asked for once when the header is there.\<close>

definition reserve_packet :: "pool \<Rightarrow> nat \<Rightarrow> owned \<Rightarrow> owned option" where
  "reserve_packet bp n ow =
     (if length (filled ow) \<le> n then owned_reserve bp (n - length (filled ow)) ow else Some ow)"

definition reader_read :: "pool \<Rightarrow> 's read_fn \<Rightarrow> 's reader \<Rightarrow> raw_packet io \<times> 's reader" where
  "reader_read bp rd r =
     (case read_header_loop bp rd r of
        (IoErr e, r) \<Rightarrow> (IoErr e, r)
      | (IoPending, r) \<Rightarrow> (IoPending, r)
      | (IoReady (fixed_header_len, first_byte, remaining_length), r) \<Rightarrow>
          (case reserve_packet bp (fixed_header_len + remaining_length) (reader_buf r) of
             None \<Rightarrow> (IoErr OtherPool, r)
           | Some ow \<Rightarrow>
               (case read_body_loop bp rd (fixed_header_len + remaining_length) (r\<lparr>reader_buf := ow\<rparr>) of
                  (IoErr e, r) \<Rightarrow> (IoErr e, r)
                | (IoPending, r) \<Rightarrow> (IoPending, r)
                | (IoReady _, r) \<Rightarrow>
                    let (rest, ow) = owned_split_to remaining_length (owned_drain fixed_header_len (reader_buf r))
                    in (IoReady \<lparr>raw_first_byte = first_byte, raw_rest = rest\<rparr>, r\<lparr>reader_buf := ow\<rparr>))))"

subsection \<open>What a stream promises\<close>

text \<open>
  \<open>incoming s\<close> is what the peer sends from the state \<open>s\<close> on until it closes the connection. A
  completed read gives a part of it, empty only at the end or when there is no room; one that
  fails or is dropped while suspended takes nothing.
\<close>

definition readable :: "'s read_fn \<Rightarrow> ('s \<Rightarrow> bytes) \<Rightarrow> bool" where
  "readable rd incoming \<longleftrightarrow>
     (\<forall>n s. case rd n s of
        (IoReady b, s') \<Rightarrow>
          length b \<le> n \<and> incoming s = b @ incoming s' \<and> (b = [] \<longrightarrow> n = 0 \<or> incoming s = [])
      | (_, s') \<Rightarrow> incoming s' = incoming s)"

text \<open>A stream, and a buffer pool, that never fail and never keep the caller waiting.\<close>

definition flowing :: "'s read_fn \<Rightarrow> bool" where
  "flowing rd \<longleftrightarrow> (\<forall>n s. \<exists>b. fst (rd n s) = IoReady b)"

definition pool_total :: "pool \<Rightarrow> bool" where
  "pool_total bp \<longleftrightarrow> (\<forall>u n. pool_reserve bp u n \<noteq> None)"

text \<open>All that the reader has and will have.\<close>

definition unread :: "('s \<Rightarrow> bytes) \<Rightarrow> 's reader \<Rightarrow> bytes" where
  "unread incoming r = filled (reader_buf r) @ incoming (reader_inner r)"

lemma owned_reserve_filled: "owned_reserve bp n ow = Some ow' \<Longrightarrow> filled ow' = filled ow"
  by (auto simp: owned_reserve_def)

lemma reserve_packet_filled: "reserve_packet bp n ow = Some ow' \<Longrightarrow> filled ow' = filled ow"
  by (auto simp: reserve_packet_def owned_reserve_filled split: if_splits)

lemma readable_at:
  assumes "readable rd incoming"
  shows "case rd n s of
        (IoReady b, s') \<Rightarrow>
          length b \<le> n \<and> incoming s = b @ incoming s' \<and> (b = [] \<longrightarrow> n = 0 \<or> incoming s = [])
      | (_, s') \<Rightarrow> incoming s' = incoming s"
  using assms by (simp add: readable_def)

lemma readable_cases:
  assumes "readable rd incoming"
  shows "rd n s = (IoReady b, s') \<Longrightarrow>
      length b \<le> n \<and> incoming s = b @ incoming s' \<and> (b = [] \<longrightarrow> n = 0 \<or> incoming s = [])"
    and "rd n s = (IoErr e, s') \<Longrightarrow> incoming s' = incoming s"
    and "rd n s = (IoPending, s') \<Longrightarrow> incoming s' = incoming s"
  using readable_at [OF assms, of n s] by auto

lemma reader_fill_unread:
  "readable rd incoming \<Longrightarrow> reader_fill bp rd r = (x, r') \<Longrightarrow> unread incoming r' = unread incoming r"
  by (auto simp: reader_fill_def Let_def unread_def dest: readable_cases
      split: prod.splits io.splits if_splits)

lemma read_body_loop_step:
  assumes "length (filled (reader_buf r)) < n"
  shows "reader_fill bp rd r = (IoReady (), r1) \<Longrightarrow> read_body_loop bp rd n r = read_body_loop bp rd n r1"
    and "reader_fill bp rd r = (IoErr e, r1) \<Longrightarrow> read_body_loop bp rd n r = (IoErr e, r1)"
    and "reader_fill bp rd r = (IoPending, r1) \<Longrightarrow> read_body_loop bp rd n r = (IoPending, r1)"
  using assms by (simp_all add: read_body_loop.simps [of bp rd n r])

lemma read_body_loop_done: "n \<le> length (filled (reader_buf r)) \<Longrightarrow> read_body_loop bp rd n r = (IoReady (), r)"
  by (simp add: read_body_loop.simps [of bp rd n r])

lemma read_body_loop_unread:
  "readable rd incoming \<Longrightarrow> read_body_loop bp rd n r = (x, r') \<Longrightarrow>
     unread incoming r' = unread incoming r \<and> (x = IoReady () \<longrightarrow> n \<le> length (filled (reader_buf r')))"
proof (induction bp rd n r arbitrary: x r' rule: read_body_loop.induct)
  case (1 bp rd n r)
  show ?case
  proof (cases "length (filled (reader_buf r)) < n")
    case True
    obtain y r1 where fill: "reader_fill bp rd r = (y, r1)" by fastforce
    note same = reader_fill_unread [OF 1(2) fill] and step = read_body_loop_step [OF True]
    show ?thesis
    proof (cases y)
      case (IoReady u)
      then show ?thesis using 1(1) [OF True fill [symmetric] IoReady 1(2)] 1(3) fill same step(1) by auto
    qed (use 1(3) fill same step in auto)
  qed (use 1(3) in \<open>auto simp: read_body_loop_done\<close>)
qed

lemma read_header_loop_step:
  assumes "decode_fixed_header (filled (reader_buf r)) = Inr None"
    and "owned_reserve bp 5 (reader_buf r) = Some ow"
  shows "reader_fill bp rd (r\<lparr>reader_buf := ow\<rparr>) = (IoReady (), r1) \<Longrightarrow>
      read_header_loop bp rd r = read_header_loop bp rd r1"
    and "reader_fill bp rd (r\<lparr>reader_buf := ow\<rparr>) = (IoErr e, r1) \<Longrightarrow> read_header_loop bp rd r = (IoErr e, r1)"
    and "reader_fill bp rd (r\<lparr>reader_buf := ow\<rparr>) = (IoPending, r1) \<Longrightarrow> read_header_loop bp rd r = (IoPending, r1)"
  using assms by (simp_all add: read_header_loop.simps [of bp rd r] Let_def)

lemma read_header_loop_done:
  "decode_fixed_header (filled (reader_buf r)) = Inl e \<Longrightarrow> read_header_loop bp rd r = (IoErr (OtherDecode e), r)"
  "decode_fixed_header (filled (reader_buf r)) = Inr (Some ((fb, n), rest)) \<Longrightarrow>
     read_header_loop bp rd r = (IoReady (length (filled (reader_buf r)) - length rest, fb, n), r)"
  "decode_fixed_header (filled (reader_buf r)) = Inr None \<Longrightarrow> owned_reserve bp 5 (reader_buf r) = None \<Longrightarrow>
     read_header_loop bp rd r = (IoErr OtherPool, r)"
  by (simp_all add: read_header_loop.simps [of bp rd r] Let_def)

lemma read_header_loop_unread:
  "readable rd incoming \<Longrightarrow> read_header_loop bp rd r = (x, r') \<Longrightarrow>
     unread incoming r' = unread incoming r \<and>
     (\<forall>k fb n. x = IoReady (k, fb, n) \<longrightarrow>
        (\<exists>rest. decode_fixed_header (filled (reader_buf r')) = Inr (Some ((fb, n), rest)) \<and>
          k = length (filled (reader_buf r')) - length rest))"
proof (induction bp rd r arbitrary: x r' rule: read_header_loop.induct)
  case (1 bp rd r)
  consider (fail) e where "decode_fixed_header (filled (reader_buf r)) = Inl e"
    | (header) fb n rest where "decode_fixed_header (filled (reader_buf r)) = Inr (Some ((fb, n), rest))"
    | (pool) "decode_fixed_header (filled (reader_buf r)) = Inr None" "owned_reserve bp 5 (reader_buf r) = None"
    | (fill) ow y r1 where "decode_fixed_header (filled (reader_buf r)) = Inr None"
        "owned_reserve bp 5 (reader_buf r) = Some ow" "reader_fill bp rd (r\<lparr>reader_buf := ow\<rparr>) = (y, r1)"
    by (cases "decode_fixed_header (filled (reader_buf r))") (auto, metis not_Some_eq prod.collapse)
  then show ?case
  proof cases
    case fill
    have same: "unread incoming r1 = unread incoming r"
      using reader_fill_unread [OF 1(2) fill(3)] owned_reserve_filled [OF fill(2)] by (simp add: unread_def)
    note step = read_header_loop_step [OF fill(1,2)]
    show ?thesis
    proof (cases y)
      case (IoReady u)
      then show ?thesis
        using 1(1) [OF refl fill(1) refl fill(2) fill(3) [symmetric] IoReady 1(2)] 1(3) fill(3) same step(1) by auto
    qed (use 1(3) fill(3) same step in auto)
  qed (use 1(3) in \<open>auto simp: read_header_loop_done\<close>)
qed

subsection \<open>Reassembly of packets\<close>

lemma decode_varint_loop_suffix:
  "decode_varint_loop v n src = Inr (Some (w, rest)) \<Longrightarrow> \<exists>pre. src = pre @ rest"
  by (induction v n src rule: decode_varint_loop.induct)
    (auto simp: Let_def split: if_splits, metis append_Cons)

lemma decode_varint_loop_error_append:
  "decode_varint_loop v n src = Inl e \<Longrightarrow> decode_varint_loop v n (src @ later) = Inl e"
  by (induction v n src rule: decode_varint_loop.induct) (auto simp: Let_def split: if_splits)

lemma decode_fixed_header_suffix:
  assumes "decode_fixed_header src = Inr (Some (h, rest))"
  obtains pre where "src = pre @ rest"
  using assms decode_varint_loop_suffix
  by (cases src)
    (fastforce simp: decode_fixed_header_def decode_remaining_length_def decode_varint_def and_then_eq_Inr)+

lemma decode_fixed_header_error_append:
  "decode_fixed_header src = Inl e \<Longrightarrow> decode_fixed_header (src @ later) = Inl e"
  by (cases src) (auto simp: decode_fixed_header_def decode_remaining_length_def decode_varint_def
      and_then_eq_Inl decode_varint_loop_error_append)

lemma reader_read_unread:
  assumes rd: "readable rd incoming" and read: "reader_read bp rd r = (x, r')"
  shows "case x of
      IoReady raw \<Rightarrow>
        decode_fixed_header (unread incoming r) =
          Inr (Some ((raw_first_byte raw, length (raw_rest raw)), raw_rest raw @ unread incoming r'))
    | _ \<Rightarrow> unread incoming r' = unread incoming r"
proof -
  obtain y r1 where header: "read_header_loop bp rd r = (y, r1)" by fastforce
  note same1 = read_header_loop_unread [OF rd header]
  show ?thesis
  proof (cases y)
    case (IoReady h)
    then obtain k fb n where h: "y = IoReady (k, fb, n)" by (metis prod_cases3)
    with same1 obtain rest where rest: "decode_fixed_header (filled (reader_buf r1)) = Inr (Some ((fb, n), rest))"
      and k: "k = length (filled (reader_buf r1)) - length rest" by blast
    show ?thesis
    proof (cases "reserve_packet bp (k + n) (reader_buf r1)")
      case (Some ow)
      obtain z r2 where body: "read_body_loop bp rd (k + n) (r1\<lparr>reader_buf := ow\<rparr>) = (z, r2)" by fastforce
      have same2: "unread incoming r2 = unread incoming r"
        "z = IoReady () \<longrightarrow> k + n \<le> length (filled (reader_buf r2))"
        using read_body_loop_unread [OF rd body] same1 reserve_packet_filled [OF Some] by (simp_all add: unread_def)
      show ?thesis
      proof (cases z)
        case (IoReady u)
        define U where "U = unread incoming r"
        obtain pre where "filled (reader_buf r1) = pre @ rest" by (rule decode_fixed_header_suffix [OF rest])
        then have "rest @ incoming (reader_inner r1) = drop k U"
          using same1 k unfolding U_def unread_def by (metis append_assoc append_eq_conv_conj diff_add_inverse2 length_append)
        then have "decode_fixed_header U = Inr (Some ((fb, n), drop k U))"
          using decode_fixed_header_append [OF rest, of "incoming (reader_inner r1)"] same1
          by (simp add: U_def unread_def)
        moreover have "drop k U = take n (drop k (filled (reader_buf r2))) @
            drop (n + k) (filled (reader_buf r2)) @ incoming (reader_inner r2)"
          unfolding U_def same2(1) [symmetric] using same2(2) IoReady
          by (simp add: unread_def flip: append_assoc drop_drop)
        ultimately show ?thesis
          using read same2 h header Some body IoReady
          by (auto simp: reader_read_def owned_split_to_def owned_drain_def unread_def U_def add.commute)
      qed (use read same2 h header Some body in \<open>auto simp: reader_read_def\<close>)
    qed (use read same1 h header in \<open>auto simp: reader_read_def\<close>)
  qed (use read same1 header in \<open>auto simp: reader_read_def\<close>)
qed

text \<open>While bytes of the packet are missing, a stream that flows brings at least one of them.\<close>

lemma reader_fill_ready:
  assumes "readable rd incoming" and "flowing rd" and "pool_ok bp"
    and "0 < unfilled_len (reader_buf r)" and "incoming (reader_inner r) \<noteq> []"
  obtains b r' where "reader_fill bp rd r = (IoReady (), r')"
    and "filled (reader_buf r') = filled (reader_buf r) @ b"
    and "length b + unfilled_len (reader_buf r') \<ge> unfilled_len (reader_buf r)"
proof -
  define u where "u = pool_unfilled_mut bp (unfilled_len (reader_buf r))"
  have u: "unfilled_len (reader_buf r) \<le> u" using assms(3) by (simp add: pool_ok_def u_def)
  obtain b s where b: "rd u (reader_inner r) = (IoReady b, s)"
    using assms(2) unfolding flowing_def by (metis prod.collapse)
  have "length b \<le> u" "b \<noteq> []" using readable_cases(1) [OF assms(1) b] assms(4,5) u by auto
  with b u show ?thesis
    by (intro that) (auto simp: reader_fill_def owned_unfilled_mut_def owned_fill_def u_def Let_def)
qed

lemma read_body_loop_ready:
  assumes "readable rd incoming" and "flowing rd" and "pool_ok bp"
    and "n \<le> length (filled (reader_buf r)) + unfilled_len (reader_buf r)"
    and "n \<le> length (unread incoming r)"
  shows "fst (read_body_loop bp rd n r) = IoReady ()"
  using assms
proof (induction bp rd n r rule: read_body_loop.induct)
  case (1 bp rd n r)
  show ?case
  proof (cases "length (filled (reader_buf r)) < n")
    case True
    then have "0 < unfilled_len (reader_buf r)" "incoming (reader_inner r) \<noteq> []"
      using 1(5,6) by (auto simp: unread_def)
    then obtain b r1 where fill: "reader_fill bp rd r = (IoReady (), r1)"
      "filled (reader_buf r1) = filled (reader_buf r) @ b"
      "length b + unfilled_len (reader_buf r1) \<ge> unfilled_len (reader_buf r)"
      using reader_fill_ready [OF 1(2-4)] by metis
    have "unread incoming r1 = unread incoming r" by (rule reader_fill_unread [OF 1(2) fill(1)])
    then show ?thesis
      using 1(1) [OF True fill(1) [symmetric] refl 1(2-4)] 1(5,6) fill read_body_loop_step(1) [OF True fill(1)]
      by simp
  qed (simp add: read_body_loop_done)
qed

lemma owned_reserve_total:
  assumes "pool_ok bp" and "pool_total bp"
  obtains ow' where "owned_reserve bp n ow = Some ow'" and "n \<le> unfilled_len ow'" and "filled ow' = filled ow"
proof -
  obtain u where u: "pool_reserve bp (unfilled_len ow) n = Some u"
    using assms(2) unfolding pool_total_def by blast
  moreover have "n \<le> u" using assms(1) u unfolding pool_ok_def by blast
  ultimately show thesis by (intro that [of "ow\<lparr>unfilled_len := u\<rparr>"]) (simp_all add: owned_reserve_def)
qed

lemma read_header_loop_ready:
  assumes "readable rd incoming" and "flowing rd" and "pool_ok bp" and "pool_total bp"
    and "decode_fixed_header (unread incoming r) = Inr (Some (h, body))"
  shows "\<exists>y. fst (read_header_loop bp rd r) = IoReady y"
  using assms
proof (induction bp rd r rule: read_header_loop.induct)
  case (1 bp rd r)
  show ?case
  proof (cases "decode_fixed_header (filled (reader_buf r))")
    case (Inl e)
    then show ?thesis using 1(6) decode_fixed_header_error_append [OF Inl] by (simp add: unread_def)
  next
    case (Inr v)
    show ?thesis
    proof (cases v)
      case None
      obtain ow where ow: "owned_reserve bp 5 (reader_buf r) = Some ow" "5 \<le> unfilled_len ow" "filled ow = filled (reader_buf r)"
        by (rule owned_reserve_total [OF 1(4,5)])
      have "incoming (reader_inner r) \<noteq> []" using 1(6) Inr None by (auto simp: unread_def)
      then obtain b r1 where fill: "reader_fill bp rd (r\<lparr>reader_buf := ow\<rparr>) = (IoReady (), r1)"
        using reader_fill_ready [OF 1(2-4), of "r\<lparr>reader_buf := ow\<rparr>"] ow by auto
      have "unread incoming r1 = unread incoming r"
        using reader_fill_unread [OF 1(2) fill] ow by (simp add: unread_def)
      then show ?thesis
        using 1(1) [OF refl Inr None ow(1) fill [symmetric] refl 1(2-5)] 1(6)
          read_header_loop_step(1) [OF Inr [unfolded None] ow(1) fill] by simp
    next
      case (Some w)
      then show ?thesis using Inr by (cases w; cases "fst w") (auto simp: read_header_loop_done)
    qed
  qed
qed

theorem reader_read_ready:
  assumes rd: "readable rd incoming" and "flowing rd" and bp: "pool_ok bp" and "pool_total bp"
    and packet: "decode_fixed_header (unread incoming r) = Inr (Some ((fb, n), body))" and "n \<le> length body"
  shows "\<exists>r'. reader_read bp rd r = (IoReady \<lparr>raw_first_byte = fb, raw_rest = take n body\<rparr>, r') \<and>
    unread incoming r' = drop n body"
proof -
  obtain k fb' n' r1 where header: "read_header_loop bp rd r = (IoReady (k, fb', n'), r1)"
    using read_header_loop_ready [OF assms(1-5)] by (metis prod.collapse)
  obtain rest where rest: "decode_fixed_header (filled (reader_buf r1)) = Inr (Some ((fb', n'), rest))"
    and k: "k = length (filled (reader_buf r1)) - length rest"
    and same: "unread incoming r1 = unread incoming r" using read_header_loop_unread [OF rd header] by blast
  have hd: "fb' = fb" "n' = n" "rest @ incoming (reader_inner r1) = body"
    using decode_fixed_header_append [OF rest, of "incoming (reader_inner r1)"] packet same by (auto simp: unread_def)
  obtain ow where ow: "reserve_packet bp (k + n) (reader_buf r1) = Some ow"
      "k + n \<le> length (filled ow) + unfilled_len ow" "filled ow = filled (reader_buf r1)"
  proof (cases "length (filled (reader_buf r1)) \<le> k + n")
    case True
    obtain ow where "owned_reserve bp (k + n - length (filled (reader_buf r1))) (reader_buf r1) = Some ow"
      "k + n - length (filled (reader_buf r1)) \<le> unfilled_len ow" "filled ow = filled (reader_buf r1)"
      by (rule owned_reserve_total [OF assms(3,4)])
    with True show thesis by (intro that [of ow]) (simp_all add: reserve_packet_def)
  next
    case False
    then show thesis by (intro that [of "reader_buf r1"]) (simp_all add: reserve_packet_def)
  qed
  have "fst (read_body_loop bp rd (k + n) (r1\<lparr>reader_buf := ow\<rparr>)) = IoReady ()"
    using ow hd(3) \<open>n \<le> length body\<close> k decode_fixed_header_shorter [OF rest]
    by (intro read_body_loop_ready [OF assms(1-3)]) (auto simp: unread_def)
  then obtain raw r' where read: "reader_read bp rd r = (IoReady raw, r')"
    using header ow(1) hd by (cases "read_body_loop bp rd (k + n) (r1\<lparr>reader_buf := ow\<rparr>)")
      (auto simp: reader_read_def owned_split_to_def)
  from reader_read_unread [OF rd read] packet show ?thesis using read by (cases raw) auto
qed

end
