(* ===== verification/Stream_Writer.thy ===== *)
theory Stream_Writer
  imports Stream_Io
begin

text \<open>
  \<open>Writer\<close> (src/src/io/writer.rs): packets are encoded into an \<open>EitherAccumulator\<close> and leave it by
  vectored writes of at most 128 slices. A panic of the sources is \<open>None\<close>.
\<close>

section \<open>Flushing\<close>

type_synonym 's write_fn = "bytes list \<Rightarrow> 's \<Rightarrow> (io_error + nat) \<times> 's"
type_synonym 's flush_fn = "'s \<Rightarrow> (io_error + unit) \<times> 's"

record 's writer =
  writer_inner :: 's
  writer_buf :: either_accumulator

text \<open>\<open>IoSlice::advance_slices\<close> of the standard library; \<open>None\<close> is its assertion.\<close>

fun advance_slices :: "nat \<Rightarrow> bytes list \<Rightarrow> bytes list option" where
  "advance_slices n [] = (if n = 0 then Some [] else None)"
| "advance_slices n (b # bs) =
     (if length b \<le> n then advance_slices (n - length b) bs else Some (drop n b # bs))"

text \<open>The inner loop writes until all \<open>total_len\<close> bytes of the slices have left.\<close>

function write_loop ::
  "'s write_fn \<Rightarrow> nat \<Rightarrow> bytes list \<Rightarrow> nat \<Rightarrow> 's \<Rightarrow> ((io_error + nat) \<times> 's) option"
where
  "write_loop wv total_len iovecs written s =
     (if written < total_len then
        (case wv iovecs s of
           (Inl e, s') \<Rightarrow> Some (Inl e, s')
         | (Inr n, s') \<Rightarrow>
             if n = 0 then Some (Inl UnexpectedEof, s')
             else if written + n < total_len then
               (case advance_slices n iovecs of
                  None \<Rightarrow> None
                | Some iovecs' \<Rightarrow> write_loop wv total_len iovecs' (written + n) s')
             else Some (Inr (written + n), s'))
      else Some (Inr written, s))"
  by pat_completeness auto
termination
  by (relation "measure (\<lambda>(wv, total_len, iovecs, written, s). total_len - written)") auto

declare write_loop.simps [simp del]

text \<open>Every round of the outer loop removes at least one chunk, whatever the stream reports.\<close>

primrec chunk_count :: "either_accumulator \<Rightarrow> nat" where
  "chunk_count (Iovecs a) = length (chunks a)"
| "chunk_count (Single a) = (if a = [] then 0 else 1)"

lemma drain_slow_chunks: "drain_slow n cs t = Some (cs', t') \<Longrightarrow> length cs' \<le> length cs"
  by (induction n cs t rule: drain_slow.induct) (force split: if_splits)+

lemma write_loop_written:
  "write_loop wv total_len iovecs written s = Some (Inr n, s') \<Longrightarrow> total_len \<le> n"
proof (induction wv total_len iovecs written s rule: write_loop.induct)
  case (1 wv total_len iovecs written s)
  show ?case
    using 1(2) 1(1)
    by (subst (asm) write_loop.simps) (auto split: if_splits prod.splits sum.splits option.splits)
qed

lemma either_drain_chunks:
  assumes "either_to_iovecs 128 a = Some iovecs" and "iovecs \<noteq> []"
    and "length (concat iovecs) \<le> n" and "either_drain n a = Some a'"
  shows "chunk_count a' < chunk_count a"
proof (cases a)
  case (Iovecs i)
  obtain c cs where c: "chunks i = c # cs"
    using assms(1,2) Iovecs by (cases "chunks i") (auto simp: iovecs_to_iovecs_def split: if_splits)
  with assms(1,3) Iovecs have "length c \<le> n" by (auto simp: iovecs_to_iovecs_def split: if_splits)
  with assms(4) Iovecs c show ?thesis
    by (auto simp: iovecs_drain_def split: if_splits dest!: drain_slow_chunks)
next
  case (Single b)
  with assms show ?thesis by (auto simp: single_to_iovecs_def single_drain_def split: if_splits)
qed

function writer_flush :: "'s write_fn \<Rightarrow> 's flush_fn \<Rightarrow> 's writer \<Rightarrow> ((io_error + unit) \<times> 's writer) option" where
  "writer_flush wv fl w =
     (case either_to_iovecs 128 (writer_buf w) of
        None \<Rightarrow> None
      | Some iovecs \<Rightarrow>
          if iovecs = [] then
            (case fl (writer_inner w) of (x, s) \<Rightarrow> Some (x, w\<lparr>writer_inner := s\<rparr>))
          else
            (case write_loop wv (length (concat iovecs)) iovecs 0 (writer_inner w) of
               None \<Rightarrow> None
             | Some (Inl e, s) \<Rightarrow> Some (Inl e, w\<lparr>writer_inner := s\<rparr>)
             | Some (Inr written, s) \<Rightarrow>
                 (case either_drain written (writer_buf w) of
                    None \<Rightarrow> None
                  | Some buf \<Rightarrow> writer_flush wv fl (w\<lparr>writer_inner := s, writer_buf := buf\<rparr>))))"
  by pat_completeness auto
termination
  by (relation "measure (\<lambda>(wv, fl, w). chunk_count (writer_buf w))")
    (auto intro!: either_drain_chunks write_loop_written)

declare writer_flush.simps [simp del]

section \<open>Writing a packet\<close>

text \<open>Room for one more packet. The assertion that a drained buffer accepts more is checked, as in a debug build.\<close>

definition writer_make_room :: "'s write_fn \<Rightarrow> 's flush_fn \<Rightarrow> 's writer \<Rightarrow> ((io_error + unit) \<times> 's writer) option" where
  "writer_make_room wv fl w =
     (if either_can_accept_more (writer_buf w) then Some (Inr (), w)
      else case writer_flush wv fl w of
             None \<Rightarrow> None
           | Some (Inl e, w) \<Rightarrow> Some (Inl e, w)
           | Some (Inr _, w) \<Rightarrow> if either_can_accept_more (writer_buf w) then Some (Inr (), w) else None)"

definition writer_write ::
  "pool \<Rightarrow> 's write_fn \<Rightarrow> 's flush_fn \<Rightarrow> protocol_version \<Rightarrow> packet \<Rightarrow> 's writer \<Rightarrow>
     ((io_error + unit) \<times> 's writer) option"
where
  "writer_write bp wv fl version p w =
     (case writer_make_room wv fl w of
        None \<Rightarrow> None
      | Some (Inl e, w) \<Rightarrow> Some (Inl e, w)
      | Some (Inr _, w) \<Rightarrow>
          (case byte_count False (packet_encode version p) of
             (_, Some e) \<Rightarrow> Some (Inl (OtherEncode e), w)
           | (num_bytes_needed, None) \<Rightarrow>
               (case either_reserve bp num_bytes_needed (writer_buf w) of
                  None \<Rightarrow> Some (Inl OtherPool, w)
                | Some buf \<Rightarrow>
                    (case run_either bp (packet_encode version p) buf of
                       (buf, Some e) \<Rightarrow> Some (Inl (OtherEncode e), w\<lparr>writer_buf := buf\<rparr>)
                     | (buf, None) \<Rightarrow> Some (Inr (), w\<lparr>writer_buf := buf\<rparr>)))))"

section \<open>What a stream promises\<close>

text \<open>
  \<open>sent s\<close> is what the peer has been given up to the state \<open>s\<close>. A completed write takes a prefix of
  the slices and reports its length; one that fails takes nothing.
\<close>

definition writable :: "'s write_fn \<Rightarrow> 's flush_fn \<Rightarrow> ('s \<Rightarrow> bytes) \<Rightarrow> bool" where
  "writable wv fl sent \<longleftrightarrow>
     (\<forall>iovecs s. case wv iovecs s of
        (Inr n, s') \<Rightarrow> n \<le> length (concat iovecs) \<and> sent s' = sent s @ take n (concat iovecs)
      | (Inl _, s') \<Rightarrow> sent s' = sent s) \<and>
     (\<forall>s. sent (snd (fl s)) = sent s)"

lemma writable_cases:
  assumes "writable wv fl sent"
  shows "wv iovecs s = (Inr n, s') \<Longrightarrow> n \<le> length (concat iovecs) \<and> sent s' = sent s @ take n (concat iovecs)"
    and "wv iovecs s = (Inl e, s') \<Longrightarrow> sent s' = sent s"
    and "sent (snd (fl s)) = sent s"
proof -
  have "case wv iovecs s of
        (Inr n, s') \<Rightarrow> n \<le> length (concat iovecs) \<and> sent s' = sent s @ take n (concat iovecs)
      | (Inl _, s') \<Rightarrow> sent s' = sent s" and "sent (snd (fl s)) = sent s"
    using assms by (simp_all add: writable_def)
  then show "wv iovecs s = (Inr n, s') \<Longrightarrow> n \<le> length (concat iovecs) \<and> sent s' = sent s @ take n (concat iovecs)"
    and "wv iovecs s = (Inl e, s') \<Longrightarrow> sent s' = sent s" and "sent (snd (fl s)) = sent s" by auto
qed

lemma advance_slices_drops:
  "n \<le> length (concat iovecs) \<Longrightarrow>
     \<exists>iovecs'. advance_slices n iovecs = Some iovecs' \<and> concat iovecs' = drop n (concat iovecs)"
  by (induction n iovecs rule: advance_slices.induct) auto

text \<open>What a run of a part of the writer has sent: all it had to, or a part of it before an error.\<close>

definition sent_part :: "io_error + 'a \<Rightarrow> bytes \<Rightarrow> bytes \<Rightarrow> bytes \<Rightarrow> bool" where
  "sent_part x todo before after \<longleftrightarrow>
     (case x of Inr _ \<Rightarrow> after = before @ todo | Inl _ \<Rightarrow> \<exists>k. after = before @ take k todo)"

lemma sent_part_later:
  "sent_part x (drop k todo) (before @ take k todo) after \<Longrightarrow> sent_part x todo before after"
  by (cases x) (auto simp: sent_part_def, metis take_add)

lemma write_loop_step:
  assumes "written < total_len"
  shows "wv iovecs s = (Inl e, s') \<Longrightarrow> write_loop wv total_len iovecs written s = Some (Inl e, s')"
    and "wv iovecs s = (Inr n, s') \<Longrightarrow> write_loop wv total_len iovecs written s =
      (if n = 0 then Some (Inl UnexpectedEof, s')
       else if written + n < total_len then
         (case advance_slices n iovecs of
            None \<Rightarrow> None
          | Some iovecs' \<Rightarrow> write_loop wv total_len iovecs' (written + n) s')
       else Some (Inr (written + n), s'))"
  using assms by (simp_all add: write_loop.simps [of wv total_len iovecs written s])

lemma write_loop_sends:
  assumes "writable wv fl sent" and "total_len = written + length (concat iovecs)"
  shows "\<exists>x s'. write_loop wv total_len iovecs written s = Some (x, s') \<and>
    sent_part x (concat iovecs) (sent s) (sent s') \<and> (\<forall>n. x = Inr n \<longrightarrow> n = total_len)"
  using assms
proof (induction wv total_len iovecs written s rule: write_loop.induct)
  case (1 wv total_len iovecs written s)
  show ?case
  proof (cases "written < total_len")
    case True
    obtain y s1 where wr: "wv iovecs s = (y, s1)" by fastforce
    note step = write_loop_step [OF True, where wv = wv and iovecs = iovecs and s = s]
    show ?thesis
    proof (cases y)
      case (Inl e)
      then show ?thesis
        using wr step(1) writable_cases(2) [OF 1(2)] by (fastforce simp: sent_part_def intro: exI [of _ 0])
    next
      case (Inr n)
      have n: "n \<le> length (concat iovecs)" "sent s1 = sent s @ take n (concat iovecs)"
        using writable_cases(1) [OF 1(2)] wr Inr by blast+
      then obtain rest where rest: "advance_slices n iovecs = Some rest" "concat rest = drop n (concat iovecs)"
        using advance_slices_drops by blast
      consider (eof) "n = 0" | (again) "n \<noteq> 0" "written + n < total_len" | (all) "n \<noteq> 0" "\<not> written + n < total_len"
        by blast
      then show ?thesis
      proof cases
        case eof
        then show ?thesis
          using wr Inr step(2) n(2) by (fastforce simp: sent_part_def intro: exI [of _ 0])
      next
        case again
        have "total_len = written + n + length (concat rest)" using 1(3) n(1) rest(2) by simp
        from 1(1) [OF True wr [symmetric] Inr again rest(1) 1(2) this] obtain x s' where
          "write_loop wv total_len rest (written + n) s1 = Some (x, s')"
          "sent_part x (concat rest) (sent s1) (sent s')" "\<forall>n. x = Inr n \<longrightarrow> n = total_len" by blast
        then show ?thesis
          using again step(2) [OF wr [unfolded Inr]] rest n(2) sent_part_later [of x n "concat iovecs" "sent s" "sent s'"] by simp
      next
        case all
        then show ?thesis using wr Inr step(2) 1(3) n by (auto simp: sent_part_def)
      qed
    qed
  next
    case False
    then have "length (concat iovecs) = 0" using 1(3) by linarith
    then have "concat iovecs = []" and "total_len = written" using 1(3) by (blast dest: length_0_conv [THEN iffD1], linarith)
    then show ?thesis using False by (simp add: sent_part_def write_loop.simps [of wv _ iovecs])
  qed
qed

lemma either_batch:
  assumes "either_inv a" and "either_committed a"
  obtains iovecs a' where "either_to_iovecs 128 a = Some iovecs"
    and "iovecs = [] \<longleftrightarrow> either_view a = []"
    and "either_drain (length (concat iovecs)) a = Some a'" and "either_inv a'" and "either_committed a'"
    and "concat iovecs @ either_view a' = either_view a"
proof (cases a)
  case (Iovecs i)
  define iovecs where "iovecs = take 128 (chunks i)"
  have split: "concat (chunks i) = concat iovecs @ concat (drop 128 (chunks i))"
    unfolding iovecs_def by (metis append_take_drop_id concat_append)
  have inv: "iovecs_inv i" and filled: "filled (acc_owned i) = []" using assms Iovecs by auto
  then have "length (concat iovecs) \<le> total_size i" using split by (simp add: iovecs_inv_def)
  from iovecs_drain_drops [OF inv this filled] obtain i' where i':
    "iovecs_drain (length (concat iovecs)) i = Some i'" "iovecs_inv i'" "acc_owned i' = acc_owned i"
    "iovecs_view i' = drop (length (concat iovecs)) (iovecs_view i)" by blast
  have "iovecs = [] \<longleftrightarrow> iovecs_view i = []"
    using inv filled by (cases "chunks i") (auto simp: iovecs_def iovecs_view_def iovecs_inv_def)
  with that [of iovecs "Iovecs i'"] Iovecs i' filled split show thesis
    by (auto simp: iovecs_to_iovecs_def iovecs_def iovecs_view_def)
next
  case (Single b)
  with that [of "single_to_iovecs b" "Single []"] show thesis
    by (auto simp: single_to_iovecs_def single_drain_def)
qed

theorem writer_flush_sends:
  assumes "writable wv fl sent" and "either_inv (writer_buf w)" and "either_committed (writer_buf w)"
  shows "\<exists>x w'. writer_flush wv fl w = Some (x, w') \<and>
    sent_part x (either_view (writer_buf w)) (sent (writer_inner w)) (sent (writer_inner w')) \<and>
    either_inv (writer_buf w') \<and> either_committed (writer_buf w') \<and>
    (x = Inr () \<longrightarrow> either_view (writer_buf w') = [])"
  using assms
proof (induction wv fl w rule: writer_flush.induct)
  case (1 wv fl w)
  obtain iovecs a' where batch: "either_to_iovecs 128 (writer_buf w) = Some iovecs"
    "iovecs = [] \<longleftrightarrow> either_view (writer_buf w) = []"
    "either_drain (length (concat iovecs)) (writer_buf w) = Some a'" "either_inv a'" "either_committed a'"
    "concat iovecs @ either_view a' = either_view (writer_buf w)" using either_batch [OF 1(3,4)] by metis
  note unfold = writer_flush.simps [of wv fl w]
  show ?case
  proof (cases "iovecs = []")
    case True
    then show ?thesis
      using batch 1(3,4) writable_cases(3) [OF 1(2), of "writer_inner w"]
      by (cases "fl (writer_inner w)") (auto simp: unfold sent_part_def split: sum.splits)
  next
    case False
    obtain y s1 where loop: "write_loop wv (length (concat iovecs)) iovecs 0 (writer_inner w) = Some (y, s1)"
      "sent_part y (concat iovecs) (sent (writer_inner w)) (sent s1)" "\<forall>n. y = Inr n \<longrightarrow> n = length (concat iovecs)"
      using write_loop_sends [OF 1(2), of "length (concat iovecs)" 0 iovecs "writer_inner w"] by auto
    show ?thesis
    proof (cases y)
      case (Inl e)
      then obtain k where "sent s1 = sent (writer_inner w) @ take k (concat iovecs)"
        using loop(2) by (auto simp: sent_part_def)
      moreover have "take k (concat iovecs) = take (min k (length (concat iovecs))) (either_view (writer_buf w))"
        using batch(6) [symmetric] by (simp add: min_def)
      ultimately show ?thesis
        using batch(1) False loop(1) Inl 1(3,4) by (auto simp: unfold sent_part_def)
    next
      case (Inr n)
      then have n: "n = length (concat iovecs)" "sent s1 = sent (writer_inner w) @ concat iovecs"
        using loop by (auto simp: sent_part_def)
      define w1 where "w1 = w\<lparr>writer_inner := s1, writer_buf := a'\<rparr>"
      have "writer_flush wv fl w = writer_flush wv fl w1"
        using batch(1,3) False loop(1) Inr n(1) by (simp add: unfold w1_def)
      moreover have "sent_part x (either_view a') (sent s1) z \<Longrightarrow>
          sent_part x (either_view (writer_buf w)) (sent (writer_inner w)) z" for x :: "io_error + unit" and z
        using sent_part_later [of x "length (concat iovecs)" "either_view (writer_buf w)"] n(2) batch(6) [symmetric]
        by simp
      ultimately show ?thesis
        using 1(1) [OF batch(1) False loop(1) refl Inr batch(3) [folded n(1)] 1(2)] batch(4,5)
        by (fastforce simp: w1_def)
    qed
  qed
qed

section \<open>Writing keeps packets whole and in order\<close>

lemma run_puts_append:
  "run_puts tp sh dn (ps @ qs) a =
     (case run_puts tp sh dn ps a of (a', None) \<Rightarrow> run_puts tp sh dn qs a' | (a', Some e) \<Rightarrow> (a', Some e))"
  by (induction tp sh dn ps a rule: run_puts.induct) (auto split: prod.splits bool.splits)

lemma either_put_done_commits: "either_committed (either_put_done a)"
  by (cases a) (auto simp: iovecs_put_done_def Let_def)

lemma packet_encode_done:
  assumes "snd (packet_encode v p) = None"
  obtains ps where "packet_encode v p = (ps @ [PutDone], None)"
  using assms
  by (auto simp: packet_encode_def encode_inner_def put_done_def enc_then_def enc_fail_def
      split: prod.splits option.splits)

lemma run_either_packet:
  assumes "pool_ok bp" and "either_inv a" and "either_fits (slice_bytes (packet_encode v p)) a"
    and "snd (packet_encode v p) = None"
  shows "\<exists>a'. run_either bp (packet_encode v p) a = (a', None) \<and>
    either_view a' = either_view a @ enc_bytes (packet_encode v p) \<and> either_inv a' \<and> either_committed a'"
proof -
  obtain a' where a': "run_either bp (packet_encode v p) a = (a', None)"
    "either_view a' = either_view a @ enc_bytes (packet_encode v p)"
    using run_either_fits [OF assms(1,3)] assms(4) by auto
  obtain ps where ps: "packet_encode v p = (ps @ [PutDone], None)" by (rule packet_encode_done [OF assms(4)])
  have "either_inv a'" using run_either_inv [OF assms(2), of bp "packet_encode v p"] a'(1) by simp
  moreover have "either_committed a'"
    using a'(1) either_put_done_commits unfolding ps
    by (auto simp: run_enc_def run_puts_append split: prod.splits option.splits)
  ultimately show ?thesis using a' by blast
qed

text \<open>All bytes that have been sent or wait to be.\<close>

definition written_bytes :: "('s \<Rightarrow> bytes) \<Rightarrow> 's writer \<Rightarrow> bytes" where
  "written_bytes sent w = sent (writer_inner w) @ either_view (writer_buf w)"

definition writer_ok :: "'s writer \<Rightarrow> bool" where
  "writer_ok w \<longleftrightarrow> either_inv (writer_buf w) \<and> either_committed (writer_buf w)"

lemma writer_flush_written:
  assumes "writable wv fl sent" and "writer_ok w"
  obtains x w' where "writer_flush wv fl w = Some (x, w')" and "writer_ok w'"
    and "x = Inr () \<Longrightarrow> written_bytes sent w' = written_bytes sent w \<and> either_view (writer_buf w') = []"
    and "\<exists>k. sent (writer_inner w') = take k (written_bytes sent w)"
proof -
  obtain x w' where flush: "writer_flush wv fl w = Some (x, w')" "either_inv (writer_buf w')"
    "either_committed (writer_buf w')" "x = Inr () \<longrightarrow> either_view (writer_buf w') = []"
    and part: "sent_part x (either_view (writer_buf w)) (sent (writer_inner w)) (sent (writer_inner w'))"
    using writer_flush_sends [OF assms(1)] assms(2) unfolding writer_ok_def by blast
  have "\<exists>k. sent (writer_inner w') = take k (written_bytes sent w)"
  proof (cases x)
    case (Inl e)
    with part obtain k where "sent (writer_inner w') = sent (writer_inner w) @ take k (either_view (writer_buf w))"
      by (auto simp: sent_part_def)
    then show ?thesis
      by (intro exI [of _ "length (sent (writer_inner w)) + k"]) (simp add: written_bytes_def)
  next
    case (Inr u)
    with part show ?thesis
      by (intro exI [of _ "length (written_bytes sent w)"]) (simp add: sent_part_def written_bytes_def)
  qed
  moreover have "written_bytes sent w' = written_bytes sent w \<and> either_view (writer_buf w') = []" if "x = Inr ()"
    using that part flush(4) by (simp add: sent_part_def written_bytes_def)
  ultimately show thesis using flush by (intro that [of x w']) (simp_all add: writer_ok_def)
qed

text \<open>A flush that succeeds ends with a successful flush of the stream below.\<close>

lemma writer_flush_flushes:
  "writer_flush wv fl w = Some (Inr (), w') \<Longrightarrow> \<exists>s. fl s = (Inr (), writer_inner w')"
proof (induction wv fl w rule: writer_flush.induct)
  case (1 wv fl w)
  from 1(2) show ?case
    by (subst (asm) writer_flush.simps)
      (auto split: option.splits if_splits prod.splits sum.splits intro: 1(1) [OF _ _ _ refl refl])
qed

text \<open>A drained buffer accepts more, so the assertion of \<open>write\<close> holds.\<close>

lemma drained_accepts_more:
  "writer_ok w \<Longrightarrow> either_view (writer_buf w) = [] \<Longrightarrow> either_can_accept_more (writer_buf w)"
  by (cases "writer_buf w")
    (auto simp: writer_ok_def iovecs_inv_def iovecs_view_def iovecs_can_accept_more_def, metis list.set_intros(1) list.size(3) neq_Nil_conv zero_less_numeral)

lemma writer_make_room_flushes:
  assumes "writable wv fl sent" and "writer_ok w" and "\<not> either_can_accept_more (writer_buf w)"
  shows "writer_make_room wv fl w = writer_flush wv fl w"
proof -
  obtain x w' where "writer_flush wv fl w = Some (x, w')" "writer_ok w'"
    "x = Inr () \<Longrightarrow> either_view (writer_buf w') = []"
    using writer_flush_written [OF assms(1,2)] by metis
  then show ?thesis using assms(3) drained_accepts_more [of w'] by (cases x) (simp_all add: writer_make_room_def)
qed

text \<open>
  \<open>write\<close> never panics. On success the packet has been added, whole, to what was written before; on
  an encoding error nothing has been; and in every case what the peer has is a prefix of it.
\<close>

theorem writer_write_appends:
  assumes "writable wv fl sent" and "pool_ok bp" and "writer_ok w"
  shows "\<exists>x w'. writer_write bp wv fl v p w = Some (x, w') \<and> writer_ok w' \<and>
    (x = Inr () \<longrightarrow> snd (packet_encode v p) = None \<and>
       written_bytes sent w' = written_bytes sent w @ enc_bytes (packet_encode v p)) \<and>
    (\<forall>e. x = Inl (OtherEncode e) \<and> either_can_accept_more (writer_buf w) \<longrightarrow>
       snd (packet_encode v p) = Some e \<and> w' = w) \<and>
    (\<exists>k. sent (writer_inner w') = take k (written_bytes sent w))"
proof -
  obtain y w1 where room: "writer_make_room wv fl w = Some (y, w1)" "writer_ok w1"
    "y = Inr () \<longrightarrow> written_bytes sent w1 = written_bytes sent w"
    "\<exists>k. sent (writer_inner w1) = take k (written_bytes sent w)"
    "either_can_accept_more (writer_buf w) \<longrightarrow> y = Inr () \<and> w1 = w"
  proof (cases "either_can_accept_more (writer_buf w)")
    case True
    show thesis
      using True assms(3) by (intro that [of "Inr ()" w])
        (auto simp: writer_make_room_def written_bytes_def intro: exI [of _ "length (sent (writer_inner w))"])
  next
    case False
    then show thesis
      using writer_flush_written [OF assms(1,3)] writer_make_room_flushes [OF assms(1,3) False] that by metis
  qed
  show ?thesis
  proof (cases y)
    case (Inl e)
    then show ?thesis using room by (auto simp: writer_write_def)
  next
    case (Inr u)
    note all1 = room(3) [rule_format, OF Inr [simplified]]
    show ?thesis
    proof (cases "snd (packet_encode v p)")
      case (Some e)
      then show ?thesis using room Inr by (auto simp: writer_write_def byte_count_slices)
    next
      case None
      show ?thesis
      proof (cases "either_reserve bp (slice_bytes (packet_encode v p)) (writer_buf w1)")
        case (Some buf)
        have buf: "either_fits (slice_bytes (packet_encode v p)) buf" "either_view buf = either_view (writer_buf w1)"
          "either_inv buf"
          using either_reserve_room [OF assms(2) Some] room(2) either_inv_ops(4) [OF _ Some]
          by (auto simp: writer_ok_def)
        obtain a' where "run_either bp (packet_encode v p) buf = (a', None)"
          "either_view a' = either_view buf @ enc_bytes (packet_encode v p)" "either_inv a'" "either_committed a'"
          using run_either_packet [OF assms(2) buf(3,1) None] by blast
        then show ?thesis
          using room(1,4) Inr None Some all1 buf(2)
          by (simp add: writer_write_def byte_count_slices writer_ok_def written_bytes_def)
      qed (use room Inr None in \<open>auto simp: writer_write_def byte_count_slices\<close>)
    qed
  qed
qed

end
