(* ===== verification/Client_Connection.thy ===== *)
theory Client_Connection
  imports Client_System Stream_Writer
begin

text \<open>
  The connection of src/src/client.rs: receiving a packet (\<open>mqtt_receive\<close>), the connect handshake
  with and without enhanced authentication, the event loop \<open>run_until_disconnect\<close> and the handles
  for disconnecting and reauthenticating. The loop is a state machine: one step is one poll of the
  \<open>select\<close> between the session and the reader, or the writing of one packet in the inner loop.
  Between two steps the application may act. A transport is what the streams, the buffer pool and
  the UTF-8 tables do; all else is the model of the earlier theories.
\<close>

section \<open>Results\<close>

datatype inner_connection_error = InnerIo io_error | InnerProtocol protocol_error

datatype inner_disconnect =
    InnerApplication disconnect
  | InnerServer disconnect
  | InnerPingTimeout

datatype disconnected_event =
    ApplicationDisconnect
  | ServerDisconnect disconnect
  | EventIoError io_error
  | EventProtocolError protocol_error
  | PingTimeout

datatype connect_error =
    ConnectProtocol protocol_error
  | ConnectIo io_error
  | ConnectRejected conn_ack
  | ResponseTimeout

primrec connect_error_from :: "inner_connection_error \<Rightarrow> connect_error" where
  "connect_error_from (InnerIo e) = ConnectIo e"
| "connect_error_from (InnerProtocol e) = ConnectProtocol e"

datatype keep_alive_config =
    ConfigInfinite
  | ConfigDuration u16 nat

primrec keep_alive_from :: "keep_alive_config \<Rightarrow> keep_alive" where
  "keep_alive_from ConfigInfinite = KeepAliveInfinite"
| "keep_alive_from (ConfigDuration ping_after response_timeout) = KeepAliveDuration ping_after"

primrec pingresp_timeout :: "keep_alive_config \<Rightarrow> nat option" where
  "pingresp_timeout ConfigInfinite = None"
| "pingresp_timeout (ConfigDuration ping_after response_timeout) = Some response_timeout"

section \<open>Receiving a packet\<close>

record ('r, 'w) transport =
  tr_pool :: pool
  tr_unicode :: unicode
  tr_read :: "'r read_fn"
  tr_write :: "'w write_fn"
  tr_flush :: "'w flush_fn"

definition mqtt_receive ::
  "('r, 'w) transport \<Rightarrow> 'r reader \<Rightarrow> (inner_connection_error + packet) poll \<times> 'r reader"
where
  "mqtt_receive tr r =
     (case reader_read (tr_pool tr) (tr_read tr) r of
        (IoPending, r) \<Rightarrow> (Pending, r)
      | (IoErr e, r) \<Rightarrow> (Ready (Inl (InnerIo e)), r)
      | (IoReady raw, r) \<Rightarrow>
          (Ready (map_err (\<lambda>e. InnerProtocol (MalformedPacket e))
             (packet_decode (tr_unicode tr) V5 (raw_first_byte raw) (raw_rest raw))), r))"

section \<open>Connections and handles\<close>

record connect_handle =
  handle_session :: session
  handle_client_id :: "byte_str option"

record ('r, 'w) connection =
  conn_session :: session
  conn_reader :: "'r reader"
  conn_writer :: "'w writer"
  conn_client_id :: "byte_str option"
  conn_pingresp_timeout :: "nat option"

record ('r, 'w) enhanced_auth_handle =
  auth_session :: session
  auth_reader :: "'r reader"
  auth_writer :: "'w writer"
  auth_method :: byte_str
  auth_client_id :: "byte_str option"
  auth_keep_alive :: keep_alive_config
  auth_session_expiry_interval :: session_expiry_interval

text \<open>
  The arguments of \<open>connect\<close>, in the packet types that their \<open>Into\<close> conversions give.
\<close>

record connect_args =
  arg_clean_start :: bool
  arg_keep_alive :: keep_alive_config
  arg_will :: "(publication \<times> u32) option"
  arg_username :: "byte_str option"
  arg_password :: "binary_data option"
  arg_properties :: connect_other_properties

datatype ('r, 'w) connect_result =
    ConnectSuccessful "('r, 'w) connection" conn_ack
  | ConnectFailure connect_handle connect_error

datatype ('r, 'w) connect_enhanced_auth_result =
    AuthContinue auth "('r, 'w) enhanced_auth_handle"
  | AuthSuccessful "('r, 'w) connection" conn_ack byte_str
  | AuthFailure connect_handle connect_error

section \<open>The handshake\<close>

definition connect_packet :: "byte_str option \<Rightarrow> connect_args \<Rightarrow> authentication option \<Rightarrow> packet" where
  "connect_packet client_id args authentication_info =
     ConnectPacket
       \<lparr>connect_username = arg_username args, connect_password = arg_password args,
        connect_will = arg_will args, connect_client_id = client_id,
        connect_clean_start = arg_clean_start args,
        connect_keep_alive = keep_alive_from (arg_keep_alive args),
        connect_other_properties =
          (arg_properties args)\<lparr>connect_authentication := authentication_info\<rparr>\<rparr>"

text \<open>\<open>None\<close> is a panic of the writer.\<close>

definition write_and_flush ::
  "('r, 'w) transport \<Rightarrow> packet \<Rightarrow> 'w writer \<Rightarrow> ((io_error + unit) \<times> 'w writer) option"
where
  "write_and_flush tr p w =
     (case writer_write (tr_pool tr) (tr_write tr) (tr_flush tr) V5 p w of
        Some (Inr _, w) \<Rightarrow> writer_flush (tr_write tr) (tr_flush tr) w
      | r \<Rightarrow> r)"

text \<open>
  \<open>connect\<close> up to the point where it waits for the CONNACK; \<open>streams\<close> is what \<open>transport_connect\<close>
  gave. Then each poll of \<open>maybe_timeout(response_timeout, mqtt_receive(..))\<close> is a call of
  \<open>connect_response\<close>, with \<open>elapsed\<close> once the timeout has passed: the response, if there is one,
  comes first.
\<close>

record ('r, 'w) connecting =
  connecting_handle :: connect_handle
  connecting_reader :: "'r reader"
  connecting_writer :: "'w writer"
  connecting_args :: connect_args

definition connect_start ::
  "('r, 'w) transport \<Rightarrow> io_error + 'r reader \<times> 'w writer \<Rightarrow> connect_args \<Rightarrow> connect_handle \<Rightarrow>
     (('r, 'w) connect_result + ('r, 'w) connecting) option"
where
  "connect_start tr streams args h =
     (case streams of
        Inl e \<Rightarrow> Some (Inl (ConnectFailure h (ConnectIo e)))
      | Inr (reader, w) \<Rightarrow>
          (case write_and_flush tr (connect_packet (handle_client_id h) args None) w of
             None \<Rightarrow> None
           | Some (Inl e, w) \<Rightarrow> Some (Inl (ConnectFailure h (ConnectIo e)))
           | Some (Inr _, w) \<Rightarrow>
               Some (Inr \<lparr>connecting_handle = h, connecting_reader = reader, connecting_writer = w,
                          connecting_args = args\<rparr>)))"

text \<open>The channel for the disconnect request is opened when the connection has succeeded.\<close>

definition open_disconnect_channel :: "session \<Rightarrow> session" where
  "open_disconnect_channel s = s\<lparr>ch := (ch s)\<lparr>disconnect_rx := Some DisconnectOpen\<rparr>\<rparr>"

definition connect_response ::
  "('r, 'w) transport \<Rightarrow> bool \<Rightarrow> nat \<Rightarrow> bool \<Rightarrow> ('r, 'w) connecting \<Rightarrow>
     ('r, 'w) connect_result + ('r, 'w) connecting"
where
  "connect_response tr allow now elapsed c =
     (let h = connecting_handle c; args = connecting_args c
      in case mqtt_receive tr (connecting_reader c) of
           (Ready (Inr (ConnAckPacket connack)), reader) \<Rightarrow>
             (case incoming_connack allow now connack (keep_alive_from (arg_keep_alive args)) None
                     (connect_session_expiry_interval (arg_properties args)) (handle_session h) of
                (Inl e, s) \<Rightarrow> Inl (ConnectFailure (h\<lparr>handle_session := s\<rparr>) (ConnectProtocol e))
              | (Inr _, s) \<Rightarrow>
                  if \<not> connack_is_success connack
                  then Inl (ConnectFailure (h\<lparr>handle_session := s\<rparr>) (ConnectRejected connack))
                  else Inl (ConnectSuccessful
                         \<lparr>conn_session = open_disconnect_channel s, conn_reader = reader,
                          conn_writer = connecting_writer c, conn_client_id = handle_client_id h,
                          conn_pingresp_timeout = pingresp_timeout (arg_keep_alive args)\<rparr> connack))
         | (Ready (Inr _), reader) \<Rightarrow> Inl (ConnectFailure h (ConnectProtocol UnexpectedPacket))
         | (Ready (Inl e), reader) \<Rightarrow> Inl (ConnectFailure h (connect_error_from e))
         | (_, reader) \<Rightarrow>
             if elapsed then Inl (ConnectFailure h ResponseTimeout) else Inr (c\<lparr>connecting_reader := reader\<rparr>))"

subsection \<open>Enhanced authentication\<close>

definition into_connect_handle :: "('r, 'w) enhanced_auth_handle \<Rightarrow> connect_handle" where
  "into_connect_handle a = \<lparr>handle_session = auth_session a, handle_client_id = auth_client_id a\<rparr>"

definition connect_enhanced_auth_start ::
  "('r, 'w) transport \<Rightarrow> io_error + 'r reader \<times> 'w writer \<Rightarrow> connect_args \<Rightarrow> authentication \<Rightarrow>
     connect_handle \<Rightarrow> (('r, 'w) connect_enhanced_auth_result + ('r, 'w) enhanced_auth_handle) option"
where
  "connect_enhanced_auth_start tr streams args authentication_info h =
     (case streams of
        Inl e \<Rightarrow> Some (Inl (AuthFailure h (ConnectIo e)))
      | Inr (reader, w) \<Rightarrow>
          (case write_and_flush tr (connect_packet (handle_client_id h) args (Some authentication_info)) w of
             None \<Rightarrow> None
           | Some (Inl e, w) \<Rightarrow> Some (Inl (AuthFailure h (ConnectIo e)))
           | Some (Inr _, w) \<Rightarrow>
               Some (Inr \<lparr>auth_session = handle_session h, auth_reader = reader, auth_writer = w,
                          auth_method = authentication_method authentication_info,
                          auth_client_id = handle_client_id h, auth_keep_alive = arg_keep_alive args,
                          auth_session_expiry_interval =
                            connect_session_expiry_interval (arg_properties args)\<rparr>)))"

definition receive_response ::
  "('r, 'w) transport \<Rightarrow> bool \<Rightarrow> nat \<Rightarrow> bool \<Rightarrow> ('r, 'w) enhanced_auth_handle \<Rightarrow>
     ('r, 'w) connect_enhanced_auth_result + ('r, 'w) enhanced_auth_handle"
where
  "receive_response tr allow now elapsed a =
     (case mqtt_receive tr (auth_reader a) of
        (Ready (Inr (ConnAckPacket connack)), reader) \<Rightarrow>
          (case incoming_connack allow now connack (keep_alive_from (auth_keep_alive a))
                  (Some (byte_str_bytes (auth_method a))) (auth_session_expiry_interval a) (auth_session a) of
             (Inl e, s) \<Rightarrow> Inl (AuthFailure (into_connect_handle (a\<lparr>auth_session := s\<rparr>)) (ConnectProtocol e))
           | (Inr _, s) \<Rightarrow>
               if connack_is_success connack
               then Inl (AuthSuccessful
                      \<lparr>conn_session = open_disconnect_channel s, conn_reader = reader,
                       conn_writer = auth_writer a, conn_client_id = auth_client_id a,
                       conn_pingresp_timeout = pingresp_timeout (auth_keep_alive a)\<rparr>
                      connack (auth_method a))
               else Inl (AuthFailure (into_connect_handle (a\<lparr>auth_session := s\<rparr>)) (ConnectRejected connack)))
      | (Ready (Inr (AuthPacket auth)), reader) \<Rightarrow>
          if authentication_method_matches (auth_authentication auth) (Some (byte_str_bytes (auth_method a)))
          then Inl (AuthContinue auth (a\<lparr>auth_reader := reader\<rparr>))
          else Inl (AuthFailure (into_connect_handle a) (ConnectProtocol AuthenticationMethodMismatch))
      | (Ready (Inr _), reader) \<Rightarrow> Inl (AuthFailure (into_connect_handle a) (ConnectProtocol UnexpectedPacket))
      | (Ready (Inl e), reader) \<Rightarrow> Inl (AuthFailure (into_connect_handle a) (connect_error_from e))
      | (_, reader) \<Rightarrow>
          if elapsed then Inl (AuthFailure (into_connect_handle a) ResponseTimeout)
          else Inr (a\<lparr>auth_reader := reader\<rparr>))"

text \<open>The part of \<open>continue_auth\<close> before it waits for the response.\<close>

definition continue_auth ::
  "('r, 'w) transport \<Rightarrow> binary_data option \<Rightarrow> byte_str option \<Rightarrow> user_properties \<Rightarrow>
     ('r, 'w) enhanced_auth_handle \<Rightarrow>
     (('r, 'w) connect_enhanced_auth_result + ('r, 'w) enhanced_auth_handle) option"
where
  "continue_auth tr data reason_string props a =
     (let auth = AuthPacket
            \<lparr>auth_reason_code = ContinueAuthentication,
             auth_authentication =
               Some \<lparr>authentication_method = auth_method a, authentication_data = data\<rparr>,
             auth_reason_string = reason_string, auth_user_properties = props\<rparr>
      in case write_and_flush tr auth (auth_writer a) of
           None \<Rightarrow> None
         | Some (Inl e, w) \<Rightarrow> Some (Inl (AuthFailure (into_connect_handle (a\<lparr>auth_writer := w\<rparr>)) (ConnectIo e)))
         | Some (Inr _, w) \<Rightarrow> Some (Inr (a\<lparr>auth_writer := w\<rparr>)))"

section \<open>The event loop\<close>

datatype loop_result =
    LoopAgain
  | LoopSuspended
  | LoopDone "inner_connection_error + inner_disconnect"
  | LoopPanic

text \<open>
  The connection with the local variables of the loop: the timer for the PINGRESP and, inside the
  inner loop, the packet to be written.
\<close>

record ('r, 'w) event_loop =
  lp_connection :: "('r, 'w) connection"
  lp_pingresp_timer :: "timer option"
  lp_packet :: "packet option"

definition loop_new :: "('r, 'w) connection \<Rightarrow> ('r, 'w) event_loop" where
  "loop_new c = \<lparr>lp_connection = c, lp_pingresp_timer = None, lp_packet = None\<rparr>"

abbreviation lp_session :: "('r, 'w) event_loop \<Rightarrow> session" where
  "lp_session l \<equiv> conn_session (lp_connection l)"

definition with_session :: "session \<Rightarrow> ('r, 'w) event_loop \<Rightarrow> ('r, 'w) event_loop" where
  "with_session s l = l\<lparr>lp_connection := (lp_connection l)\<lparr>conn_session := s\<rparr>\<rparr>"

definition with_writer :: "'w writer \<Rightarrow> ('r, 'w) event_loop \<Rightarrow> ('r, 'w) event_loop" where
  "with_writer w l = l\<lparr>lp_connection := (lp_connection l)\<lparr>conn_writer := w\<rparr>\<rparr>"

definition with_reader :: "'r reader \<Rightarrow> ('r, 'w) event_loop \<Rightarrow> ('r, 'w) event_loop" where
  "with_reader r l = l\<lparr>lp_connection := (lp_connection l)\<lparr>conn_reader := r\<rparr>\<rparr>"

text \<open>A handler that may fail with a protocol error, which ends the loop.\<close>

definition handled ::
  "(protocol_error + unit) \<times> session \<Rightarrow> ('r, 'w) event_loop \<Rightarrow> loop_result \<times> ('r, 'w) event_loop"
where
  "handled x l =
     (case x of
        (Inl e, s) \<Rightarrow> (LoopDone (Inl (InnerProtocol e)), with_session s l)
      | (Inr _, s) \<Rightarrow> (LoopAgain, with_session s l))"

fun handle_incoming ::
  "bool \<Rightarrow> notifier \<Rightarrow> nat \<Rightarrow> packet \<Rightarrow> ('r, 'w) event_loop \<Rightarrow> loop_result \<times> ('r, 'w) event_loop"
where
  "handle_incoming allow n now (AuthPacket auth) l = handled (incoming_auth allow auth (lp_session l)) l"
| "handle_incoming allow n now (SubAckPacket suback) l =
     handled (complete_inflight (CompletedOpSubscribe suback) (lp_session l)) l"
| "handle_incoming allow n now (UnsubAckPacket unsuback) l =
     handled (complete_inflight (CompletedOpUnsubscribe unsuback) (lp_session l)) l"
| "handle_incoming allow n now (PubAckPacket puback) l =
     handled (complete_inflight (CompletedOpPublishQoS1 puback) (lp_session l)) l"
| "handle_incoming allow n now (PubRecPacket pubrec) l =
     handled (complete_inflight (CompletedOpPublishQoS2 pubrec) (lp_session l)) l"
| "handle_incoming allow n now (DisconnectPacket disconnect) l =
     (LoopDone (Inr (InnerServer disconnect)), l)"
| "handle_incoming allow n now (PublishPacket publish) l =
     (case incoming_publish n publish (lp_session l) of
        (Ready _, s) \<Rightarrow> (LoopAgain, with_session s l)
      | (_, s) \<Rightarrow> (LoopPanic, with_session s l))"
| "handle_incoming allow n now PingRespPacket l =
     (LoopAgain, with_session (incoming_pingresp now (lp_session l)) (l\<lparr>lp_pingresp_timer := None\<rparr>))"
| "handle_incoming allow n now _ l = (LoopDone (Inl (InnerProtocol UnexpectedPacket)), l)"

text \<open>
  One poll of the \<open>select\<close>: the session first, then the reader, then the timer for the PINGRESP.
\<close>

definition select_step ::
  "('r, 'w) transport \<Rightarrow> bool \<Rightarrow> notifier \<Rightarrow> nat \<Rightarrow> ('r, 'w) event_loop \<Rightarrow> loop_result \<times> ('r, 'w) event_loop"
where
  "select_step tr allow n now l =
     (case next_outgoing_packet now (lp_session l) of
        (Ready p, s) \<Rightarrow> (LoopAgain, (with_session s l)\<lparr>lp_packet := Some p\<rparr>)
      | (Pending, s) \<Rightarrow>
          (let l = with_session s l
           in case mqtt_receive tr (conn_reader (lp_connection l)) of
                (Ready (Inl e), r) \<Rightarrow> (LoopDone (Inl e), with_reader r l)
              | (Ready (Inr p), r) \<Rightarrow> handle_incoming allow n now p (with_reader r l)
              | (_, r) \<Rightarrow>
                  (case lp_pingresp_timer l of
                     Some t \<Rightarrow> if timer_remaining now t = 0 then (LoopDone (Inr InnerPingTimeout), with_reader r l)
                               else (LoopSuspended, with_reader r l)
                   | None \<Rightarrow> (LoopSuspended, with_reader r l)))
      | (_, s) \<Rightarrow> (LoopPanic, with_session s l))"

text \<open>One round of the inner loop: write the packet, then look for the next one without waiting.\<close>

definition start_pingresp_timer :: "nat \<Rightarrow> packet \<Rightarrow> ('r, 'w) event_loop \<Rightarrow> ('r, 'w) event_loop" where
  "start_pingresp_timer now p l =
     (case (p, conn_pingresp_timeout (lp_connection l)) of
        (PingReqPacket, Some timeout) \<Rightarrow> l\<lparr>lp_pingresp_timer := Some (timer_new now timeout)\<rparr>
      | _ \<Rightarrow> l)"

definition flush_step ::
  "('r, 'w) transport \<Rightarrow> loop_result \<Rightarrow> ('r, 'w) event_loop \<Rightarrow> loop_result \<times> ('r, 'w) event_loop"
where
  "flush_step tr result l =
     (case writer_flush (tr_write tr) (tr_flush tr) (conn_writer (lp_connection l)) of
        None \<Rightarrow> (LoopPanic, l)
      | Some (Inl e, w) \<Rightarrow> (LoopDone (Inl (InnerIo e)), with_writer w l)
      | Some (Inr _, w) \<Rightarrow> (result, with_writer w l))"

definition send_step ::
  "('r, 'w) transport \<Rightarrow> nat \<Rightarrow> packet \<Rightarrow> ('r, 'w) event_loop \<Rightarrow> loop_result \<times> ('r, 'w) event_loop"
where
  "send_step tr now p l =
     (let l = start_pingresp_timer now p l
      in case writer_write (tr_pool tr) (tr_write tr) (tr_flush tr) V5 p (conn_writer (lp_connection l)) of
           None \<Rightarrow> (LoopPanic, l)
         | Some (Inl e, w) \<Rightarrow> (LoopDone (Inl (InnerIo e)), with_writer w l)
         | Some (Inr _, w) \<Rightarrow>
             (let l = with_writer w l
              in case p of
                   DisconnectPacket d \<Rightarrow> flush_step tr (LoopDone (Inr (InnerApplication d))) l
                 | _ \<Rightarrow>
                     (case next_outgoing_packet now (lp_session l) of
                        (Ready p', s) \<Rightarrow> (LoopAgain, (with_session s l)\<lparr>lp_packet := Some p'\<rparr>)
                      | (Pending, s) \<Rightarrow> flush_step tr LoopAgain ((with_session s l)\<lparr>lp_packet := None\<rparr>)
                      | (_, s) \<Rightarrow> (LoopPanic, with_session s l))))"

definition loop_step ::
  "('r, 'w) transport \<Rightarrow> bool \<Rightarrow> notifier \<Rightarrow> nat \<Rightarrow> ('r, 'w) event_loop \<Rightarrow> loop_result \<times> ('r, 'w) event_loop"
where
  "loop_step tr allow n now l =
     (case lp_packet l of None \<Rightarrow> select_step tr allow n now l | Some p \<Rightarrow> send_step tr now p l)"

text \<open>
  The end of \<open>run_until_disconnect\<close>: one transition of the session for the way the connection ended.
\<close>

fun finish :: "inner_connection_error + inner_disconnect \<Rightarrow> session \<Rightarrow> session \<times> disconnected_event" where
  "finish (Inr (InnerApplication d)) s = (client_disconnect d s, ApplicationDisconnect)"
| "finish (Inr (InnerServer d)) s = (server_disconnect d s, ServerDisconnect d)"
| "finish (Inr InnerPingTimeout) s = (transport_disconnect s, PingTimeout)"
| "finish (Inl (InnerIo e)) s = (transport_disconnect s, EventIoError e)"
| "finish (Inl (InnerProtocol e)) s = (transport_disconnect s, EventProtocolError e)"

definition run_finished ::
  "inner_connection_error + inner_disconnect \<Rightarrow> ('r, 'w) event_loop \<Rightarrow> connect_handle \<times> disconnected_event"
where
  "run_finished x l =
     (case finish x (lp_session l) of
        (s, event) \<Rightarrow> (\<lparr>handle_session = s, handle_client_id = conn_client_id (lp_connection l)\<rparr>, event))"

section \<open>Handles of a connection\<close>

text \<open>\<open>DisconnectHandle::disconnect\<close>: the request, or \<open>DetachedError\<close> when the receiver is gone.\<close>

definition disconnect_handle_disconnect :: "disconnect_other_properties \<Rightarrow> channels \<Rightarrow> (unit + unit) \<times> channels" where
  "disconnect_handle_disconnect props c =
     (case disconnect_rx c of
        None \<Rightarrow> (Inl (), c)
      | Some _ \<Rightarrow>
          (Inr (), c\<lparr>disconnect_rx := Some (DisconnectSent (DisconnectRequest
             \<lparr>disconnect_reason_code = DisconnectNormal, disconnect_other_properties = props\<rparr>))\<rparr>))"

text \<open>\<open>ReauthHandle::reauth\<close>: the request it puts on the channel.\<close>

definition reauth_handle_reauth ::
  "notifier \<Rightarrow> byte_str \<Rightarrow> binary_data option \<Rightarrow> byte_str option \<Rightarrow> user_properties \<Rightarrow> reauth_request"
where
  "reauth_handle_reauth n method data reason_string props =
     ReauthRequest n
       \<lparr>auth_reason_code = ReAuthenticate,
        auth_authentication = Some \<lparr>authentication_method = method, authentication_data = data\<rparr>,
        auth_reason_string = reason_string, auth_user_properties = props\<rparr>"

end
