(* ===== verification/Event_Loop.thy ===== *)
theory Event_Loop
  imports Client_Connection
begin

text \<open>
  What the event loop of a connection does to the session and to the streams. Every step of the
  loop is a sequence of steps of the client system, so that the invariants of the reachable states
  hold while a connection runs; the writer receives exactly the packets the session releases; and
  the end of the loop is one transition that leaves the session disconnected.
\<close>

section \<open>The session under the loop\<close>

lemma with_simps [simp]:
  "lp_session (with_session s l) = s" "lp_session (with_writer w l) = lp_session l"
  "lp_session (with_reader r l) = lp_session l"
  "lp_packet (with_session s l) = lp_packet l" "lp_packet (with_writer w l) = lp_packet l"
  "lp_packet (with_reader r l) = lp_packet l"
  "conn_writer (lp_connection (with_session s l)) = conn_writer (lp_connection l)"
  "conn_writer (lp_connection (with_writer w l)) = w"
  "conn_writer (lp_connection (with_reader r l)) = conn_writer (lp_connection l)"
  "conn_reader (lp_connection (with_session s l)) = conn_reader (lp_connection l)"
  "conn_reader (lp_connection (with_writer w l)) = conn_reader (lp_connection l)"
  "conn_reader (lp_connection (with_reader r l)) = r"
  "lp_pingresp_timer (with_session s l) = lp_pingresp_timer l"
  by (simp_all add: with_session_def with_writer_def with_reader_def)

lemma start_pingresp_timer_simps [simp]:
  "lp_connection (start_pingresp_timer now p l) = lp_connection l"
  "lp_packet (start_pingresp_timer now p l) = lp_packet l"
  by (simp_all add: start_pingresp_timer_def split: packet.splits option.splits)

lemma next_outgoing_packet_connected:
  "next_outgoing_packet now s = (r, s') \<Longrightarrow> is_connected s \<Longrightarrow> is_connected s'"
  by (auto simp: next_outgoing_packet_def is_connected_def
      split: list.splits prod.splits poll.splits
      dest!: next_outgoing_request_frame request_packet_frame)

lemma incoming_publish_connected:
  "incoming_publish n p s = (r, s') \<Longrightarrow> is_connected s \<Longrightarrow> is_connected s'"
  by (auto simp: incoming_publish_def Let_def split: packet_identifier_dup_qos.splits if_splits)

text \<open>A session that has taken steps, together with the rest of the client system.\<close>

definition advanced :: "bool \<Rightarrow> client_system \<Rightarrow> session \<Rightarrow> bool" where
  "advanced allow c s \<longleftrightarrow>
     (\<exists>c'. (client_step allow)\<^sup>*\<^sup>* c c' \<and> sys c' = s \<and> held c' = held c \<and> is_connected s)"

lemma advanced_refl: "is_connected (sys c) \<Longrightarrow> advanced allow c (sys c)"
  unfolding advanced_def by blast

lemma advanced_step:
  assumes "client_step allow c c'" and "held c' = held c" and "advanced allow c' s"
  shows "advanced allow c s"
  using assms unfolding advanced_def by (metis converse_rtranclp_into_rtranclp)

lemma advanced_outgoing:
  assumes "is_connected (sys c)" and "next_outgoing_packet now (sys c) = (r, s)"
    and "r = Ready p \<or> r = Pending"
  obtains c' where "client_step allow c c'" and "sys c' = s" and "held c' = held c" and "is_connected s"
proof (cases "r = Pending")
  case True
  then show thesis
    using assms that [OF client_step.idle [OF assms(1)]] next_outgoing_packet_connected [OF assms(2,1)] by simp
next
  case False
  then show thesis
    using assms that [OF client_step.send [OF assms(1)]] next_outgoing_packet_connected [OF assms(2,1)] by simp
qed

lemma handled_advanced:
  assumes "is_connected (sys c)" and "lp_session l = sys c" and "x = (y, s)"
    and "client_step allow c c'" and "sys c' = s" and "held c' = held c" and "connected s = connected (sys c)"
  shows "advanced allow c (lp_session (snd (handled x l)))"
  using assms advanced_step [OF assms(4,6) advanced_refl]
  by (auto simp: handled_def is_connected_def split: sum.splits)

lemma handle_incoming_advanced:
  assumes con: "is_connected (sys c)" and l: "lp_session l = sys c"
    and step: "handle_incoming allow n now p l = (r, l')" and "r \<noteq> LoopPanic"
  shows "advanced allow c (lp_session l')"
proof -
  have ack: "advanced allow c (lp_session l')" if "handled (complete_inflight op (sys c)) l = (r, l')" for op
  proof -
    obtain y s where y: "complete_inflight op (sys c) = (y, s)" by fastforce
    show ?thesis
      using handled_advanced [OF con l refl client_step.recv_ack [OF con y], where y = y and s = s and allow = allow] complete_inflight_frame [OF y] that y
      by simp
  qed
  have auth: "advanced allow c (lp_session l')" if "handled (incoming_auth allow a (sys c)) l = (r, l')" for a
  proof -
    obtain y s where y: "incoming_auth allow a (sys c) = (y, s)" by fastforce
    show ?thesis
      using handled_advanced [OF con l refl client_step.recv_auth [OF con y], where y = y and s = s] incoming_auth_frame [OF y] that y
      by simp
  qed
  show ?thesis
  proof (cases p)
    case (PublishPacket publish)
    then obtain s where s: "incoming_publish n publish (sys c) = (Ready (), s)" "l' = with_session s l"
      using step assms(4) l by (auto split: prod.splits poll.splits)
    then show ?thesis
      using advanced_step [OF client_step.recv_publish [OF con s(1)] _ advanced_refl]
        incoming_publish_connected [OF s(1) con] by simp
  next
    case PingRespPacket
    then show ?thesis
      using step l con incoming_pingresp_frame [of now "sys c"]
        advanced_step [OF client_step.recv_pingresp [OF con, of allow now] _ advanced_refl]
      by (auto simp: is_connected_def)
  qed (use step l advanced_refl [OF con] in \<open>auto simp del: complete_inflight.simps intro: ack auth\<close>)
qed

text \<open>One step of the loop, whatever the transport does.\<close>

lemma select_step_advanced:
  assumes con: "is_connected (sys c)" and l: "lp_session l = sys c"
    and step: "select_step tr allow n now l = (r, l')" and r: "r \<noteq> LoopPanic"
  shows "advanced allow c (lp_session l')"
proof -
  obtain x s where x: "next_outgoing_packet now (sys c) = (x, s)" by fastforce
  consider p where "x = Ready p" | "x = Pending" | m where "x = Panic m" | "x = Diverges" by (cases x) auto
  then show ?thesis
  proof cases
    case 1
    then obtain c' where "client_step allow c c'" "sys c' = s" "held c' = held c" "is_connected s"
      using advanced_outgoing [OF con x] by blast
    then show ?thesis
      using step x 1 l advanced_step [OF _ _ advanced_refl] by (auto simp: select_step_def)
  next
    case 2
    then obtain c' where c': "client_step allow c c'" "sys c' = s" "held c' = held c" "is_connected s"
      using advanced_outgoing [OF con x] by blast
    have "advanced allow c' (lp_session l')"
    proof (cases "mqtt_receive tr (conn_reader (lp_connection l))")
      case (Pair y rd)
      note run = step [unfolded select_step_def l x 2] and refl' = advanced_refl [of c' allow]
      show ?thesis
      proof (cases y)
        case (Ready z)
        then show ?thesis
          using run Pair c' refl' r handle_incoming_advanced [of c' "with_reader rd (with_session s l)"]
          by (auto simp: Let_def split: sum.splits)
      qed (use run Pair c' refl' in \<open>auto simp: Let_def split: option.splits if_splits\<close>)
    qed
    then show ?thesis using advanced_step c' by blast
  qed (use step x l r in \<open>auto simp: select_step_def\<close>)
qed

lemma flush_step_session: "flush_step tr res l = (r, l') \<Longrightarrow> lp_session l' = lp_session l"
  by (auto simp: flush_step_def split: option.splits prod.splits sum.splits)

lemma send_step_advanced:
  assumes con: "is_connected (sys c)" and l: "lp_session l = sys c"
    and step: "send_step tr now p l = (r, l')" and r: "r \<noteq> LoopPanic"
  shows "advanced allow c (lp_session l')"
proof -
  obtain x s where x: "next_outgoing_packet now (sys c) = (x, s)" by fastforce
  have "lp_session l' = sys c \<or> (x = Pending \<or> (\<exists>p. x = Ready p)) \<and> lp_session l' = s"
    using step r x l
    by (auto simp: send_step_def Let_def split: option.splits prod.splits sum.splits packet.splits poll.splits
        dest!: flush_step_session)
  then show ?thesis
  proof (elim disjE conjE exE)
    fix p' assume "x = Ready p'" "lp_session l' = s"
    then show ?thesis
      using advanced_outgoing [OF con x, of p'] advanced_step [OF _ _ advanced_refl] by metis
  next
    assume "x = Pending" "lp_session l' = s"
    then show ?thesis
      using advanced_outgoing [OF con x] advanced_step [OF _ _ advanced_refl] by metis
  qed (use advanced_refl [OF con] in simp)
qed

lemma loop_step_advanced:
  assumes "is_connected (sys c)" and "lp_session l = sys c"
    and "loop_step tr allow n now l = (r, l')" and "r \<noteq> LoopPanic"
  shows "advanced allow c (lp_session l')"
  using assms select_step_advanced send_step_advanced by (auto simp: loop_step_def split: option.splits)

lemma rtranclp_reachable: "(client_step allow)\<^sup>*\<^sup>* c c' \<Longrightarrow> reachable allow c \<Longrightarrow> reachable allow c'"
  by (induction rule: rtranclp_induct) (auto intro: reachable.step)

section \<open>When the loop can panic\<close>

text \<open>A PUBLISH for which the session has no code: QoS 2, or an identifier still in use.\<close>

definition unsupported_publish :: "session \<Rightarrow> packet \<Rightarrow> bool" where
  "unsupported_publish s p =
     (case p of
        PublishPacket publish \<Rightarrow>
          (case packet_identifier_dup_qos publish of
             PdqAtMostOnce \<Rightarrow> False
           | PdqAtLeastOnce k dup \<Rightarrow> im_get (in_application s) k \<noteq> None
           | PdqExactlyOnce k dup \<Rightarrow> True)
      | _ \<Rightarrow> False)"

lemma handled_no_panic: "handled x l \<noteq> (LoopPanic, l')"
  by (auto simp: handled_def split: prod.splits sum.splits)

lemma handle_incoming_panic:
  assumes "handle_incoming allow n now p l = (LoopPanic, l')"
  shows "unsupported_publish (lp_session l) p"
  using assms
  by (cases p) (auto simp: unsupported_publish_def incoming_publish_def handled_no_panic Let_def
      simp del: complete_inflight.simps split: packet_identifier_dup_qos.splits if_splits)

lemma next_outgoing_packet_no_panic:
  assumes "ack_inv c" and "is_connected (sys c)" and "next_outgoing_packet now (sys c) = (x, s)"
  shows "x = Pending \<or> (\<exists>p. x = Ready p)"
  using next_outgoing_packet_ack_inv [OF assms] by (cases x) auto

section \<open>What the loop writes\<close>

definition transport_ok :: "('r, 'w) transport \<Rightarrow> ('r \<Rightarrow> bytes) \<Rightarrow> ('w \<Rightarrow> bytes) \<Rightarrow> bool" where
  "transport_ok tr incoming sent \<longleftrightarrow>
     pool_ok (tr_pool tr) \<and> readable (tr_read tr) incoming \<and> writable (tr_write tr) (tr_flush tr) sent"

abbreviation lp_writer :: "('r, 'w) event_loop \<Rightarrow> 'w writer" where
  "lp_writer l \<equiv> conn_writer (lp_connection l)"

text \<open>Outside the inner loop, nothing that was written waits in the buffer of the writer.\<close>

definition loop_ok :: "('r, 'w) event_loop \<Rightarrow> bool" where
  "loop_ok l \<longleftrightarrow>
     writer_ok (lp_writer l) \<and> (lp_packet l = None \<longrightarrow> either_view (writer_buf (lp_writer l)) = [])"

definition to_write :: "('r, 'w) event_loop \<Rightarrow> packet list" where
  "to_write l = (case lp_packet l of None \<Rightarrow> [] | Some p \<Rightarrow> [p])"

definition wire :: "packet list \<Rightarrow> bytes" where
  "wire ps = concat (map (\<lambda>p. enc_bytes (packet_encode V5 p)) ps)"

lemma wire_simps [simp]:
  "wire [] = []" "wire (p # ps) = enc_bytes (packet_encode V5 p) @ wire ps" "wire (ps @ qs) = wire ps @ wire qs"
  by (simp_all add: wire_def)

lemma flush_step_written:
  assumes "transport_ok tr incoming sent" and "writer_ok (lp_writer l)" and "flush_step tr res l = (r, l')"
  shows "lp_packet l' = lp_packet l \<and> writer_ok (lp_writer l') \<and> (r = res \<or> (\<exists>e. r = LoopDone (Inl e))) \<and>
    (r = res \<and> (\<forall>e. res \<noteq> LoopDone (Inl e)) \<longrightarrow>
      written_bytes sent (lp_writer l') = written_bytes sent (lp_writer l) \<and> either_view (writer_buf (lp_writer l')) = [])"
proof -
  have "writable (tr_write tr) (tr_flush tr) sent" using assms(1) by (simp add: transport_ok_def)
  then obtain x w where flush: "writer_flush (tr_write tr) (tr_flush tr) (lp_writer l) = Some (x, w)" "writer_ok w"
    "x = Inr () \<Longrightarrow> written_bytes sent w = written_bytes sent (lp_writer l) \<and> either_view (writer_buf w) = []"
    using writer_flush_written [OF _ assms(2)] by metis
  then show ?thesis using assms(3) by (cases x) (auto simp: flush_step_def)
qed

lemma handled_frame:
  "handled x l = (r, l') \<Longrightarrow> lp_writer l' = lp_writer l \<and> lp_packet l' = lp_packet l"
  by (auto simp: handled_def split: prod.splits sum.splits)

lemma handle_incoming_frame:
  "handle_incoming allow n now p l = (r, l') \<Longrightarrow> lp_writer l' = lp_writer l \<and> lp_packet l' = lp_packet l"
  by (cases p) (auto simp del: complete_inflight.simps split: prod.splits poll.splits dest: handled_frame)

lemma select_step_frame:
  assumes "select_step tr allow n now l = (r, l')"
  shows "lp_writer l' = lp_writer l"
    and "lp_packet l' = lp_packet l \<or> (\<exists>p. lp_packet l' = Some p)"
  using assms
  by (auto simp: select_step_def Let_def split: prod.splits poll.splits sum.splits option.splits if_splits
      dest: handle_incoming_frame)

text \<open>
  A round of the inner loop that does not end the connection has added its packet, and has flushed
  everything when it leaves the inner loop.
\<close>

lemma send_step_written:
  assumes tr: "transport_ok tr incoming sent" and w: "writer_ok (lp_writer l)"
    and step: "send_step tr now p l = (r, l')"
  shows "writer_ok (lp_writer l') \<and> r \<noteq> LoopSuspended \<and>
    (r = LoopAgain \<or> (\<exists>d. r = LoopDone (Inr d)) \<longrightarrow>
       written_bytes sent (lp_writer l') = written_bytes sent (lp_writer l) @ wire [p] \<and>
       snd (packet_encode V5 p) = None) \<and>
    (r = LoopAgain \<and> lp_packet l' = None \<or> (\<exists>d. r = LoopDone (Inr d)) \<longrightarrow>
       either_view (writer_buf (lp_writer l')) = [])"
proof -
  have "writable (tr_write tr) (tr_flush tr) sent" "pool_ok (tr_pool tr)" using tr by (simp_all add: transport_ok_def)
  then obtain x w1 where wr: "writer_write (tr_pool tr) (tr_write tr) (tr_flush tr) V5 p (lp_writer l) = Some (x, w1)"
    "writer_ok w1" "x = Inr () \<longrightarrow> snd (packet_encode V5 p) = None \<and>
      written_bytes sent w1 = written_bytes sent (lp_writer l) @ enc_bytes (packet_encode V5 p)"
    using writer_write_appends [OF _ _ w] by metis
  show ?thesis
  proof (cases x)
    case (Inl e)
    then show ?thesis using step wr by (auto simp: send_step_def Let_def)
  next
    case (Inr u)
    define l1 where "l1 = with_writer w1 (start_pingresp_timer now p l)"
    have l1: "writer_ok (lp_writer l1)" "written_bytes sent (lp_writer l1) = written_bytes sent (lp_writer l) @ wire [p]"
      "snd (packet_encode V5 p) = None" using wr Inr by (auto simp: l1_def)
    define rest where "rest = (case next_outgoing_packet now (lp_session l1) of
        (Ready p', s) \<Rightarrow> (LoopAgain, (with_session s l1)\<lparr>lp_packet := Some p'\<rparr>)
      | (Pending, s) \<Rightarrow> flush_step tr LoopAgain ((with_session s l1)\<lparr>lp_packet := None\<rparr>)
      | (_, s) \<Rightarrow> (LoopPanic, with_session s l1))"
    have "send_step tr now p l = (case p of
        DisconnectPacket d \<Rightarrow> flush_step tr (LoopDone (Inr (InnerApplication d))) l1 | _ \<Rightarrow> rest)"
      unfolding rest_def l1_def using wr(1) Inr by (simp add: send_step_def Let_def)
    with step have "(\<exists>d. flush_step tr (LoopDone (Inr (InnerApplication d))) l1 = (r, l')) \<or> rest = (r, l')"
      by (cases p) auto
    moreover have "rest = (r, l') \<Longrightarrow> (\<exists>p' s. r = LoopAgain \<and> l' = (with_session s l1)\<lparr>lp_packet := Some p'\<rparr>) \<or>
      (\<exists>s. flush_step tr LoopAgain ((with_session s l1)\<lparr>lp_packet := None\<rparr>) = (r, l')) \<or>
      (\<exists>s. r = LoopPanic \<and> l' = with_session s l1)"
      by (auto simp: rest_def split: prod.splits poll.splits)
    ultimately have "(\<exists>d. flush_step tr (LoopDone (Inr (InnerApplication d))) l1 = (r, l')) \<or>
      (\<exists>p' s. r = LoopAgain \<and> l' = (with_session s l1)\<lparr>lp_packet := Some p'\<rparr>) \<or>
      (\<exists>s. flush_step tr LoopAgain ((with_session s l1)\<lparr>lp_packet := None\<rparr>) = (r, l')) \<or>
      (\<exists>s. r = LoopPanic \<and> l' = with_session s l1)" by blast
    then show ?thesis
    proof (elim disjE exE conjE)
      fix d assume "flush_step tr (LoopDone (Inr (InnerApplication d))) l1 = (r, l')"
      from flush_step_written [OF tr l1(1) this] l1 show ?thesis by auto
    next
      fix s assume f: "flush_step tr LoopAgain ((with_session s l1)\<lparr>lp_packet := None\<rparr>) = (r, l')"
      have "writer_ok (lp_writer ((with_session s l1)\<lparr>lp_packet := None\<rparr>))" using l1(1) by simp
      from flush_step_written [OF tr this f] l1 show ?thesis by auto
    qed (use l1 in auto)
  qed
qed

lemma loop_step_written:
  assumes tr: "transport_ok tr incoming sent" and ok: "loop_ok l" and step: "loop_step tr allow n now l = (r, l')"
  shows "writer_ok (lp_writer l') \<and> (r = LoopAgain \<or> r = LoopSuspended \<longrightarrow> loop_ok l') \<and>
    (r = LoopAgain \<or> r = LoopSuspended \<or> (\<exists>d. r = LoopDone (Inr d)) \<longrightarrow>
       written_bytes sent (lp_writer l') = written_bytes sent (lp_writer l) @ wire (to_write l))"
proof (cases "lp_packet l")
  case None
  then show ?thesis
    using ok step select_step_frame [of tr allow n now l r l']
    by (auto simp: loop_step_def loop_ok_def to_write_def)
next
  case (Some p)
  then show ?thesis
    using ok step send_step_written [OF tr, of l now p r l'] by (auto simp: loop_step_def loop_ok_def to_write_def)
qed

section \<open>Runs of a connection\<close>

text \<open>
  A run is any interleaving of steps of the loop and actions of the application, which only touch
  the channels of the session. The list holds the packets the loop has written, oldest first.
\<close>

inductive connection_run ::
  "('r, 'w) transport \<Rightarrow> bool \<Rightarrow> ('r, 'w) event_loop \<Rightarrow> packet list \<Rightarrow> ('r, 'w) event_loop \<Rightarrow> bool"
  for tr allow l
where
  run_start: "connection_run tr allow l [] l"
| run_loop: "connection_run tr allow l ps l1 \<Longrightarrow> loop_step tr allow n now l1 = (r, l2) \<Longrightarrow>
    r = LoopAgain \<or> r = LoopSuspended \<Longrightarrow> connection_run tr allow l (ps @ to_write l1) l2"
| run_app: "connection_run tr allow l ps l1 \<Longrightarrow>
    connection_run tr allow l ps (with_session ((lp_session l1)\<lparr>ch := c\<rparr>) l1)"

lemma connection_run_written:
  assumes "connection_run tr allow l ps l'" and "transport_ok tr incoming sent" and "loop_ok l"
  shows "loop_ok l' \<and> written_bytes sent (lp_writer l') = written_bytes sent (lp_writer l) @ wire ps"
  using assms(1)
proof induction
  case (run_loop ps l1 n now r l2)
  then show ?case using loop_step_written [OF assms(2) _ run_loop(2)] by auto
qed (use assms(3) in \<open>auto simp: loop_ok_def\<close>)

text \<open>While the loop waits, everything it was given has gone out.\<close>

lemma connection_run_flushed:
  assumes "connection_run tr allow l ps l'" and "transport_ok tr incoming sent" and "loop_ok l"
    and "lp_packet l = None" and "lp_packet l' = None"
  shows "sent (writer_inner (lp_writer l')) = sent (writer_inner (lp_writer l)) @ wire ps"
  using connection_run_written [OF assms(1-3)] assms(3-5) by (auto simp: loop_ok_def written_bytes_def)

section \<open>What the peer reads\<close>

inductive receives :: "('r, 'w) transport \<Rightarrow> 'r reader \<Rightarrow> packet list \<Rightarrow> 'r reader \<Rightarrow> bool" for tr where
  receives_none: "receives tr r [] r"
| receives_next: "mqtt_receive tr r = (Ready (Inr p), r1) \<Longrightarrow> receives tr r1 ps r2 \<Longrightarrow> receives tr r (p # ps) r2"

lemma mqtt_receive_next:
  assumes "readable (tr_read tr) incoming" and "flowing (tr_read tr)" and "pool_ok (tr_pool tr)"
    and "pool_total (tr_pool tr)" and "utf8_ascii (tr_unicode tr)"
    and ok: "packet_ok (tr_unicode tr) V5 p" and enc: "snd (packet_encode V5 p) = None"
    and "unread incoming r = enc_bytes (packet_encode V5 p) @ later"
  obtains r' where "mqtt_receive tr r = (Ready (Inr p), r')" and "unread incoming r' = later"
proof -
  define body where "body = enc_bytes (packet_body V5 p)"
  have "length body < varint_limit"
    using packet_encode_too_long [OF ok assms(5)] enc unfolding body_def by (metis not_le option.distinct(1))
  moreover from this have "enc_bytes (packet_encode V5 p) =
      (packet_type p OR packet_flags p) # varint_digits 4 (length body) @ body"
    using packet_encode_bytes(2) [OF ok assms(5)] unfolding body_def by simp
  ultimately have "decode_fixed_header (unread incoming r) =
      Inr (Some ((packet_type p OR packet_flags p, length body), body @ later))"
    using assms(8) by (simp add: decode_fixed_header_digits del: power_numeral)
  from reader_read_ready [OF assms(1-4) this] obtain r' where
    "reader_read (tr_pool tr) (tr_read tr) r =
       (IoReady \<lparr>raw_first_byte = packet_type p OR packet_flags p, raw_rest = body\<rparr>, r')"
    "unread incoming r' = later" by auto
  then show thesis
    using packet_decode_body_wire [OF ok assms(5)] unfolding body_def
    by (intro that [of r']) (simp_all add: mqtt_receive_def)
qed

lemma receives_wire:
  assumes "readable (tr_read tr) incoming" and "flowing (tr_read tr)" and "pool_ok (tr_pool tr)"
    and "pool_total (tr_pool tr)" and "utf8_ascii (tr_unicode tr)"
    and "\<forall>p \<in> set ps. packet_ok (tr_unicode tr) V5 p \<and> snd (packet_encode V5 p) = None"
    and "unread incoming r = wire ps @ later"
  shows "\<exists>r'. receives tr r ps r' \<and> unread incoming r' = later"
  using assms(6,7)
proof (induction ps arbitrary: r)
  case Nil
  then show ?case by (auto intro: receives_none)
next
  case (Cons p ps)
  obtain r1 where r1: "mqtt_receive tr r = (Ready (Inr p), r1)" "unread incoming r1 = wire ps @ later"
    using mqtt_receive_next [OF assms(1-5), of p r "wire ps @ later"] Cons.prems by auto
  from Cons.IH [OF _ r1(2)] Cons.prems(1) obtain r' where "receives tr r1 ps r'" "unread incoming r' = later" by auto
  with r1(1) show ?case by (auto intro: receives_next)
qed

text \<open>The sequence of packets read does not depend on how the stream cuts the bytes.\<close>

lemma mqtt_receive_unread:
  assumes "readable (tr_read tr) incoming" and "mqtt_receive tr r = (x, r')"
  shows "(\<exists>raw :: raw_packet. decode_fixed_header (unread incoming r) =
        Inr (Some ((raw_first_byte raw, length (raw_rest raw)), raw_rest raw @ unread incoming r')) \<and>
        x = Ready (map_err (\<lambda>e. InnerProtocol (MalformedPacket e))
              (packet_decode (tr_unicode tr) V5 (raw_first_byte raw) (raw_rest raw)))) \<or>
     unread incoming r' = unread incoming r \<and> (x = Pending \<or> (\<exists>e. x = Ready (Inl (InnerIo e))))"
proof -
  obtain y where y: "reader_read (tr_pool tr) (tr_read tr) r = (y, r')"
    using assms(2) by (auto simp: mqtt_receive_def split: prod.splits io.splits)
  note spec = reader_read_unread [OF assms(1) y]
  show ?thesis
  proof (cases y)
    case (IoReady raw)
    then show ?thesis using spec assms(2) y by (intro disjI1 exI [of _ raw]) (simp add: mqtt_receive_def)
  qed (use spec assms(2) y in \<open>auto simp: mqtt_receive_def\<close>)
qed

section \<open>The loop panics only on a publish that the session does not support\<close>

lemma send_step_no_panic:
  assumes tr: "transport_ok tr incoming sent" and w: "writer_ok (lp_writer l)" and inv: "ack_inv c"
    and con: "is_connected (sys c)" and l: "lp_session l = sys c"
  shows "fst (send_step tr now p l) \<noteq> LoopPanic"
proof
  assume "fst (send_step tr now p l) = LoopPanic"
  then obtain l' where step: "send_step tr now p l = (LoopPanic, l')" by (metis prod.collapse)
  have "writable (tr_write tr) (tr_flush tr) sent" "pool_ok (tr_pool tr)" using tr by (simp_all add: transport_ok_def)
  then obtain x w1 where wr: "writer_write (tr_pool tr) (tr_write tr) (tr_flush tr) V5 p (lp_writer l) = Some (x, w1)"
    "writer_ok w1" using writer_write_appends [OF _ _ w] by metis
  obtain y s where y: "next_outgoing_packet now (sys c) = (y, s)" by fastforce
  note run = next_outgoing_packet_no_panic [OF inv con y]
  have flush: "flush_step tr res l1 \<noteq> (LoopPanic, l')" if "lp_writer l1 = w1" "res \<noteq> LoopPanic" for res l1
    using flush_step_written [OF tr, of l1 res LoopPanic l'] wr(2) that by auto
  show False
    using step wr(1) y run l flush
    by (cases x; cases p) (auto simp: send_step_def Let_def)
qed

theorem loop_step_panic:
  assumes tr: "transport_ok tr incoming sent" and ok: "loop_ok l" and inv: "ack_inv c"
    and con: "is_connected (sys c)" and l: "lp_session l = sys c"
    and step: "loop_step tr allow n now l = (LoopPanic, l')"
  shows "lp_packet l = None \<and> (\<exists>s p. next_outgoing_packet now (sys c) = (Pending, s) \<and>
    fst (mqtt_receive tr (conn_reader (lp_connection l))) = Ready (Inr p) \<and> unsupported_publish s p)"
proof (cases "lp_packet l")
  case (Some p)
  then show ?thesis
    using step send_step_no_panic [OF tr _ inv con l, of now p] ok by (simp add: loop_step_def loop_ok_def)
next
  case None
  obtain y s where y: "next_outgoing_packet now (sys c) = (y, s)" by fastforce
  obtain x rd where x: "mqtt_receive tr (conn_reader (lp_connection l)) = (x, rd)" by fastforce
  have pend: "y = Pending"
    using next_outgoing_packet_no_panic [OF inv con y] step None y l by (auto simp: loop_step_def select_step_def)
  note run = step [unfolded loop_step_def select_step_def None l, simplified, unfolded y pend, simplified, unfolded x Let_def]
  from run obtain p where p: "x = Ready (Inr p)"
    "handle_incoming allow n now p (with_reader rd (with_session s l)) = (LoopPanic, l')"
    by (auto split: poll.splits sum.splits option.splits if_splits)
  from handle_incoming_panic [OF p(2)] show ?thesis using None y pend x p by auto
qed

section \<open>The end of a connection\<close>

lemma finish_disconnects: "\<not> is_connected (fst (finish x s))"
  by (cases "(x, s)" rule: finish.cases)
    (auto simp: is_connected_def client_disconnect_def server_disconnect_def transport_disconnect_def
      expire_if_zero_fields disconnected_fields Let_def split: option.splits)

lemma finish_client_step:
  assumes "is_connected (sys c)"
  shows "\<exists>c'. client_step allow c c' \<and> sys c' = fst (finish x (sys c)) \<and> held c' = held c"
  using assms client_gone server_gone transport_gone by (cases "(x, sys c)" rule: finish.cases) fastforce+

end
