(* ===== verification/Writer_Progress.thy ===== *)
theory Writer_Progress
  imports Stream_Writer
begin

text \<open>
  On a stream that makes progress, writing and flushing succeed: the loops of the writer end with
  everything sent.
\<close>

text \<open>A stream that takes at least one byte of what it is offered, and never fails.\<close>

definition accepting :: "'s write_fn \<Rightarrow> 's flush_fn \<Rightarrow> bool" where
  "accepting wv fl \<longleftrightarrow>
     (\<forall>iovecs s. concat iovecs \<noteq> [] \<longrightarrow> (\<exists>n. fst (wv iovecs s) = Inr (Suc n))) \<and> (\<forall>s. fst (fl s) = Inr ())"

lemma write_loop_accepts:
  assumes "writable wv fl sent" and "accepting wv fl" and "total_len = written + length (concat iovecs)"
  shows "\<exists>s'. write_loop wv total_len iovecs written s = Some (Inr total_len, s')"
  using assms
proof (induction wv total_len iovecs written s rule: write_loop.induct)
  case (1 wv total_len iovecs written s)
  show ?case
  proof (cases "written < total_len")
    case True
    then obtain n s1 where wr: "wv iovecs s = (Inr n, s1)" "n \<noteq> 0"
      using 1(3,4) unfolding accepting_def by (metis add.right_neutral less_irrefl list.size(3) nat.distinct(1) prod.collapse)
    have n: "n \<le> length (concat iovecs)" using writable_cases(1) [OF 1(2) wr(1)] ..
    then obtain rest where rest: "advance_slices n iovecs = Some rest" "concat rest = drop n (concat iovecs)"
      using advance_slices_drops by blast
    note step = write_loop_step(2) [OF True, where wv = wv and iovecs = iovecs and s = s, OF wr(1)]
    show ?thesis
    proof (cases "written + n < total_len")
      case again: True
      have "total_len = written + n + length (concat rest)" using 1(4) n rest(2) by simp
      from 1(1) [OF True wr(1) [symmetric] refl wr(2) again rest(1) 1(2,3) this] show ?thesis
        using step wr(2) again rest(1) by simp
    qed (use step wr(2) n 1(4) in simp)
  next
    case False
    then have "total_len = written" using 1(4) by linarith
    then show ?thesis by (simp add: write_loop.simps [of wv _ iovecs])
  qed
qed

lemma writer_flush_accepts:
  assumes "writable wv fl sent" and "accepting wv fl" and "writer_ok w"
  shows "\<exists>w'. writer_flush wv fl w = Some (Inr (), w')"
  using assms
proof (induction wv fl w rule: writer_flush.induct)
  case (1 wv fl w)
  have inv: "either_inv (writer_buf w)" "either_committed (writer_buf w)" using 1(4) by (simp_all add: writer_ok_def)
  obtain iovecs a' where batch: "either_to_iovecs 128 (writer_buf w) = Some iovecs"
    "either_drain (length (concat iovecs)) (writer_buf w) = Some a'" "either_inv a'" "either_committed a'"
    using either_batch [OF inv] by metis
  note unfold = writer_flush.simps [of wv fl w]
  show ?case
  proof (cases "iovecs = []")
    case True
    moreover have "fst (fl (writer_inner w)) = Inr ()" using 1(3) by (simp add: accepting_def)
    ultimately show ?thesis using batch(1) by (cases "fl (writer_inner w)") (simp add: unfold)
  next
    case False
    obtain s1 where loop: "write_loop wv (length (concat iovecs)) iovecs 0 (writer_inner w) = Some (Inr (length (concat iovecs)), s1)"
      using write_loop_accepts [OF 1(2,3)] by (metis add_0)
    have "writer_ok (w\<lparr>writer_inner := s1, writer_buf := a'\<rparr>)" using batch(3,4) by (simp add: writer_ok_def)
    from 1(1) [OF batch(1) False loop refl refl batch(2) 1(2,3) this] show ?thesis
      using batch(1,2) False loop by (simp add: unfold)
  qed
qed

lemma either_reserve_total: "pool_total bp \<Longrightarrow> \<exists>a'. either_reserve bp n a = Some a'"
  by (cases a) (auto simp: pool_total_def iovecs_reserve_def owned_reserve_def)

text \<open>Then a packet that can be encoded is always written.\<close>

lemma writer_write_accepts:
  assumes "writable wv fl sent" and "accepting wv fl" and "pool_ok bp" and "pool_total bp" and "writer_ok w"
    and "snd (packet_encode v p) = None"
  shows "\<exists>w'. writer_write bp wv fl v p w = Some (Inr (), w')"
proof -
  obtain w1 where room: "writer_make_room wv fl w = Some (Inr (), w1)" "writer_ok w1"
  proof (cases "either_can_accept_more (writer_buf w)")
    case True
    then show thesis using that assms(5) by (simp add: writer_make_room_def)
  next
    case False
    then show thesis
      using that writer_flush_accepts [OF assms(1,2,5)] writer_flush_written [OF assms(1,5)]
        writer_make_room_flushes [OF assms(1,5)] by (metis option.inject prod.inject)
  qed
  obtain buf where res: "either_reserve bp (slice_bytes (packet_encode v p)) (writer_buf w1) = Some buf"
    using either_reserve_total [OF assms(4)] by blast
  have "either_fits (slice_bytes (packet_encode v p)) buf" "either_inv buf"
    using either_reserve_room [OF assms(3) res] room(2) either_inv_ops(4) [OF _ res] by (auto simp: writer_ok_def)
  then show ?thesis
    using run_either_packet [OF assms(3) _ _ assms(6)] room(1) res assms(6)
    by (fastforce simp: writer_write_def byte_count_slices)
qed

end
