(* ===== verification/Client_Life.thy ===== *)
theory Client_Life
  imports Event_Loop Writer_Progress
begin

text \<open>
  The whole life of a client: a \<open>ConnectHandle\<close> connects, with or without enhanced authentication,
  the connection runs until it ends, and the handle that comes back connects again, while the
  application acts at any time. The session is passed along by ownership, as in the code, so a
  phase owns exactly one session. Every phase of every life has the session in a reachable state
  of the client system.
\<close>

section \<open>The handshake and the writer\<close>

definition writer_new :: "'w \<Rightarrow> either_accumulator \<Rightarrow> 'w writer" where
  "writer_new inner buf = \<lparr>writer_inner = inner, writer_buf = buf\<rparr>"

definition reader_new :: "'r \<Rightarrow> owned \<Rightarrow> 'r reader" where
  "reader_new inner buf = \<lparr>reader_inner = inner, reader_buf = buf\<rparr>"

definition writer_idle :: "'w writer \<Rightarrow> bool" where
  "writer_idle w \<longleftrightarrow> writer_ok w \<and> either_view (writer_buf w) = []"

lemma writer_new_idle: "filled ow = [] \<Longrightarrow> writer_idle (writer_new s (Iovecs (iovecs_new ow)))"
  by (simp add: writer_idle_def writer_ok_def writer_new_def iovecs_view_def iovecs_new_def iovecs_inv_def)

lemma write_and_flush_sends:
  assumes tr: "transport_ok tr incoming sent" and w: "writer_idle w"
  obtains x w' where "write_and_flush tr p w = Some (x, w')"
    and "x = Inr () \<Longrightarrow> writer_idle w' \<and> sent (writer_inner w') = sent (writer_inner w) @ wire [p]"
proof -
  have wr: "writable (tr_write tr) (tr_flush tr) sent" "pool_ok (tr_pool tr)" "writer_ok w"
    "written_bytes sent w = sent (writer_inner w)"
    using assms by (simp_all add: transport_ok_def writer_idle_def written_bytes_def)
  from writer_write_appends [OF wr(1-3)] obtain y w1 where
    y: "writer_write (tr_pool tr) (tr_write tr) (tr_flush tr) V5 p w = Some (y, w1)" "writer_ok w1"
    "y = Inr () \<longrightarrow> written_bytes sent w1 = written_bytes sent w @ enc_bytes (packet_encode V5 p)" by metis
  show thesis
  proof (cases y)
    case (Inl e)
    with y(1) that [of "Inl e" w1] show ?thesis by (simp add: write_and_flush_def)
  next
    case (Inr u)
    obtain x w' where "writer_flush (tr_write tr) (tr_flush tr) w1 = Some (x, w')" "writer_ok w'"
      "x = Inr () \<Longrightarrow> written_bytes sent w' = written_bytes sent w1 \<and> either_view (writer_buf w') = []"
      using writer_flush_written [OF wr(1) y(2)] by metis
    with y Inr wr(4) show ?thesis
      by (intro that [of x w']) (auto simp: write_and_flush_def writer_idle_def written_bytes_def)
  qed
qed

section \<open>The handshake and the session\<close>

lemma incoming_connack_refused:
  assumes "incoming_connack allow now k ka am ei s = (r, s')" and "r = Inl e \<or> \<not> connack_is_success k"
  shows "s' = s"
  using assms by (auto simp: incoming_connack_def Let_def connack_is_success_def
      split: if_splits connect_reason_code.splits)

lemma incoming_connack_connects:
  assumes "incoming_connack allow now k ka am ei s = (Inr u, s')" and "connack_is_success k"
  shows "connected s' = Connected k \<and> connection_epoch s' = connection_epoch s + 1 \<and> ch s' = ch s"
  using assms by (auto simp: incoming_connack_def Let_def connack_is_success_def session_expired_fields
      split: if_splits connect_reason_code.splits)

text \<open>The ways in which a response can end the handshake, for both kinds of connect.\<close>

lemma connect_response_cases:
  assumes "connect_response tr allow now elapsed c = x"
  obtains (waiting) rd where "x = Inr (c\<lparr>connecting_reader := rd\<rparr>)"
  | (failed) e where "x = Inl (ConnectFailure (connecting_handle c) e)"
  | (connected) k s rd where "mqtt_receive tr (connecting_reader c) = (Ready (Inr (ConnAckPacket k)), rd)"
      "connack_is_success k"
      "incoming_connack allow now k (keep_alive_from (arg_keep_alive (connecting_args c))) None
         (connect_session_expiry_interval (arg_properties (connecting_args c)))
         (handle_session (connecting_handle c)) = (Inr (), s)"
      "x = Inl (ConnectSuccessful
         \<lparr>conn_session = open_disconnect_channel s, conn_reader = rd, conn_writer = connecting_writer c,
          conn_client_id = handle_client_id (connecting_handle c),
          conn_pingresp_timeout = pingresp_timeout (arg_keep_alive (connecting_args c))\<rparr> k)"
proof -
  obtain y rd where y: "mqtt_receive tr (connecting_reader c) = (y, rd)" by fastforce
  show thesis
  proof (cases "\<exists>k. y = Ready (Inr (ConnAckPacket k))")
    case True
    then obtain k where k: "y = Ready (Inr (ConnAckPacket k))" by blast
    obtain r s where s: "incoming_connack allow now k (keep_alive_from (arg_keep_alive (connecting_args c))) None
         (connect_session_expiry_interval (arg_properties (connecting_args c)))
         (handle_session (connecting_handle c)) = (r, s)" by fastforce
    have same: "s = handle_session (connecting_handle c)" if "r = Inl e \<or> \<not> connack_is_success k" for e
      using incoming_connack_refused [OF s that] .
    show thesis
    proof (cases "(\<exists>e. r = Inl e) \<or> \<not> connack_is_success k")
      case True
      then have "\<exists>e. x = Inl (ConnectFailure ((connecting_handle c)\<lparr>handle_session := s\<rparr>) e)"
        using assms y k s by (cases r) (auto simp: connect_response_def Let_def)
      moreover have "s = handle_session (connecting_handle c)" using True same by blast
      ultimately show thesis using failed by auto
    next
      case False
      then show thesis
        using assms y k s connected [of k rd s] by (cases r) (auto simp: connect_response_def Let_def)
    qed
  next
    case False
    then have "(\<exists>e. x = Inl (ConnectFailure (connecting_handle c) e)) \<or> x = Inr (c\<lparr>connecting_reader := rd\<rparr>)"
      using assms y by (auto simp: connect_response_def Let_def split: poll.splits sum.splits packet.splits if_splits)
    then show thesis using waiting failed by blast
  qed
qed

lemma receive_response_cases:
  assumes "receive_response tr allow now elapsed a = x"
  obtains (waiting) rd where "x = Inr (a\<lparr>auth_reader := rd\<rparr>)"
  | (continue) au rd where "x = Inl (AuthContinue au (a\<lparr>auth_reader := rd\<rparr>))"
      "authentication_method_matches (auth_authentication au) (Some (byte_str_bytes (auth_method a)))"
  | (failed) e where "x = Inl (AuthFailure (into_connect_handle a) e)"
  | (connected) k s rd where "mqtt_receive tr (auth_reader a) = (Ready (Inr (ConnAckPacket k)), rd)"
      "connack_is_success k"
      "incoming_connack allow now k (keep_alive_from (auth_keep_alive a)) (Some (byte_str_bytes (auth_method a)))
         (auth_session_expiry_interval a) (auth_session a) = (Inr (), s)"
      "x = Inl (AuthSuccessful
         \<lparr>conn_session = open_disconnect_channel s, conn_reader = rd, conn_writer = auth_writer a,
          conn_client_id = auth_client_id a, conn_pingresp_timeout = pingresp_timeout (auth_keep_alive a)\<rparr>
         k (auth_method a))"
proof -
  obtain y rd where y: "mqtt_receive tr (auth_reader a) = (y, rd)" by fastforce
  show thesis
  proof (cases "\<exists>k. y = Ready (Inr (ConnAckPacket k))")
    case True
    then obtain k where k: "y = Ready (Inr (ConnAckPacket k))" by blast
    obtain r s where s: "incoming_connack allow now k (keep_alive_from (auth_keep_alive a))
         (Some (byte_str_bytes (auth_method a))) (auth_session_expiry_interval a) (auth_session a) = (r, s)" by fastforce
    show thesis
    proof (cases "(\<exists>e. r = Inl e) \<or> \<not> connack_is_success k")
      case True
      then have "\<exists>e. x = Inl (AuthFailure (into_connect_handle (a\<lparr>auth_session := s\<rparr>)) e)"
        using assms y k s by (cases r) (auto simp: receive_response_def)
      moreover have "s = auth_session a" using True incoming_connack_refused [OF s] by blast
      ultimately show thesis using failed by auto
    next
      case False
      then show thesis
        using assms y k s connected [of k rd s] by (cases r) (auto simp: receive_response_def)
    qed
  next
    case False
    then have "(\<exists>e. x = Inl (AuthFailure (into_connect_handle a) e)) \<or> x = Inr (a\<lparr>auth_reader := rd\<rparr>) \<or>
        (\<exists>au. x = Inl (AuthContinue au (a\<lparr>auth_reader := rd\<rparr>)) \<and>
          authentication_method_matches (auth_authentication au) (Some (byte_str_bytes (auth_method a))))"
      using assms y by (auto simp: receive_response_def split: poll.splits sum.splits packet.splits if_splits)
    then show thesis using waiting continue failed by blast
  qed
qed

section \<open>Lives\<close>

datatype ('r, 'w) phase =
    Offline connect_handle
  | AwaitConnack "('r, 'w) connecting"
  | AwaitAuth "('r, 'w) enhanced_auth_handle"
  | AuthStep "('r, 'w) enhanced_auth_handle"
  | Running "('r, 'w) event_loop"

primrec phase_session :: "('r, 'w) phase \<Rightarrow> session" where
  "phase_session (Offline h) = handle_session h"
| "phase_session (AwaitConnack c) = handle_session (connecting_handle c)"
| "phase_session (AwaitAuth a) = auth_session a"
| "phase_session (AuthStep a) = auth_session a"
| "phase_session (Running l) = lp_session l"

primrec phase_with :: "session \<Rightarrow> ('r, 'w) phase \<Rightarrow> ('r, 'w) phase" where
  "phase_with s (Offline h) = Offline (h\<lparr>handle_session := s\<rparr>)"
| "phase_with s (AwaitConnack c) = AwaitConnack (c\<lparr>connecting_handle := (connecting_handle c)\<lparr>handle_session := s\<rparr>\<rparr>)"
| "phase_with s (AwaitAuth a) = AwaitAuth (a\<lparr>auth_session := s\<rparr>)"
| "phase_with s (AuthStep a) = AuthStep (a\<lparr>auth_session := s\<rparr>)"
| "phase_with s (Running l) = Running (with_session s l)"

lemma phase_session_with [simp]: "phase_session (phase_with s ph) = s"
  by (cases ph) simp_all

text \<open>Where \<open>connect\<close> and its variants leave the client, for each result they can have.\<close>

primrec after_connect :: "('r, 'w) connect_result + ('r, 'w) connecting \<Rightarrow> ('r, 'w) phase" where
  "after_connect (Inl r) = (case r of ConnectSuccessful c k \<Rightarrow> Running (loop_new c) | ConnectFailure h e \<Rightarrow> Offline h)"
| "after_connect (Inr c) = AwaitConnack c"

primrec after_auth :: "('r, 'w) connect_enhanced_auth_result + ('r, 'w) enhanced_auth_handle \<Rightarrow> ('r, 'w) phase" where
  "after_auth (Inl r) = (case r of
      AuthContinue au a \<Rightarrow> AuthStep a
    | AuthSuccessful c k m \<Rightarrow> Running (loop_new c)
    | AuthFailure h e \<Rightarrow> Offline h)"
| "after_auth (Inr a) = AwaitAuth a"

text \<open>What the application does between two polls of the client: its tokens are the second component.\<close>

inductive app_step :: "session \<times> pub_ack_token list \<Rightarrow> session \<times> pub_ack_token list \<Rightarrow> bool" where
  submits: "app_step (s, ts) (s\<lparr>ch := submit x (ch s)\<rparr>, ts)"
| takes: "i_pub_tx (ch s) = x # rest \<Longrightarrow>
    app_step (s, ts) (s\<lparr>ch := (ch s)\<lparr>i_pub_tx := rest\<rparr>\<rparr>, ts @ incoming_tokens x)"
| uses: "app_step (s, ts @ t # us) (s\<lparr>ch := use_token n n' u t (ch s)\<rparr>, ts @ us)"
| drops: "app_step (s, ts) (s\<lparr>ch := drop_receiver ns s\<rparr>, ts)"

inductive_cases app_stepE: "app_step (s, ts) (s', ts')"

text \<open>
  A life with maximal packet identifier \<open>m\<close>. The streams a transport gives have nothing written to
  them yet; the epoch counter does not run full.
\<close>

inductive client_life ::
  "('r, 'w) transport \<Rightarrow> bool \<Rightarrow> pkid \<Rightarrow> ('r, 'w) phase \<Rightarrow> pub_ack_token list \<Rightarrow> bool" for tr allow m
where
  created: "m \<noteq> 0 \<Longrightarrow> client_life tr allow m (Offline \<lparr>handle_session = session_new m, handle_client_id = cid\<rparr>) []"
| connects: "client_life tr allow m (Offline h) ts \<Longrightarrow> (\<And>rd w. streams = Inr (rd, w) \<Longrightarrow> writer_idle w) \<Longrightarrow>
    connect_start tr streams args h = Some x \<Longrightarrow> client_life tr allow m (after_connect x) ts"
| responds: "client_life tr allow m (AwaitConnack c) ts \<Longrightarrow>
    connection_epoch (handle_session (connecting_handle c)) < - 1 \<Longrightarrow>
    client_life tr allow m (after_connect (connect_response tr allow now elapsed c)) ts"
| auth_connects: "client_life tr allow m (Offline h) ts \<Longrightarrow> (\<And>rd w. streams = Inr (rd, w) \<Longrightarrow> writer_idle w) \<Longrightarrow>
    connect_enhanced_auth_start tr streams args au h = Some x \<Longrightarrow> client_life tr allow m (after_auth x) ts"
| auth_responds: "client_life tr allow m (AwaitAuth a) ts \<Longrightarrow> connection_epoch (auth_session a) < - 1 \<Longrightarrow>
    client_life tr allow m (after_auth (receive_response tr allow now elapsed a)) ts"
| auth_continues: "client_life tr allow m (AuthStep a) ts \<Longrightarrow>
    continue_auth tr data reason props a = Some x \<Longrightarrow> client_life tr allow m (after_auth x) ts"
| auth_given_up: "client_life tr allow m (AuthStep a) ts \<Longrightarrow>
    client_life tr allow m (Offline (into_connect_handle a)) ts"
| loops: "client_life tr allow m (Running l) ts \<Longrightarrow> loop_step tr allow n now l = (r, l') \<Longrightarrow>
    r = LoopAgain \<or> r = LoopSuspended \<Longrightarrow> client_life tr allow m (Running l') ts"
| ends: "client_life tr allow m (Running l) ts \<Longrightarrow> loop_step tr allow n now l = (LoopDone x, l') \<Longrightarrow>
    client_life tr allow m (Offline (fst (run_finished x l'))) ts"
| acts: "client_life tr allow m ph ts \<Longrightarrow> app_step (phase_session ph, ts) (s, ts') \<Longrightarrow>
    client_life tr allow m (phase_with s ph) ts'"

text \<open>The streams of a phase are in order, and only a running connection has a connected session.\<close>

primrec phase_ok :: "('r, 'w) phase \<Rightarrow> bool" where
  "phase_ok (Offline h) = (\<not> is_connected (handle_session h))"
| "phase_ok (AwaitConnack c) = (\<not> is_connected (handle_session (connecting_handle c)) \<and> writer_idle (connecting_writer c))"
| "phase_ok (AwaitAuth a) = (\<not> is_connected (auth_session a) \<and> writer_idle (auth_writer a))"
| "phase_ok (AuthStep a) = (\<not> is_connected (auth_session a) \<and> writer_idle (auth_writer a))"
| "phase_ok (Running l) = (is_connected (lp_session l) \<and> loop_ok l)"

section \<open>Every life is a run of the client system\<close>

definition lives_in :: "bool \<Rightarrow> ('r, 'w) phase \<Rightarrow> pub_ack_token list \<Rightarrow> bool" where
  "lives_in allow ph ts \<longleftrightarrow>
     phase_ok ph \<and> (\<exists>c. reachable allow c \<and> sys c = phase_session ph \<and> held c = ts)"

lemma lives_inI: "phase_ok ph \<Longrightarrow> reachable allow c \<Longrightarrow> sys c = phase_session ph \<Longrightarrow> held c = ts \<Longrightarrow> lives_in allow ph ts"
  unfolding lives_in_def by blast

text \<open>A phase that keeps the session of the one before.\<close>

lemma lives_in_same: "lives_in allow ph ts \<Longrightarrow> phase_session ph' = phase_session ph \<Longrightarrow> phase_ok ph' \<Longrightarrow> lives_in allow ph' ts"
  by (auto simp: lives_in_def)

lemma app_step_fields: "app_step (s, ts) (s', ts') \<Longrightarrow> connected s' = connected s"
  by (erule app_stepE) simp_all

lemma app_step_client_step:
  assumes "app_step (sys c, held c) (s, ts)"
  shows "\<exists>c'. client_step allow c c' \<and> sys c' = s \<and> held c' = ts"
  using assms
proof (cases rule: app_step.cases)
  case (submits x)
  then show ?thesis using app_submit [of allow c x] by fastforce
next
  case (takes x rest)
  then show ?thesis using app_recv [of c x rest allow] by fastforce
next
  case (uses ts' t us n n' u)
  then show ?thesis using app_token [of c ts' t us allow n n' u] by fastforce
next
  case (drops ns)
  then show ?thesis using app_drop_receiver [of allow c ns] by fastforce
qed

lemma phase_ok_with: "phase_ok ph \<Longrightarrow> connected s = connected (phase_session ph) \<Longrightarrow> phase_ok (phase_with s ph)"
  by (cases ph) (auto simp: is_connected_def loop_ok_def)

lemma lives_in_app:
  assumes "lives_in allow ph ts" and "app_step (phase_session ph, ts) (s, ts')"
  shows "lives_in allow (phase_with s ph) ts'"
proof -
  from assms(1) obtain c where c: "reachable allow c" "sys c = phase_session ph" "held c = ts" "phase_ok ph"
    unfolding lives_in_def by blast
  with assms(2) obtain c' where "client_step allow c c'" "sys c' = s" "held c' = ts'"
    using app_step_client_step [of c s ts' allow] by auto
  with reachable.step [OF c(1)] show ?thesis
    using phase_ok_with [OF c(4)] app_step_fields [OF assms(2)] by (intro lives_inI [of _ _ c']) simp_all
qed

lemma lives_in_finish:
  assumes "lives_in allow (Running l) ts" and "loop_step tr allow n now l = (LoopDone x, l')"
  shows "lives_in allow (Offline (fst (run_finished x l'))) ts"
proof -
  from assms(1) obtain c where c: "reachable allow c" "sys c = lp_session l" "held c = ts" "is_connected (lp_session l)"
    by (auto simp: lives_in_def)
  then have con: "is_connected (sys c)" by simp
  have "advanced allow c (lp_session l')" by (rule loop_step_advanced [OF con c(2) [symmetric] assms(2)]) simp
  then obtain c1 where c1: "(client_step allow)\<^sup>*\<^sup>* c c1" "sys c1 = lp_session l'" "held c1 = ts" "is_connected (sys c1)"
    unfolding advanced_def c(3) by auto
  from finish_client_step [OF c1(4)] obtain c2 where
    c2: "client_step allow c1 c2" "sys c2 = fst (finish x (lp_session l'))" "held c2 = ts" using c1 by metis
  have h: "handle_session (fst (run_finished x l')) = fst (finish x (lp_session l'))"
    by (simp add: run_finished_def split: prod.splits)
  show ?thesis
    using c2 reachable.step [OF rtranclp_reachable [OF c1(1) c(1)] c2(1)] finish_disconnects [of x "lp_session l'"]
    by (intro lives_inI [of _ _ c2]) (simp_all add: h)
qed

lemma lives_in_loop:
  assumes "lives_in allow (Running l) ts" and "transport_ok tr incoming sent"
    and "loop_step tr allow n now l = (r, l')" and "r = LoopAgain \<or> r = LoopSuspended"
  shows "lives_in allow (Running l') ts"
proof -
  from assms(1) obtain c where c: "reachable allow c" "sys c = lp_session l" "held c = ts" "is_connected (lp_session l)"
    "loop_ok l" by (auto simp: lives_in_def)
  then have con: "is_connected (sys c)" by simp
  have "advanced allow c (lp_session l')"
    by (rule loop_step_advanced [OF con c(2) [symmetric] assms(3)]) (use assms(4) in auto)
  then obtain c1 where c1: "(client_step allow)\<^sup>*\<^sup>* c c1" "sys c1 = lp_session l'" "held c1 = ts" "is_connected (lp_session l')"
    unfolding advanced_def c(3) by auto
  have "loop_ok l'" using loop_step_written [OF assms(2) c(5) assms(3)] assms(4) by blast
  with c1 rtranclp_reachable [OF c1(1) c(1)] show ?thesis by (intro lives_inI [of _ _ c1]) simp_all
qed

text \<open>A successful CONNACK, and then the channel for the disconnect request.\<close>

lemma connack_reaches:
  assumes c: "reachable allow c" "\<not> is_connected (sys c)" "connection_epoch (sys c) < - 1"
    and k: "incoming_connack allow now k ka am ei (sys c) = (Inr (), s)" "connack_is_success k"
  obtains c' where "reachable allow c'" and "sys c' = open_disconnect_channel s" and "held c' = held c"
    and "is_connected (open_disconnect_channel s)"
proof -
  let ?c1 = "c\<lparr>sys := s, received := [], acked := []\<rparr>"
  have "is_connected s" using incoming_connack_connects [OF k] by (simp add: is_connected_def)
  then have "client_step allow ?c1 (?c1\<lparr>sys := open_disconnect_channel s\<rparr>)"
    using open_disconnect [of ?c1 allow] by (simp add: open_disconnect_channel_def)
  moreover have "reachable allow ?c1" using reachable.step [OF c(1) connack [OF c(2,3) k(1)]] .
  ultimately show thesis
    using that [of "?c1\<lparr>sys := open_disconnect_channel s\<rparr>"] \<open>is_connected s\<close>
    by (auto simp: open_disconnect_channel_def is_connected_def intro: reachable.step)
qed

lemma lives_in_connected:
  assumes "lives_in allow ph ts" and "\<not> is_connected (phase_session ph)" and "connection_epoch (phase_session ph) < - 1"
    and "incoming_connack allow now k ka am ei (phase_session ph) = (Inr (), s)" and "connack_is_success k"
    and "conn_session c = open_disconnect_channel s" and "writer_idle (conn_writer c)"
  shows "lives_in allow (Running (loop_new c)) ts"
proof -
  from assms(1) obtain d where d: "reachable allow d" "sys d = phase_session ph" "held d = ts"
    by (auto simp: lives_in_def)
  obtain d' where "reachable allow d'" "sys d' = open_disconnect_channel s" "held d' = held d"
    "is_connected (open_disconnect_channel s)" using connack_reaches [OF d(1), of now k ka am ei s] assms d by metis
  then show ?thesis
    using assms(6,7) d by (intro lives_inI [of _ _ d']) (auto simp: loop_new_def loop_ok_def writer_idle_def)
qed

lemma connect_start_cases:
  assumes "connect_start tr streams args h = Some x" and "transport_ok tr incoming sent"
    and "\<And>rd w. streams = Inr (rd, w) \<Longrightarrow> writer_idle w"
  obtains (failed) e where "x = Inl (ConnectFailure h e)"
  | (sent) rd w w' where "streams = Inr (rd, w)"
      "x = Inr \<lparr>connecting_handle = h, connecting_reader = rd, connecting_writer = w', connecting_args = args\<rparr>"
      "writer_idle w'"
      "sent (writer_inner w') = sent (writer_inner w) @ wire [connect_packet (handle_client_id h) args None]"
proof (cases streams)
  case (Inl e)
  then show thesis using assms(1) failed by (auto simp: connect_start_def)
next
  case (Inr z)
  obtain rd w where z: "z = (rd, w)" by (cases z)
  obtain y w' where y: "write_and_flush tr (connect_packet (handle_client_id h) args None) w = Some (y, w')"
    "y = Inr () \<Longrightarrow> writer_idle w' \<and>
       sent (writer_inner w') = sent (writer_inner w) @ wire [connect_packet (handle_client_id h) args None]"
    using write_and_flush_sends [OF assms(2), of w] assms(3) Inr z by metis
  show thesis
  proof (cases y)
    case (Inl e)
    then show thesis using assms(1) Inr z y failed by (auto simp: connect_start_def)
  next
    case (Inr u)
    then show thesis using assms(1) \<open>streams = Inr z\<close> z y sent [of rd w w'] by (simp add: connect_start_def)
  qed
qed

lemma auth_start_cases:
  assumes "connect_enhanced_auth_start tr streams args au h = Some x" and "transport_ok tr incoming sent"
    and "\<And>rd w. streams = Inr (rd, w) \<Longrightarrow> writer_idle w"
  shows "(\<exists>e. x = Inl (AuthFailure h e)) \<or>
    (\<exists>a. x = Inr a \<and> auth_session a = handle_session h \<and> auth_client_id a = handle_client_id h \<and>
       writer_idle (auth_writer a))"
proof (cases streams)
  case (Inl e)
  then show ?thesis using assms(1) by (auto simp: connect_enhanced_auth_start_def)
next
  case (Inr z)
  obtain rd w where z: "z = (rd, w)" by (cases z)
  obtain y w' where y: "write_and_flush tr (connect_packet (handle_client_id h) args (Some au)) w = Some (y, w')"
    "y = Inr () \<Longrightarrow> writer_idle w'"
    using write_and_flush_sends [OF assms(2), of w] assms(3) Inr z by metis
  then show ?thesis using assms(1) Inr z by (cases y) (auto simp: connect_enhanced_auth_start_def)
qed

lemma continue_auth_cases:
  assumes "continue_auth tr data reason props a = Some x" and "transport_ok tr incoming sent" and "writer_idle (auth_writer a)"
  shows "(\<exists>e. x = Inl (AuthFailure (into_connect_handle a) e)) \<or>
    (\<exists>w. x = Inr (a\<lparr>auth_writer := w\<rparr>) \<and> writer_idle w)"
proof -
  let ?p = "AuthPacket \<lparr>auth_reason_code = ContinueAuthentication,
     auth_authentication = Some \<lparr>authentication_method = auth_method a, authentication_data = data\<rparr>,
     auth_reason_string = reason, auth_user_properties = props\<rparr>"
  obtain y w' where y: "write_and_flush tr ?p (auth_writer a) = Some (y, w')" "y = Inr () \<Longrightarrow> writer_idle w'"
    using write_and_flush_sends [OF assms(2,3)] by metis
  then show ?thesis
    using assms(1) by (cases y) (auto simp: continue_auth_def Let_def into_connect_handle_def)
qed

lemma client_life_lives:
  assumes "client_life tr allow m ph ts" and "transport_ok tr incoming sent"
  shows "lives_in allow ph ts"
  using assms(1)
proof induction
  case (created cid)
  then show ?case
    using reachable.start [of m allow] by (intro lives_inI [of _ _ "system_new m"]) (simp_all add: system_new_def is_connected_def session_new_def)
next
  case (connects h ts streams args x)
  from connect_start_cases [OF connects(3) assms(2)] connects(2,4) show ?case
    by cases (auto intro: lives_in_same simp: lives_in_def)
next
  case (responds c ts now elapsed)
  have off: "\<not> is_connected (phase_session (AwaitConnack c))" "writer_idle (connecting_writer c)"
    using responds(3) by (simp_all add: lives_in_def)
  show ?case
  proof (cases rule: connect_response_cases [OF refl, of tr allow now elapsed c, consumes 0, case_names waiting failed connected])
    case (connected k s rd)
    note run = connected(3)
    show ?thesis
      unfolding connected(4) after_connect.simps connect_result.case
      by (rule lives_in_connected [OF responds(3) off(1) _ _ connected(2)]) (use responds(2) off(2) run in simp_all)
  qed (use responds(3) in \<open>auto simp: lives_in_def\<close>)
next
  case (auth_connects h ts streams args au x)
  from auth_start_cases [OF auth_connects(3) assms(2)] auth_connects(2,4) show ?case
    by (auto simp: lives_in_def)
next
  case (auth_responds a ts now elapsed)
  have off: "\<not> is_connected (phase_session (AwaitAuth a))" "writer_idle (auth_writer a)"
    using auth_responds(3) by (simp_all add: lives_in_def)
  show ?case
  proof (cases rule: receive_response_cases [OF refl, of tr allow now elapsed a, consumes 0, case_names waiting continue failed connected])
    case (connected k s rd)
    note run = connected(3)
    show ?thesis
      unfolding connected(4) after_auth.simps connect_enhanced_auth_result.case
      by (rule lives_in_connected [OF auth_responds(3) off(1) _ _ connected(2)])
        (use auth_responds(2) off(2) run in simp_all)
  qed (use auth_responds(3) in \<open>auto simp: lives_in_def into_connect_handle_def\<close>)
next
  case (auth_continues a ts data reason props x)
  from continue_auth_cases [OF auth_continues(2) assms(2)] auth_continues(3) show ?case
    by (auto simp: lives_in_def into_connect_handle_def)
next
  case (auth_given_up a ts)
  then show ?case by (auto simp: lives_in_def into_connect_handle_def)
qed (auto intro: lives_in_loop [OF _ assms(2)] lives_in_finish lives_in_app)

section \<open>What runs write can be read back\<close>

lemma connection_run_encodes:
  assumes "connection_run tr allow l ps l'" and "transport_ok tr incoming sent" and "loop_ok l"
  shows "\<forall>p \<in> set ps. snd (packet_encode V5 p) = None"
  using assms(1)
proof induction
  case (run_loop ps l1 n now r l2)
  have "writer_ok (lp_writer l1)"
    using connection_run_written [OF run_loop(1) assms(2,3)] by (simp add: loop_ok_def)
  then show ?case
    using run_loop send_step_written [OF assms(2), of l1 now _ r l2]
    by (auto simp: loop_step_def to_write_def split: option.splits)
qed simp_all

end
