(* ===== verification/Codec_Properties.thy ===== *)
theory Codec_Properties
  imports Packet_Codec
begin

text \<open>
  What holds of the wire format: round trips, limits, accepted strings and filters, and the
  accumulators an encoder writes to. The witnesses use the UTF-8 tables restricted to ASCII.
\<close>

section \<open>An instance of the UTF-8 tables\<close>

definition ascii_unicode :: unicode where
  "ascii_unicode =
     \<lparr>decode_utf8 = (\<lambda>b. case b of [] \<Rightarrow> (None, 0) | c # _ \<Rightarrow> if unat c < 128 then (Some (unat c), 1) else (None, 1)),
      general_category = (\<lambda>c. if c < 32 \<or> c = 127 then Control else OtherCategory)\<rparr>"

lemma ascii_unicode_ok: "utf8_ascii ascii_unicode" "utf8_ok ascii_unicode"
  by (auto simp: utf8_ascii_def utf8_ok_def ascii_unicode_def split: list.splits if_splits)

lemma ascii_valid: "\<forall>b\<in>set s. 32 \<le> unat b \<and> unat b < 127 \<Longrightarrow> validate_mqtt_string ascii_unicode s = Inr ()"
  by (rule validate_ascii [OF ascii_unicode_ok(1)])

definition sample_topic :: "byte_str topic" where
  "sample_topic = Topic (ByteStr (BinaryData [0, 3, 97, 47, 98]))"

definition sample_publish :: publish where
  "sample_publish = \<lparr>publish_topic_name = sample_topic, packet_identifier_dup_qos = PdqAtLeastOnce 7 True,
     publish_retain = True, publish_payload = [1, 2, 3],
     publish_other_properties = publish_other_properties_default\<lparr>publish_message_expiry_interval := Some 60\<rparr>\<rparr>"

lemma sample_topic_ok: "topic_ok ascii_unicode sample_topic"
proof -
  have "validate_mqtt_string ascii_unicode [97, 47, 98] = Inr ()" by (rule ascii_valid) simp
  then show ?thesis
    by (simp add: topic_ok_def sample_topic_def str_ok_def str_as_ref_def binary_as_bytes_def u16_from_be_def
        topic_new_def contains_wildcard_def wildcard_defs)
qed


definition sample_wire :: bytes where
  "sample_wire = [0x3B, 16, 0, 3, 97, 47, 98, 0, 7, 5, 2, 0, 0, 0, 60, 1, 2, 3]"

lemma sample_properties:
  "property_bytes (publish_properties (publish_other_properties sample_publish)) = [2, 0, 0, 0, 60]"
  "list_all (property_ok ascii_unicode) (publish_properties (publish_other_properties sample_publish))"
  by (simp_all add: sample_publish_def publish_properties_def publish_other_properties_default_def opt_prop_def
      put_u8_def put_u32_be_def put_slice_def be32_def enc_bytes_def enc_then_def enc_ok_def enc_when_def)

lemma varint_small: "n < 128 \<Longrightarrow> varint_digits 4 n = [of_nat n]"
  using varint_digits.simps(2) [of 3 n] by simp

lemma sample_publish_encodes:
  "snd (encode_all (publish_properties (publish_other_properties sample_publish))) = None"
  "enc_bytes (encode_all (publish_properties (publish_other_properties sample_publish))) = [5, 2, 0, 0, 0, 60]"
  using encode_all_parts [OF sample_properties(2)] unfolding sample_properties(1) by (simp_all add: varint_small)

lemma sample_publish_ok: "packet_ok ascii_unicode V5 (PublishPacket sample_publish)"
  using sample_topic_ok sample_properties(2) sample_publish_encodes(1)
  by (simp add: publish_ok_def) (simp add: sample_publish_def)

lemma sample_body: "enc_bytes (packet_body V5 (PublishPacket sample_publish)) = drop 2 sample_wire"
proof -
  let ?props = "encode_all (publish_properties (publish_other_properties sample_publish))"
  have "packet_body V5 (PublishPacket sample_publish) =
      enc_then (topic_encode sample_topic) (enc_then (put_u16_be 7) (enc_then ?props (put_shared [1, 2, 3])))"
    by (simp add: publish_encode_def enc_when_def is_v5_def) (simp add: sample_publish_def)
  then show ?thesis
    using sample_publish_encodes by (simp add: sample_topic_def sample_wire_def be16_def)
qed

lemma sample_encodes:
  "snd (packet_encode V5 (PublishPacket sample_publish)) = None"
  "enc_bytes (packet_encode V5 (PublishPacket sample_publish)) = sample_wire"
proof -
  have "length (enc_bytes (packet_body V5 (PublishPacket sample_publish))) = 16"
    unfolding sample_body by (simp add: sample_wire_def)
  then show "snd (packet_encode V5 (PublishPacket sample_publish)) = None"
    "enc_bytes (packet_encode V5 (PublishPacket sample_publish)) = sample_wire"
    using packet_encode_bytes [OF sample_publish_ok ascii_unicode_ok(1)] sample_body
    by (simp_all add: varint_small packet_flags_def publish_flags_def sample_publish_def sample_wire_def)
qed

section \<open>Packets\<close>

text \<open>C5. Every packet survives the wire: for both protocol versions, whatever packet the Rust types
  allow, if \<open>encode\<close> succeeds then \<open>decode_full\<close> of the bytes it wrote is that packet again, with no
  bytes left over.\<close>

theorem packet_roundtrip:
  assumes "packet_ok uc v p" and "utf8_ascii uc" and "snd (packet_encode v p) = None"
  shows "packet_decode_full uc v (enc_bytes (packet_encode v p)) = Inr p"
  using assms by (rule packet_full_roundtrip)

theorem packet_roundtrip_witness:
  "packet_decode_full ascii_unicode V5 sample_wire = Inr (PublishPacket sample_publish)"
  using packet_roundtrip [OF sample_publish_ok ascii_unicode_ok(1) sample_encodes(1)] sample_encodes(2) by simp

text \<open>\<open>encode\<close> fails on a valid packet exactly when its body has 268 435 456 bytes or more, with the
  error that names the length; otherwise what it writes is the type and flags, the remaining length
  in base 128, and the body.\<close>

theorem packet_encode_limit:
  assumes "packet_ok uc v p" and "utf8_ascii uc"
  defines "body \<equiv> enc_bytes (packet_body v p)"
  shows "snd (packet_encode v p) =
      (if length body < 268435456 then None else Some (RemainingLengthTooHigh (length body))) \<and>
    (length body < 268435456 \<longrightarrow>
      enc_bytes (packet_encode v p) = (packet_type p OR packet_flags p) # varint_digits 4 (length body) @ body)"
  using packet_encode_bytes [OF assms(1,2)] packet_encode_too_long [OF assms(1,2)]
  unfolding body_def by simp

theorem packet_encode_limit_witness:
  "snd (packet_encode V5 (PublishPacket sample_publish)) = None \<and>
     take 2 (enc_bytes (packet_encode V5 (PublishPacket sample_publish))) = [0x3B, 16]"
  using packet_encode_limit [OF sample_publish_ok ascii_unicode_ok(1)] unfolding sample_body
  by (simp add: sample_wire_def varint_small packet_flags_def publish_flags_def sample_publish_def)

text \<open>C29. Variable byte integers: a number below 128 to the fourth is encoded and read back, whatever
  follows it, and no larger number is encoded or read.\<close>

theorem varint_wire:
  "snd (encode_varint v) = (if unat v < 268435456 then None else Some (VarintTooHigh v)) \<and>
   (unat v < 268435456 \<longrightarrow> decode_varint (enc_bytes (encode_varint v) @ rest) = Inr (Some (v, rest))) \<and>
   (decode_varint src = Inr (Some (w, rest')) \<longrightarrow> unat w < 268435456)"
  using encode_varint_fails_iff [of v] varint_roundtrip [of v rest] decode_varint_bound [of src w rest'] by simp

theorem varint_wire_witness:
  "decode_varint (enc_bytes (encode_varint 300) @ [9]) = Inr (Some (300, [9])) \<and> snd (encode_varint 268435456) \<noteq> None"
  using varint_wire [of 300 "[9]" "[]" 0 "[]"] varint_wire [of 268435456 "[]" "[]" 0 "[]"] by simp

lemma decode_loop_bindings:
  "decode_loop uc single many seen src = Inr ps \<Longrightarrow>
     \<exists>qs. ps = seen @ qs \<and> (\<forall>q\<in>set qs. variant q \<in> set single \<union> set many) \<and>
       (\<forall>k\<in>set single - set many. length (filter (\<lambda>q. variant q = k) qs) \<le> (if k \<in> variant ` set seen then 0 else 1))"
proof (induction uc single many seen src rule: decode_loop.induct)
  case (1 uc single many seen src)
  show ?case
  proof (cases "src = []")
    case True
    then show ?thesis using 1(3) by (simp add: decode_loop.simps)
  next
    case False
    then obtain p src' where p: "decode_property uc src = Inr (p, src')"
      using 1(3) by (cases "decode_property uc src") (auto simp: decode_loop.simps [of uc single many seen src])
    note run = 1(3) [unfolded decode_loop.simps [of uc single many seen src], simplified False p, simplified]
    show ?thesis
    proof (cases "variant p \<in> set many")
      case True
      with run have "decode_loop uc single many (seen @ [p]) src' = Inr ps" by simp
      from 1(1) [OF False p refl True this] obtain qs where qs: "ps = (seen @ [p]) @ qs"
        "\<forall>q\<in>set qs. variant q \<in> set single \<union> set many"
        "\<forall>k\<in>set single - set many. length (filter (\<lambda>q. variant q = k) qs) \<le>
           (if k \<in> variant ` set (seen @ [p]) then 0 else 1)" by blast
      have "length (filter (\<lambda>q. variant q = k) (p # qs)) \<le> (if k \<in> variant ` set seen then 0 else 1)"
        if "k \<in> set single - set many" for k
        using qs(3) [rule_format, OF that] True that by (auto split: if_splits)
      with qs(1,2) True show ?thesis by (intro exI [of _ "p # qs"]) auto
    next
      case False2: False
      with run have p2: "variant p \<in> set single" "variant p \<notin> variant ` set seen"
        "decode_loop uc single many (seen @ [p]) src' = Inr ps" by (auto split: if_splits)
      from 1(2) [OF False p refl False2 p2] obtain qs where qs: "ps = (seen @ [p]) @ qs"
        "\<forall>q\<in>set qs. variant q \<in> set single \<union> set many"
        "\<forall>k\<in>set single - set many. length (filter (\<lambda>q. variant q = k) qs) \<le>
           (if k \<in> variant ` set (seen @ [p]) then 0 else 1)" by blast
      have "length (filter (\<lambda>q. variant q = k) (p # qs)) \<le> (if k \<in> variant ` set seen then 0 else 1)"
        if "k \<in> set single - set many" for k
        using qs(3) [rule_format, OF that] p2 that by (auto split: if_splits)
      with qs(1,2) p2 show ?thesis by (intro exI [of _ "p # qs"]) auto
    qed
  qed
qed

text \<open>C32. However a property section was made, once it is decoded every property in it is one that the
  packet allows, and one that it allows once is there at most once.\<close>

theorem decoded_properties_allowed:
  assumes "decode_properties uc single many src = Inr (ps, rest)"
  shows "(\<forall>q\<in>set ps. variant q \<in> set single \<union> set many) \<and>
    (\<forall>k\<in>set single - set many. length (filter (\<lambda>q. variant q = k) ps) \<le> 1)"
proof -
  obtain bytes where "decode_loop uc single many [] bytes = Inr ps"
    using assms by (auto simp: decode_properties_def and_then_eq_Inr)
  from decode_loop_bindings [OF this] show ?thesis by auto
qed

theorem decoded_properties_allowed_witness:
  "\<exists>ps. decode_properties ascii_unicode publish_single publish_many [5, 2, 0, 0, 0, 60] = Inr (ps, []) \<and>
     length (filter (\<lambda>q. variant q = ''MessageExpiryInterval'') ps) \<le> 1"
proof -
  let ?ps = "[MessageExpiryInterval 60]"
  have "property_bytes ?ps = [2, 0, 0, 0, 60]" by (simp add: be32_def)
  then have "snd (encode_all ?ps) = None" "enc_bytes (encode_all ?ps) = [5, 2, 0, 0, 0, 60]"
    using encode_all_parts [of ascii_unicode ?ps] by (simp_all add: varint_small)
  then have "decode_properties ascii_unicode publish_single publish_many [5, 2, 0, 0, 0, 60] = Inr (wired ?ps, [])"
    using decode_properties_wire [of ?ps "[(''MessageExpiryInterval'', ?ps)]" publish_single publish_many ascii_unicode "[]"]
    by (simp add: groups_ok_def)
  from decoded_properties_allowed [OF this] this show ?thesis by auto
qed

text \<open>Reason codes: a byte is read as a variant exactly when it is the byte written for that variant,
  and as an error, which names the byte, exactly when no variant has it. Stated for PUBACK, SUBACK,
  CONNACK and DISCONNECT.\<close>

theorem reason_codes_exact:
  "(code_try_from UnrecognizedPubAckReasonCode pub_ack_table n = Inr a \<longleftrightarrow> n = code_to_u8 pub_ack_table a) \<and>
   (code_try_from UnrecognizedSubscribeReasonCode subscribe_table n = Inr s \<longleftrightarrow> n = code_to_u8 subscribe_table s) \<and>
   (code_try_from UnrecognizedConnectReasonCode connection_refused_table n = Inr c \<longleftrightarrow>
      n = code_to_u8 connection_refused_table c) \<and>
   (code_try_from UnrecognizedDisconnectReasonCode disconnect_table n = Inr d \<longleftrightarrow> n = code_to_u8 disconnect_table d) \<and>
   (code_try_from UnrecognizedDisconnectReasonCode disconnect_table n = Inl e \<longleftrightarrow>
      (\<nexists>d. n = code_to_u8 disconnect_table d) \<and> e = UnrecognizedDisconnectReasonCode n)"
proof (intro conjI)
  show "code_try_from UnrecognizedPubAckReasonCode pub_ack_table n = Inr a \<longleftrightarrow> n = code_to_u8 pub_ack_table a"
    by (rule pub_ack_code.try_from_Inr)
  show "code_try_from UnrecognizedSubscribeReasonCode subscribe_table n = Inr s \<longleftrightarrow> n = code_to_u8 subscribe_table s"
    by (rule subscribe_code.try_from_Inr)
  show "code_try_from UnrecognizedConnectReasonCode connection_refused_table n = Inr c \<longleftrightarrow>
      n = code_to_u8 connection_refused_table c"
    by (rule connection_refused_code.try_from_Inr)
  show "code_try_from UnrecognizedDisconnectReasonCode disconnect_table n = Inr d \<longleftrightarrow> n = code_to_u8 disconnect_table d"
    by (rule disconnect_code.try_from_Inr)
  show "code_try_from UnrecognizedDisconnectReasonCode disconnect_table n = Inl e \<longleftrightarrow>
      (\<nexists>d. n = code_to_u8 disconnect_table d) \<and> e = UnrecognizedDisconnectReasonCode n"
    using disconnect_code.try_from_Inr disconnect_code.try_from_Inl by (metis sum.exhaust sum.distinct(1))
qed

section \<open>Strings and topics\<close>

lemma validation_result:
  "validate_mqtt_string uc b = Inr () \<or> (\<exists>m. validate_mqtt_string uc b = Inl (InvalidByteStr m)) \<or>
     validate_mqtt_string uc b = Inl NoProgress"
proof (induction uc b rule: validate_mqtt_string.induct)
  case (1 uc b)
  obtain o1 n where d: "decode_utf8 uc b = (o1, n)" by (cases "decode_utf8 uc b")
  show ?case
  proof (cases "b = []")
    case False
    show ?thesis
      using 1 [OF False d [symmetric]] False d
      by (cases o1) (simp_all add: validate_mqtt_string.simps [of uc b])
  qed (simp add: validate_mqtt_string.simps)
qed

text \<open>The validation of strings always returns: for a UTF-8 decoder that never reports an empty
  code point or one longer than what is left, the loop makes progress until it accepts the string
  or rejects it with a reason.\<close>

theorem validation_returns:
  assumes "utf8_ok uc"
  shows "validate_mqtt_string uc b = Inr () \<or> (\<exists>m. validate_mqtt_string uc b = Inl (InvalidByteStr m))"
  using validate_returns [OF assms, of b] validation_result [of uc b] by blast

theorem validation_returns_witness:
  "validate_mqtt_string ascii_unicode [97, 7] = Inr () \<or>
     (\<exists>m. validate_mqtt_string ascii_unicode [97, 7] = Inl (InvalidByteStr m))"
  using ascii_unicode_ok(2) by (rule validation_returns)

lemma filter_accepted:
  "(\<exists>f. topic_filter_new uc s = Inr f) \<longleftrightarrow>
     s \<noteq> [] \<and> length s \<le> 65535 \<and> validate_mqtt_string uc s = Inr () \<and>
     (if is_share s then \<exists>g rest. shared_parts s g rest \<and> valid_levels (split_levels rest)
      else valid_levels (split_levels s))"
proof (cases "is_share s")
  case True
  have "shared_parts s g rest \<Longrightarrow> rest \<noteq> []" for g rest by (simp add: shared_parts_def)
  with True filter_classify_share [OF True] show ?thesis
    unfolding topic_filter_new_def filter_new_Inr id_apply by (simp add: True) blast
next
  case False
  with filter_classify_plain [OF False] show ?thesis
    unfolding topic_filter_new_def filter_new_Inr id_apply by (simp add: False) blast
qed

text \<open>C33. \<open>TopicFilter::new\<close> accepts exactly the filters of section 4.7 of the MQTT specification: a valid
  string, not empty and not too long, whose levels are free of wildcards, or a single \<open>+\<close>, or a
  final \<open>#\<close>; after the prefix \<open>$share/\<close> there must be a group name without wildcards and then such a
  filter.\<close>

theorem filter_accepted_iff:
  "(\<exists>f. topic_filter_new uc s = Inr f) \<longleftrightarrow>
     s \<noteq> [] \<and> length s \<le> 65535 \<and> validate_mqtt_string uc s = Inr () \<and>
     (if is_share s then \<exists>g rest. shared_parts s g rest \<and> valid_levels (split_levels rest)
      else valid_levels (split_levels s))"
  by (rule filter_accepted)

lemma name_plain: "topic_name_new uc t = Inr name \<Longrightarrow> name = Topic t \<and> plain_level t"
  using topic_new_iff [of uc id t] by (auto simp: topic_name_new_def dest: topic_new_inner)

lemma matches_name:
  assumes "topic_filter_new uc s = Inr f" and "topic_name_new uc t = Inr name"
  shows "matches_topic_name f name \<longleftrightarrow> positional_match (filter_levels s) (split_levels t)"
  using name_plain [OF assms(2)] matches_topic_levels(1) [OF assms(1) [unfolded topic_filter_new_def], of t]
    matches_topic_levels(2) [OF assms(1) [unfolded topic_filter_new_def]]
    match_levels_positional [of "filter_levels s" "split_levels t"] plain_levels [of t]
  by (simp add: matches_topic_name_def)

lemma sample_filters:
  "\<exists>f. topic_filter_new ascii_unicode [97, 47, 43] = Inr f" "\<exists>f. topic_filter_new ascii_unicode [97, 47, 35] = Inr f"
  using ascii_valid [of "[97, 47, 43]"] ascii_valid [of "[97, 47, 35]"]
  by (simp_all add: filter_accepted strip_prefix_def contains_wildcard_def wildcard_defs)

lemma sample_names:
  "topic_name_new ascii_unicode [97, 47, 98] = Inr (Topic [97, 47, 98])" "topic_name_new ascii_unicode [97] = Inr (Topic [97])"
  using ascii_valid [of "[97, 47, 98]"] ascii_valid [of "[97]"]
  by (simp_all add: topic_name_new_def topic_new_def contains_wildcard_def wildcard_defs)

text \<open>C34. Matching is by position: a topic name matches a filter exactly when they have the same number
  of levels and each level of the filter is the level of the topic, or \<open>+\<close> where the topic's level
  does not start with a dollar sign; or the filter ends in \<open>#\<close> at a position that the topic has and
  the levels before it match. For a shared subscription the levels are those after the group name.\<close>

theorem matching_is_positional:
  assumes "topic_filter_new uc s = Inr f" and "topic_name_new uc t = Inr name"
  shows "matches_topic_name f name \<longleftrightarrow> positional_match (filter_levels s) (split_levels t)"
  using assms by (rule matches_name)

theorem matching_is_positional_witness:
  "\<exists>f. topic_filter_new ascii_unicode [97, 47, 43] = Inr f \<and> matches_topic_name f (Topic [97, 47, 98])"
proof -
  obtain f where f: "topic_filter_new ascii_unicode [97, 47, 43] = Inr f" using sample_filters(1) by blast
  from matching_is_positional [OF f sample_names(1)] f show ?thesis
    by (auto simp: filter_levels_def strip_prefix_def positional_match_def level_matches_def wildcard_defs less_Suc_eq)
qed

text \<open>A filter that ends in \<open>/#\<close> does not match the topic it has in front of that: \<open>a/#\<close> is not
  matched by \<open>a\<close>, although section 4.7.1.2 of the MQTT specification counts the parent level in.\<close>

theorem multi_level_leaves_out_parent:
  assumes "topic_filter_new uc (t @ [SEPARATOR, MULTI_LEVEL_MATCH]) = Inr f" and "topic_name_new uc t = Inr name"
    and "\<not> is_share (t @ [SEPARATOR, MULTI_LEVEL_MATCH])"
  shows "\<not> matches_topic_name f name"
proof -
  have "filter_levels (t @ [SEPARATOR, MULTI_LEVEL_MATCH]) = split_levels t @ [[MULTI_LEVEL_MATCH]]"
    using assms(3) split_levels_append [of t "[MULTI_LEVEL_MATCH]"] by (simp add: filter_levels_def wildcard_defs)
  then show ?thesis
    using matches_name [OF assms(1,2)] by (simp add: positional_match_def Let_def)
qed

theorem multi_level_leaves_out_parent_witness:
  "\<exists>f. topic_filter_new ascii_unicode [97, 47, 35] = Inr f \<and> \<not> matches_topic_name f (Topic [97])"
proof -
  obtain f where f: "topic_filter_new ascii_unicode [97, 47, 35] = Inr f" using sample_filters(2) by blast
  then have f': "topic_filter_new ascii_unicode ([97] @ [SEPARATOR, MULTI_LEVEL_MATCH]) = Inr f"
    by (simp add: wildcard_defs)
  from multi_level_leaves_out_parent [OF f' sample_names(2)] f show ?thesis
    by (auto simp: strip_prefix_def wildcard_defs)
qed

section \<open>Accumulators\<close>

text \<open>C30. What the writer reserves is enough: a packet counted with \<open>ByteCounter\<close> without its shared
  buffers, encoded into an accumulator that has reserved that many bytes, is encoded completely; the
  bytes the accumulator held come first and the bytes of the packet follow, whichever way they are
  split into slices and shared buffers.\<close>

theorem reserved_encoding_fits:
  assumes "pool_ok bp" and "either_reserve bp n a = Some a'" and "byte_count False (packet_encode v p) = (n, None)"
  shows "\<exists>a''. run_either bp (packet_encode v p) a' = (a'', None) \<and>
    either_view a'' = either_view a @ enc_bytes (packet_encode v p)"
  using run_either_fits [OF assms(1), of "packet_encode v p" a'] either_reserve_room [OF assms(1,2)] assms(3)
  by (auto simp: byte_count_slices)

definition plain_pool :: pool where
  "plain_pool = \<lparr>pool_reserve = (\<lambda>u n. Some (max u n)), pool_unfilled_mut = id\<rparr>"

lemma plain_pool_ok: "pool_ok plain_pool"
  by (simp add: pool_ok_def plain_pool_def)

theorem reserved_encoding_fits_witness:
  "\<exists>n a' a''. byte_count False (packet_encode V5 (PublishPacket sample_publish)) = (n, None) \<and>
     either_reserve plain_pool n (Iovecs (iovecs_new \<lparr>filled = [], unfilled_len = 0\<rparr>)) = Some a' \<and>
     run_either plain_pool (packet_encode V5 (PublishPacket sample_publish)) a' = (a'', None) \<and>
     either_view a'' = sample_wire"
proof -
  define n where "n = slice_bytes (packet_encode V5 (PublishPacket sample_publish))"
  have n: "byte_count False (packet_encode V5 (PublishPacket sample_publish)) = (n, None)"
    using sample_encodes(1) by (simp add: byte_count_slices n_def)
  obtain a' where a': "either_reserve plain_pool n (Iovecs (iovecs_new \<lparr>filled = [], unfilled_len = 0\<rparr>)) = Some a'"
    by (auto simp: iovecs_reserve_def owned_reserve_def plain_pool_def)
  from reserved_encoding_fits [OF plain_pool_ok a' n] n a' show ?thesis
    by (auto simp: sample_encodes(2) iovecs_view_def iovecs_new_def)
qed

text \<open>Draining \<open>n\<close> bytes, by the fast path that clears the queue or by the slow path that splits a
  chunk, takes exactly the first \<open>n\<close> bytes away and keeps the count of the bytes right.\<close>

theorem drain_drops_prefix:
  assumes "iovecs_inv a" and "n \<le> total_size a" and "filled (acc_owned a) = []"
  shows "\<exists>a'. iovecs_drain n a = Some a' \<and> iovecs_view a' = drop n (iovecs_view a) \<and>
    total_size a' = total_size a - n \<and> iovecs_inv a'"
proof -
  obtain a' where a': "iovecs_drain n a = Some a'" "iovecs_inv a'" "acc_owned a' = acc_owned a"
      "iovecs_view a' = drop n (iovecs_view a)" using iovecs_drain_drops [OF assms] by blast
  moreover have "total_size a' = total_size a - n"
    using a' assms by (simp add: iovecs_inv_def iovecs_view_def)
  ultimately show ?thesis by blast
qed

theorem drain_drops_prefix_witness:
  "\<exists>a'. iovecs_drain 3 \<lparr>acc_owned = \<lparr>filled = [], unfilled_len = 9\<rparr>, chunks = [[1, 2], [3, 4, 5]], total_size = 5\<rparr> = Some a' \<and>
     iovecs_view a' = [4, 5] \<and> total_size a' = 2"
  using drain_drops_prefix [of "\<lparr>acc_owned = \<lparr>filled = [], unfilled_len = 9\<rparr>, chunks = [[1, 2], [3, 4, 5]], total_size = 5\<rparr>" 3]
  by (auto simp: iovecs_inv_def iovecs_view_def)

end
