(* ===== verification/Notifier_Account.thy ===== *)
theory Notifier_Account
  imports Session_Invariant "HOL-Library.Multiset"
begin

text \<open>
  Completion notifiers are accounted for: every notifier the session was given is either still in
  one of its channels and maps or was used up, by completing it, cancelling it or dropping it.
  Each operation of the session moves notifiers between these places and never loses or
  duplicates one, so a completion token is resolved at most once, and is resolved unless the
  session still owns the operation.
\<close>

primrec qos0_notifier :: "publish_request_qos0 \<Rightarrow> notifier" where
  "qos0_notifier (PublishRequestQoS0 n t p r props) = n"

primrec qos12_notifier :: "publish_request_qos12 \<Rightarrow> notifier" where
  "qos12_notifier (PublishQoS1Request n t p r props) = n"
| "qos12_notifier (PublishQoS2Request n t p r props) = n"

primrec subscription_notifier :: "subscription_request \<Rightarrow> notifier" where
  "subscription_notifier (SubscribeRequest n f o' props) = n"
| "subscription_notifier (UnsubscribeRequest n f props) = n"

primrec reauth_notifier :: "reauth_request \<Rightarrow> notifier" where
  "reauth_notifier (ReauthRequest n a) = n"

primrec ping_notifier :: "ping_request \<Rightarrow> notifier" where
  "ping_notifier (PingRequest n) = n"

primrec with_pkid_notifier :: "publish_request_with_pkid \<Rightarrow> notifier" where
  "with_pkid_notifier (WithPkidQoS0 n t p r props) = n"
| "with_pkid_notifier (WithPkidQoS1 n t p r props k) = n"
| "with_pkid_notifier (WithPkidQoS2 n t p r props k) = n"

primrec request_notifiers :: "outgoing_packet_request \<Rightarrow> notifier list" where
  "request_notifiers (OutDisconnect d) = []"
| "request_notifiers (OutAcknowledgement a) = [ack_notifier a]"
| "request_notifiers (OutSubscription q k) = [subscription_notifier q]"
| "request_notifiers (OutPublish p) = [with_pkid_notifier p]"
| "request_notifiers (OutReauth r) = [reauth_notifier r]"
| "request_notifiers (OutPingReq n) = (case n of None \<Rightarrow> [] | Some k \<Rightarrow> [k])"

definition polled_notifiers :: "outgoing_packet_request poll \<Rightarrow> notifier list" where
  "polled_notifiers r = (case poll_value r of Some q \<Rightarrow> request_notifiers q | None \<Rightarrow> [])"

text \<open>The notifiers in the channels, in the maps of operations in flight and in the tracker.\<close>

definition channel_notifiers :: "channels \<Rightarrow> notifier multiset" where
  "channel_notifiers c =
     mset (map qos0_notifier (o_pub_q0_rx c)) + mset (map qos12_notifier (o_pub_q12_rx c)) +
     mset (map subscription_notifier (sub_rx c)) + mset (map ack_notifier (ack_rx c)) +
     mset (map reauth_notifier (auth_rx c)) + mset (map ping_notifier (ping_rx c))"

definition value_notifiers :: "('v \<Rightarrow> notifier) \<Rightarrow> ('k, 'v) imap \<Rightarrow> notifier multiset" where
  "value_notifiers g m = mset (map (\<lambda>(k, v). g v) m)"

definition inflight_notifiers :: "inflight_tracker \<Rightarrow> notifier multiset" where
  "inflight_notifiers i =
     value_notifiers snd (publish_qos1 i) + value_notifiers snd (publish_qos2 i) +
     value_notifiers id (inflight_subscribe i) + value_notifiers id (inflight_unsubscribe i) +
     value_notifiers snd (inflight_pubrec i) + value_notifiers snd (inflight_pubrel i) +
     mset (case inflight_auth i of None \<Rightarrow> [] | Some (m, n) \<Rightarrow> [n]) +
     mset (List.map_filter snd (inflight_pingreq i))"

definition tracker_notifiers :: "(pkid, pending_acknowledgement) imap \<Rightarrow> notifier multiset" where
  "tracker_notifiers m = mset (map ack_notifier (pending_acks m))"

definition owned_notifiers :: "session \<Rightarrow> notifier multiset" where
  "owned_notifiers s =
     channel_notifiers (ch s) + inflight_notifiers (inflight s) + tracker_notifiers (in_application s)"

definition resolved_notifiers :: "session \<Rightarrow> notifier multiset" where
  "resolved_notifiers s = mset (map notified (notifications s))"

definition notifier_account :: "session \<Rightarrow> notifier multiset" where
  "notifier_account s = resolved_notifiers s + owned_notifiers s"

section \<open>Moves\<close>

text \<open>The equations between multisets are used pointwise, as equations between numbers.\<close>

lemma mset_countD: "A = B \<Longrightarrow> count A x = count B x"
  by simp

lemma value_notifiers_insert:
  "value_notifiers g (im_insert k v m) + mset (map notified (dropped_value g (im_get m k))) =
   add_mset (g v) (value_notifiers g m)"
  by (induction m) (auto simp: value_notifiers_def dropped_value_def split: option.splits if_splits)

lemma value_notifiers_remove:
  "im_get m k = Some v \<Longrightarrow> value_notifiers g m = add_mset (g v) (value_notifiers g (im_remove k m))"
  by (induction m) (auto simp: value_notifiers_def split: if_splits)

lemma value_notifiers_cancel:
  "value_notifiers g [] = {#}" "mset (map notified (cancel_all r (map (g \<circ> snd) m))) = value_notifiers g m"
  unfolding value_notifiers_def cancel_all_def by (simp_all add: comp_def case_prod_unfold)

lemma with_pkid_notifier_simps [simp]:
  "with_pkid_notifier (with_pkid p k) = qos12_notifier p"
  "with_pkid_notifier (qos0_request q) = qos0_notifier q"
  by (cases p, simp_all) (cases q, simp)

lemma poll_notifiers:
  assumes "poll_for_outgoing_request now c t pool = (r, c', pool')"
  shows "channel_notifiers c = channel_notifiers c' + mset (polled_notifiers r)"
  using assms
  by (auto simp: poll_defs channel_notifiers_def polled_notifiers_def
      split: option.splits disconnect_receiver.splits list.splits
      ping_request.splits if_splits prod.splits)

text \<open>The account after a notification and after a change of one part of the session.\<close>

lemma account_notify:
  "notifier_account (notify ns s) = notifier_account s + mset (map notified ns)"
  by (simp add: notifier_account_def resolved_notifiers_def owned_notifiers_def notify_def)

lemma account_complete:
  "notifier_account (notify [NComplete n v] s) = add_mset n (notifier_account s)"
  by (simp add: account_notify)

lemma account_parts:
  "count (notifier_account s) x = count (mset (map notified (notifications s))) x + count (channel_notifiers (ch s)) x +
     count (inflight_notifiers (inflight s)) x + count (tracker_notifiers (in_application s)) x"
  by (simp add: notifier_account_def resolved_notifiers_def owned_notifiers_def)

lemma tracker_notifiers_simps [simp]:
  "tracker_notifiers [] = {#}"
  "tracker_notifiers ((k, NotReady) # m) = tracker_notifiers m"
  "tracker_notifiers ((k, AckReady a) # m) = add_mset (ack_notifier a) (tracker_notifiers m)"
  by (simp_all add: tracker_notifiers_def)

lemma tracker_notifiers_cons:
  "tracker_notifiers ((j, v) # m) = mset (map notified (dropped_pending (Some v))) + tracker_notifiers m"
  by (cases v) simp_all

lemma tracker_notifiers_insert:
  "tracker_notifiers (im_insert k (AckReady a) m) + mset (map notified (dropped_pending (im_get m k))) =
   add_mset (ack_notifier a) (tracker_notifiers m)"
  "tracker_notifiers (im_insert k NotReady m) + mset (map notified (dropped_pending (im_get m k))) =
   tracker_notifiers m"
  by (induction m; auto simp: tracker_notifiers_cons)+

lemma tracker_notifiers_clear:
  "mset (map notified (concat (map (\<lambda>(k, v). dropped_pending (Some v)) m))) = tracker_notifiers m"
proof (induction m)
  case (Cons e m)
  then show ?case by (cases e) (simp add: tracker_notifiers_cons)
qed simp

section \<open>Every operation keeps the account\<close>

lemma next_outgoing_request_account:
  assumes "next_outgoing_request now s = (r, s')" and "poll_ok r"
  shows "notifier_account s = notifier_account s' + mset (polled_notifiers r)"
proof -
  have "poll_ok r \<longrightarrow> notifier_account s = notifier_account s' + mset (polled_notifiers r)"
  proof (rule next_outgoing_request_rule [OF assms(1),
        where P = "\<lambda>t. notifier_account s = notifier_account t"], goal_cases)
    case (2 s k a rest)
    then show ?case by (auto simp: account_notify multiset_eq_iff account_parts)
  next
    case (3 s k a rest)
    then show ?case by (auto simp: polled_notifiers_def multiset_eq_iff account_parts)
  next
    case (4 s a c p)
    then show ?case
      using poll_notifiers [OF 4(3)]
      by (auto simp: account_notify polled_notifiers_def multiset_eq_iff account_parts)
  next
    case (5 s a c p k old)
    have "notifier_account s = notifier_account (notify (dropped_pending (Some old))
        (s\<lparr>ch := c, session_pool := p, in_application := im_insert k (AckReady a) (in_application s)\<rparr>))"
    proof (rule multiset_eqI)
      fix x
      show "count (notifier_account s) x = count (notifier_account (notify (dropped_pending (Some old))
        (s\<lparr>ch := c, session_pool := p, in_application := im_insert k (AckReady a) (in_application s)\<rparr>))) x"
        using poll_notifiers [OF 5(3), THEN mset_countD, of x] 5(6)
          tracker_notifiers_insert(1) [of k a "in_application s", THEN mset_countD, of x]
        by (simp add: account_notify polled_notifiers_def account_parts)
    qed
    with 5(1) show ?case by simp
  next
    case (7 s a c p)
    then show ?case
      using poll_notifiers [OF 7(3)] by (auto simp: multiset_eq_iff account_parts)
  next
    case (8 s q c p)
    then show ?case
      using poll_notifiers [OF 8(3)] by (auto simp: multiset_eq_iff account_parts)
  qed simp_all
  with assms(2) show ?thesis by simp
qed

text \<open>An operation put in flight.\<close>

lemma inflight_insert_account:
  assumes "inflight_notifiers j + mset (map notified ns) = inflight_notifiers (inflight s) + mset ms"
  shows "notifier_account (notify ns (s\<lparr>inflight := j\<rparr>)) = notifier_account s + mset ms"
proof (rule multiset_eqI)
  fix x
  show "count (notifier_account (notify ns (s\<lparr>inflight := j\<rparr>))) x = count (notifier_account s + mset ms) x"
    using assms [THEN mset_countD, of x] by (simp add: account_notify account_parts)
qed

lemma inflight_notifiers_insert:
  "inflight_notifiers (i\<lparr>publish_qos1 := im_insert k (p, n) (publish_qos1 i)\<rparr>) +
     mset (map notified (dropped_value snd (im_get (publish_qos1 i) k))) = inflight_notifiers i + mset [n]"
  "inflight_notifiers (i\<lparr>publish_qos2 := im_insert k (p, n) (publish_qos2 i)\<rparr>) +
     mset (map notified (dropped_value snd (im_get (publish_qos2 i) k))) = inflight_notifiers i + mset [n]"
  "inflight_notifiers (i\<lparr>inflight_subscribe := im_insert k n (inflight_subscribe i)\<rparr>) +
     mset (map notified (dropped_value id (im_get (inflight_subscribe i) k))) = inflight_notifiers i + mset [n]"
  "inflight_notifiers (i\<lparr>inflight_unsubscribe := im_insert k n (inflight_unsubscribe i)\<rparr>) +
     mset (map notified (dropped_value id (im_get (inflight_unsubscribe i) k))) = inflight_notifiers i + mset [n]"
  "inflight_notifiers (i\<lparr>inflight_pubrec := im_insert k (q, n) (inflight_pubrec i)\<rparr>) +
     mset (map notified (dropped_value snd (im_get (inflight_pubrec i) k))) = inflight_notifiers i + mset [n]"
  "inflight_notifiers (i\<lparr>inflight_pubrel := im_insert k (l, n) (inflight_pubrel i)\<rparr>) +
     mset (map notified (dropped_value snd (im_get (inflight_pubrel i) k))) = inflight_notifiers i + mset [n]"
  "inflight_notifiers (i\<lparr>inflight_auth := Some (m, n)\<rparr>) +
     mset (map notified (dropped_value snd (inflight_auth i))) = inflight_notifiers i + mset [n]"
  using value_notifiers_insert [of snd k "(p, n)" "publish_qos1 i"]
    value_notifiers_insert [of snd k "(p, n)" "publish_qos2 i"]
    value_notifiers_insert [of id k n "inflight_subscribe i"]
    value_notifiers_insert [of id k n "inflight_unsubscribe i"]
    value_notifiers_insert [of snd k "(q, n)" "inflight_pubrec i"]
    value_notifiers_insert [of snd k "(l, n)" "inflight_pubrel i"]
  by (simp_all add: inflight_notifiers_def dropped_value_def split: option.split)

lemmas put_in_flight_account = inflight_notifiers_insert [THEN inflight_insert_account]

lemma request_packet_account:
  assumes "request_packet now q s = (Ready p, s')"
  shows "notifier_account s' = notifier_account s + mset (request_notifiers q)"
proof (cases q)
  case (OutAcknowledgement a)
  with assms show ?thesis
    by (cases a) (auto simp: Let_def account_complete put_in_flight_account)
next
  case (OutSubscription sub k)
  with assms show ?thesis
    by (cases sub) (auto simp: Let_def put_in_flight_account)
next
  case (OutPublish x)
  with assms show ?thesis
    by (cases x) (auto simp: Let_def account_complete put_in_flight_account)
next
  case (OutReauth x)
  with assms show ?thesis
    by (cases x) (auto simp: put_in_flight_account split: option.splits)
next
  case (OutDisconnect x)
  with assms show ?thesis by (cases x) auto
next
  case (OutPingReq n)
  with assms show ?thesis
    by (auto simp: multiset_eq_iff account_parts inflight_notifiers_def map_filter_def split: option.split)
qed

lemma account_frame:
  assumes "notifications s' = notifications s" and "ch s' = ch s" and "inflight_notifiers (inflight s') = inflight_notifiers (inflight s)"
    and "in_application s' = in_application s"
  shows "notifier_account s' = notifier_account s"
  by (simp add: multiset_eq_iff account_parts assms)

lemma next_outgoing_packet_account:
  assumes "next_outgoing_packet now s = (r, s')" and "poll_ok r"
  shows "notifier_account s' = notifier_account s"
  using assms(1)
proof (cases rule: next_outgoing_packet_cases)
  case (replay p rest)
  then show ?thesis by (intro account_frame) (simp_all add: inflight_notifiers_def)
next
  case (request q s1 s2)
  have loop: "notifier_account s = notifier_account s1 + mset (request_notifiers q)"
    using next_outgoing_request_account [OF request(3)] by (simp add: polled_notifiers_def)
  show ?thesis
  proof (cases r)
    case (Ready p)
    with request(5) have "s' = reset_pingreq_timer now s2" by simp
    then have "notifier_account s' = notifier_account s2" by (intro account_frame) simp_all
    with request_packet_account [of now q s1 p s2] request(4) Ready loop show ?thesis by simp
  qed (use assms(2) request(4) in \<open>auto simp: apfst_def map_prod_def
    elim!: request_packet.elims split: option.splits prod.splits\<close>)
next
  case (stopped q)
  with assms(2) next_outgoing_request_account [OF stopped(3)] show ?thesis
    by (simp add: polled_notifiers_def)
qed (use assms in auto)

text \<open>An operation completed: its notifier leaves the map and enters the log.\<close>

lemma complete_account:
  assumes "inflight_notifiers (inflight s) = add_mset n (inflight_notifiers j)"
    and "ch s' = ch s" and "in_application s' = in_application s" and "notifications s' = notifications s"
    and "inflight s' = j"
  shows "notifier_account (notify [NComplete n v] s') = notifier_account s"
proof (rule multiset_eqI)
  fix x
  show "count (notifier_account (notify [NComplete n v] s')) x = count (notifier_account s) x"
    using assms(1) [THEN mset_countD, of x] by (simp add: account_notify account_parts assms(2-))
qed

lemma inflight_notifiers_remove:
  "im_get (publish_qos1 i) k = Some (p, n) \<Longrightarrow> inflight_notifiers i =
     add_mset n (inflight_notifiers (i\<lparr>publish_qos1 := im_remove k (publish_qos1 i)\<rparr>))"
  "im_get (publish_qos2 i) k = Some (p, n) \<Longrightarrow> inflight_notifiers i =
     add_mset n (inflight_notifiers (i\<lparr>publish_qos2 := im_remove k (publish_qos2 i)\<rparr>))"
  "im_get (inflight_subscribe i) k = Some n \<Longrightarrow> inflight_notifiers i =
     add_mset n (inflight_notifiers (i\<lparr>inflight_subscribe := im_remove k (inflight_subscribe i)\<rparr>))"
  "im_get (inflight_unsubscribe i) k = Some n \<Longrightarrow> inflight_notifiers i =
     add_mset n (inflight_notifiers (i\<lparr>inflight_unsubscribe := im_remove k (inflight_unsubscribe i)\<rparr>))"
  "im_get (inflight_pubrec i) k = Some (q, n) \<Longrightarrow> inflight_notifiers i =
     add_mset n (inflight_notifiers (i\<lparr>inflight_pubrec := im_remove k (inflight_pubrec i)\<rparr>))"
  "im_get (inflight_pubrel i) k = Some (l, n) \<Longrightarrow> inflight_notifiers i =
     add_mset n (inflight_notifiers (i\<lparr>inflight_pubrel := im_remove k (inflight_pubrel i)\<rparr>))"
  by (simp_all add: inflight_notifiers_def value_notifiers_remove [of _ k])

lemma release_in_session_frame [simp]:
  "ch (release_in_session k s) = ch s" "inflight (release_in_session k s) = inflight s"
  "in_application (release_in_session k s) = in_application s"
  "notifications (release_in_session k s) = notifications s"
  by (simp_all add: release_in_session_def)

lemma release_in_session_account [simp]:
  "notifier_account (release_in_session k s) = notifier_account s"
  by (rule account_frame) simp_all

lemma complete_inflight_account:
  assumes "complete_inflight op s = (r, s')"
  shows "notifier_account s' = notifier_account s"
proof (cases op)
  case (CompletedOpPublishQoS1 p)
  with assms show ?thesis
    by (auto simp: Let_def split: option.splits intro!: complete_account [OF inflight_notifiers_remove(1)])
next
  case (CompletedOpPublishQoS2 p)
  with assms show ?thesis
    by (auto simp: Let_def split: option.splits if_splits
        intro!: complete_account [OF inflight_notifiers_remove(2)])
next
  case (CompletedOpSubscribe p)
  with assms show ?thesis
    by (auto simp: Let_def split: option.splits intro!: complete_account [OF inflight_notifiers_remove(3)])
next
  case (CompletedOpUnsubscribe p)
  with assms show ?thesis
    by (auto simp: Let_def split: option.splits intro!: complete_account [OF inflight_notifiers_remove(4)])
next
  case (CompletedOpPubRec p)
  with assms show ?thesis
    by (auto simp: Let_def split: option.splits intro!: complete_account [OF inflight_notifiers_remove(5)])
next
  case (CompletedOpPubRel p)
  with assms show ?thesis
    by (auto simp: Let_def split: option.splits intro!: complete_account [OF inflight_notifiers_remove(6)])
qed

lemma session_expired_account: "notifier_account (session_expired s) = notifier_account s"
  by (rule multiset_eqI)
    (simp add: session_expired_def Let_def notify_def account_parts inflight_notifiers_def
      value_notifiers_cancel del: map_map mset_map)

lemma disconnected_account: "notifier_account (disconnected s) = notifier_account s"
proof -
  have auth: "mset (map notified (cancel_all r (case a of None \<Rightarrow> [] | Some (m, n) \<Rightarrow> [n]))) =
      mset (case a of None \<Rightarrow> [] | Some (m, n) \<Rightarrow> [n])" for r and a :: "(byte_str \<times> notifier) option"
    by (auto simp: cancel_all_def split: option.split)
  have pings: "mset (map notified (cancel_all r ns)) = mset ns" for r ns
    by (simp add: cancel_all_def comp_def)
  have subs: "mset (map snd m) = value_notifiers id m" for m :: "(pkid, notifier) imap"
    by (simp add: value_notifiers_def case_prod_unfold)
  show ?thesis
    by (rule multiset_eqI)
      (simp add: disconnected_def Let_def notify_def account_parts inflight_notifiers_def
        value_notifiers_cancel(1) auth pings subs tracker_notifiers_clear del: map_map mset_map)
qed

lemma expire_if_zero_account: "notifier_account (expire_if_zero s) = notifier_account s"
  by (simp add: expire_if_zero_def session_expired_account)

lemma disconnect_account:
  "notifier_account (client_disconnect d s) = notifier_account s"
  "notifier_account (server_disconnect d s) = notifier_account s"
  "notifier_account (transport_disconnect s) = notifier_account s"
proof -
  have "notifier_account (t\<lparr>expiry_interval := e\<rparr>) = notifier_account t" for t :: session and e
    by (rule account_frame) simp_all
  then show "notifier_account (client_disconnect d s) = notifier_account s"
    by (simp add: client_disconnect_def Let_def expire_if_zero_account disconnected_account split: option.split)
qed (simp_all add: server_disconnect_def transport_disconnect_def expire_if_zero_account disconnected_account)

lemma incoming_connack_account:
  "notifier_account (snd (incoming_connack allow now k ka am ei s)) = notifier_account s"
proof -
  have "notifier_account (t\<lparr>connection_epoch := e, expiry_interval := x, pingreq_timer := y, connected := z\<rparr>) =
      notifier_account t" for t :: session and e x y z
    by (rule account_frame) simp_all
  then show ?thesis
    by (simp add: incoming_connack_def Let_def session_expired_account split: connect_reason_code.split)
qed

lemma incoming_auth_account: "notifier_account (snd (incoming_auth allow a s)) = notifier_account s"
proof (cases "inflight_auth (inflight s)")
  case (Some x)
  then obtain m n where x: "inflight_auth (inflight s) = Some (m, n)" by (cases x) auto
  then have "inflight_notifiers (inflight s) = add_mset n (inflight_notifiers ((inflight s)\<lparr>inflight_auth := None\<rparr>))"
    by (simp add: inflight_notifiers_def)
  with x show ?thesis
    by (auto simp: incoming_auth_def Let_def split: authenticate_reason_code.split intro!: complete_account)
qed (simp add: incoming_auth_def)

lemma incoming_pingresp_account: "notifier_account (incoming_pingresp now s) = notifier_account s"
proof (cases "inflight_pingreq (inflight s)")
  case (Cons x rest)
  obtain t n where x: "x = (t, n)" by (cases x)
  show ?thesis
  proof (cases n)
    case None
    with Cons x show ?thesis
      by (auto simp: incoming_pingresp_def inflight_notifiers_def map_filter_simps intro!: account_frame)
  next
    case (Some k)
    with Cons x show ?thesis
      by (auto simp: incoming_pingresp_def inflight_notifiers_def map_filter_simps intro!: complete_account)
  qed
qed (simp add: incoming_pingresp_def)

text \<open>
  A publish taken in resolves no notifier: when the application is gone the token is dropped at once,
  and the pair \<open>n\<close> that this makes is the only addition to the account.
\<close>

lemma incoming_publish_account:
  assumes "incoming_publish n p s = (Ready (), s')"
  shows "notifications s' = notifications s \<and>
    notifier_account s' =
      (if i_pub_rx_alive (ch s) \<or> packet_identifier_dup_qos p = PdqAtMostOnce then notifier_account s
       else add_mset n (notifier_account s))"
proof (cases "packet_identifier_dup_qos p")
  case PdqAtMostOnce
  with assms show ?thesis
    by (auto simp: incoming_publish_def multiset_eq_iff account_parts channel_notifiers_def)
next
  case (PdqAtLeastOnce k dup)
  let ?t = "pub_ack_token_new k (connection_epoch s)"
  have fresh: "im_get (in_application s) k = None"
    using assms PdqAtLeastOnce by (auto simp: incoming_publish_def Let_def split: if_splits)
  with assms PdqAtLeastOnce have s': "s' = s\<lparr>in_application := im_insert k NotReady (in_application s),
      ch := deliver n (IncomingQoS1 p ?t) (ch s)\<rparr>"
    by (auto simp: incoming_publish_def notify_def)
  have tracker: "tracker_notifiers (im_insert k NotReady (in_application s)) = tracker_notifiers (in_application s)"
    using tracker_notifiers_insert(2) [of k "in_application s"] fresh by simp
  show ?thesis
    by (cases "i_pub_rx_alive (ch s)")
      (simp_all add: s' tracker PdqAtLeastOnce multiset_eq_iff account_parts channel_notifiers_def)
qed (use assms in \<open>simp add: incoming_publish_def\<close>)

end
