(* ===== verification/Client_Properties.thy ===== *)
theory Client_Properties
  imports Client_System Notifier_Account
begin

text \<open>
  What holds in every state the client can reach, and one run on which it is seen: a connection
  on which two QoS 1 publishes arrive and the application acknowledges the younger one first.
\<close>

section \<open>A run\<close>

definition demo_connack :: conn_ack where
  "demo_connack = \<lparr>connack_reason_code = ConnectSuccess False,
     connack_other_properties = conn_ack_other_properties_default\<rparr>"

definition demo_topic :: "byte_str topic" where
  "demo_topic = Topic (ByteStr (BinaryData [0, 1, 97]))"

definition demo_publish :: "pkid \<Rightarrow> publish" where
  "demo_publish k = \<lparr>publish_topic_name = demo_topic, packet_identifier_dup_qos = PdqAtLeastOnce k False,
     publish_retain = False, publish_payload = [1], publish_other_properties = publish_other_properties_default\<rparr>"

definition demo_puback :: "pkid \<Rightarrow> pub_ack" where
  "demo_puback k = \<lparr>puback_packet_identifier = k, puback_reason_code = PubAckSuccess,
     puback_other_properties = ack_other_properties_default\<rparr>"

definition demo_connected :: client_system where
  "demo_connected = \<lparr>sys = (session_new 10)\<lparr>connection_epoch := 1, connected := Connected demo_connack\<rparr>,
     held = [], received = [], acked = [], server_fault = False\<rparr>"

definition demo_delivered :: client_system where
  "demo_delivered = demo_connected\<lparr>
     sys := (sys demo_connected)\<lparr>in_application := [(7, NotReady), (9, NotReady)]\<rparr>,
     held := [pub_ack_token_new 7 1, pub_ack_token_new 9 1], received := [7, 9]\<rparr>"

definition demo_accepted :: client_system where
  "demo_accepted = demo_delivered\<lparr>
     sys := (sys demo_delivered)\<lparr>ch := (ch (sys demo_delivered))\<lparr>ack_rx := [AckPubAck 21 (demo_puback 9) 1, AckPubAck 22 (demo_puback 7) 1]\<rparr>\<rparr>,
     held := []\<rparr>"

lemmas demo_defs = demo_connack_def demo_topic_def demo_publish_def demo_puback_def demo_connected_def
  demo_delivered_def demo_accepted_def session_new_def channels_new_def
  inflight_tracker_default_def pkid_pool_new_def

lemma demo_connected_reachable: "reachable False demo_connected"
proof -
  have "incoming_connack False 0 demo_connack KeepAliveInfinite None (ExpiryDuration 0) (session_new 10) =
      (Inr (), sys demo_connected)"
    by (simp add: incoming_connack_def demo_defs connack_auth_ok_def authentication_method_matches_def
        conn_ack_other_properties_default_def session_expired_def release_all_def cancel_all_def
        notify_def keep_alive_timer_def connack_is_success_def)
  then have "client_step False (system_new 10) ((system_new 10)\<lparr>sys := sys demo_connected, received := [], acked := []\<rparr>)"
    by (intro connack) (simp_all add: system_new_def is_connected_def session_new_def word_gt_0)
  then have "client_step False (system_new 10) demo_connected"
    by (simp add: system_new_def demo_connected_def)
  moreover have "reachable False (system_new 10)" by (rule reachable.start) simp
  ultimately show ?thesis by (rule reachable.step [rotated])
qed

text \<open>One step from a reachable state, with the state it leads to given by an equation.\<close>

lemma reachable_stepI: "reachable allow c \<Longrightarrow> client_step allow c d \<Longrightarrow> d = c' \<Longrightarrow> reachable allow c'"
  by (auto intro: reachable.step)

lemma demo_delivered_reachable: "reachable False demo_delivered"
proof -
  let ?p = "\<lambda>k. IncomingQoS1 (demo_publish k) (pub_ack_token_new k 1)"
  let ?c = "\<lambda>ks q ts. demo_connected\<lparr>sys := (sys demo_connected)\<lparr>
      ch := channels_new\<lparr>i_pub_tx := map ?p q\<rparr>, in_application := map (\<lambda>k. (k, NotReady)) ks\<rparr>,
      held := map (\<lambda>k. pub_ack_token_new k 1) ts, received := ks\<rparr>"
  note simps = demo_connected_def session_new_def incoming_publish_def demo_publish_def notify_def
    is_connected_def channels_new_def
  have "reachable False (?c [7] [7] [])"
    by (rule reachable_stepI [OF demo_connected_reachable recv_publish
          [where n = 0 and p = "demo_publish 7" and s = "sys (?c [7] [7] [])"]]) (simp_all add: simps)
  then have "reachable False (?c [7, 9] [7, 9] [])"
    by (rule reachable_stepI [OF _ recv_publish
          [where n = 0 and p = "demo_publish 9" and s = "sys (?c [7, 9] [7, 9] [])"]]) (simp_all add: simps)
  then have "reachable False (?c [7, 9] [9] [7])"
    by (rule reachable_stepI [OF _ app_recv [where x = "?p 7" and rest = "[?p 9]"]]) (simp_all add: simps)
  then have "reachable False (?c [7, 9] [] [7, 9])"
    by (rule reachable_stepI [OF _ app_recv [where x = "?p 9" and rest = "[]"]]) (simp_all add: simps)
  then show ?thesis by (simp add: demo_delivered_def demo_connected_def session_new_def channels_new_def)
qed

lemma demo_accepted_reachable: "reachable False demo_accepted"
proof -
  note simps = demo_defs pub_ack_token_accept_def pub_ack_token_new_def
  have "reachable False (demo_delivered\<lparr>sys := (sys demo_delivered)\<lparr>ch := channels_new\<lparr>ack_rx := [AckPubAck 21 (demo_puback 9) 1]\<rparr>\<rparr>,
      held := [pub_ack_token_new 7 1]\<rparr>)"
    by (rule reachable_stepI [OF demo_delivered_reachable app_token [where ts = "[pub_ack_token_new 7 1]"
        and t = "pub_ack_token_new 9 1" and us = "[]" and n = 21 and u = "Accept ack_other_properties_default"]])
      (simp_all add: simps)
  then show ?thesis
    by (rule reachable_stepI [OF _ app_token [where ts = "[]" and t = "pub_ack_token_new 7 1" and us = "[]"
          and n = 22 and u = "Accept ack_other_properties_default"]]) (simp_all add: simps)
qed

text \<open>The same connection after the application published at QoS 1.\<close>

definition demo_pool :: pkid_pool where
  "demo_pool = \<lparr>leased = {1}, pool_cycle = \<lparr>orig = pkid_range_new 1 10, iter = \<lparr>current = 2, end_pkid = 10, finished = False\<rparr>\<rparr>,
     max_pkid = 10\<rparr>"

definition demo_sent :: client_system where
  "demo_sent = demo_connected\<lparr>sys := (sys demo_connected)\<lparr>session_pool := demo_pool,
     inflight := inflight_tracker_default\<lparr>publish_qos1 := [(1, demo_publish 1, 31)]\<rparr>\<rparr>\<rparr>"

lemma demo_lease: "lease_next_pkid (pkid_pool_new 10) = Some (Some 1, demo_pool)"
  by (simp add: lease_next_pkid_def pkid_pool_new_def demo_pool_def lease_loop.simps cycle_next_def
      pkid_range_next_def pkid_range_new_def pkid_add_def)

lemma demo_sent_reachable: "reachable False demo_sent"
proof -
  let ?c = "demo_connected\<lparr>sys := (sys demo_connected)\<lparr>ch := channels_new\<lparr>
      o_pub_q12_rx := [PublishQoS1Request 31 demo_topic [1] False publish_other_properties_default]\<rparr>\<rparr>\<rparr>"
  have r: "reachable False ?c"
    by (rule reachable_stepI [OF demo_connected_reachable app_submit
          [where x = "SubmitQoS1 31 demo_topic [1] False publish_other_properties_default"]])
      (simp add: demo_connected_def session_new_def channels_new_def)
  have p: "next_outgoing_packet 5 (sys ?c) = (Ready (PublishPacket (demo_publish 1)), sys demo_sent)"
    by (simp add: next_outgoing_packet_def is_connected_def demo_connected_def session_new_def
        inflight_tracker_default_def next_outgoing_request.simps poll_defs channels_new_def demo_lease
        demo_sent_def demo_publish_def reset_pingreq_timer_def notify_def dropped_value_def Let_def)
  show ?thesis
    by (rule reachable_stepI [OF r send [OF _ p]])
      (simp_all add: demo_sent_def demo_connected_def session_new_def is_connected_def)
qed

section \<open>Acknowledgements\<close>

text \<open>C1. PUBACKs go out in the order in which the publishes came in: on every connection, the
  QoS 1 publishes received are those whose PUBACK was sent, in that order, followed by those that
  still await one, in the order of the tracker. In whatever order the application uses its
  tokens, no PUBACK is sent twice, out of order, or for a publish of another connection.\<close>

theorem puback_order:
  assumes "reachable allow c" and "is_connected (sys c)"
  shows "received c = acked c @ im_keys (in_application (sys c)) \<and> distinct (im_keys (in_application (sys c)))"
  using reachable_ack_inv [OF assms(1)] assms(2) by (simp add: ack_inv_def Let_def im_wf_def)

theorem puback_order_witness:
  "reachable False demo_accepted \<and> received demo_accepted = acked demo_accepted @ [7, 9]"
  using puback_order [OF demo_accepted_reachable] demo_accepted_reachable
  by (simp add: demo_defs is_connected_def)

text \<open>C10. Acknowledgement ordering is never locked: for every publish of this connection that the
  tracker still waits for there is exactly one token, undelivered or held by the application, or
  exactly one request in the channel that belongs to it, and there is none besides.\<close>

theorem acks_never_locked:
  assumes "reachable allow c" and "is_connected (sys c)"
  shows "live_pkids c = mset (unready (in_application (sys c)))"
  using reachable_ack_inv [OF assms(1)] assms(2) by (rule ack_inv_connectedD(1))

theorem acks_never_locked_witness: "live_pkids demo_delivered = {#7, 9#}"
  using acks_never_locked [OF demo_delivered_reachable] by (simp add: demo_defs is_connected_def)

text \<open>C11. Once the application has used the token of the oldest publish that awaits its PUBACK, and
  nothing is to be replayed and no disconnect was requested, the next packet the session sends is
  that PUBACK.\<close>

theorem oldest_publish_acknowledged:
  assumes "reachable allow c" and "is_connected (sys c)" and "in_application (sys c) = (k, v) # rest"
    and "token_used c k" and "packets_to_replay (inflight (sys c)) = []"
    and "\<And>d. disconnect_rx (ch (sys c)) \<noteq> Some (DisconnectSent d)"
  shows "\<exists>p s. next_outgoing_packet now (sys c) = (Ready (PubAckPacket p), s) \<and> puback_packet_identifier p = k"
proof -
  have "awaits_puback c k" using assms reachable_ack_inv by (simp add: awaits_puback_def)
  then obtain n p e s where "next_outgoing_request now (sys c) = (Ready (OutAcknowledgement (AckPubAck n p e)), s)"
      "puback_packet_identifier p = k"
    using awaits_puback_loop by (metis surj_pair)
  with assms(2,5) show ?thesis by (simp add: next_outgoing_packet_def)
qed

theorem oldest_publish_acknowledged_witness:
  "\<exists>p s. next_outgoing_packet 5 (sys demo_accepted) = (Ready (PubAckPacket p), s) \<and> puback_packet_identifier p = 7"
  by (rule oldest_publish_acknowledged [OF demo_accepted_reachable, where v = NotReady and rest = "[(9, NotReady)]"])
    (simp_all add: demo_defs is_connected_def token_used_def queued_tokens_def)

text \<open>C9. On an established connection \<open>next_outgoing_packet\<close> always returns a packet or suspends: none
  of its \<open>expect\<close> and \<open>assert\<close> calls panics, the request loop ends, and leasing a packet identifier
  returns, whatever the application and the server did before.\<close>

theorem outgoing_never_panics:
  assumes "reachable allow c" and "is_connected (sys c)"
  shows "poll_ok (fst (next_outgoing_packet now (sys c)))"
  using next_outgoing_packet_ack_inv [OF reachable_ack_inv [OF assms(1)] assms(2), of now]
  by (metis prod.collapse)

theorem outgoing_never_panics_witness: "poll_ok (fst (next_outgoing_packet 5 (sys demo_accepted)))"
  by (rule outgoing_never_panics [OF demo_accepted_reachable]) (simp add: demo_defs is_connected_def)

section \<open>Packet identifiers\<close>

text \<open>C12. As long as the server acknowledges only operations that are in flight, the leased packet
  identifiers are exactly those of the operations in flight, and no two operations share one: none
  is lost, none is handed out twice.\<close>

theorem leased_exactly_in_flight:
  assumes "reachable allow c" and "\<not> server_fault c"
  shows "leased (session_pool (sys c)) = set (inflight_pkids (inflight (sys c))) \<and>
    distinct (inflight_pkids (inflight (sys c)))"
  using reachable_exact_inv [OF assms] by (auto simp: exact_inv_def leaked_def pkid_inv_def)

theorem leased_exactly_in_flight_witness:
  "leased (session_pool (sys demo_sent)) = {1} \<and> inflight_pkids (inflight (sys demo_sent)) = [1]"
  using leased_exactly_in_flight [OF demo_sent_reachable]
  by (simp add: demo_sent_def demo_defs inflight_pkids_def)

text \<open>C39. \<open>complete_inflight\<close> gives the packet identifier back before it looks for the operation: a
  SUBACK for an identifier that a QoS 1 publish holds is answered with \<open>UnexpectedPacket\<close>, but from
  then on that identifier is free in the pool while the publish is still in flight under it.\<close>

theorem unexpected_suback_frees_pkid:
  assumes "im_get (publish_qos1 (inflight s)) k = Some x" and "im_get (inflight_subscribe (inflight s)) k = None"
    and "suback_packet_identifier a = k"
  shows "\<exists>s'. complete_inflight (CompletedOpSubscribe a) s = (Inl UnexpectedPacket, s') \<and>
    k \<notin> leased (session_pool s') \<and> im_get (publish_qos1 (inflight s')) k = Some x"
  using assms by (simp add: Let_def release_in_session_def)

theorem unexpected_suback_frees_pkid_witness:
  "\<exists>s'. complete_inflight (CompletedOpSubscribe \<lparr>suback_packet_identifier = 1, suback_reason_codes = [GrantedQoS0],
      suback_other_properties = ack_other_properties_default\<rparr>) (sys demo_sent) = (Inl UnexpectedPacket, s') \<and>
    1 \<notin> leased (session_pool s') \<and> im_get (publish_qos1 (inflight s')) 1 = Some (demo_publish 1, 31)"
  by (rule unexpected_suback_frees_pkid) (simp_all add: demo_sent_def demo_defs)

section \<open>The end of a connection\<close>

text \<open>C13. When the session does not outlive the connection (expiry interval 0) and the server
  acknowledged only what was in flight, the end of the connection leaves nothing behind: no
  operation in flight, nothing to replay, no publish awaiting a PUBACK, every identifier free.\<close>

theorem expired_connection_is_clean:
  assumes "reachable allow c" and "\<not> server_fault c" and "expiry_interval (sys c) = ExpiryDuration 0"
    and "s' = transport_disconnect (sys c) \<or> s' = server_disconnect d (sys c)"
  shows "leased (session_pool s') = {} \<and> inflight s' = inflight_tracker_default \<and>
    in_application s' = [] \<and> \<not> is_connected s' \<and> pingreq_timer s' = None"
proof -
  have inv: "exact_inv (sys c)" using assms(1,2) by (rule reachable_exact_inv)
  have s': "s' = session_expired (disconnected (sys c))"
    using assms(3,4) by (auto simp: transport_disconnect_def server_disconnect_def expire_if_zero_def disconnected_fields)
  have "leased (session_pool s') = {}"
    using inv by (auto simp: s' session_expired_fields disconnected_fields exact_inv_def leaked_def inflight_pkids_def)
  then show ?thesis
    by (simp add: s' session_expired_fields disconnected_fields inflight_tracker_default_def is_connected_def)
qed

theorem expired_connection_is_clean_witness:
  "leased (session_pool (transport_disconnect (sys demo_sent))) = {}"
  using expired_connection_is_clean [OF demo_sent_reachable, where s' = "transport_disconnect (sys demo_sent)"]
  by (simp add: demo_sent_def demo_defs)

text \<open>Calling \<open>next_outgoing_packet\<close> a number of times.\<close>

fun send_packets :: "nat \<Rightarrow> nat \<Rightarrow> session \<Rightarrow> packet poll list \<times> session" where
  "send_packets now 0 s = ([], s)"
| "send_packets now (Suc n) s =
     (case next_outgoing_packet now s of
        (r, s') \<Rightarrow> (case send_packets now n s' of (rs, s'') \<Rightarrow> (r # rs, s'')))"

lemma send_packets_replay:
  assumes "is_connected s" and "packets_to_replay (inflight s) = ps"
  shows "fst (send_packets now (length ps) s) = map (Ready \<circ> replayed) ps"
  using assms
proof (induction ps arbitrary: s)
  case (Cons p ps)
  let ?s' = "reset_pingreq_timer now (s\<lparr>inflight := (inflight s)\<lparr>packets_to_replay := ps\<rparr>\<rparr>)"
  have "next_outgoing_packet now s = (Ready (replayed p), ?s')"
    using Cons.prems by (simp add: next_outgoing_packet_def)
  moreover have "fst (send_packets now (length ps) ?s') = map (Ready \<circ> replayed) ps"
    by (rule Cons.IH) (use Cons.prems in simp_all)
  ultimately show ?case by (simp add: case_prod_beta)
qed simp

lemma replayed_replay_list: "map replayed (replay_list i) = replay_list i"
proof -
  have "set_dup (set_dup d) = set_dup d" for d by (cases d) simp_all
  then show ?thesis by (auto simp: replay_list_def replayed_def publish_set_dup_def)
qed

text \<open>What the specification asks a client to send again, written without the code's own helpers.\<close>

definition dup_flagged :: "publish \<Rightarrow> publish" where
  "dup_flagged p = p\<lparr>packet_identifier_dup_qos :=
     (case packet_identifier_dup_qos p of
        PdqAtMostOnce \<Rightarrow> PdqAtMostOnce
      | PdqAtLeastOnce k _ \<Rightarrow> PdqAtLeastOnce k True
      | PdqExactlyOnce k _ \<Rightarrow> PdqExactlyOnce k True)\<rparr>"

definition redelivery :: "inflight_tracker \<Rightarrow> packet list" where
  "redelivery i =
     map (PubRelPacket \<circ> fst \<circ> snd) (inflight_pubrel i) @
     map (PublishPacket \<circ> dup_flagged \<circ> fst \<circ> snd) (publish_qos1 i @ publish_qos2 i)"

lemma replay_list_redelivery: "replay_list i = redelivery i"
proof -
  have "publish_set_dup p = dup_flagged p" for p
    by (cases "packet_identifier_dup_qos p") (simp_all add: publish_set_dup_def dup_flagged_def)
  then show ?thesis by (simp add: replay_list_def redelivery_def case_prod_beta comp_def)
qed

text \<open>C18. A session that outlives its connection is resumed in order: after a disconnect with a nonzero
  expiry interval and a CONNACK with Session Present, the packets that come next are the PUBRELs in
  flight and then the QoS 1 and QoS 2 publishes in flight, each in the order it was first sent, with
  the DUP flag set and the same identifier, and nothing else until all are out.\<close>

theorem resumed_session_replays:
  assumes "expiry_interval s \<noteq> ExpiryDuration 0"
    and "connack_reason_code k = ConnectSuccess True"
    and "incoming_connack allow now k ka am ei (transport_disconnect s) = (Inr (), s')"
  shows "fst (send_packets t (length (redelivery (inflight s))) s') = map Ready (redelivery (inflight s))"
  unfolding replay_list_redelivery [symmetric]
proof -
  have s': "is_connected s'" "packets_to_replay (inflight s') = replay_list (inflight s)"
    using assms by (auto simp: incoming_connack_def Let_def is_connected_def transport_disconnect_def
        expire_if_zero_def disconnected_fields split: if_splits)
  then show "fst (send_packets t (length (replay_list (inflight s))) s') = map Ready (replay_list (inflight s))"
    using send_packets_replay [of s' "replay_list (inflight s)" t] replayed_replay_list by (metis list.map_comp)
qed

definition demo_resumed :: session where
  "demo_resumed = snd (incoming_connack False 0 \<lparr>connack_reason_code = ConnectSuccess True,
      connack_other_properties = conn_ack_other_properties_default\<rparr> KeepAliveInfinite None ExpiryInfinite
      (transport_disconnect ((sys demo_sent)\<lparr>expiry_interval := ExpiryInfinite\<rparr>)))"

theorem resumed_session_replays_witness:
  "fst (send_packets 3 1 demo_resumed) =
     [Ready (PublishPacket ((demo_publish 1)\<lparr>packet_identifier_dup_qos := PdqAtLeastOnce 1 True\<rparr>))]"
proof -
  have list: "redelivery (inflight (sys demo_sent)) =
      [PublishPacket ((demo_publish 1)\<lparr>packet_identifier_dup_qos := PdqAtLeastOnce 1 True\<rparr>)]"
    by (simp add: redelivery_def demo_sent_def inflight_tracker_default_def dup_flagged_def demo_publish_def)
  have "fst (send_packets 3 (length (redelivery (inflight ((sys demo_sent)\<lparr>expiry_interval := ExpiryInfinite\<rparr>)))) demo_resumed) =
      map Ready (redelivery (inflight ((sys demo_sent)\<lparr>expiry_interval := ExpiryInfinite\<rparr>)))"
    by (rule resumed_session_replays [where allow = False and now = 0 and ka = KeepAliveInfinite and am = None
        and ei = ExpiryInfinite and k = "\<lparr>connack_reason_code = ConnectSuccess True,
          connack_other_properties = conn_ack_other_properties_default\<rparr>"])
      (simp_all add: demo_resumed_def incoming_connack_def connack_auth_ok_def authentication_method_matches_def
        conn_ack_other_properties_default_def Let_def)
  then show ?thesis by (simp add: list)
qed

text \<open>C14. Completion notifiers are conserved by every operation of the session that does not panic: what the
  session owns in its channels, its maps and its tracker, together with what it completed, cancelled
  or dropped, is the same before and after, so no completion token is resolved twice and none is
  forgotten. Taking in a publish resolves no notifier at all, and adds one to the account only when
  the application has dropped its receiver: that of the PUBACK which the token of a QoS 1 publish
  submits as it is dropped.\<close>

theorem notifiers_conserved:
  "(\<forall>r s'. next_outgoing_packet now s = (r, s') \<longrightarrow> poll_ok r \<longrightarrow> notifier_account s' = notifier_account s) \<and>
   notifier_account (snd (complete_inflight op s)) = notifier_account s \<and>
   notifier_account (snd (incoming_connack allow now k ka am ei s)) = notifier_account s \<and>
   notifier_account (snd (incoming_auth allow a s)) = notifier_account s \<and>
   notifier_account (incoming_pingresp now s) = notifier_account s \<and>
   notifier_account (client_disconnect d s) = notifier_account s \<and>
   notifier_account (server_disconnect d s) = notifier_account s \<and>
   notifier_account (transport_disconnect s) = notifier_account s \<and>
   notifier_account (disconnected s) = notifier_account s \<and>
   notifier_account (session_expired s) = notifier_account s \<and>
   (\<forall>s'. incoming_publish n p s = (Ready (), s') \<longrightarrow> notifications s' = notifications s \<and>
      notifier_account s' =
        (if i_pub_rx_alive (ch s) \<or> packet_identifier_dup_qos p = PdqAtMostOnce then notifier_account s
         else add_mset n (notifier_account s)))"
proof -
  have "notifier_account (snd (complete_inflight op s)) = notifier_account s"
    by (rule complete_inflight_account [of op s "fst (complete_inflight op s)"]) simp
  then show ?thesis
    using incoming_publish_account [of n p s]
    by (auto simp: incoming_connack_account incoming_auth_account incoming_pingresp_account disconnect_account
        disconnected_account session_expired_account dest: next_outgoing_packet_account)
qed

theorem notifiers_conserved_witness:
  "notifier_account (snd (next_outgoing_packet 5 (sys demo_accepted))) = {#21, 22#}"
proof -
  have con: "is_connected (sys demo_accepted)" by (simp add: demo_defs is_connected_def)
  obtain r s' where run: "next_outgoing_packet 5 (sys demo_accepted) = (r, s')"
    by (cases "next_outgoing_packet 5 (sys demo_accepted)")
  have "poll_ok r"
    using next_outgoing_packet_ack_inv [OF reachable_ack_inv [OF demo_accepted_reachable] con run] by simp
  then have "notifier_account s' = notifier_account (sys demo_accepted)"
    using notifiers_conserved [of 5 "sys demo_accepted"] run by blast
  also have "\<dots> = {#21, 22#}"
    by (simp add: demo_defs notifier_account_def resolved_notifiers_def owned_notifiers_def
        channel_notifiers_def inflight_notifiers_def value_notifiers_def map_filter_def)
  finally show ?thesis by (simp add: run)
qed

end
