(* ===== verification/Connection_Properties.thy ===== *)
theory Connection_Properties
  imports Client_Life Codec_Properties Client_Properties
begin

text \<open>
  What the streams, the handshake and the event loop do, from the bytes of one packet to the whole
  life of a client, each seen on a transport that moves a few bytes at a time.
\<close>

section \<open>A transport\<close>

definition demo_transport :: "(bytes, bytes) transport" where
  "demo_transport =
     \<lparr>tr_pool = plain_pool, tr_unicode = ascii_unicode,
      tr_read = (\<lambda>n s. (IoReady (take (min n 3) s), drop (min n 3) s)),
      tr_write = (\<lambda>iovecs s. (Inr (min 5 (length (concat iovecs))), s @ take 5 (concat iovecs))),
      tr_flush = (\<lambda>s. (Inr (), s))\<rparr>"

lemma demo_transport_sel [simp]:
  "tr_pool demo_transport = plain_pool" "tr_unicode demo_transport = ascii_unicode"
  "tr_read demo_transport n s = (IoReady (take (min n 3) s), drop (min n 3) s)"
  "tr_write demo_transport iovecs s = (Inr (min 5 (length (concat iovecs))), s @ take 5 (concat iovecs))"
  "tr_flush demo_transport s = (Inr (), s)"
  by (simp_all add: demo_transport_def)

lemma demo_streams:
  "readable (tr_read demo_transport) id" "flowing (tr_read demo_transport)"
  "writable (tr_write demo_transport) (tr_flush demo_transport) id" "pool_total plain_pool"
  by (auto simp: readable_def flowing_def writable_def pool_total_def plain_pool_def min_def)

lemma demo_accepting: "accepting (tr_write demo_transport) (tr_flush demo_transport)"
proof -
  have "\<exists>n. min 5 (length (concat iovecs)) = Suc n" if "concat iovecs \<noteq> []" for iovecs :: "bytes list"
    using that by (cases "concat iovecs") (auto simp: min_def)
  then show ?thesis by (simp add: accepting_def del: concat_eq_Nil_conv)
qed

lemma demo_transport_ok: "transport_ok demo_transport id id"
  using demo_streams plain_pool_ok by (simp add: transport_ok_def)

definition demo_writer :: "bytes writer" where
  "demo_writer = writer_new [] (Iovecs (iovecs_new \<lparr>filled = [], unfilled_len = 0\<rparr>))"

lemma demo_writer_idle: "writer_idle demo_writer" "writer_ok demo_writer"
  using writer_new_idle [of "\<lparr>filled = [], unfilled_len = 0\<rparr>" "[] :: bytes"] by (simp_all add: demo_writer_def writer_idle_def)

definition demo_reader :: "bytes reader" where
  "demo_reader = reader_new sample_wire \<lparr>filled = [], unfilled_len = 0\<rparr>"

lemma demo_unread: "unread id demo_reader = sample_wire"
  by (simp add: unread_def demo_reader_def reader_new_def)

text \<open>A connection whose application has asked for a ping.\<close>

definition demo_ping_session :: session where
  "demo_ping_session = (sys demo_connected)\<lparr>ch := channels_new\<lparr>ping_rx := [PingRequest 41]\<rparr>\<rparr>"

definition demo_loop :: "(bytes, bytes) event_loop" where
  "demo_loop = loop_new \<lparr>conn_session = demo_ping_session, conn_reader = demo_reader, conn_writer = demo_writer,
     conn_client_id = None, conn_pingresp_timeout = None\<rparr>"

lemma ping_encodes: "snd (packet_encode V5 PingReqPacket) = None" "enc_bytes (packet_encode V5 PingReqPacket) = [0xC0, 0]"
  using packet_encode_bytes [of ascii_unicode V5 PingReqPacket] ascii_unicode_ok(1)
  by (simp_all add: enc_bytes_def enc_ok_def varint_small packet_flags_def pingreq_encode_def)

lemma demo_polls: 
  "\<exists>s. next_outgoing_packet 5 demo_ping_session = (Ready PingReqPacket, s) \<and> next_outgoing_packet 6 s = (Pending, s)"
  by (simp add: demo_ping_session_def next_outgoing_packet_def is_connected_def demo_connected_def session_new_def
        inflight_tracker_default_def next_outgoing_request.simps poll_defs channels_new_def 
        reset_pingreq_timer_def notify_def dropped_value_def Let_def)

lemma demo_loop_sel:
  "lp_session demo_loop = demo_ping_session" "lp_packet demo_loop = None" "lp_writer demo_loop = demo_writer"
  by (simp_all add: demo_loop_def loop_new_def)

lemma demo_loop_ok: "loop_ok demo_loop"
  using demo_writer_idle by (simp add: loop_ok_def demo_loop_sel writer_idle_def)

lemma demo_loop_runs: "\<exists>l. connection_run demo_transport False demo_loop [PingReqPacket] l \<and> lp_packet l = None"
proof -
  obtain s where s: "next_outgoing_packet 5 demo_ping_session = (Ready PingReqPacket, s)"
    "next_outgoing_packet 6 s = (Pending, s)" using demo_polls by blast
  define l1 where "l1 = (with_session s demo_loop)\<lparr>lp_packet := Some PingReqPacket\<rparr>"
  have step1: "loop_step demo_transport False 0 5 demo_loop = (LoopAgain, l1)"
    using s(1) by (simp add: loop_step_def select_step_def demo_loop_sel l1_def)
  note acc = demo_streams(3) demo_accepting
  obtain w1 where w1: "writer_write plain_pool (tr_write demo_transport) (tr_flush demo_transport) V5 PingReqPacket demo_writer =
      Some (Inr (), w1)"
    using writer_write_accepts [OF acc plain_pool_ok demo_streams(4) demo_writer_idle(2) ping_encodes(1)] by blast
  then have "writer_ok w1"
    using writer_write_appends [OF demo_streams(3) plain_pool_ok demo_writer_idle(2), of V5 PingReqPacket] by auto
  then obtain w2 where w2: "writer_flush (tr_write demo_transport) (tr_flush demo_transport) w1 = Some (Inr (), w2)"
    using writer_flush_accepts [OF acc] by blast
  define l2 where "l2 = with_writer w2 (with_writer w1 (with_session s l1)\<lparr>lp_packet := None\<rparr>)"
  have "loop_step demo_transport False 0 6 l1 = (LoopAgain, l2)"
    using s(2) w1 w2
    by (simp add: loop_step_def send_step_def flush_step_def start_pingresp_timer_def l1_def l2_def demo_loop_def
        loop_new_def with_writer_def with_session_def Let_def)
  with run_loop [OF run_loop [OF run_start step1]] have
    "connection_run demo_transport False demo_loop (([] @ to_write demo_loop) @ to_write l1) l2" by simp
  moreover have "lp_packet l2 = None" by (simp add: l2_def)
  ultimately show ?thesis by (auto simp: to_write_def demo_loop_sel l1_def)
qed

section \<open>Streams\<close>

text \<open>C26. The reader is a function of the bytes that arrive, not of how they arrive. A completed read
  has taken exactly the next packet, type, remaining length and body, from the sequence of buffered
  and incoming bytes; a read that waits or fails has lost none of them, so that it can be polled
  again after it was cancelled.\<close>

theorem read_takes_one_packet:
  assumes "readable rd incoming" and "reader_read bp rd r = (x, r')"
  shows "case x of
      IoReady raw \<Rightarrow>
        decode_fixed_header (unread incoming r) =
          Inr (Some ((raw_first_byte raw, length (raw_rest raw)), raw_rest raw @ unread incoming r'))
    | _ \<Rightarrow> unread incoming r' = unread incoming r"
  by (rule reader_read_unread [OF assms])

theorem read_takes_one_packet_witness:
  "\<exists>x r'. reader_read plain_pool (tr_read demo_transport) demo_reader = (x, r') \<and>
     (x = IoPending \<longrightarrow> unread id r' = sample_wire)"
proof -
  obtain x r' where run: "reader_read plain_pool (tr_read demo_transport) demo_reader = (x, r')" by fastforce
  from read_takes_one_packet [OF demo_streams(1) run] run show ?thesis by (auto simp: demo_unread)
qed

text \<open>C27. A packet that has arrived is read: when the bytes begin with a whole packet, the stream gives
  what it has and the pool gives memory, the read returns that packet and leaves what follows it.\<close>

theorem whole_packet_is_read:
  assumes "readable rd incoming" and "flowing rd" and "pool_ok bp" and "pool_total bp"
    and "decode_fixed_header (unread incoming r) = Inr (Some ((fb, n), body))" and "n \<le> length body"
  shows "\<exists>r'. reader_read bp rd r = (IoReady \<lparr>raw_first_byte = fb, raw_rest = take n body\<rparr>, r') \<and>
    unread incoming r' = drop n body"
  by (rule reader_read_ready [OF assms])

lemma sample_header: "decode_fixed_header sample_wire = Inr (Some ((0x3B, 16), drop 2 sample_wire))"
proof -
  have "varint_digits 4 16 = [16]" by (simp add: varint_small)
  then have "sample_wire = 0x3B # varint_digits 4 16 @ drop 2 sample_wire" by (simp add: sample_wire_def)
  then show ?thesis using decode_fixed_header_digits [of 16 "0x3B" "drop 2 sample_wire"] by simp
qed

theorem whole_packet_is_read_witness:
  "\<exists>r'. reader_read plain_pool (tr_read demo_transport) demo_reader =
     (IoReady \<lparr>raw_first_byte = 0x3B, raw_rest = drop 2 sample_wire\<rparr>, r') \<and> unread id r' = []"
  using whole_packet_is_read [OF demo_streams(1,2) plain_pool_ok demo_streams(4), of demo_reader "0x3B" 16 "drop 2 sample_wire"]
  by (simp add: demo_unread sample_header) (simp add: sample_wire_def)

text \<open>Writing a packet never panics and never tears a packet apart: it has appended the whole
  encoding, or it has failed and has at most handed over bytes of earlier packets.\<close>

theorem write_appends_packet:
  assumes "writable wv fl sent" and "pool_ok bp" and "writer_ok w"
  shows "\<exists>x w'. writer_write bp wv fl v p w = Some (x, w') \<and> writer_ok w' \<and>
    (x = Inr () \<longrightarrow> written_bytes sent w' = written_bytes sent w @ enc_bytes (packet_encode v p)) \<and>
    (\<exists>k. sent (writer_inner w') = take k (written_bytes sent w))"
  using writer_write_appends [OF assms, of v p] by blast

theorem write_appends_packet_witness:
  "\<exists>x w'. writer_write plain_pool (tr_write demo_transport) (tr_flush demo_transport) V5 PingReqPacket demo_writer =
     Some (x, w') \<and> (x = Inr () \<longrightarrow> written_bytes id w' = [0xC0, 0])"
  using write_appends_packet [OF demo_streams(3) plain_pool_ok demo_writer_idle(2), of V5 PingReqPacket]
  by (auto simp: ping_encodes written_bytes_def demo_writer_def writer_new_def iovecs_view_def iovecs_new_def)

text \<open>C28. Flushing ends: on a stream that accepts at least one byte at a time it returns success, and
  everything that waited in the buffer has been sent, in order, however the stream divided it.\<close>

theorem flush_sends_everything:
  assumes "writable wv fl sent" and "accepting wv fl" and "writer_ok w"
  shows "\<exists>w'. writer_flush wv fl w = Some (Inr (), w') \<and> either_view (writer_buf w') = [] \<and>
    sent (writer_inner w') = sent (writer_inner w) @ either_view (writer_buf w)"
proof -
  obtain w' where w': "writer_flush wv fl w = Some (Inr (), w')" using writer_flush_accepts [OF assms] by blast
  then show ?thesis
    using writer_flush_sends [OF assms(1), of w] assms(3) by (auto simp: writer_ok_def sent_part_def)
qed

theorem flush_sends_everything_witness:
  "\<exists>w'. writer_flush (tr_write demo_transport) (tr_flush demo_transport)
       (writer_new [] (Single sample_wire)) = Some (Inr (), w') \<and> writer_inner w' = sample_wire"
  using flush_sends_everything [OF demo_streams(3) demo_accepting, of "writer_new [] (Single sample_wire)"]
  by (auto simp: writer_ok_def writer_new_def)

section \<open>The event loop\<close>

text \<open>C15. The event loop is a scheduler of the client system: every step of it that does not panic,
  whatever the transport does, moves the session by a sequence of steps of the client system and
  leaves it connected.\<close>

theorem loop_refines_client_system:
  assumes "is_connected (sys c)" and "lp_session l = sys c"
    and "loop_step tr allow n now l = (r, l')" and "r \<noteq> LoopPanic"
  shows "\<exists>c'. (client_step allow)\<^sup>*\<^sup>* c c' \<and> sys c' = lp_session l' \<and> held c' = held c \<and> is_connected (lp_session l')"
  using loop_step_advanced [OF assms] unfolding advanced_def .

lemma demo_connected_sel: "is_connected demo_ping_session"
  by (simp add: demo_ping_session_def demo_connected_def is_connected_def)

lemma demo_first_step: "\<exists>l. loop_step demo_transport False 0 5 demo_loop = (LoopAgain, l)"
  using demo_polls by (auto simp: loop_step_def select_step_def demo_loop_sel)

theorem loop_refines_client_system_witness:
  "\<exists>l' c'. loop_step demo_transport False 0 5 demo_loop = (LoopAgain, l') \<and>
     (client_step False)\<^sup>*\<^sup>* (demo_connected\<lparr>sys := demo_ping_session\<rparr>) c' \<and> sys c' = lp_session l'"
proof -
  obtain l' where step: "loop_step demo_transport False 0 5 demo_loop = (LoopAgain, l')"
    using demo_first_step by blast
  from loop_refines_client_system [OF _ _ step, of "demo_connected\<lparr>sys := demo_ping_session\<rparr>"] step show ?thesis
    by (auto simp: demo_connected_sel demo_loop_sel)
qed

text \<open>What the loop sends: over any run, with the application acting between any two steps, the
  bytes handed to the stream when the loop waits are exactly the encodings of the packets the
  session released, each whole, in that order, with nothing left in the buffer.\<close>

theorem loop_sends_in_order:
  assumes "connection_run tr allow l ps l'" and "transport_ok tr incoming sent" and "loop_ok l"
    and "lp_packet l = None" and "lp_packet l' = None"
  shows "sent (writer_inner (lp_writer l')) = sent (writer_inner (lp_writer l)) @ wire ps"
  by (rule connection_run_flushed [OF assms])

theorem loop_sends_in_order_witness:
  "\<exists>l'. connection_run demo_transport False demo_loop [PingReqPacket] l' \<and> writer_inner (lp_writer l') = [0xC0, 0]"
proof -
  obtain l' where run: "connection_run demo_transport False demo_loop [PingReqPacket] l'" "lp_packet l' = None"
    using demo_loop_runs by blast
  from loop_sends_in_order [OF run(1) demo_transport_ok demo_loop_ok demo_loop_sel(2) run(2)] run(1) show ?thesis
    by (auto simp: ping_encodes demo_loop_sel demo_writer_def writer_new_def)
qed

text \<open>C4. A peer that reads the bytes of a run with the same reader and decoder receives the packets the
  loop sent, equal and in order, whatever pieces the network cuts the bytes into. This holds when every
  packet sent is well-formed (\<open>packet_ok\<close>): its strings are valid MQTT strings, its filters valid
  filters and its values can be told apart on the wire (an expiry of \<open>u32::MAX\<close> seconds is read back
  as infinite); and when all the bytes arrive and the peer's buffers can grow. The public API does not
  check the strings in properties, so an application can submit packets outside this statement.\<close>

theorem peer_receives_what_was_sent:
  assumes "connection_run tr allow l ps l'" and "transport_ok tr incoming sent" and "loop_ok l"
    and "\<forall>p \<in> set ps. packet_ok (tr_unicode peer) V5 p"
    and "readable (tr_read peer) arriving" and "flowing (tr_read peer)" and "pool_ok (tr_pool peer)"
    and "pool_total (tr_pool peer)" and "utf8_ascii (tr_unicode peer)"
    and "written_bytes sent (lp_writer l') = written_bytes sent (lp_writer l) @ unread arriving r"
  shows "\<exists>r'. receives peer r ps r' \<and> unread arriving r' = []"
proof -
  have "unread arriving r = wire ps @ []"
    using connection_run_written [OF assms(1-3)] assms(10) by simp
  moreover have "\<forall>p \<in> set ps. packet_ok (tr_unicode peer) V5 p \<and> snd (packet_encode V5 p) = None"
    using connection_run_encodes [OF assms(1-3)] assms(4) by blast
  ultimately show ?thesis using receives_wire [OF assms(5-9)] by blast
qed

theorem peer_receives_what_was_sent_witness:
  "\<exists>r'. receives demo_transport (reader_new [0xC0, 0] \<lparr>filled = [], unfilled_len = 0\<rparr>) [PingReqPacket] r'"
proof -
  obtain l' where run: "connection_run demo_transport False demo_loop [PingReqPacket] l'" using demo_loop_runs by blast
  have "written_bytes id (lp_writer l') =
      written_bytes id (lp_writer demo_loop) @ unread id (reader_new [0xC0, 0] \<lparr>filled = [], unfilled_len = 0\<rparr>)"
    using connection_run_written [OF run demo_transport_ok demo_loop_ok]
    by (simp add: ping_encodes unread_def reader_new_def)
  from peer_receives_what_was_sent [OF run demo_transport_ok demo_loop_ok _ _ _ _ _ _ this, of demo_transport]
  show ?thesis using demo_streams(1,2,4) plain_pool_ok ascii_unicode_ok by auto
qed

section \<open>Connecting\<close>

text \<open>C20. A connect that fails, at whatever point and with or without enhanced authentication, hands the
  session back as it was: nothing is lost, completed or cancelled, and no identifier is released.\<close>

theorem failed_connect_keeps_session:
  shows "(connect_start tr streams args h = Some (Inl (ConnectFailure h' e)) \<longrightarrow> h' = h) \<and>
    (connect_response tr allow now elapsed c = Inl (ConnectFailure h' e) \<longrightarrow> h' = connecting_handle c) \<and>
    (connect_enhanced_auth_start tr streams args au h = Some (Inl (AuthFailure h' e)) \<longrightarrow> h' = h) \<and>
    (receive_response tr allow now elapsed a = Inl (AuthFailure h' e) \<longrightarrow> h' = into_connect_handle a) \<and>
    (continue_auth tr data reason props a = Some (Inl (AuthFailure h' e)) \<longrightarrow> h' = into_connect_handle a)"
proof (intro conjI impI)
  assume "connect_response tr allow now elapsed c = Inl (ConnectFailure h' e)"
  then show "h' = connecting_handle c" by (cases rule: connect_response_cases) simp_all
next
  assume "receive_response tr allow now elapsed a = Inl (AuthFailure h' e)"
  then show "h' = into_connect_handle a" by (cases rule: receive_response_cases) simp_all
qed (auto simp: connect_start_def connect_enhanced_auth_start_def continue_auth_def into_connect_handle_def Let_def
    split: sum.splits prod.splits option.splits)

definition demo_args :: connect_args where
  "demo_args = \<lparr>arg_clean_start = True, arg_keep_alive = ConfigInfinite, arg_will = None, arg_username = None,
     arg_password = None, arg_properties = connect_other_properties_default\<rparr>"

definition demo_handle :: connect_handle where
  "demo_handle = \<lparr>handle_session = session_new 10, handle_client_id = None\<rparr>"

definition demo_connecting :: "bytes reader \<Rightarrow> bytes writer \<Rightarrow> (bytes, bytes) connecting" where
  "demo_connecting r w = \<lparr>connecting_handle = demo_handle, connecting_reader = r, connecting_writer = w,
     connecting_args = demo_args\<rparr>"

lemma demo_receives:
  assumes "packet_ok ascii_unicode V5 p" and "snd (packet_encode V5 p) = None" and "unread id r = wire [p] @ later"
  obtains r' where "mqtt_receive demo_transport r = (Ready (Inr p), r')" and "unread id r' = later"
  using mqtt_receive_next [of demo_transport id p r later] assms demo_streams plain_pool_ok ascii_unicode_ok by auto

theorem failed_connect_keeps_session_witness:
  "\<exists>h' e. connect_response demo_transport False 0 False (demo_connecting demo_reader demo_writer) = Inl (ConnectFailure h' e) \<and>
     h' = demo_handle"
proof -
  obtain r' where "mqtt_receive demo_transport demo_reader = (Ready (Inr (PublishPacket sample_publish)), r')"
    using demo_receives [OF sample_publish_ok sample_encodes(1), of demo_reader "[]"]
    by (auto simp: demo_unread sample_encodes(2))
  then have "\<exists>h' e. connect_response demo_transport False 0 False (demo_connecting demo_reader demo_writer) =
      Inl (ConnectFailure h' e)"
    by (simp add: connect_response_def demo_connecting_def)
  then show ?thesis
    using failed_connect_keeps_session [of demo_transport _ _ demo_handle _ _ False 0 False
        "demo_connecting demo_reader demo_writer"] by (fastforce simp: demo_connecting_def)
qed

text \<open>C25. A connect that succeeds has received a CONNACK with a success code and leaves a session that is
  connected under a new epoch, whose channel for the disconnect request is open and empty, and whose
  queued requests are untouched; the operations in flight and their identifiers stay exactly when
  the server reports Session Present.\<close>

theorem successful_connect:
  assumes "connect_response tr allow now elapsed c = Inl (ConnectSuccessful conn k)"
  defines "before \<equiv> handle_session (connecting_handle c)" and "after \<equiv> conn_session conn"
  shows "fst (mqtt_receive tr (connecting_reader c)) = Ready (Inr (ConnAckPacket k)) \<and>
    connected after = Connected k \<and> connection_epoch after = connection_epoch before + 1 \<and>
    ch after = (ch before)\<lparr>disconnect_rx := Some DisconnectOpen\<rparr> \<and>
    (\<exists>present. connack_reason_code k = ConnectSuccess present \<and>
      (if present then inflight after = inflight before \<and> session_pool after = session_pool before
       else inflight after = inflight (session_expired before) \<and> session_pool after = session_pool (session_expired before)))"
  using assms(1)
proof (cases rule: connect_response_cases)
  case (connected k' s rd)
  have conn: "conn_session conn = open_disconnect_channel s" "k' = k" using connected(4) by auto
  note run = connected(3) [folded before_def]
  obtain present where p: "connack_reason_code k = ConnectSuccess present"
    using connected(2) conn(2) by (auto simp: connack_is_success_def split: connect_reason_code.splits)
  have "inflight s = inflight (if present then before else session_expired before) \<and>
      session_pool s = session_pool (if present then before else session_expired before)"
    using run p conn(2) by (auto simp: incoming_connack_def Let_def split: if_splits)
  then show ?thesis
    using incoming_connack_connects [OF run connected(2)] connected(1) conn p
    by (simp add: after_def open_disconnect_channel_def)
qed simp_all

text \<open>Properties with their default values have no encoding.\<close>

lemma default_properties:
  assumes "list_all (property_ok uc) ps" and "property_bytes ps = []"
  shows "snd (encode_all ps) = None \<and> enc_bytes (encode_all ps) = [0]"
  using encode_all_parts [OF assms(1)] unfolding assms(2) by (simp add: varint_small)

lemma demo_connack_properties:
  "property_bytes (connack_properties (connack_other_properties demo_connack)) = []"
  "list_all (property_ok ascii_unicode) (connack_properties (connack_other_properties demo_connack))"
  by (simp_all add: connack_properties_def demo_connack_def conn_ack_other_properties_default_def opt_prop_def
      authentication_into_parts_def put_u8_def put_slice_def enc_bytes_def enc_then_def enc_ok_def enc_when_def)

lemmas demo_connack_encodes = default_properties [OF demo_connack_properties(2,1)]

lemma demo_connack_packet: "packet_ok ascii_unicode V5 (ConnAckPacket demo_connack)"
  "snd (packet_encode V5 (ConnAckPacket demo_connack)) = None"
proof -
  show ok: "packet_ok ascii_unicode V5 (ConnAckPacket demo_connack)"
    using demo_connack_properties(2) demo_connack_encodes by (simp add: connack_ok_def) (simp add: demo_connack_def)
  have "length (enc_bytes (packet_body V5 (ConnAckPacket demo_connack))) = 3"
    using demo_connack_encodes by (simp add: connack_encode_def is_v5_def enc_when_def Let_def)
  then show "snd (packet_encode V5 (ConnAckPacket demo_connack)) = None"
    by (intro packet_encode_bytes(1) [OF ok ascii_unicode_ok(1)]) simp
qed

lemma demo_incoming_connack:
  "incoming_connack False 0 demo_connack KeepAliveInfinite None (connect_session_expiry_interval connect_other_properties_default)
     (session_new 10) = (Inr (), (session_new 10)\<lparr>connection_epoch := 1, connected := Connected demo_connack\<rparr>)"
  by (simp add: incoming_connack_def demo_connack_def connack_auth_ok_def authentication_method_matches_def
      conn_ack_other_properties_default_def session_expired_def release_all_def cancel_all_def connect_other_properties_default_def
      session_new_def inflight_tracker_default_def notify_def keep_alive_timer_def connack_is_success_def pkid_pool_new_def)

definition demo_established :: "bytes reader \<Rightarrow> bytes writer \<Rightarrow> (bytes, bytes) connection" where
  "demo_established r w = \<lparr>conn_session = open_disconnect_channel (sys demo_connected), conn_reader = r,
     conn_writer = w, conn_client_id = None, conn_pingresp_timeout = None\<rparr>"

lemma demo_connects:
  assumes "unread id r = wire [ConnAckPacket demo_connack] @ later"
  obtains r' where "unread id r' = later" and "connect_response demo_transport False 0 False (demo_connecting r w) =
    Inl (ConnectSuccessful (demo_established r' w) demo_connack)"
proof -
  obtain r' where "mqtt_receive demo_transport r = (Ready (Inr (ConnAckPacket demo_connack)), r')" "unread id r' = later"
    using demo_receives [OF demo_connack_packet assms] .
  moreover have "connack_is_success demo_connack" by (simp add: connack_is_success_def demo_connack_def)
  ultimately show thesis
    using demo_incoming_connack
    by (intro that [of r']) (simp_all add: connect_response_def demo_connecting_def demo_handle_def demo_args_def
        demo_established_def demo_connected_def Let_def)
qed

definition reader_of :: "packet list \<Rightarrow> bytes reader" where
  "reader_of ps = reader_new (wire ps) \<lparr>filled = [], unfilled_len = 0\<rparr>"

lemma reader_of_unread: "unread id (reader_of ps) = wire ps"
  by (simp add: reader_of_def unread_def reader_new_def)

theorem successful_connect_witness:
  "\<exists>conn. connect_response demo_transport False 0 False (demo_connecting (reader_of [ConnAckPacket demo_connack]) demo_writer) =
     Inl (ConnectSuccessful conn demo_connack) \<and> connection_epoch (conn_session conn) = 1 \<and>
     disconnect_rx (ch (conn_session conn)) = Some DisconnectOpen"
proof -
  obtain r' where r': "connect_response demo_transport False 0 False
      (demo_connecting (reader_of [ConnAckPacket demo_connack]) demo_writer) =
      Inl (ConnectSuccessful (demo_established r' demo_writer) demo_connack)"
    using demo_connects [of "reader_of [ConnAckPacket demo_connack]" "[]" demo_writer] reader_of_unread by auto
  from successful_connect [OF this] r' show ?thesis
    by (auto simp: demo_connecting_def demo_handle_def session_new_def channels_new_def)
qed

section \<open>The life of a client\<close>

text \<open>C3. Every life of a client, with any number of connections, failed or successful, with or without
  enhanced authentication, and any actions of the application in between, keeps the session in a
  state that the client system reaches; it is connected exactly while a connection runs, and a
  running connection has nothing in its write buffer when it waits.\<close>

theorem client_life_is_a_run:
  assumes "client_life tr allow m ph ts" and "transport_ok tr incoming sent"
  shows "(\<exists>c. reachable allow c \<and> sys c = phase_session ph \<and> held c = ts) \<and>
    (is_connected (phase_session ph) \<longleftrightarrow> (\<exists>l. ph = Running l)) \<and> (\<forall>l. ph = Running l \<longrightarrow> loop_ok l)"
  using client_life_lives [OF assms] by (cases ph) (auto simp: lives_in_def)

definition qos2_publish :: publish where
  "qos2_publish = \<lparr>publish_topic_name = sample_topic, packet_identifier_dup_qos = PdqExactlyOnce 7 False,
     publish_retain = False, publish_payload = [], publish_other_properties = publish_other_properties_default\<rparr>"

lemma qos2_properties:
  "property_bytes (publish_properties (publish_other_properties qos2_publish)) = []"
  "list_all (property_ok ascii_unicode) (publish_properties (publish_other_properties qos2_publish))"
  by (simp_all add: qos2_publish_def publish_properties_def publish_other_properties_default_def opt_prop_def
      put_u8_def put_slice_def enc_bytes_def enc_then_def enc_ok_def enc_when_def)

lemmas qos2_encodes = default_properties [OF qos2_properties(2,1)]

lemma qos2_packet: "packet_ok ascii_unicode V5 (PublishPacket qos2_publish)"
  "snd (packet_encode V5 (PublishPacket qos2_publish)) = None"
proof -
  show ok: "packet_ok ascii_unicode V5 (PublishPacket qos2_publish)"
    using sample_topic_ok qos2_properties(2) qos2_encodes by (simp add: publish_ok_def) (simp add: qos2_publish_def)
  have "length (enc_bytes (packet_body V5 (PublishPacket qos2_publish))) < varint_limit"
    using qos2_encodes by (simp add: publish_encode_def is_v5_def enc_when_def) (simp add: qos2_publish_def sample_topic_def)
  then show "snd (packet_encode V5 (PublishPacket qos2_publish)) = None"
    by (rule packet_encode_bytes(1) [OF ok ascii_unicode_ok(1)])
qed

lemma demo_connect_packet: "snd (packet_encode V5 (connect_packet None demo_args None)) = None"
proof -
  let ?props = "connect_properties ((arg_properties demo_args)\<lparr>connect_authentication := None\<rparr>)"
  have p: "property_bytes ?props = []" "list_all (property_ok ascii_unicode) ?props"
    by (simp_all add: demo_args_def connect_properties_def connect_other_properties_default_def opt_prop_def
      authentication_into_parts_def put_u8_def put_slice_def enc_bytes_def enc_then_def enc_ok_def enc_when_def)
  note enc = default_properties [OF p(2,1)]
  have ok: "packet_ok ascii_unicode V5 (connect_packet None demo_args None)"
    using enc p(2) by (simp add: connect_packet_def connect_ok_def) (simp add: demo_args_def)
  have "enc_bytes (packet_body V5 (connect_packet None demo_args None)) = PROTOCOL_NAME @ [5, 2, 0, 0, 0, 0, 0]"
    using enc by (simp add: connect_packet_def connect_encode_def is_v5_def enc_when_def) 
     (simp add: demo_args_def connect_flags_of_def connect_flags_def be16_def connect_flag_defs enc_opt_def)
  then show ?thesis
    by (intro packet_encode_bytes(1) [OF ok ascii_unicode_ok(1)]) (simp add: PROTOCOL_NAME_def)
qed

definition demo_inbox :: "packet list" where
  "demo_inbox = [ConnAckPacket demo_connack, PublishPacket qos2_publish]"

lemma demo_life:
  obtains w r where "client_life demo_transport False 10 (Running (loop_new (demo_established r w))) []"
    and "unread id r = wire [PublishPacket qos2_publish]"
proof -
  note acc = demo_streams(3) demo_accepting
  have idle: "\<And>rd w. Inr (reader_of demo_inbox, demo_writer) = (Inr (rd, w) :: io_error + _ \<times> _) \<Longrightarrow> writer_idle w"
    using demo_writer_idle by auto
  obtain w1 where w1: "writer_write plain_pool (tr_write demo_transport) (tr_flush demo_transport) V5
      (connect_packet None demo_args None) demo_writer = Some (Inr (), w1)"
    using writer_write_accepts [OF acc plain_pool_ok demo_streams(4) demo_writer_idle(2) demo_connect_packet] by blast
  then have "writer_ok w1"
    using writer_write_appends [OF demo_streams(3) plain_pool_ok demo_writer_idle(2), of V5 "connect_packet None demo_args None"]
    by auto
  then obtain w where w: "writer_flush (tr_write demo_transport) (tr_flush demo_transport) w1 = Some (Inr (), w)"
    using writer_flush_accepts [OF acc] by blast
  have start: "connect_start demo_transport (Inr (reader_of demo_inbox, demo_writer)) demo_args demo_handle =
      Some (Inr (demo_connecting (reader_of demo_inbox) w))"
    using w w1 by (simp add: connect_start_def write_and_flush_def demo_handle_def demo_connecting_def)
  have "client_life demo_transport False 10 (Offline demo_handle) []"
    unfolding demo_handle_def by (rule created) simp
  from connects [OF this idle start] have
    "client_life demo_transport False 10 (AwaitConnack (demo_connecting (reader_of demo_inbox) w)) []" by simp
  note life = responds [OF this, of 0 False]
  have "unread id (reader_of demo_inbox) = wire [ConnAckPacket demo_connack] @ wire [PublishPacket qos2_publish]"
    by (simp add: reader_of_unread demo_inbox_def)
  from demo_connects [OF this, of w] obtain r where r: "unread id r = wire [PublishPacket qos2_publish]"
    "connect_response demo_transport False 0 False (demo_connecting (reader_of demo_inbox) w) =
       Inl (ConnectSuccessful (demo_established r w) demo_connack)" by blast
  with life show thesis
    by (intro that [of r w]) (simp_all add: demo_connecting_def demo_handle_def session_new_def word_gt_0)
qed

theorem client_life_is_a_run_witness:
  "\<exists>l c. client_life demo_transport False 10 (Running l) [] \<and> reachable False c \<and> sys c = lp_session l \<and> loop_ok l"
proof -
  obtain w r where life: "client_life demo_transport False 10 (Running (loop_new (demo_established r w))) []"
    using demo_life by blast
  from client_life_is_a_run [OF this demo_transport_ok] life show ?thesis by auto
qed


lemma demo_idle: "\<exists>s. next_outgoing_packet 7 (open_disconnect_channel (sys demo_connected)) = (Pending, s)"
  by (simp add: open_disconnect_channel_def next_outgoing_packet_def is_connected_def demo_connected_def session_new_def
        inflight_tracker_default_def next_outgoing_request.simps poll_defs channels_new_def
        reset_pingreq_timer_def notify_def dropped_value_def Let_def)


end
