(* ===== verification/Api_Reasons.thy ===== *)
theory Api_Reasons
  imports Reason_Codes
begin

text \<open>
  The reason codes of the public API (src/src/packet.rs): their values, the conversions from and to
  the reason codes of the wire, and the texts that \<open>derive(Debug)\<close> prints for the ones that appear in
  error messages. A text is the bytes of a Rust \<open>String\<close>.
\<close>

definition utf8 :: "string \<Rightarrow> bytes" where
  "utf8 s = map of_char s"

datatype (plugins only: code size) conn_ack_reason =
    ConnAckReason_Success | ConnAckReason_UnspecifiedError | ConnAckReason_MalformedPacket
    | ConnAckReason_ProtocolError | ConnAckReason_ImplementationSpecificError
    | ConnAckReason_UnsupportedProtocolVersion | ConnAckReason_ClientIdentifierNotValid
    | ConnAckReason_BadUserNameOrPassword | ConnAckReason_NotAuthorized
    | ConnAckReason_ServerUnavailable | ConnAckReason_ServerBusy | ConnAckReason_Banned
    | ConnAckReason_BadAuthenticationMethod | ConnAckReason_TopicNameInvalid
    | ConnAckReason_PacketTooLarge | ConnAckReason_QuotaExceeded
    | ConnAckReason_PayloadFormatInvalid | ConnAckReason_RetainNotSupported
    | ConnAckReason_QoSNotSupported | ConnAckReason_UseAnotherServer | ConnAckReason_ServerMoved
    | ConnAckReason_ConnectionRateExceeded

primrec conn_ack_reason_value :: "conn_ack_reason \<Rightarrow> u8" where
  "conn_ack_reason_value ConnAckReason_Success = 0x00"
| "conn_ack_reason_value ConnAckReason_UnspecifiedError = 0x80"
| "conn_ack_reason_value ConnAckReason_MalformedPacket = 0x81"
| "conn_ack_reason_value ConnAckReason_ProtocolError = 0x82"
| "conn_ack_reason_value ConnAckReason_ImplementationSpecificError = 0x83"
| "conn_ack_reason_value ConnAckReason_UnsupportedProtocolVersion = 0x84"
| "conn_ack_reason_value ConnAckReason_ClientIdentifierNotValid = 0x85"
| "conn_ack_reason_value ConnAckReason_BadUserNameOrPassword = 0x86"
| "conn_ack_reason_value ConnAckReason_NotAuthorized = 0x87"
| "conn_ack_reason_value ConnAckReason_ServerUnavailable = 0x88"
| "conn_ack_reason_value ConnAckReason_ServerBusy = 0x89"
| "conn_ack_reason_value ConnAckReason_Banned = 0x8A"
| "conn_ack_reason_value ConnAckReason_BadAuthenticationMethod = 0x8C"
| "conn_ack_reason_value ConnAckReason_TopicNameInvalid = 0x90"
| "conn_ack_reason_value ConnAckReason_PacketTooLarge = 0x95"
| "conn_ack_reason_value ConnAckReason_QuotaExceeded = 0x97"
| "conn_ack_reason_value ConnAckReason_PayloadFormatInvalid = 0x99"
| "conn_ack_reason_value ConnAckReason_RetainNotSupported = 0x9A"
| "conn_ack_reason_value ConnAckReason_QoSNotSupported = 0x9B"
| "conn_ack_reason_value ConnAckReason_UseAnotherServer = 0x9C"
| "conn_ack_reason_value ConnAckReason_ServerMoved = 0x9D"
| "conn_ack_reason_value ConnAckReason_ConnectionRateExceeded = 0x9F"

primrec conn_ack_reason_debug :: "conn_ack_reason \<Rightarrow> bytes" where
  "conn_ack_reason_debug ConnAckReason_Success = utf8 ''Success''"
| "conn_ack_reason_debug ConnAckReason_UnspecifiedError = utf8 ''UnspecifiedError''"
| "conn_ack_reason_debug ConnAckReason_MalformedPacket = utf8 ''MalformedPacket''"
| "conn_ack_reason_debug ConnAckReason_ProtocolError = utf8 ''ProtocolError''"
| "conn_ack_reason_debug ConnAckReason_ImplementationSpecificError = utf8 ''ImplementationSpecificError''"
| "conn_ack_reason_debug ConnAckReason_UnsupportedProtocolVersion = utf8 ''UnsupportedProtocolVersion''"
| "conn_ack_reason_debug ConnAckReason_ClientIdentifierNotValid = utf8 ''ClientIdentifierNotValid''"
| "conn_ack_reason_debug ConnAckReason_BadUserNameOrPassword = utf8 ''BadUserNameOrPassword''"
| "conn_ack_reason_debug ConnAckReason_NotAuthorized = utf8 ''NotAuthorized''"
| "conn_ack_reason_debug ConnAckReason_ServerUnavailable = utf8 ''ServerUnavailable''"
| "conn_ack_reason_debug ConnAckReason_ServerBusy = utf8 ''ServerBusy''"
| "conn_ack_reason_debug ConnAckReason_Banned = utf8 ''Banned''"
| "conn_ack_reason_debug ConnAckReason_BadAuthenticationMethod = utf8 ''BadAuthenticationMethod''"
| "conn_ack_reason_debug ConnAckReason_TopicNameInvalid = utf8 ''TopicNameInvalid''"
| "conn_ack_reason_debug ConnAckReason_PacketTooLarge = utf8 ''PacketTooLarge''"
| "conn_ack_reason_debug ConnAckReason_QuotaExceeded = utf8 ''QuotaExceeded''"
| "conn_ack_reason_debug ConnAckReason_PayloadFormatInvalid = utf8 ''PayloadFormatInvalid''"
| "conn_ack_reason_debug ConnAckReason_RetainNotSupported = utf8 ''RetainNotSupported''"
| "conn_ack_reason_debug ConnAckReason_QoSNotSupported = utf8 ''QoSNotSupported''"
| "conn_ack_reason_debug ConnAckReason_UseAnotherServer = utf8 ''UseAnotherServer''"
| "conn_ack_reason_debug ConnAckReason_ServerMoved = utf8 ''ServerMoved''"
| "conn_ack_reason_debug ConnAckReason_ConnectionRateExceeded = utf8 ''ConnectionRateExceeded''"

primrec conn_ack_reason_of :: "connection_refused_reason \<Rightarrow> conn_ack_reason" where
  "conn_ack_reason_of RefusedUnspecifiedError = ConnAckReason_UnspecifiedError"
| "conn_ack_reason_of RefusedMalformedPacket = ConnAckReason_MalformedPacket"
| "conn_ack_reason_of RefusedProtocolError = ConnAckReason_ProtocolError"
| "conn_ack_reason_of RefusedImplementationSpecificError = ConnAckReason_ImplementationSpecificError"
| "conn_ack_reason_of UnsupportedProtocolVersion = ConnAckReason_UnsupportedProtocolVersion"
| "conn_ack_reason_of ClientIdentifierNotValid = ConnAckReason_ClientIdentifierNotValid"
| "conn_ack_reason_of BadUserNameOrPassword = ConnAckReason_BadUserNameOrPassword"
| "conn_ack_reason_of RefusedNotAuthorized = ConnAckReason_NotAuthorized"
| "conn_ack_reason_of ServerUnavailable = ConnAckReason_ServerUnavailable"
| "conn_ack_reason_of RefusedServerBusy = ConnAckReason_ServerBusy"
| "conn_ack_reason_of Banned = ConnAckReason_Banned"
| "conn_ack_reason_of BadAuthenticationMethod = ConnAckReason_BadAuthenticationMethod"
| "conn_ack_reason_of RefusedTopicNameInvalid = ConnAckReason_TopicNameInvalid"
| "conn_ack_reason_of RefusedPacketTooLarge = ConnAckReason_PacketTooLarge"
| "conn_ack_reason_of RefusedQuotaExceeded = ConnAckReason_QuotaExceeded"
| "conn_ack_reason_of RefusedPayloadFormatInvalid = ConnAckReason_PayloadFormatInvalid"
| "conn_ack_reason_of RefusedRetainNotSupported = ConnAckReason_RetainNotSupported"
| "conn_ack_reason_of QoSNotSupported = ConnAckReason_QoSNotSupported"
| "conn_ack_reason_of RefusedUseAnotherServer = ConnAckReason_UseAnotherServer"
| "conn_ack_reason_of RefusedServerMoved = ConnAckReason_ServerMoved"
| "conn_ack_reason_of RefusedConnectionRateExceeded = ConnAckReason_ConnectionRateExceeded"

datatype (plugins only: code size) pub_ack_reason =
    PubAckReason_Success | PubAckReason_NoMatchingSubscribers | PubAckReason_UnspecifiedError
    | PubAckReason_ImplementationSpecificError | PubAckReason_NotAuthorized
    | PubAckReason_TopicNameInvalid | PubAckReason_PacketIdentifierInUse
    | PubAckReason_QuotaExceeded | PubAckReason_PayloadFormatInvalid

primrec pub_ack_reason_value :: "pub_ack_reason \<Rightarrow> u8" where
  "pub_ack_reason_value PubAckReason_Success = 0x00"
| "pub_ack_reason_value PubAckReason_NoMatchingSubscribers = 0x10"
| "pub_ack_reason_value PubAckReason_UnspecifiedError = 0x80"
| "pub_ack_reason_value PubAckReason_ImplementationSpecificError = 0x83"
| "pub_ack_reason_value PubAckReason_NotAuthorized = 0x87"
| "pub_ack_reason_value PubAckReason_TopicNameInvalid = 0x90"
| "pub_ack_reason_value PubAckReason_PacketIdentifierInUse = 0x91"
| "pub_ack_reason_value PubAckReason_QuotaExceeded = 0x97"
| "pub_ack_reason_value PubAckReason_PayloadFormatInvalid = 0x99"

primrec pub_ack_reason_debug :: "pub_ack_reason \<Rightarrow> bytes" where
  "pub_ack_reason_debug PubAckReason_Success = utf8 ''Success''"
| "pub_ack_reason_debug PubAckReason_NoMatchingSubscribers = utf8 ''NoMatchingSubscribers''"
| "pub_ack_reason_debug PubAckReason_UnspecifiedError = utf8 ''UnspecifiedError''"
| "pub_ack_reason_debug PubAckReason_ImplementationSpecificError = utf8 ''ImplementationSpecificError''"
| "pub_ack_reason_debug PubAckReason_NotAuthorized = utf8 ''NotAuthorized''"
| "pub_ack_reason_debug PubAckReason_TopicNameInvalid = utf8 ''TopicNameInvalid''"
| "pub_ack_reason_debug PubAckReason_PacketIdentifierInUse = utf8 ''PacketIdentifierInUse''"
| "pub_ack_reason_debug PubAckReason_QuotaExceeded = utf8 ''QuotaExceeded''"
| "pub_ack_reason_debug PubAckReason_PayloadFormatInvalid = utf8 ''PayloadFormatInvalid''"

primrec pub_ack_reason_of :: "pub_ack_reason_code \<Rightarrow> pub_ack_reason" where
  "pub_ack_reason_of PubAckSuccess = PubAckReason_Success"
| "pub_ack_reason_of PubAckNoMatchingSubscribers = PubAckReason_NoMatchingSubscribers"
| "pub_ack_reason_of PubAckUnspecifiedError = PubAckReason_UnspecifiedError"
| "pub_ack_reason_of PubAckImplementationSpecificError = PubAckReason_ImplementationSpecificError"
| "pub_ack_reason_of PubAckNotAuthorized = PubAckReason_NotAuthorized"
| "pub_ack_reason_of PubAckTopicNameInvalid = PubAckReason_TopicNameInvalid"
| "pub_ack_reason_of PubAckPacketIdentifierInUse = PubAckReason_PacketIdentifierInUse"
| "pub_ack_reason_of PubAckQuotaExceeded = PubAckReason_QuotaExceeded"
| "pub_ack_reason_of PubAckPayloadFormatInvalid = PubAckReason_PayloadFormatInvalid"

primrec pub_ack_reason_into :: "pub_ack_reason \<Rightarrow> pub_ack_reason_code" where
  "pub_ack_reason_into PubAckReason_Success = PubAckSuccess"
| "pub_ack_reason_into PubAckReason_NoMatchingSubscribers = PubAckNoMatchingSubscribers"
| "pub_ack_reason_into PubAckReason_UnspecifiedError = PubAckUnspecifiedError"
| "pub_ack_reason_into PubAckReason_ImplementationSpecificError = PubAckImplementationSpecificError"
| "pub_ack_reason_into PubAckReason_NotAuthorized = PubAckNotAuthorized"
| "pub_ack_reason_into PubAckReason_TopicNameInvalid = PubAckTopicNameInvalid"
| "pub_ack_reason_into PubAckReason_PacketIdentifierInUse = PubAckPacketIdentifierInUse"
| "pub_ack_reason_into PubAckReason_QuotaExceeded = PubAckQuotaExceeded"
| "pub_ack_reason_into PubAckReason_PayloadFormatInvalid = PubAckPayloadFormatInvalid"

datatype (plugins only: code size) pub_rec_reason =
    PubRecReason_Success | PubRecReason_NoMatchingSubscribers | PubRecReason_UnspecifiedError
    | PubRecReason_ImplementationSpecificError | PubRecReason_NotAuthorized
    | PubRecReason_TopicNameInvalid | PubRecReason_PacketIdentifierInUse
    | PubRecReason_QuotaExceeded | PubRecReason_PayloadFormatInvalid

primrec pub_rec_reason_value :: "pub_rec_reason \<Rightarrow> u8" where
  "pub_rec_reason_value PubRecReason_Success = 0x00"
| "pub_rec_reason_value PubRecReason_NoMatchingSubscribers = 0x10"
| "pub_rec_reason_value PubRecReason_UnspecifiedError = 0x80"
| "pub_rec_reason_value PubRecReason_ImplementationSpecificError = 0x83"
| "pub_rec_reason_value PubRecReason_NotAuthorized = 0x87"
| "pub_rec_reason_value PubRecReason_TopicNameInvalid = 0x90"
| "pub_rec_reason_value PubRecReason_PacketIdentifierInUse = 0x91"
| "pub_rec_reason_value PubRecReason_QuotaExceeded = 0x97"
| "pub_rec_reason_value PubRecReason_PayloadFormatInvalid = 0x99"

primrec pub_rec_reason_debug :: "pub_rec_reason \<Rightarrow> bytes" where
  "pub_rec_reason_debug PubRecReason_Success = utf8 ''Success''"
| "pub_rec_reason_debug PubRecReason_NoMatchingSubscribers = utf8 ''NoMatchingSubscribers''"
| "pub_rec_reason_debug PubRecReason_UnspecifiedError = utf8 ''UnspecifiedError''"
| "pub_rec_reason_debug PubRecReason_ImplementationSpecificError = utf8 ''ImplementationSpecificError''"
| "pub_rec_reason_debug PubRecReason_NotAuthorized = utf8 ''NotAuthorized''"
| "pub_rec_reason_debug PubRecReason_TopicNameInvalid = utf8 ''TopicNameInvalid''"
| "pub_rec_reason_debug PubRecReason_PacketIdentifierInUse = utf8 ''PacketIdentifierInUse''"
| "pub_rec_reason_debug PubRecReason_QuotaExceeded = utf8 ''QuotaExceeded''"
| "pub_rec_reason_debug PubRecReason_PayloadFormatInvalid = utf8 ''PayloadFormatInvalid''"

primrec pub_rec_reason_of :: "pub_rec_reason_code \<Rightarrow> pub_rec_reason" where
  "pub_rec_reason_of PubRecSuccess = PubRecReason_Success"
| "pub_rec_reason_of PubRecNoMatchingSubscribers = PubRecReason_NoMatchingSubscribers"
| "pub_rec_reason_of PubRecUnspecifiedError = PubRecReason_UnspecifiedError"
| "pub_rec_reason_of PubRecImplementationSpecificError = PubRecReason_ImplementationSpecificError"
| "pub_rec_reason_of PubRecNotAuthorized = PubRecReason_NotAuthorized"
| "pub_rec_reason_of PubRecTopicNameInvalid = PubRecReason_TopicNameInvalid"
| "pub_rec_reason_of PubRecPacketIdentifierInUse = PubRecReason_PacketIdentifierInUse"
| "pub_rec_reason_of PubRecQuotaExceeded = PubRecReason_QuotaExceeded"
| "pub_rec_reason_of PubRecPayloadFormatInvalid = PubRecReason_PayloadFormatInvalid"

primrec pub_rec_reason_into :: "pub_rec_reason \<Rightarrow> pub_rec_reason_code" where
  "pub_rec_reason_into PubRecReason_Success = PubRecSuccess"
| "pub_rec_reason_into PubRecReason_NoMatchingSubscribers = PubRecNoMatchingSubscribers"
| "pub_rec_reason_into PubRecReason_UnspecifiedError = PubRecUnspecifiedError"
| "pub_rec_reason_into PubRecReason_ImplementationSpecificError = PubRecImplementationSpecificError"
| "pub_rec_reason_into PubRecReason_NotAuthorized = PubRecNotAuthorized"
| "pub_rec_reason_into PubRecReason_TopicNameInvalid = PubRecTopicNameInvalid"
| "pub_rec_reason_into PubRecReason_PacketIdentifierInUse = PubRecPacketIdentifierInUse"
| "pub_rec_reason_into PubRecReason_QuotaExceeded = PubRecQuotaExceeded"
| "pub_rec_reason_into PubRecReason_PayloadFormatInvalid = PubRecPayloadFormatInvalid"

datatype (plugins only: code size) pub_reject_reason =
    PubRejectReason_UnspecifiedError | PubRejectReason_ImplementationSpecificError
    | PubRejectReason_NotAuthorized | PubRejectReason_TopicNameInvalid
    | PubRejectReason_PacketIdentifierInUse | PubRejectReason_QuotaExceeded
    | PubRejectReason_PayloadFormatInvalid

primrec pub_reject_reason_value :: "pub_reject_reason \<Rightarrow> u8" where
  "pub_reject_reason_value PubRejectReason_UnspecifiedError = 0x80"
| "pub_reject_reason_value PubRejectReason_ImplementationSpecificError = 0x83"
| "pub_reject_reason_value PubRejectReason_NotAuthorized = 0x87"
| "pub_reject_reason_value PubRejectReason_TopicNameInvalid = 0x90"
| "pub_reject_reason_value PubRejectReason_PacketIdentifierInUse = 0x91"
| "pub_reject_reason_value PubRejectReason_QuotaExceeded = 0x97"
| "pub_reject_reason_value PubRejectReason_PayloadFormatInvalid = 0x99"

primrec reject_into_pub_ack_reason :: "pub_reject_reason \<Rightarrow> pub_ack_reason" where
  "reject_into_pub_ack_reason PubRejectReason_UnspecifiedError = PubAckReason_UnspecifiedError"
| "reject_into_pub_ack_reason PubRejectReason_ImplementationSpecificError = PubAckReason_ImplementationSpecificError"
| "reject_into_pub_ack_reason PubRejectReason_NotAuthorized = PubAckReason_NotAuthorized"
| "reject_into_pub_ack_reason PubRejectReason_TopicNameInvalid = PubAckReason_TopicNameInvalid"
| "reject_into_pub_ack_reason PubRejectReason_PacketIdentifierInUse = PubAckReason_PacketIdentifierInUse"
| "reject_into_pub_ack_reason PubRejectReason_QuotaExceeded = PubAckReason_QuotaExceeded"
| "reject_into_pub_ack_reason PubRejectReason_PayloadFormatInvalid = PubAckReason_PayloadFormatInvalid"

primrec reject_into_pub_ack_code :: "pub_reject_reason \<Rightarrow> pub_ack_reason_code" where
  "reject_into_pub_ack_code PubRejectReason_UnspecifiedError = PubAckUnspecifiedError"
| "reject_into_pub_ack_code PubRejectReason_ImplementationSpecificError = PubAckImplementationSpecificError"
| "reject_into_pub_ack_code PubRejectReason_NotAuthorized = PubAckNotAuthorized"
| "reject_into_pub_ack_code PubRejectReason_TopicNameInvalid = PubAckTopicNameInvalid"
| "reject_into_pub_ack_code PubRejectReason_PacketIdentifierInUse = PubAckPacketIdentifierInUse"
| "reject_into_pub_ack_code PubRejectReason_QuotaExceeded = PubAckQuotaExceeded"
| "reject_into_pub_ack_code PubRejectReason_PayloadFormatInvalid = PubAckPayloadFormatInvalid"

primrec reject_into_pub_rec_reason :: "pub_reject_reason \<Rightarrow> pub_rec_reason" where
  "reject_into_pub_rec_reason PubRejectReason_UnspecifiedError = PubRecReason_UnspecifiedError"
| "reject_into_pub_rec_reason PubRejectReason_ImplementationSpecificError = PubRecReason_ImplementationSpecificError"
| "reject_into_pub_rec_reason PubRejectReason_NotAuthorized = PubRecReason_NotAuthorized"
| "reject_into_pub_rec_reason PubRejectReason_TopicNameInvalid = PubRecReason_TopicNameInvalid"
| "reject_into_pub_rec_reason PubRejectReason_PacketIdentifierInUse = PubRecReason_PacketIdentifierInUse"
| "reject_into_pub_rec_reason PubRejectReason_QuotaExceeded = PubRecReason_QuotaExceeded"
| "reject_into_pub_rec_reason PubRejectReason_PayloadFormatInvalid = PubRecReason_PayloadFormatInvalid"

primrec reject_into_pub_rec_code :: "pub_reject_reason \<Rightarrow> pub_rec_reason_code" where
  "reject_into_pub_rec_code PubRejectReason_UnspecifiedError = PubRecUnspecifiedError"
| "reject_into_pub_rec_code PubRejectReason_ImplementationSpecificError = PubRecImplementationSpecificError"
| "reject_into_pub_rec_code PubRejectReason_NotAuthorized = PubRecNotAuthorized"
| "reject_into_pub_rec_code PubRejectReason_TopicNameInvalid = PubRecTopicNameInvalid"
| "reject_into_pub_rec_code PubRejectReason_PacketIdentifierInUse = PubRecPacketIdentifierInUse"
| "reject_into_pub_rec_code PubRejectReason_QuotaExceeded = PubRecQuotaExceeded"
| "reject_into_pub_rec_code PubRejectReason_PayloadFormatInvalid = PubRecPayloadFormatInvalid"

datatype (plugins only: code size) pub_rel_reason =
    PubRelReason_Success | PubRelReason_PacketIdentifierNotFound

primrec pub_rel_reason_value :: "pub_rel_reason \<Rightarrow> u8" where
  "pub_rel_reason_value PubRelReason_Success = 0x00"
| "pub_rel_reason_value PubRelReason_PacketIdentifierNotFound = 0x92"

primrec pub_rel_reason_of :: "pub_rel_reason_code \<Rightarrow> pub_rel_reason" where
  "pub_rel_reason_of PubRelSuccess = PubRelReason_Success"
| "pub_rel_reason_of PubRelPacketIdentifierNotFound = PubRelReason_PacketIdentifierNotFound"

primrec pub_rel_reason_into :: "pub_rel_reason \<Rightarrow> pub_rel_reason_code" where
  "pub_rel_reason_into PubRelReason_Success = PubRelSuccess"
| "pub_rel_reason_into PubRelReason_PacketIdentifierNotFound = PubRelPacketIdentifierNotFound"

datatype (plugins only: code size) pub_comp_reason =
    PubCompReason_Success | PubCompReason_PacketIdentifierNotFound

primrec pub_comp_reason_value :: "pub_comp_reason \<Rightarrow> u8" where
  "pub_comp_reason_value PubCompReason_Success = 0x00"
| "pub_comp_reason_value PubCompReason_PacketIdentifierNotFound = 0x92"

primrec pub_comp_reason_of :: "pub_comp_reason_code \<Rightarrow> pub_comp_reason" where
  "pub_comp_reason_of PubCompSuccess = PubCompReason_Success"
| "pub_comp_reason_of PubCompPacketIdentifierNotFound = PubCompReason_PacketIdentifierNotFound"

primrec pub_comp_reason_into :: "pub_comp_reason \<Rightarrow> pub_comp_reason_code" where
  "pub_comp_reason_into PubCompReason_Success = PubCompSuccess"
| "pub_comp_reason_into PubCompReason_PacketIdentifierNotFound = PubCompPacketIdentifierNotFound"

datatype (plugins only: code size) sub_ack_reason =
    SubAckReason_GrantedQoS0 | SubAckReason_GrantedQoS1 | SubAckReason_GrantedQoS2
    | SubAckReason_UnspecifiedError | SubAckReason_ImplementationSpecificError
    | SubAckReason_NotAuthorized | SubAckReason_TopicFilterInvalid
    | SubAckReason_PacketIdentifierInUse | SubAckReason_QuotaExceeded
    | SubAckReason_SharedSubscriptionsNotSupported
    | SubAckReason_SubscriptionIdentifiersNotSupported
    | SubAckReason_WildcardSubscriptionsNotSupported

primrec sub_ack_reason_value :: "sub_ack_reason \<Rightarrow> u8" where
  "sub_ack_reason_value SubAckReason_GrantedQoS0 = 0x00"
| "sub_ack_reason_value SubAckReason_GrantedQoS1 = 0x01"
| "sub_ack_reason_value SubAckReason_GrantedQoS2 = 0x02"
| "sub_ack_reason_value SubAckReason_UnspecifiedError = 0x80"
| "sub_ack_reason_value SubAckReason_ImplementationSpecificError = 0x83"
| "sub_ack_reason_value SubAckReason_NotAuthorized = 0x87"
| "sub_ack_reason_value SubAckReason_TopicFilterInvalid = 0x8F"
| "sub_ack_reason_value SubAckReason_PacketIdentifierInUse = 0x91"
| "sub_ack_reason_value SubAckReason_QuotaExceeded = 0x97"
| "sub_ack_reason_value SubAckReason_SharedSubscriptionsNotSupported = 0x9A"
| "sub_ack_reason_value SubAckReason_SubscriptionIdentifiersNotSupported = 0xA1"
| "sub_ack_reason_value SubAckReason_WildcardSubscriptionsNotSupported = 0xA2"

primrec sub_ack_reason_debug :: "sub_ack_reason \<Rightarrow> bytes" where
  "sub_ack_reason_debug SubAckReason_GrantedQoS0 = utf8 ''GrantedQoS0''"
| "sub_ack_reason_debug SubAckReason_GrantedQoS1 = utf8 ''GrantedQoS1''"
| "sub_ack_reason_debug SubAckReason_GrantedQoS2 = utf8 ''GrantedQoS2''"
| "sub_ack_reason_debug SubAckReason_UnspecifiedError = utf8 ''UnspecifiedError''"
| "sub_ack_reason_debug SubAckReason_ImplementationSpecificError = utf8 ''ImplementationSpecificError''"
| "sub_ack_reason_debug SubAckReason_NotAuthorized = utf8 ''NotAuthorized''"
| "sub_ack_reason_debug SubAckReason_TopicFilterInvalid = utf8 ''TopicFilterInvalid''"
| "sub_ack_reason_debug SubAckReason_PacketIdentifierInUse = utf8 ''PacketIdentifierInUse''"
| "sub_ack_reason_debug SubAckReason_QuotaExceeded = utf8 ''QuotaExceeded''"
| "sub_ack_reason_debug SubAckReason_SharedSubscriptionsNotSupported = utf8 ''SharedSubscriptionsNotSupported''"
| "sub_ack_reason_debug SubAckReason_SubscriptionIdentifiersNotSupported = utf8 ''SubscriptionIdentifiersNotSupported''"
| "sub_ack_reason_debug SubAckReason_WildcardSubscriptionsNotSupported = utf8 ''WildcardSubscriptionsNotSupported''"

primrec sub_ack_reason_of :: "subscribe_reason_code \<Rightarrow> sub_ack_reason" where
  "sub_ack_reason_of GrantedQoS0 = SubAckReason_GrantedQoS0"
| "sub_ack_reason_of GrantedQoS1 = SubAckReason_GrantedQoS1"
| "sub_ack_reason_of GrantedQoS2 = SubAckReason_GrantedQoS2"
| "sub_ack_reason_of SubUnspecifiedError = SubAckReason_UnspecifiedError"
| "sub_ack_reason_of SubImplementationSpecificError = SubAckReason_ImplementationSpecificError"
| "sub_ack_reason_of SubNotAuthorized = SubAckReason_NotAuthorized"
| "sub_ack_reason_of SubTopicFilterInvalid = SubAckReason_TopicFilterInvalid"
| "sub_ack_reason_of SubPacketIdentifierInUse = SubAckReason_PacketIdentifierInUse"
| "sub_ack_reason_of SubQuotaExceeded = SubAckReason_QuotaExceeded"
| "sub_ack_reason_of SubSharedSubscriptionsNotSupported = SubAckReason_SharedSubscriptionsNotSupported"
| "sub_ack_reason_of SubSubscriptionIdentifiersNotSupported = SubAckReason_SubscriptionIdentifiersNotSupported"
| "sub_ack_reason_of SubWildcardSubscriptionsNotSupported = SubAckReason_WildcardSubscriptionsNotSupported"

primrec sub_ack_reason_into :: "sub_ack_reason \<Rightarrow> subscribe_reason_code" where
  "sub_ack_reason_into SubAckReason_GrantedQoS0 = GrantedQoS0"
| "sub_ack_reason_into SubAckReason_GrantedQoS1 = GrantedQoS1"
| "sub_ack_reason_into SubAckReason_GrantedQoS2 = GrantedQoS2"
| "sub_ack_reason_into SubAckReason_UnspecifiedError = SubUnspecifiedError"
| "sub_ack_reason_into SubAckReason_ImplementationSpecificError = SubImplementationSpecificError"
| "sub_ack_reason_into SubAckReason_NotAuthorized = SubNotAuthorized"
| "sub_ack_reason_into SubAckReason_TopicFilterInvalid = SubTopicFilterInvalid"
| "sub_ack_reason_into SubAckReason_PacketIdentifierInUse = SubPacketIdentifierInUse"
| "sub_ack_reason_into SubAckReason_QuotaExceeded = SubQuotaExceeded"
| "sub_ack_reason_into SubAckReason_SharedSubscriptionsNotSupported = SubSharedSubscriptionsNotSupported"
| "sub_ack_reason_into SubAckReason_SubscriptionIdentifiersNotSupported = SubSubscriptionIdentifiersNotSupported"
| "sub_ack_reason_into SubAckReason_WildcardSubscriptionsNotSupported = SubWildcardSubscriptionsNotSupported"

datatype (plugins only: code size) unsub_ack_reason =
    UnsubAckReason_Success | UnsubAckReason_NoSubscriptionExisted
    | UnsubAckReason_UnspecifiedError | UnsubAckReason_ImplementationSpecificError
    | UnsubAckReason_NotAuthorized | UnsubAckReason_TopicFilterInvalid
    | UnsubAckReason_PacketIdentifierInUse

primrec unsub_ack_reason_value :: "unsub_ack_reason \<Rightarrow> u8" where
  "unsub_ack_reason_value UnsubAckReason_Success = 0x00"
| "unsub_ack_reason_value UnsubAckReason_NoSubscriptionExisted = 0x11"
| "unsub_ack_reason_value UnsubAckReason_UnspecifiedError = 0x80"
| "unsub_ack_reason_value UnsubAckReason_ImplementationSpecificError = 0x83"
| "unsub_ack_reason_value UnsubAckReason_NotAuthorized = 0x87"
| "unsub_ack_reason_value UnsubAckReason_TopicFilterInvalid = 0x8F"
| "unsub_ack_reason_value UnsubAckReason_PacketIdentifierInUse = 0x91"

primrec unsub_ack_reason_debug :: "unsub_ack_reason \<Rightarrow> bytes" where
  "unsub_ack_reason_debug UnsubAckReason_Success = utf8 ''Success''"
| "unsub_ack_reason_debug UnsubAckReason_NoSubscriptionExisted = utf8 ''NoSubscriptionExisted''"
| "unsub_ack_reason_debug UnsubAckReason_UnspecifiedError = utf8 ''UnspecifiedError''"
| "unsub_ack_reason_debug UnsubAckReason_ImplementationSpecificError = utf8 ''ImplementationSpecificError''"
| "unsub_ack_reason_debug UnsubAckReason_NotAuthorized = utf8 ''NotAuthorized''"
| "unsub_ack_reason_debug UnsubAckReason_TopicFilterInvalid = utf8 ''TopicFilterInvalid''"
| "unsub_ack_reason_debug UnsubAckReason_PacketIdentifierInUse = utf8 ''PacketIdentifierInUse''"

primrec unsub_ack_reason_of :: "unsub_ack_reason_code \<Rightarrow> unsub_ack_reason" where
  "unsub_ack_reason_of UnsubSuccess = UnsubAckReason_Success"
| "unsub_ack_reason_of UnsubNoSubscriptionExisted = UnsubAckReason_NoSubscriptionExisted"
| "unsub_ack_reason_of UnsubUnspecifiedError = UnsubAckReason_UnspecifiedError"
| "unsub_ack_reason_of UnsubImplementationSpecificError = UnsubAckReason_ImplementationSpecificError"
| "unsub_ack_reason_of UnsubNotAuthorized = UnsubAckReason_NotAuthorized"
| "unsub_ack_reason_of UnsubTopicFilterInvalid = UnsubAckReason_TopicFilterInvalid"
| "unsub_ack_reason_of UnsubPacketIdentifierInUse = UnsubAckReason_PacketIdentifierInUse"

primrec unsub_ack_reason_into :: "unsub_ack_reason \<Rightarrow> unsub_ack_reason_code" where
  "unsub_ack_reason_into UnsubAckReason_Success = UnsubSuccess"
| "unsub_ack_reason_into UnsubAckReason_NoSubscriptionExisted = UnsubNoSubscriptionExisted"
| "unsub_ack_reason_into UnsubAckReason_UnspecifiedError = UnsubUnspecifiedError"
| "unsub_ack_reason_into UnsubAckReason_ImplementationSpecificError = UnsubImplementationSpecificError"
| "unsub_ack_reason_into UnsubAckReason_NotAuthorized = UnsubNotAuthorized"
| "unsub_ack_reason_into UnsubAckReason_TopicFilterInvalid = UnsubTopicFilterInvalid"
| "unsub_ack_reason_into UnsubAckReason_PacketIdentifierInUse = UnsubPacketIdentifierInUse"

datatype (plugins only: code size) disconnect_reason =
    DisconnectReason_NormalDisconnection | DisconnectReason_DisconnectWithWillMessage
    | DisconnectReason_UnspecifiedError | DisconnectReason_MalformedPacket
    | DisconnectReason_ProtocolError | DisconnectReason_ImplementationSpecificError
    | DisconnectReason_NotAuthorized | DisconnectReason_ServerBusy
    | DisconnectReason_ServerShuttingDown | DisconnectReason_KeepAliveTimeout
    | DisconnectReason_SessionTakenOver | DisconnectReason_TopicFilterInvalid
    | DisconnectReason_TopicNameInvalid | DisconnectReason_ReceiveMaximumExceeded
    | DisconnectReason_TopicAliasInvalid | DisconnectReason_PacketTooLarge
    | DisconnectReason_MessageRateTooHigh | DisconnectReason_QuotaExceeded
    | DisconnectReason_AdministrativeAction | DisconnectReason_PayloadFormatInvalid
    | DisconnectReason_RetainNotSupported | DisconnectReason_QoSNotSupported
    | DisconnectReason_UseAnotherServer | DisconnectReason_ServerMoved
    | DisconnectReason_SharedSubscriptionsNotSupported | DisconnectReason_ConnectionRateExceeded
    | DisconnectReason_MaximumConnectTime | DisconnectReason_SubscriptionIdentifiersNotSupported
    | DisconnectReason_WildcardSubscriptionsNotSupported

primrec disconnect_reason_value :: "disconnect_reason \<Rightarrow> u8" where
  "disconnect_reason_value DisconnectReason_NormalDisconnection = 0x00"
| "disconnect_reason_value DisconnectReason_DisconnectWithWillMessage = 0x04"
| "disconnect_reason_value DisconnectReason_UnspecifiedError = 0x80"
| "disconnect_reason_value DisconnectReason_MalformedPacket = 0x81"
| "disconnect_reason_value DisconnectReason_ProtocolError = 0x82"
| "disconnect_reason_value DisconnectReason_ImplementationSpecificError = 0x83"
| "disconnect_reason_value DisconnectReason_NotAuthorized = 0x87"
| "disconnect_reason_value DisconnectReason_ServerBusy = 0x89"
| "disconnect_reason_value DisconnectReason_ServerShuttingDown = 0x8B"
| "disconnect_reason_value DisconnectReason_KeepAliveTimeout = 0x8D"
| "disconnect_reason_value DisconnectReason_SessionTakenOver = 0x8E"
| "disconnect_reason_value DisconnectReason_TopicFilterInvalid = 0x8F"
| "disconnect_reason_value DisconnectReason_TopicNameInvalid = 0x90"
| "disconnect_reason_value DisconnectReason_ReceiveMaximumExceeded = 0x93"
| "disconnect_reason_value DisconnectReason_TopicAliasInvalid = 0x94"
| "disconnect_reason_value DisconnectReason_PacketTooLarge = 0x95"
| "disconnect_reason_value DisconnectReason_MessageRateTooHigh = 0x96"
| "disconnect_reason_value DisconnectReason_QuotaExceeded = 0x97"
| "disconnect_reason_value DisconnectReason_AdministrativeAction = 0x98"
| "disconnect_reason_value DisconnectReason_PayloadFormatInvalid = 0x99"
| "disconnect_reason_value DisconnectReason_RetainNotSupported = 0x9A"
| "disconnect_reason_value DisconnectReason_QoSNotSupported = 0x9B"
| "disconnect_reason_value DisconnectReason_UseAnotherServer = 0x9C"
| "disconnect_reason_value DisconnectReason_ServerMoved = 0x9D"
| "disconnect_reason_value DisconnectReason_SharedSubscriptionsNotSupported = 0x9E"
| "disconnect_reason_value DisconnectReason_ConnectionRateExceeded = 0x9F"
| "disconnect_reason_value DisconnectReason_MaximumConnectTime = 0xA0"
| "disconnect_reason_value DisconnectReason_SubscriptionIdentifiersNotSupported = 0xA1"
| "disconnect_reason_value DisconnectReason_WildcardSubscriptionsNotSupported = 0xA2"

primrec disconnect_reason_of :: "disconnect_reason_code \<Rightarrow> disconnect_reason" where
  "disconnect_reason_of DisconnectNormal = DisconnectReason_NormalDisconnection"
| "disconnect_reason_of DisconnectWithWillMessage = DisconnectReason_DisconnectWithWillMessage"
| "disconnect_reason_of DisconnectUnspecifiedError = DisconnectReason_UnspecifiedError"
| "disconnect_reason_of DisconnectMalformedPacket = DisconnectReason_MalformedPacket"
| "disconnect_reason_of DisconnectProtocolError = DisconnectReason_ProtocolError"
| "disconnect_reason_of DisconnectImplementationSpecificError = DisconnectReason_ImplementationSpecificError"
| "disconnect_reason_of DisconnectNotAuthorized = DisconnectReason_NotAuthorized"
| "disconnect_reason_of DisconnectServerBusy = DisconnectReason_ServerBusy"
| "disconnect_reason_of ServerShuttingDown = DisconnectReason_ServerShuttingDown"
| "disconnect_reason_of KeepAliveTimeout = DisconnectReason_KeepAliveTimeout"
| "disconnect_reason_of SessionTakenOver = DisconnectReason_SessionTakenOver"
| "disconnect_reason_of DisconnectTopicFilterInvalid = DisconnectReason_TopicFilterInvalid"
| "disconnect_reason_of DisconnectTopicNameInvalid = DisconnectReason_TopicNameInvalid"
| "disconnect_reason_of ReceiveMaximumExceeded = DisconnectReason_ReceiveMaximumExceeded"
| "disconnect_reason_of TopicAliasInvalid = DisconnectReason_TopicAliasInvalid"
| "disconnect_reason_of DisconnectPacketTooLarge = DisconnectReason_PacketTooLarge"
| "disconnect_reason_of MessageRateTooHigh = DisconnectReason_MessageRateTooHigh"
| "disconnect_reason_of DisconnectQuotaExceeded = DisconnectReason_QuotaExceeded"
| "disconnect_reason_of AdministrativeAction = DisconnectReason_AdministrativeAction"
| "disconnect_reason_of DisconnectPayloadFormatInvalid = DisconnectReason_PayloadFormatInvalid"
| "disconnect_reason_of DisconnectRetainNotSupported = DisconnectReason_RetainNotSupported"
| "disconnect_reason_of QosNotSupported = DisconnectReason_QoSNotSupported"
| "disconnect_reason_of DisconnectUseAnotherServer = DisconnectReason_UseAnotherServer"
| "disconnect_reason_of DisconnectServerMoved = DisconnectReason_ServerMoved"
| "disconnect_reason_of DisconnectSharedSubscriptionsNotSupported = DisconnectReason_SharedSubscriptionsNotSupported"
| "disconnect_reason_of DisconnectConnectionRateExceeded = DisconnectReason_ConnectionRateExceeded"
| "disconnect_reason_of MaximumConnectTime = DisconnectReason_MaximumConnectTime"
| "disconnect_reason_of DisconnectSubscriptionIdentifiersNotSupported = DisconnectReason_SubscriptionIdentifiersNotSupported"
| "disconnect_reason_of DisconnectWildcardSubscriptionsNotSupported = DisconnectReason_WildcardSubscriptionsNotSupported"

primrec disconnect_reason_into :: "disconnect_reason \<Rightarrow> disconnect_reason_code" where
  "disconnect_reason_into DisconnectReason_NormalDisconnection = DisconnectNormal"
| "disconnect_reason_into DisconnectReason_DisconnectWithWillMessage = DisconnectWithWillMessage"
| "disconnect_reason_into DisconnectReason_UnspecifiedError = DisconnectUnspecifiedError"
| "disconnect_reason_into DisconnectReason_MalformedPacket = DisconnectMalformedPacket"
| "disconnect_reason_into DisconnectReason_ProtocolError = DisconnectProtocolError"
| "disconnect_reason_into DisconnectReason_ImplementationSpecificError = DisconnectImplementationSpecificError"
| "disconnect_reason_into DisconnectReason_NotAuthorized = DisconnectNotAuthorized"
| "disconnect_reason_into DisconnectReason_ServerBusy = DisconnectServerBusy"
| "disconnect_reason_into DisconnectReason_ServerShuttingDown = ServerShuttingDown"
| "disconnect_reason_into DisconnectReason_KeepAliveTimeout = KeepAliveTimeout"
| "disconnect_reason_into DisconnectReason_SessionTakenOver = SessionTakenOver"
| "disconnect_reason_into DisconnectReason_TopicFilterInvalid = DisconnectTopicFilterInvalid"
| "disconnect_reason_into DisconnectReason_TopicNameInvalid = DisconnectTopicNameInvalid"
| "disconnect_reason_into DisconnectReason_ReceiveMaximumExceeded = ReceiveMaximumExceeded"
| "disconnect_reason_into DisconnectReason_TopicAliasInvalid = TopicAliasInvalid"
| "disconnect_reason_into DisconnectReason_PacketTooLarge = DisconnectPacketTooLarge"
| "disconnect_reason_into DisconnectReason_MessageRateTooHigh = MessageRateTooHigh"
| "disconnect_reason_into DisconnectReason_QuotaExceeded = DisconnectQuotaExceeded"
| "disconnect_reason_into DisconnectReason_AdministrativeAction = AdministrativeAction"
| "disconnect_reason_into DisconnectReason_PayloadFormatInvalid = DisconnectPayloadFormatInvalid"
| "disconnect_reason_into DisconnectReason_RetainNotSupported = DisconnectRetainNotSupported"
| "disconnect_reason_into DisconnectReason_QoSNotSupported = QosNotSupported"
| "disconnect_reason_into DisconnectReason_UseAnotherServer = DisconnectUseAnotherServer"
| "disconnect_reason_into DisconnectReason_ServerMoved = DisconnectServerMoved"
| "disconnect_reason_into DisconnectReason_SharedSubscriptionsNotSupported = DisconnectSharedSubscriptionsNotSupported"
| "disconnect_reason_into DisconnectReason_ConnectionRateExceeded = DisconnectConnectionRateExceeded"
| "disconnect_reason_into DisconnectReason_MaximumConnectTime = MaximumConnectTime"
| "disconnect_reason_into DisconnectReason_SubscriptionIdentifiersNotSupported = DisconnectSubscriptionIdentifiersNotSupported"
| "disconnect_reason_into DisconnectReason_WildcardSubscriptionsNotSupported = DisconnectWildcardSubscriptionsNotSupported"

datatype (plugins only: code size) auth_reason =
    AuthReason_Success | AuthReason_ContinueAuthentication | AuthReason_Reauthenticate

primrec auth_reason_value :: "auth_reason \<Rightarrow> u8" where
  "auth_reason_value AuthReason_Success = 0x00"
| "auth_reason_value AuthReason_ContinueAuthentication = 0x18"
| "auth_reason_value AuthReason_Reauthenticate = 0x19"

primrec auth_reason_of :: "authenticate_reason_code \<Rightarrow> auth_reason" where
  "auth_reason_of AuthSuccess = AuthReason_Success"
| "auth_reason_of ContinueAuthentication = AuthReason_ContinueAuthentication"
| "auth_reason_of ReAuthenticate = AuthReason_Reauthenticate"

primrec auth_reason_into :: "auth_reason \<Rightarrow> authenticate_reason_code" where
  "auth_reason_into AuthReason_Success = AuthSuccess"
| "auth_reason_into AuthReason_ContinueAuthentication = ContinueAuthentication"
| "auth_reason_into AuthReason_Reauthenticate = ReAuthenticate"


section \<open>The two views of a reason code\<close>

text \<open>
  A public reason and a reason code of the wire name the same thing when the conversions are inverse
  to each other.
\<close>

locale reason_view = u8_code error_variant table
  for error_variant :: "u8 \<Rightarrow> decode_error" and table :: "('c \<times> u8) list" +
  fixes reason_of :: "'c \<Rightarrow> 'r" and reason_into :: "'r \<Rightarrow> 'c"
  assumes into_of: "reason_into (reason_of c) = c"
    and of_into: "reason_of (reason_into r) = r"
begin

lemma of_eq_iff: "reason_of c = r \<longleftrightarrow> c = reason_into r"
  using into_of of_into by auto

text \<open>Reading the byte of a public reason gives that reason.\<close>

lemma read_reason: "code_try_from error_variant table (code_to_u8 table (reason_into r)) = Inr (reason_into r)"
  by (rule try_from_to_u8)

end

text \<open>
  Then the discriminant of the public variant should be the byte on the wire.
\<close>

locale reason_byte = reason_view error_variant table reason_of reason_into
  for error_variant :: "u8 \<Rightarrow> decode_error" and table :: "('c \<times> u8) list"
    and reason_of :: "'c \<Rightarrow> 'r" and reason_into :: "'r \<Rightarrow> 'c" +
  fixes reason_value :: "'r \<Rightarrow> u8"
  assumes table_values: "list_all (\<lambda>(c, n). reason_value (reason_of c) = n) table"
begin

lemma of_byte: "reason_value (reason_of c) = code_to_u8 table c"
proof -
  obtain n where "map_of table c = Some n" using total [of c] by (metis map_of_eq_None_iff not_None_eq)
  with table_values show ?thesis by (auto simp: list_all_iff code_to_u8_def dest: map_of_SomeD)
qed

lemma into_byte: "code_to_u8 table (reason_into r) = reason_value r"
  using of_byte [of "reason_into r"] of_into by simp

lemma value_inj: "reason_value r = reason_value r' \<Longrightarrow> r = r'"
  using into_byte read_reason by (metis of_into sum.inject(2))

end

interpretation pub_ack_reason: reason_byte UnrecognizedPubAckReasonCode pub_ack_table
  pub_ack_reason_of pub_ack_reason_into pub_ack_reason_value
proof
  fix c show "pub_ack_reason_into (pub_ack_reason_of c) = c" by (cases c) simp_all
next
  fix r show "pub_ack_reason_of (pub_ack_reason_into r) = r" by (cases r) simp_all
qed (simp add: pub_ack_table_def)

interpretation pub_rec_reason: reason_byte UnrecognizedPubRecReasonCode pub_rec_table
  pub_rec_reason_of pub_rec_reason_into pub_rec_reason_value
proof
  fix c show "pub_rec_reason_into (pub_rec_reason_of c) = c" by (cases c) simp_all
next
  fix r show "pub_rec_reason_of (pub_rec_reason_into r) = r" by (cases r) simp_all
qed (simp add: pub_rec_table_def)

interpretation pub_rel_reason: reason_byte UnrecognizedPubRelReasonCode pub_rel_table
  pub_rel_reason_of pub_rel_reason_into pub_rel_reason_value
proof
  fix c show "pub_rel_reason_into (pub_rel_reason_of c) = c" by (cases c) simp_all
next
  fix r show "pub_rel_reason_of (pub_rel_reason_into r) = r" by (cases r) simp_all
qed (simp add: pub_rel_table_def)

interpretation pub_comp_reason: reason_byte UnrecognizedPubCompReasonCode pub_comp_table
  pub_comp_reason_of pub_comp_reason_into pub_comp_reason_value
proof
  fix c show "pub_comp_reason_into (pub_comp_reason_of c) = c" by (cases c) simp_all
next
  fix r show "pub_comp_reason_of (pub_comp_reason_into r) = r" by (cases r) simp_all
qed (simp add: pub_comp_table_def)

interpretation sub_ack_reason: reason_view UnrecognizedSubscribeReasonCode subscribe_table
  sub_ack_reason_of sub_ack_reason_into
proof
  fix c show "sub_ack_reason_into (sub_ack_reason_of c) = c" by (cases c) simp_all
next
  fix r show "sub_ack_reason_of (sub_ack_reason_into r) = r" by (cases r) simp_all
qed

interpretation unsub_ack_reason: reason_byte UnrecognizedUnsubAckReasonCode unsub_ack_table
  unsub_ack_reason_of unsub_ack_reason_into unsub_ack_reason_value
proof
  fix c show "unsub_ack_reason_into (unsub_ack_reason_of c) = c" by (cases c) simp_all
next
  fix r show "unsub_ack_reason_of (unsub_ack_reason_into r) = r" by (cases r) simp_all
qed (simp add: unsub_ack_table_def)

interpretation disconnect_reason: reason_byte UnrecognizedDisconnectReasonCode disconnect_table
  disconnect_reason_of disconnect_reason_into disconnect_reason_value
proof
  fix c show "disconnect_reason_into (disconnect_reason_of c) = c" by (cases c) simp_all
next
  fix r show "disconnect_reason_of (disconnect_reason_into r) = r" by (cases r) simp_all
qed (simp add: disconnect_table_def)

interpretation auth_reason: reason_byte UnrecognizedAuthenticateReasonCode authenticate_table
  auth_reason_of auth_reason_into auth_reason_value
proof
  fix c show "auth_reason_into (auth_reason_of c) = c" by (cases c) simp_all
next
  fix r show "auth_reason_of (auth_reason_into r) = r" by (cases r) simp_all
qed (simp add: authenticate_table_def)

end
