(* ===== verification/Api_Packets.thy ===== *)
theory Api_Packets
  imports Api_Reasons Packet_Codec
begin

text \<open>
  The packets and properties of the public API (src/src/packet.rs) and their conversions. Towards the
  wire a \<open>String\<close> becomes a \<open>ByteStr\<close> and \<open>Bytes\<close> become \<open>BinaryData\<close>, both with a sixteen bit length:
  the conversion panics when the length does not fit, which is \<open>None\<close> here. From the wire every
  conversion is total. A \<open>String\<close> is the list of its bytes.
\<close>

section \<open>Conversions that may panic\<close>

text \<open>
  A conversion towards the wire, the one back, and the values for which the first does not panic.
\<close>

locale conversion =
  fixes conv_into :: "'a \<Rightarrow> 'b option" and conv_of :: "'b \<Rightarrow> 'a" and fits :: "'a \<Rightarrow> bool"
  assumes into_back: "conv_into x = Some y \<Longrightarrow> conv_of y = x"
    and defined: "conv_into x \<noteq> None \<longleftrightarrow> fits x"
begin

lemma into_obtains:
  assumes "fits x"
  obtains y where "conv_into x = Some y" and "conv_of y = x"
  using assms defined into_back by blast

lemma none_iff: "conv_into x = None \<longleftrightarrow> \<not> fits x"
  using defined by blast

lemma some_fits: "conv_into x = Some y \<Longrightarrow> fits x"
  using defined by blast

lemma into_inj: "conv_into x = Some y \<Longrightarrow> conv_into x' = Some y \<Longrightarrow> x = x'"
  using into_back by metis

end

definition poll_option :: "'a poll \<Rightarrow> 'a option" where
  "poll_option p = (case p of Ready x \<Rightarrow> Some x | _ \<Rightarrow> None)"

definition str_into :: "bytes \<Rightarrow> byte_str option" where
  "str_into s = poll_option (str_from s)"

definition binary_into :: "bytes \<Rightarrow> binary_data option" where
  "binary_into s = poll_option (binary_from s)"

primrec topic_into :: "bytes topic \<Rightarrow> byte_str topic option" where
  "topic_into (Topic s) = map_option Topic (str_into s)"

definition topic_of :: "byte_str topic \<Rightarrow> bytes topic" where
  "topic_of t = Topic (str_as_ref (topic_inner t))"

text \<open>\<open>Option::map\<close> and \<open>Iterator::map\<close> of a conversion that may panic.\<close>

primrec opt_into :: "('a \<Rightarrow> 'b option) \<Rightarrow> 'a option \<Rightarrow> 'b option option" where
  "opt_into f None = Some None"
| "opt_into f (Some x) = map_option Some (f x)"

fun list_into :: "('a \<Rightarrow> 'b option) \<Rightarrow> 'a list \<Rightarrow> 'b list option" where
  "list_into f [] = Some []"
| "list_into f (x # xs) =
     Option.bind (f x) (\<lambda>y. Option.bind (list_into f xs) (\<lambda>ys. Some (y # ys)))"

definition pair_into :: "bytes \<times> bytes \<Rightarrow> (byte_str \<times> byte_str) option" where
  "pair_into kv = Option.bind (str_into (fst kv)) (\<lambda>k. Option.bind (str_into (snd kv)) (\<lambda>v. Some (k, v)))"

definition pair_of :: "byte_str \<times> byte_str \<Rightarrow> bytes \<times> bytes" where
  "pair_of kv = (str_as_ref (fst kv), str_as_ref (snd kv))"

abbreviation short :: "bytes \<Rightarrow> bool" where
  "short s \<equiv> length s \<le> 65535"

abbreviation short_pair :: "bytes \<times> bytes \<Rightarrow> bool" where
  "short_pair kv \<equiv> short (fst kv) \<and> short (snd kv)"

abbreviation map_user_properties_to_bytestr :: "(bytes \<times> bytes) list \<Rightarrow> user_properties option" where
  "map_user_properties_to_bytestr \<equiv> list_into pair_into"

lemma binary_into_as_bytes: "binary_into s = Some b \<Longrightarrow> binary_as_bytes b = s"
  by (auto simp: binary_into_def poll_option_def binary_from_def binary_as_bytes_def be16_def split: if_splits)

interpretation binary: conversion binary_into binary_as_bytes short
  by unfold_locales (auto simp: binary_into_as_bytes binary_into_def poll_option_def binary_from_def)

interpretation str: conversion str_into str_as_ref short
proof
  fix s b assume "str_into s = Some b"
  then obtain d where "binary_into s = Some d" "b = ByteStr d"
    by (auto simp: str_into_def binary_into_def poll_option_def str_from_def binary_from_def split: if_splits)
  then show "str_as_ref b = s" using binary.into_back by (simp add: str_as_ref_def)
qed (auto simp: str_into_def poll_option_def str_from_def binary_from_def)

interpretation topic: conversion topic_into topic_of "\<lambda>t. short (topic_inner t)"
proof
  fix t b assume "topic_into t = Some b"
  then show "topic_of b = t" by (cases t) (auto simp: topic_of_def str.into_back)
next
  fix t show "topic_into t \<noteq> None \<longleftrightarrow> short (topic_inner t)" using str.defined by (cases t) simp
qed

interpretation pair: conversion pair_into pair_of short_pair
proof
  fix kv kv' assume "pair_into kv = Some kv'"
  then show "pair_of kv' = kv" by (cases kv) (auto simp: pair_into_def pair_of_def str.into_back split: Option.bind_splits)
next
  fix kv show "pair_into kv \<noteq> None \<longleftrightarrow> short_pair kv"
    using str.defined [of "fst kv"] str.defined [of "snd kv"] by (auto simp: pair_into_def split: Option.bind_splits)
qed

text \<open>The conversion of an optional value and of a list.\<close>

lemma conversion_opt:
  assumes "conversion f g ok"
  shows "conversion (opt_into f) (map_option g) (pred_option ok)"
proof
  fix x y assume "opt_into f x = Some y"
  then show "map_option g y = x" using conversion.into_back [OF assms] by (cases x) auto
next
  fix x show "opt_into f x \<noteq> None \<longleftrightarrow> pred_option ok x" using conversion.defined [OF assms] by (cases x) auto
qed

lemma conversion_list:
  assumes "conversion f g ok"
  shows "conversion (list_into f) (map g) (list_all ok)"
proof
  fix xs ys assume "list_into f xs = Some ys"
  then show "map g ys = xs"
    using conversion.into_back [OF assms] by (induction xs arbitrary: ys) (auto split: Option.bind_splits)
next
  fix xs show "list_into f xs \<noteq> None \<longleftrightarrow> list_all ok xs"
    using conversion.defined [OF assms] by (induction xs) (force split: Option.bind_splits)+
qed

interpretation opt_str: conversion "opt_into str_into" "map_option str_as_ref" "pred_option short"
  by (rule conversion_opt [OF str.conversion_axioms])

interpretation opt_binary: conversion "opt_into binary_into" "map_option binary_as_bytes" "pred_option short"
  by (rule conversion_opt [OF binary.conversion_axioms])

interpretation opt_topic: conversion "opt_into topic_into" "map_option topic_of" "pred_option (\<lambda>t. short (topic_inner t))"
  by (rule conversion_opt [OF topic.conversion_axioms])

interpretation user_props: conversion map_user_properties_to_bytestr "map pair_of" "list_all short_pair"
  by (rule conversion_list [OF pair.conversion_axioms])

lemmas backs = opt_str.into_back opt_binary.into_back opt_topic.into_back user_props.into_back str.into_back binary.into_back topic.into_back

lemmas nones = opt_str.none_iff opt_binary.none_iff opt_topic.none_iff user_props.none_iff str.none_iff
  binary.none_iff topic.none_iff

lemmas somes = opt_str.some_fits opt_binary.some_fits opt_topic.some_fits user_props.some_fits str.some_fits
  binary.some_fits topic.some_fits

section \<open>Properties\<close>

record connect_properties_api =
  cp_session_expiry_interval :: session_expiry_interval
  cp_receive_maximum :: u16
  cp_maximum_packet_size :: u32
  cp_topic_alias_maximum :: u16
  cp_request_response_information :: bool
  cp_request_problem_information :: bool
  cp_user_properties :: "(bytes \<times> bytes) list"

definition connect_properties_default :: connect_properties_api where
  "connect_properties_default =
     \<lparr>cp_session_expiry_interval = ExpiryDuration 0, cp_receive_maximum = - 1, cp_maximum_packet_size = - 1,
      cp_topic_alias_maximum = 0, cp_request_response_information = False,
      cp_request_problem_information = True, cp_user_properties = []\<rparr>"

definition connect_properties_from :: "connect_other_properties \<Rightarrow> connect_properties_api" where
  "connect_properties_from value =
     \<lparr>cp_session_expiry_interval = connect_session_expiry_interval value,
      cp_receive_maximum = connect_receive_maximum value,
      cp_maximum_packet_size = connect_maximum_packet_size value,
      cp_topic_alias_maximum = connect_topic_alias_maximum value,
      cp_request_response_information = connect_request_response_information value,
      cp_request_problem_information = connect_request_problem_information value,
      cp_user_properties = map pair_of (connect_user_properties value)\<rparr>"

definition connect_properties_into :: "connect_properties_api \<Rightarrow> connect_other_properties option" where
  "connect_properties_into cp =
     Option.bind (map_user_properties_to_bytestr (cp_user_properties cp)) (\<lambda>user_properties.
       Some \<lparr>connect_session_expiry_interval = cp_session_expiry_interval cp,
             connect_receive_maximum = cp_receive_maximum cp,
             connect_maximum_packet_size = cp_maximum_packet_size cp,
             connect_topic_alias_maximum = cp_topic_alias_maximum cp,
             connect_request_response_information = cp_request_response_information cp,
             connect_request_problem_information = cp_request_problem_information cp,
             connect_user_properties = user_properties, connect_authentication = None\<rparr>)"

interpretation connect_props: conversion connect_properties_into connect_properties_from
  "\<lambda>cp. list_all short_pair (cp_user_properties cp)"
  by unfold_locales (auto simp: connect_properties_into_def connect_properties_from_def backs nones
      split: Option.bind_splits dest: somes)

datatype payload_format_indicator = Unspecified | UTF8

datatype api_qos = QoS_AtMostOnce | QoS_AtLeastOnce | QoS_ExactlyOnce

primrec qos_of :: "qos \<Rightarrow> api_qos" where
  "qos_of AtMostOnce = QoS_AtMostOnce"
| "qos_of AtLeastOnce = QoS_AtLeastOnce"
| "qos_of ExactlyOnce = QoS_ExactlyOnce"

primrec qos_into :: "api_qos \<Rightarrow> qos" where
  "qos_into QoS_AtMostOnce = AtMostOnce"
| "qos_into QoS_AtLeastOnce = AtLeastOnce"
| "qos_into QoS_ExactlyOnce = ExactlyOnce"

lemma qos_inverse [simp]: "qos_of (qos_into q) = q" "qos_into (qos_of c) = c"
  by (cases q, simp_all) (cases c, simp_all)

record publish_properties_api =
  pp_payload_format_indicator :: payload_format_indicator
  pp_message_expiry_interval :: "u32 option"
  pp_topic_alias :: "u16 option"
  pp_response_topic :: "bytes topic option"
  pp_correlation_data :: "bytes option"
  pp_user_properties :: "(bytes \<times> bytes) list"
  pp_subscription_identifiers :: "u32 list"
  pp_content_type :: "bytes option"

definition publish_properties_default :: publish_properties_api where
  "publish_properties_default =
     \<lparr>pp_payload_format_indicator = Unspecified, pp_message_expiry_interval = None, pp_topic_alias = None,
      pp_response_topic = None, pp_correlation_data = None, pp_user_properties = [],
      pp_subscription_identifiers = [], pp_content_type = None\<rparr>"

definition publish_properties_of :: "publish_other_properties \<Rightarrow> publish_properties_api" where
  "publish_properties_of value =
     \<lparr>pp_payload_format_indicator = (if publish_payload_is_utf8 value then UTF8 else Unspecified),
      pp_message_expiry_interval = publish_message_expiry_interval value,
      pp_topic_alias = publish_topic_alias value,
      pp_response_topic = map_option topic_of (publish_response_topic value),
      pp_correlation_data = map_option binary_as_bytes (publish_correlation_data value),
      pp_user_properties = map pair_of (publish_user_properties value),
      pp_subscription_identifiers = publish_subscription_identifiers value,
      pp_content_type = map_option str_as_ref (publish_content_type value)\<rparr>"

definition publish_properties_into :: "publish_properties_api \<Rightarrow> publish_other_properties option" where
  "publish_properties_into pp =
     Option.bind (opt_into topic_into (pp_response_topic pp)) (\<lambda>response_topic.
     Option.bind (opt_into binary_into (pp_correlation_data pp)) (\<lambda>correlation_data.
     Option.bind (map_user_properties_to_bytestr (pp_user_properties pp)) (\<lambda>user_properties.
     Option.bind (opt_into str_into (pp_content_type pp)) (\<lambda>content_type.
       Some \<lparr>publish_payload_is_utf8 = (pp_payload_format_indicator pp = UTF8),
             publish_message_expiry_interval = pp_message_expiry_interval pp,
             publish_topic_alias = pp_topic_alias pp,
             publish_response_topic = response_topic,
             publish_correlation_data = correlation_data,
             publish_user_properties = user_properties,
             publish_subscription_identifiers = pp_subscription_identifiers pp,
             publish_content_type = content_type\<rparr>))))"

definition publish_properties_fit :: "publish_properties_api \<Rightarrow> bool" where
  "publish_properties_fit pp \<longleftrightarrow>
     pred_option (\<lambda>t. short (topic_inner t)) (pp_response_topic pp) \<and> pred_option short (pp_correlation_data pp) \<and>
     list_all short_pair (pp_user_properties pp) \<and> pred_option short (pp_content_type pp)"

lemma not_utf8: "f \<noteq> UTF8 \<longleftrightarrow> f = Unspecified"
  by (cases f) simp_all

interpretation publish_props: conversion publish_properties_into publish_properties_of publish_properties_fit
  by unfold_locales (auto simp: publish_properties_into_def publish_properties_of_def publish_properties_fit_def
      backs nones not_utf8 split: Option.bind_splits dest: somes intro: publish_properties_api.equality)


record puback_properties =
  pap_reason_string :: "bytes option"
  pap_user_properties :: "(bytes \<times> bytes) list"

definition puback_properties_of :: "ack_other_properties \<Rightarrow> puback_properties" where
  "puback_properties_of value =
     \<lparr>pap_reason_string = map_option str_as_ref (ack_reason_string value),
      pap_user_properties = map pair_of (ack_user_properties value)\<rparr>"

definition puback_properties_into :: "puback_properties \<Rightarrow> ack_other_properties option" where
  "puback_properties_into props =
     Option.bind (opt_into str_into (pap_reason_string props)) (\<lambda>reason_string.
     Option.bind (map_user_properties_to_bytestr (pap_user_properties props)) (\<lambda>user_properties.
       Some \<lparr>ack_reason_string = reason_string, ack_user_properties = user_properties\<rparr>))"

interpretation puback_props: conversion puback_properties_into puback_properties_of
  "\<lambda>props. pred_option short (pap_reason_string props) \<and> list_all short_pair (pap_user_properties props)"
  by unfold_locales (auto simp: puback_properties_into_def puback_properties_of_def backs nones
      split: Option.bind_splits dest: somes)


record pubrec_properties =
  prc_reason_string :: "bytes option"
  prc_user_properties :: "(bytes \<times> bytes) list"

definition pubrec_properties_of :: "ack_other_properties \<Rightarrow> pubrec_properties" where
  "pubrec_properties_of value =
     \<lparr>prc_reason_string = map_option str_as_ref (ack_reason_string value),
      prc_user_properties = map pair_of (ack_user_properties value)\<rparr>"

definition pubrec_properties_into :: "pubrec_properties \<Rightarrow> ack_other_properties option" where
  "pubrec_properties_into props =
     Option.bind (opt_into str_into (prc_reason_string props)) (\<lambda>reason_string.
     Option.bind (map_user_properties_to_bytestr (prc_user_properties props)) (\<lambda>user_properties.
       Some \<lparr>ack_reason_string = reason_string, ack_user_properties = user_properties\<rparr>))"

interpretation pubrec_props: conversion pubrec_properties_into pubrec_properties_of
  "\<lambda>props. pred_option short (prc_reason_string props) \<and> list_all short_pair (prc_user_properties props)"
  by unfold_locales (auto simp: pubrec_properties_into_def pubrec_properties_of_def backs nones
      split: Option.bind_splits dest: somes)


record pubrel_properties =
  prl_reason_string :: "bytes option"
  prl_user_properties :: "(bytes \<times> bytes) list"

definition pubrel_properties_of :: "ack_other_properties \<Rightarrow> pubrel_properties" where
  "pubrel_properties_of value =
     \<lparr>prl_reason_string = map_option str_as_ref (ack_reason_string value),
      prl_user_properties = map pair_of (ack_user_properties value)\<rparr>"

definition pubrel_properties_into :: "pubrel_properties \<Rightarrow> ack_other_properties option" where
  "pubrel_properties_into props =
     Option.bind (opt_into str_into (prl_reason_string props)) (\<lambda>reason_string.
     Option.bind (map_user_properties_to_bytestr (prl_user_properties props)) (\<lambda>user_properties.
       Some \<lparr>ack_reason_string = reason_string, ack_user_properties = user_properties\<rparr>))"

interpretation pubrel_props: conversion pubrel_properties_into pubrel_properties_of
  "\<lambda>props. pred_option short (prl_reason_string props) \<and> list_all short_pair (prl_user_properties props)"
  by unfold_locales (auto simp: pubrel_properties_into_def pubrel_properties_of_def backs nones
      split: Option.bind_splits dest: somes)


record pubcomp_properties =
  pcp_reason_string :: "bytes option"
  pcp_user_properties :: "(bytes \<times> bytes) list"

definition pubcomp_properties_of :: "ack_other_properties \<Rightarrow> pubcomp_properties" where
  "pubcomp_properties_of value =
     \<lparr>pcp_reason_string = map_option str_as_ref (ack_reason_string value),
      pcp_user_properties = map pair_of (ack_user_properties value)\<rparr>"

definition pubcomp_properties_into :: "pubcomp_properties \<Rightarrow> ack_other_properties option" where
  "pubcomp_properties_into props =
     Option.bind (opt_into str_into (pcp_reason_string props)) (\<lambda>reason_string.
     Option.bind (map_user_properties_to_bytestr (pcp_user_properties props)) (\<lambda>user_properties.
       Some \<lparr>ack_reason_string = reason_string, ack_user_properties = user_properties\<rparr>))"

interpretation pubcomp_props: conversion pubcomp_properties_into pubcomp_properties_of
  "\<lambda>props. pred_option short (pcp_reason_string props) \<and> list_all short_pair (pcp_user_properties props)"
  by unfold_locales (auto simp: pubcomp_properties_into_def pubcomp_properties_of_def backs nones
      split: Option.bind_splits dest: somes)


record suback_properties =
  sap_reason_string :: "bytes option"
  sap_user_properties :: "(bytes \<times> bytes) list"

definition suback_properties_of :: "ack_other_properties \<Rightarrow> suback_properties" where
  "suback_properties_of value =
     \<lparr>sap_reason_string = map_option str_as_ref (ack_reason_string value),
      sap_user_properties = map pair_of (ack_user_properties value)\<rparr>"

definition suback_properties_into :: "suback_properties \<Rightarrow> ack_other_properties option" where
  "suback_properties_into props =
     Option.bind (opt_into str_into (sap_reason_string props)) (\<lambda>reason_string.
     Option.bind (map_user_properties_to_bytestr (sap_user_properties props)) (\<lambda>user_properties.
       Some \<lparr>ack_reason_string = reason_string, ack_user_properties = user_properties\<rparr>))"

interpretation suback_props: conversion suback_properties_into suback_properties_of
  "\<lambda>props. pred_option short (sap_reason_string props) \<and> list_all short_pair (sap_user_properties props)"
  by unfold_locales (auto simp: suback_properties_into_def suback_properties_of_def backs nones
      split: Option.bind_splits dest: somes)


record unsuback_properties =
  uap_reason_string :: "bytes option"
  uap_user_properties :: "(bytes \<times> bytes) list"

definition unsuback_properties_of :: "ack_other_properties \<Rightarrow> unsuback_properties" where
  "unsuback_properties_of value =
     \<lparr>uap_reason_string = map_option str_as_ref (ack_reason_string value),
      uap_user_properties = map pair_of (ack_user_properties value)\<rparr>"

definition unsuback_properties_into :: "unsuback_properties \<Rightarrow> ack_other_properties option" where
  "unsuback_properties_into props =
     Option.bind (opt_into str_into (uap_reason_string props)) (\<lambda>reason_string.
     Option.bind (map_user_properties_to_bytestr (uap_user_properties props)) (\<lambda>user_properties.
       Some \<lparr>ack_reason_string = reason_string, ack_user_properties = user_properties\<rparr>))"

interpretation unsuback_props: conversion unsuback_properties_into unsuback_properties_of
  "\<lambda>props. pred_option short (uap_reason_string props) \<and> list_all short_pair (uap_user_properties props)"
  by unfold_locales (auto simp: unsuback_properties_into_def unsuback_properties_of_def backs nones
      split: Option.bind_splits dest: somes)


record conn_ack_properties =
  cap_session_expiry_interval :: "session_expiry_interval option"
  cap_receive_maximum :: u16
  cap_maximum_qos :: api_qos
  cap_retain_available :: bool
  cap_maximum_packet_size :: u32
  cap_assigned_client_identifier :: "bytes option"
  cap_topic_alias_maximum :: u16
  cap_reason_string :: "bytes option"
  cap_user_properties :: "(bytes \<times> bytes) list"
  cap_wildcard_subscription_available :: bool
  cap_subscription_identifiers_available :: bool
  cap_shared_subscription_available :: bool
  cap_server_keep_alive :: "keep_alive option"
  cap_response_information :: "bytes option"
  cap_server_reference :: "bytes option"

definition conn_ack_properties_default :: conn_ack_properties where
  "conn_ack_properties_default =
     \<lparr>cap_session_expiry_interval = None, cap_receive_maximum = - 1, cap_maximum_qos = QoS_ExactlyOnce,
      cap_retain_available = True, cap_maximum_packet_size = - 1, cap_assigned_client_identifier = None,
      cap_topic_alias_maximum = 0, cap_reason_string = None, cap_user_properties = [],
      cap_wildcard_subscription_available = True, cap_subscription_identifiers_available = True,
      cap_shared_subscription_available = True, cap_server_keep_alive = None,
      cap_response_information = None, cap_server_reference = None\<rparr>"

definition conn_ack_properties_of :: "conn_ack_other_properties \<Rightarrow> conn_ack_properties" where
  "conn_ack_properties_of value =
     \<lparr>cap_session_expiry_interval = connack_session_expiry_interval value,
      cap_receive_maximum = connack_receive_maximum value,
      cap_maximum_qos = qos_of (connack_maximum_qos value),
      cap_retain_available = connack_retain_available value,
      cap_maximum_packet_size = connack_maximum_packet_size value,
      cap_assigned_client_identifier = map_option str_as_ref (connack_assigned_client_id value),
      cap_topic_alias_maximum = connack_topic_alias_maximum value,
      cap_reason_string = map_option str_as_ref (connack_reason_string value),
      cap_user_properties = map pair_of (connack_user_properties value),
      cap_wildcard_subscription_available = connack_wildcard_subscription_available value,
      cap_subscription_identifiers_available = connack_subscription_identifiers_available value,
      cap_shared_subscription_available = connack_shared_subscription_available value,
      cap_server_keep_alive = connack_server_keep_alive value,
      cap_response_information = map_option str_as_ref (connack_response_information value),
      cap_server_reference = map_option str_as_ref (connack_server_reference value)\<rparr>"

definition conn_ack_properties_into :: "conn_ack_properties \<Rightarrow> conn_ack_other_properties option" where
  "conn_ack_properties_into cap =
     Option.bind (opt_into str_into (cap_assigned_client_identifier cap)) (\<lambda>assigned_client_id.
     Option.bind (opt_into str_into (cap_reason_string cap)) (\<lambda>reason_string.
     Option.bind (map_user_properties_to_bytestr (cap_user_properties cap)) (\<lambda>user_properties.
     Option.bind (opt_into str_into (cap_response_information cap)) (\<lambda>response_information.
     Option.bind (opt_into str_into (cap_server_reference cap)) (\<lambda>server_reference.
       Some \<lparr>connack_session_expiry_interval = cap_session_expiry_interval cap,
             connack_receive_maximum = cap_receive_maximum cap,
             connack_maximum_qos = qos_into (cap_maximum_qos cap),
             connack_retain_available = cap_retain_available cap,
             connack_maximum_packet_size = cap_maximum_packet_size cap,
             connack_assigned_client_id = assigned_client_id,
             connack_topic_alias_maximum = cap_topic_alias_maximum cap,
             connack_reason_string = reason_string,
             connack_user_properties = user_properties,
             connack_wildcard_subscription_available = cap_wildcard_subscription_available cap,
             connack_shared_subscription_available = cap_shared_subscription_available cap,
             connack_subscription_identifiers_available = cap_subscription_identifiers_available cap,
             connack_server_keep_alive = cap_server_keep_alive cap,
             connack_response_information = response_information,
             connack_server_reference = server_reference,
             connack_authentication = None\<rparr>)))))"

interpretation conn_ack_props: conversion conn_ack_properties_into conn_ack_properties_of
  "\<lambda>cap. pred_option short (cap_assigned_client_identifier cap) \<and> pred_option short (cap_reason_string cap) \<and>
     list_all short_pair (cap_user_properties cap) \<and> pred_option short (cap_response_information cap) \<and>
     pred_option short (cap_server_reference cap)"
  by unfold_locales (auto simp: conn_ack_properties_into_def conn_ack_properties_of_def backs nones
      split: Option.bind_splits dest: somes)

record subscribe_properties =
  srp_subscription_identifier :: "u32 option"
  srp_user_properties :: "(bytes \<times> bytes) list"

definition subscribe_properties_of :: "subscribe_other_properties \<Rightarrow> subscribe_properties" where
  "subscribe_properties_of value =
     \<lparr>srp_subscription_identifier = subscription_identifier value,
      srp_user_properties = map pair_of (subscribe_user_properties value)\<rparr>"

definition subscribe_properties_into :: "subscribe_properties \<Rightarrow> subscribe_other_properties option" where
  "subscribe_properties_into srp =
     Option.bind (map_user_properties_to_bytestr (srp_user_properties srp)) (\<lambda>user_properties.
       Some \<lparr>subscription_identifier = srp_subscription_identifier srp, subscribe_user_properties = user_properties\<rparr>)"

interpretation subscribe_props: conversion subscribe_properties_into subscribe_properties_of
  "\<lambda>srp. list_all short_pair (srp_user_properties srp)"
  by unfold_locales (auto simp: subscribe_properties_into_def subscribe_properties_of_def backs nones
      split: Option.bind_splits dest: somes)

text \<open>The properties of UNSUBSCRIBE are its user properties.\<close>

definition unsubscribe_properties_of :: "user_properties \<Rightarrow> (bytes \<times> bytes) list" where
  "unsubscribe_properties_of value = map pair_of value"

definition unsubscribe_properties_into :: "(bytes \<times> bytes) list \<Rightarrow> user_properties option" where
  "unsubscribe_properties_into up = map_user_properties_to_bytestr up"

record disconnect_properties_api =
  dp_session_expiry_interval :: "session_expiry_interval option"
  dp_reason_string :: "bytes option"
  dp_user_properties :: "(bytes \<times> bytes) list"
  dp_server_reference :: "bytes option"

definition disconnect_properties_of :: "disconnect_other_properties \<Rightarrow> disconnect_properties_api" where
  "disconnect_properties_of value =
     \<lparr>dp_session_expiry_interval = disconnect_session_expiry_interval value,
      dp_reason_string = map_option str_as_ref (disconnect_reason_string value),
      dp_user_properties = map pair_of (disconnect_user_properties value),
      dp_server_reference = map_option str_as_ref (disconnect_server_reference value)\<rparr>"

definition disconnect_properties_into :: "disconnect_properties_api \<Rightarrow> disconnect_other_properties option" where
  "disconnect_properties_into dp =
     Option.bind (opt_into str_into (dp_reason_string dp)) (\<lambda>reason_string.
     Option.bind (map_user_properties_to_bytestr (dp_user_properties dp)) (\<lambda>user_properties.
     Option.bind (opt_into str_into (dp_server_reference dp)) (\<lambda>server_reference.
       Some \<lparr>disconnect_session_expiry_interval = dp_session_expiry_interval dp,
             disconnect_reason_string = reason_string,
             disconnect_user_properties = user_properties,
             disconnect_server_reference = server_reference\<rparr>)))"

interpretation disconnect_props: conversion disconnect_properties_into disconnect_properties_of
  "\<lambda>dp. pred_option short (dp_reason_string dp) \<and> list_all short_pair (dp_user_properties dp) \<and>
     pred_option short (dp_server_reference dp)"
  by unfold_locales (auto simp: disconnect_properties_into_def disconnect_properties_of_def backs nones
      split: Option.bind_splits dest: somes)

record auth_properties_api =
  ap_reason_string :: "bytes option"
  ap_user_properties :: "(bytes \<times> bytes) list"

end
