(* ===== verification/Api_Results.thy ===== *)
theory Api_Results
  imports Api_Packets
begin

text \<open>
  The packets of the public API (src/src/packet.rs) with their verdicts: \<open>is_success\<close> and \<open>as_result\<close>,
  whose error is the text that names the reasons for the failure.
\<close>

section \<open>Packets\<close>

record delivery_info =
  delivery_dup :: bool
  delivery_packet_identifier :: pkid

datatype delivery_qos =
    DeliveryAtMostOnce
  | DeliveryAtLeastOnce delivery_info
  | DeliveryExactlyOnce delivery_info

primrec delivery_qos_of :: "packet_identifier_dup_qos \<Rightarrow> delivery_qos" where
  "delivery_qos_of PdqAtMostOnce = DeliveryAtMostOnce"
| "delivery_qos_of (PdqAtLeastOnce packet_id dup) =
     DeliveryAtLeastOnce \<lparr>delivery_dup = dup, delivery_packet_identifier = packet_id\<rparr>"
| "delivery_qos_of (PdqExactlyOnce packet_id dup) =
     DeliveryExactlyOnce \<lparr>delivery_dup = dup, delivery_packet_identifier = packet_id\<rparr>"

primrec delivery_qos_into :: "delivery_qos \<Rightarrow> packet_identifier_dup_qos" where
  "delivery_qos_into DeliveryAtMostOnce = PdqAtMostOnce"
| "delivery_qos_into (DeliveryAtLeastOnce info) =
     PdqAtLeastOnce (delivery_packet_identifier info) (delivery_dup info)"
| "delivery_qos_into (DeliveryExactlyOnce info) =
     PdqExactlyOnce (delivery_packet_identifier info) (delivery_dup info)"

lemma delivery_qos_inverse [simp]:
  "delivery_qos_of (delivery_qos_into d) = d" "delivery_qos_into (delivery_qos_of p) = p"
  by (cases d, simp_all) (cases p, simp_all)

record authentication_info =
  ai_method :: bytes
  ai_data :: "bytes option"

definition authentication_info_of :: "authentication \<Rightarrow> authentication_info" where
  "authentication_info_of value =
     \<lparr>ai_method = str_as_ref (authentication_method value),
      ai_data = map_option binary_as_bytes (authentication_data value)\<rparr>"

definition authentication_info_into :: "authentication_info \<Rightarrow> authentication option" where
  "authentication_info_into ai =
     Option.bind (str_into (ai_method ai)) (\<lambda>method.
     Option.bind (opt_into binary_into (ai_data ai)) (\<lambda>data.
       Some \<lparr>authentication_method = method, authentication_data = data\<rparr>))"

interpretation auth_info: conversion authentication_info_into authentication_info_of
  "\<lambda>ai. short (ai_method ai) \<and> pred_option short (ai_data ai)"
  by unfold_locales (auto simp: authentication_info_into_def authentication_info_of_def backs nones
      split: Option.bind_splits dest: somes)

interpretation opt_auth_info: conversion "opt_into authentication_info_into" "map_option authentication_info_of"
  "pred_option (\<lambda>ai. short (ai_method ai) \<and> pred_option short (ai_data ai))"
  by (rule conversion_opt [OF auth_info.conversion_axioms])

record will_properties_api =
  wp_delay_interval :: u32
  wp_payload_format_indicator :: payload_format_indicator
  wp_message_expiry_interval :: "u32 option"
  wp_content_type :: "bytes option"
  wp_response_topic :: "bytes topic option"
  wp_correlation_data :: "bytes option"
  wp_user_properties :: "(bytes \<times> bytes) list"

definition will_properties_into :: "will_properties_api \<Rightarrow> publication_other_properties option" where
  "will_properties_into wp =
     Option.bind (opt_into topic_into (wp_response_topic wp)) (\<lambda>response_topic.
     Option.bind (opt_into binary_into (wp_correlation_data wp)) (\<lambda>correlation_data.
     Option.bind (map_user_properties_to_bytestr (wp_user_properties wp)) (\<lambda>user_properties.
     Option.bind (opt_into str_into (wp_content_type wp)) (\<lambda>content_type.
       Some \<lparr>publication_payload_is_utf8 = (wp_payload_format_indicator wp = UTF8),
             publication_message_expiry_interval = wp_message_expiry_interval wp,
             publication_response_topic = response_topic,
             publication_correlation_data = correlation_data,
             publication_user_properties = user_properties,
             publication_content_type = content_type\<rparr>))))"

record will =
  will_topic_name :: "bytes topic"
  will_qos :: api_qos
  will_retain :: bool
  will_payload :: bytes
  will_props :: will_properties_api

definition will_into :: "will \<Rightarrow> (publication \<times> u32) option" where
  "will_into w =
     Option.bind (topic_into (will_topic_name w)) (\<lambda>topic_name.
     Option.bind (will_properties_into (will_props w)) (\<lambda>other_properties.
       Some (\<lparr>publication_topic_name = topic_name, publication_qos = qos_into (will_qos w),
              publication_retain = will_retain w, publication_payload = will_payload w,
              publication_other_properties = other_properties\<rparr>, wp_delay_interval (will_props w))))"

record retain_options =
  ro_retain_as_published :: bool
  ro_retain_handling :: retain_handling

definition retain_options_default :: retain_options where
  "retain_options_default = \<lparr>ro_retain_as_published = True, ro_retain_handling = Send\<rparr>"

record publish_api =
  pub_payload :: bytes
  pub_qos :: delivery_qos
  pub_retain :: bool
  pub_topic_name :: "bytes topic"
  pub_properties :: publish_properties_api

definition publish_of :: "publish \<Rightarrow> publish_api" where
  "publish_of value =
     \<lparr>pub_payload = publish_payload value, pub_qos = delivery_qos_of (packet_identifier_dup_qos value),
      pub_retain = publish_retain value, pub_topic_name = topic_of (publish_topic_name value),
      pub_properties = publish_properties_of (publish_other_properties value)\<rparr>"

record conn_ack_api =
  ca_session_present :: bool
  ca_reason :: conn_ack_reason
  ca_properties :: conn_ack_properties

definition conn_ack_of :: "conn_ack \<Rightarrow> conn_ack_api" where
  "conn_ack_of value =
     (let (reason, present) =
        (case connack_reason_code value of
           ConnectSuccess present \<Rightarrow> (ConnAckReason_Success, present)
         | ConnectRefused reason \<Rightarrow> (conn_ack_reason_of reason, False))
      in \<lparr>ca_session_present = present, ca_reason = reason,
          ca_properties = conn_ack_properties_of (connack_other_properties value)\<rparr>)"


record pub_ack_api =
  pa_packet_identifier :: pkid
  pa_reason :: pub_ack_reason
  pa_properties :: puback_properties

definition pub_ack_of :: "pub_ack \<Rightarrow> pub_ack_api" where
  "pub_ack_of value =
     \<lparr>pa_packet_identifier = puback_packet_identifier value,
      pa_reason = pub_ack_reason_of (puback_reason_code value),
      pa_properties = puback_properties_of (puback_other_properties value)\<rparr>"


record pub_rec_api =
  prc_packet_identifier :: pkid
  prc_reason :: pub_rec_reason
  prc_properties :: pubrec_properties

definition pub_rec_of :: "pub_rec \<Rightarrow> pub_rec_api" where
  "pub_rec_of value =
     \<lparr>prc_packet_identifier = pubrec_packet_identifier value,
      prc_reason = pub_rec_reason_of (pubrec_reason_code value),
      prc_properties = pubrec_properties_of (pubrec_other_properties value)\<rparr>"


record pub_rel_api =
  prl_packet_identifier :: pkid
  prl_reason :: pub_rel_reason
  prl_properties :: pubrel_properties

definition pub_rel_of :: "pub_rel \<Rightarrow> pub_rel_api" where
  "pub_rel_of value =
     \<lparr>prl_packet_identifier = pubrel_packet_identifier value,
      prl_reason = pub_rel_reason_of (pubrel_reason_code value),
      prl_properties = pubrel_properties_of (pubrel_other_properties value)\<rparr>"


record pub_comp_api =
  pc_packet_identifier :: pkid
  pc_reason :: pub_comp_reason
  pc_properties :: pubcomp_properties

definition pub_comp_of :: "pub_comp \<Rightarrow> pub_comp_api" where
  "pub_comp_of value =
     \<lparr>pc_packet_identifier = pubcomp_packet_identifier value,
      pc_reason = pub_comp_reason_of (pubcomp_reason_code value),
      pc_properties = pubcomp_properties_of (pubcomp_other_properties value)\<rparr>"


record sub_ack_api =
  sa_packet_identifier :: pkid
  sa_reasons :: "sub_ack_reason list"
  sa_properties :: suback_properties

definition sub_ack_of :: "sub_ack \<Rightarrow> sub_ack_api" where
  "sub_ack_of value =
     \<lparr>sa_packet_identifier = suback_packet_identifier value,
      sa_reasons = map sub_ack_reason_of (suback_reason_codes value),
      sa_properties = suback_properties_of (suback_other_properties value)\<rparr>"


record unsub_ack_api =
  ua_packet_identifier :: pkid
  ua_reasons :: "unsub_ack_reason list"
  ua_properties :: unsuback_properties

definition unsub_ack_of :: "unsub_ack \<Rightarrow> unsub_ack_api" where
  "unsub_ack_of value =
     \<lparr>ua_packet_identifier = unsuback_packet_identifier value,
      ua_reasons = map unsub_ack_reason_of (unsuback_reason_codes value),
      ua_properties = unsuback_properties_of (unsuback_other_properties value)\<rparr>"


definition pub_ack_into :: "pub_ack_api \<Rightarrow> pub_ack option" where
  "pub_ack_into pa =
     Option.bind (puback_properties_into (pa_properties pa)) (\<lambda>other_properties.
       Some \<lparr>puback_packet_identifier = pa_packet_identifier pa,
             puback_reason_code = pub_ack_reason_into (pa_reason pa),
             puback_other_properties = other_properties\<rparr>)"

interpretation pub_ack: conversion pub_ack_into pub_ack_of
  "\<lambda>pa. pred_option short (pap_reason_string (pa_properties pa)) \<and> list_all short_pair (pap_user_properties (pa_properties pa))"
  by unfold_locales (auto simp: pub_ack_into_def pub_ack_of_def puback_props.into_back puback_props.none_iff
      pub_ack_reason.of_into split: Option.bind_splits dest: puback_props.some_fits)

record disconnect_api =
  disconnect_reason :: disconnect_reason
  disconnect_api_properties :: disconnect_properties_api

definition disconnect_of :: "disconnect \<Rightarrow> disconnect_api" where
  "disconnect_of value =
     \<lparr>disconnect_reason = disconnect_reason_of (disconnect_reason_code value),
      disconnect_api_properties = disconnect_properties_of (disconnect_other_properties value)\<rparr>"

record auth_api =
  auth_reason :: auth_reason
  auth_info :: "authentication_info option"
  auth_api_properties :: auth_properties_api

definition auth_of :: "auth \<Rightarrow> auth_api" where
  "auth_of value =
     \<lparr>auth_reason = auth_reason_of (auth_reason_code value),
      auth_info = map_option authentication_info_of (auth_authentication value),
      auth_api_properties =
        \<lparr>ap_reason_string = map_option str_as_ref (auth_reason_string value),
         ap_user_properties = map pair_of (auth_user_properties value)\<rparr>\<rparr>"

definition auth_into :: "auth_api \<Rightarrow> auth option" where
  "auth_into a =
     Option.bind (opt_into authentication_info_into (auth_info a)) (\<lambda>authentication.
     Option.bind (opt_into str_into (ap_reason_string (auth_api_properties a))) (\<lambda>reason_string.
     Option.bind (map_user_properties_to_bytestr (ap_user_properties (auth_api_properties a))) (\<lambda>user_properties.
       Some \<lparr>auth_reason_code = auth_reason_into (auth_reason a), auth_authentication = authentication,
             auth_reason_string = reason_string, auth_user_properties = user_properties\<rparr>)))"

interpretation auth: conversion auth_into auth_of
  "\<lambda>a. pred_option (\<lambda>ai. short (ai_method ai) \<and> pred_option short (ai_data ai)) (auth_info a) \<and>
     pred_option short (ap_reason_string (auth_api_properties a)) \<and>
     list_all short_pair (ap_user_properties (auth_api_properties a))"
  by unfold_locales (auto simp: auth_into_def auth_of_def backs nones opt_auth_info.into_back opt_auth_info.none_iff
      auth_reason.of_into split: Option.bind_splits dest: somes opt_auth_info.some_fits)

section \<open>Verdicts\<close>

datatype operation_failure = OperationFailure bytes

definition conn_ack_is_success :: "conn_ack_api \<Rightarrow> bool" where
  "conn_ack_is_success k \<longleftrightarrow> ca_reason k = ConnAckReason_Success"

definition conn_ack_as_result :: "conn_ack_api \<Rightarrow> operation_failure + unit" where
  "conn_ack_as_result k =
     (if conn_ack_is_success k then Inr ()
      else Inl (OperationFailure
        (case cap_reason_string (ca_properties k) of
           Some s \<Rightarrow> conn_ack_reason_debug (ca_reason k) @ utf8 '' - '' @ s
         | None \<Rightarrow> conn_ack_reason_debug (ca_reason k))))"

definition pub_ack_is_success :: "pub_ack_api \<Rightarrow> bool" where
  "pub_ack_is_success p \<longleftrightarrow> pa_reason p = PubAckReason_Success \<or> pa_reason p = PubAckReason_NoMatchingSubscribers"

definition pub_ack_as_result :: "pub_ack_api \<Rightarrow> operation_failure + unit" where
  "pub_ack_as_result p =
     (if pub_ack_is_success p then Inr ()
      else Inl (OperationFailure
        (case pap_reason_string (pa_properties p) of
           Some s \<Rightarrow> utf8 '' ('' @ pub_ack_reason_debug (pa_reason p) @ utf8 '' - '' @ s @ utf8 '')''
         | None \<Rightarrow> utf8 '' ('' @ pub_ack_reason_debug (pa_reason p) @ utf8 '')'')))"

definition pub_rec_is_success :: "pub_rec_api \<Rightarrow> bool" where
  "pub_rec_is_success p \<longleftrightarrow> prc_reason p = PubRecReason_Success \<or> prc_reason p = PubRecReason_NoMatchingSubscribers"

definition pub_rec_as_result :: "pub_rec_api \<Rightarrow> operation_failure + unit" where
  "pub_rec_as_result p =
     (if pub_rec_is_success p then Inr ()
      else Inl (OperationFailure
        (case prc_reason_string (prc_properties p) of
           Some s \<Rightarrow> utf8 '' ('' @ pub_rec_reason_debug (prc_reason p) @ utf8 '' - '' @ s @ utf8 '')''
         | None \<Rightarrow> utf8 '' ('' @ pub_rec_reason_debug (prc_reason p) @ utf8 '')'')))"

definition granted :: "sub_ack_reason \<Rightarrow> bool" where
  "granted r \<longleftrightarrow> r = SubAckReason_GrantedQoS0 \<or> r = SubAckReason_GrantedQoS1 \<or> r = SubAckReason_GrantedQoS2"

definition unsubscribed :: "unsub_ack_reason \<Rightarrow> bool" where
  "unsubscribed r \<longleftrightarrow> r = UnsubAckReason_Success \<or> r = UnsubAckReason_NoSubscriptionExisted"

text \<open>The loop that collects the reasons for which the test fails, separated by commas.\<close>

definition push_reason :: "('r \<Rightarrow> bool) \<Rightarrow> ('r \<Rightarrow> bytes) \<Rightarrow> 'r \<Rightarrow> bytes \<Rightarrow> bytes" where
  "push_reason ok debug r s =
     (if ok r then s else (if s = [] then s else s @ utf8 '', '') @ debug r)"

definition failure_text :: "('r \<Rightarrow> bool) \<Rightarrow> ('r \<Rightarrow> bytes) \<Rightarrow> 'r list \<Rightarrow> bytes option \<Rightarrow> bytes" where
  "failure_text ok debug rs reason_string =
     (let s = fold (push_reason ok debug) rs []
      in case reason_string of Some t \<Rightarrow> s @ utf8 '' - '' @ t | None \<Rightarrow> s)"

definition sub_ack_is_success :: "sub_ack_api \<Rightarrow> bool" where
  "sub_ack_is_success p \<longleftrightarrow> list_all granted (sa_reasons p)"

definition sub_ack_as_result :: "sub_ack_api \<Rightarrow> operation_failure + unit" where
  "sub_ack_as_result p =
     (if sub_ack_is_success p then Inr ()
      else Inl (OperationFailure
        (failure_text granted sub_ack_reason_debug (sa_reasons p) (sap_reason_string (sa_properties p)))))"

definition unsub_ack_is_success :: "unsub_ack_api \<Rightarrow> bool" where
  "unsub_ack_is_success p \<longleftrightarrow> list_all unsubscribed (ua_reasons p)"

definition unsub_ack_as_result :: "unsub_ack_api \<Rightarrow> operation_failure + unit" where
  "unsub_ack_as_result p =
     (if unsub_ack_is_success p then Inr ()
      else Inl (OperationFailure
        (failure_text unsubscribed unsub_ack_reason_debug (ua_reasons p) (uap_reason_string (ua_properties p)))))"


section \<open>What the verdicts say\<close>

text \<open>
  A reason code of 0x80 or more is a failure (section 4.13 of the specification). The verdicts agree
  with the byte that came over the wire.
\<close>

lemma success_byte:
  "pub_ack_reason_of c = PubAckReason_Success \<or> pub_ack_reason_of c = PubAckReason_NoMatchingSubscribers \<longleftrightarrow>
     code_to_u8 pub_ack_table c < 0x80"
  "pub_rec_reason_of d = PubRecReason_Success \<or> pub_rec_reason_of d = PubRecReason_NoMatchingSubscribers \<longleftrightarrow>
     code_to_u8 pub_rec_table d < 0x80"
  "granted (sub_ack_reason_of e) \<longleftrightarrow> code_to_u8 subscribe_table e < 0x80"
  "unsubscribed (unsub_ack_reason_of f) \<longleftrightarrow> code_to_u8 unsub_ack_table f < 0x80"
proof -
  show "pub_ack_reason_of c = PubAckReason_Success \<or> pub_ack_reason_of c = PubAckReason_NoMatchingSubscribers \<longleftrightarrow>
      code_to_u8 pub_ack_table c < 0x80" by (cases c) (simp_all add: code_to_u8_def pub_ack_table_def)
  show "pub_rec_reason_of d = PubRecReason_Success \<or> pub_rec_reason_of d = PubRecReason_NoMatchingSubscribers \<longleftrightarrow>
      code_to_u8 pub_rec_table d < 0x80" by (cases d) (simp_all add: code_to_u8_def pub_rec_table_def)
  show "granted (sub_ack_reason_of e) \<longleftrightarrow> code_to_u8 subscribe_table e < 0x80"
    by (cases e) (simp_all add: code_to_u8_def subscribe_table_def granted_def)
  show "unsubscribed (unsub_ack_reason_of f) \<longleftrightarrow> code_to_u8 unsub_ack_table f < 0x80"
    by (cases f) (simp_all add: code_to_u8_def unsub_ack_table_def unsubscribed_def)
qed

lemma conn_ack_reason_byte: "conn_ack_reason_value (conn_ack_reason_of c) = code_to_u8 connection_refused_table c"
proof -
  have "list_all (\<lambda>(c, n). conn_ack_reason_value (conn_ack_reason_of c) = n) connection_refused_table"
    by (simp add: connection_refused_table_def)
  moreover obtain n where "map_of connection_refused_table c = Some n"
    using connection_refused_code.total [of c] by (metis map_of_eq_None_iff not_None_eq)
  ultimately show ?thesis by (auto simp: list_all_iff code_to_u8_def dest: map_of_SomeD)
qed

lemma conn_ack_refused: "conn_ack_reason_of c \<noteq> ConnAckReason_Success"
  by (cases c) simp_all

text \<open>The text of a failure: the reasons that failed, in order, separated by commas.\<close>

fun separated :: "bytes list \<Rightarrow> bytes" where
  "separated [] = []"
| "separated [b] = b"
| "separated (b # bs) = b @ utf8 '', '' @ separated bs"

lemma separated_append: "bs \<noteq> [] \<Longrightarrow> separated (bs @ [b]) = separated bs @ utf8 '', '' @ b"
  by (induction bs rule: separated.induct) simp_all

lemma fold_push_reason:
  assumes "\<And>r. debug r \<noteq> []"
  shows "fold (push_reason ok debug) rs [] = separated (map debug (filter (\<lambda>r. \<not> ok r) rs))"
proof (induction rs rule: rev_induct)
  case (snoc r rs)
  have "separated (map debug qs) = [] \<longleftrightarrow> qs = []" for qs
    using assms by (cases "map debug qs" rule: separated.cases) auto
  with snoc show ?case by (auto simp: push_reason_def separated_append)
qed simp

end
