(* ===== verification/Client_Api.thy ===== *)
theory Client_Api
  imports Api_Results Client_Life
begin

text \<open>
  The handles an application holds (src/src/client.rs): \<open>Client\<close>, which submits operations, \<open>Receiver\<close>,
  which yields publishes, and the handles for disconnecting and reauthenticating, in the types of the
  public API. A bounded channel of tokio makes the sender wait for a permit, puts the value behind those
  in the channel, and fails when the receiving half is gone (\<open>None\<close>). When it gives a permit is a
  parameter. A panic of a conversion comes before anything is sent. A queue size of 0 is refused by the
  channel's own constructor with a panic and is outside the model.
\<close>

section \<open>Options and creation\<close>

record client_options =
  opt_client_id :: "bytes option"
  opt_max_packet_identifier :: pkid
  opt_publish_qos0_queue_size :: nat
  opt_publish_qos1_qos2_queue_size :: nat

definition client_options_default :: client_options where
  "client_options_default =
     \<lparr>opt_client_id = None, opt_max_packet_identifier = - 1, opt_publish_qos0_queue_size = 100,
      opt_publish_qos1_qos2_queue_size = 100\<rparr>"

text \<open>The capacities of the channels through which a \<open>Client\<close> and a \<open>ReauthHandle\<close> send.\<close>

record client =
  pub_qos0_capacity :: nat
  pub_qos12_capacity :: nat
  sub_capacity :: nat
  ping_capacity :: nat
  auth_capacity :: nat

definition new_client :: "client_options \<Rightarrow> client \<times> session \<times> bytes option" where
  "new_client opts =
     (\<lparr>pub_qos0_capacity = opt_publish_qos0_queue_size opts,
       pub_qos12_capacity = opt_publish_qos1_qos2_queue_size opts,
       sub_capacity = 1, ping_capacity = 1, auth_capacity = 1\<rparr>,
      session_new (opt_max_packet_identifier opts), opt_client_id opts)"

section \<open>Submitting operations\<close>

datatype detached_error = DetachedError

type_synonym 'a submitted = "(detached_error + 'a) poll \<times> channels option"

text \<open>
  Whether a channel of some capacity gives a permit while so many of the values sent through it have not
  been taken by the session. It does below the capacity; it may when they are as many as the capacity,
  since a value that the session has looked at (\<open>Peekable::peek\<close>) has left the channel and not the queue.
\<close>

type_synonym permits = "nat \<Rightarrow> nat \<Rightarrow> bool"

text \<open>\<open>Sender::send\<close> for the queue that \<open>queue\<close> reads and \<open>put\<close> writes.\<close>

definition mpsc_send ::
  "permits \<Rightarrow> nat \<Rightarrow> (channels \<Rightarrow> 'x list) \<Rightarrow> ('x list \<Rightarrow> channels \<Rightarrow> channels) \<Rightarrow> 'x \<Rightarrow> 'a \<Rightarrow> channels option \<Rightarrow> 'a submitted"
where
  "mpsc_send permit capacity queue put x token c =
     (case c of
        None \<Rightarrow> (Ready (Inl DetachedError), None)
      | Some c \<Rightarrow>
          if permit capacity (length (queue c)) then (Ready (Inr token), Some (put (queue c @ [x]) c))
          else (Pending, Some c))"

definition or_panic :: "'x option \<Rightarrow> ('x \<Rightarrow> channels option \<Rightarrow> 'a submitted) \<Rightarrow> channels option \<Rightarrow> 'a submitted" where
  "or_panic x f c =
     (case x of None \<Rightarrow> (Panic ''called Result::unwrap() on an Err value'', c) | Some y \<Rightarrow> f y c)"

definition client_publish_qos0 ::
  "permits \<Rightarrow> client \<Rightarrow> notifier \<Rightarrow> bytes topic \<Rightarrow> bytes \<Rightarrow> bool \<Rightarrow> publish_properties_api \<Rightarrow> channels option \<Rightarrow> notifier submitted"
where
  "client_publish_qos0 permit client n topic_name payload retain properties =
     or_panic (topic_into topic_name) (\<lambda>topic.
     or_panic (publish_properties_into properties) (\<lambda>props.
       mpsc_send permit (pub_qos0_capacity client) o_pub_q0_rx (\<lambda>q c. c\<lparr>o_pub_q0_rx := q\<rparr>)
         (PublishRequestQoS0 n topic payload retain props) n))"

definition client_publish_qos1 ::
  "permits \<Rightarrow> client \<Rightarrow> notifier \<Rightarrow> bytes topic \<Rightarrow> bytes \<Rightarrow> bool \<Rightarrow> publish_properties_api \<Rightarrow> channels option \<Rightarrow> notifier submitted"
where
  "client_publish_qos1 permit client n topic_name payload retain properties =
     or_panic (topic_into topic_name) (\<lambda>topic.
     or_panic (publish_properties_into properties) (\<lambda>props.
       mpsc_send permit (pub_qos12_capacity client) o_pub_q12_rx (\<lambda>q c. c\<lparr>o_pub_q12_rx := q\<rparr>)
         (PublishQoS1Request n topic payload retain props) n))"

definition client_publish_qos2 ::
  "client \<Rightarrow> bytes topic \<Rightarrow> bytes \<Rightarrow> bool \<Rightarrow> publish_properties_api \<Rightarrow> channels option \<Rightarrow> notifier submitted"
where
  "client_publish_qos2 client topic_name payload retain properties c = (Panic ''not implemented'', c)"

definition filter_into :: "bytes filter \<Rightarrow> byte_str filter option" where
  "filter_into f =
     Option.bind (str_into (filter_inner f)) (\<lambda>inner. Some \<lparr>filter_inner = inner, filter_kind = filter_kind f\<rparr>)"

definition client_subscribe ::
  "permits \<Rightarrow> client \<Rightarrow> notifier \<Rightarrow> bytes filter \<Rightarrow> api_qos \<Rightarrow> bool \<Rightarrow> retain_options \<Rightarrow> subscribe_properties \<Rightarrow>
     channels option \<Rightarrow> notifier submitted"
where
  "client_subscribe permit client n flt max_qos local retain properties c =
     (if max_qos = QoS_ExactlyOnce then (Panic ''QoS 2 subscriptions are not yet supported'', c)
      else
        let sub_opts = \<lparr>maximum_qos = qos_into max_qos,
              options_other_properties =
                \<lparr>no_local = local, retain_as_published = ro_retain_as_published retain,
                 retain_handling = ro_retain_handling retain\<rparr>\<rparr>
        in or_panic (filter_into flt) (\<lambda>f.
           or_panic (subscribe_properties_into properties) (\<lambda>props.
             mpsc_send permit (sub_capacity client) sub_rx (\<lambda>q c. c\<lparr>sub_rx := q\<rparr>) (SubscribeRequest n f sub_opts props) n)) c)"

definition client_unsubscribe ::
  "permits \<Rightarrow> client \<Rightarrow> notifier \<Rightarrow> bytes filter \<Rightarrow> (bytes \<times> bytes) list \<Rightarrow> channels option \<Rightarrow> notifier submitted"
where
  "client_unsubscribe permit client n flt properties =
     or_panic (filter_into flt) (\<lambda>f.
     or_panic (unsubscribe_properties_into properties) (\<lambda>props.
       mpsc_send permit (sub_capacity client) sub_rx (\<lambda>q c. c\<lparr>sub_rx := q\<rparr>) (UnsubscribeRequest n f props) n))"

definition client_ping :: "permits \<Rightarrow> client \<Rightarrow> notifier \<Rightarrow> channels option \<Rightarrow> notifier submitted" where
  "client_ping permit client n =
     mpsc_send permit (ping_capacity client) ping_rx (\<lambda>q c. c\<lparr>ping_rx := q\<rparr>) (PingRequest n) n"

definition reauth_handle_submit ::
  "permits \<Rightarrow> client \<Rightarrow> bytes \<Rightarrow> notifier \<Rightarrow> bytes option \<Rightarrow> auth_properties_api \<Rightarrow> channels option \<Rightarrow> notifier submitted"
where
  "reauth_handle_submit permit client method n data properties =
     or_panic (auth_into \<lparr>auth_reason = AuthReason_Reauthenticate,
         auth_info = Some \<lparr>ai_method = method, ai_data = data\<rparr>, auth_api_properties = properties\<rparr>) (\<lambda>auth.
       mpsc_send permit (auth_capacity client) auth_rx (\<lambda>q c. c\<lparr>auth_rx := q\<rparr>) (ReauthRequest n auth) n)"

definition disconnect_handle_submit :: "disconnect_properties_api \<Rightarrow> channels option \<Rightarrow> unit submitted" where
  "disconnect_handle_submit properties =
     or_panic (disconnect_properties_into properties) (\<lambda>props c.
       case c of
         None \<Rightarrow> (Ready (Inl DetachedError), None)
       | Some c \<Rightarrow>
           (case disconnect_handle_disconnect props c of
              (Inl _, c) \<Rightarrow> (Ready (Inl DetachedError), Some c)
            | (Inr _, c) \<Rightarrow> (Ready (Inr ()), Some c)))"

section \<open>Receiving\<close>

datatype manual_acknowledgement = ManualQoS0 | ManualQoS1 pub_ack_token

primrec incoming_into :: "incoming_publish_and_token \<Rightarrow> publish_api \<times> manual_acknowledgement" where
  "incoming_into (IncomingQoS0 publish) = (publish_of publish, ManualQoS0)"
| "incoming_into (IncomingQoS1 publish token) = (publish_of publish, ManualQoS1 token)"

text \<open>\<open>alive\<close> says whether the session, which holds the sending half, still exists.\<close>

fun receiver_recv ::
  "bool \<Rightarrow> incoming_publish_and_token list \<Rightarrow>
     (publish_api \<times> manual_acknowledgement) option poll \<times> incoming_publish_and_token list"
where
  "receiver_recv alive (x # rest) = (Ready (Some (incoming_into x)), rest)"
| "receiver_recv alive [] = (if alive then Pending else Ready None, [])"

section \<open>What a submission does\<close>

text \<open>
  A call that was asked for some submission panics when what it was given does not fit the wire, waits
  while there is no room, and otherwise does what the client system's \<open>submit\<close> does with it. Where it
  does not return, nothing has been submitted.
\<close>

definition submission_outcome :: "bool \<Rightarrow> bool \<Rightarrow> 'a \<Rightarrow> (submission \<Rightarrow> bool) \<Rightarrow> channels \<Rightarrow> 'a submitted \<Rightarrow> bool" where
  "submission_outcome fits room token asked c r \<longleftrightarrow>
     (if \<not> fits then (\<exists>m. r = (Panic m, Some c))
      else if \<not> room then r = (Pending, Some c)
      else (\<exists>x. asked x \<and> r = (Ready (Inr token), Some (submit x c))))"

lemma submission_panics: "\<not> fits \<Longrightarrow> submission_outcome fits room token asked c (Panic m, Some c)"
  by (simp add: submission_outcome_def)

lemma submission_sends:
  assumes "fits" and "room \<longleftrightarrow> permit n (length (q c))" and "asked x" and "p (q c @ [r]) c = submit x c"
  shows "submission_outcome fits room token asked c (mpsc_send permit n q p r token (Some c))"
  using assms by (auto simp: submission_outcome_def mpsc_send_def)

text \<open>A conversion before the call: it panics exactly when its value does not fit.\<close>

context conversion
begin

lemma submission_converts:
  assumes "\<And>y. conv_into x = Some y \<Longrightarrow> conv_of y = x \<Longrightarrow> submission_outcome others room token asked c (f y (Some c))"
  shows "submission_outcome (fits x \<and> others) room token asked c (or_panic (conv_into x) f (Some c))"
proof (cases "conv_into x")
  case None
  then have "\<not> fits x" using none_iff by blast
  with None show ?thesis by (simp add: or_panic_def submission_outcome_def)
next
  case (Some y)
  then show ?thesis using assms [OF Some into_back [OF Some]] some_fits [OF Some] by (simp add: or_panic_def)
qed

end

interpretation filter: conversion filter_into "\<lambda>f. \<lparr>filter_inner = str_as_ref (filter_inner f), filter_kind = filter_kind f\<rparr>"
  "\<lambda>f. short (filter_inner f)"
  by unfold_locales (auto simp: filter_into_def backs nones split: Option.bind_splits dest: somes)

end
