(* ===== verification/Api_Properties.thy ===== *)
theory Api_Properties
  imports Client_Api Connection_Properties
begin

text \<open>
  What the public API promises: submissions reach the session as they were given, conversions
  lose nothing, verdicts agree with the wire.
\<close>

section \<open>Submissions\<close>

text \<open>C16. A QoS 1 publish is submitted exactly when its topic and its properties fit into sixteen bits of
  length and the channel of QoS 1 and QoS 2 publishes gives a permit for it; then the queue has one
  request more, at its end, which carries the topic, the payload, the retain flag and the properties
  that the application gave. When something is too long the call panics, when there is no permit it
  waits, and in both cases nothing has been submitted. When the session is gone the call fails, or
  panics as before.\<close>

theorem publish_submission:
  "(if \<not> (short (topic_inner topic_name) \<and> publish_properties_fit props)
    then (\<exists>m. client_publish_qos1 permit client n topic_name payload retain props (Some c) = (Panic m, Some c)) \<and>
      (\<exists>m. client_publish_qos1 permit client n topic_name payload retain props None = (Panic m, None))
    else (if permit (pub_qos12_capacity client) (length (o_pub_q12_rx c))
      then (\<exists>t p. client_publish_qos1 permit client n topic_name payload retain props (Some c) =
          (Ready (Inr n), Some (submit (SubmitQoS1 n t payload retain p) c)) \<and>
        topic_of t = topic_name \<and> publish_properties_of p = props)
      else client_publish_qos1 permit client n topic_name payload retain props (Some c) = (Pending, Some c)) \<and>
      client_publish_qos1 permit client n topic_name payload retain props None = (Ready (Inl DetachedError), None))"
proof (cases "short (topic_inner topic_name) \<and> publish_properties_fit props")
  case True
  then obtain t p where "topic_into topic_name = Some t" "topic_of t = topic_name"
    "publish_properties_into props = Some p" "publish_properties_of p = props"
    by (meson topic.into_obtains publish_props.into_obtains)
  with True show ?thesis by (auto simp: client_publish_qos1_def or_panic_def mpsc_send_def)
next
  case False
  then show ?thesis
    using topic.none_iff [of topic_name] publish_props.none_iff [of props]
    by (auto simp: client_publish_qos1_def or_panic_def split: option.splits)
qed

lemma qos0_submission:
  "submission_outcome (short (topic_inner topic_name) \<and> publish_properties_fit props)
     (permit (pub_qos0_capacity client) (length (o_pub_q0_rx c))) n
     (\<lambda>x. \<exists>t p. x = SubmitQoS0 (PublishRequestQoS0 n t payload retain p) \<and> topic_of t = topic_name \<and>
        publish_properties_of p = props) c
     (client_publish_qos0 permit client n topic_name payload retain props (Some c))"
  unfolding client_publish_qos0_def
  by (rule topic.submission_converts, rule publish_props.submission_converts [where others = True, simplified],
      rule submission_sends) auto

lemma subscribe_submission:
  "submission_outcome (max_qos \<noteq> QoS_ExactlyOnce \<and> short (filter_inner flt) \<and> list_all short_pair (srp_user_properties sp))
     (permit (sub_capacity client) (length (sub_rx c))) n
     (\<lambda>x. \<exists>f p. x = SubmitSubscription (SubscribeRequest n f
         \<lparr>maximum_qos = qos_into max_qos, options_other_properties = \<lparr>no_local = local,
          retain_as_published = ro_retain_as_published ro, retain_handling = ro_retain_handling ro\<rparr>\<rparr> p) \<and>
        str_as_ref (filter_inner f) = filter_inner flt \<and> filter_kind f = filter_kind flt \<and>
        subscribe_properties_of p = sp) c
     (client_subscribe permit client n flt max_qos local ro sp (Some c))"
proof (cases "max_qos = QoS_ExactlyOnce")
  case False
  then show ?thesis
    unfolding client_subscribe_def Let_def if_not_P [OF False]
    by (simp, intro filter.submission_converts subscribe_props.submission_converts [where others = True, simplified]
        submission_sends [where x = "SubmitSubscription r" and r = r for r]) auto
qed (simp add: client_subscribe_def submission_panics)

lemma unsubscribe_submission:
  "submission_outcome (short (filter_inner flt) \<and> list_all short_pair ups)
     (permit (sub_capacity client) (length (sub_rx c))) n
     (\<lambda>x. \<exists>f p. x = SubmitSubscription (UnsubscribeRequest n f p) \<and>
        str_as_ref (filter_inner f) = filter_inner flt \<and> filter_kind f = filter_kind flt \<and> map pair_of p = ups) c
     (client_unsubscribe permit client n flt ups (Some c))"
  unfolding client_unsubscribe_def unsubscribe_properties_into_def
  by (rule filter.submission_converts, rule user_props.submission_converts [where others = True, simplified],
      rule submission_sends [where x = "SubmitSubscription r" and r = r for r]) auto

lemma ping_submission:
  "submission_outcome True (permit (ping_capacity client) (length (ping_rx c))) n
     (\<lambda>x. x = SubmitPing (PingRequest n)) c (client_ping permit client n (Some c))"
  unfolding client_ping_def by (rule submission_sends) auto

lemma reauth_submission:
  "submission_outcome (short meth \<and> pred_option short data \<and> pred_option short (ap_reason_string ap) \<and>
       list_all short_pair (ap_user_properties ap))
     (permit (auth_capacity client) (length (auth_rx c))) n
     (\<lambda>x. \<exists>au rs p. x = SubmitReauth n ReAuthenticate au rs p \<and>
        authentication_info_of au = \<lparr>ai_method = meth, ai_data = data\<rparr> \<and>
        map_option str_as_ref rs = ap_reason_string ap \<and> map pair_of p = ap_user_properties ap) c
     (reauth_handle_submit permit client meth n data ap (Some c))"
proof -
  let ?auth = "\<lparr>auth_reason = AuthReason_Reauthenticate, auth_info = Some \<lparr>ai_method = meth, ai_data = data\<rparr>,
    auth_api_properties = ap\<rparr>"
  have "submission_outcome ((pred_option (\<lambda>ai. short (ai_method ai) \<and> pred_option short (ai_data ai)) (auth_info ?auth) \<and>
      pred_option short (ap_reason_string (auth_api_properties ?auth)) \<and>
      list_all short_pair (ap_user_properties (auth_api_properties ?auth))) \<and> True)
     (permit (auth_capacity client) (length (auth_rx c))) n
     (\<lambda>x. \<exists>au rs p. x = SubmitReauth n ReAuthenticate au rs p \<and>
        authentication_info_of au = \<lparr>ai_method = meth, ai_data = data\<rparr> \<and>
        map_option str_as_ref rs = ap_reason_string ap \<and> map pair_of p = ap_user_properties ap) c
     (reauth_handle_submit permit client meth n data ap (Some c))"
    unfolding reauth_handle_submit_def
  proof (rule auth.submission_converts)
    fix y assume y: "auth_into ?auth = Some y"
    then obtain au rs p where parts: "authentication_info_into \<lparr>ai_method = meth, ai_data = data\<rparr> = Some au"
      "opt_into str_into (ap_reason_string ap) = Some rs" "map_user_properties_to_bytestr (ap_user_properties ap) = Some p"
      by (cases "authentication_info_into \<lparr>ai_method = meth, ai_data = data\<rparr>")
        (auto simp: auth_into_def split: Option.bind_splits)
    then have "y = \<lparr>auth_reason_code = ReAuthenticate, auth_authentication = Some au,
        auth_reason_string = rs, auth_user_properties = p\<rparr>" using y by (simp add: auth_into_def)
    with parts(1) [THEN auth_info.into_back] parts(2) [THEN opt_str.into_back] parts(3) [THEN user_props.into_back] show "submission_outcome True (permit (auth_capacity client) (length (auth_rx c))) n
     (\<lambda>x. \<exists>au rs p. x = SubmitReauth n ReAuthenticate au rs p \<and>
        authentication_info_of au = \<lparr>ai_method = meth, ai_data = data\<rparr> \<and>
        map_option str_as_ref rs = ap_reason_string ap \<and> map pair_of p = ap_user_properties ap) c
     (mpsc_send permit (auth_capacity client) auth_rx (\<lambda>q c. c\<lparr>auth_rx := q\<rparr>) (ReauthRequest n y) n (Some c))"
      by (intro submission_sends [where x = "SubmitReauth n ReAuthenticate au rs p"]) auto
  qed
  then show ?thesis by (simp add: conj_assoc)
qed


section \<open>Conversions\<close>

text \<open>C31. The conversions of the public types towards the wire are defined exactly when every string and
  every binary value in them has at most 65535 bytes (they panic otherwise), and converting back
  gives what was converted: no property is lost or changed.\<close>

theorem conversions_lossless:
  "(publish_properties_into pp \<noteq> None \<longleftrightarrow> publish_properties_fit pp) \<and>
   (publish_properties_into pp = Some op \<longrightarrow> publish_properties_of op = pp) \<and>
   (connect_properties_into cp \<noteq> None \<longleftrightarrow> list_all short_pair (cp_user_properties cp)) \<and>
   (connect_properties_into cp = Some oc \<longrightarrow> connect_properties_from oc = cp) \<and>
   (conn_ack_properties_into cap \<noteq> None \<longleftrightarrow>
      pred_option short (cap_assigned_client_identifier cap) \<and> pred_option short (cap_reason_string cap) \<and>
      list_all short_pair (cap_user_properties cap) \<and> pred_option short (cap_response_information cap) \<and>
      pred_option short (cap_server_reference cap)) \<and>
   (conn_ack_properties_into cap = Some ok \<longrightarrow> conn_ack_properties_of ok = cap) \<and>
   (disconnect_properties_into dp \<noteq> None \<longleftrightarrow>
      pred_option short (dp_reason_string dp) \<and> list_all short_pair (dp_user_properties dp) \<and>
      pred_option short (dp_server_reference dp)) \<and>
   (disconnect_properties_into dp = Some od \<longrightarrow> disconnect_properties_of od = dp) \<and>
   (pub_ack_into pa \<noteq> None \<longleftrightarrow>
      pred_option short (pap_reason_string (pa_properties pa)) \<and> list_all short_pair (pap_user_properties (pa_properties pa))) \<and>
   (pub_ack_into pa = Some opa \<longrightarrow> pub_ack_of opa = pa) \<and>
   (auth_into a \<noteq> None \<longleftrightarrow>
      pred_option (\<lambda>ai. short (ai_method ai) \<and> pred_option short (ai_data ai)) (auth_info a) \<and>
      pred_option short (ap_reason_string (auth_api_properties a)) \<and>
      list_all short_pair (ap_user_properties (auth_api_properties a))) \<and>
   (auth_into a = Some oa \<longrightarrow> auth_of oa = a)"
  using publish_props.defined publish_props.into_back connect_props.defined connect_props.into_back
    conn_ack_props.defined conn_ack_props.into_back disconnect_props.defined disconnect_props.into_back
    pub_ack.defined pub_ack.into_back auth.defined auth.into_back
  by presburger

definition sample_api_properties :: publish_properties_api where
  "sample_api_properties = publish_properties_default\<lparr>pp_payload_format_indicator := UTF8,
     pp_content_type := Some [97], pp_user_properties := [([98], [99])]\<rparr>"

theorem conversions_lossless_witness:
  "\<exists>op. publish_properties_into sample_api_properties = Some op \<and> publish_properties_of op = sample_api_properties"
proof -
  have "publish_properties_fit sample_api_properties"
    by (simp add: publish_properties_fit_def sample_api_properties_def publish_properties_default_def)
  then obtain op where "publish_properties_into sample_api_properties = Some op"
    using publish_props.defined by blast
  with conversions_lossless [of sample_api_properties op] show ?thesis by blast
qed

section \<open>From application to application\<close>

text \<open>C8. What an application publishes is what the other side receives: the request that a QoS 1 publish
  submits, made into a packet with the identifier \<open>k\<close>, encoded, decoded and converted for the
  application again, is the publish that was asked for, with that identifier and without DUP. This
  holds when the packet is well-formed (\<open>packet_ok\<close>: the topic and all strings in the properties are
  valid MQTT strings, which the API does not check for properties) and its encoding is not refused as
  too large for a remaining length.\<close>

theorem published_is_received:
  assumes "client_publish_qos1 permit client n topic_name payload retain props (Some c) = (Ready (Inr m), Some c')"
    and "o_pub_q12_rx c' = q @ [PublishQoS1Request n t body r p]"
    and "publish_packet (WithPkidQoS1 n t body r p k) s = (packet, s')"
    and "packet_ok uc V5 packet" and "utf8_ascii uc" and "snd (packet_encode V5 packet) = None"
  shows "\<exists>publish. packet_decode_full uc V5 (enc_bytes (packet_encode V5 packet)) = Inr (PublishPacket publish) \<and>
    publish_of publish = \<lparr>pub_payload = payload,
      pub_qos = DeliveryAtLeastOnce \<lparr>delivery_dup = False, delivery_packet_identifier = k\<rparr>,
      pub_retain = retain, pub_topic_name = topic_name, pub_properties = props\<rparr>"
proof -
  obtain t' p' where request: "topic_into topic_name = Some t'" "publish_properties_into props = Some p'"
    "c' = c\<lparr>o_pub_q12_rx := o_pub_q12_rx c @ [PublishQoS1Request n t' payload retain p']\<rparr>"
    using assms(1) by (auto simp: client_publish_qos1_def or_panic_def mpsc_send_def split: option.splits if_splits)
  then have same: "t' = t" "p' = p" "payload = body" "retain = r" using assms(2) by simp_all
  note wire = packet_full_roundtrip [OF assms(4-6)]
  show ?thesis
    using wire assms(3) request(1,2) topic.into_back publish_props.into_back unfolding same
    by (auto simp: publish_of_def Let_def)
qed

definition demo_client :: client where
  "demo_client = fst (new_client client_options_default)"

definition qos1_publish :: publish where
  "qos1_publish = qos2_publish\<lparr>packet_identifier_dup_qos := PdqAtLeastOnce 7 False\<rparr>"

lemma qos1_packet: "packet_ok ascii_unicode V5 (PublishPacket qos1_publish)"
  "snd (packet_encode V5 (PublishPacket qos1_publish)) = None"
proof -
  show ok: "packet_ok ascii_unicode V5 (PublishPacket qos1_publish)"
    using sample_topic_ok qos2_properties(2) qos2_encodes
    by (simp add: publish_ok_def qos1_publish_def) (simp add: qos2_publish_def)
  have "length (enc_bytes (packet_body V5 (PublishPacket qos1_publish))) < varint_limit"
    using qos2_encodes by (simp add: publish_encode_def is_v5_def enc_when_def qos1_publish_def)
      (simp add: qos2_publish_def sample_topic_def)
  then show "snd (packet_encode V5 (PublishPacket qos1_publish)) = None"
    by (rule packet_encode_bytes(1) [OF ok ascii_unicode_ok(1)])
qed

lemma demo_submission:
  "client_publish_qos1 (\<lambda>capacity len. len < capacity) demo_client 5 (Topic [97, 47, 98]) [] False publish_properties_default (Some channels_new) =
     (Ready (Inr 5), Some (channels_new\<lparr>o_pub_q12_rx := [] @
        [PublishQoS1Request 5 sample_topic [] False publish_other_properties_default]\<rparr>))"
  by (simp add: client_publish_qos1_def or_panic_def mpsc_send_def demo_client_def new_client_def client_options_default_def
      channels_new_def str_into_def str_from_def binary_from_def poll_option_def sample_topic_def be16_def
      publish_properties_into_def publish_properties_default_def publish_other_properties_default_def)

theorem published_is_received_witness:
  "\<exists>publish. packet_decode_full ascii_unicode V5 (enc_bytes (packet_encode V5 (PublishPacket qos1_publish))) =
      Inr (PublishPacket publish) \<and> pub_topic_name (publish_of publish) = Topic [97, 47, 98]"
proof -
  have packet: "publish_packet (WithPkidQoS1 5 sample_topic [] False publish_other_properties_default 7) (session_new 9) =
      (PublishPacket qos1_publish,
       snd (publish_packet (WithPkidQoS1 5 sample_topic [] False publish_other_properties_default 7) (session_new 9)))"
    by (simp add: qos1_publish_def qos2_publish_def Let_def)
  have "o_pub_q12_rx (channels_new\<lparr>o_pub_q12_rx := [] @
        [PublishQoS1Request 5 sample_topic [] False publish_other_properties_default]\<rparr>) =
      [] @ [PublishQoS1Request 5 sample_topic [] False publish_other_properties_default]" by simp
  from published_is_received [OF demo_submission this packet qos1_packet(1) ascii_unicode_ok(1) qos1_packet(2)]
  show ?thesis by auto
qed

section \<open>Verdicts\<close>

text \<open>The verdict of a packet agrees with the wire: a PUBACK, PUBREC, SUBACK or UNSUBACK is a success
  exactly when all its reason codes are below 0x80, a CONNACK exactly when it carries the success
  code; \<open>as_result\<close> is \<open>Ok\<close> exactly for a success; and the text for a failed SUBACK names the reasons
  that failed, in order, separated by commas, and then the reason string.\<close>

theorem verdicts_agree_with_wire:
  "(pub_ack_as_result (pub_ack_of p1) = Inr () \<longleftrightarrow> code_to_u8 pub_ack_table (puback_reason_code p1) < 0x80) \<and>
   (pub_rec_as_result (pub_rec_of p2) = Inr () \<longleftrightarrow> code_to_u8 pub_rec_table (pubrec_reason_code p2) < 0x80) \<and>
   (sub_ack_as_result (sub_ack_of p3) = Inr () \<longleftrightarrow>
      list_all (\<lambda>c. code_to_u8 subscribe_table c < 0x80) (suback_reason_codes p3)) \<and>
   (unsub_ack_as_result (unsub_ack_of p4) = Inr () \<longleftrightarrow>
      list_all (\<lambda>c. code_to_u8 unsub_ack_table c < 0x80) (unsuback_reason_codes p4)) \<and>
   (conn_ack_as_result (conn_ack_of k) = Inr () \<longleftrightarrow> connack_is_success k) \<and>
   failure_text granted sub_ack_reason_debug rs None =
     separated (map sub_ack_reason_debug (filter (\<lambda>r. \<not> granted r) rs))"
proof -
  have debug: "sub_ack_reason_debug r \<noteq> []" for r by (cases r) (simp_all add: utf8_def)
  have conn: "conn_ack_is_success (conn_ack_of k) \<longleftrightarrow> connack_is_success k"
    by (simp add: conn_ack_is_success_def conn_ack_of_def connack_is_success_def conn_ack_refused split: connect_reason_code.split)
  show ?thesis
    using success_byte conn fold_push_reason [OF debug, where ok = granted and rs = rs]
    by (simp add: pub_ack_as_result_def pub_ack_is_success_def pub_ack_of_def pub_rec_as_result_def pub_rec_is_success_def
        pub_rec_of_def sub_ack_as_result_def sub_ack_is_success_def sub_ack_of_def unsub_ack_as_result_def
        unsub_ack_is_success_def unsub_ack_of_def conn_ack_as_result_def list_all_iff failure_text_def)
qed

text \<open>The discriminants of the public reason codes are the bytes of the wire, with one exception:
  \<open>SubAckReason::SharedSubscriptionsNotSupported\<close> is 0x9A in the public enum and 0x9E on the wire.\<close>

theorem public_reason_values:
  "pub_ack_reason_value r1 = code_to_u8 pub_ack_table (pub_ack_reason_into r1) \<and>
   pub_rec_reason_value r2 = code_to_u8 pub_rec_table (pub_rec_reason_into r2) \<and>
   unsub_ack_reason_value r3 = code_to_u8 unsub_ack_table (unsub_ack_reason_into r3) \<and>
   disconnect_reason_value r4 = code_to_u8 disconnect_table (disconnect_reason_into r4) \<and>
   conn_ack_reason_value (conn_ack_reason_of r5) = code_to_u8 connection_refused_table r5 \<and>
   (sub_ack_reason_value r6 = code_to_u8 subscribe_table (sub_ack_reason_into r6) \<longleftrightarrow>
      r6 \<noteq> SubAckReason_SharedSubscriptionsNotSupported)"
proof -
  have "sub_ack_reason_value r6 = code_to_u8 subscribe_table (sub_ack_reason_into r6) \<longleftrightarrow>
      r6 \<noteq> SubAckReason_SharedSubscriptionsNotSupported"
    by (cases r6) (simp_all add: code_to_u8_def subscribe_table_def)
  then show ?thesis
    using pub_ack_reason.into_byte pub_rec_reason.into_byte unsub_ack_reason.into_byte disconnect_reason.into_byte
      conn_ack_reason_byte by simp
qed

end
