(* ===== verification/Decoded_Packets.thy ===== *)
theory Decoded_Packets
  imports Packet_Codec
begin

text \<open>
  What decoding guarantees: a packet that was decoded is valid, and its encoding is not longer than
  the bytes it was decoded from (two bytes apart for AUTH, whose reason code may be left out on the
  wire), so that it can be encoded again. Lengths are compared along the decoders: what a decoder
  returns, encoded, and what it leaves are together no longer than what it was given.
\<close>

unbundle bit_operations_syntax

section \<open>Integers\<close>

lemma varint_digits_length: "0 < k \<Longrightarrow> v < 128 ^ k \<Longrightarrow> length (varint_digits m v) \<le> k"
proof (induction m v arbitrary: k rule: varint_digits.induct)
  case (2 m v)
  show ?case
  proof (cases "v < 128")
    case False
    then obtain j where j: "k = Suc j" "0 < j"
      using 2(2,3) by (cases k; cases "k - 1") auto
    then have "v div 128 < 128 ^ j" using 2(3) by (simp add: less_mult_imp_div_less mult.commute)
    with 2(1) [OF False j(2)] j False show ?thesis by simp
  qed (use 2(2) in simp)
qed simp

lemma decode_varint_loop_value:
  assumes "decode_varint_loop r n src = Inr (Some (v, rest))" and "n < 4" and "unat r < 128 ^ n"
  shows "\<exists>k. 0 < k \<and> length src = k + length rest \<and> unat v < 128 ^ (n + k)"
  using assms
proof (induction r n src rule: decode_varint_loop.induct)
  case (2 r n b bs)
  let ?r = "r OR push_bit (n * 7) (ucast (b AND 0x7F))"
  have "ucast (b AND 0x7F) = (of_nat (unat b mod 128) :: u32)"
    by (simp add: word_unat_eq_iff unsigned_ucast_eq take_bit_nat_def unat_and_7F unat_of_nat)
  then have "unat ?r = unat r + unat b mod 128 * 128 ^ n"
    using unat_or_push [OF "2.prems"(3,2), of "unat b mod 128"] by simp
  moreover have "unat b mod 128 * 128 ^ n \<le> 127 * 128 ^ n" by (rule mult_right_mono) simp_all
  ultimately have "unat ?r < 128 ^ n + 127 * 128 ^ n" using "2.prems"(3) by linarith
  then have less: "unat ?r < 128 ^ (n + 1)" by simp
  show ?case
  proof (cases "b AND 0x80 = 0")
    case True
    with "2.prems"(1) less show ?thesis by (intro exI [of _ 1]) (simp add: Let_def)
  next
    case False
    with "2.prems"(1) have n: "n + 1 \<noteq> 4" and d: "decode_varint_loop ?r (n + 1) bs = Inr (Some (v, rest))"
      by (auto simp: Let_def split: if_splits)
    with False "2.prems"(2) less obtain k where "length bs = k + length rest" "unat v < 128 ^ (n + 1 + k)"
      using "2.IH" [OF refl refl] by auto
    then show ?thesis by (intro exI [of _ "Suc k"]) simp
  qed
qed simp

lemma decode_varint_value:
  assumes "decode_varint src = Inr (Some (v, rest))"
  obtains k where "0 < k" and "length src = k + length rest" and "unat v < 128 ^ k"
  using decode_varint_loop_value [of 0 0 src v rest] assms by (auto simp: decode_varint_def)

lemma decode_varint_length:
  assumes "decode_varint src = Inr (Some (v, rest))"
  shows "unat v < varint_limit \<and> length (enc_bytes (encode_varint v)) + length rest \<le> length src"
proof -
  obtain k where "0 < k" "length src = k + length rest" "unat v < 128 ^ k"
    using decode_varint_value [OF assms] .
  then show ?thesis
    using varint_digits_length [of k "unat v" 4] decode_varint_bound [OF assms] encode_varint_bytes(2) [of v] by simp
qed

lemma get_bytes:
  "try_get_u8 src = Inr (a, s) \<longleftrightarrow> src = a # s"
  "try_get_u16_be src = Inr (b, s) \<Longrightarrow> length src = 2 + length s"
  "try_get_u32_be src = Inr (c, s) \<Longrightarrow> length src = 4 + length s"
  "try_get_packet_identifier src = Inr (k, s) \<Longrightarrow> k \<noteq> 0 \<and> length src = 2 + length s"
proof -
  show "try_get_u8 src = Inr (a, s) \<longleftrightarrow> src = a # s" by (cases src rule: try_get_u8.cases) auto
  show u16: "try_get_u16_be src = Inr (b, s) \<Longrightarrow> length src = 2 + length s" for b
    by (cases src rule: try_get_u16_be.cases) auto
  show "try_get_u32_be src = Inr (c, s) \<Longrightarrow> length src = 4 + length s"
    by (cases src rule: try_get_u32_be.cases) auto
  show "try_get_packet_identifier src = Inr (k, s) \<Longrightarrow> k \<noteq> 0 \<and> length src = 2 + length s"
    by (auto simp: try_get_packet_identifier_def and_then_eq_Inr ok_or_eq_Inr pkid_new_def dest: u16 split: if_splits)
qed

lemma enc_fail_bytes [simp]: "enc_bytes (enc_fail e) = []"
  by (simp add: enc_fail_def enc_bytes_def)

section \<open>Properties\<close>

lemma dec_flag_bytes: "dec_flag err src = Inr (b, s) \<Longrightarrow> length src = 1 + length s"
  by (cases src) (auto simp: dec_flag_def split: if_splits)

lemma str_decode_length:
  "str_decode uc src = Inr (Some (s, r)) \<Longrightarrow> str_ok uc s \<and> length (str_wire s) + length r = length src"
  "topic_decode uc src = Inr (Some (t, r)) \<Longrightarrow> topic_ok uc t \<and> length (str_wire (topic_inner t)) + length r = length src"
  "filter_decode uc src = Inr (Some (f, r)) \<Longrightarrow> filter_ok uc f \<and> length (str_wire (filter_inner f)) + length r = length src"
  "binary_decode src = Some (d, r) \<Longrightarrow> binary_ok d \<and> length (bd_shared d) + length r = length src"
  using str_decode_ok topic_decode_ok filter_decode_ok binary_decode_ok by fastforce+

lemma integer_variants:
  "session_expiry_from_u32 v \<noteq> ExpiryDuration (- 1)" "keep_alive_from_u16 w \<noteq> KeepAliveDuration 0"
  by (auto simp: session_expiry_from_u32_def keep_alive_from_u16_def)

lemmas decoded_parts = dec_flag_bytes str_decode_length get_bytes(2-4) decode_varint_length

lemma decode_property_valid:
  assumes "decode_property uc src = Inr (p, r)"
  shows "property_ok uc p" and "length (enc_bytes (encode_property p)) + length r \<le> length src"
proof -
  obtain i s where src: "src = i # s" using assms by (cases src) (auto simp: decode_property_def)
  have two: "str_decode uc s = Inr (Some (n, s1)) \<Longrightarrow> str_decode uc s1 = Inr (Some (v, r)) \<Longrightarrow>
      str_ok uc n \<and> str_ok uc v \<and> length (str_wire n) + length (str_wire v) + length r = length s" for n v s1
    by (auto dest!: str_decode_length)
  have "property_ok uc p \<and> length (enc_bytes (encode_property p)) + length r \<le> length src"
    using assms two encode_varint_bytes(1) unfolding src decode_property_def
    by (auto simp: required_Inr dec_map_Inr dec_nonzero_Inr ok_or_eq_Inr and_then_eq_Inr enc_when_def
        encode_session_expiry_def integer_variants
        split: if_splits dest!: decoded_parts)
  then show "property_ok uc p" and "length (enc_bytes (encode_property p)) + length r \<le> length src" by simp_all
qed


section \<open>Property sections\<close>

abbreviation weight :: "property list \<Rightarrow> nat" where
  "weight ps \<equiv> length (property_bytes ps)"

lemma weight_split: "weight ps = weight (filter P ps) + weight (filter (\<lambda>p. \<not> P p) ps)"
  by (induction ps) auto

lemma weight_mem: "p \<in> set ps \<Longrightarrow> weight [p] \<le> weight ps"
  by (induction ps) auto

text \<open>
  The loop over a section keeps every property it read, and they all are valid.
\<close>

lemma decode_loop_valid:
  assumes "decode_loop uc single many seen src = Inr ps"
  shows "\<exists>qs. ps = seen @ qs \<and> list_all (property_ok uc) qs \<and> weight qs \<le> length src"
  using assms
proof (induction uc single many seen src rule: decode_loop.induct)
  case (1 uc single many seen src)
  show ?case
  proof (cases "src = []")
    case True
    with "1.prems" show ?thesis by (simp add: decode_loop.simps)
  next
    case False
    with "1.prems" obtain p src' where p: "decode_property uc src = Inr (p, src')"
      by (subst (asm) decode_loop.simps) (auto split: sum.splits)
    have "decode_loop uc single many (seen @ [p]) src' = Inr ps"
      using "1.prems" False p by (subst (asm) decode_loop.simps) (auto split: if_splits)
    moreover have "variant p \<in> set many \<or> variant p \<in> set single \<and> variant p \<notin> variant ` set seen"
      using "1.prems" False p by (subst (asm) decode_loop.simps) (auto split: if_splits)
    ultimately obtain qs where "ps = (seen @ [p]) @ qs" "list_all (property_ok uc) qs" "weight qs \<le> length src'"
      using "1.IH" [OF False p refl] by auto
    with decode_property_valid [OF p] show ?thesis by (intro exI [of _ "p # qs"]) simp
  qed
qed

text \<open>
  A packet does not keep its list of properties but the values it found in it, and lists them
  again when it is encoded. \<open>relists uc ks qs ps\<close>: the properties \<open>qs\<close> list again what \<open>ps\<close> has
  of the variants \<open>ks\<close>. They are no longer than these and valid.
\<close>

definition relists :: "unicode \<Rightarrow> string set \<Rightarrow> property list \<Rightarrow> property list \<Rightarrow> bool" where
  "relists uc ks qs ps \<longleftrightarrow>
     list_all (property_ok uc) qs \<and> weight qs \<le> weight (filter (\<lambda>p. variant p \<in> ks) ps)"

lemma relists_append:
  assumes "relists uc ks qs ps" and "relists uc ks' qs' ps" and "ks \<inter> ks' = {}"
  shows "relists uc (ks \<union> ks') (qs @ qs') ps"
proof -
  have "weight (filter (\<lambda>p. variant p \<in> ks \<union> ks') ps) =
      weight (filter (\<lambda>p. variant p \<in> ks) ps) + weight (filter (\<lambda>p. variant p \<in> ks') ps)"
    using assms(3) by (induction ps) auto
  with assms(1,2) show ?thesis by (simp add: relists_def)
qed

lemma bound_mem: "bound f ps = Some x \<Longrightarrow> \<exists>p\<in>set ps. f p = Some x"
  by (induction ps) (auto split: option.splits)

lemma relists_one:
  assumes "list_all (property_ok uc) ps" and "p \<in> set ps"
    and "property_ok uc p \<Longrightarrow> property_ok uc q" and "weight [q] \<le> weight [p]"
  shows "relists uc {variant p} [q] ps"
proof -
  have "weight [p] \<le> weight (filter (\<lambda>p'. variant p' \<in> {variant p}) ps)"
    using assms(2) by (intro weight_mem) simp
  with assms show ?thesis by (auto simp: relists_def list_all_iff)
qed

lemma relists_opt:
  assumes "list_all (property_ok uc) ps" and "\<And>p x. f p = Some x \<Longrightarrow> p = c x" and "\<And>x. variant (c x) = k"
  shows "relists uc {k} (opt_prop c (bound f ps)) ps"
proof (cases "bound f ps")
  case (Some x)
  with bound_mem assms(2) have "c x \<in> set ps" by metis
  with relists_one [OF assms(1) this, of "c x"] Some assms(3) show ?thesis by (simp add: opt_prop_def)
qed (simp add: opt_prop_def relists_def)

lemma relists_default:
  assumes "list_all (property_ok uc) ps" and "\<And>p x. f p = Some x \<Longrightarrow> p = c x" and "\<And>x. variant (c x) = k"
    and "\<not> emitted (c d)" and "property_ok uc (c d)"
  shows "relists uc {k} [c (unwrap_or (bound f ps) d)] ps"
proof (cases "bound f ps")
  case None
  with assms(4,5) encode_property_silent [of "c d"] show ?thesis by (simp add: relists_def)
next
  case (Some x)
  with bound_mem assms(2) have "c x \<in> set ps" by metis
  with relists_one [OF assms(1) this, of "c x"] Some assms(3) show ?thesis by simp
qed

lemma relists_connect_expiry:
  assumes "list_all (property_ok uc) ps"
  shows "relists uc {''SessionExpiryInterval''}
    [ConnectSessionExpiryInterval (unwrap_or (bound get_session_expiry ps) (ExpiryDuration 0))] ps"
proof (cases "bound get_session_expiry ps")
  case (Some i)
  with bound_mem have "SessionExpiryInterval i \<in> set ps" by (fastforce split: property.splits)
  with relists_one [OF assms this, of "ConnectSessionExpiryInterval i"] Some show ?thesis
    by (simp add: enc_when_def)
qed (simp add: relists_def)

lemma relists_map:
  assumes "list_all (property_ok uc) ps" and "\<And>p x. f p = Some x \<Longrightarrow> p = c x" and "\<And>x. variant (c x) = k"
  shows "relists uc {k} (map c (collected f ps)) ps"
  using assms(1) unfolding relists_def
proof (induction ps)
  case (Cons p ps)
  show ?case
  proof (cases "f p")
    case (Some x)
    with assms(2) have "p = c x" by blast
    with Cons Some assms(3) show ?thesis by simp
  qed (use Cons in auto)
qed (simp add: relists_def)

lemma relists_user:
  assumes "list_all (property_ok uc) ps"
  shows "relists uc {''UserProperty''} (user_props (collected get_user_property ps)) ps"
  by (rule relists_map [OF assms]) (auto split: property.splits)

lemma authentication_parts:
  "authentication_of m d = Inr a \<Longrightarrow> fst (authentication_into_parts a) = m \<and> snd (authentication_into_parts a) = d"
  by (auto simp: authentication_of_def authentication_into_parts_def split: option.splits)

text \<open>A section that lists again what was decoded is not longer than it was.\<close>

lemma decode_properties_valid:
  assumes "decode_properties uc single many src = Inr (ps, r)"
  shows "list_all (property_ok uc) ps"
    and "relists uc ks qs ps \<Longrightarrow>
      list_all (property_ok uc) qs \<and> snd (encode_all qs) = None \<and>
      length (enc_bytes (encode_all qs)) + length r \<le> length src"
proof -
  obtain n src1 where n: "decode_remaining_length src = Inr (Some (n, src1))" "n \<le> length src1"
      "r = drop n src1" and loop: "decode_loop uc single many [] (take n src1) = Inr ps"
    using assms by (auto simp: decode_properties_def decode_all_def and_then_eq_Inr required_Inr split: if_splits)
  obtain v where v: "decode_varint src = Inr (Some (v, src1))" "n = unat v"
    using n(1) by (auto simp: decode_remaining_length_def and_then_eq_Inr)
  obtain k where k: "0 < k" "length src = k + length src1" "n < 128 ^ k"
    using decode_varint_value [OF v(1)] v(2) by metis
  have ps: "list_all (property_ok uc) ps" "weight ps \<le> n"
    using decode_loop_valid [OF loop] n(2) by auto
  then show "list_all (property_ok uc) ps" by simp
  assume "relists uc ks qs ps"
  then have ok: "list_all (property_ok uc) qs" and "weight qs \<le> weight (filter (\<lambda>p. variant p \<in> ks) ps)"
    by (simp_all add: relists_def)
  then have w: "weight qs \<le> n" using weight_split [of ps "\<lambda>p. variant p \<in> ks"] ps(2) by linarith
  moreover have "n < varint_limit" using decode_varint_bound [OF v(1)] v(2) by simp
  ultimately have "weight qs < varint_limit" by linarith
  then have none: "snd (encode_all qs) = None" using encode_all_parts(1) [OF ok] by blast
  moreover have "length (varint_digits 4 (weight qs)) \<le> k"
    using w k by (intro varint_digits_length) simp_all
  ultimately show "list_all (property_ok uc) qs \<and> snd (encode_all qs) = None \<and>
      length (enc_bytes (encode_all qs)) + length r \<le> length src"
    using encode_all_parts(2) [OF ok] ok w k(2) n(2,3) by simp
qed


section \<open>Acknowledgements\<close>

lemma ack_properties_relist:
  assumes "list_all (property_ok uc) ps"
  shows "relists uc ({''ReasonString''} \<union> {''UserProperty''})
     (ack_properties \<lparr>ack_reason_string = bound get_reason_string ps,
        ack_user_properties = collected get_user_property ps\<rparr>) ps"
  unfolding ack_properties_def ack_other_properties.simps
  by (intro relists_append relists_opt relists_user assms) (auto split: property.splits)

lemma decode_ack_properties_valid:
  assumes "decode_ack_properties uc src = Inr (o1, r)"
  shows "ack_properties_ok uc o1 \<and> snd (encode_ack_properties o1) = None \<and>
    length (enc_bytes (encode_ack_properties o1)) + length r \<le> length src"
proof -
  obtain ps where ps: "decode_properties uc [''ReasonString''] [''UserProperty''] src = Inr (ps, r)"
    and o1: "o1 = \<lparr>ack_reason_string = bound get_reason_string ps,
      ack_user_properties = collected get_user_property ps\<rparr>"
    using assms by (auto simp: decode_ack_properties_def and_then_eq_Inr)
  from decode_properties_valid(2) [OF ps ack_properties_relist [OF decode_properties_valid(1) [OF ps]]]
  show ?thesis by (simp add: o1 ack_properties_ok_def encode_ack_properties_def)
qed

lemma decode_ack_valid:
  assumes "decode_ack uc v try_from success src = Inr ((k, c, o1), r)"
  shows "ack_ok uc v success k c o1"
    and "length (enc_bytes (encode_ack v to_u8 success is_success negative k c o1)) + length r \<le> length src"
proof -
  obtain k' src1 where src1: "try_get_packet_identifier src = Inr (k', src1)"
    using assms by (auto simp: decode_ack_def and_then_eq_Inr)
  note k = get_bytes(4) [OF src1]
  have "ack_ok uc v success k c o1 \<and>
      length (enc_bytes (encode_ack v to_u8 success is_success negative k c o1)) + length r \<le> length src"
  proof (cases v)
    case V3
    with assms src1 k show ?thesis by (auto simp: decode_ack_def ack_ok_def encode_ack_def)
  next
    case V5
    show ?thesis
    proof (cases src1)
      case Nil
      with V5 assms src1 k show ?thesis by (auto simp: decode_ack_def ack_ok_def encode_ack_def ack_default)
    next
      case (Cons b src2)
      with V5 assms src1 consider "k = k'" "src2 = []" "r = []" "o1 = ack_other_properties_default"
        | "k = k'" "decode_ack_properties uc src2 = Inr (o1, r)"
        by (auto simp: decode_ack_def and_then_eq_Inr split: if_splits)
      then show ?thesis
      proof cases
        case 1
        with V5 Cons k show ?thesis by (simp add: ack_ok_def encode_ack_def ack_default enc_when_def)
      next
        case 2
        with V5 Cons k decode_ack_properties_valid [OF 2(2)] show ?thesis
          by (simp add: ack_ok_def encode_ack_def ack_default enc_when_def Let_def)
      qed
    qed
  qed
  then show "ack_ok uc v success k c o1"
    and "length (enc_bytes (encode_ack v to_u8 success is_success negative k c o1)) + length r \<le> length src"
    by simp_all
qed


lemma acks_valid:
  "puback_decode uc v src = Inr (a, r) \<Longrightarrow>
     puback_ok uc v a \<and> length (enc_bytes (puback_encode v a)) + length r \<le> length src"
  "pubrec_decode uc v src = Inr (b, r) \<Longrightarrow>
     pubrec_ok uc v b \<and> length (enc_bytes (pubrec_encode v b)) + length r \<le> length src"
  "pubrel_decode uc v src = Inr (c, r) \<Longrightarrow>
     pubrel_ok uc v c \<and> length (enc_bytes (pubrel_encode v c)) + length r \<le> length src"
  "pubcomp_decode uc v src = Inr (d, r) \<Longrightarrow>
     pubcomp_ok uc v d \<and> length (enc_bytes (pubcomp_encode v d)) + length r \<le> length src"
  by (auto simp: puback_decode_def puback_ok_def puback_encode_def pubrec_decode_def pubrec_ok_def pubrec_encode_def
      pubrel_decode_def pubrel_ok_def pubrel_encode_def pubcomp_decode_def pubcomp_ok_def pubcomp_encode_def
      dec_map_Inr dest: decode_ack_valid)

lemma collect_codes_Inr:
  "collect_codes f src = Inr cs \<Longrightarrow> length cs = length src \<and> (\<forall>c\<in>set cs. \<exists>b. f b = Inr c)"
  by (induction src arbitrary: cs) (auto simp: and_then_eq_Inr)

lemma suback_valid:
  assumes "suback_decode uc v src = Inr (p, r)"
  shows "suback_ok uc v p \<and> length (enc_bytes (suback_encode v p)) + length r \<le> length src"
proof -
  obtain k s1 o1 s2 cs where parts: "try_get_packet_identifier src = Inr (k, s1)"
      "(case v of V3 \<Rightarrow> Inr (ack_other_properties_default, s1) | V5 \<Rightarrow> decode_ack_properties uc s1) = Inr (o1, s2)"
      "collect_codes (subscribe_code_try_from v) s2 = Inr cs" "cs \<noteq> []"
      "p = \<lparr>suback_packet_identifier = k, suback_reason_codes = cs, suback_other_properties = o1\<rparr>"
      "r = drop (length cs) s2"
    using assms by (auto simp: suback_decode_def and_then_eq_Inr split: if_splits)
  note codes = collect_codes_Inr [OF parts(3)]
  have "v = V3 \<Longrightarrow> set cs \<subseteq> {GrantedQoS0, GrantedQoS1, GrantedQoS2, SubUnspecifiedError}"
    using codes by (fastforce simp: subscribe_code_try_from_def split: if_splits)
  then show ?thesis
    using parts codes get_bytes(4) [OF parts(1)]
    by (cases v) (auto simp: suback_ok_def suback_encode_def is_v5_def
        dest!: decode_ack_properties_valid)
qed

lemma unsuback_valid:
  assumes "unsuback_decode uc v src = Inr (p, r)"
  shows "unsuback_ok uc v p \<and> length (enc_bytes (unsuback_encode v p)) + length r \<le> length src"
proof (cases v)
  case V3
  with assms show ?thesis
    by (auto simp: unsuback_decode_def unsuback_ok_def unsuback_encode_def and_then_eq_Inr dest!: get_bytes(4))
next
  case V5
  with assms show ?thesis
    by (auto simp: unsuback_decode_def unsuback_ok_def unsuback_encode_def and_then_eq_Inr
        split: if_splits dest!: get_bytes(4) decode_ack_properties_valid collect_codes_Inr)
qed

section \<open>Messages\<close>

text \<open>
  The values a packet found are those its decoder gives, so listing them again is a case of the
  rules for each kind of property.
\<close>

lemmas relists_rules = relists_append relists_default relists_opt relists_user relists_map relists_connect_expiry

lemma decode_publish_properties_valid:
  assumes "decode_publish_properties uc src = Inr (o1, r)"
  shows "list_all (property_ok uc) (publish_properties o1) \<and> snd (encode_all (publish_properties o1)) = None \<and>
    length (enc_bytes (encode_all (publish_properties o1))) + length r \<le> length src"
proof -
  obtain ps where ps: "decode_properties uc publish_single publish_many src = Inr (ps, r)"
    using assms by (auto simp: decode_publish_properties_def and_then_eq_Inr)
  note ok = decode_properties_valid(1) [OF ps]
  have o1: "o1 = fst (projr (decode_publish_properties uc src))" by (simp add: assms)
  have "\<exists>ks. relists uc ks (publish_properties o1) ps"
    unfolding o1 decode_publish_properties_def ps and_then_Inr prod.case sum.sel fst_conv publish_properties_def
      publish_other_properties.simps
    by (rule exI, (rule relists_rules ok | simp split: property.splits)+)
  then show ?thesis using decode_properties_valid(2) [OF ps] by blast
qed

lemma publish_valid:
  assumes "publish_decode uc v flags src = Inr (p, r)"
  shows "publish_ok uc v p \<and> length (enc_bytes (publish_encode v p)) + length r \<le> length src"
proof -
  let ?pdq = "packet_identifier_dup_qos p"
  have "\<exists>s1 s2. topic_decode uc src = Inr (Some (publish_topic_name p, s1)) \<and> pdq_ok ?pdq \<and>
      length s1 = length s2 + (case ?pdq of PdqAtMostOnce \<Rightarrow> 0 | _ \<Rightarrow> 2) \<and>
      (case v of V3 \<Rightarrow> Inr (publish_other_properties_default, s2) | V5 \<Rightarrow> decode_publish_properties uc s2) =
        Inr (publish_other_properties p, publish_payload p) \<and> r = []"
    using assms
    by (force simp: publish_decode_def Let_def and_then_eq_Inr required_Inr dec_map_Inr split: if_splits dest!: get_bytes(4))
  then obtain s1 s2 where topic: "topic_decode uc src = Inr (Some (publish_topic_name p, s1))"
    and "pdq_ok ?pdq" "length s1 = length s2 + (case ?pdq of PdqAtMostOnce \<Rightarrow> 0 | _ \<Rightarrow> 2)"
      "(case v of V3 \<Rightarrow> Inr (publish_other_properties_default, s2) | V5 \<Rightarrow> decode_publish_properties uc s2) =
        Inr (publish_other_properties p, publish_payload p)" "r = []"
    by blast
  with str_decode_length(2) [OF topic] show ?thesis
    by (cases v; cases ?pdq)
      (auto simp: publish_ok_def publish_encode_def is_v5_def dest!: decode_publish_properties_valid)
qed

lemma options_valid:
  assumes "options_decode v src = Inr (o1, r)"
  shows "length src = 1 + length r" and "v = V3 \<Longrightarrow> options_other_properties o1 = subscribe_options_default"
  using assms by (auto simp: options_decode_def and_then_eq_Inr get_bytes(1) split: protocol_version.splits if_splits)

lemma subscribe_to_valid:
  assumes "subscribe_to_decode uc v src = Inr (s, r)"
  shows "filter_ok uc (topic_filter s) \<and> options_ok v s \<and>
    length (enc_bytes (subscribe_to_encode v s)) + length r \<le> length src"
proof -
  obtain f s1 o1 where parts: "filter_decode uc src = Inr (Some (f, s1))" "options_decode v s1 = Inr (o1, r)"
      "\<not> (filter_is_shared f \<and> no_local (options_other_properties o1))" "s = \<lparr>topic_filter = f, options = o1\<rparr>"
    using assms by (auto simp: subscribe_to_decode_def and_then_eq_Inr required_Inr split: if_splits)
  with str_decode_length(3) [OF parts(1)] options_valid [OF parts(2)] show ?thesis
    by (auto simp: options_ok_def subscribe_to_encode_def)
qed

lemma subscribe_to_loop_valid:
  assumes "subscribe_to_loop uc v src = Inr ss"
  shows "list_all (\<lambda>s. filter_ok uc (topic_filter s) \<and> options_ok v s) ss \<and>
    length (enc_bytes (enc_all (map (subscribe_to_encode v) ss))) \<le> length src"
  using assms
proof (induction uc v src arbitrary: ss rule: subscribe_to_loop.induct)
  case (1 uc v src)
  show ?case
  proof (cases "src = []")
    case True
    with "1.prems" show ?thesis by (simp add: subscribe_to_loop.simps)
  next
    case False
    with "1.prems" obtain s src' ss' where s: "subscribe_to_decode uc v src = Inr (s, src')"
        "subscribe_to_loop uc v src' = Inr ss'" "ss = s # ss'"
      by (subst (asm) subscribe_to_loop.simps) (auto simp: and_then_eq_Inr split: sum.splits)
    with "1.IH" [OF False s(1) refl s(2)] subscribe_to_valid [OF s(1)] show ?thesis by auto
  qed
qed

lemma subscribe_properties_valid:
  assumes "decode_properties uc [''SubscriptionIdentifier''] [''UserProperty''] src = Inr (ps, r)"
  shows "let qs = subscribe_properties
        \<lparr>subscription_identifier = bound (\<lambda>p. case p of SubscriptionIdentifier v \<Rightarrow> Some v | _ \<Rightarrow> None) ps,
         subscribe_user_properties = collected get_user_property ps\<rparr>
    in list_all (property_ok uc) qs \<and> snd (encode_all qs) = None \<and> length (enc_bytes (encode_all qs)) + length r \<le> length src"
  unfolding Let_def subscribe_properties_def subscribe_other_properties.simps
  by (rule decode_properties_valid(2) [OF assms], (rule relists_rules decode_properties_valid(1) [OF assms] | simp split: property.splits)+)

lemma subscribe_valid:
  assumes "subscribe_decode uc v src = Inr (p, r)"
  shows "subscribe_ok uc v p \<and> length (enc_bytes (subscribe_encode v p)) + length r \<le> length src"
proof -
  obtain k s1 o1 s2 ss where parts: "try_get_packet_identifier src = Inr (k, s1)"
      "subscribe_properties_decode uc v s1 = Inr (o1, s2)" "subscribe_to_loop uc v s2 = Inr ss" "ss \<noteq> []"
      "p = \<lparr>subscribe_packet_identifier = k, subscribe_to_list = ss, subscribe_other_properties = o1\<rparr>" "r = []"
    using assms by (auto simp: subscribe_decode_def and_then_eq_Inr split: if_splits)
  have "case v of V3 \<Rightarrow> o1 = \<lparr>subscription_identifier = None, subscribe_user_properties = []\<rparr> \<and> s1 = s2
      | V5 \<Rightarrow> list_all (property_ok uc) (subscribe_properties o1) \<and> snd (encode_all (subscribe_properties o1)) = None \<and>
          length (enc_bytes (encode_all (subscribe_properties o1))) + length s2 \<le> length s1"
    using parts(2) by (auto simp: subscribe_properties_decode_def and_then_eq_Inr Let_def
        split: protocol_version.splits dest!: subscribe_properties_valid)
  with parts get_bytes(4) [OF parts(1)] subscribe_to_loop_valid [OF parts(3)] show ?thesis
    by (cases v) (auto simp: subscribe_ok_def subscribe_encode_def subscribe_properties_encode_def is_v5_def)
qed


lemma filter_loop_valid:
  assumes "filter_loop uc src = Inr fs"
  shows "list_all (filter_ok uc) fs \<and> length (enc_bytes (enc_all (map filter_encode fs))) \<le> length src"
  using assms
proof (induction uc src arbitrary: fs rule: filter_loop.induct)
  case (1 uc src)
  show ?case
  proof (cases "src = []")
    case True
    with "1.prems" show ?thesis by (simp add: filter_loop.simps)
  next
    case False
    with "1.prems" obtain f src' fs' where f: "required (filter_decode uc src) = Inr (f, src')"
        "filter_loop uc src' = Inr fs'" "fs = f # fs'"
      by (subst (asm) filter_loop.simps) (auto simp: and_then_eq_Inr split: sum.splits)
    have "filter_decode uc src = Inr (Some (f, src'))" using f(1) by (simp add: required_Inr)
    from str_decode_length(3) [OF this] "1.IH" [OF False f(1) refl f(2)] f(3) show ?thesis by auto
  qed
qed

lemma unsubscribe_valid:
  assumes "unsubscribe_decode uc v src = Inr (p, r)"
  shows "unsubscribe_ok uc v p \<and> length (enc_bytes (unsubscribe_encode v p)) + length r \<le> length src"
proof -
  obtain k s1 us s2 fs where parts: "try_get_packet_identifier src = Inr (k, s1)"
      "(case v of V3 \<Rightarrow> Inr ([], s1)
        | V5 \<Rightarrow> dec_map (collected get_user_property) (decode_properties uc [] [''UserProperty''] s1)) = Inr (us, s2)"
      "filter_loop uc s2 = Inr fs" "fs \<noteq> []" "r = []"
      "p = \<lparr>unsubscribe_packet_identifier = k, unsubscribe_from = fs, unsubscribe_user_properties = us\<rparr>"
    using assms by (auto simp: unsubscribe_decode_def and_then_eq_Inr split: if_splits)
  have "case v of V3 \<Rightarrow> us = [] \<and> s2 = s1
      | V5 \<Rightarrow> list_all (property_ok uc) (user_props us) \<and> snd (encode_all (user_props us)) = None \<and>
          length (enc_bytes (encode_all (user_props us))) + length s2 \<le> length s1"
  proof (cases v)
    case V5
    with parts(2) obtain ps where ps: "decode_properties uc [] [''UserProperty''] s1 = Inr (ps, s2)"
        "us = collected get_user_property ps"
      by (auto simp: dec_map_Inr)
    from decode_properties_valid(2) [OF ps(1) relists_user [OF decode_properties_valid(1) [OF ps(1)]]] V5
    show ?thesis by (simp add: ps(2))
  qed (use parts(2) in simp)
  with parts get_bytes(4) [OF parts(1)] filter_loop_valid [OF parts(3)] show ?thesis
    by (cases v) (auto simp: unsubscribe_ok_def unsubscribe_encode_def is_v5_def)
qed

section \<open>Connection packets\<close>

lemma auth_valid:
  assumes "auth_decode uc v flags src = Inr (p, r)"
  shows "auth_ok uc v p \<and> length (enc_bytes (auth_encode v p)) + length r \<le> max 2 (length src)"
proof (cases src)
  case Nil
  have "snd (encode_all []) = None" "length (enc_bytes (encode_all [])) \<le> 1"
    using encode_all_parts [of uc "[]"] varint_digits_length [of 1 0 4] by simp_all
  with Nil assms show ?thesis
    by (auto simp: auth_decode_def auth_ok_def auth_properties_def authentication_into_parts_def opt_prop_def
        auth_encode_def split: protocol_version.splits)
next
  case (Cons b s1)
  with assms obtain ps where v: "v = V5" and ps: "decode_properties uc auth_single [''UserProperty''] s1 = Inr (ps, r)"
    and p: "authentication_of (bound get_auth_method ps) (bound get_auth_data ps) = Inr (auth_authentication p)"
      "auth_reason_string p = bound get_reason_string ps" "auth_user_properties p = collected get_user_property ps"
    by (auto simp: auth_decode_def and_then_eq_Inr split: protocol_version.splits)
  note ok = decode_properties_valid(1) [OF ps]
  have "\<exists>ks. relists uc ks (auth_properties p) ps"
    unfolding auth_properties_def p(2,3) authentication_parts [OF p(1), THEN conjunct1]
      authentication_parts [OF p(1), THEN conjunct2]
    by (rule exI, (rule relists_rules ok | simp split: property.splits)+)
  with decode_properties_valid(2) [OF ps] have "list_all (property_ok uc) (auth_properties p) \<and>
      snd (encode_all (auth_properties p)) = None \<and>
      length (enc_bytes (encode_all (auth_properties p))) + length r \<le> length s1" by blast
  with v Cons show ?thesis by (auto simp: auth_ok_def auth_encode_def le_max_iff_disj)
qed

lemma disconnect_valid:
  assumes "disconnect_decode uc v src = Inr (p, r)"
  shows "disconnect_ok uc v p \<and> length (enc_bytes (disconnect_encode v p)) + length r \<le> length src"
proof -
  have empty: "list_all (property_ok uc) (disconnect_properties disconnect_other_properties_default)"
      "snd (encode_all (disconnect_properties disconnect_other_properties_default)) = None"
    by (simp_all add: disconnect_properties_def disconnect_other_properties_default_def opt_prop_def encode_all_parts(1) [of uc])
  show ?thesis
  proof (cases "\<exists>b s1 ps. v = V5 \<and> src = b # s1 \<and> decode_properties uc disconnect_single [''UserProperty''] s1 = Inr (ps, r) \<and> s1 \<noteq> []")
    case False
    with assms empty show ?thesis
      by (cases src) (auto simp: disconnect_decode_def disconnect_ok_def disconnect_encode_def and_then_eq_Inr is_v5_def
          disconnect_other_properties_default_def Let_def enc_when_def split: protocol_version.splits if_splits)
  next
    case True
    then obtain b s1 ps where v: "v = V5" and src: "src = b # s1" "s1 \<noteq> []"
      and ps: "decode_properties uc disconnect_single [''UserProperty''] s1 = Inr (ps, r)" by blast
    let ?o = "disconnect_other_properties p"
    have p: "disconnect_session_expiry_interval ?o = bound get_session_expiry ps"
        "disconnect_reason_string ?o = bound get_reason_string ps"
        "disconnect_user_properties ?o = collected get_user_property ps"
        "disconnect_server_reference ?o = bound get_server_reference ps"
      using assms v src ps by (auto simp: disconnect_decode_def and_then_eq_Inr Suc_le_eq split: if_splits)
    note ok = decode_properties_valid(1) [OF ps]
    have "\<exists>ks. relists uc ks (disconnect_properties ?o) ps"
      unfolding disconnect_properties_def p
      by (rule exI, (rule relists_rules ok | simp split: property.splits)+)
    with decode_properties_valid(2) [OF ps] have "list_all (property_ok uc) (disconnect_properties ?o) \<and>
        snd (encode_all (disconnect_properties ?o)) = None \<and>
        length (enc_bytes (encode_all (disconnect_properties ?o))) + length r \<le> length s1" by blast
    with v src show ?thesis by (simp add: disconnect_ok_def disconnect_encode_def Let_def enc_when_def is_v5_def)
  qed
qed

lemma decode_connack_properties_valid:
  assumes "decode_connack_properties uc src = Inr (o1, r)"
  shows "list_all (property_ok uc) (connack_properties o1) \<and> snd (encode_all (connack_properties o1)) = None \<and>
    length (enc_bytes (encode_all (connack_properties o1))) + length r \<le> length src"
proof -
  obtain ps a where ps: "decode_properties uc connack_single [''UserProperty''] src = Inr (ps, r)"
    and a: "authentication_of (bound get_auth_method ps) (bound get_auth_data ps) = Inr a"
    using assms by (auto simp: decode_connack_properties_def and_then_eq_Inr)
  note ok = decode_properties_valid(1) [OF ps]
  have o1: "o1 = fst (projr (decode_connack_properties uc src))" by (simp add: assms)
  have "\<exists>ks. relists uc ks (connack_properties o1) ps"
    unfolding o1 decode_connack_properties_def ps a and_then_Inr prod.case sum.sel fst_conv connack_properties_def
      conn_ack_other_properties.simps authentication_parts [OF a, THEN conjunct1] authentication_parts [OF a, THEN conjunct2]
    by (rule exI, (rule relists_rules ok | simp split: property.splits)+)
  then show ?thesis using decode_properties_valid(2) [OF ps] by blast
qed

lemma connack_valid:
  assumes "connack_decode uc v src = Inr (p, r)"
  shows "connack_ok uc v p \<and> length (enc_bytes (connack_encode v p)) + length r \<le> length src"
proof -
  obtain b s1 c s2 rc o1 where parts: "dec_flag UnrecognizedConnAckFlags src = Inr (b, s1)" "s1 = c # s2"
      "connect_code_try_from v b c = Inr rc"
      "(case v of V3 \<Rightarrow> Inr (conn_ack_other_properties_default, s2) | V5 \<Rightarrow> decode_connack_properties uc s2) = Inr (o1, r)"
      "p = \<lparr>connack_reason_code = rc, connack_other_properties = o1\<rparr>"
    using assms by (auto simp: connack_decode_def and_then_eq_Inr get_bytes(1))
  have "connect_code_ok v rc"
    using parts(3) by (cases v; cases rc) (auto simp: connect_code_try_from_def and_then_eq_Inr split: if_splits)
  with parts dec_flag_bytes [OF parts(1)] show ?thesis
    by (cases v) (auto simp: connack_ok_def connack_encode_def is_v5_def Let_def dest!: decode_connack_properties_valid)
qed


section \<open>CONNECT\<close>

lemma decode_will_properties_valid:
  assumes "decode_will_properties uc src = Inr ((delay, o1), r)"
  shows "list_all (property_ok uc) (will_properties delay o1) \<and> snd (encode_all (will_properties delay o1)) = None \<and>
    length (enc_bytes (encode_all (will_properties delay o1))) + length r \<le> length src"
proof -
  obtain ps where ps: "decode_properties uc will_single [''UserProperty''] src = Inr (ps, r)"
    using assms by (auto simp: decode_will_properties_def and_then_eq_Inr)
  note ok = decode_properties_valid(1) [OF ps]
  have o1: "delay = fst (fst (projr (decode_will_properties uc src)))"
      "o1 = snd (fst (projr (decode_will_properties uc src)))" by (simp_all add: assms)
  have "\<exists>ks. relists uc ks (will_properties delay o1) ps"
    unfolding o1 decode_will_properties_def ps and_then_Inr prod.case sum.sel fst_conv snd_conv will_properties_def
      publication_other_properties.simps
    by (rule exI, (rule relists_rules ok | simp split: property.splits)+)
  then show ?thesis using decode_properties_valid(2) [OF ps] by blast
qed

lemma connect_properties_valid:
  assumes "decode_properties uc connect_single [''UserProperty''] src = Inr (ps, r)"
    and "authentication_of (bound get_auth_method ps) (bound get_auth_data ps) = Inr a"
  shows "list_all (property_ok uc) (connect_properties (connect_properties_of ps a)) \<and>
    snd (encode_all (connect_properties (connect_properties_of ps a))) = None \<and>
    length (enc_bytes (encode_all (connect_properties (connect_properties_of ps a)))) + length r \<le> length src"
proof -
  have "\<exists>ks. relists uc ks (connect_properties (connect_properties_of ps a)) ps"
    unfolding connect_properties_def connect_properties_of_def connect_other_properties.simps
      authentication_parts [OF assms(2), THEN conjunct1] authentication_parts [OF assms(2), THEN conjunct2]
    by (rule exI, (rule relists_rules decode_properties_valid(1) [OF assms(1)] | simp split: property.splits)+)
  then show ?thesis using decode_properties_valid(2) [OF assms(1)] by blast
qed

lemma decode_will_valid:
  assumes "decode_will uc
      (case v of V3 \<Rightarrow> (\<lambda>src. Inr ((0, publication_other_properties_default), src)) | V5 \<Rightarrow> decode_will_properties uc)
      flags src = Inr (w, r)"
  shows "pred_option (will_ok uc v) w \<and> length (enc_bytes (enc_opt (encode_will v) w)) + length r \<le> length src"
proof (cases w)
  case None
  with assms show ?thesis by (auto simp: decode_will_def enc_opt_def and_then_eq_Inr split: if_splits)
next
  case (Some wd)
  obtain will delay where wd: "wd = (will, delay)" by (cases wd)
  let ?o = "publication_other_properties will"
  obtain s1 s2 payload where parts:
      "(case v of V3 \<Rightarrow> (\<lambda>src. Inr ((0, publication_other_properties_default), src)) | V5 \<Rightarrow> decode_will_properties uc) src =
        Inr ((delay, ?o), s1)"
      "topic_decode uc s1 = Inr (Some (publication_topic_name will, s2))" "binary_decode s2 = Some (payload, r)"
      "publication_payload will = drop 2 (bd_shared payload)"
    using assms by (auto simp: decode_will_def and_then_eq_Inr required_Inr ok_or_eq_Inr Some wd split: if_splits)
  have pay: "length (publication_payload will) \<le> 65535" "length (publication_payload will) + 2 + length r = length s2"
    using str_decode_length(4) [OF parts(3)] u16_bound by (auto simp: parts(4) less_Suc_eq_le [symmetric] elim!: binary_okE)
  have "case v of V3 \<Rightarrow> delay = 0 \<and> ?o = publication_other_properties_default \<and> s1 = src
      | V5 \<Rightarrow> list_all (property_ok uc) (will_properties delay ?o) \<and> snd (encode_all (will_properties delay ?o)) = None \<and>
          length (enc_bytes (encode_all (will_properties delay ?o))) + length s1 \<le> length src"
    using parts(1) by (cases v) (auto dest: decode_will_properties_valid)
  with pay str_decode_length(2) [OF parts(2)] show ?thesis
    by (cases v) (auto simp: Some wd will_ok_def enc_opt_def encode_will_def is_v5_def Let_def)
qed

lemma decode_client_id_valid:
  assumes "decode_client_id uc src = Inr (i, r)"
  shows "pred_option (\<lambda>s. str_ok uc s \<and> \<not> binary_is_empty (bs_binary s)) i \<and>
    length (enc_bytes (case i of Some s \<Rightarrow> str_encode s | None \<Rightarrow> put_slice [0x00, 0x00])) + length r \<le> length src"
  using assms
  by (auto simp: decode_client_id_def dec_map_Inr required_Inr binary_is_empty_def dest!: str_decode_length(1))

lemma dec_when_valid:
  "dec_when b (\<lambda>src. required (str_decode uc src)) src = Inr (u, r) \<Longrightarrow>
     pred_option (str_ok uc) u \<and> (u = None \<longleftrightarrow> \<not> b) \<and> length (enc_bytes (enc_opt str_encode u)) + length r \<le> length src"
  "dec_when b (\<lambda>src. ok_or (binary_decode src) IncompletePacket) src = Inr (p, r) \<Longrightarrow>
     pred_option binary_ok p \<and> (p = None \<longleftrightarrow> \<not> b) \<and> length (enc_bytes (enc_opt binary_encode p)) + length r \<le> length src"
  by (auto simp: dec_when_def dec_map_Inr required_Inr ok_or_eq_Inr enc_opt_def split: if_splits
      dest!: str_decode_length(1,4))

lemma decode_start_length: "decode_start uc flags src = Inr (v, r) \<Longrightarrow> 7 + length r = length src"
proof -
  assume "decode_start uc flags src = Inr (v, r)"
  then obtain s b s1 where s: "str_decode uc src = Inr (Some (s, s1))" "str_as_ref s = PROTOCOL_NAME_STR" "s1 = b # r"
    by (auto simp: decode_start_def and_then_eq_Inr required_Inr get_bytes(1) split: if_splits)
  have "length (str_wire s) = 6"
    using str_decode_length(1) [OF s(1)] s(2)
    by (cases s) (auto simp: str_ok_def str_as_ref_def binary_as_bytes_def PROTOCOL_NAME_STR_def elim!: binary_okE)
  with str_decode_length(1) [OF s(1)] s(3) show ?thesis by simp
qed


text \<open>The parts that follow the flags and the keep alive interval, as they are encoded.\<close>

definition connect_parts_length :: "protocol_version \<Rightarrow> connect \<Rightarrow> nat" where
  "connect_parts_length v p =
     length (enc_bytes (enc_when (is_v5 v) (encode_all (connect_properties (connect_other_properties p))))) +
     length (enc_bytes (case connect_client_id p of Some s \<Rightarrow> str_encode s | None \<Rightarrow> put_slice [0x00, 0x00])) +
     length (enc_bytes (enc_opt (encode_will v) (connect_will p))) +
     length (enc_bytes (enc_opt str_encode (connect_username p))) +
     length (enc_bytes (enc_opt binary_encode (connect_password p)))"

lemma connect_encode_length:
  assumes "connect_ok uc v p"
  shows "length (enc_bytes (connect_encode v p)) \<le> 10 + connect_parts_length v p"
proof -
  have "snd (enc_opt (encode_will v) (connect_will p)) = None"
    using assms by (intro enc_opt_None(3) [of uc]) (simp add: connect_ok_def)
  moreover have "snd (enc_when (is_v5 v) (encode_all (connect_properties (connect_other_properties p)))) = None"
    using assms by (cases v) (simp_all add: connect_ok_def is_v5_def)
  moreover have "snd (case connect_client_id p of Some s \<Rightarrow> str_encode s | None \<Rightarrow> put_slice [0x00, 0x00]) = None"
    by (simp split: option.split)
  ultimately show ?thesis
    using enc_opt_None(1,2) by (simp add: connect_encode_def PROTOCOL_NAME_def connect_parts_length_def)
qed

lemma password_needs_username:
  assumes "b AND (CONNECT_FLAGS_USERNAME OR CONNECT_FLAGS_PASSWORD) \<noteq> 0b01000000"
    and "b AND CONNECT_FLAGS_USERNAME = 0"
  shows "b AND CONNECT_FLAGS_PASSWORD = 0"
proof -
  have "b AND 2 ^ i = (if bit b i then 2 ^ i else 0)" for i
    by (rule bit_word_eqI) (auto simp: bit_and_iff bit_exp_iff)
  from this [of 6] have "b AND 64 = (if bit b 6 then 64 else 0)" by simp
  with assms show ?thesis by (simp add: CONNECT_FLAGS_PASSWORD_def bit.conj_disj_distrib split: if_splits)
qed

lemma decode_rest_v3_valid:
  assumes "decode_rest_v3 uc s0 = Inr (p, r)"
  shows "connect_ok uc V3 p \<and> 3 + connect_parts_length V3 p + length r \<le> length s0"
proof -
  obtain b s1 ka s2 i s3 w s4 u s5 pw where parts: "s0 = b # s1" "try_get_u16_be s1 = Inr (ka, s2)"
      "decode_client_id uc s2 = Inr (i, s3)"
      "decode_will uc (\<lambda>src. Inr ((0, publication_other_properties_default), src)) b s3 = Inr (w, s4)"
      "dec_when (b AND CONNECT_FLAGS_USERNAME \<noteq> 0) (\<lambda>src. required (str_decode uc src)) s4 = Inr (u, s5)"
      "dec_when (b AND CONNECT_FLAGS_PASSWORD \<noteq> 0) (\<lambda>src. ok_or (binary_decode src) IncompletePacket) s5 = Inr (pw, r)"
    and flags: "b AND (CONNECT_FLAGS_USERNAME OR CONNECT_FLAGS_PASSWORD) \<noteq> 0b01000000"
      "i = None \<longrightarrow> b AND CONNECT_FLAGS_CLEAN_SESSION \<noteq> 0"
    and p: "p = \<lparr>connect_username = u, connect_password = pw, connect_will = w, connect_client_id = i,
       connect_clean_start = (b AND CONNECT_FLAGS_CLEAN_SESSION \<noteq> 0), connect_keep_alive = keep_alive_from_u16 ka,
       connect_other_properties = connect_other_properties_default
         \<lparr>connect_session_expiry_interval :=
            if b AND CONNECT_FLAGS_CLEAN_SESSION \<noteq> 0 then ExpiryDuration 0 else ExpiryInfinite\<rparr>\<rparr>"
    using assms by (auto simp: decode_rest_v3_def and_then_eq_Inr get_bytes(1) Let_def split: if_splits)
  with get_bytes(2) [OF parts(2)] decode_client_id_valid [OF parts(3)] decode_will_valid [of uc V3 b s3 w s4]
    dec_when_valid(1) [OF parts(5)] dec_when_valid(2) [OF parts(6)] password_needs_username [OF flags(1)]
  show ?thesis by (auto simp: connect_parts_length_def connect_ok_def is_v5_def integer_variants)
qed

lemma decode_rest_v5_valid:
  assumes "decode_rest_v5 uc s0 = Inr (p, r)"
  shows "connect_ok uc V5 p \<and> 3 + connect_parts_length V5 p + length r \<le> length s0"
proof -
  obtain b s1 ka s2 ps s2' i s3 w s4 u s5 pw a where parts: "s0 = b # s1" "try_get_u16_be s1 = Inr (ka, s2)"
      "decode_properties uc connect_single [''UserProperty''] s2 = Inr (ps, s2')"
      "decode_client_id uc s2' = Inr (i, s3)" "decode_will uc (decode_will_properties uc) b s3 = Inr (w, s4)"
      "dec_when (b AND CONNECT_FLAGS_USERNAME \<noteq> 0) (\<lambda>src. required (str_decode uc src)) s4 = Inr (u, s5)"
      "dec_when (b AND CONNECT_FLAGS_PASSWORD \<noteq> 0) (\<lambda>src. ok_or (binary_decode src) IncompletePacket) s5 = Inr (pw, r)"
      "authentication_of (bound get_auth_method ps) (bound get_auth_data ps) = Inr a"
    and p: "p = \<lparr>connect_username = u, connect_password = pw, connect_will = w, connect_client_id = i,
       connect_clean_start = (b AND CONNECT_FLAGS_CLEAN_SESSION \<noteq> 0), connect_keep_alive = keep_alive_from_u16 ka,
       connect_other_properties = connect_properties_of ps a\<rparr>"
    using assms by (auto simp: decode_rest_v5_def and_then_eq_Inr get_bytes(1) split: if_splits)
  with get_bytes(2) [OF parts(2)] connect_properties_valid [OF parts(3,8)] decode_client_id_valid [OF parts(4)]
    decode_will_valid [of uc V5 b s3 w s4] dec_when_valid(1) [OF parts(6)] dec_when_valid(2) [OF parts(7)]
  show ?thesis by (auto simp: connect_parts_length_def connect_ok_def is_v5_def integer_variants)
qed

lemma connect_valid:
  assumes "connect_decode uc v flags src = Inr (p, r)"
  shows "connect_ok uc v p \<and> length (enc_bytes (connect_encode v p)) + length r \<le> length src"
proof -
  obtain s0 where start: "decode_start uc flags src = Inr (v, s0)"
    and rest: "(case v of V3 \<Rightarrow> decode_rest_v3 uc s0 | V5 \<Rightarrow> decode_rest_v5 uc s0) = Inr (p, r)"
    using assms by (auto simp: connect_decode_def and_then_eq_Inr split: if_splits)
  have ok: "connect_ok uc v p" "3 + connect_parts_length v p + length r \<le> length s0"
    using rest by (cases v; auto dest: decode_rest_v3_valid decode_rest_v5_valid)+
  with connect_encode_length [OF ok(1)] decode_start_length [OF start] show ?thesis by simp
qed

section \<open>Packets\<close>

lemma packet_decode_valid:
  assumes "packet_decode uc v first_byte body = Inr p"
  shows "packet_ok uc v p \<and>
    length (enc_bytes (packet_body v p)) \<le> (case p of AuthPacket _ \<Rightarrow> max 2 (length body) | _ \<Rightarrow> length body)"
proof -
  have "packet_decode_body uc v first_byte body = Inr (p, [])"
    using assms by (auto simp: packet_decode_def and_then_eq_Inr split: if_splits)
  then show ?thesis
    by (auto simp: packet_decode_body_def Let_def dec_map_Inr pingreq_encode_def pingresp_encode_def
        split: if_splits dest!: auth_valid connack_valid connect_valid disconnect_valid acks_valid publish_valid
          suback_valid subscribe_valid unsuback_valid unsubscribe_valid)
qed

lemma packet_decode_full_valid:
  assumes "packet_decode_full uc v src = Inr p"
  shows "packet_ok uc v p" and "length (enc_bytes (packet_body v p)) < varint_limit"
proof -
  obtain first_byte n body where h: "decode_fixed_header src = Inr (Some ((first_byte, n), body))" "length body = n"
    and p: "packet_decode uc v first_byte body = Inr p"
    using assms by (auto simp: packet_decode_full_def and_then_eq_Inr required_Inr split: if_splits)
  have "n < varint_limit"
    using h(1) decode_varint_bound
    by (auto simp: decode_fixed_header_def decode_remaining_length_def and_then_eq_Inr simp del: power_numeral split: list.splits)
  with packet_decode_valid [OF p] h(2)
  show "packet_ok uc v p" and "length (enc_bytes (packet_body v p)) < varint_limit" by (auto split: packet.splits)
qed

end
