(* ===== verification/Decoding_Returns.thy ===== *)
theory Decoding_Returns
  imports Packet_Codec
begin

text \<open>
  Decoding returns on every input. The loops of the decoders end because each round takes bytes;
  the one that does so by what the UTF-8 decoder reports is that of the string validation, where
  \<open>NoProgress\<close> stands for a decoder that takes none. A decoder \<open>returns\<close> when that does not occur.
\<close>

definition returns :: "decode_error + 'a \<Rightarrow> bool" where
  "returns d \<longleftrightarrow> d \<noteq> Inl NoProgress"

lemma returns_Inr [simp, intro]: "returns (Inr x)"
  by (simp add: returns_def)

lemma returns_Inl [simp]: "returns (Inl e) \<longleftrightarrow> e \<noteq> NoProgress"
  by (simp add: returns_def)

lemma returns_and_then [intro]: "returns d \<Longrightarrow> (\<And>x. d = Inr x \<Longrightarrow> returns (f x)) \<Longrightarrow> returns (and_then d f)"
  by (auto simp: returns_def and_then_eq_Inl)

lemma returns_if [intro]: "(b \<Longrightarrow> returns x) \<Longrightarrow> (\<not> b \<Longrightarrow> returns y) \<Longrightarrow> returns (if b then x else y)"
  by simp

lemma returns_version [intro]:
  "(v = V3 \<Longrightarrow> returns x) \<Longrightarrow> (v = V5 \<Longrightarrow> returns y) \<Longrightarrow> returns (case v of V3 \<Rightarrow> x | V5 \<Rightarrow> y)"
  by (cases v) auto

lemma returns_pair [intro]: "(\<And>a b. x = (a, b) \<Longrightarrow> returns (f a b)) \<Longrightarrow> returns (case x of (a, b) \<Rightarrow> f a b)"
  by (cases x) auto

lemma returns_pair_app: "(\<And>a b. x = (a, b) \<Longrightarrow> returns (f a b y)) \<Longrightarrow> returns ((case x of (a, b) \<Rightarrow> f a b) y)"
  by (cases x) auto

lemma returns_option [intro]:
  "(x = None \<Longrightarrow> returns d) \<Longrightarrow> (\<And>y. x = Some y \<Longrightarrow> returns (f y)) \<Longrightarrow> returns (case x of None \<Rightarrow> d | Some y \<Rightarrow> f y)"
  by (cases x) auto

lemma returns_ok_or [simp, intro]: "e \<noteq> NoProgress \<Longrightarrow> returns (ok_or v e)"
  by (cases v) auto

lemma returns_required [intro]: "returns d \<Longrightarrow> returns (required d)"
  unfolding required_def by (rule returns_and_then) auto

lemma returns_dec_map [intro]: "returns d \<Longrightarrow> returns (dec_map c d)"
  unfolding dec_map_def by (rule returns_and_then) auto

lemma returns_ints [simp, intro]:
  "returns (try_get_u8 src)" "returns (try_get_u16_be src)" "returns (try_get_u32_be src)"
  "returns (try_get_packet_identifier src)"
proof -
  show "returns (try_get_u8 src)" by (cases src rule: try_get_u8.cases) auto
  show u16: "returns (try_get_u16_be src)" by (cases src rule: try_get_u16_be.cases) auto
  show "returns (try_get_u32_be src)" by (cases src rule: try_get_u32_be.cases) auto
  show "returns (try_get_packet_identifier src)"
    unfolding try_get_packet_identifier_def using u16 by auto
qed

lemma returns_dec_flag [intro]: "(\<And>b. err b \<noteq> NoProgress) \<Longrightarrow> returns (dec_flag err src)"
  unfolding dec_flag_def by (rule returns_and_then) auto

lemma returns_dec_nonzero [intro]:
  "(\<And>b. err b \<noteq> NoProgress) \<Longrightarrow> returns d \<Longrightarrow> returns (dec_nonzero err d)"
  unfolding dec_nonzero_def by (rule returns_and_then) auto

lemma returns_code [intro]: "(\<And>b. err b \<noteq> NoProgress) \<Longrightarrow> returns (code_try_from err table b)"
  by (auto simp: code_try_from_def split: option.split)

lemma returns_varint [simp, intro]: "returns (decode_varint src)"
proof -
  have "returns (decode_varint_loop r n src)" for r n
    by (induction r n src rule: decode_varint_loop.induct) (auto simp: Let_def)
  then show ?thesis by (simp add: decode_varint_def)
qed

lemma returns_lengths [simp, intro]:
  "returns (decode_remaining_length src)" "returns (decode_fixed_header src)" "returns (decode_all src)"
proof -
  show n: "returns (decode_remaining_length src)" for src
    unfolding decode_remaining_length_def by (rule returns_and_then) auto
  show "returns (decode_fixed_header src)" by (cases src) (auto simp: decode_fixed_header_def n)
  show "returns (decode_all src)" unfolding decode_all_def by (intro returns_and_then returns_required n) auto
qed

section \<open>Strings, filters and properties\<close>

lemma returns_validate [intro]: "utf8_ok uc \<Longrightarrow> returns (validate_mqtt_string uc b)"
  using validate_returns by (auto simp: returns_def)

lemmas returns_rules = returns_and_then returns_pair returns_pair_app returns_if returns_version returns_option returns_dec_map
  returns_dec_flag returns_dec_nonzero returns_required returns_ints returns_ok_or returns_varint returns_lengths
  returns_validate returns_code

lemma returns_str [intro]: "utf8_ok uc \<Longrightarrow> returns (str_decode uc src)"
  unfolding str_decode_def by (intro returns_rules) auto

lemma returns_topic_new [intro]: "utf8_ok uc \<Longrightarrow> returns (topic_new uc as_ref s)"
  unfolding topic_new_def Let_def by (intro returns_rules) auto

lemma returns_topic [intro]: "utf8_ok uc \<Longrightarrow> returns (topic_decode uc src)"
  unfolding topic_decode_def by (intro returns_rules returns_str returns_topic_new) auto

lemma returns_group_end: "returns (group_end inner i s)"
  by (induction inner i s rule: group_end.induct) auto

lemma returns_classify [intro]: "returns (filter_classify s)"
  unfolding filter_classify_def Let_def by (intro returns_rules returns_group_end) auto

lemma returns_filter_new [intro]: "utf8_ok uc \<Longrightarrow> returns (filter_new uc as_ref s)"
  unfolding filter_new_def Let_def by (intro returns_rules returns_classify) auto

lemma returns_filter [intro]: "utf8_ok uc \<Longrightarrow> returns (filter_decode uc src)"
  unfolding filter_decode_def by (intro returns_rules returns_str returns_filter_new) auto

lemma returns_property: "utf8_ok uc \<Longrightarrow> returns (decode_property uc src)"
  unfolding decode_property_def by (intro returns_rules returns_str returns_topic) auto

lemma returns_decode_loop: "utf8_ok uc \<Longrightarrow> returns (decode_loop uc single many seen src)"
proof (induction uc single many seen src rule: decode_loop.induct)
  case (1 uc single many seen src)
  with returns_property [of uc src] show ?case
    by (subst decode_loop.simps) (auto split: sum.split)
qed

lemma returns_properties [intro]: "utf8_ok uc \<Longrightarrow> returns (decode_properties uc single many src)"
  unfolding decode_properties_def by (auto intro: returns_decode_loop)


section \<open>Packets\<close>

lemmas returns_parts = returns_rules returns_str returns_topic returns_filter returns_properties

lemma returns_ack_properties [intro]: "utf8_ok uc \<Longrightarrow> returns (decode_ack_properties uc src)"
  unfolding decode_ack_properties_def by (intro returns_parts) auto

text \<open>A reason code that may be left out.\<close>

lemma returns_optional_code:
  assumes "\<And>b r. returns (f b r)" and "returns d"
  shows "returns (case try_get_u8 src of Inr (b, r) \<Rightarrow> f b r | Inl IncompletePacket \<Rightarrow> d | Inl err \<Rightarrow> Inl err)"
  using assms by (cases src) auto

lemma returns_ack:
  assumes "utf8_ok uc" and "\<And>b. returns (try_from b)"
  shows "returns (decode_ack uc v try_from success src)"
  unfolding decode_ack_def using assms by (intro returns_parts returns_optional_code returns_ack_properties) auto

lemma returns_codes: "(\<And>b. returns (f b)) \<Longrightarrow> returns (collect_codes f src)"
  by (induction src) (auto intro!: returns_and_then)

lemma returns_subscribe_code: "returns (subscribe_code_try_from v b)"
  unfolding subscribe_code_try_from_def by (intro returns_parts) auto

lemma returns_acks:
  assumes "utf8_ok uc"
  shows "returns (puback_decode uc v src)" "returns (pubrec_decode uc v src)" "returns (pubrel_decode uc v src)"
    "returns (pubcomp_decode uc v src)" "returns (suback_decode uc v src)" "returns (unsuback_decode uc v src)"
  unfolding puback_decode_def pubrec_decode_def pubrel_decode_def pubcomp_decode_def suback_decode_def unsuback_decode_def
  using assms by (intro returns_parts returns_ack returns_ack_properties returns_codes returns_subscribe_code; simp)+

lemma returns_publish: "utf8_ok uc \<Longrightarrow> returns (publish_decode uc v flags src)"
  unfolding publish_decode_def decode_publish_properties_def Let_def by (intro returns_parts) auto

lemma returns_subscribe_to: "utf8_ok uc \<Longrightarrow> returns (subscribe_to_decode uc v src)"
  unfolding subscribe_to_decode_def options_decode_def by (intro returns_parts) auto

lemma returns_subscribe_loop: "utf8_ok uc \<Longrightarrow> returns (subscribe_to_loop uc v src)"
proof (induction uc v src rule: subscribe_to_loop.induct)
  case (1 uc v src)
  with returns_subscribe_to [of uc v src] show ?case
    by (subst subscribe_to_loop.simps) (auto split: sum.split intro!: returns_and_then)
qed

lemma returns_filter_loop: "utf8_ok uc \<Longrightarrow> returns (filter_loop uc src)"
proof (induction uc src rule: filter_loop.induct)
  case (1 uc src)
  with returns_required [OF returns_filter, of uc src] show ?case
    by (subst filter_loop.simps) (auto split: sum.split intro!: returns_and_then)
qed

lemma returns_messages:
  assumes "utf8_ok uc"
  shows "returns (subscribe_decode uc v src)" "returns (unsubscribe_decode uc v src)"
  unfolding subscribe_decode_def subscribe_properties_decode_def unsubscribe_decode_def
  using assms by (intro returns_parts returns_subscribe_loop returns_filter_loop; simp)+

lemma returns_authentication [intro]: "returns (authentication_of m d)"
  by (auto simp: authentication_of_def split: option.split)

lemma returns_connect_code: "returns (connect_code_try_from v b c)"
  unfolding connect_code_try_from_def by (intro returns_parts) auto

lemma returns_connection:
  assumes "utf8_ok uc"
  shows "returns (auth_decode uc v flags src)" "returns (disconnect_decode uc v src)" "returns (connack_decode uc v src)"
  unfolding auth_decode_def disconnect_decode_def connack_decode_def decode_connack_properties_def
  using assms by (intro returns_parts returns_optional_code returns_authentication returns_connect_code; simp)+

lemma returns_will:
  assumes "utf8_ok uc" and "\<And>src. returns (properties src)"
  shows "returns (decode_will uc properties flags src)"
  unfolding decode_will_def decode_will_qos_def Let_def using assms by (intro returns_parts) auto

lemma returns_will_properties: "utf8_ok uc \<Longrightarrow> returns (decode_will_properties uc src)"
  unfolding decode_will_properties_def by (intro returns_parts) auto

lemma returns_dec_when: "(\<And>src. returns (d src)) \<Longrightarrow> returns (dec_when b d src)"
  unfolding dec_when_def by (intro returns_parts) auto

lemma returns_connect: "utf8_ok uc \<Longrightarrow> returns (connect_decode uc v flags src)"
  unfolding connect_decode_def decode_start_def decode_rest_v3_def decode_rest_v5_def decode_client_id_def Let_def
  by (intro returns_parts returns_will returns_will_properties returns_dec_when returns_authentication) auto

lemma returns_packet:
  assumes "utf8_ok uc"
  shows "returns (packet_decode uc v first_byte body)"
  unfolding packet_decode_def packet_decode_body_def pingreq_decode_def pingresp_decode_def Let_def
  using assms
  by (intro returns_parts returns_acks returns_publish returns_messages returns_connection returns_connect; simp)

lemma returns_full: "utf8_ok uc \<Longrightarrow> returns (packet_decode_full uc v src)"
  unfolding packet_decode_full_def by (intro returns_parts returns_packet) auto

end
