(* ===== verification/Fuzz_Targets.thy ===== *)
theory Fuzz_Targets
  imports Codec_Properties Decoded_Packets Decoding_Returns
begin

text \<open>
  The fuzz targets of the repository (src/fuzz): the oracles that the decoder terminates, that a
  decoded packet encodes and decodes to itself, and that topics can be validated and matched. Here
  they are functions of their input, and what fuzzing tries on some inputs is shown for all of them.
\<close>

unbundle bit_operations_syntax

section \<open>The targets\<close>

datatype corpus = Keep | Reject

definition split_version :: "bytes \<Rightarrow> (protocol_version \<times> bytes) option" where
  "split_version data =
     (case data of
        [] \<Rightarrow> None
      | selector # packet \<Rightarrow> Some (if selector AND 1 = 0 then V3 else V5, packet))"

definition fuzz_packet_decode :: "unicode \<Rightarrow> bytes \<Rightarrow> corpus poll" where
  "fuzz_packet_decode uc data =
     (case split_version data of
        None \<Rightarrow> Ready Reject
      | Some (version, src) \<Rightarrow>
          if packet_decode_full uc version src = Inl NoProgress then Diverges else Ready Keep)"

definition fuzz_packet_roundtrip :: "unicode \<Rightarrow> bytes \<Rightarrow> corpus poll" where
  "fuzz_packet_roundtrip uc data =
     (case split_version data of
        None \<Rightarrow> Ready Reject
      | Some (version, src) \<Rightarrow>
          (case packet_decode_full uc version src of
             Inl e \<Rightarrow> if e = NoProgress then Diverges else Ready Reject
           | Inr packet \<Rightarrow>
               (case run_enc single_try_put_slice single_put_shared single_put_done (packet_encode version packet) [] of
                  (_, Some e) \<Rightarrow> Panic ''a packet that decoded successfully must re-encode''
                | (encoded, None) \<Rightarrow>
                    (case packet_decode_full uc version encoded of
                       Inl e \<Rightarrow> if e = NoProgress then Diverges else Panic ''a freshly-encoded packet must decode''
                     | Inr redecoded \<Rightarrow>
                         if packet \<noteq> redecoded then Panic ''decode/encode round-trip mismatch'' else Ready Keep))))"

definition fuzz_topics :: "unicode \<Rightarrow> bytes \<times> bytes \<Rightarrow> unit poll" where
  "fuzz_topics uc input =
     (let (f, t) = input
      in case topic_filter_new uc f of
           Inl e \<Rightarrow> if e = NoProgress then Diverges else Ready ()
         | Inr f \<Rightarrow>
             (case topic_name_new uc t of
                Inl e \<Rightarrow> if e = NoProgress then Diverges else Ready ()
              | Inr t \<Rightarrow> let _ = matches_topic_name f t in Ready ()))"

section \<open>What they show\<close>

lemma decoded_encodes:
  assumes "utf8_ascii uc" and "packet_decode_full uc v src = Inr p"
  shows "snd (packet_encode v p) = None" and "packet_decode_full uc v (enc_bytes (packet_encode v p)) = Inr p"
proof -
  note ok = packet_decode_full_valid [OF assms(2)]
  show none: "snd (packet_encode v p) = None" using packet_encode_bytes(1) [OF ok(1) assms(1) ok(2)] .
  show "packet_decode_full uc v (enc_bytes (packet_encode v p)) = Inr p"
    using packet_full_roundtrip [OF ok(1) assms(1) none] .
qed

lemma decoded_encoding_length:
  assumes "utf8_ascii uc" and "packet_decode_full uc v src = Inr p"
  shows "length (enc_bytes (packet_encode v p)) \<le> (case p of AuthPacket _ \<Rightarrow> max 4 (length src) | _ \<Rightarrow> length src)"
proof -
  let ?n = "length (enc_bytes (packet_body v p))"
  obtain first_byte rest m body where src: "src = first_byte # rest" "decode_varint rest = Inr (Some (m, body))"
    and p: "packet_decode uc v first_byte body = Inr p" and len: "length body = unat m"
    using assms(2)
    by (auto simp: packet_decode_full_def decode_fixed_header_def decode_remaining_length_def and_then_eq_Inr
        required_Inr split: if_splits list.splits)
  obtain k where k: "0 < k" "length rest = k + length body" "unat m < 128 ^ k"
    using decode_varint_value [OF src(2)] .
  note valid = packet_decode_valid [OF p]
  have digits: "length (varint_digits 4 ?n) \<le> (if ?n \<le> length body then k else 1)"
    using valid k len varint_digits_length [of k ?n 4] varint_digits_length [of 1 ?n 4] by (auto split: packet.splits)
  show ?thesis
    using packet_encode_bytes(2) [OF packet_decode_full_valid(1) [OF assms(2)] assms(1) packet_decode_full_valid(2) [OF assms(2)]]
      digits valid k src(1) by (auto split: if_splits packet.splits)
qed

lemma single_run: "run_enc single_try_put_slice single_put_shared single_put_done e a = (a @ enc_bytes e, snd e)"
  using single.run_enc_fits [where e = e and a = a] by (auto simp: fold_append enc_bytes_def)


section \<open>Properties\<close>

text \<open>C6. Decoding and encoding agree: whatever bytes decode to a packet, that packet can be encoded
  again, the encoding decodes to the same packet, and it is no longer than the bytes it came from,
  with one exception: an AUTH may come in two or three bytes and is encoded in four, with the reason
  code and the property length that the wire may leave out.\<close>

theorem decoded_packet_reencodes:
  assumes "utf8_ascii uc" and "packet_decode_full uc v src = Inr p"
  shows "snd (packet_encode v p) = None \<and> packet_decode_full uc v (enc_bytes (packet_encode v p)) = Inr p \<and>
    length (enc_bytes (packet_encode v p)) \<le> (case p of AuthPacket _ \<Rightarrow> max 4 (length src) | _ \<Rightarrow> length src)"
  using decoded_encodes [OF assms] decoded_encoding_length [OF assms] by blast

text \<open>The sample packet with its remaining length written in two bytes where one is enough.\<close>

definition overlong_wire :: bytes where
  "overlong_wire = [0x3B, 0x90, 0] @ drop 2 sample_wire"

lemma overlong_decodes: "packet_decode_full ascii_unicode V5 overlong_wire = Inr (PublishPacket sample_publish)"
proof -
  have "decode_fixed_header overlong_wire = Inr (Some ((0x3B, 16), drop 2 sample_wire))"
    by (simp add: decode_fixed_header_def decode_remaining_length_def decode_varint_def overlong_wire_def)
  moreover have "decode_fixed_header sample_wire = Inr (Some ((0x3B, 16), drop 2 sample_wire))"
    by (simp add: decode_fixed_header_def decode_remaining_length_def decode_varint_def sample_wire_def)
  ultimately have "packet_decode_full ascii_unicode V5 overlong_wire = packet_decode_full ascii_unicode V5 sample_wire"
    by (simp add: packet_decode_full_def required_def)
  then show ?thesis
    using packet_full_roundtrip [OF sample_publish_ok ascii_unicode_ok(1) sample_encodes(1)] sample_encodes(2) by simp
qed

theorem decoded_packet_reencodes_witness:
  "packet_decode_full ascii_unicode V5 overlong_wire = Inr (PublishPacket sample_publish) \<and>
   snd (packet_encode V5 (PublishPacket sample_publish)) = None \<and>
   length (enc_bytes (packet_encode V5 (PublishPacket sample_publish))) \<le> 19"
  using decoded_packet_reencodes [OF ascii_unicode_ok(1) overlong_decodes] overlong_decodes
  by (simp add: overlong_wire_def sample_wire_def)

text \<open>C7. Every fuzz target passes on every input: with a UTF-8 decoder that makes progress, decoding
  returns, the round trip oracle neither panics nor hangs, whatever bytes it is given, and topic
  names and filters are validated and matched.\<close>

theorem fuzz_targets_pass:
  assumes "utf8_ok uc" and "utf8_ascii uc"
  shows "(\<exists>c. fuzz_packet_decode uc data = Ready c) \<and> (\<exists>c. fuzz_packet_roundtrip uc data = Ready c) \<and>
    fuzz_topics uc input = Ready ()"
proof (intro conjI)
  have dec: "packet_decode_full uc v src \<noteq> Inl NoProgress" for v src
    using returns_full [OF assms(1)] by (simp add: returns_def)
  then show "\<exists>c. fuzz_packet_decode uc data = Ready c"
    by (auto simp: fuzz_packet_decode_def split: option.split)
  show "\<exists>c. fuzz_packet_roundtrip uc data = Ready c"
  proof (cases "split_version data")
    case (Some vs)
    obtain v src where vs: "vs = (v, src)" by (cases vs)
    show ?thesis
    proof (cases "packet_decode_full uc v src")
      case (Inr p)
      with decoded_encodes [OF assms(2) Inr] Some vs show ?thesis
        by (simp add: fuzz_packet_roundtrip_def single_run)
    qed (use Some vs dec [of v src] in \<open>simp add: fuzz_packet_roundtrip_def\<close>)
  qed (simp add: fuzz_packet_roundtrip_def)
  have "returns (topic_filter_new uc f)" "returns (topic_name_new uc t)" for f t
    using assms(1) by (auto simp: topic_filter_new_def topic_name_new_def)
  then show "fuzz_topics uc input = Ready ()"
    by (auto simp: fuzz_topics_def returns_def Let_def split: prod.split sum.split)
qed

theorem fuzz_targets_pass_witness:
  "\<exists>c. fuzz_packet_roundtrip ascii_unicode (1 # overlong_wire) = Ready c"
  using fuzz_targets_pass [OF ascii_unicode_ok(2,1)] by blast

end
