(* ===== verification/Http_Proxy.thy ===== *)
theory Http_Proxy
  imports Stream_Io
begin

text \<open>
  The HTTP \<open>CONNECT\<close> exchange with a proxy (src/src/io/stream.rs): the request that is sent, and how
  the response is read, line by line within a limit of 64 KiB. A Rust \<open>str\<close> is its UTF-8 bytes.
  What the exchange needs of the stream below it are parameters: sending all of a buffer, wrapping
  the stream in a buffered reader, reading a line of at most so many bytes, and unwrapping it.
\<close>

section \<open>Strings\<close>

definition CR :: u8 where "CR = 13"
definition LF :: u8 where "LF = 10"
definition SP :: u8 where "SP = 32"
definition COLON :: u8 where "COLON = 58"

lemmas char_defs = CR_def LF_def SP_def COLON_def

abbreviation crlf :: bytes where "crlf \<equiv> [CR, LF]"

definition is_ascii_control :: "u8 \<Rightarrow> bool" where
  "is_ascii_control b \<longleftrightarrow> b < 32 \<or> b = 127"

text \<open>
  The characters with the property \<open>White_Space\<close>, which \<open>str::split_whitespace\<close> and \<open>str::trim\<close> look
  for: the number of bytes of the one the string starts with, or 0. No character that is longer
  than one byte has one of these sequences inside it.
\<close>

fun whitespace_len :: "bytes \<Rightarrow> nat" where
  "whitespace_len [] = 0"
| "whitespace_len (a # r) =
     (if 9 \<le> a \<and> a \<le> 13 \<or> a = 32 then 1
      else case r of
        [] \<Rightarrow> 0
      | b # r' \<Rightarrow>
          if a = 0xC2 \<and> (b = 0x85 \<or> b = 0xA0) then 2
          else case r' of
            [] \<Rightarrow> 0
          | c # _ \<Rightarrow>
              if a = 0xE1 \<and> b = 0x9A \<and> c = 0x80 then 3
              else if a = 0xE2 \<and> b = 0x80 \<and> (0x80 \<le> c \<and> c \<le> 0x8A \<or> c = 0xA8 \<or> c = 0xA9 \<or> c = 0xAF) then 3
              else if a = 0xE2 \<and> b = 0x81 \<and> c = 0x9F then 3
              else if a = 0xE3 \<and> b = 0x80 \<and> c = 0x80 then 3
              else 0)"

definition word_list :: "bytes \<Rightarrow> bytes list" where
  "word_list w = (if w = [] then [] else [w])"

text \<open>\<open>w\<close> is the word that is being read.\<close>

function split_whitespace :: "bytes \<Rightarrow> bytes \<Rightarrow> bytes list" where
  "split_whitespace w [] = word_list w"
| "split_whitespace w (c # cs) =
     (case whitespace_len (c # cs) of
        0 \<Rightarrow> split_whitespace (w @ [c]) cs
      | Suc n \<Rightarrow> word_list w @ split_whitespace [] (drop n cs))"
  by pat_completeness auto
termination
  by (relation "measure (\<lambda>(w, s). length s)") auto

function trim_start :: "bytes \<Rightarrow> bytes" where
  "trim_start s = (if s = [] \<or> whitespace_len s = 0 then s else trim_start (drop (whitespace_len s) s))"
  by pat_completeness auto
termination
  by (relation "measure length") auto

text \<open>The number of bytes of the white space character the string ends with.\<close>

definition whitespace_end :: "bytes \<Rightarrow> nat" where
  "whitespace_end s =
     (case find (\<lambda>n. n \<le> length s \<and> whitespace_len (drop (length s - n) s) = n) [1, 2, 3] of
        None \<Rightarrow> 0
      | Some n \<Rightarrow> n)"

function trim_end :: "bytes \<Rightarrow> bytes" where
  "trim_end s = (if s = [] \<or> whitespace_end s = 0 then s else trim_end (take (length s - whitespace_end s) s))"
  by pat_completeness auto
termination
  by (relation "measure length") auto

declare trim_start.simps [simp del] trim_end.simps [simp del]

definition trim :: "bytes \<Rightarrow> bytes" where
  "trim s = trim_end (trim_start s)"

text \<open>\<open>str::parse::<u16>\<close>: an optional plus sign and at least one digit, without overflow.\<close>

fun parse_digits :: "nat \<Rightarrow> bytes \<Rightarrow> nat option" where
  "parse_digits acc [] = Some acc"
| "parse_digits acc (c # cs) =
     (if 48 \<le> c \<and> c \<le> 57 then
        (let acc' = acc * 10 + unat (c - 48) in if acc' > 65535 then None else parse_digits acc' cs)
      else None)"

definition parse_u16 :: "bytes \<Rightarrow> nat option" where
  "parse_u16 s =
     (let digits = (if s \<noteq> [] \<and> hd s = 43 then tl s else s)
      in if digits = [] then None else parse_digits 0 digits)"

text \<open>The decimal digits of a number, as \<open>format!\<close> writes them.\<close>

fun decimal :: "nat \<Rightarrow> bytes" where
  "decimal n = (if n < 10 then [of_nat (48 + n)] else decimal (n div 10) @ [of_nat (48 + n mod 10)])"

declare decimal.simps [simp del]

section \<open>The request\<close>

datatype proxy_authorization = NoProxyAuthorization | BasicAuthorization (basic_username: bytes) (basic_password: bytes)

definition valid_target_host :: "bytes \<Rightarrow> bool" where
  "valid_target_host host \<longleftrightarrow> host \<noteq> [] \<and> \<not> list_ex (\<lambda>b. is_ascii_control b \<or> b = SP) host"

definition connect_authority :: "bytes \<Rightarrow> u16 \<Rightarrow> bytes" where
  "connect_authority host port =
     (if COLON \<in> set host then [91] @ host @ [93, COLON] @ decimal (unat port)
      else host @ [COLON] @ decimal (unat port))"

definition connect_request :: "(bytes \<Rightarrow> bytes) \<Rightarrow> bytes \<Rightarrow> u16 \<Rightarrow> proxy_authorization \<Rightarrow> bytes" where
  "connect_request base64 host port auth =
     (let authority = connect_authority host port
      in ascii ''CONNECT '' @ authority @ ascii '' HTTP/1.1'' @ crlf @ ascii ''Host: '' @ authority @ crlf @
         (case auth of
            NoProxyAuthorization \<Rightarrow> []
          | BasicAuthorization username password \<Rightarrow>
              ascii ''Proxy-Authorization: Basic '' @ base64 (username @ [COLON] @ password) @ crlf) @
         crlf)"

section \<open>The response\<close>

definition MAX_PROXY_RESPONSE_HEADER_BYTES :: nat where
  "MAX_PROXY_RESPONSE_HEADER_BYTES = 65536"

datatype proxy_error = InvalidTargetHost | ProxyConnectFailed bytes | HeadersExceedLimit | ProxyIo io_error

text \<open>
  What the exchange needs of the stream \<open>'s\<close> and of the buffered reader \<open>'b\<close> around it;
  \<open>take_line\<close> is \<open>reader.take(n).read_line(line)\<close> on an empty line.
\<close>

record ('s, 'b) proxy_io =
  write_all :: "bytes \<Rightarrow> 's \<Rightarrow> (io_error + unit) \<times> 's"
  buf_reader_new :: "'s \<Rightarrow> 'b"
  take_line :: "nat \<Rightarrow> 'b \<Rightarrow> bytes io \<times> 'b"
  into_inner :: "'b \<Rightarrow> 's"

datatype 'a step = StepOk 'a | StepErr proxy_error | StepPending

text \<open>\<open>total_bytes\<close> is \<open>total_bytes_read\<close>; a line comes with the new total_bytes and the reader after it.\<close>

definition read_proxy_response_line :: "('s, 'b) proxy_io \<Rightarrow> nat \<Rightarrow> 'b \<Rightarrow> (bytes \<times> nat \<times> 'b) step" where
  "read_proxy_response_line io total_bytes reader =
     (let remaining = MAX_PROXY_RESPONSE_HEADER_BYTES - total_bytes
      in case take_line io (remaining + 1) reader of
           (IoErr e, _) \<Rightarrow> StepErr (ProxyIo e)
         | (IoPending, _) \<Rightarrow> StepPending
         | (IoReady line, reader) \<Rightarrow>
             let total_bytes = total_bytes + length line
             in if total_bytes > MAX_PROXY_RESPONSE_HEADER_BYTES then StepErr HeadersExceedLimit
                else StepOk (line, total_bytes, reader))"

lemma response_line:
  "read_proxy_response_line io total_bytes reader = StepOk (line, total_bytes', reader') \<Longrightarrow>
     take_line io (MAX_PROXY_RESPONSE_HEADER_BYTES - total_bytes + 1) reader = (IoReady line, reader') \<and>
     total_bytes' = total_bytes + length line \<and> total_bytes' \<le> MAX_PROXY_RESPONSE_HEADER_BYTES"
  by (auto simp: read_proxy_response_line_def Let_def split: prod.splits io.splits if_splits)

definition valid_status_line :: "bytes \<Rightarrow> bool" where
  "valid_status_line status_line =
     (let status_parts = split_whitespace [] status_line;
          version = (case status_parts of v # _ \<Rightarrow> Some v | [] \<Rightarrow> None);
          status = (case status_parts of
             _ # s # _ \<Rightarrow> if length s = 3 then parse_u16 s else None
           | _ \<Rightarrow> None)
      in (version = Some (ascii ''HTTP/1.1'') \<or> version = Some (ascii ''HTTP/1.0'')) \<and>
         (case status of Some n \<Rightarrow> 200 \<le> n \<and> n \<le> 299 | None \<Rightarrow> False))"

definition blank_line :: "bytes \<Rightarrow> bool" where
  "blank_line line \<longleftrightarrow> line = crlf \<or> line = [LF] \<or> line = []"

function read_headers :: "('s, 'b) proxy_io \<Rightarrow> nat \<Rightarrow> 'b \<Rightarrow> 'b step" where
  "read_headers io total_bytes reader =
     (case read_proxy_response_line io total_bytes reader of
        StepErr e \<Rightarrow> StepErr e
      | StepPending \<Rightarrow> StepPending
      | StepOk (line, total_bytes', reader) \<Rightarrow>
          if blank_line line then StepOk reader else read_headers io total_bytes' reader)"
  by pat_completeness auto
termination
  by (relation "measure (\<lambda>(io, total_bytes, reader). Suc MAX_PROXY_RESPONSE_HEADER_BYTES - total_bytes)")
    (auto simp: blank_line_def intro!: diff_less_mono2 dest!: response_line)

declare read_headers.simps [simp del]

definition http_connect_exchange ::
  "(bytes \<Rightarrow> bytes) \<Rightarrow> ('s, 'b) proxy_io \<Rightarrow> bytes \<Rightarrow> u16 \<Rightarrow> proxy_authorization \<Rightarrow> 's \<Rightarrow> 's step"
where
  "http_connect_exchange base64 io host port auth stream =
     (if \<not> valid_target_host host then StepErr InvalidTargetHost
      else case write_all io (connect_request base64 host port auth) stream of
        (Inl e, _) \<Rightarrow> StepErr (ProxyIo e)
      | (Inr _, stream) \<Rightarrow>
          (case read_proxy_response_line io 0 (buf_reader_new io stream) of
             StepErr e \<Rightarrow> StepErr e
           | StepPending \<Rightarrow> StepPending
           | StepOk (status_line, total_bytes, reader) \<Rightarrow>
               if \<not> valid_status_line status_line then StepErr (ProxyConnectFailed (trim status_line))
               else (case read_headers io total_bytes reader of
                       StepErr e \<Rightarrow> StepErr e
                     | StepPending \<Rightarrow> StepPending
                     | StepOk reader \<Rightarrow> StepOk (into_inner io reader))))"


section \<open>The request has no room for anything else\<close>

text \<open>Splitting at each CR LF, as a server reads the head of a request.\<close>

fun crlf_lines :: "bytes \<Rightarrow> bytes list" where
  "crlf_lines [] = [[]]"
| "crlf_lines [c] = [[c]]"
| "crlf_lines (c # d # cs) =
     (if c = CR \<and> d = LF then [] # crlf_lines cs
      else (c # hd (crlf_lines (d # cs))) # tl (crlf_lines (d # cs)))"

fun split_at :: "u8 \<Rightarrow> bytes \<Rightarrow> bytes list" where
  "split_at x [] = [[]]"
| "split_at x (c # cs) =
     (if c = x then [] # split_at x cs else (c # hd (split_at x cs)) # tl (split_at x cs))"

lemma crlf_lines_ne: "crlf_lines s \<noteq> []"
  by (induction s rule: crlf_lines.induct) auto

lemma crlf_lines_append: "CR \<notin> set l \<Longrightarrow> crlf_lines (l @ crlf @ s) = l # crlf_lines s"
proof (induction l rule: crlf_lines.induct)
  case (2 c)
  then show ?case by (simp add: char_defs)
next
  case (3 c d cs)
  then show ?case by auto
qed simp

lemma split_at_append: "x \<notin> set l \<Longrightarrow> split_at x (l @ x # s) = l # split_at x s"
  by (induction l) auto

lemma split_at_plain: "x \<notin> set l \<Longrightarrow> split_at x l = [l]"
  by (induction l) auto

text \<open>Digits, and what a host may contain, are neither white space nor control characters.\<close>

lemma unat_u8_small: "n < 256 \<Longrightarrow> unat (of_nat n :: u8) = n"
  by (simp add: unat_of_nat)

lemma decimal_digits: "b \<in> set (decimal n) \<Longrightarrow> 48 \<le> unat b \<and> unat b \<le> 57"
proof (induction n rule: decimal.induct)
  case (1 n)
  have "48 + n mod 10 < 256" by (rule less_trans [of _ 58]) simp_all
  with 1 show ?case
    by (subst (asm) (2) decimal.simps) (auto simp: unat_u8_small simp del: of_nat_add of_nat_numeral split: if_splits)
qed

lemma host_chars: "valid_target_host host \<Longrightarrow> b \<in> set host \<Longrightarrow> 32 < unat b \<and> unat b \<noteq> 127"
proof -
  assume "valid_target_host host" "b \<in> set host"
  then have "\<not> b < 32" "b \<noteq> 127" "b \<noteq> 32"
    by (auto simp: valid_target_host_def is_ascii_control_def list_ex_iff SP_def)
  then have "\<not> unat b < 32" "unat b \<noteq> 127" "unat b \<noteq> 32"
    by (auto simp: word_less_nat_alt word_unat_eq_iff)
  then show ?thesis by linarith
qed

lemma authority_chars:
  assumes "valid_target_host host" and "b \<in> set (connect_authority host port)"
  shows "32 < unat b"
  using assms host_chars [OF assms(1)] decimal_digits [of b "unat port"]
  by (auto simp: connect_authority_def COLON_def split: if_splits)

lemma authority_plain:
  assumes "valid_target_host host"
  shows "CR \<notin> set (connect_authority host port)" and "SP \<notin> set (connect_authority host port)"
  using authority_chars [OF assms, of CR port] authority_chars [OF assms, of SP port] by (auto simp: char_defs)

lemma request_lines:
  assumes "valid_target_host host" and "\<And>b. CR \<notin> set (base64 b)"
  shows "crlf_lines (connect_request base64 host port auth) =
    [ascii ''CONNECT '' @ connect_authority host port @ ascii '' HTTP/1.1'',
     ascii ''Host: '' @ connect_authority host port] @
    (case auth of
       NoProxyAuthorization \<Rightarrow> []
     | BasicAuthorization username password \<Rightarrow>
         [ascii ''Proxy-Authorization: Basic '' @ base64 (username @ [COLON] @ password)]) @
    [[], []]"
proof -
  have plain: "CR \<notin> set (ascii ''CONNECT '' @ connect_authority host port @ ascii '' HTTP/1.1'')"
    "CR \<notin> set (ascii ''Host: '' @ connect_authority host port)"
    "CR \<notin> set (ascii ''Proxy-Authorization: Basic '' @ base64 b)" for b
    using authority_plain(1) [OF assms(1), of port] assms(2) by (simp_all add: ascii_def CR_def)
  show ?thesis
    using crlf_lines_append [OF plain(1)] crlf_lines_append [OF plain(2)] crlf_lines_append [OF plain(3)]
      crlf_lines_append [of "[]" "[]"]
    by (cases auth) (simp_all add: connect_request_def Let_def)
qed


section \<open>Which responses are accepted\<close>

text \<open>At most \<open>n\<close> bytes, up to the end of the line.\<close>

fun first_line :: "nat \<Rightarrow> bytes \<Rightarrow> bytes" where
  "first_line (Suc n) (c # cs) = (if c = LF then [c] else c # first_line n cs)"
| "first_line _ _ = []"

text \<open>
  What reading a line promises on a stream that neither fails nor keeps the caller waiting:
  \<open>incoming b\<close> is what is left to read, and a line that is not UTF-8 is an error.
\<close>

definition reads_lines :: "(bytes \<Rightarrow> bool) \<Rightarrow> ('s, 'b) proxy_io \<Rightarrow> ('b \<Rightarrow> bytes) \<Rightarrow> bool" where
  "reads_lines utf8 io incoming \<longleftrightarrow>
     utf8 [] \<and>
     (\<forall>n b. let l = first_line n (incoming b)
        in if utf8 l then \<exists>b'. take_line io n b = (IoReady l, b') \<and> incoming b' = drop (length l) (incoming b)
           else \<exists>e b'. take_line io n b = (IoErr e, b'))"

text \<open>The lines of a response, each with its line feed, and its head: up to a blank line or the end.\<close>

function response_lines :: "bytes \<Rightarrow> bytes list" where
  "response_lines s =
     (if s = [] then []
      else first_line (length s) s # response_lines (drop (length (first_line (length s) s)) s))"
  by pat_completeness auto
termination
proof (relation "measure length", goal_cases)
  case (2 s)
  then show ?case by (cases s) auto
qed simp

declare response_lines.simps [simp del]

fun until_blank :: "bytes list \<Rightarrow> bytes list" where
  "until_blank [] = []"
| "until_blank (l # ls) = (if blank_line l then [l] else l # until_blank ls)"

definition accepted_response :: "(bytes \<Rightarrow> bool) \<Rightarrow> bytes \<Rightarrow> bool" where
  "accepted_response utf8 s \<longleftrightarrow>
     (case response_lines s of
        [] \<Rightarrow> False
      | status_line # header_lines \<Rightarrow>
          valid_status_line status_line \<and>
          length (concat (status_line # until_blank header_lines)) \<le> MAX_PROXY_RESPONSE_HEADER_BYTES \<and>
          list_all utf8 (status_line # until_blank header_lines))"

lemma first_line_take: "first_line n s = take n (first_line (length s) s)"
proof (induction n s rule: first_line.induct)
  case (1 n c cs)
  then show ?case by (cases n) auto
qed simp_all

lemma first_line_length: "length (first_line n s) \<le> n"
  by (subst first_line_take) simp

lemma response_line_cases:
  fixes r :: 'b
  assumes "reads_lines utf8 io incoming" and "total_bytes \<le> MAX_PROXY_RESPONSE_HEADER_BYTES"
  defines "l \<equiv> first_line (length (incoming r)) (incoming r)"
  shows "if utf8 l \<and> total_bytes + length l \<le> MAX_PROXY_RESPONSE_HEADER_BYTES
    then \<exists>r'. read_proxy_response_line io total_bytes r = StepOk (l, total_bytes + length l, r') \<and>
      incoming r' = drop (length l) (incoming r)
    else \<exists>e. read_proxy_response_line io total_bytes r = StepErr e"
proof -
  let ?n = "MAX_PROXY_RESPONSE_HEADER_BYTES - total_bytes + 1"
  have read: "if utf8 (take ?n l)
      then \<exists>r'. take_line io ?n r = (IoReady (take ?n l), r') \<and> incoming r' = drop (length (take ?n l)) (incoming r)
      else \<exists>e r'. take_line io ?n r = (IoErr e, r')"
    using assms(1) first_line_take [of ?n "incoming r"]
    unfolding reads_lines_def Let_def l_def by metis
  show ?thesis
  proof (cases "total_bytes + length l \<le> MAX_PROXY_RESPONSE_HEADER_BYTES")
    case True
    then have "take ?n l = l" by simp
    with True read show ?thesis by (auto simp: read_proxy_response_line_def Let_def split: if_splits)
  next
    case False
    then have "?n \<le> length l" using assms(2) by linarith
    then have "length (take ?n l) = ?n" by simp
    with False read assms(2) show ?thesis
      by (auto simp: read_proxy_response_line_def Let_def split: if_splits)
  qed
qed

lemma blank_first_line: "blank_line [] " "s \<noteq> [] \<Longrightarrow> first_line (length s) s \<noteq> []"
  by (auto simp: blank_line_def neq_Nil_conv)

lemma read_headers_iff:
  assumes "reads_lines utf8 io incoming" and "total_bytes \<le> MAX_PROXY_RESPONSE_HEADER_BYTES"
  defines "h \<equiv> \<lambda>r. until_blank (response_lines (incoming r))"
  shows "if total_bytes + length (concat (h r)) \<le> MAX_PROXY_RESPONSE_HEADER_BYTES \<and> list_all utf8 (h r)
    then \<exists>r'. read_headers io total_bytes r = StepOk r' \<and> incoming r' = drop (length (concat (h r))) (incoming r)
    else \<exists>e. read_headers io total_bytes r = StepErr e"
  using assms(1,2)
proof (induction io total_bytes r rule: read_headers.induct)
  case (1 io total_bytes r)
  let ?l = "first_line (length (incoming r)) (incoming r)"
  note step = response_line_cases [OF 1(2,3), of r]
  note unfold = read_headers.simps [of io total_bytes r]
  show ?case
  proof (cases "utf8 ?l \<and> total_bytes + length ?l \<le> MAX_PROXY_RESPONSE_HEADER_BYTES")
    case False
    then have "incoming r \<noteq> []" using 1(2,3) by (auto simp: reads_lines_def)
    then have "h r = ?l # (if blank_line ?l then [] else until_blank (response_lines (drop (length ?l) (incoming r))))"
      by (simp add: h_def response_lines.simps [of "incoming r"])
    with False step unfold show ?thesis by (auto split: if_splits)
  next
    case True
    with step obtain r' where r': "read_proxy_response_line io total_bytes r = StepOk (?l, total_bytes + length ?l, r')"
        "incoming r' = drop (length ?l) (incoming r)" by auto
    show ?thesis
    proof (cases "blank_line ?l")
      case blank: True
      have "h r = (if incoming r = [] then [] else [?l])"
        using blank by (simp add: h_def response_lines.simps [of "incoming r"])
      with True r' blank 1(3) show ?thesis by (simp add: unfold)
    next
      case False
      then have "incoming r \<noteq> []" by (auto simp: blank_first_line)
      with False r'(2) have h: "h r = ?l # h r'" by (simp add: h_def response_lines.simps [of "incoming r"])
      have eq: "read_headers io total_bytes r = read_headers io (total_bytes + length ?l) r'"
        using r'(1) False by (simp add: unfold)
      have "if total_bytes + length ?l + length (concat (h r')) \<le> MAX_PROXY_RESPONSE_HEADER_BYTES \<and> list_all utf8 (h r')
          then \<exists>r''. read_headers io total_bytes r = StepOk r'' \<and>
            incoming r'' = drop (length (concat (h r')) + length ?l) (incoming r)
          else \<exists>e. read_headers io total_bytes r = StepErr e"
        using 1(1) [OF r'(1) refl refl False 1(2)] True unfolding eq r'(2) drop_drop by simp
      then show ?thesis using True unfolding h by (simp add: add.assoc add.commute [of "length ?l" "length (concat _)"])
    qed
  qed
qed


lemma exchange_iff:
  assumes "reads_lines utf8 io incoming" and "valid_target_host host"
    and "write_all io (connect_request base64 host port auth) stream = (Inr (), stream')"
  shows "(\<exists>s. http_connect_exchange base64 io host port auth stream = StepOk s) \<longleftrightarrow>
      accepted_response utf8 (incoming (buf_reader_new io stream'))" (is "?ok \<longleftrightarrow> _")
    and "http_connect_exchange base64 io host port auth stream \<noteq> StepPending"
proof -
  let ?r = "buf_reader_new io stream'"
  let ?s = "incoming ?r"
  let ?l = "first_line (length ?s) ?s"
  let ?limit = "MAX_PROXY_RESPONSE_HEADER_BYTES"
  have "(?ok \<longleftrightarrow> accepted_response utf8 ?s) \<and> http_connect_exchange base64 io host port auth stream \<noteq> StepPending"
  proof (cases "utf8 ?l \<and> length ?l \<le> ?limit")
    case False
    then have "?s \<noteq> []" using assms(1) by (auto simp: reads_lines_def)
    then have "response_lines ?s = ?l # response_lines (drop (length ?l) ?s)" by (simp add: response_lines.simps [of ?s])
    with False have "\<not> accepted_response utf8 ?s" by (auto simp: accepted_response_def)
    moreover obtain e where "read_proxy_response_line io 0 ?r = StepErr e"
      using response_line_cases [OF assms(1), of 0 ?r] False by auto
    ultimately show ?thesis using assms(2,3) by (simp add: http_connect_exchange_def)
  next
    case True
    then obtain r' where r': "read_proxy_response_line io 0 ?r = StepOk (?l, length ?l, r')"
        "incoming r' = drop (length ?l) ?s"
      using response_line_cases [OF assms(1), of 0 ?r] by auto
    show ?thesis
    proof (cases "valid_status_line ?l")
      case status: True
      have "valid_status_line [] = False" by (simp add: valid_status_line_def word_list_def)
      with status have "?s \<noteq> []" by auto
      then have "response_lines ?s = ?l # response_lines (incoming r')"
        using r'(2) by (simp add: response_lines.simps [of ?s])
      moreover note read_headers_iff [OF assms(1), of "length ?l" r']
      ultimately show ?thesis
        using True status r'(1) assms(2,3)
        by (auto simp: accepted_response_def http_connect_exchange_def split: if_splits)
    next
      case False
      then have "\<not> accepted_response utf8 ?s"
        by (auto simp: accepted_response_def response_lines.simps [of ?s] split: list.splits if_splits)
      with False r'(1) assms(2,3) show ?thesis by (simp add: http_connect_exchange_def)
    qed
  qed
  then show "?ok \<longleftrightarrow> accepted_response utf8 ?s"
    and "http_connect_exchange base64 io host port auth stream \<noteq> StepPending" by simp_all
qed

end
