(* ===== verification/Web_Socket.thy ===== *)
theory Web_Socket
  imports Stream_Writer
begin

text \<open>
  MQTT over WebSockets (src/src/io/tokio_ws.rs): \<open>WebSocketStream\<close> makes one stream of bytes out of
  the messages of a WebSocket. The WebSocket below it, a stream and a sink of messages of another
  crate, is a parameter. Under what it promises, \<open>WebSocketStream\<close> is a stream as the reader and the
  writer need it: the bytes of the binary messages one after the other, whatever the messages that
  carry them.
\<close>

section \<open>Messages\<close>

datatype ws_message = Binary bytes | Text bytes | Close | Ping bytes | Pong bytes | Frame bytes

datatype ws_error = WsIo io_error | WsOther string

text \<open>What \<open>Stream::poll_next\<close> gives, and how an error of the WebSocket becomes one of I/O.\<close>

datatype ws_next = NextItem "ws_error + ws_message" | NextEnd | NextPending

primrec ws_io_error :: "ws_error \<Rightarrow> io_error" where
  "ws_io_error (WsIo e) = e"
| "ws_io_error (WsOther m) = StreamError m"

record 's web_socket =
  poll_next :: "'s \<Rightarrow> ws_next \<times> 's"
  poll_ready :: "'s \<Rightarrow> (ws_error + unit) option \<times> 's"
  start_send :: "ws_message \<Rightarrow> 's \<Rightarrow> (ws_error + unit) \<times> 's"
  sink_poll_flush :: "'s \<Rightarrow> (ws_error + unit) option \<times> 's"
  sink_poll_close :: "'s \<Rightarrow> (ws_error + unit) option \<times> 's"

record 's web_socket_stream =
  ws_inner :: 's
  next_read :: bytes

section \<open>Reading\<close>

definition ws_text_error :: io_error where
  "ws_text_error = StreamError ''MQTT data must be sent in WebSocket binary frames''"

text \<open>\<open>n\<close> is the room in the buffer; \<open>None\<close> is a loop that never ends.\<close>

partial_function (option) ws_poll_read ::
  "'s web_socket \<Rightarrow> nat \<Rightarrow> 's web_socket_stream \<Rightarrow> (bytes io poll \<times> 's web_socket_stream) option"
where
  "ws_poll_read ws n w =
     (if next_read w = [] then
        (case poll_next ws (ws_inner w) of (item, s) \<Rightarrow>
          (case item of
             NextItem (Inr (Binary b)) \<Rightarrow> ws_poll_read ws n (w\<lparr>ws_inner := s, next_read := b\<rparr>)
           | NextItem (Inr (Text _)) \<Rightarrow> Some (Ready (IoErr ws_text_error), w\<lparr>ws_inner := s\<rparr>)
           | NextItem (Inr Close) \<Rightarrow> Some (Ready (IoReady []), w\<lparr>ws_inner := s\<rparr>)
           | NextItem (Inr (Ping _)) \<Rightarrow> ws_poll_read ws n (w\<lparr>ws_inner := s\<rparr>)
           | NextItem (Inr (Pong _)) \<Rightarrow> ws_poll_read ws n (w\<lparr>ws_inner := s\<rparr>)
           | NextItem (Inr (Frame _)) \<Rightarrow>
               Some (Panic ''reading from tungstenite stream never yields raw frames'', w\<lparr>ws_inner := s\<rparr>)
           | NextItem (Inl e) \<Rightarrow> Some (Ready (IoErr (ws_io_error e)), w\<lparr>ws_inner := s\<rparr>)
           | NextEnd \<Rightarrow> Some (Ready (IoReady []), w\<lparr>ws_inner := s\<rparr>)
           | NextPending \<Rightarrow> Some (Ready IoPending, w\<lparr>ws_inner := s\<rparr>)))
      else
        (let to_read = min n (length (next_read w))
         in Some (Ready (IoReady (take to_read (next_read w))), w\<lparr>next_read := drop to_read (next_read w)\<rparr>)))"

section \<open>Writing\<close>

definition ws_poll :: "(ws_error + unit) option \<times> 's \<Rightarrow> 's web_socket_stream \<Rightarrow> unit io \<times> 's web_socket_stream" where
  "ws_poll r w =
     (case r of (x, s) \<Rightarrow>
       ((case x of None \<Rightarrow> IoPending | Some (Inl e) \<Rightarrow> IoErr (ws_io_error e) | Some (Inr _) \<Rightarrow> IoReady ()),
        w\<lparr>ws_inner := s\<rparr>))"

definition ws_poll_write :: "'s web_socket \<Rightarrow> bytes \<Rightarrow> 's web_socket_stream \<Rightarrow> nat io \<times> 's web_socket_stream" where
  "ws_poll_write ws buf w =
     (case ws_poll (poll_ready ws (ws_inner w)) w of
        (IoErr e, w) \<Rightarrow> (IoErr e, w)
      | (IoPending, w) \<Rightarrow> (IoPending, w)
      | (IoReady _, w) \<Rightarrow>
          (case start_send ws (Binary buf) (ws_inner w) of
             (Inr _, s) \<Rightarrow> (IoReady (length buf), w\<lparr>ws_inner := s\<rparr>)
           | (Inl e, s) \<Rightarrow> (IoErr (ws_io_error e), w\<lparr>ws_inner := s\<rparr>)))"

definition ws_poll_flush :: "'s web_socket \<Rightarrow> 's web_socket_stream \<Rightarrow> unit io \<times> 's web_socket_stream" where
  "ws_poll_flush ws w = ws_poll (sink_poll_flush ws (ws_inner w)) w"

definition ws_poll_shutdown :: "'s web_socket \<Rightarrow> 's web_socket_stream \<Rightarrow> unit io \<times> 's web_socket_stream" where
  "ws_poll_shutdown ws w = ws_poll (sink_poll_close ws (ws_inner w)) w"

text \<open>
  \<open>AsyncWrite::poll_write_vectored\<close> is not overridden: its default writes the first slice that is
  not empty, or an empty one.
\<close>

definition ws_poll_write_vectored ::
  "'s web_socket \<Rightarrow> bytes list \<Rightarrow> 's web_socket_stream \<Rightarrow> nat io \<times> 's web_socket_stream"
where
  "ws_poll_write_vectored ws bufs w =
     ws_poll_write ws (case find (\<lambda>b. b \<noteq> []) bufs of Some b \<Rightarrow> b | None \<Rightarrow> []) w"

text \<open>Awaiting a poll function: it is polled again until it is ready or fails.\<close>

partial_function (option) await :: "('s \<Rightarrow> 'a io \<times> 's) \<Rightarrow> 's \<Rightarrow> ((io_error + 'a) \<times> 's) option" where
  "await f s =
     (case f s of (x, s') \<Rightarrow>
       (case x of
          IoReady v \<Rightarrow> Some (Inr v, s')
        | IoErr e \<Rightarrow> Some (Inl e, s')
        | IoPending \<Rightarrow> await f s'))"

text \<open>
  The functions the reader and the writer call (\<open>WebSocketStreamRead::read\<close>,
  \<open>WebSocketStreamWrite::write_vectored\<close> and \<open>flush\<close>), where polling returns; where it does not, or
  panics, they stand for a failed call.
\<close>

definition ws_read :: "'s web_socket \<Rightarrow> 's web_socket_stream read_fn" where
  "ws_read ws n w =
     (case ws_poll_read ws n w of Some (Ready x, w') \<Rightarrow> (x, w') | _ \<Rightarrow> (IoErr (StreamError ''no result''), w))"

definition completed :: "('s \<Rightarrow> 'a io \<times> 's) \<Rightarrow> 's \<Rightarrow> (io_error + 'a) \<times> 's" where
  "completed f s = (case await f s of Some r \<Rightarrow> r | None \<Rightarrow> (Inl (StreamError ''no result''), s))"

definition ws_write_vectored :: "'s web_socket \<Rightarrow> 's web_socket_stream write_fn" where
  "ws_write_vectored ws bufs = completed (ws_poll_write_vectored ws bufs)"

definition ws_flush :: "'s web_socket \<Rightarrow> 's web_socket_stream flush_fn" where
  "ws_flush ws = completed (ws_poll_flush ws)"

section \<open>What a WebSocket promises\<close>

primrec message_bytes :: "ws_message \<Rightarrow> bytes" where
  "message_bytes (Binary b) = b"
| "message_bytes (Text b) = []"
| "message_bytes Close = []"
| "message_bytes (Ping b) = []"
| "message_bytes (Pong b) = []"
| "message_bytes (Frame b) = []"

text \<open>
  \<open>items s\<close> are the messages and errors still to come. No raw frame is among them, and no binary
  message follows a Close, after which the peer may not send data (RFC 6455, section 5.5.1). Once the
  stream has ended nothing comes any more.
\<close>

definition delivers :: "'s web_socket \<Rightarrow> ('s \<Rightarrow> (ws_error + ws_message) list) \<Rightarrow> bool" where
  "delivers ws items \<longleftrightarrow>
     (\<forall>s. case poll_next ws s of
        (NextItem x, s') \<Rightarrow>
          items s = x # items s' \<and> (\<forall>b. x \<noteq> Inr (Frame b)) \<and> (x = Inr Close \<longrightarrow> (\<forall>b. Inr (Binary b) \<notin> set (items s')))
      | (NextEnd, s') \<Rightarrow> items s = [] \<and> items s' = []
      | (NextPending, s') \<Rightarrow> items s' = items s)"

text \<open>
  \<open>sent s\<close> are the messages that the sink has taken, \<open>left s\<close> those among them that have left it: a
  prefix, and all of them when a flush has returned. Sending appends the message or fails without.
\<close>

definition transmits :: "'s web_socket \<Rightarrow> ('s \<Rightarrow> ws_message list) \<Rightarrow> ('s \<Rightarrow> ws_message list) \<Rightarrow> bool" where
  "transmits ws sent left \<longleftrightarrow>
     (\<forall>s. (\<exists>queued. sent s = left s @ queued) \<and>
        sent (snd (poll_ready ws s)) = sent s \<and> sent (snd (sink_poll_flush ws s)) = sent s \<and>
        (fst (sink_poll_flush ws s) = Some (Inr ()) \<longrightarrow> left (snd (sink_poll_flush ws s)) = sent s) \<and>
        (\<forall>m. case start_send ws m s of (Inr _, s') \<Rightarrow> sent s' = sent s @ [m] | (Inl _, s') \<Rightarrow> sent s' = sent s))"

text \<open>The bytes of the binary messages.\<close>

definition item_bytes :: "ws_error + ws_message \<Rightarrow> bytes" where
  "item_bytes x = (case x of Inl e \<Rightarrow> [] | Inr m \<Rightarrow> message_bytes m)"

definition ws_incoming :: "('s \<Rightarrow> (ws_error + ws_message) list) \<Rightarrow> 's web_socket_stream \<Rightarrow> bytes" where
  "ws_incoming items w = next_read w @ concat (map item_bytes (items (ws_inner w)))"

definition ws_sent :: "('s \<Rightarrow> ws_message list) \<Rightarrow> 's web_socket_stream \<Rightarrow> bytes" where
  "ws_sent sent w = concat (map message_bytes (sent (ws_inner w)))"

section \<open>A stream of bytes\<close>

lemma no_binary_bytes:
  assumes "\<forall>b. Inr (Binary b) \<notin> set xs"
  shows "concat (map item_bytes xs) = []"
proof -
  have "item_bytes x = []" if "\<forall>b. x \<noteq> Inr (Binary b)" for x
  proof (cases x)
    case (Inr m)
    with that show ?thesis by (cases m) (simp_all add: item_bytes_def)
  qed (simp add: item_bytes_def)
  then have "item_bytes x = []" if "x \<in> set xs" for x using assms that by metis
  then show ?thesis by simp
qed

text \<open>A poll of the stream returns: it takes messages until one of them decides.\<close>

fun continues :: "ws_error + ws_message \<Rightarrow> bool" where
  "continues (Inr (Binary _)) = True"
| "continues (Inr (Ping _)) = True"
| "continues (Inr (Pong _)) = True"
| "continues _ = False"

lemma ws_poll_read_bytes:
  assumes "delivers ws items"
  shows "\<exists>x w'. ws_poll_read ws n w = Some (Ready x, w') \<and>
    (case x of
       IoReady b \<Rightarrow> length b \<le> n \<and> ws_incoming items w = b @ ws_incoming items w' \<and>
         (b = [] \<longrightarrow> n = 0 \<or> ws_incoming items w = [])
     | _ \<Rightarrow> ws_incoming items w' = ws_incoming items w)"
proof (induction "length (items (ws_inner w))" arbitrary: w rule: less_induct)
  case less
  show ?case
  proof (cases "next_read w = []")
    case False
    then show ?thesis by (subst ws_poll_read.simps) (auto simp: ws_incoming_def Let_def min_def)
  next
    case True
    obtain item s where nxt: "poll_next ws (ws_inner w) = (item, s)" by (cases "poll_next ws (ws_inner w)")
    with assms have promise: "case item of
        NextItem x \<Rightarrow> items (ws_inner w) = x # items s \<and> (\<forall>b. x \<noteq> Inr (Frame b)) \<and>
          (x = Inr Close \<longrightarrow> (\<forall>b. Inr (Binary b) \<notin> set (items s)))
      | NextEnd \<Rightarrow> items (ws_inner w) = [] \<and> items s = []
      | NextPending \<Rightarrow> items s = items (ws_inner w)"
      unfolding delivers_def by (auto dest!: spec [of _ "ws_inner w"] split: ws_next.splits)
    show ?thesis
    proof (cases "\<exists>x. item = NextItem x \<and> continues x")
      case True
      then obtain m where m: "item = NextItem (Inr m)" "continues (Inr m)" by (auto elim!: continues.elims)
      let ?w = "case m of Binary b \<Rightarrow> w\<lparr>ws_inner := s, next_read := b\<rparr> | _ \<Rightarrow> w\<lparr>ws_inner := s\<rparr>"
      have shorter: "length (items (ws_inner ?w)) < length (items (ws_inner w))"
        using promise m by (auto split: ws_message.split)
      have again: "ws_poll_read ws n w = ws_poll_read ws n ?w"
        using \<open>next_read w = []\<close> nxt m by (subst ws_poll_read.simps) (cases m; simp)
      have same: "ws_incoming items ?w = ws_incoming items w"
        using promise m \<open>next_read w = []\<close> by (cases m) (auto simp: ws_incoming_def item_bytes_def)
      show ?thesis using less [OF shorter] unfolding again same .
    next
      case ending: False
      show ?thesis
        using True nxt promise ending
        by (subst ws_poll_read.simps)
          (auto simp: ws_incoming_def item_bytes_def no_binary_bytes split: ws_next.splits sum.splits ws_message.splits)
    qed
  qed
qed

text \<open>A text message is not data: where it stands the read fails.\<close>

lemma ws_read_text:
  assumes "delivers ws items" and "next_read w = []" and "items (ws_inner w) = Inr (Text b) # r"
  shows "fst (ws_read ws n w) = IoErr ws_text_error \<or> fst (ws_read ws n w) = IoPending"
proof -
  have "case poll_next ws (ws_inner w) of
      (NextItem x, s) \<Rightarrow> x = Inr (Text b) | (NextEnd, s) \<Rightarrow> False | (NextPending, s) \<Rightarrow> True"
    using assms(1,3) unfolding delivers_def by (auto dest!: spec [of _ "ws_inner w"] split: prod.splits ws_next.splits)
  then show ?thesis
    using assms(2) by (subst (1 2) ws_read_def, subst (1 2) ws_poll_read.simps) (auto split: prod.splits ws_next.splits)
qed

lemma ws_readable: "delivers ws items \<Longrightarrow> readable (ws_read ws) (ws_incoming items)"
  unfolding readable_def
proof (intro allI)
  fix n w assume "delivers ws items"
  from ws_poll_read_bytes [OF this, of n w] obtain x w' where "ws_read ws n w = (x, w')"
    and "case x of
       IoReady b \<Rightarrow> length b \<le> n \<and> ws_incoming items w = b @ ws_incoming items w' \<and>
         (b = [] \<longrightarrow> n = 0 \<or> ws_incoming items w = [])
     | _ \<Rightarrow> ws_incoming items w' = ws_incoming items w"
    by (auto simp: ws_read_def)
  then show "case ws_read ws n w of
        (IoReady b, w') \<Rightarrow> length b \<le> n \<and> ws_incoming items w = b @ ws_incoming items w' \<and>
          (b = [] \<longrightarrow> n = 0 \<or> ws_incoming items w = [])
      | (_, w') \<Rightarrow> ws_incoming items w' = ws_incoming items w"
    by (cases x) auto
qed

text \<open>What holds of an awaited call: what every poll keeps until the last one.\<close>

lemma await_keeps:
  assumes "await f s = Some (r, s')" and "P s"
    and "\<And>t t'. P t \<Longrightarrow> f t = (IoPending, t') \<Longrightarrow> P t'"
    and "\<And>t v t'. P t \<Longrightarrow> f t = (IoReady v, t') \<Longrightarrow> Q (Inr v) t'"
    and "\<And>t e t'. P t \<Longrightarrow> f t = (IoErr e, t') \<Longrightarrow> Q (Inl e) t'"
  shows "Q r s'"
proof -
  have "f' = f \<longrightarrow> P s \<longrightarrow> Q (fst y) (snd y)" if "await f' s = Some y" for f' s y
    using that
  proof (induction rule: await.raw_induct [rotated 1, consumes 1, case_names step])
    case (step aw f' s y)
    then show ?case using assms(3-5) by (fastforce split: prod.splits io.splits)
  qed
  from this [OF assms(1)] assms(2) show ?thesis by simp
qed


text \<open>A write is one binary message with all of one slice; a write that waits or fails sends nothing.\<close>

abbreviation first_slice :: "bytes list \<Rightarrow> bytes" where
  "first_slice bufs \<equiv> (case find (\<lambda>b. b \<noteq> []) bufs of Some b \<Rightarrow> b | None \<Rightarrow> [])"

lemma ws_poll_sent:
  "transmits ws sent left \<Longrightarrow> ws_poll (poll_ready ws (ws_inner w)) w = (x, w') \<Longrightarrow> sent (ws_inner w') = sent (ws_inner w)"
  "transmits ws sent left \<Longrightarrow> ws_poll (sink_poll_flush ws (ws_inner w)) w = (x, w') \<Longrightarrow> sent (ws_inner w') = sent (ws_inner w)"
  by (auto simp: ws_poll_def transmits_def split: prod.splits) (metis snd_conv)+

lemma start_send_sent:
  assumes "transmits ws sent left"
  shows "start_send ws m s = (Inr u, s') \<Longrightarrow> sent s' = sent s @ [m]"
    and "start_send ws m s = (Inl e, s') \<Longrightarrow> sent s' = sent s"
proof -
  have "case start_send ws m s of (Inr _, s') \<Rightarrow> sent s' = sent s @ [m] | (Inl _, s') \<Rightarrow> sent s' = sent s"
    using assms by (simp add: transmits_def)
  then show "start_send ws m s = (Inr u, s') \<Longrightarrow> sent s' = sent s @ [m]"
    and "start_send ws m s = (Inl e, s') \<Longrightarrow> sent s' = sent s" by simp_all
qed

lemma ws_poll_write_sent:
  assumes "transmits ws sent left" and "ws_poll_write ws buf w = (x, w')"
  shows "case x of
      IoReady n \<Rightarrow> n = length buf \<and> sent (ws_inner w') = sent (ws_inner w) @ [Binary buf]
    | _ \<Rightarrow> sent (ws_inner w') = sent (ws_inner w)"
  using assms(2) ws_poll_sent(1) [OF assms(1)] start_send_sent [OF assms(1)]
  by (fastforce simp: ws_poll_write_def split: prod.splits io.splits sum.splits)

lemma ws_write_sent:
  assumes "transmits ws sent left" and "ws_write_vectored ws bufs w = (r, w')"
  shows "case r of
      Inr n \<Rightarrow> n = length (first_slice bufs) \<and> sent (ws_inner w') = sent (ws_inner w) @ [Binary (first_slice bufs)]
    | Inl _ \<Rightarrow> sent (ws_inner w') = sent (ws_inner w)"
proof (cases "await (ws_poll_write_vectored ws bufs) w")
  case None
  with assms(2) show ?thesis by (auto simp: ws_write_vectored_def completed_def)
next
  case (Some y)
  with assms(2) have "await (ws_poll_write_vectored ws bufs) w = Some (r, w')"
    by (simp add: ws_write_vectored_def completed_def)
  then show ?thesis
    by (rule await_keeps [where P = "\<lambda>t. sent (ws_inner t) = sent (ws_inner w)"])
      (auto simp: ws_poll_write_vectored_def dest!: ws_poll_write_sent [OF assms(1)])
qed

lemma ws_flush_sent:
  assumes "transmits ws sent left"
  shows "sent (ws_inner (snd (ws_flush ws w))) = sent (ws_inner w)"
proof (cases "await (ws_poll_flush ws) w")
  case (Some y)
  obtain r w' where y: "y = (r, w')" by (cases y)
  with Some have "await (ws_poll_flush ws) w = Some (r, w')" by simp
  then have "sent (ws_inner w') = sent (ws_inner w)"
    by (rule await_keeps [where P = "\<lambda>t. sent (ws_inner t) = sent (ws_inner w)"])
      (auto simp: ws_poll_flush_def dest!: ws_poll_sent(2) [OF assms])
  with Some y show ?thesis by (simp add: ws_flush_def completed_def)
qed (simp add: ws_flush_def completed_def)

text \<open>A flush that succeeds has let everything leave.\<close>

lemma ws_flush_leaves:
  assumes "transmits ws sent left" and "ws_flush ws w = (Inr (), w')"
  shows "left (ws_inner w') = sent (ws_inner w')"
proof -
  have flushed: "left (ws_inner t') = sent (ws_inner t')" if "ws_poll_flush ws t = (IoReady v, t')" for t t' v
    using that assms(1) unfolding transmits_def ws_poll_flush_def ws_poll_def
    by (auto split: prod.splits option.splits sum.splits) (metis fst_conv snd_conv)
  obtain y where y: "await (ws_poll_flush ws) w = Some y" using assms(2)
    by (cases "await (ws_poll_flush ws) w") (auto simp: ws_flush_def completed_def)
  with assms(2) have "await (ws_poll_flush ws) w = Some (Inr (), w')" by (simp add: ws_flush_def completed_def)
  then have "Inr () = (Inr () :: io_error + unit) \<longrightarrow> left (ws_inner w') = sent (ws_inner w')"
    by (rule await_keeps [where P = "\<lambda>_. True" and Q = "\<lambda>r t. r = Inr () \<longrightarrow> left (ws_inner t) = sent (ws_inner t)"])
      (auto dest: flushed)
  then show ?thesis by simp
qed

lemma first_slice_prefix: "take (length (first_slice bufs)) (concat bufs) = first_slice bufs"
  by (induction bufs) auto

lemma first_slice_length: "length (first_slice bufs) \<le> length (concat bufs)"
  by (induction bufs) auto

lemma ws_writable:
  assumes "transmits ws sent left"
  shows "writable (ws_write_vectored ws) (ws_flush ws) (ws_sent sent)"
proof -
  have "case ws_write_vectored ws iovecs w of
        (Inr n, w') \<Rightarrow> n \<le> length (concat iovecs) \<and> ws_sent sent w' = ws_sent sent w @ take n (concat iovecs)
      | (Inl _, w') \<Rightarrow> ws_sent sent w' = ws_sent sent w" for iovecs w
    using ws_write_sent [OF assms, of iovecs w] first_slice_prefix [of iovecs] first_slice_length [of iovecs]
    by (cases "ws_write_vectored ws iovecs w") (auto simp: ws_sent_def split: sum.splits)
  with ws_flush_sent [OF assms] show ?thesis by (simp add: writable_def ws_sent_def)
qed

end
