(* ===== verification/Buffer_Pool.thy ===== *)
theory Buffer_Pool
  imports Accumulators
begin

text \<open>
  The buffer pool of the client (src/src/buffer_pool.rs, src/src/buffer_pool/bytes.rs and
  src/src/buffer_pool/bytes/buffers.rs) and the accumulator that the tests of the sources encode
  into (src/src/buffer_pool/accumulators/test.rs). \<open>BytesPool\<close> hands out \<open>BytesMut\<close> of the bytes
  crate; how much room that type makes is a parameter. An operation that panics gives \<open>None\<close>.
\<close>

section \<open>BytesPool\<close>

text \<open>
  What \<open>BytesMut\<close> decides: the unfilled length after \<open>with_capacity n\<close>, after \<open>reserve n\<close> and after
  \<open>chunk_mut\<close>, the last two given the one before.
\<close>

record bytes_mut =
  mut_with_capacity :: "nat \<Rightarrow> nat"
  mut_reserve :: "nat \<Rightarrow> nat \<Rightarrow> nat"
  mut_chunk :: "nat \<Rightarrow> nat"

text \<open>What the crate documents of them.\<close>

definition bytes_mut_ok :: "bytes_mut \<Rightarrow> bool" where
  "bytes_mut_ok m \<longleftrightarrow>
     (\<forall>n. n \<le> mut_with_capacity m n) \<and> (\<forall>u n. n \<le> mut_reserve m u n) \<and> (\<forall>u. u \<le> mut_chunk m u)"

definition bytes_pool :: "bytes_mut \<Rightarrow> pool" where
  "bytes_pool m = \<lparr>pool_reserve = (\<lambda>u n. Some (mut_reserve m u n)), pool_unfilled_mut = mut_chunk m\<rparr>"

definition take_owned :: "bytes_mut \<Rightarrow> nat \<Rightarrow> owned option" where
  "take_owned m n = Some \<lparr>filled = [], unfilled_len = mut_with_capacity m n\<rparr>"

definition take_empty_owned :: "bytes_mut \<Rightarrow> owned" where
  "take_empty_owned m = \<lparr>filled = [], unfilled_len = mut_with_capacity m 0\<rparr>"

text \<open>\<open>advance\<close> panics past the end of the filled region.\<close>

definition bytes_drain :: "nat \<Rightarrow> owned \<Rightarrow> owned option" where
  "bytes_drain n ow =
     (if n \<le> length (filled ow) then Some (ow\<lparr>filled := drop n (filled ow)\<rparr>) else None)"

text \<open>
  \<open>split_off\<close> at \<open>i\<close> and the swap. Past the filled region the front keeps the start of the unfilled
  one; past the capacity \<open>split_off\<close> panics.
\<close>

definition bytes_split_to :: "nat \<Rightarrow> owned \<Rightarrow> (owned \<times> owned) option" where
  "bytes_split_to i ow =
     (if i \<le> length (filled ow) + unfilled_len ow then
        Some (\<lparr>filled = take i (filled ow), unfilled_len = i - length (filled ow)\<rparr>,
              \<lparr>filled = drop i (filled ow), unfilled_len = unfilled_len ow - (i - length (filled ow))\<rparr>)
      else None)"

text \<open>\<open>put_slice\<close> as the trait documents it: it panics when there is no room.\<close>

definition owned_put_slice :: "bytes \<Rightarrow> owned \<Rightarrow> owned option" where
  "owned_put_slice src ow = (if length src \<le> unfilled_len ow then Some (owned_fill src ow) else None)"

text \<open>\<open>Bytes\<close>, the frozen buffer.\<close>

definition shared_drain :: "nat \<Rightarrow> bytes \<Rightarrow> bytes option" where
  "shared_drain i b = (if i \<le> length b then Some (drop i b) else None)"

definition shared_split_to :: "nat \<Rightarrow> bytes \<Rightarrow> (bytes \<times> bytes) option" where
  "shared_split_to i b = (if i \<le> length b then Some (take i b, drop i b) else None)"

text \<open>
  \<open>Shared::new\<close>: the copy of \<open>value\<close>, and what is left of \<open>owned\<close>. The pool's error is \<open>Inl ()\<close>; the
  failing assertion and a slice out of bounds are panics.
\<close>

definition shared_new :: "pool \<Rightarrow> owned \<Rightarrow> bytes \<Rightarrow> (unit + bytes \<times> owned) poll" where
  "shared_new bp ow value =
     (if filled ow \<noteq> [] then Panic ''assertion failed''
      else case owned_reserve bp (length value) ow of
             None \<Rightarrow> Ready (Inl ())
           | Some ow \<Rightarrow>
               let ow = owned_unfilled_mut bp ow
               in if unfilled_len ow < length value then Panic ''range end index''
                  else let ow = owned_fill value ow
                       in case bytes_split_to (length (filled ow)) ow of
                            None \<Rightarrow> Panic ''split_off''
                          | Some (front, ow) \<Rightarrow> Ready (Inr (filled front, ow)))"

definition copy_to_shared :: "pool \<Rightarrow> bytes \<Rightarrow> owned \<Rightarrow> (unit + bytes \<times> owned) poll" where
  "copy_to_shared bp b ow = shared_new bp ow b"

lemma bytes_pool_sel [simp]:
  "pool_reserve (bytes_pool m) u n = Some (mut_reserve m u n)" "pool_unfilled_mut (bytes_pool m) u = mut_chunk m u"
  by (simp_all add: bytes_pool_def)

lemma bytes_pool_ok: "bytes_mut_ok m \<Longrightarrow> pool_ok (bytes_pool m)"
  by (simp add: bytes_mut_ok_def pool_ok_def)

text \<open>Splitting cuts the two regions at one place and loses nothing of either.\<close>

lemma bytes_split_to_parts:
  "bytes_split_to i ow = Some (front, back) \<Longrightarrow>
     filled front @ filled back = filled ow \<and> unfilled_len front + unfilled_len back = unfilled_len ow \<and>
     length (filled front) + unfilled_len front = i"
  by (auto simp: bytes_split_to_def split: if_splits)

text \<open>The copy is exact and the buffer it was made in is empty again, so it can serve the next one.\<close>

lemma shared_new_copies:
  assumes "pool_ok bp" and "filled ow = []"
  shows "shared_new bp ow value = Ready (Inl ()) \<and> pool_reserve bp (unfilled_len ow) (length value) = None \<or>
    (\<exists>ow'. shared_new bp ow value = Ready (Inr (value, ow')) \<and> filled ow' = [])"
proof (cases "pool_reserve bp (unfilled_len ow) (length value)")
  case None
  then show ?thesis using assms(2) by (simp add: shared_new_def owned_reserve_def)
next
  case (Some u)
  have "length value \<le> u" "u \<le> pool_unfilled_mut bp u" using assms(1) Some by (auto simp: pool_ok_def)
  then have "length value \<le> pool_unfilled_mut bp u" by linarith
  then show ?thesis
    using Some assms(2)
    by (simp add: shared_new_def owned_reserve_def owned_unfilled_mut_def owned_fill_def bytes_split_to_def Let_def)
qed

section \<open>TestAccumulator\<close>

record test_accumulator =
  test_inner :: bytes
  test_unfilled_len :: nat
  put_done_required :: bool

definition test_with_capacity :: "nat \<Rightarrow> test_accumulator" where
  "test_with_capacity n = \<lparr>test_inner = [], test_unfilled_len = n, put_done_required = False\<rparr>"

definition test_can_accept_more :: "test_accumulator \<Rightarrow> bool" where
  "test_can_accept_more a = True"

definition test_reserve :: "nat \<Rightarrow> test_accumulator \<Rightarrow> test_accumulator option" where
  "test_reserve n a = Some (a\<lparr>test_unfilled_len := max (test_unfilled_len a) n\<rparr>)"

definition test_put_done :: "test_accumulator \<Rightarrow> test_accumulator" where
  "test_put_done a = a\<lparr>put_done_required := False\<rparr>"

definition test_put_shared :: "bytes \<Rightarrow> test_accumulator \<Rightarrow> test_accumulator" where
  "test_put_shared src a = (let a = test_put_done a in a\<lparr>test_inner := test_inner a @ src\<rparr>)"

definition test_try_put_slice :: "bytes \<Rightarrow> test_accumulator \<Rightarrow> bool \<times> test_accumulator" where
  "test_try_put_slice src a =
     (if test_unfilled_len a < length src then (False, a)
      else (True, a\<lparr>test_inner := test_inner a @ src, test_unfilled_len := test_unfilled_len a - length src,
                    put_done_required := True\<rparr>))"

definition test_to_iovecs :: "nat \<Rightarrow> test_accumulator \<Rightarrow> bytes list option" where
  "test_to_iovecs k a =
     (if put_done_required a then None
      else Some (if k \<noteq> 0 \<and> test_inner a \<noteq> [] then [test_inner a] else []))"

definition test_drain :: "nat \<Rightarrow> test_accumulator \<Rightarrow> test_accumulator option" where
  "test_drain n a =
     (if n \<le> length (test_inner a) then Some (a\<lparr>test_inner := drop n (test_inner a)\<rparr>) else None)"

definition test_is_empty :: "test_accumulator \<Rightarrow> bool" where
  "test_is_empty a \<longleftrightarrow> test_inner a = []"

interpretation test_acc: bytes_accumulator test_try_put_slice test_put_shared test_put_done
  test_inner "\<lambda>b v. v @ b" "\<lambda>b v. v @ b" "\<lambda>n a. n \<le> test_unfilled_len a"
  by unfold_locales (auto simp: test_try_put_slice_def test_put_shared_def test_put_done_def Let_def)

text \<open>
  Unlike the contract, which promises only that what was reserved is accepted, this accumulator
  refuses the first slice that was not: running an encoder on it tells whether the count it was
  reserved from is enough, and exactly enough.
\<close>

lemma test_run_puts_short:
  "test_unfilled_len a < sum_list (map slice_len ps) \<Longrightarrow>
     \<exists>a' e. run_puts test_try_put_slice test_put_shared test_put_done ps a = (a', Some e)"
proof (induction ps arbitrary: a)
  case (Cons p ps)
  then show ?case
    by (cases p) (auto simp: test_try_put_slice_def test_put_shared_def test_put_done_def Let_def)
qed simp

lemma test_run_exact:
  assumes "snd e = None"
  shows "(\<exists>a. run_enc test_try_put_slice test_put_shared test_put_done e (test_with_capacity n) = (a, None) \<and>
      test_inner a = enc_bytes e) \<longleftrightarrow> slice_bytes e \<le> n"
proof (cases "slice_bytes e \<le> n")
  case True
  then show ?thesis
    using test_acc.run_enc_fits [of e 0 "test_with_capacity n"] assms
      test_acc.run_enc_fits [of e "n - slice_bytes e" "test_with_capacity n"]
    by (auto simp: test_with_capacity_def fold_append enc_bytes_def)
next
  case False
  then obtain a' x where
    "run_puts test_try_put_slice test_put_shared test_put_done (fst e) (test_with_capacity n) = (a', Some x)"
    using test_run_puts_short [of "test_with_capacity n" "fst e"] by (auto simp: test_with_capacity_def slice_bytes_def)
  with False show ?thesis by (simp add: run_enc_def)
qed

end
