(* ===== verification/Test_Stream.thy ===== *)
theory Test_Stream
  imports Client_Life Buffer_Pool
begin

text \<open>
  The transport of the client's own tests (src/src/io/test.rs): packets go through channels instead
  of a socket. The reading half encodes the packets it receives into bytes for \<open>Reader\<close>, the writing
  half cuts the bytes of \<open>Writer\<close> into packets again. Every \<open>unwrap\<close> of the sources is a panic here.
\<close>

section \<open>Reading\<close>

text \<open>
  \<open>incoming_open\<close> says whether a sender of the channel is left. \<open>take_empty_owned\<close> of the pool is
  the argument \<open>fresh\<close>.
\<close>

record test_stream_read =
  incoming_packets :: "packet list"
  incoming_open :: bool
  current_packet :: "bytes option"

text \<open>The received packet as a buffer of the pool; \<open>None\<close> when one of the \<open>unwrap\<close>s panics.\<close>

definition encode_incoming :: "pool \<Rightarrow> owned \<Rightarrow> packet \<Rightarrow> bytes option" where
  "encode_incoming bp fresh p =
     (case byte_count False (packet_encode V5 p) of
        (_, Some e) \<Rightarrow> None
      | (num_bytes_needed, None) \<Rightarrow>
          (case either_reserve bp num_bytes_needed (Single []) of
             None \<Rightarrow> None
           | Some accumulator \<Rightarrow>
               (case run_either bp (packet_encode V5 p) accumulator of
                  (_, Some e) \<Rightarrow> None
                | (accumulator, None) \<Rightarrow>
                    (case either_to_iovecs 1 accumulator of
                       None \<Rightarrow> None
                     | Some iovecs \<Rightarrow>
                         (case shared_new bp fresh (case iovecs of [] \<Rightarrow> [] | iovec # _ \<Rightarrow> iovec) of
                            Ready (Inr (packet, _)) \<Rightarrow> Some packet
                          | _ \<Rightarrow> None)))))"

text \<open>\<open>n\<close> is the length of the buffer to read into. The loop turns at most twice.\<close>

function test_read :: "pool \<Rightarrow> owned \<Rightarrow> nat \<Rightarrow> test_stream_read \<Rightarrow> bytes poll \<times> test_stream_read" where
  "test_read bp fresh n s =
     (case current_packet s of
        Some packet \<Rightarrow>
          let read = min n (length packet)
          in (case shared_split_to read packet of
                None \<Rightarrow> (Panic ''split_to'', s)
              | Some (to_read_from, packet) \<Rightarrow>
                  (Ready to_read_from, s\<lparr>current_packet := if packet = [] then None else Some packet\<rparr>))
      | None \<Rightarrow>
          (case incoming_packets s of
             [] \<Rightarrow> (if incoming_open s then Pending else Ready [], s)
           | p # ps \<Rightarrow>
               let s = s\<lparr>incoming_packets := ps\<rparr>
               in (case encode_incoming bp fresh p of
                     None \<Rightarrow> (Panic ''unwrap'', s)
                   | Some packet \<Rightarrow> test_read bp fresh n (s\<lparr>current_packet := Some packet\<rparr>))))"
  by pat_completeness auto
termination
  by (relation "measure (\<lambda>(bp, fresh, n, s). if current_packet s = None then 1 else 0)") auto

declare test_read.simps [simp del]

section \<open>Writing\<close>

record test_stream_write =
  outgoing_packets :: "packet list"
  outgoing_open :: bool
  current_buf :: owned

text \<open>\<open>for buf in bufs\<close>: reserve, append, count.\<close>

fun buffer_slices :: "pool \<Rightarrow> bytes list \<Rightarrow> nat \<Rightarrow> owned \<Rightarrow> (nat \<times> owned) option" where
  "buffer_slices bp [] written ow = Some (written, ow)"
| "buffer_slices bp (b # bs) written ow =
     (case owned_reserve bp (length b) ow of
        None \<Rightarrow> None
      | Some ow \<Rightarrow>
          (case owned_put_slice b ow of
             None \<Rightarrow> None
           | Some ow \<Rightarrow> buffer_slices bp bs (written + length b) ow))"

text \<open>
  The loop that sends every complete packet of the buffer. \<open>Ready True\<close> is the \<open>break\<close> and
  \<open>Ready False\<close> the early return when the receiver is gone.
\<close>

function deliver_loop :: "unicode \<Rightarrow> test_stream_write \<Rightarrow> bool poll \<times> test_stream_write" where
  "deliver_loop uc s =
     (let buf = current_buf s
      in case decode_fixed_header (filled buf) of
           Inl e \<Rightarrow> (Panic ''decode_fixed_header'', s)
         | Inr None \<Rightarrow> (Ready True, s)
         | Inr (Some ((first_byte, remaining_length), rest)) \<Rightarrow>
             let fixed_header_len = length (filled buf) - length rest
             in if length (filled buf) < fixed_header_len + remaining_length then (Ready True, s)
                else let (raw_rest, buf) = owned_split_to remaining_length (owned_drain fixed_header_len buf);
                         s = s\<lparr>current_buf := buf\<rparr>
                     in case packet_decode uc V5 first_byte raw_rest of
                          Inl e \<Rightarrow> (Panic ''Packet::decode'', s)
                        | Inr p \<Rightarrow>
                            if outgoing_open s
                            then deliver_loop uc (s\<lparr>outgoing_packets := outgoing_packets s @ [p]\<rparr>)
                            else (Ready False, s))"
  by pat_completeness auto
termination
  by (relation "measure (\<lambda>(uc, s). length (filled (current_buf s)))")
    (auto simp: owned_split_to_def owned_drain_def dest!: decode_fixed_header_shorter)

declare deliver_loop.simps [simp del]

definition test_write_vectored ::
  "unicode \<Rightarrow> pool \<Rightarrow> bytes list \<Rightarrow> test_stream_write \<Rightarrow> nat poll \<times> test_stream_write"
where
  "test_write_vectored uc bp bufs s =
     (case buffer_slices bp bufs 0 (current_buf s) of
        None \<Rightarrow> (Panic ''reserve'', s)
      | Some (written, buf) \<Rightarrow>
          (case deliver_loop uc (s\<lparr>current_buf := buf\<rparr>) of
             (Ready True, s) \<Rightarrow> (Ready written, s)
           | (Ready False, s) \<Rightarrow> (Ready 0, s)
           | (Panic m, s) \<Rightarrow> (Panic m, s)
           | (Pending, s) \<Rightarrow> (Pending, s)
           | (Diverges, s) \<Rightarrow> (Diverges, s)))"

definition test_flush :: "test_stream_write \<Rightarrow> (io_error + unit) \<times> test_stream_write" where
  "test_flush s = (Inr (), s)"

text \<open>\<open>connect\<close>: a reader and a writer over fresh halves.\<close>

definition test_connect ::
  "packet list \<Rightarrow> bool \<Rightarrow> bool \<Rightarrow> owned \<Rightarrow> owned \<Rightarrow> test_stream_read reader \<times> test_stream_write writer"
where
  "test_connect incoming in_open out_open reader_empty writer_empty =
     (reader_new \<lparr>incoming_packets = incoming, incoming_open = in_open, current_packet = None\<rparr> reader_empty,
      writer_new \<lparr>outgoing_packets = [], outgoing_open = out_open, current_buf = writer_empty\<rparr> (Single []))"

section \<open>The reading half is a byte stream\<close>

lemma packet_encode_nonempty: "snd (packet_encode v p) = None \<Longrightarrow> enc_bytes (packet_encode v p) \<noteq> []"
  by (auto simp: packet_encode_def encode_inner_def enc_then_def enc_bytes_def put_u8_def enc_fail_def
      put_slice_def split: prod.splits option.splits)

lemma run_single: "\<exists>b'. fst (run_either bp e (Single b)) = Single b'"
  using run_puts_inv [of "\<lambda>a. \<exists>b. a = Single b" "either_try_put_slice bp" either_put_shared either_put_done "Single b" "fst e"]
  by (force simp: run_enc_def single_try_put_slice_def split: prod.splits option.splits)

lemma encode_incoming_wire:
  assumes "pool_ok bp" and "pool_total bp" and "filled fresh = []"
  shows "encode_incoming bp fresh p =
    (if snd (packet_encode V5 p) = None then Some (enc_bytes (packet_encode V5 p)) else None)"
proof (cases "snd (packet_encode V5 p)")
  case None
  obtain a' where a': "run_either bp (packet_encode V5 p) (Single []) = (a', None)"
    "either_view a' = enc_bytes (packet_encode V5 p)"
    using run_either_fits [OF assms(1), of "packet_encode V5 p" "Single []"] None by auto
  have "\<exists>b. a' = Single b" using run_single [of bp "packet_encode V5 p" "[]"] a'(1) by simp
  then have a: "a' = Single (enc_bytes (packet_encode V5 p))" using a'(2) by auto
  obtain ow where "shared_new bp fresh (enc_bytes (packet_encode V5 p)) = Ready (Inr (enc_bytes (packet_encode V5 p), ow))"
    using shared_new_copies [OF assms(1,3), of "enc_bytes (packet_encode V5 p)"] assms(2)
    unfolding pool_total_def by auto
  then show ?thesis
    using None a' a packet_encode_nonempty [OF None]
    by (simp add: encode_incoming_def byte_count_slices single_to_iovecs_def)
next
  case (Some e)
  then show ?thesis by (simp add: encode_incoming_def byte_count_slices)
qed

text \<open>
  The states the half can be in when every packet of the channel can be encoded: a current packet has
  bytes left. From them no \<open>unwrap\<close> panics.
\<close>

definition encodes :: "packet \<Rightarrow> bool" where
  "encodes p \<longleftrightarrow> snd (packet_encode V5 p) = None"

definition source_ok :: "test_stream_read \<Rightarrow> bool" where
  "source_ok s \<longleftrightarrow> current_packet s \<noteq> Some [] \<and> list_all encodes (incoming_packets s)"

definition test_incoming :: "test_stream_read \<Rightarrow> bytes" where
  "test_incoming s = (case current_packet s of None \<Rightarrow> [] | Some b \<Rightarrow> b) @ wire (incoming_packets s)"

lemma test_read_current:
  "current_packet s = Some b \<Longrightarrow>
     test_read bp fresh n s =
       (Ready (take n b), s\<lparr>current_packet := if length b \<le> n then None else Some (drop n b)\<rparr>)"
  by (simp add: test_read.simps [of bp fresh n s] shared_split_to_def Let_def min_def)

lemma test_read_idle:
  "current_packet s = None \<Longrightarrow> incoming_packets s = [] \<Longrightarrow>
     test_read bp fresh n s = (if incoming_open s then Pending else Ready [], s)"
  by (simp add: test_read.simps [of bp fresh n s])

lemma test_read_next:
  assumes "current_packet s = None" and "incoming_packets s = p # ps"
  shows "encode_incoming bp fresh p = None \<Longrightarrow> test_read bp fresh n s = (Panic ''unwrap'', s\<lparr>incoming_packets := ps\<rparr>)"
    and "encode_incoming bp fresh p = Some b \<Longrightarrow>
      test_read bp fresh n s = test_read bp fresh n (s\<lparr>incoming_packets := ps, current_packet := Some b\<rparr>)"
  using assms by (simp_all add: test_read.simps [of bp fresh n s] Let_def)

text \<open>
  Reading never loses, repeats or reorders a byte of the packets that were sent, whatever the lengths
  of the buffers it reads into.
\<close>

definition source_step :: "nat \<Rightarrow> test_stream_read \<Rightarrow> bytes poll \<times> test_stream_read \<Rightarrow> bool" where
  "source_step n s res \<longleftrightarrow>
     (case res of
        (Ready b, s') \<Rightarrow> source_ok s' \<and> length b \<le> n \<and> test_incoming s = b @ test_incoming s' \<and>
          (b = [] \<longrightarrow> n = 0 \<or> test_incoming s = [])
      | (Pending, s') \<Rightarrow> s' = s \<and> incoming_open s \<and> test_incoming s = []
      | _ \<Rightarrow> False)"

lemma test_read_source_current:
  "source_ok s \<Longrightarrow> current_packet s = Some b \<Longrightarrow> source_step n s (test_read bp fresh n s)"
  by (auto simp: test_read_current source_step_def source_ok_def test_incoming_def)

lemma test_read_source:
  assumes "pool_ok bp" and "pool_total bp" and "filled fresh = []" and s: "source_ok s"
  shows "source_step n s (test_read bp fresh n s)"
proof (cases "current_packet s")
  case (Some b)
  with s show ?thesis by (rule test_read_source_current)
next
  case None
  show ?thesis
  proof (cases "incoming_packets s")
    case Nil
    with None s show ?thesis by (simp add: test_read_idle source_step_def test_incoming_def)
  next
    case (Cons p ps)
    define s1 where "s1 = s\<lparr>incoming_packets := ps, current_packet := Some (enc_bytes (packet_encode V5 p))\<rparr>"
    have p: "encodes p" "source_ok s1"
      using s Cons by (auto simp: source_ok_def s1_def encodes_def packet_encode_nonempty)
    have "test_read bp fresh n s = test_read bp fresh n s1"
      using test_read_next(2) [OF None Cons] encode_incoming_wire [OF assms(1-3)] p(1)
      by (simp add: s1_def encodes_def)
    moreover have "test_incoming s = test_incoming s1" using None Cons by (simp add: test_incoming_def s1_def)
    moreover have "source_step n s1 (test_read bp fresh n s1)"
      using p(2) by (rule test_read_source_current) (simp add: s1_def)
    moreover have "\<exists>b s'. test_read bp fresh n s1 = (Ready b, s')" by (simp add: test_read_current s1_def)
    ultimately show ?thesis by (auto simp: source_step_def)
  qed
qed

text \<open>So the half is a stream of a \<open>Reader\<close>, over the states it can be in.\<close>

typedef test_source = "{s. source_ok s}"
  morphisms source_state Source
  by (rule exI [of _ "\<lparr>incoming_packets = [], incoming_open = False, current_packet = None\<rparr>"])
    (simp add: source_ok_def)

definition source_read :: "pool \<Rightarrow> owned \<Rightarrow> test_source read_fn" where
  "source_read bp fresh n src =
     (case test_read bp fresh n (source_state src) of
        (Ready b, s) \<Rightarrow> (IoReady b, Source s)
      | (Pending, s) \<Rightarrow> (IoPending, Source s)
      | (_, s) \<Rightarrow> (IoErr (StreamError ''panicked''), Source s))"

lemma source_state_ok [simp]: "source_ok (source_state src)"
  using source_state by simp

lemma source_readable:
  assumes "pool_ok bp" and "pool_total bp" and "filled fresh = []"
  shows "readable (source_read bp fresh) (\<lambda>src. test_incoming (source_state src))"
  unfolding readable_def
proof (intro allI)
  fix n src
  have "source_step n (source_state src) (test_read bp fresh n (source_state src))"
    by (rule test_read_source [OF assms source_state_ok])
  then show "case source_read bp fresh n src of
        (IoReady b, src') \<Rightarrow>
          length b \<le> n \<and> test_incoming (source_state src) = b @ test_incoming (source_state src') \<and>
          (b = [] \<longrightarrow> n = 0 \<or> test_incoming (source_state src) = [])
      | (_, src') \<Rightarrow> test_incoming (source_state src') = test_incoming (source_state src)"
    by (auto simp: source_read_def source_step_def Source_inverse source_state_inverse split: prod.splits poll.splits)
qed

section \<open>The writing half restores the packets\<close>

lemma owned_put_total:
  assumes "pool_ok bp" and "pool_total bp"
  obtains ow1 ow2 where "owned_reserve bp (length b) ow = Some ow1" and "owned_put_slice b ow1 = Some ow2"
    and "filled ow2 = filled ow @ b"
  using owned_reserve_total [OF assms, of "length b" ow] by (metis filled_ops(2) owned_put_slice_def)

lemma buffer_slices_total:
  assumes "pool_ok bp" and "pool_total bp"
  shows "\<exists>ow'. buffer_slices bp bufs k ow = Some (k + length (concat bufs), ow') \<and> filled ow' = filled ow @ concat bufs"
proof (induction bufs arbitrary: k ow)
  case (Cons b bs)
  obtain ow1 ow2 where "owned_reserve bp (length b) ow = Some ow1" "owned_put_slice b ow1 = Some ow2"
    "filled ow2 = filled ow @ b" by (rule owned_put_total [OF assms])
  then show ?case using Cons.IH [of "k + length b" ow2] by auto
qed simp

text \<open>A packet at the start of the bytes, however much of them there is.\<close>

definition deliverable :: "unicode \<Rightarrow> packet \<Rightarrow> bool" where
  "deliverable uc p \<longleftrightarrow> packet_ok uc V5 p \<and> encodes p"

lemma deliverable_wire:
  assumes "utf8_ascii uc" and "deliverable uc p"
  shows "\<exists>fb body. decode_fixed_header (wire (p # ps)) = Inr (Some ((fb, length body), body @ wire ps)) \<and>
    packet_decode uc V5 fb body = Inr p"
proof -
  have p: "packet_ok uc V5 p" "snd (packet_encode V5 p) = None" using assms(2) by (simp_all add: deliverable_def encodes_def)
  have short: "length (enc_bytes (packet_body V5 p)) < varint_limit"
    using packet_encode_too_long [OF p(1) assms(1)] p(2) by (metis not_le option.distinct(1))
  show ?thesis
    using packet_encode_bytes(2) [OF p(1) assms(1) short] packet_decode_body_wire [OF p(1) assms(1)]
      decode_fixed_header_digits [OF short]
    by (intro exI [of _ "packet_type p OR packet_flags p"] exI [of _ "enc_bytes (packet_body V5 p)"]) simp
qed

lemma deliver_loop_restores:
  assumes "utf8_ascii uc" and "list_all (deliverable uc) ps" and "outgoing_open s"
    and "filled (current_buf s) @ later = wire ps"
  shows "\<exists>k s'. deliver_loop uc s = (Ready True, s') \<and> outgoing_open s' \<and>
    outgoing_packets s' = outgoing_packets s @ take k ps \<and> filled (current_buf s') @ later = wire (drop k ps) \<and>
    (later = [] \<longrightarrow> drop k ps = [])"
  using assms
proof (induction ps arbitrary: s)
  case Nil
  then have "decode_fixed_header (filled (current_buf s)) = Inr None" by (simp add: decode_fixed_header_def)
  with Nil show ?case by (auto simp: deliver_loop.simps [of uc s])
next
  case (Cons p ps)
  obtain fb body where whole: "decode_fixed_header (wire (p # ps)) = Inr (Some ((fb, length body), body @ wire ps))"
    and dec: "packet_decode uc V5 fb body = Inr p" using deliverable_wire [OF Cons.prems(1)] Cons.prems(2) by force
  define buf where "buf = filled (current_buf s)"
  have parts: "buf @ later = wire (p # ps)" using Cons.prems(4) by (simp add: buf_def)
  consider (part) "decode_fixed_header buf = Inr None"
    | (header) rest where "decode_fixed_header buf = Inr (Some ((fb, length body), rest))" "rest @ later = body @ wire ps"
  proof (cases "decode_fixed_header buf")
    case (Inl e)
    from decode_fixed_header_error_append [OF Inl, of later] parts whole show thesis by simp
  next
    case (Inr v)
    show thesis
    proof (cases v)
      case None
      with Inr that(1) show thesis by simp
    next
      case (Some w)
      obtain h rest where w: "w = (h, rest)" by fastforce
      from decode_fixed_header_append [OF Inr [unfolded Some w], of later] parts whole
      have "h = (fb, length body)" "rest @ later = body @ wire ps" by auto
      with Inr Some w that(2) show thesis by simp
    qed
  qed
  then show ?case
  proof cases
    case part
    then have "later \<noteq> []" using parts whole by auto
    with part Cons.prems show ?thesis
      by (intro exI [of _ 0] exI [of _ s]) (simp add: deliver_loop.simps [of uc s] buf_def)
  next
    case header
    note shorter = decode_fixed_header_shorter [OF header(1)]
    obtain pre where pre: "buf = pre @ rest" by (rule decode_fixed_header_suffix [OF header(1)])
    show ?thesis
    proof (cases "length rest < length body")
      case True
      then have "later \<noteq> []" using header(2) by (metis append_Nil2 le_add1 length_append not_le)
      with True header(1) pre Cons.prems show ?thesis
        by (intro exI [of _ 0] exI [of _ s]) (simp add: deliver_loop.simps [of uc s] buf_def [symmetric])
    next
      case False
      define s1 where "s1 = s\<lparr>current_buf := (current_buf s)\<lparr>filled := drop (length body) rest\<rparr>,
        outgoing_packets := outgoing_packets s @ [p]\<rparr>"
      have body: "take (length body) rest = body" "drop (length body) rest @ later = wire ps"
        using False header(2) by (metis append_eq_append_conv_if append_eq_conv_conj not_less)+
      have "deliver_loop uc s = deliver_loop uc s1"
        using header(1) pre False dec body(1) Cons.prems(3)
        by (simp add: deliver_loop.simps [of uc s] buf_def [symmetric] owned_split_to_def owned_drain_def s1_def Let_def)
      moreover obtain k s' where "deliver_loop uc s1 = (Ready True, s')" "outgoing_open s'"
        "outgoing_packets s' = outgoing_packets s1 @ take k ps" "filled (current_buf s') @ later = wire (drop k ps)"
        "later = [] \<longrightarrow> drop k ps = []"
        using Cons.IH [of s1] Cons.prems body(2) by (auto simp: s1_def)
      ultimately show ?thesis
        by (intro exI [of _ "Suc k"] exI [of _ s']) (simp add: s1_def)
    qed
  qed
qed

text \<open>However the bytes are cut into writes and these into slices.\<close>

primrec test_writes ::
  "unicode \<Rightarrow> pool \<Rightarrow> bytes list list \<Rightarrow> test_stream_write \<Rightarrow> nat poll list \<times> test_stream_write"
where
  "test_writes uc bp [] s = ([], s)"
| "test_writes uc bp (bufs # ws) s =
     (case test_write_vectored uc bp bufs s of (r, s) \<Rightarrow> apfst ((#) r) (test_writes uc bp ws s))"

lemma test_writes_restore:
  assumes "utf8_ascii uc" and "pool_ok bp" and "pool_total bp" and "list_all (deliverable uc) ps"
    and "outgoing_open s" and "filled (current_buf s) @ concat (map concat ws) = wire ps" and "ws = [] \<longrightarrow> ps = []"
  shows "\<exists>s'. test_writes uc bp ws s = (map (\<lambda>bufs. Ready (length (concat bufs))) ws, s') \<and>
    outgoing_packets s' = outgoing_packets s @ ps \<and> filled (current_buf s') = []"
  using assms(4-7)
proof (induction ws arbitrary: ps s)
  case Nil
  then show ?case by auto
next
  case (Cons bufs ws)
  obtain ow where ow: "buffer_slices bp bufs 0 (current_buf s) = Some (length (concat bufs), ow)"
    "filled ow = filled (current_buf s) @ concat bufs" using buffer_slices_total [OF assms(2,3), of bufs 0 "current_buf s"] by auto
  obtain k s1 where s1: "deliver_loop uc (s\<lparr>current_buf := ow\<rparr>) = (Ready True, s1)" "outgoing_open s1"
    "outgoing_packets s1 = outgoing_packets s @ take k ps"
    "filled (current_buf s1) @ concat (map concat ws) = wire (drop k ps)" "concat (map concat ws) = [] \<longrightarrow> drop k ps = []"
    using deliver_loop_restores [OF assms(1) Cons.prems(1), of "s\<lparr>current_buf := ow\<rparr>" "concat (map concat ws)"]
      Cons.prems(2,3) ow(2) by auto
  have "list_all (deliverable uc) (drop k ps)" using Cons.prems(1) by (metis append_take_drop_id list_all_append)
  then obtain s' where "test_writes uc bp ws s1 = (map (\<lambda>bufs. Ready (length (concat bufs))) ws, s')"
    "outgoing_packets s' = outgoing_packets s1 @ drop k ps" "filled (current_buf s') = []"
    using Cons.IH [OF _ s1(2,4)] s1(5) by auto
  with ow(1) s1(1,3) show ?case by (simp add: test_write_vectored_def)
qed

lemma wire_Nil_iff: "list_all encodes ps \<Longrightarrow> wire ps = [] \<longleftrightarrow> ps = []"
  by (cases ps) (auto simp: encodes_def packet_encode_nonempty)

end
