(* ===== verification/Transport_Setup.thy ===== *)
theory Transport_Setup
  imports Http_Proxy Web_Socket Test_Stream
begin

text \<open>
  How the client gets its stream: the configuration (src/src/transport.rs), the TCP, proxy and TLS
  layers (src/src/io/stream.rs), the three transports (src/src/io/tokio_tcp.rs, tokio_tls.rs and
  tokio_ws.rs) and \<open>transport_connect\<close> of src/src/client.rs, which chooses one. Sockets, OpenSSL and
  the WebSocket handshake are parameters: a record of the operations the code calls.
\<close>

section \<open>Configuration\<close>

text \<open>\<open>'c\<close> is a TLS configuration, OpenSSL's \<open>SslConnectorBuilder\<close>.\<close>

datatype 'c proxy_endpoint =
    Http (proxy_hostname: bytes) (proxy_port: u16)
  | Https (proxy_hostname: bytes) (proxy_port: u16) (proxy_tls_config: 'c)

record 'c proxy =
  endpoint :: "'c proxy_endpoint"
  proxy_auth :: proxy_authorization

text \<open>The parts of a WebSocket request that the code uses: those of its URI, and the headers.\<close>

record ws_request =
  uri_host :: "bytes option"
  uri_port :: "u16 option"
  uri_scheme :: "bytes option"
  ws_headers :: "(bytes \<times> bytes) list"

datatype 'c connection_transport_type =
    Tcp bytes u16
  | Tls bytes u16 'c
  | Ws ws_request "'c option"
  | TestTransport "packet list" bool bool

record 'c connection_transport_config =
  transport_type :: "'c connection_transport_type"
  transport_timeout :: "nat option"
  transport_proxy :: "'c proxy option"
  tcp_nodelay :: bool

subsection \<open>TLS configurations\<close>

text \<open>The calls of OpenSSL that \<open>TlsConfig\<close> makes; certificates are \<open>'x\<close> and private keys \<open>'k\<close>.\<close>

record ('c, 'x, 'k) openssl =
  ssl_builder :: "io_error + 'c"
  set_min_tls12 :: "'c \<Rightarrow> io_error + 'c"
  set_certificate :: "'x \<Rightarrow> 'c \<Rightarrow> io_error + 'c"
  set_private_key :: "'k \<Rightarrow> 'c \<Rightarrow> io_error + 'c"
  add_extra_chain_cert :: "'x \<Rightarrow> 'c \<Rightarrow> io_error + 'c"
  add_cert :: "'x \<Rightarrow> 'c \<Rightarrow> io_error + 'c"
  stack_from_pem :: "bytes \<Rightarrow> io_error + 'x list"
  private_key_from_pem :: "bytes \<Rightarrow> io_error + 'k"

primrec each_cert :: "('x \<Rightarrow> 'c \<Rightarrow> io_error + 'c) \<Rightarrow> 'x list \<Rightarrow> 'c \<Rightarrow> io_error + 'c" where
  "each_cert f [] c = Inr c"
| "each_cert f (x # xs) c = and_then (f x c) (each_cert f xs)"

definition tls_config_new ::
  "('c, 'x, 'k) openssl \<Rightarrow> ('x \<times> 'k \<times> 'x list) option \<Rightarrow> 'x list \<Rightarrow> io_error + 'c"
where
  "tls_config_new ssl client_cert ca_trust_bundle =
     and_then (ssl_builder ssl) (\<lambda>c.
     and_then (set_min_tls12 ssl c) (\<lambda>c.
     and_then
       (case client_cert of
          None \<Rightarrow> Inr c
        | Some (cert, pkey, cert_chain) \<Rightarrow>
            and_then (set_certificate ssl cert c) (\<lambda>c.
            and_then (set_private_key ssl pkey c) (\<lambda>c.
            each_cert (add_extra_chain_cert ssl) cert_chain c))) (\<lambda>c.
     if ca_trust_bundle \<noteq> [] then each_cert (add_cert ssl) ca_trust_bundle c else Inr c)))"

text \<open>\<open>Vec::pop\<close>: the last element.\<close>

definition vec_pop :: "'a list \<Rightarrow> ('a \<times> 'a list) option" where
  "vec_pop xs = (if xs = [] then None else Some (last xs, butlast xs))"

definition client_cert_from_pem ::
  "('c, 'x, 'k) openssl \<Rightarrow> (bytes \<times> bytes) option \<Rightarrow> io_error + ('x \<times> 'k \<times> 'x list) option"
where
  "client_cert_from_pem ssl client_cert =
     (case client_cert of
        None \<Rightarrow> Inr None
      | Some (cert, pkey) \<Rightarrow>
          and_then (stack_from_pem ssl cert) (\<lambda>client_cert_chain.
          (case vec_pop (rev client_cert_chain) of
             None \<Rightarrow> Inl (StreamError ''client cert PEM does not contain any certificates'')
           | Some (client_cert, client_cert_chain) \<Rightarrow>
               and_then (private_key_from_pem ssl pkey) (\<lambda>pkey.
               Inr (Some (client_cert, pkey, rev client_cert_chain))))))"

definition tls_config_from_pem ::
  "('c, 'x, 'k) openssl \<Rightarrow> (bytes \<times> bytes) option \<Rightarrow> bytes \<Rightarrow> io_error + 'c"
where
  "tls_config_from_pem ssl client_cert ca_trust_bundle =
     and_then (client_cert_from_pem ssl client_cert) (\<lambda>client_cert.
     and_then (stack_from_pem ssl ca_trust_bundle) (\<lambda>ca_trust_bundle.
     tls_config_new ssl client_cert ca_trust_bundle))"

text \<open>The first certificate of the PEM is the client's own, the others its chain, in their order.\<close>

lemma client_cert_from_pem_leaf_first:
  assumes "stack_from_pem ssl cert = Inr chain" and "private_key_from_pem ssl pkey = Inr k"
  shows "client_cert_from_pem ssl (Some (cert, pkey)) =
    (case chain of
       [] \<Rightarrow> Inl (StreamError ''client cert PEM does not contain any certificates'')
     | leaf # rest \<Rightarrow> Inr (Some (leaf, k, rest)))"
  using assms by (cases chain) (simp_all add: client_cert_from_pem_def vec_pop_def)

section \<open>The layers\<close>

datatype setup_error =
    SetupIo io_error
  | SetupProxy proxy_error
  | SetupElapsed
  | NoHostComponent
  | NoSchemeComponent
  | UnsupportedScheme bytes
  | TlsConfigMismatch bytes

text \<open>
  How a phase of the set-up ends; \<open>SetupPending\<close> is one that has not ended when the timer of the
  caller, if there is one, fires.
\<close>

datatype 'a outcome = SetupOk 'a | SetupErr setup_error | SetupPending

primrec setup_then :: "'a outcome \<Rightarrow> ('a \<Rightarrow> 'b outcome) \<Rightarrow> 'b outcome" where
  "setup_then (SetupOk x) f = f x"
| "setup_then (SetupErr e) f = SetupErr e"
| "setup_then SetupPending f = SetupPending"

primrec of_io :: "'a io \<Rightarrow> 'a outcome" where
  "of_io (IoReady x) = SetupOk x"
| "of_io (IoErr e) = SetupErr (SetupIo e)"
| "of_io IoPending = SetupPending"

primrec of_step :: "'a step \<Rightarrow> 'a outcome" where
  "of_step (StepOk x) = SetupOk x"
| "of_step (StepErr e) = SetupErr (SetupProxy e)"
| "of_step StepPending = SetupPending"

primrec of_result :: "io_error + 'a \<Rightarrow> 'a outcome" where
  "of_result (Inr x) = SetupOk x"
| "of_result (Inl e) = SetupErr (SetupIo e)"

text \<open>\<open>SslStream<S>\<close> is a TLS session over a stream.\<close>

datatype ('ssl, 's) ssl_stream = SslStream (ssl_session: 'ssl) (ssl_below: 's)

datatype ('tcp, 'ssl) transport_stream = PlainStream 'tcp | TlsStream "('ssl, 'tcp) ssl_stream"

text \<open>
  What is below: \<open>TcpStream::connect\<close> and \<open>set_nodelay\<close>; \<open>build().configure()\<close> with \<open>into_ssl\<close>, which
  fixes the name that the peer's certificate has to match, and \<open>SslStream::connect\<close> over either kind of
  stream; the streams as the proxy exchange uses them; the WebSocket handshake over either kind.
\<close>

record ('tcp, 'c, 'ssl, 'b, 'd, 'w) network =
  tcp_stream_connect :: "bytes \<Rightarrow> u16 \<Rightarrow> 'tcp io"
  set_nodelay :: "bool \<Rightarrow> 'tcp \<Rightarrow> io_error + 'tcp"
  into_ssl :: "'c \<Rightarrow> bytes \<Rightarrow> io_error + 'ssl"
  ssl_connect_proxy :: "('ssl, 'tcp) ssl_stream \<Rightarrow> ('ssl, 'tcp) ssl_stream io"
  ssl_connect_target ::
    "('ssl, ('tcp, 'ssl) transport_stream) ssl_stream \<Rightarrow> ('ssl, ('tcp, 'ssl) transport_stream) ssl_stream io"
  base64_encode :: "bytes \<Rightarrow> bytes"
  plain_proxy_io :: "('tcp, 'b) proxy_io"
  tls_proxy_io :: "(('ssl, 'tcp) ssl_stream, 'd) proxy_io"
  client_async_plain :: "ws_request \<Rightarrow> ('tcp, 'ssl) transport_stream \<Rightarrow> 'w io"
  client_async_tls :: "ws_request \<Rightarrow> ('ssl, ('tcp, 'ssl) transport_stream) ssl_stream \<Rightarrow> 'w io"

definition tls_handshake ::
  "('c \<Rightarrow> bytes \<Rightarrow> io_error + 'ssl) \<Rightarrow> (('ssl, 's) ssl_stream \<Rightarrow> ('ssl, 's) ssl_stream io) \<Rightarrow> 's \<Rightarrow> 'c \<Rightarrow> bytes \<Rightarrow>
     ('ssl, 's) ssl_stream outcome"
where
  "tls_handshake into ssl_connect stream config hostname =
     setup_then (of_result (into config hostname)) (\<lambda>ssl. of_io (ssl_connect (SslStream ssl stream)))"

definition tcp_connect :: "('tcp, 'c, 'ssl, 'b, 'd, 'w) network \<Rightarrow> bytes \<Rightarrow> u16 \<Rightarrow> bool \<Rightarrow> 'tcp outcome" where
  "tcp_connect net host port nodelay =
     setup_then (of_io (tcp_stream_connect net host port)) (\<lambda>stream. of_result (set_nodelay net nodelay stream))"

definition http_connect_tunnel ::
  "('tcp, 'c, 'ssl, 'b, 'd, 'w) network \<Rightarrow> 'c proxy \<Rightarrow> bytes \<Rightarrow> u16 \<Rightarrow> bool \<Rightarrow> ('tcp, 'ssl) transport_stream outcome"
where
  "http_connect_tunnel net proxy target_host target_port nodelay =
     (case endpoint proxy of
        Http hostname port \<Rightarrow>
          setup_then (tcp_connect net hostname port nodelay) (\<lambda>stream.
          setup_then (of_step (http_connect_exchange (base64_encode net) (plain_proxy_io net)
            target_host target_port (proxy_auth proxy) stream)) (\<lambda>stream.
          SetupOk (PlainStream stream)))
      | Https hostname port tls_config \<Rightarrow>
          setup_then (tcp_connect net hostname port nodelay) (\<lambda>stream.
          setup_then (tls_handshake (into_ssl net) (ssl_connect_proxy net) stream tls_config hostname) (\<lambda>stream.
          setup_then (of_step (http_connect_exchange (base64_encode net) (tls_proxy_io net)
            target_host target_port (proxy_auth proxy) stream)) (\<lambda>stream.
          SetupOk (TlsStream stream)))))"

definition stream_connect ::
  "('tcp, 'c, 'ssl, 'b, 'd, 'w) network \<Rightarrow> bytes \<Rightarrow> u16 \<Rightarrow> 'c proxy option \<Rightarrow> bool \<Rightarrow>
     ('tcp, 'ssl) transport_stream outcome"
where
  "stream_connect net hostname port proxy nodelay =
     (case proxy of
        None \<Rightarrow> setup_then (tcp_connect net hostname port nodelay) (\<lambda>stream. SetupOk (PlainStream stream))
      | Some proxy \<Rightarrow> http_connect_tunnel net proxy hostname port nodelay)"

definition stream_connect_tls ::
  "('tcp, 'c, 'ssl, 'b, 'd, 'w) network \<Rightarrow> bytes \<Rightarrow> u16 \<Rightarrow> 'c \<Rightarrow> 'c proxy option \<Rightarrow> bool \<Rightarrow>
     ('ssl, ('tcp, 'ssl) transport_stream) ssl_stream outcome"
where
  "stream_connect_tls net hostname port config proxy nodelay =
     setup_then (stream_connect net hostname port proxy nodelay) (\<lambda>stream.
     tls_handshake (into_ssl net) (ssl_connect_target net) stream config hostname)"

subsection \<open>TransportStream as a stream\<close>

definition transport_read ::
  "'tcp read_fn \<Rightarrow> ('ssl, 'tcp) ssl_stream read_fn \<Rightarrow> ('tcp, 'ssl) transport_stream read_fn"
where
  "transport_read plain tls n s =
     (case s of
        PlainStream s \<Rightarrow> apsnd PlainStream (plain n s)
      | TlsStream s \<Rightarrow> apsnd TlsStream (tls n s))"

definition transport_write ::
  "'tcp write_fn \<Rightarrow> ('ssl, 'tcp) ssl_stream write_fn \<Rightarrow> ('tcp, 'ssl) transport_stream write_fn"
where
  "transport_write plain tls bufs s =
     (case s of
        PlainStream s \<Rightarrow> apsnd PlainStream (plain bufs s)
      | TlsStream s \<Rightarrow> apsnd TlsStream (tls bufs s))"

definition transport_flush ::
  "'tcp flush_fn \<Rightarrow> ('ssl, 'tcp) ssl_stream flush_fn \<Rightarrow> ('tcp, 'ssl) transport_stream flush_fn"
where
  "transport_flush plain tls s =
     (case s of
        PlainStream s \<Rightarrow> apsnd PlainStream (plain s)
      | TlsStream s \<Rightarrow> apsnd TlsStream (tls s))"

definition transport_write_one ::
  "(bytes \<Rightarrow> 'tcp \<Rightarrow> nat io \<times> 'tcp) \<Rightarrow> (bytes \<Rightarrow> ('ssl, 'tcp) ssl_stream \<Rightarrow> nat io \<times> ('ssl, 'tcp) ssl_stream) \<Rightarrow>
     bytes \<Rightarrow> ('tcp, 'ssl) transport_stream \<Rightarrow> nat io \<times> ('tcp, 'ssl) transport_stream"
where
  "transport_write_one plain tls buf s =
     (case s of
        PlainStream s \<Rightarrow> apsnd PlainStream (plain buf s)
      | TlsStream s \<Rightarrow> apsnd TlsStream (tls buf s))"

definition transport_is_write_vectored ::
  "('tcp \<Rightarrow> bool) \<Rightarrow> (('ssl, 'tcp) ssl_stream \<Rightarrow> bool) \<Rightarrow> ('tcp, 'ssl) transport_stream \<Rightarrow> bool"
where
  "transport_is_write_vectored plain tls s = (case s of PlainStream s \<Rightarrow> plain s | TlsStream s \<Rightarrow> tls s)"

definition transport_shutdown ::
  "'tcp flush_fn \<Rightarrow> ('ssl, 'tcp) ssl_stream flush_fn \<Rightarrow> ('tcp, 'ssl) transport_stream flush_fn"
where
  "transport_shutdown plain tls s =
     (case s of
        PlainStream s \<Rightarrow> apsnd PlainStream (plain s)
      | TlsStream s \<Rightarrow> apsnd TlsStream (tls s))"

text \<open>What the two kinds of stream promise, \<open>TransportStream\<close> promises.\<close>

definition either_stream ::
  "('tcp \<Rightarrow> bytes) \<Rightarrow> (('ssl, 'tcp) ssl_stream \<Rightarrow> bytes) \<Rightarrow> ('tcp, 'ssl) transport_stream \<Rightarrow> bytes"
where
  "either_stream f g s = (case s of PlainStream t \<Rightarrow> f t | TlsStream u \<Rightarrow> g u)"

lemma either_stream_simps [simp]:
  "either_stream f g (PlainStream t) = f t" "either_stream f g (TlsStream u) = g u"
  by (simp_all add: either_stream_def)

lemma transport_stream_readable:
  assumes "readable plain f" and "readable tls g"
  shows "readable (transport_read plain tls) (either_stream f g)"
  unfolding readable_def
proof (intro allI)
  fix n s
  show "case transport_read plain tls n s of
        (IoReady b, s') \<Rightarrow>
          length b \<le> n \<and> either_stream f g s = b @ either_stream f g s' \<and>
          (b = [] \<longrightarrow> n = 0 \<or> either_stream f g s = [])
      | (_, s') \<Rightarrow> either_stream f g s' = either_stream f g s"
  proof (cases s)
    case (PlainStream t)
    then show ?thesis
      using readable_at [OF assms(1), of n t] by (auto simp: transport_read_def split: prod.splits io.splits)
  next
    case (TlsStream u)
    then show ?thesis
      using readable_at [OF assms(2), of n u] by (auto simp: transport_read_def split: prod.splits io.splits)
  qed
qed

lemma transport_stream_writable:
  assumes "writable plain plain_flush f" and "writable tls tls_flush g"
  shows "writable (transport_write plain tls) (transport_flush plain_flush tls_flush) (either_stream f g)"
  unfolding writable_def
proof (intro conjI allI)
  fix bufs s
  show "case transport_write plain tls bufs s of
        (Inr n, s') \<Rightarrow> n \<le> length (concat bufs) \<and> either_stream f g s' = either_stream f g s @ take n (concat bufs)
      | (Inl _, s') \<Rightarrow> either_stream f g s' = either_stream f g s"
  proof (cases s)
    case (PlainStream t)
    then show ?thesis
      using writable_cases(1,2) [OF assms(1), of bufs t]
      by (cases "plain bufs t"; cases "fst (plain bufs t)") (auto simp: transport_write_def)
  next
    case (TlsStream u)
    then show ?thesis
      using writable_cases(1,2) [OF assms(2), of bufs u]
      by (cases "tls bufs u"; cases "fst (tls bufs u)") (auto simp: transport_write_def)
  qed
next
  fix s
  show "either_stream f g (snd (transport_flush plain_flush tls_flush s)) = either_stream f g s"
    using writable_cases(3) [OF assms(1)] writable_cases(3) [OF assms(2)]
    by (cases s) (auto simp: transport_flush_def)
qed

section \<open>The transports\<close>

datatype ('tcp, 'ssl, 'w) endpoint_stream =
    TcpEnd "('tcp, 'ssl) transport_stream"
  | TlsEnd "('ssl, ('tcp, 'ssl) transport_stream) ssl_stream"
  | WsEnd "'w web_socket_stream"
  | TestReadEnd test_stream_read
  | TestWriteEnd test_stream_write

type_synonym ('tcp, 'ssl, 'w) connected =
  "('tcp, 'ssl, 'w) endpoint_stream reader \<times> ('tcp, 'ssl, 'w) endpoint_stream writer"

text \<open>\<open>tokio::io::split\<close>: both halves are the one stream.\<close>

definition split_stream :: "'s \<Rightarrow> owned \<Rightarrow> either_accumulator \<Rightarrow> 's reader \<times> 's writer" where
  "split_stream s read_buf write_buf = (reader_new s read_buf, writer_new s write_buf)"

text \<open>\<open>reader_fresh\<close> and \<open>writer_fresh\<close> are what \<open>take_empty_owned\<close> of the two pools gives.\<close>

definition tokio_tcp_connect ::
  "('tcp, 'c, 'ssl, 'b, 'd, 'w) network \<Rightarrow> bytes \<Rightarrow> u16 \<Rightarrow> 'c proxy option \<Rightarrow> bool \<Rightarrow> owned \<Rightarrow> owned \<Rightarrow>
     ('tcp, 'ssl, 'w) connected outcome"
where
  "tokio_tcp_connect net hostname port proxy nodelay reader_fresh writer_fresh =
     setup_then (stream_connect net hostname port proxy nodelay) (\<lambda>stream.
     SetupOk (split_stream (TcpEnd stream) reader_fresh (Iovecs (iovecs_new writer_fresh))))"

definition tokio_tls_connect ::
  "('tcp, 'c, 'ssl, 'b, 'd, 'w) network \<Rightarrow> bytes \<Rightarrow> u16 \<Rightarrow> 'c \<Rightarrow> 'c proxy option \<Rightarrow> bool \<Rightarrow> owned \<Rightarrow>
     ('tcp, 'ssl, 'w) connected outcome"
where
  "tokio_tls_connect net hostname port config proxy nodelay reader_fresh =
     setup_then (stream_connect_tls net hostname port config proxy nodelay) (\<lambda>ssl_stream.
     SetupOk (split_stream (TlsEnd ssl_stream) reader_fresh (Single [])))"

text \<open>\<open>HeaderMap::insert\<close>: the new value replaces all values the header had.\<close>

definition header_insert :: "bytes \<Rightarrow> bytes \<Rightarrow> (bytes \<times> bytes) list \<Rightarrow> (bytes \<times> bytes) list" where
  "header_insert name val hs = List.filter (\<lambda>(n, _). n \<noteq> name) hs @ [(name, val)]"

definition with_protocol :: "ws_request \<Rightarrow> ws_request" where
  "with_protocol request =
     request\<lparr>ws_headers := header_insert (ascii ''sec-websocket-protocol'') (ascii ''mqtt'') (ws_headers request)\<rparr>"

definition tokio_ws_connect ::
  "('tcp, 'c, 'ssl, 'b, 'd, 'w) network \<Rightarrow> ws_request \<Rightarrow> 'c option \<Rightarrow> 'c proxy option \<Rightarrow> bool \<Rightarrow> owned \<Rightarrow>
     ('tcp, 'ssl, 'w) connected outcome"
where
  "tokio_ws_connect net request tls_config proxy nodelay reader_fresh =
     (let request = with_protocol request
      in case uri_host request of
           None \<Rightarrow> SetupErr NoHostComponent
         | Some addr \<Rightarrow>
             (case uri_scheme request of
                None \<Rightarrow> SetupErr NoSchemeComponent
              | Some scheme \<Rightarrow>
                  if scheme \<notin> set [ascii ''ws'', ascii ''wss''] then SetupErr (UnsupportedScheme scheme)
                  else if (scheme = ascii ''wss'') \<noteq> (tls_config \<noteq> None) then SetupErr (TlsConfigMismatch scheme)
                  else
                    (case tls_config of
                       Some tls_config \<Rightarrow>
                         setup_then (stream_connect_tls net addr (case uri_port request of Some p \<Rightarrow> p | None \<Rightarrow> 443)
                           tls_config proxy nodelay) (\<lambda>stream.
                         setup_then (of_io (client_async_tls net request stream)) (\<lambda>stream.
                         SetupOk (split_stream (WsEnd \<lparr>ws_inner = stream, next_read = []\<rparr>) reader_fresh (Single []))))
                     | None \<Rightarrow>
                         setup_then (stream_connect net addr (case uri_port request of Some p \<Rightarrow> p | None \<Rightarrow> 80)
                           proxy nodelay) (\<lambda>stream.
                         setup_then (of_io (client_async_plain net request stream)) (\<lambda>stream.
                         SetupOk (split_stream (WsEnd \<lparr>ws_inner = stream, next_read = []\<rparr>) reader_fresh (Single [])))))))"

definition maybe_timeout :: "nat option \<Rightarrow> 'a outcome \<Rightarrow> 'a outcome" where
  "maybe_timeout timeout f =
     (case timeout of
        Some _ \<Rightarrow> (case f of SetupPending \<Rightarrow> SetupErr SetupElapsed | _ \<Rightarrow> f)
      | None \<Rightarrow> f)"

definition transport_connect ::
  "('tcp, 'c, 'ssl, 'b, 'd, 'w) network \<Rightarrow> owned \<Rightarrow> owned \<Rightarrow> 'c connection_transport_config \<Rightarrow>
     ('tcp, 'ssl, 'w) connected outcome"
where
  "transport_connect net reader_fresh writer_fresh cfg =
     (let timeout = transport_timeout cfg; proxy = transport_proxy cfg; nodelay = tcp_nodelay cfg
      in case transport_type cfg of
           Tcp hostname port \<Rightarrow>
             maybe_timeout timeout (tokio_tcp_connect net hostname port proxy nodelay reader_fresh writer_fresh)
         | Tls hostname port tls_config \<Rightarrow>
             maybe_timeout timeout (tokio_tls_connect net hostname port tls_config proxy nodelay reader_fresh)
         | Ws request tls_config \<Rightarrow>
             maybe_timeout timeout (tokio_ws_connect net request tls_config proxy nodelay reader_fresh)
         | TestTransport incoming in_open out_open \<Rightarrow>
             (case test_connect incoming in_open out_open reader_fresh writer_fresh of (r, w) \<Rightarrow>
                SetupOk (reader_new (TestReadEnd (reader_inner r)) (reader_buf r),
                         writer_new (TestWriteEnd (writer_inner w)) (writer_buf w))))"

section \<open>What a set-up gives\<close>

lemma setup_then_Ok: "setup_then x f = SetupOk z \<longleftrightarrow> (\<exists>y. x = SetupOk y \<and> f y = SetupOk z)"
  by (cases x) auto

lemma of_Ok [simp]:
  "of_io i = SetupOk x \<longleftrightarrow> i = IoReady x" "of_step t = SetupOk x \<longleftrightarrow> t = StepOk x"
  "of_result r = SetupOk x \<longleftrightarrow> r = Inr x"
  by (cases i; cases t; cases r; auto)+

lemma maybe_timeout_Ok [simp]: "maybe_timeout t f = SetupOk x \<longleftrightarrow> f = SetupOk x"
  by (cases t; cases f) (auto simp: maybe_timeout_def)

lemma maybe_timeout_ends: "maybe_timeout (Some d) f \<noteq> SetupPending"
  by (cases f) (auto simp: maybe_timeout_def)

text \<open>
  What the code relies on of TLS: a session made for a name and a configuration stays one for them
  through the handshake. \<open>session_name\<close> and \<open>session_config\<close> read them off.
\<close>

definition tls_names ::
  "('tcp, 'c, 'ssl, 'b, 'd, 'w) network \<Rightarrow> ('ssl \<Rightarrow> bytes) \<Rightarrow> ('ssl \<Rightarrow> 'c) \<Rightarrow> bool"
where
  "tls_names net session_name session_config \<longleftrightarrow>
     (\<forall>c h ssl. into_ssl net c h = Inr ssl \<longrightarrow> session_name ssl = h \<and> session_config ssl = c) \<and>
     (\<forall>u u'. ssl_connect_target net u = IoReady u' \<longrightarrow> ssl_session u' = ssl_session u)"

lemma connect_tls_session:
  assumes "tls_names net session_name session_config"
    and "stream_connect_tls net host port c proxy nodelay = SetupOk u"
  shows "session_name (ssl_session u) = host \<and> session_config (ssl_session u) = c"
  using assms unfolding stream_connect_tls_def tls_handshake_def setup_then_Ok of_Ok tls_names_def by auto

text \<open>A tunnel is asked for, through whichever proxy, only for a host that cannot break the request.\<close>

lemma exchange_valid_host: "http_connect_exchange b64 io host port auth s = StepOk s' \<Longrightarrow> valid_target_host host"
  by (auto simp: http_connect_exchange_def split: if_splits)

lemma tunnel_valid_host: "stream_connect net host port (Some p) nodelay = SetupOk s \<Longrightarrow> valid_target_host host"
  by (auto simp: stream_connect_def http_connect_tunnel_def setup_then_Ok
      split: proxy_endpoint.splits dest: exchange_valid_host)

lemma with_protocol_sel [simp]:
  "uri_host (with_protocol r) = uri_host r" "uri_port (with_protocol r) = uri_port r"
  "uri_scheme (with_protocol r) = uri_scheme r"
  by (simp_all add: with_protocol_def)

lemma ws_schemes: "ascii ''ws'' \<noteq> ascii ''wss''"
  by (simp add: ascii_def)

lemma tokio_ws_connect_Ok:
  assumes "tls_names net session_name session_config"
    and "tokio_ws_connect net request tls_config proxy nodelay fresh = SetupOk (r, w)"
  obtains (plain) host ws where "uri_host request = Some host" "uri_scheme request = Some (ascii ''ws'')"
      "tls_config = None" "writer_inner w = WsEnd ws"
    | (encrypted) host c u s where "uri_host request = Some host" "uri_scheme request = Some (ascii ''wss'')"
      "tls_config = Some c" "writer_inner w = WsEnd \<lparr>ws_inner = s, next_read = []\<rparr>"
      "client_async_tls net (with_protocol request) u = IoReady s"
      "session_name (ssl_session u) = host" "session_config (ssl_session u) = c"
  using assms(2) connect_tls_session [OF assms(1)] ws_schemes
  by (auto simp: tokio_ws_connect_def Let_def setup_then_Ok split_stream_def writer_new_def
      split: option.splits if_splits)

end
