(* ===== verification/Client_Tokens.thy ===== *)
theory Client_Tokens
  imports Client_Api Notifier_Account
begin

text \<open>
  The tokens in the hands of the application: completion tokens over the one-shot channels of
  src/src/client/token/completion.rs, the public acknowledgement tokens of
  src/src/client/token/acknowledgement.rs and the reauthentication token of
  src/src/client/token/reauth.rs. The session's model keeps a log of what it did with its
  notifiers; here the channel that each notifier really is gets built from that log, and what the
  application sees when it polls its token is read off the channel.
\<close>

section \<open>Completion pairs\<close>

text \<open>
  The one-shot channels of tokio are a parameter: a state of type \<open>'c\<close> that carries at most one value,
  and the operations of its two halves. A send gives the value back when the receiver is gone; a poll
  of the receiver gives \<open>None\<close> when the sender is gone and sent nothing.
\<close>

record ('c, 'v) oneshot_ops =
  oneshot_channel :: 'c
  oneshot_send :: "'v \<Rightarrow> 'c \<Rightarrow> ('v + unit) \<times> 'c"
  oneshot_drop_sender :: "'c \<Rightarrow> 'c"
  oneshot_drop_receiver :: "'c \<Rightarrow> 'c"
  oneshot_poll :: "'c \<Rightarrow> 'v option poll \<times> 'c"

text \<open>What the channels document: \<open>st\<close> tells how far a channel is, where that is relied upon.\<close>

datatype 'v oneshot_status = Waiting | Sent 'v | SenderGone | ReceiverGone

definition oneshot_ok :: "('c, 'v) oneshot_ops \<Rightarrow> ('c \<Rightarrow> 'v oneshot_status option) \<Rightarrow> bool" where
  "oneshot_ok os st \<longleftrightarrow>
     st (oneshot_channel os) = Some Waiting \<and>
     (\<forall>c. st c = Some Waiting \<longrightarrow>
        (\<forall>v. fst (oneshot_send os v c) = Inr () \<and> st (snd (oneshot_send os v c)) = Some (Sent v)) \<and>
        st (oneshot_drop_sender os c) = Some SenderGone \<and> st (oneshot_drop_receiver os c) = Some ReceiverGone \<and>
        fst (oneshot_poll os c) = Pending \<and> st (snd (oneshot_poll os c)) = Some Waiting) \<and>
     (\<forall>c v. st c = Some (Sent v) \<longrightarrow> fst (oneshot_poll os c) = Ready (Some v)) \<and>
     (\<forall>c. st c = Some SenderGone \<longrightarrow> fst (oneshot_poll os c) = Ready None) \<and>
     (\<forall>c v. st c = Some ReceiverGone \<longrightarrow> fst (oneshot_send os v c) = Inl v)"

type_synonym ('c, 'a) completion_ops = "('c, completion_error + 'a) oneshot_ops"

definition completion_pair :: "('c, 'a) completion_ops \<Rightarrow> 'c" where
  "completion_pair os = oneshot_channel os"

definition notifier_complete :: "('c, 'a) completion_ops \<Rightarrow> 'a \<Rightarrow> 'c \<Rightarrow> ('a + unit) poll \<times> 'c" where
  "notifier_complete os v c =
     (case oneshot_send os (Inr v) c of
        (Inr _, c) \<Rightarrow> (Ready (Inr ()), c)
      | (Inl (Inr v), c) \<Rightarrow> (Ready (Inl v), c)
      | (Inl (Inl _), c) \<Rightarrow> (Panic ''unreachable'', c))"

definition notifier_cancel :: "('c, 'a) completion_ops \<Rightarrow> string \<Rightarrow> 'c \<Rightarrow> (string + unit) poll \<times> 'c" where
  "notifier_cancel os reason c =
     (case oneshot_send os (Inl (Canceled reason)) c of
        (Inr _, c) \<Rightarrow> (Ready (Inr ()), c)
      | (Inl (Inr _), c) \<Rightarrow> (Panic ''unreachable'', c)
      | (Inl (Inl _), c) \<Rightarrow> (Ready (Inl ''Token dropped''), c))"

definition token_poll :: "('c, 'a) completion_ops \<Rightarrow> 'c \<Rightarrow> (completion_error + 'a) poll \<times> 'c" where
  "token_poll os c =
     (case oneshot_poll os c of
        (Ready (Some r), c) \<Rightarrow> (Ready r, c)
      | (Ready None, c) \<Rightarrow> (Ready (Inl Detached), c)
      | (Pending, c) \<Rightarrow> (Pending, c)
      | (Panic m, c) \<Rightarrow> (Panic m, c)
      | (Diverges, c) \<Rightarrow> (Diverges, c))"

text \<open>The token types that convert the value on the way out.\<close>

definition mapped_poll :: "('a \<Rightarrow> 'b) \<Rightarrow> ('c, 'a) completion_ops \<Rightarrow> 'c \<Rightarrow> (completion_error + 'b) poll \<times> 'c" where
  "mapped_poll f os c =
     (case token_poll os c of
        (Ready (Inr v), c) \<Rightarrow> (Ready (Inr (f v)), c)
      | (Ready (Inl e), c) \<Rightarrow> (Ready (Inl e), c)
      | (Pending, c) \<Rightarrow> (Pending, c)
      | (Panic m, c) \<Rightarrow> (Panic m, c)
      | (Diverges, c) \<Rightarrow> (Diverges, c))"

text \<open>A channel as a value: what was sent and not yet received, and which halves are left.\<close>

record 'v plain_channel =
  channel_value :: "'v option"
  sender_left :: bool
  receiver_left :: bool

definition plain_oneshot :: "('v plain_channel, 'v) oneshot_ops" where
  "plain_oneshot =
     \<lparr>oneshot_channel = \<lparr>channel_value = None, sender_left = True, receiver_left = True\<rparr>,
      oneshot_send = (\<lambda>v c. if receiver_left c then (Inr (), c\<lparr>channel_value := Some v, sender_left := False\<rparr>)
        else (Inl v, c\<lparr>sender_left := False\<rparr>)),
      oneshot_drop_sender = (\<lambda>c. c\<lparr>sender_left := False\<rparr>),
      oneshot_drop_receiver = (\<lambda>c. c\<lparr>channel_value := None, receiver_left := False\<rparr>),
      oneshot_poll = (\<lambda>c. case channel_value c of
          Some v \<Rightarrow> (Ready (Some v), c\<lparr>channel_value := None\<rparr>)
        | None \<Rightarrow> (if sender_left c then Pending else Ready None, c))\<rparr>"

definition plain_status :: "'v plain_channel \<Rightarrow> 'v oneshot_status option" where
  "plain_status c =
     Some (if \<not> receiver_left c then ReceiverGone
           else case channel_value c of Some v \<Rightarrow> Sent v | None \<Rightarrow> if sender_left c then Waiting else SenderGone)"

lemma plain_oneshot_ok: "oneshot_ok plain_oneshot plain_status"
  by (auto simp: oneshot_ok_def plain_oneshot_def plain_status_def split: option.splits if_splits)

text \<open>Completion over channels that keep their promise.\<close>

lemma oneshot_new:
  assumes "oneshot_ok os st"
  shows "st (completion_pair os) = Some Waiting"
    and "fst (token_poll os (completion_pair os)) = Pending" and "st (snd (token_poll os (completion_pair os))) = Some Waiting"
  using assms by (auto simp: oneshot_ok_def completion_pair_def token_poll_def split: prod.splits)

section \<open>QoS 2 acknowledgement tokens\<close>

text \<open>Their methods and their drop are \<open>unimplemented!()\<close>.\<close>

record qos2_token =
  qos2_pkid :: pkid
  qos2_triggered :: bool

datatype pub_rec_token = PubRecToken qos2_token
datatype pub_rel_token = PubRelToken qos2_token
datatype pub_comp_token = PubCompToken qos2_token

definition pub_rec_token_new :: "pkid \<Rightarrow> pub_rec_token" where
  "pub_rec_token_new k = PubRecToken \<lparr>qos2_pkid = k, qos2_triggered = False\<rparr>"

definition pub_rec_token_accept :: "pub_rec_token \<Rightarrow> ack_other_properties \<Rightarrow> (detached_error + notifier) poll" where
  "pub_rec_token_accept t props = Panic ''not implemented''"

definition pub_rec_token_reject ::
  "pub_rec_token \<Rightarrow> pub_rec_reason_code \<Rightarrow> ack_other_properties \<Rightarrow> (detached_error + notifier) poll"
where
  "pub_rec_token_reject t reason props = Panic ''not implemented''"

definition pub_rec_token_drop :: "pub_rec_token \<Rightarrow> unit poll" where
  "pub_rec_token_drop t = Panic ''not implemented''"

definition pub_rel_token_new :: "pkid \<Rightarrow> pub_rel_token" where
  "pub_rel_token_new k = PubRelToken \<lparr>qos2_pkid = k, qos2_triggered = False\<rparr>"

definition pub_rel_token_confirm :: "pub_rel_token \<Rightarrow> ack_other_properties \<Rightarrow> (detached_error + notifier) poll" where
  "pub_rel_token_confirm t props = Panic ''not implemented''"

definition pub_rel_token_drop :: "pub_rel_token \<Rightarrow> unit poll" where
  "pub_rel_token_drop t = Panic ''not implemented''"

definition pub_comp_token_new :: "pkid \<Rightarrow> pub_comp_token" where
  "pub_comp_token_new k = PubCompToken \<lparr>qos2_pkid = k, qos2_triggered = False\<rparr>"

definition pub_comp_token_confirm :: "pub_comp_token \<Rightarrow> ack_other_properties \<Rightarrow> (detached_error + notifier) poll" where
  "pub_comp_token_confirm t props = Panic ''not implemented''"

definition pub_comp_token_drop :: "pub_comp_token \<Rightarrow> unit poll" where
  "pub_comp_token_drop t = Panic ''not implemented''"

section \<open>Public completion tokens\<close>

datatype reauth_result_api =
    ReauthContinueApi auth_api reauth_token
  | ReauthSuccessApi auth_api
  | ReauthFailureApi

primrec reauth_result_of :: "reauth_result \<Rightarrow> reauth_result_api" where
  "reauth_result_of (ReauthContinue a t) = ReauthContinueApi (auth_of a) t"
| "reauth_result_of (ReauthSuccess a) = ReauthSuccessApi (auth_of a)"
| "reauth_result_of ReauthFailure = ReauthFailureApi"

definition publish_qos0_token_poll :: "('c, unit) completion_ops \<Rightarrow> 'c \<Rightarrow> (completion_error + unit) poll \<times> 'c" where
  "publish_qos0_token_poll = token_poll"

definition publish_qos1_token_poll :: "('c, pub_ack) completion_ops \<Rightarrow> 'c \<Rightarrow> (completion_error + pub_ack_api) poll \<times> 'c" where
  "publish_qos1_token_poll = mapped_poll pub_ack_of"

definition publish_qos2_token_poll ::
  "('c, pub_rec \<times> pub_rel_token option) completion_ops \<Rightarrow> 'c \<Rightarrow>
     (completion_error + pub_rec_api \<times> pub_rel_token option) poll \<times> 'c"
where
  "publish_qos2_token_poll = mapped_poll (\<lambda>(pubrec, token). (pub_rec_of pubrec, token))"

definition pub_rec_accept_token_poll ::
  "('c, pub_rel \<times> pub_comp_token) completion_ops \<Rightarrow> 'c \<Rightarrow>
     (completion_error + pub_rel_api \<times> pub_comp_token) poll \<times> 'c"
where
  "pub_rec_accept_token_poll = mapped_poll (\<lambda>(pubrel, token). (pub_rel_of pubrel, token))"

definition pub_rec_reject_token_poll :: "('c, unit) completion_ops \<Rightarrow> 'c \<Rightarrow> (completion_error + unit) poll \<times> 'c" where
  "pub_rec_reject_token_poll = token_poll"

definition pub_rel_token_poll :: "('c, pub_comp) completion_ops \<Rightarrow> 'c \<Rightarrow> (completion_error + pub_comp_api) poll \<times> 'c" where
  "pub_rel_token_poll = mapped_poll pub_comp_of"

definition subscribe_token_poll :: "('c, sub_ack) completion_ops \<Rightarrow> 'c \<Rightarrow> (completion_error + sub_ack_api) poll \<times> 'c" where
  "subscribe_token_poll = mapped_poll sub_ack_of"

definition unsubscribe_token_poll ::
  "('c, unsub_ack) completion_ops \<Rightarrow> 'c \<Rightarrow> (completion_error + unsub_ack_api) poll \<times> 'c"
where
  "unsubscribe_token_poll = mapped_poll unsub_ack_of"

definition ping_token_poll :: "('c, nat) completion_ops \<Rightarrow> 'c \<Rightarrow> (completion_error + nat) poll \<times> 'c" where
  "ping_token_poll = token_poll"

definition reauth_token_poll ::
  "('c, reauth_result) completion_ops \<Rightarrow> 'c \<Rightarrow> (completion_error + reauth_result_api) poll \<times> 'c"
where
  "reauth_token_poll = mapped_poll reauth_result_of"

definition pub_ack_token_poll :: "('c, unit) completion_ops \<Rightarrow> 'c \<Rightarrow> (completion_error + unit) poll \<times> 'c" where
  "pub_ack_token_poll = token_poll"

definition pub_comp_confirm_token_poll :: "('c, unit) completion_ops \<Rightarrow> 'c \<Rightarrow> (completion_error + unit) poll \<times> 'c" where
  "pub_comp_confirm_token_poll = token_poll"

section \<open>Public acknowledgement tokens\<close>

text \<open>
  The properties are converted first. When that panics the token is dropped while the stack
  unwinds, and its drop submits the default acknowledgement with the completion pair \<open>n'\<close>.
\<close>

definition puback_token_accept ::
  "notifier \<Rightarrow> notifier \<Rightarrow> pub_ack_token \<Rightarrow> puback_properties \<Rightarrow> ack_channel \<Rightarrow>
     (completion_error + notifier) poll \<times> ack_channel"
where
  "puback_token_accept n n' t properties tx =
     (case puback_properties_into properties of
        None \<Rightarrow> (Panic ''called Result::unwrap() on an Err value'', pub_ack_token_drop n' t tx)
      | Some props \<Rightarrow> apfst Ready (pub_ack_token_accept n n' t props tx))"

definition puback_token_reject ::
  "notifier \<Rightarrow> notifier \<Rightarrow> pub_ack_token \<Rightarrow> pub_reject_reason \<Rightarrow> puback_properties \<Rightarrow> ack_channel \<Rightarrow>
     (completion_error + notifier) poll \<times> ack_channel"
where
  "puback_token_reject n n' t reason properties tx =
     (case puback_properties_into properties of
        None \<Rightarrow> (Panic ''called Result::unwrap() on an Err value'', pub_ack_token_drop n' t tx)
      | Some props \<Rightarrow> apfst Ready (pub_ack_token_reject n n' t (reject_into_pub_ack_code reason) props tx))"

definition public_pub_rec_accept :: "pub_rec_token \<Rightarrow> pubrec_properties \<Rightarrow> (detached_error + notifier) poll" where
  "public_pub_rec_accept t properties =
     (case pubrec_properties_into properties of
        None \<Rightarrow> Panic ''called Result::unwrap() on an Err value''
      | Some props \<Rightarrow> pub_rec_token_accept t props)"

definition public_pub_rec_reject ::
  "pub_rec_token \<Rightarrow> pub_reject_reason \<Rightarrow> pubrec_properties \<Rightarrow> (detached_error + notifier) poll"
where
  "public_pub_rec_reject t reason properties =
     (case pubrec_properties_into properties of
        None \<Rightarrow> Panic ''called Result::unwrap() on an Err value''
      | Some props \<Rightarrow> pub_rec_token_reject t (reject_into_pub_rec_code reason) props)"

definition public_pub_rel_confirm :: "pub_rel_token \<Rightarrow> pubrel_properties \<Rightarrow> (detached_error + notifier) poll" where
  "public_pub_rel_confirm t properties =
     (case pubrel_properties_into properties of
        None \<Rightarrow> Panic ''called Result::unwrap() on an Err value''
      | Some props \<Rightarrow> pub_rel_token_confirm t props)"

definition public_pub_comp_confirm :: "pub_comp_token \<Rightarrow> pubcomp_properties \<Rightarrow> (detached_error + notifier) poll" where
  "public_pub_comp_confirm t properties =
     (case pubcomp_properties_into properties of
        None \<Rightarrow> Panic ''called Result::unwrap() on an Err value''
      | Some props \<Rightarrow> pub_comp_token_confirm t props)"

section \<open>The public reauthentication token\<close>

definition reauth_token_continue ::
  "permits \<Rightarrow> client \<Rightarrow> reauth_token \<Rightarrow> notifier \<Rightarrow> bytes option \<Rightarrow> auth_properties_api \<Rightarrow> channels option \<Rightarrow> notifier submitted"
where
  "reauth_token_continue permit client t n data properties =
     or_panic (opt_into binary_into data) (\<lambda>data.
     or_panic (opt_into str_into (ap_reason_string properties)) (\<lambda>reason_string.
     or_panic (map_user_properties_to_bytestr (ap_user_properties properties)) (\<lambda>user_properties.
       mpsc_send permit (auth_capacity client) auth_rx (\<lambda>q c. c\<lparr>auth_rx := q\<rparr>)
         (continue_reauth_request n t data reason_string user_properties) n)))"

section \<open>What a token reports\<close>

text \<open>The channel of the pair \<open>n\<close> after what the session's log says happened to its notifier.\<close>

definition deliver_notification :: "('c, completion) completion_ops \<Rightarrow> notifier \<Rightarrow> notification \<Rightarrow> 'c \<Rightarrow> 'c" where
  "deliver_notification os n e c =
     (if notified e \<noteq> n then c
      else case e of
             NComplete _ v \<Rightarrow> snd (notifier_complete os v c)
           | NCancel _ r \<Rightarrow> snd (notifier_cancel os r c)
           | NDrop _ \<Rightarrow> oneshot_drop_sender os c)"

definition channel_after :: "('c, completion) completion_ops \<Rightarrow> notifier \<Rightarrow> notification list \<Rightarrow> 'c" where
  "channel_after os n log = fold (deliver_notification os n) log (completion_pair os)"

primrec reported :: "notification \<Rightarrow> completion_error + completion" where
  "reported (NComplete n v) = Inr v"
| "reported (NCancel n r) = Inl (Canceled r)"
| "reported (NDrop n) = Inl Detached"

lemma deliver_other: "n \<notin> notified ` set log \<Longrightarrow> fold (deliver_notification os n) log c = c"
  by (induction log arbitrary: c) (auto simp: deliver_notification_def)

lemma channel_after_unresolved: "n \<notin> notified ` set log \<Longrightarrow> channel_after os n log = completion_pair os"
  by (simp add: channel_after_def deliver_other)

lemma channel_after_resolved:
  assumes "e \<in> set log" and "distinct (map notified log)"
  shows "channel_after os (notified e) log = deliver_notification os (notified e) e (completion_pair os)"
proof -
  obtain before after where log: "log = before @ e # after" using assms(1) by (meson split_list)
  then have "notified e \<notin> notified ` set before" "notified e \<notin> notified ` set after" using assms(2) by auto
  then show ?thesis by (simp add: channel_after_def log deliver_other)
qed

text \<open>The channel and the log tell the same: the model of the session may keep the log only.\<close>

lemma completion_poll_unresolved: "n \<notin> notified ` set log \<Longrightarrow> completion_poll n log = Pending"
  by (induction n log rule: completion_poll.induct) auto

lemma completion_poll_resolved:
  "e \<in> set log \<Longrightarrow> distinct (map notified log) \<Longrightarrow> completion_poll (notified e) log = Ready (reported e)"
proof (induction log)
  case (Cons f log)
  show ?case
  proof (cases "f = e")
    case True
    then show ?thesis by (cases f) auto
  next
    case False
    then have "notified f \<noteq> notified e" "e \<in> set log" using Cons.prems by (auto simp: image_iff)
    then show ?thesis using Cons by (cases f) auto
  qed
qed simp

lemma send_once:
  assumes "oneshot_ok os st" and "st c = Some Waiting"
  shows "fst (token_poll os (snd (oneshot_send os v c))) = Ready v" and "fst (oneshot_send os v c) = Inr ()"
    and "fst (token_poll os (oneshot_drop_sender os c)) = Ready (Inl Detached)"
proof -
  have "fst (oneshot_poll os (snd (oneshot_send os v c))) = Ready (Some v)"
    "fst (oneshot_poll os (oneshot_drop_sender os c)) = Ready None"
    using assms by (simp_all add: oneshot_ok_def)
  then show "fst (token_poll os (snd (oneshot_send os v c))) = Ready v"
    and "fst (token_poll os (oneshot_drop_sender os c)) = Ready (Inl Detached)"
    by (auto simp: token_poll_def split: prod.splits)
  show "fst (oneshot_send os v c) = Inr ()" using assms by (simp add: oneshot_ok_def)
qed

lemma notify_once:
  assumes "oneshot_ok os st" and "st c = Some Waiting"
  shows "fst (notifier_complete os v c) = Ready (Inr ())" and "fst (token_poll os (snd (notifier_complete os v c))) = Ready (Inr v)"
    and "fst (notifier_cancel os r c) = Ready (Inr ())"
    and "fst (token_poll os (snd (notifier_cancel os r c))) = Ready (Inl (Canceled r))"
  using send_once(1,2) [OF assms, of "Inr v"] send_once(1,2) [OF assms, of "Inl (Canceled r)"]
  by (auto simp: notifier_complete_def notifier_cancel_def split: prod.splits sum.splits)

text \<open>Completing or cancelling for a token that is gone gives the value back and never meets another.\<close>

lemma notify_dropped:
  assumes "oneshot_ok os st" and "st c = Some ReceiverGone"
  shows "fst (notifier_complete os v c) = Ready (Inl v)" and "fst (notifier_cancel os r c) = Ready (Inl ''Token dropped'')"
proof -
  have "fst (oneshot_send os x c) = Inl x" for x using assms by (simp add: oneshot_ok_def)
  from this [of "Inr v"] this [of "Inl (Canceled r)"]
  show "fst (notifier_complete os v c) = Ready (Inl v)" and "fst (notifier_cancel os r c) = Ready (Inl ''Token dropped'')"
    by (auto simp: notifier_complete_def notifier_cancel_def split: prod.splits sum.splits)
qed

lemma token_poll_resolved:
  "oneshot_ok os st \<Longrightarrow> fst (token_poll os (deliver_notification os (notified e) e (completion_pair os))) = Ready (reported e)"
  by (cases e) (simp_all add: deliver_notification_def notify_once send_once oneshot_new)

lemma token_poll_refines:
  assumes "oneshot_ok os st" and "distinct (map notified log)"
  shows "fst (token_poll os (channel_after os n log)) = completion_poll n log"
proof (cases "n \<in> notified ` set log")
  case True
  then obtain e where "e \<in> set log" "n = notified e" by auto
  then show ?thesis
    using channel_after_resolved [OF _ assms(2), where os = os] completion_poll_resolved [OF _ assms(2)] by (simp add: token_poll_resolved [OF assms(1)])
qed (simp add: channel_after_unresolved completion_poll_unresolved oneshot_new [OF assms(1)])

text \<open>A converting token changes the value and nothing else.\<close>

lemma mapped_poll_token:
  "mapped_poll f os c =
     (case token_poll os c of (r, c') \<Rightarrow>
        ((case r of Ready (Inr v) \<Rightarrow> Ready (Inr (f v)) | Ready (Inl e) \<Rightarrow> Ready (Inl e)
          | Pending \<Rightarrow> Pending | Panic m \<Rightarrow> Panic m | Diverges \<Rightarrow> Diverges), c'))"
  by (auto simp: mapped_poll_def split: prod.splits poll.splits sum.splits)

lemma mapped_poll_error: "fst (token_poll os c) = Ready (Inl e) \<Longrightarrow> fst (mapped_poll f os c) = Ready (Inl e)"
  by (auto simp: mapped_poll_token split: prod.splits)

text \<open>With every completion pair accounted for once, the log has no notifier twice.\<close>

lemma account_distinct:
  assumes "\<And>x. count (notifier_account s) x \<le> 1"
  shows "distinct (map notified (notifications s))"
    and "n \<in># owned_notifiers s \<Longrightarrow> n \<notin> notified ` set (notifications s)"
proof -
  have c: "count (mset (map notified (notifications s))) x + count (owned_notifiers s) x \<le> 1" for x
    using assms [of x] by (simp add: notifier_account_def resolved_notifiers_def)
  then have "count (mset (map notified (notifications s))) x \<le> 1" for x by (meson add_leD1)
  then show "distinct (map notified (notifications s))"
    by (metis distinct_count_atmost_1 antisym_conv1 count_mset_0_iff leI le_zero_eq less_one)
  show "n \<notin> notified ` set (notifications s)" if "n \<in># owned_notifiers s"
  proof
    assume "n \<in> notified ` set (notifications s)"
    then have "0 < count (mset (map notified (notifications s))) n" by (simp del: mset_map)
    moreover have "0 < count (owned_notifiers s) n" using that by simp
    ultimately show False using c [of n] by linarith
  qed
qed

text \<open>So a token reports what the session did with its notifier.\<close>

lemma token_reports:
  assumes "oneshot_ok os st" and "\<And>x. count (notifier_account s) x \<le> 1"
  shows "fst (token_poll os (channel_after os n (notifications s))) = completion_poll n (notifications s)"
    and "n \<in># owned_notifiers s \<Longrightarrow> fst (token_poll os (channel_after os n (notifications s))) = Pending"
  using token_poll_refines [OF assms(1) account_distinct(1) [OF assms(2)], of n] account_distinct(2) [OF assms(2), of n]
  by (simp_all add: completion_poll_unresolved)

end
