(* ===== verification/Deep_Copy.thy ===== *)
theory Deep_Copy
  imports Buffer_Pool Stream_Io
begin

text \<open>
  Copies of packets into the buffers of another pool: the \<open>to_shared\<close> methods of
  src/src/mqtt_proto and of the modules below it. All copies of a packet are cut, one after the
  other, from one owned buffer. A copy ends with the copy and the buffer, with the error of the
  pool, or in a panic; it equals the original, and the buffer is empty again.
\<close>

section \<open>Copying step by step\<close>

type_synonym 'a copying = "owned \<Rightarrow> (unit + 'a \<times> owned) poll"

definition copy_done :: "'a \<Rightarrow> 'a copying" where
  "copy_done x ow = Ready (Inr (x, ow))"

definition copy_then :: "'a copying \<Rightarrow> ('a \<Rightarrow> 'b copying) \<Rightarrow> 'b copying" where
  "copy_then m f ow =
     (case m ow of
        Ready (Inr (x, ow)) \<Rightarrow> f x ow
      | Ready (Inl e) \<Rightarrow> Ready (Inl e)
      | Pending \<Rightarrow> Pending
      | Panic s \<Rightarrow> Panic s
      | Diverges \<Rightarrow> Diverges)"

text \<open>\<open>if let Some(x) = \<dots>\<close>, and \<open>for x in \<dots>\<close> with \<open>push\<close>.\<close>

primrec copy_option :: "('a \<Rightarrow> 'a copying) \<Rightarrow> 'a option \<Rightarrow> 'a option copying" where
  "copy_option c None = copy_done None"
| "copy_option c (Some x) = copy_then (c x) (\<lambda>x. copy_done (Some x))"

primrec copy_each :: "('a \<Rightarrow> 'a copying) \<Rightarrow> 'a list \<Rightarrow> 'a list copying" where
  "copy_each c [] = copy_done []"
| "copy_each c (x # xs) = copy_then (c x) (\<lambda>x. copy_then (copy_each c xs) (\<lambda>xs. copy_done (x # xs)))"

text \<open>What a copy promises: from an empty buffer it fails only when the pool does.\<close>

definition copies :: "pool \<Rightarrow> 'a copying \<Rightarrow> 'a \<Rightarrow> bool" where
  "copies bp m x \<longleftrightarrow>
     (\<forall>ow. filled ow = [] \<longrightarrow>
        m ow = Ready (Inl ()) \<and> \<not> pool_total bp \<or> (\<exists>ow'. m ow = Ready (Inr (x, ow')) \<and> filled ow' = []))"

lemma copies_done: "x = y \<Longrightarrow> copies bp (copy_done x) y"
  by (simp add: copies_def copy_done_def)

lemma copies_then:
  assumes "copies bp m x" and "copies bp (f x) y"
  shows "copies bp (copy_then m f) y"
  unfolding copies_def
proof (intro allI impI)
  fix ow :: owned assume "filled ow = []"
  then consider "m ow = Ready (Inl ())" "\<not> pool_total bp" | ow' where "m ow = Ready (Inr (x, ow'))" "filled ow' = []"
    using assms(1) unfolding copies_def by blast
  then show "copy_then m f ow = Ready (Inl ()) \<and> \<not> pool_total bp \<or>
      (\<exists>ow'. copy_then m f ow = Ready (Inr (y, ow')) \<and> filled ow' = [])"
    using assms(2) unfolding copies_def by cases (auto simp: copy_then_def)
qed

text \<open>
  The contract of a \<open>to_shared\<close> method. Whoever has it for a type has it for optional values and lists of
  that type.
\<close>

locale deep_copy =
  fixes copy :: "pool \<Rightarrow> 'a \<Rightarrow> 'a copying"
  assumes exact: "pool_ok bp \<Longrightarrow> copies bp (copy bp x) x"
begin

lemma option_exact: "pool_ok bp \<Longrightarrow> copies bp (copy_option (copy bp) x) x"
  by (cases x) (auto intro: copies_then copies_done exact)

lemma each_exact: "pool_ok bp \<Longrightarrow> copies bp (copy_each (copy bp) xs) xs"
  by (induction xs) (auto intro!: copies_then copies_done exact)

lemma never_panics:
  assumes "pool_ok bp" and "pool_total bp" and "filled ow = []"
  shows "\<exists>ow'. copy bp x ow = Ready (Inr (x, ow')) \<and> filled ow' = []"
  using exact [OF assms(1), of x] assms(2,3) by (auto simp: copies_def)

end

section \<open>Strings and data\<close>

definition shared_to_shared :: "pool \<Rightarrow> bytes \<Rightarrow> bytes copying" where
  "shared_to_shared bp b = copy_to_shared bp b"

definition binary_to_shared :: "pool \<Rightarrow> binary_data \<Rightarrow> binary_data copying" where
  "binary_to_shared bp b = copy_then (shared_to_shared bp (bd_shared b)) (\<lambda>s. copy_done (BinaryData s))"

definition str_to_shared :: "pool \<Rightarrow> byte_str \<Rightarrow> byte_str copying" where
  "str_to_shared bp s = copy_then (binary_to_shared bp (bs_binary s)) (\<lambda>b. copy_done (ByteStr b))"

text \<open>\<open>ByteStr::new\<close>, and the copies of topics and filters that are strings, which go through it.\<close>

definition str_new :: "pool \<Rightarrow> bytes \<Rightarrow> byte_str copying" where
  "str_new bp s = copy_then (\<lambda>ow. binary_new bp ow s) (\<lambda>b. copy_done (ByteStr b))"

definition topic_to_shared :: "pool \<Rightarrow> byte_str topic \<Rightarrow> byte_str topic copying" where
  "topic_to_shared bp t = copy_then (str_to_shared bp (topic_inner t)) (\<lambda>s. copy_done (Topic s))"

definition string_topic_to_shared :: "pool \<Rightarrow> bytes topic \<Rightarrow> byte_str topic copying" where
  "string_topic_to_shared bp t = copy_then (str_new bp (topic_inner t)) (\<lambda>s. copy_done (Topic s))"

definition filter_to_shared :: "pool \<Rightarrow> byte_str filter \<Rightarrow> byte_str filter copying" where
  "filter_to_shared bp f =
     copy_then (str_to_shared bp (filter_inner f)) (\<lambda>s.
     copy_done \<lparr>filter_inner = s, filter_kind = filter_kind f\<rparr>)"

definition string_filter_to_shared :: "pool \<Rightarrow> bytes filter \<Rightarrow> byte_str filter copying" where
  "string_filter_to_shared bp f =
     copy_then (str_new bp (filter_inner f)) (\<lambda>s.
     copy_done \<lparr>filter_inner = s, filter_kind = filter_kind f\<rparr>)"

definition user_property_to_shared :: "pool \<Rightarrow> byte_str \<times> byte_str \<Rightarrow> (byte_str \<times> byte_str) copying" where
  "user_property_to_shared bp kv =
     copy_then (str_to_shared bp (fst kv)) (\<lambda>key. copy_then (str_to_shared bp (snd kv)) (\<lambda>val. copy_done (key, val)))"

definition authentication_to_shared :: "pool \<Rightarrow> authentication \<Rightarrow> authentication copying" where
  "authentication_to_shared bp a =
     copy_then (copy_option (binary_to_shared bp) (authentication_data a)) (\<lambda>data.
     copy_then (str_to_shared bp (authentication_method a)) (\<lambda>auth_method.
     copy_done \<lparr>authentication_method = auth_method, authentication_data = data\<rparr>))"

section \<open>Packets\<close>

text \<open>The acknowledgement packets share one record of properties; PUBREC, PUBREL, PUBCOMP and AUTH have no copy.\<close>

definition ack_properties_to_shared :: "pool \<Rightarrow> ack_other_properties \<Rightarrow> ack_other_properties copying" where
  "ack_properties_to_shared bp p =
     copy_then (copy_option (str_to_shared bp) (ack_reason_string p)) (\<lambda>reason.
     copy_then (copy_each (user_property_to_shared bp) (ack_user_properties p)) (\<lambda>props.
     copy_done
       \<lparr>ack_reason_string = reason,
        ack_user_properties = props\<rparr>))"

definition pub_ack_to_shared :: "pool \<Rightarrow> pub_ack \<Rightarrow> pub_ack copying" where
  "pub_ack_to_shared bp p =
     copy_then (ack_properties_to_shared bp (puback_other_properties p)) (\<lambda>props.
     copy_done
       \<lparr>puback_packet_identifier = puback_packet_identifier p,
        puback_reason_code = puback_reason_code p,
        puback_other_properties = props\<rparr>)"

definition sub_ack_properties_to_shared :: "pool \<Rightarrow> ack_other_properties \<Rightarrow> ack_other_properties copying" where
  "sub_ack_properties_to_shared bp p =
     copy_then (copy_option (str_to_shared bp) (ack_reason_string p)) (\<lambda>reason.
     copy_then (copy_each (user_property_to_shared bp) (ack_user_properties p)) (\<lambda>props.
     copy_done \<lparr>ack_reason_string = reason, ack_user_properties = props\<rparr>))"

definition unsub_ack_properties_to_shared :: "pool \<Rightarrow> ack_other_properties \<Rightarrow> ack_other_properties copying" where
  "unsub_ack_properties_to_shared bp p =
     copy_then (copy_option (str_to_shared bp) (ack_reason_string p)) (\<lambda>reason.
     copy_then (copy_each (user_property_to_shared bp) (ack_user_properties p)) (\<lambda>props.
     copy_done \<lparr>ack_reason_string = reason, ack_user_properties = props\<rparr>))"

definition sub_ack_to_shared :: "pool \<Rightarrow> sub_ack \<Rightarrow> sub_ack copying" where
  "sub_ack_to_shared bp p =
     copy_then (sub_ack_properties_to_shared bp (suback_other_properties p)) (\<lambda>props.
     copy_done
       \<lparr>suback_packet_identifier = suback_packet_identifier p,
        suback_reason_codes = suback_reason_codes p,
        suback_other_properties = props\<rparr>)"

definition unsub_ack_to_shared :: "pool \<Rightarrow> unsub_ack \<Rightarrow> unsub_ack copying" where
  "unsub_ack_to_shared bp p =
     copy_then (unsub_ack_properties_to_shared bp (unsuback_other_properties p)) (\<lambda>props.
     copy_done
       \<lparr>unsuback_packet_identifier = unsuback_packet_identifier p,
        unsuback_reason_codes = unsuback_reason_codes p,
        unsuback_other_properties = props\<rparr>)"

definition publish_properties_to_shared :: "pool \<Rightarrow> publish_other_properties \<Rightarrow> publish_other_properties copying" where
  "publish_properties_to_shared bp p =
     copy_then (copy_option (topic_to_shared bp) (publish_response_topic p)) (\<lambda>response.
     copy_then (copy_option (binary_to_shared bp) (publish_correlation_data p)) (\<lambda>correlation.
     copy_then (copy_each (user_property_to_shared bp) (publish_user_properties p)) (\<lambda>props.
     copy_then (copy_option (str_to_shared bp) (publish_content_type p)) (\<lambda>content.
     copy_done
       \<lparr>publish_payload_is_utf8 = publish_payload_is_utf8 p,
        publish_message_expiry_interval = publish_message_expiry_interval p,
        publish_topic_alias = publish_topic_alias p,
        publish_response_topic = response,
        publish_correlation_data = correlation,
        publish_user_properties = props,
        publish_subscription_identifiers = publish_subscription_identifiers p,
        publish_content_type = content\<rparr>))))"

definition publish_to_shared :: "pool \<Rightarrow> publish \<Rightarrow> publish copying" where
  "publish_to_shared bp p =
     copy_then (shared_to_shared bp (publish_payload p)) (\<lambda>payload.
     copy_then (topic_to_shared bp (publish_topic_name p)) (\<lambda>name.
     copy_then (publish_properties_to_shared bp (publish_other_properties p)) (\<lambda>props.
     copy_done
       \<lparr>publish_topic_name = name,
        packet_identifier_dup_qos = packet_identifier_dup_qos p,
        publish_retain = publish_retain p,
        publish_payload = payload,
        publish_other_properties = props\<rparr>)))"

definition publication_to_shared :: "pool \<Rightarrow> publication \<Rightarrow> publication copying" where
  "publication_to_shared bp p =
     copy_then (copy_option (topic_to_shared bp) (publication_response_topic (publication_other_properties p))) (\<lambda>response.
     copy_then (copy_option (binary_to_shared bp) (publication_correlation_data (publication_other_properties p))) (\<lambda>correlation.
     copy_then (copy_each (user_property_to_shared bp) (publication_user_properties (publication_other_properties p))) (\<lambda>props.
     copy_then (copy_option (str_to_shared bp) (publication_content_type (publication_other_properties p))) (\<lambda>content.
     copy_then (shared_to_shared bp (publication_payload p)) (\<lambda>payload.
     copy_then (topic_to_shared bp (publication_topic_name p)) (\<lambda>name.
     copy_done
       \<lparr>publication_topic_name = name,
        publication_qos = publication_qos p,
        publication_retain = publication_retain p,
        publication_payload = payload,
        publication_other_properties = 
          \<lparr>publication_payload_is_utf8 = publication_payload_is_utf8 (publication_other_properties p),
           publication_message_expiry_interval = publication_message_expiry_interval (publication_other_properties p),
           publication_response_topic = response, publication_correlation_data = correlation,
           publication_user_properties = props, publication_content_type = content\<rparr>\<rparr>))))))"

definition subscribe_to_to_shared :: "pool \<Rightarrow> subscribe_to \<Rightarrow> subscribe_to copying" where
  "subscribe_to_to_shared bp p =
     copy_then (filter_to_shared bp (topic_filter p)) (\<lambda>f.
     copy_done
       \<lparr>topic_filter = f,
        options = options p\<rparr>)"

definition subscribe_properties_to_shared :: "pool \<Rightarrow> subscribe_other_properties \<Rightarrow> subscribe_other_properties copying" where
  "subscribe_properties_to_shared bp p =
     copy_then (copy_each (user_property_to_shared bp) (subscribe_user_properties p)) (\<lambda>props.
     copy_done
       \<lparr>subscription_identifier = subscription_identifier p,
        subscribe_user_properties = props\<rparr>)"

definition subscribe_to_shared :: "pool \<Rightarrow> subscribe \<Rightarrow> subscribe copying" where
  "subscribe_to_shared bp p =
     copy_then (copy_each (subscribe_to_to_shared bp) (subscribe_to_list p)) (\<lambda>tos.
     copy_then (subscribe_properties_to_shared bp (subscribe_other_properties p)) (\<lambda>props.
     copy_done
       \<lparr>subscribe_packet_identifier = subscribe_packet_identifier p,
        subscribe_to_list = tos,
        subscribe_other_properties = props\<rparr>))"

definition unsubscribe_properties_to_shared :: "pool \<Rightarrow> user_properties \<Rightarrow> user_properties copying" where
  "unsubscribe_properties_to_shared bp = copy_each (user_property_to_shared bp)"

definition unsubscribe_to_shared :: "pool \<Rightarrow> unsubscribe \<Rightarrow> unsubscribe copying" where
  "unsubscribe_to_shared bp p =
     copy_then (copy_each (filter_to_shared bp) (unsubscribe_from p)) (\<lambda>filters.
     copy_then (unsubscribe_properties_to_shared bp (unsubscribe_user_properties p)) (\<lambda>props.
     copy_done
       \<lparr>unsubscribe_packet_identifier = unsubscribe_packet_identifier p,
        unsubscribe_from = filters,
        unsubscribe_user_properties = props\<rparr>))"

definition disconnect_properties_to_shared :: "pool \<Rightarrow> disconnect_other_properties \<Rightarrow> disconnect_other_properties copying" where
  "disconnect_properties_to_shared bp p =
     copy_then (copy_option (str_to_shared bp) (disconnect_reason_string p)) (\<lambda>reason.
     copy_then (copy_each (user_property_to_shared bp) (disconnect_user_properties p)) (\<lambda>props.
     copy_then (copy_option (str_to_shared bp) (disconnect_server_reference p)) (\<lambda>reference.
     copy_done
       \<lparr>disconnect_session_expiry_interval = disconnect_session_expiry_interval p,
        disconnect_reason_string = reason,
        disconnect_user_properties = props,
        disconnect_server_reference = reference\<rparr>)))"

definition disconnect_to_shared :: "pool \<Rightarrow> disconnect \<Rightarrow> disconnect copying" where
  "disconnect_to_shared bp p =
     copy_then (disconnect_properties_to_shared bp (disconnect_other_properties p)) (\<lambda>props.
     copy_done
       \<lparr>disconnect_reason_code = disconnect_reason_code p,
        disconnect_other_properties = props\<rparr>)"

definition conn_ack_properties_to_shared :: "pool \<Rightarrow> conn_ack_other_properties \<Rightarrow> conn_ack_other_properties copying" where
  "conn_ack_properties_to_shared bp p =
     copy_then (copy_option (str_to_shared bp) (connack_assigned_client_id p)) (\<lambda>client_id.
     copy_then (copy_option (str_to_shared bp) (connack_reason_string p)) (\<lambda>reason.
     copy_then (copy_each (user_property_to_shared bp) (connack_user_properties p)) (\<lambda>props.
     copy_then (copy_option (str_to_shared bp) (connack_response_information p)) (\<lambda>information.
     copy_then (copy_option (str_to_shared bp) (connack_server_reference p)) (\<lambda>reference.
     copy_then (copy_option (authentication_to_shared bp) (connack_authentication p)) (\<lambda>auth_data.
     copy_done
       \<lparr>connack_session_expiry_interval = connack_session_expiry_interval p,
        connack_receive_maximum = connack_receive_maximum p,
        connack_maximum_qos = connack_maximum_qos p,
        connack_retain_available = connack_retain_available p,
        connack_maximum_packet_size = connack_maximum_packet_size p,
        connack_assigned_client_id = client_id,
        connack_topic_alias_maximum = connack_topic_alias_maximum p,
        connack_reason_string = reason,
        connack_user_properties = props,
        connack_wildcard_subscription_available = connack_wildcard_subscription_available p,
        connack_shared_subscription_available = connack_shared_subscription_available p,
        connack_subscription_identifiers_available = connack_subscription_identifiers_available p,
        connack_server_keep_alive = connack_server_keep_alive p,
        connack_response_information = information,
        connack_server_reference = reference,
        connack_authentication = auth_data\<rparr>))))))"

definition conn_ack_to_shared :: "pool \<Rightarrow> conn_ack \<Rightarrow> conn_ack copying" where
  "conn_ack_to_shared bp p =
     copy_then (conn_ack_properties_to_shared bp (connack_other_properties p)) (\<lambda>props.
     copy_done
       \<lparr>connack_reason_code = connack_reason_code p,
        connack_other_properties = props\<rparr>)"

definition connect_properties_to_shared :: "pool \<Rightarrow> connect_other_properties \<Rightarrow> connect_other_properties copying" where
  "connect_properties_to_shared bp p =
     copy_then (copy_each (user_property_to_shared bp) (connect_user_properties p)) (\<lambda>props.
     copy_then (copy_option (authentication_to_shared bp) (connect_authentication p)) (\<lambda>auth_data.
     copy_done
       \<lparr>connect_session_expiry_interval = connect_session_expiry_interval p,
        connect_receive_maximum = connect_receive_maximum p,
        connect_maximum_packet_size = connect_maximum_packet_size p,
        connect_topic_alias_maximum = connect_topic_alias_maximum p,
        connect_request_response_information = connect_request_response_information p,
        connect_request_problem_information = connect_request_problem_information p,
        connect_user_properties = props,
        connect_authentication = auth_data\<rparr>))"

definition will_to_shared :: "pool \<Rightarrow> publication \<times> u32 \<Rightarrow> (publication \<times> u32) copying" where
  "will_to_shared bp w = copy_then (publication_to_shared bp (fst w)) (\<lambda>p. copy_done (p, snd w))"

definition connect_to_shared :: "pool \<Rightarrow> connect \<Rightarrow> connect copying" where
  "connect_to_shared bp p =
     copy_then (copy_option (str_to_shared bp) (connect_username p)) (\<lambda>username.
     copy_then (copy_option (binary_to_shared bp) (connect_password p)) (\<lambda>password.
     copy_then (copy_option (will_to_shared bp) (connect_will p)) (\<lambda>w.
     copy_then (copy_option (str_to_shared bp) (connect_client_id p)) (\<lambda>client_id.
     copy_then (connect_properties_to_shared bp (connect_other_properties p)) (\<lambda>props.
     copy_done
       \<lparr>connect_username = username,
        connect_password = password,
        connect_will = w,
        connect_client_id = client_id,
        connect_clean_start = connect_clean_start p,
        connect_keep_alive = connect_keep_alive p,
        connect_other_properties = props\<rparr>)))))"

section \<open>Copies equal their originals\<close>

interpretation shared_copy: deep_copy shared_to_shared
proof
  fix bp :: pool and x :: bytes assume "pool_ok bp"
  then show "copies bp (shared_to_shared bp x) x"
    unfolding copies_def shared_to_shared_def copy_to_shared_def pool_total_def
    using shared_new_copies by blast
qed

interpretation binary_copy: deep_copy binary_to_shared
  by unfold_locales (auto simp: binary_to_shared_def intro!: copies_then copies_done shared_copy.exact)

interpretation str_copy: deep_copy str_to_shared
  by unfold_locales (auto simp: str_to_shared_def intro!: copies_then copies_done binary_copy.exact)

interpretation topic_copy: deep_copy topic_to_shared
  by unfold_locales (auto simp: topic_to_shared_def intro!: copies_then copies_done str_copy.exact)

interpretation filter_copy: deep_copy filter_to_shared
  by unfold_locales (auto simp: filter_to_shared_def intro!: copies_then copies_done str_copy.exact)

interpretation user_property_copy: deep_copy user_property_to_shared
  by unfold_locales (auto simp: user_property_to_shared_def intro!: copies_then copies_done str_copy.exact)

interpretation authentication_copy: deep_copy authentication_to_shared
  by unfold_locales
    (auto simp: authentication_to_shared_def intro!: copies_then copies_done str_copy.exact binary_copy.option_exact)

lemmas part_copies = str_copy.exact str_copy.option_exact binary_copy.option_exact topic_copy.exact topic_copy.option_exact
  filter_copy.exact filter_copy.each_exact user_property_copy.each_exact authentication_copy.option_exact shared_copy.exact

interpretation ack_properties_copy: deep_copy ack_properties_to_shared
  by unfold_locales (auto simp: ack_properties_to_shared_def intro!: copies_then copies_done part_copies)

interpretation pub_ack_copy: deep_copy pub_ack_to_shared
  by unfold_locales (auto simp: pub_ack_to_shared_def intro!: copies_then copies_done part_copies ack_properties_copy.exact)

interpretation sub_ack_properties_copy: deep_copy sub_ack_properties_to_shared
  by unfold_locales (auto simp: sub_ack_properties_to_shared_def intro!: copies_then copies_done part_copies)

interpretation sub_ack_copy: deep_copy sub_ack_to_shared
  by unfold_locales (auto simp: sub_ack_to_shared_def intro!: copies_then copies_done part_copies sub_ack_properties_copy.exact)

interpretation unsub_ack_properties_copy: deep_copy unsub_ack_properties_to_shared
  by unfold_locales (auto simp: unsub_ack_properties_to_shared_def intro!: copies_then copies_done part_copies)

interpretation unsub_ack_copy: deep_copy unsub_ack_to_shared
  by unfold_locales (auto simp: unsub_ack_to_shared_def intro!: copies_then copies_done part_copies unsub_ack_properties_copy.exact)

interpretation publish_properties_copy: deep_copy publish_properties_to_shared
  by unfold_locales (auto simp: publish_properties_to_shared_def intro!: copies_then copies_done part_copies)

interpretation publish_copy: deep_copy publish_to_shared
  by unfold_locales (auto simp: publish_to_shared_def intro!: copies_then copies_done part_copies publish_properties_copy.exact)

interpretation publication_copy: deep_copy publication_to_shared
  by unfold_locales (auto simp: publication_to_shared_def intro!: copies_then copies_done part_copies)

interpretation subscribe_to_copy: deep_copy subscribe_to_to_shared
  by unfold_locales (auto simp: subscribe_to_to_shared_def intro!: copies_then copies_done part_copies)

interpretation subscribe_properties_copy: deep_copy subscribe_properties_to_shared
  by unfold_locales (auto simp: subscribe_properties_to_shared_def intro!: copies_then copies_done part_copies)

interpretation subscribe_copy: deep_copy subscribe_to_shared
  by unfold_locales (auto simp: subscribe_to_shared_def intro!: copies_then copies_done part_copies subscribe_to_copy.each_exact subscribe_properties_copy.exact)

interpretation unsubscribe_properties_copy: deep_copy unsubscribe_properties_to_shared
  by unfold_locales (auto simp: unsubscribe_properties_to_shared_def intro!: user_property_copy.each_exact)

interpretation unsubscribe_copy: deep_copy unsubscribe_to_shared
  by unfold_locales (auto simp: unsubscribe_to_shared_def intro!: copies_then copies_done part_copies unsubscribe_properties_copy.exact)

interpretation disconnect_properties_copy: deep_copy disconnect_properties_to_shared
  by unfold_locales (auto simp: disconnect_properties_to_shared_def intro!: copies_then copies_done part_copies)

interpretation disconnect_copy: deep_copy disconnect_to_shared
  by unfold_locales (auto simp: disconnect_to_shared_def intro!: copies_then copies_done part_copies disconnect_properties_copy.exact)

interpretation conn_ack_properties_copy: deep_copy conn_ack_properties_to_shared
  by unfold_locales (auto simp: conn_ack_properties_to_shared_def intro!: copies_then copies_done part_copies)

interpretation conn_ack_copy: deep_copy conn_ack_to_shared
  by unfold_locales (auto simp: conn_ack_to_shared_def intro!: copies_then copies_done part_copies conn_ack_properties_copy.exact)

interpretation connect_properties_copy: deep_copy connect_properties_to_shared
  by unfold_locales (auto simp: connect_properties_to_shared_def intro!: copies_then copies_done part_copies)

interpretation will_copy: deep_copy will_to_shared
  by unfold_locales (auto simp: will_to_shared_def intro!: copies_then copies_done publication_copy.exact)

interpretation connect_copy: deep_copy connect_to_shared
  by unfold_locales (auto simp: connect_to_shared_def intro!: copies_then copies_done part_copies connect_properties_copy.exact will_copy.option_exact)

end
