(* ===== verification/Transport_Properties.thy ===== *)
theory Transport_Properties
  imports Transport_Setup Client_Tokens Connection_Properties Deep_Copy
begin

text \<open>
  What the layers below the connection and the tokens above it promise: proxies, WebSockets, the
  transport of the tests, the choice and the set-up of a transport, copies of packets, and a token
  whose rejection panics.
\<close>

section \<open>Proxies\<close>

text \<open>A stream to a proxy: the bytes of the response, and the bytes sent.\<close>

definition demo_proxy :: "(bytes \<times> bytes, bytes \<times> bytes) proxy_io" where
  "demo_proxy =
     \<lparr>write_all = (\<lambda>b (i, o'). (Inr (), (i, o' @ b))), buf_reader_new = id,
      take_line = (\<lambda>n (i, o'). (IoReady (first_line n i), (drop (length (first_line n i)) i, o'))), into_inner = id\<rparr>"

lemma demo_proxy_reads: "reads_lines (\<lambda>_. True) demo_proxy fst"
  by (auto simp: reads_lines_def demo_proxy_def Let_def)

definition demo_response :: bytes where
  "demo_response = ascii ''HTTP/1.1 200 OK'' @ crlf @ ascii ''Via: p'' @ crlf @ crlf"

text \<open>C23. A tunnel through an HTTP proxy is accepted exactly when the proxy's response starts with a status
  line of HTTP 1.0 or 1.1 and a 2xx status code and its head, up to a blank line or the end of the
  stream, has at most 65536 bytes, all lines of it UTF-8. On a stream that answers, the exchange
  always ends.\<close>

theorem proxy_tunnel_accepted_iff:
  assumes "reads_lines is_utf8 io incoming" and "valid_target_host host"
    and "write_all io (connect_request base64 host port auth) stream = (Inr (), stream')"
  shows "((\<exists>s. http_connect_exchange base64 io host port auth stream = StepOk s) \<longleftrightarrow>
      accepted_response is_utf8 (incoming (buf_reader_new io stream'))) \<and>
    http_connect_exchange base64 io host port auth stream \<noteq> StepPending"
  using exchange_iff [OF assms] by blast

lemma demo_response_accepted: "accepted_response (\<lambda>_. True) demo_response"
  by (simp add: accepted_response_def demo_response_def ascii_def char_defs response_lines.simps valid_status_line_def
        word_list_def parse_u16_def Let_def MAX_PROXY_RESPONSE_HEADER_BYTES_def)

theorem proxy_tunnel_accepted_iff_witness:
  "\<exists>s. http_connect_exchange id demo_proxy (ascii ''h'') 443 NoProxyAuthorization (demo_response, []) = StepOk s"
proof -
  have "valid_target_host (ascii ''h'')"
    by (simp add: valid_target_host_def ascii_def is_ascii_control_def SP_def)
  then show ?thesis
    using demo_response_accepted proxy_tunnel_accepted_iff [OF demo_proxy_reads, of "ascii ''h''" id 443 NoProxyAuthorization "(demo_response, [])"]
    by (simp add: demo_proxy_def)
qed

text \<open>C22. The CONNECT request to a proxy cannot be split or extended by the host it names: for a host with
  neither control characters nor spaces the request has exactly the lines of a CONNECT, its request
  line the three parts method, authority and version, and any other host is refused before a byte is
  sent, whatever the stream.\<close>

theorem proxy_request_is_exact:
  assumes "\<And>b. CR \<notin> set (base64 b)"
  shows "if valid_target_host host
    then crlf_lines (connect_request base64 host port auth) =
        [ascii ''CONNECT '' @ connect_authority host port @ ascii '' HTTP/1.1'',
         ascii ''Host: '' @ connect_authority host port] @
        (case auth of
           NoProxyAuthorization \<Rightarrow> []
         | BasicAuthorization username password \<Rightarrow>
             [ascii ''Proxy-Authorization: Basic '' @ base64 (username @ [COLON] @ password)]) @
        [[], []] \<and>
      split_at SP (hd (crlf_lines (connect_request base64 host port auth))) =
        [ascii ''CONNECT'', connect_authority host port, ascii ''HTTP/1.1'']
    else http_connect_exchange base64 io host port auth stream = StepErr InvalidTargetHost"
proof (cases "valid_target_host host")
  case True
  have sp: "SP \<notin> set (ascii ''CONNECT'')" "SP \<notin> set (ascii ''HTTP/1.1'')" by (simp_all add: ascii_def SP_def)
  have "split_at SP (ascii ''CONNECT'' @ SP # connect_authority host port @ SP # ascii ''HTTP/1.1'') =
      [ascii ''CONNECT'', connect_authority host port, ascii ''HTTP/1.1'']"
    using split_at_append [OF sp(1)] split_at_append [OF authority_plain(2) [OF True]] split_at_plain [OF sp(2)]
    by simp
  moreover have "ascii ''CONNECT '' @ connect_authority host port @ ascii '' HTTP/1.1'' =
      ascii ''CONNECT'' @ SP # connect_authority host port @ SP # ascii ''HTTP/1.1''"
    by (simp add: ascii_def SP_def)
  ultimately show ?thesis using True by (simp add: request_lines [OF True assms])
next
  case False
  then show ?thesis by (simp add: http_connect_exchange_def)
qed

theorem proxy_request_is_exact_witness:
  "http_connect_exchange (\<lambda>_. []) demo_proxy (ascii ''h'' @ crlf) 443 NoProxyAuthorization (demo_response, []) =
     StepErr InvalidTargetHost"
  using proxy_request_is_exact [of "\<lambda>_. []" "ascii ''h'' @ crlf" 443 NoProxyAuthorization demo_proxy "(demo_response, [])"]
  by (simp add: valid_target_host_def is_ascii_control_def char_defs)

section \<open>WebSockets\<close>

definition ws_transport ::
  "pool \<Rightarrow> unicode \<Rightarrow> 's web_socket \<Rightarrow> ('s web_socket_stream, 's web_socket_stream) transport"
where
  "ws_transport bp uc ws =
     \<lparr>tr_pool = bp, tr_unicode = uc, tr_read = ws_read ws, tr_write = ws_write_vectored ws, tr_flush = ws_flush ws\<rparr>"

lemma ws_transport_ok:
  "pool_ok bp \<Longrightarrow> delivers ws items \<Longrightarrow> transmits ws sent left \<Longrightarrow>
     transport_ok (ws_transport bp uc ws) (ws_incoming items) (ws_sent sent)"
  by (simp add: transport_ok_def ws_transport_def ws_readable ws_writable)

text \<open>C24. A WebSocket is a transport like any other. The payloads of the binary messages that come are the
  incoming bytes, wherever the messages cut them and whatever pings come between; a text message makes
  the read that meets it fail; and a poll of the stream always returns, without a panic. A packet that
  is written and flushed has left the WebSocket, with all that was sent before, in binary messages whose
  payloads are its encoding. So everything shown of a connection over a transport holds over
  WebSockets.\<close>

theorem websocket_is_a_transport:
  assumes "pool_ok bp" and "delivers ws items" and "transmits ws sent left" and "writer_idle w"
  shows "transport_ok (ws_transport bp uc ws) (ws_incoming items) (ws_sent sent) \<and>
    (\<exists>x v'. ws_poll_read ws n v = Some (Ready x, v') \<and> ws_read ws n v = (x, v')) \<and>
    (next_read v = [] \<and> items (ws_inner v) = Inr (Text b) # r \<longrightarrow>
       fst (ws_read ws n v) = IoErr ws_text_error \<or> fst (ws_read ws n v) = IoPending) \<and>
    (\<exists>x w'. write_and_flush (ws_transport bp uc ws) p w = Some (x, w') \<and>
       (x = Inr () \<longrightarrow> concat (map message_bytes (left (ws_inner (writer_inner w')))) =
          concat (map message_bytes (sent (ws_inner (writer_inner w)))) @ enc_bytes (packet_encode V5 p)))"
proof -
  note ok = ws_transport_ok [OF assms(1-3), of uc]
  obtain x w' where sends: "write_and_flush (ws_transport bp uc ws) p w = Some (x, w')"
    "x = Inr () \<Longrightarrow> ws_sent sent (writer_inner w') = ws_sent sent (writer_inner w) @ wire [p]"
    using write_and_flush_sends [OF ok assms(4)] by metis
  have "left (ws_inner (writer_inner w')) = sent (ws_inner (writer_inner w'))" if x: "x = Inr ()"
  proof -
    obtain s where "ws_flush ws s = (Inr (), writer_inner w')"
      using sends(1) x writer_flush_flushes
      by (fastforce simp: write_and_flush_def ws_transport_def split: option.splits prod.splits sum.splits)
    then show ?thesis by (rule ws_flush_leaves [OF assms(3)])
  qed
  moreover have "\<exists>x v'. ws_poll_read ws n v = Some (Ready x, v') \<and> ws_read ws n v = (x, v')"
    using ws_poll_read_bytes [OF assms(2), of n v] by (auto simp: ws_read_def)
  ultimately show ?thesis
    using ok sends ws_read_text [OF assms(2)] by (auto simp: ws_sent_def)
qed

text \<open>A WebSocket whose peer sends the messages of a list, but no raw frames and nothing after a Close; what is
  sent stays queued until a flush.\<close>

definition raw_frame :: "ws_error + ws_message \<Rightarrow> bool" where
  "raw_frame x = (case x of Inr (Frame b) \<Rightarrow> True | _ \<Rightarrow> False)"

primrec demo_items :: "(ws_error + ws_message) list \<Rightarrow> (ws_error + ws_message) list" where
  "demo_items [] = []"
| "demo_items (x # r) = (if raw_frame x then demo_items r else if x = Inr Close then [x] else x # demo_items r)"

definition demo_ws :: "((ws_error + ws_message) list \<times> ws_message list \<times> ws_message list) web_socket" where
  "demo_ws =
     \<lparr>poll_next = (\<lambda>(i, o'). case demo_items i of [] \<Rightarrow> (NextEnd, ([], o')) | x # r \<Rightarrow> (NextItem x, (r, o'))),
      poll_ready = (\<lambda>s. (Some (Inr ()), s)),
      start_send = (\<lambda>m (i, left, queued). (Inr (), (i, left, queued @ [m]))),
      sink_poll_flush = (\<lambda>(i, left, queued). (Some (Inr ()), (i, left @ queued, []))),
      sink_poll_close = (\<lambda>s. (Some (Inr ()), s))\<rparr>"

lemma demo_items_idem: "demo_items (demo_items i) = demo_items i"
  by (induction i) auto

lemma demo_items_tail:
  "demo_items i = x # r \<Longrightarrow> demo_items r = r \<and> (x = Inr Close \<longrightarrow> r = []) \<and> (\<forall>b. x \<noteq> Inr (Frame b))"
proof (induction i)
  case (Cons a i)
  then show ?case
    by (cases "raw_frame a"; cases "a = Inr Close") (auto simp: demo_items_idem, auto simp: raw_frame_def)
qed simp

lemma demo_ws_ok: "delivers demo_ws (\<lambda>s. demo_items (fst s))" "transmits demo_ws (\<lambda>(i, left, queued). left @ queued) (\<lambda>s. fst (snd s))"
  by (auto simp: delivers_def transmits_def demo_ws_def dest: demo_items_tail split: list.splits prod.splits)

theorem websocket_is_a_transport_witness:
  "transport_ok (ws_transport plain_pool ascii_unicode demo_ws) (ws_incoming (\<lambda>s. demo_items (fst s)))
     (ws_sent (\<lambda>(i, left, queued). left @ queued)) \<and>
   ws_incoming (\<lambda>s. demo_items (fst s))
     \<lparr>ws_inner = ([Inr (Binary [0xC0]), Inr (Text []), Inr (Ping []), Inr (Binary [0]), Inr Close], [], []), next_read = []\<rparr> = [0xC0, 0] \<and>
   (fst (ws_read demo_ws 5 \<lparr>ws_inner = ([Inr (Text []), Inr (Binary [0])], [], []), next_read = []\<rparr>) = IoErr ws_text_error \<or>
    fst (ws_read demo_ws 5 \<lparr>ws_inner = ([Inr (Text []), Inr (Binary [0])], [], []), next_read = []\<rparr>) = IoPending)"
proof -
  have idle: "writer_idle (writer_new \<lparr>ws_inner = ([], [], []), next_read = []\<rparr> (Single []))"
    by (simp add: writer_idle_def writer_ok_def writer_new_def)
  from websocket_is_a_transport [OF plain_pool_ok demo_ws_ok idle, of ascii_unicode 5
      "\<lparr>ws_inner = ([Inr (Text []), Inr (Binary [0])], [], []), next_read = []\<rparr>" "[]" "[Inr (Binary [0])]" PingReqPacket]
  show ?thesis by (auto simp: ws_incoming_def item_bytes_def raw_frame_def)
qed

section \<open>The transport of the tests\<close>

text \<open>The transport of the tests is lossless: however the bytes of a sequence of packets are cut into
  writes and slices, every write is taken whole, the packets arrive in the channel as they were, in
  order, and nothing is left in the buffer; and the reading half that gets these packets offers their
  bytes, unchanged, to any reader.\<close>

theorem test_transport_restores_packets:
  assumes "utf8_ascii uc" and "pool_ok bp" and "pool_total bp" and "filled fresh = []"
    and "list_all (deliverable uc) ps" and "concat (map concat writes) = wire ps"
  shows "\<exists>s. test_writes uc bp writes (writer_inner (snd (test_connect [] in_open True fresh fresh))) =
      (map (\<lambda>bufs. Ready (length (concat bufs))) writes, s) \<and>
    outgoing_packets s = ps \<and> filled (current_buf s) = [] \<and>
    source_ok (reader_inner (fst (test_connect (outgoing_packets s) in_open True fresh fresh))) \<and>
    test_incoming (reader_inner (fst (test_connect (outgoing_packets s) in_open True fresh fresh))) =
      concat (map concat writes) \<and>
    readable (source_read bp fresh) (\<lambda>src. test_incoming (source_state src))"
proof -
  have ps: "list_all encodes ps" using assms(5) by (auto simp: list_all_iff deliverable_def)
  define s0 where "s0 = writer_inner (snd (test_connect [] in_open True fresh fresh))"
  have s0: "outgoing_packets s0 = []" "outgoing_open s0" "filled (current_buf s0) = []"
    using assms(4) by (simp_all add: s0_def test_connect_def writer_new_def)
  have "writes = [] \<longrightarrow> ps = []" using wire_Nil_iff [OF ps] assms(6) by auto
  then obtain s where "test_writes uc bp writes s0 = (map (\<lambda>bufs. Ready (length (concat bufs))) writes, s)"
    "outgoing_packets s = ps" "filled (current_buf s) = []"
    using test_writes_restore [OF assms(1-3,5) s0(2)] s0 assms(6) by auto
  then show ?thesis
    using source_readable [OF assms(2-4)] ps assms(6)
    by (intro exI [of _ s]) (simp add: s0_def [symmetric], simp add: test_connect_def reader_new_def source_ok_def test_incoming_def)
qed

theorem test_transport_restores_packets_witness:
  "\<exists>s. test_writes ascii_unicode plain_pool [[[0xC0]], [[], [0, 0xC0]], [[0]]]
      \<lparr>outgoing_packets = [], outgoing_open = True, current_buf = \<lparr>filled = [], unfilled_len = 0\<rparr>\<rparr> =
    ([Ready 1, Ready 2, Ready 1], s) \<and> outgoing_packets s = [PingReqPacket, PingReqPacket]"
proof -
  have "list_all (deliverable ascii_unicode) [PingReqPacket, PingReqPacket]"
    by (simp add: deliverable_def encodes_def ping_encodes)
  from test_transport_restores_packets [OF ascii_unicode_ok(1) plain_pool_ok demo_streams(4) _ this,
      of "\<lparr>filled = [], unfilled_len = 0\<rparr>" "[[[0xC0]], [[], [0, 0xC0]], [[0]]]" False]
  show ?thesis by (auto simp: ping_encodes test_connect_def writer_new_def numeral_2_eq_2 simp del: test_writes.simps)
qed

section \<open>Setting a transport up\<close>

primrec target_host :: "'c connection_transport_type \<Rightarrow> bytes option" where
  "target_host (Tcp host port) = Some host"
| "target_host (Tls host port c) = Some host"
| "target_host (Ws request c) = uri_host request"
| "target_host (TestTransport ps i o') = None"

text \<open>
  Where TLS is asked for, the stream is a TLS session with the given configuration for the name of the
  target, not that of a proxy, and the WebSocket handshake has gone through it.
\<close>

fun secured ::
  "('tcp, 'c, 'ssl, 'b, 'd, 'w) network \<Rightarrow> ('ssl \<Rightarrow> bytes) \<Rightarrow> ('ssl \<Rightarrow> 'c) \<Rightarrow> 'c connection_transport_type \<Rightarrow>
     ('tcp, 'ssl, 'w) endpoint_stream \<Rightarrow> bool"
where
  "secured net session_name session_config (Tls host port c) s \<longleftrightarrow>
     (\<exists>u. s = TlsEnd u \<and> session_name (ssl_session u) = host \<and> session_config (ssl_session u) = c)"
| "secured net session_name session_config (Ws request tls_config) s \<longleftrightarrow>
     uri_scheme request = Some (ascii ''ws'') \<and> tls_config = None \<or>
     uri_scheme request = Some (ascii ''wss'') \<and>
     (\<exists>c u w. tls_config = Some c \<and> s = WsEnd \<lparr>ws_inner = w, next_read = []\<rparr> \<and>
        client_async_tls net (with_protocol request) u = IoReady w \<and>
        uri_host request = Some (session_name (ssl_session u)) \<and> session_config (ssl_session u) = c)"
| "secured net session_name session_config (Tcp host port) s \<longleftrightarrow> (\<exists>t. s = TcpEnd t)"
| "secured net session_name session_config (TestTransport ps i o') s \<longleftrightarrow> True"

lemma split_stream_sel [simp]:
  "reader_inner (fst (split_stream s rb wb)) = s" "writer_inner (snd (split_stream s rb wb)) = s"
  "reader_buf (fst (split_stream s rb wb)) = rb" "writer_buf (snd (split_stream s rb wb)) = wb"
  by (simp_all add: split_stream_def reader_new_def writer_new_def)

text \<open>What any of the transports hands over is a stream with the buffers of its halves.\<close>

lemma transport_connect_split:
  assumes "transport_connect net rfr wfr cfg = SetupOk (r, w)"
  shows "reader_buf r = rfr \<and> (writer_buf w = Single [] \<or> writer_buf w = Iovecs (iovecs_new wfr))"
  using assms
  by (auto simp: transport_connect_def Let_def tokio_tcp_connect_def tokio_tls_connect_def tokio_ws_connect_def
      test_connect_def setup_then_Ok split_stream_def reader_new_def writer_new_def
      split: connection_transport_type.splits option.splits if_splits)

lemma transport_connect_secured:
  assumes "tls_names net session_name session_config" and ok: "transport_connect net rfr wfr cfg = SetupOk (r, w)"
  shows "secured net session_name session_config (transport_type cfg) (writer_inner w)"
proof (cases "transport_type cfg")
  case (Tls host port c)
  then obtain u where "stream_connect_tls net host port c (transport_proxy cfg) (tcp_nodelay cfg) = SetupOk u"
    "writer_inner w = TlsEnd u" using ok
    by (auto simp: transport_connect_def tokio_tls_connect_def setup_then_Ok split_stream_def writer_new_def)
  with Tls connect_tls_session [OF assms(1)] show ?thesis by auto
next
  case (Ws request tls_config)
  with ok have "tokio_ws_connect net request tls_config (transport_proxy cfg) (tcp_nodelay cfg) rfr = SetupOk (r, w)"
    by (simp add: transport_connect_def)
  from tokio_ws_connect_Ok [OF assms(1) this] Ws show ?thesis by cases auto
next
  case (Tcp host port)
  with ok show ?thesis
    by (auto simp: transport_connect_def tokio_tcp_connect_def setup_then_Ok split_stream_def writer_new_def)
qed simp

lemma proxied_host:
  assumes "transport_connect net rfr wfr cfg = SetupOk (r, w)" and "transport_proxy cfg = Some p"
    and "target_host (transport_type cfg) = Some host"
  shows "valid_target_host host"
  using assms
  by (cases "transport_type cfg")
    (auto simp: transport_connect_def tokio_tcp_connect_def tokio_tls_connect_def tokio_ws_connect_def Let_def
      stream_connect_tls_def setup_then_Ok split: option.splits if_splits dest: tunnel_valid_host)

text \<open>C21. Setting up a transport either fails or gives a fresh reader and an idle writer over a stream that
  is as secure as the configuration asks: with TLS, a session for the name of the target, whatever
  proxy is between, under the target's own configuration; with WebSockets, TLS exactly for \<open>wss\<close>, and a
  configuration that disagrees with the scheme never connects. Through a proxy, only hosts that cannot
  break the CONNECT request are reached. With a timeout the set-up always ends.\<close>

theorem transport_is_as_configured:
  assumes "tls_names net session_name session_config" and "filled reader_fresh = []" and "filled writer_fresh = []"
  shows "(\<forall>r w. transport_connect net reader_fresh writer_fresh cfg = SetupOk (r, w) \<longrightarrow>
      filled (reader_buf r) = [] \<and> writer_idle w \<and>
      secured net session_name session_config (transport_type cfg) (writer_inner w) \<and>
      (\<forall>host. transport_proxy cfg \<noteq> None \<and> target_host (transport_type cfg) = Some host \<longrightarrow> valid_target_host host)) \<and>
    (transport_timeout cfg \<noteq> None \<longrightarrow> transport_connect net reader_fresh writer_fresh cfg \<noteq> SetupPending)"
proof (intro conjI allI impI)
  fix r w assume ok: "transport_connect net reader_fresh writer_fresh cfg = SetupOk (r, w)"
  show "filled (reader_buf r) = []" using transport_connect_split [OF ok] assms(2) by simp
  show "writer_idle w"
    using transport_connect_split [OF ok] assms(3)
    by (auto simp: writer_idle_def writer_ok_def iovecs_view_def iovecs_new_def iovecs_inv_def)
  show "secured net session_name session_config (transport_type cfg) (writer_inner w)"
    by (rule transport_connect_secured [OF assms(1) ok])
  show "valid_target_host host" if "transport_proxy cfg \<noteq> None \<and> target_host (transport_type cfg) = Some host" for host
    using proxied_host [OF ok] that by blast
next
  assume "transport_timeout cfg \<noteq> None"
  then show "transport_connect net reader_fresh writer_fresh cfg \<noteq> SetupPending"
    by (auto simp: transport_connect_def Let_def maybe_timeout_ends split: connection_transport_type.splits prod.splits)
qed

text \<open>A network in which every step succeeds; a session is the name and the configuration it was made for.\<close>

definition demo_network ::
  "(bytes \<times> bytes, nat, bytes \<times> nat, bytes \<times> bytes, (bytes \<times> nat, bytes \<times> bytes) ssl_stream, unit) network"
where
  "demo_network =
     \<lparr>tcp_stream_connect = (\<lambda>host port. IoReady (demo_response, [])), set_nodelay = (\<lambda>_ s. Inr s),
      into_ssl = (\<lambda>c h. Inr (h, c)), ssl_connect_proxy = IoReady, ssl_connect_target = IoReady, base64_encode = (\<lambda>_. []),
      plain_proxy_io = demo_proxy,
      tls_proxy_io =
        \<lparr>write_all = (\<lambda>b u. (Inr (), u)), buf_reader_new = id, take_line = (\<lambda>n u. (IoReady [], u)), into_inner = id\<rparr>,
      client_async_plain = (\<lambda>_ _. IoReady ()), client_async_tls = (\<lambda>_ _. IoReady ())\<rparr>"

definition demo_config :: "nat connection_transport_config" where
  "demo_config =
     \<lparr>transport_type = Tls (ascii ''target'') 8883 5, transport_timeout = Some 30,
      transport_proxy = Some \<lparr>endpoint = Http (ascii ''proxy'') 3128, proxy_auth = NoProxyAuthorization\<rparr>, tcp_nodelay = True\<rparr>"

lemma demo_network_names: "tls_names demo_network fst snd"
  by (simp add: tls_names_def demo_network_def)

theorem transport_is_as_configured_witness:
  "\<exists>r w u. transport_connect demo_network \<lparr>filled = [], unfilled_len = 0\<rparr> \<lparr>filled = [], unfilled_len = 0\<rparr> demo_config =
     SetupOk (r, w) \<and> writer_inner w = TlsEnd u \<and> ssl_session u = (ascii ''target'', 5)"
proof -
  have host: "valid_target_host (ascii ''target'')"
    by (simp add: valid_target_host_def ascii_def is_ascii_control_def SP_def)
  obtain s where "http_connect_exchange (\<lambda>_. []) demo_proxy (ascii ''target'') 8883 NoProxyAuthorization (demo_response, []) = StepOk s"
    using exchange_iff(1) [OF demo_proxy_reads host, of "\<lambda>_. []" 8883 NoProxyAuthorization "(demo_response, [])"]
      demo_response_accepted by (auto simp: demo_proxy_def)
  then obtain r w where ok: "transport_connect demo_network \<lparr>filled = [], unfilled_len = 0\<rparr> \<lparr>filled = [], unfilled_len = 0\<rparr> demo_config = SetupOk (r, w)"
    by (auto simp: transport_connect_def demo_config_def tokio_tls_connect_def stream_connect_tls_def stream_connect_def
        http_connect_tunnel_def tcp_connect_def tls_handshake_def demo_network_def maybe_timeout_def split_stream_def)
  then have "secured demo_network fst snd (transport_type demo_config) (writer_inner w)"
    using transport_is_as_configured [OF demo_network_names, of "\<lparr>filled = [], unfilled_len = 0\<rparr>" "\<lparr>filled = [], unfilled_len = 0\<rparr>" demo_config]
    by simp
  with ok show ?thesis by (auto simp: demo_config_def) (metis prod.collapse)
qed

section \<open>Tokens\<close>

text \<open>C40. Rejecting a publish with a property of more than 65535 bytes panics, and while the stack unwinds the
  token is dropped and submits its default: the publish that the application meant to reject is
  acknowledged to the server as a success.\<close>

theorem oversized_reject_acknowledges:
  assumes "\<not> (pred_option (\<lambda>s. length s \<le> 65535) (pap_reason_string props) \<and>
      list_all (\<lambda>(k, v). length k \<le> 65535 \<and> length v \<le> 65535) (pap_user_properties props))"
  shows "\<exists>m. puback_token_reject n n' (pub_ack_token_new k e) reason props (Some q) =
    (Panic m, Some (q @ [AckPubAck n' \<lparr>puback_packet_identifier = k, puback_reason_code = PubAckSuccess,
       puback_other_properties = ack_other_properties_default\<rparr> e]))"
proof -
  have "puback_properties_into props = None"
    using assms puback_props.none_iff [of props] by (simp add: case_prod_unfold)
  then show ?thesis by (simp add: puback_token_reject_def)
qed

theorem oversized_reject_acknowledges_witness:
  "\<exists>m. puback_token_reject 1 2 (pub_ack_token_new 7 3) PubRejectReason_NotAuthorized
      \<lparr>pap_reason_string = Some (replicate 65536 65), pap_user_properties = []\<rparr> (Some []) =
    (Panic m, Some [AckPubAck 2 \<lparr>puback_packet_identifier = 7, puback_reason_code = PubAckSuccess,
       puback_other_properties = ack_other_properties_default\<rparr> 3])"
  using oversized_reject_acknowledges [of "\<lparr>pap_reason_string = Some (replicate 65536 65), pap_user_properties = []\<rparr>"
      1 2 7 3 PubRejectReason_NotAuthorized "[]"]
  by simp

section \<open>Copies\<close>

text \<open>C38. Copying a packet into another pool's buffers gives the packet again: all its strings, data and
  properties are equal to the original, cut from one owned buffer that is empty afterwards, so that it
  serves the next copy. The copy never panics on an empty buffer and fails only when the pool does.\<close>

theorem copies_equal_originals:
  assumes "pool_ok bp"
  shows "copies bp (connect_to_shared bp cn) cn \<and> copies bp (conn_ack_to_shared bp ca) ca \<and>
    copies bp (publish_to_shared bp pu) pu \<and> copies bp (publication_to_shared bp pb) pb \<and>
    copies bp (pub_ack_to_shared bp pa) pa \<and> copies bp (subscribe_to_shared bp su) su \<and>
    copies bp (sub_ack_to_shared bp sa) sa \<and> copies bp (unsubscribe_to_shared bp un) un \<and>
    copies bp (unsub_ack_to_shared bp ua) ua \<and> copies bp (disconnect_to_shared bp di) di"
  using assms by (auto intro!: connect_copy.exact conn_ack_copy.exact publish_copy.exact publication_copy.exact
      pub_ack_copy.exact subscribe_copy.exact sub_ack_copy.exact unsubscribe_copy.exact unsub_ack_copy.exact
      disconnect_copy.exact)

theorem copies_equal_originals_witness:
  "\<exists>ow. publish_to_shared plain_pool sample_publish \<lparr>filled = [], unfilled_len = 0\<rparr> = Ready (Inr (sample_publish, ow)) \<and>
     filled ow = []"
  using copies_equal_originals [OF plain_pool_ok, where pu = sample_publish] demo_streams(4)
  by (auto simp: copies_def)

end
