(* ===== verification/Codec_Tests.thy ===== *)
theory Codec_Tests
  imports Codec_Properties Buffer_Pool
begin

text \<open>
  The oracles of the crate's own codec tests (the test modules of src/src/mqtt_proto.rs and of the modules
  below it), as functions: \<open>try_encode\<close>, \<open>encode\<close> and \<open>decode\<close> of the tests, and the test functions that the
  macros \<open>encode_decode_v3\<close> and \<open>encode_decode_v5\<close> generate. A failed assertion and an \<open>unwrap\<close> of an error
  are panics.
\<close>

section \<open>Oracles\<close>

definition assert :: "bool \<Rightarrow> unit poll" where
  "assert b = (if b then Ready () else Panic ''assertion failed'')"

lemma assert_Ready [simp]: "assert b = Ready () \<longleftrightarrow> b"
  by (simp add: assert_def)

definition test_try_encode :: "protocol_version \<Rightarrow> packet \<Rightarrow> (encode_error + bytes) poll" where
  "test_try_encode version packet =
     (case byte_count False (packet_encode version packet) of
        (_, Some Unreachable) \<Rightarrow> Panic ''internal error: entered unreachable code''
      | (_, Some e) \<Rightarrow> Ready (Inl e)
      | (num_bytes_needed, None) \<Rightarrow>
          (case run_enc test_try_put_slice test_put_shared test_put_done (packet_encode version packet)
                  (test_with_capacity num_bytes_needed) of
             (_, Some e) \<Rightarrow> Panic ''called `Result::unwrap()` on an `Err` value''
           | (accumulator, None) \<Rightarrow>
               (case test_to_iovecs 1 accumulator of
                  None \<Rightarrow> Panic ''assertion failed: !self.put_done_required''
                | Some iovecs \<Rightarrow> Ready (Inr (concat iovecs)))))"

definition test_encode :: "protocol_version \<Rightarrow> packet \<Rightarrow> bytes poll" where
  "test_encode version packet =
     (case test_try_encode version packet of
        Ready (Inr encoding) \<Rightarrow> Ready encoding
      | Ready (Inl e) \<Rightarrow> Panic ''called `Result::unwrap()` on an `Err` value''
      | Panic s \<Rightarrow> Panic s
      | Pending \<Rightarrow> Pending
      | Diverges \<Rightarrow> Diverges)"

definition test_decode :: "unicode \<Rightarrow> protocol_version \<Rightarrow> bytes \<Rightarrow> packet poll" where
  "test_decode uc version src =
     (case packet_decode_full uc version src of
        Inr packet \<Rightarrow> Ready packet
      | Inl e \<Rightarrow> if e = NoProgress then Diverges else Panic ''called `Result::unwrap()` on an `Err` value'')"

definition encode_decode :: "unicode \<Rightarrow> protocol_version \<Rightarrow> packet \<Rightarrow> bytes option \<Rightarrow> unit poll" where
  "encode_decode uc version packet expected_encoding =
     (case test_encode version packet of
        Ready encoding \<Rightarrow>
          if expected_encoding \<noteq> None \<and> expected_encoding \<noteq> Some encoding then Panic ''assertion `left == right` failed''
          else (case test_decode uc version encoding of
                  Ready decoded_packet \<Rightarrow>
                    if packet = decoded_packet then Ready () else Panic ''assertion `left == right` failed''
                | Panic s \<Rightarrow> Panic s
                | Pending \<Rightarrow> Pending
                | Diverges \<Rightarrow> Diverges)
      | Panic s \<Rightarrow> Panic s
      | Pending \<Rightarrow> Pending
      | Diverges \<Rightarrow> Diverges)"

definition create_packet_as_shared :: "u8 \<Rightarrow> bytes \<Rightarrow> bytes poll" where
  "create_packet_as_shared first_byte payload =
     (case run_enc test_try_put_slice test_put_shared test_put_done
             (enc_then (put_u8 first_byte) (enc_then (encode_remaining_length (length payload))
               (enc_then (put_slice payload) put_done))) (test_with_capacity (5 + length payload)) of
        (_, Some e) \<Rightarrow> Panic ''called `Option::unwrap()` on a `None` value''
      | (result, None) \<Rightarrow>
          (case test_to_iovecs 1 result of
             None \<Rightarrow> Panic ''assertion failed: !self.put_done_required''
           | Some iovecs \<Rightarrow> Ready (concat iovecs)))"

section \<open>Literals\<close>

text \<open>\<open>\"...\".into()\<close> and \<open>b\"...\".into()\<close> for literals, which are shorter than 65536 bytes.\<close>

definition bin_lit :: "string \<Rightarrow> binary_data" where
  "bin_lit s = BinaryData (be16 (of_nat (length s)) @ ascii s)"

definition str_lit :: "string \<Rightarrow> byte_str" where
  "str_lit s = ByteStr (bin_lit s)"

lemma lit_into:
  assumes "length s \<le> 65535"
  shows "binary_from (ascii s) = Ready (bin_lit s)" and "str_from (ascii s) = Ready (str_lit s)"
  using assms by (simp_all add: binary_from_def str_from_def bin_lit_def str_lit_def ascii_def)

text \<open>The helper \<open>topic\<close> and \<open>filter\<close> of the tests: they panic on what is not a topic or filter.\<close>

definition test_topic :: "unicode \<Rightarrow> string \<Rightarrow> byte_str topic poll" where
  "test_topic uc s =
     (case str_from (ascii s) of
        Ready t \<Rightarrow> (case topic_new uc str_as_ref t of Inr t \<Rightarrow> Ready t | Inl e \<Rightarrow> Panic ''called `Result::unwrap()` on an `Err` value'')
      | Panic m \<Rightarrow> Panic m
      | Pending \<Rightarrow> Pending
      | Diverges \<Rightarrow> Diverges)"

definition test_filter :: "unicode \<Rightarrow> string \<Rightarrow> byte_str filter poll" where
  "test_filter uc s =
     (case str_from (ascii s) of
        Ready t \<Rightarrow> (case filter_new uc str_as_ref t of Inr f \<Rightarrow> Ready f | Inl e \<Rightarrow> Panic ''called `Result::unwrap()` on an `Err` value'')
      | Panic m \<Rightarrow> Panic m
      | Pending \<Rightarrow> Pending
      | Diverges \<Rightarrow> Diverges)"

section \<open>When a vector passes\<close>

lemma run_puts_done:
  "run_puts test_try_put_slice test_put_shared test_put_done (ps @ [PutDone]) a = (a', None) \<Longrightarrow> \<not> put_done_required a'"
proof (induction ps arbitrary: a)
  case (Cons p ps)
  then show ?case by (cases p) (auto split: prod.splits bool.splits)
qed (auto simp: test_put_done_def)

lemma test_try_encode_ok:
  assumes "packet_ok uc v p" and "utf8_ascii uc" and "length (enc_bytes (packet_body v p)) < varint_limit"
  shows "test_try_encode v p = Ready (Inr (enc_bytes (packet_encode v p)))"
proof -
  let ?e = "packet_encode v p"
  note none = packet_encode_bytes(1) [OF assms] and bytes = packet_encode_bytes(2) [OF assms]
  obtain a where a: "run_enc test_try_put_slice test_put_shared test_put_done ?e (test_with_capacity (slice_bytes ?e)) = (a, None)"
    "test_inner a = enc_bytes ?e"
    using test_run_exact [OF none, of "slice_bytes ?e"] by auto
  obtain ps where ps: "fst ?e = ps @ [PutDone]"
    using none packet_body_None [OF assms(1,2)] encode_remaining_length_bytes [OF assms(3)]
    by (auto simp: packet_encode_def encode_inner_def byte_count_all enc_then_def put_done_def put_u8_def put_slice_def)
  have "\<not> put_done_required a"
    using a(1) run_puts_done [of ps "test_with_capacity (slice_bytes ?e)"] ps
    by (auto simp: run_enc_def split: prod.splits option.splits)
  moreover have "enc_bytes ?e \<noteq> []" using bytes by simp
  ultimately show ?thesis
    using a none by (simp add: test_try_encode_def byte_count_slices test_to_iovecs_def)
qed

lemma encode_decode_passes:
  assumes "packet_ok uc v p" and "utf8_ascii uc" and "length (enc_bytes (packet_body v p)) < varint_limit"
    and "expected = None \<or> expected = Some (enc_bytes (packet_encode v p))"
  shows "encode_decode uc v p expected = Ready ()"
proof -
  have "packet_decode_full uc v (enc_bytes (packet_encode v p)) = Inr p"
    by (rule packet_full_roundtrip [OF assms(1,2) packet_encode_bytes(1) [OF assms(1,2,3)]])
  then show ?thesis
    using assms(4) test_try_encode_ok [OF assms(1-3)] by (auto simp: encode_decode_def test_encode_def test_decode_def)
qed

section \<open>Evaluating a vector\<close>

text \<open>
  What the tests write as literals is printable ASCII, which every UTF-8 decoder reads alike; so the
  vectors are evaluated for every decoder that does.
\<close>

definition printable :: "string \<Rightarrow> bool" where
  "printable s \<longleftrightarrow> length s \<le> 65535 \<and> list_all (\<lambda>c. 32 \<le> unat (of_char c :: u8) \<and> unat (of_char c :: u8) < 127) s"

definition vector_ok :: "unicode \<Rightarrow> protocol_version \<Rightarrow> packet \<times> bytes option \<Rightarrow> bool" where
  "vector_ok uc v x \<longleftrightarrow>
     packet_ok uc v (fst x) \<and> length (enc_bytes (packet_body v (fst x))) < varint_limit \<and>
     (snd x = None \<or> snd x = Some (enc_bytes (packet_encode v (fst x))))"

lemma lit_simps [simp]:
  "bd_shared (bin_lit s) = be16 (of_nat (length s)) @ ascii s"
  "bs_binary (str_lit s) = bin_lit s"
  "length (ascii s) = length s"
  by (simp_all add: bin_lit_def str_lit_def ascii_def)

lemma ascii_simps [simp]: "ascii [] = []" "ascii (c # s) = of_char c # ascii s"
  by (simp_all add: ascii_def)

lemma lit_as_ref [simp]: "binary_as_bytes (bin_lit s) = ascii s" "str_as_ref (str_lit s) = ascii s"
  by (simp_all add: bin_lit_def str_lit_def str_as_ref_def)

lemma bin_lit_ok [simp]: "length s \<le> 65535 \<Longrightarrow> binary_ok (bin_lit s)"
  unfolding bin_lit_def using binary_ok_prefixed [of "ascii s"] by simp

lemma str_lit_ok:
  assumes "utf8_ascii uc" and "printable s"
  shows "str_ok uc (str_lit s)"
  using assms validate_ascii [OF assms(1), of "ascii s"]
  by (auto simp: str_ok_def printable_def list_all_iff ascii_def[of s])

lemma topic_lit_ok:
  assumes "utf8_ascii uc" and "printable s" and "s \<noteq> []" and "\<not> contains_wildcard (ascii s)"
  shows "topic_ok uc (Topic (str_lit s))"
  using assms str_lit_ok [OF assms(1,2)]
  by (auto simp: topic_ok_def topic_new_def str_ok_def printable_def ascii_def)

lemma encode_all_small:
  assumes "list_all (property_ok uc) ps" and "length (property_bytes ps) < 128"
  shows "snd (encode_all ps) = None" and "enc_bytes (encode_all ps) = of_nat (length (property_bytes ps)) # property_bytes ps"
  using encode_all_parts [OF assms(1)] assms(2) by (simp_all add: varint_small)

lemma packet_encode_small:
  assumes "utf8_ascii uc" and "packet_ok uc v p" and "length (enc_bytes (packet_body v p)) < 128"
  shows "enc_bytes (packet_encode v p) =
    (packet_type p OR packet_flags p) # of_nat (length (enc_bytes (packet_body v p))) # enc_bytes (packet_body v p)"
  using packet_encode_bytes(2) [OF assms(2,1)] assms(3) by (simp add: varint_small)


lemma filter_new_lit:
  assumes "utf8_ascii uc" and "printable s" and "s \<noteq> []"
  shows "filter_new uc str_as_ref (str_lit s) =
    and_then (filter_classify (ascii s)) (\<lambda>(kind, f).
      if f = [] then Inl EmptyFilter
      else if parse_filter PsSeparator f then Inr \<lparr>filter_inner = str_lit s, filter_kind = kind\<rparr>
      else Inl (InvalidFilter f))"
  using assms str_lit_ok [OF assms(1,2)] by (auto simp: filter_new_def str_ok_def printable_def ascii_def)

lemma regular_filter_lit_ok:
  assumes "utf8_ascii uc" and "printable s" and "s \<noteq> []" and "hd (ascii s) \<noteq> DOLLAR_SIGN" and "parse_filter PsSeparator (ascii s)"
  shows "filter_ok uc \<lparr>filter_inner = str_lit s, filter_kind = Regular\<rparr>"
  using assms str_lit_ok [OF assms(1,2)] filter_new_lit [OF assms(1-3)]
  by (auto simp: filter_ok_def filter_classify_def ascii_def)

lemma encode_varint_small:
  assumes "unat v < 128"
  shows "snd (encode_varint v) = None" and "enc_bytes (encode_varint v) = [of_nat (unat v)]"
  using encode_varint_bytes [of v] assms by (simp_all add: varint_small)

lemmas ack_evals = puback_ok_def pubrec_ok_def pubrel_ok_def pubcomp_ok_def suback_ok_def unsuback_ok_def ack_ok_def
  puback_encode_def pubrec_encode_def pubrel_encode_def pubcomp_encode_def suback_encode_def unsuback_encode_def encode_ack_def
  ack_properties_ok_def ack_properties_def encode_ack_properties_def ack_other_properties_default_def
lemmas message_evals = publish_ok_def publish_encode_def publish_properties_def publish_flags_def publish_other_properties_default_def
  subscribe_ok_def subscribe_encode_def filter_is_shared_def filter_encode_def options_ok_def subscribe_properties_def subscribe_properties_encode_def subscribe_to_encode_def
  subscribe_options_default_def options_encode_def subscribe_options_byte_def unsubscribe_ok_def unsubscribe_encode_def
lemmas connection_evals = auth_ok_def auth_properties_def auth_encode_def authentication_into_parts_def disconnect_ok_def disconnect_encode_def
  disconnect_properties_def disconnect_other_properties_default_def connack_ok_def connack_encode_def connack_properties_def
  conn_ack_other_properties_default_def connect_ok_def connect_encode_def connect_properties_def will_properties_def encode_will_def
  will_ok_def enc_opt_def connect_other_properties_default_def publication_other_properties_default_def
  PROTOCOL_NAME_def connect_code_to_u8_def pingreq_encode_def pingresp_encode_def
lemmas table_evals = code_to_u8_def pub_ack_table_def pub_rec_table_def pub_rel_table_def pub_comp_table_def subscribe_table_def
  unsub_ack_table_def authenticate_table_def qos_table_def retain_handling_table_def connection_refused_table_def disconnect_table_def
lemmas small_evals = vector_ok_def be16_def be32_def packet_flags_def printable_def
  enc_when_def Let_def opt_prop_def contains_wildcard_def wildcard_defs is_v5_def is_v3_def keep_alive_from_u16_def
  encode_session_expiry_def binary_is_empty_def encode_varint_small parse_step_def


text \<open>Whoever reads ASCII as it is has the vectors below; the tables of the witnesses do.\<close>

locale ascii_tables =
  fixes uc :: unicode
  assumes ascii: "utf8_ascii uc"
begin

lemmas evals = encode_all_small [where uc = uc] packet_encode_small [OF ascii] str_lit_ok [OF ascii] topic_lit_ok [OF ascii]
  regular_filter_lit_ok [OF ascii] small_evals

lemma vectors_pass:
  assumes "list_all (vector_ok uc v) xs"
  shows "list_all (\<lambda>(packet, expected). encode_decode uc v packet expected = Ready ()) xs"
proof -
  have "encode_decode uc v (fst x) (snd x) = Ready ()" if "vector_ok uc v x" for x
    using that encode_decode_passes [of uc v "fst x" "snd x"] ascii by (simp add: vector_ok_def)
  with assms show ?thesis by (auto simp: list_all_iff split_beta)
qed

lemma lit_topic_filter:
  "printable s \<Longrightarrow> s \<noteq> [] \<Longrightarrow> \<not> contains_wildcard (ascii s) \<Longrightarrow> test_topic uc s = Ready (Topic (str_lit s))"
  "printable s \<Longrightarrow> s \<noteq> [] \<Longrightarrow> hd (ascii s) \<noteq> DOLLAR_SIGN \<Longrightarrow> parse_filter PsSeparator (ascii s) \<Longrightarrow>
     test_filter uc s = Ready \<lparr>filter_inner = str_lit s, filter_kind = Regular\<rparr>"
  using topic_lit_ok [OF ascii, of s] regular_filter_lit_ok [OF ascii, of s]
  by (auto simp: test_topic_def test_filter_def lit_into printable_def topic_ok_def filter_ok_def)

end

interpretation ascii_table: ascii_tables ascii_unicode
  by unfold_locales (rule ascii_unicode_ok(1))

end
