(* ===== verification/Codec_Vectors.thy ===== *)
theory Codec_Vectors
  imports Codec_Tests
begin

text \<open>
  The packets that the tests of src/src/mqtt_proto give to \<open>encode_decode_v3\<close> and \<open>encode_decode_v5\<close>, one list
  per use of the macro, each packet with its expected bytes where the test names them. Every vector passes.
\<close>

section \<open>Vectors\<close>

definition auth_v5_vectors :: "(packet \<times> bytes option) list" where
  "auth_v5_vectors =
     [(AuthPacket \<lparr>auth_reason_code = AuthSuccess, auth_authentication = Some \<lparr>authentication_method =
       str_lit ''foo'', authentication_data = Some (bin_lit ''foo'')\<rparr>, auth_reason_string = Some (str_lit
       ''foo''), auth_user_properties = [(str_lit ''foo'', str_lit ''bar'')]\<rparr>, None),
      (AuthPacket \<lparr>auth_reason_code = ContinueAuthentication, auth_authentication = Some
       \<lparr>authentication_method = str_lit ''foo'', authentication_data = None\<rparr>, auth_reason_string = None,
       auth_user_properties = []\<rparr>, None),
      (AuthPacket \<lparr>auth_reason_code = ReAuthenticate, auth_authentication = Some \<lparr>authentication_method
       = str_lit ''foo'', authentication_data = None\<rparr>, auth_reason_string = None, auth_user_properties =
       []\<rparr>, None),
      (AuthPacket \<lparr>auth_reason_code = ReAuthenticate, auth_authentication = None, auth_reason_string = Some
       (str_lit ''foo''), auth_user_properties = []\<rparr>, None)]"

definition connack_v3_vectors :: "(packet \<times> bytes option) list" where
  "connack_v3_vectors =
     [(ConnAckPacket \<lparr>connack_reason_code = ConnectSuccess True, connack_other_properties =
       conn_ack_other_properties_default\<rparr>, None),
      (ConnAckPacket \<lparr>connack_reason_code = ConnectSuccess False, connack_other_properties =
       conn_ack_other_properties_default\<rparr>, None),
      (ConnAckPacket \<lparr>connack_reason_code = ConnectRefused UnsupportedProtocolVersion,
       connack_other_properties = conn_ack_other_properties_default\<rparr>, None),
      (ConnAckPacket \<lparr>connack_reason_code = ConnectRefused ClientIdentifierNotValid, connack_other_properties
       = conn_ack_other_properties_default\<rparr>, None),
      (ConnAckPacket \<lparr>connack_reason_code = ConnectRefused ServerUnavailable, connack_other_properties =
       conn_ack_other_properties_default\<rparr>, None),
      (ConnAckPacket \<lparr>connack_reason_code = ConnectRefused BadUserNameOrPassword, connack_other_properties =
       conn_ack_other_properties_default\<rparr>, None),
      (ConnAckPacket \<lparr>connack_reason_code = ConnectRefused RefusedNotAuthorized, connack_other_properties =
       conn_ack_other_properties_default\<rparr>, None)]"

definition connack_v5_vectors :: "(packet \<times> bytes option) list" where
  "connack_v5_vectors =
     [(ConnAckPacket \<lparr>connack_reason_code = ConnectSuccess True, connack_other_properties =
       \<lparr>connack_session_expiry_interval = None, connack_receive_maximum = - 1, connack_maximum_qos =
       ExactlyOnce, connack_retain_available = True, connack_maximum_packet_size = - 1, connack_assigned_client_id =
       None, connack_topic_alias_maximum = 0, connack_reason_string = None, connack_user_properties = [],
       connack_wildcard_subscription_available = True, connack_shared_subscription_available = True,
       connack_subscription_identifiers_available = True, connack_server_keep_alive = None,
       connack_response_information = None, connack_server_reference = None, connack_authentication =
       None\<rparr>\<rparr>, None),
      (ConnAckPacket \<lparr>connack_reason_code = ConnectSuccess True, connack_other_properties =
       \<lparr>connack_session_expiry_interval = Some ExpiryInfinite, connack_receive_maximum = - 1,
       connack_maximum_qos = ExactlyOnce, connack_retain_available = True, connack_maximum_packet_size = - 1,
       connack_assigned_client_id = None, connack_topic_alias_maximum = 0, connack_reason_string = None,
       connack_user_properties = [], connack_wildcard_subscription_available = True,
       connack_shared_subscription_available = True, connack_subscription_identifiers_available = True,
       connack_server_keep_alive = None, connack_response_information = None, connack_server_reference = None,
       connack_authentication = None\<rparr>\<rparr>, None),
      (ConnAckPacket \<lparr>connack_reason_code = ConnectSuccess True, connack_other_properties =
       \<lparr>connack_session_expiry_interval = None, connack_receive_maximum = - 1, connack_maximum_qos =
       ExactlyOnce, connack_retain_available = True, connack_maximum_packet_size = - 1, connack_assigned_client_id =
       None, connack_topic_alias_maximum = 0, connack_reason_string = None, connack_user_properties = [],
       connack_wildcard_subscription_available = False, connack_shared_subscription_available = False,
       connack_subscription_identifiers_available = False, connack_server_keep_alive = None,
       connack_response_information = None, connack_server_reference = None, connack_authentication =
       None\<rparr>\<rparr>, None),
      (ConnAckPacket \<lparr>connack_reason_code = ConnectSuccess True, connack_other_properties =
       \<lparr>connack_session_expiry_interval = None, connack_receive_maximum = - 1, connack_maximum_qos =
       AtMostOnce, connack_retain_available = True, connack_maximum_packet_size = - 1, connack_assigned_client_id =
       None, connack_topic_alias_maximum = 0, connack_reason_string = None, connack_user_properties = [],
       connack_wildcard_subscription_available = True, connack_shared_subscription_available = True,
       connack_subscription_identifiers_available = True, connack_server_keep_alive = None,
       connack_response_information = None, connack_server_reference = None, connack_authentication =
       None\<rparr>\<rparr>, None),
      (ConnAckPacket \<lparr>connack_reason_code = ConnectSuccess True, connack_other_properties =
       \<lparr>connack_session_expiry_interval = None, connack_receive_maximum = 1, connack_maximum_qos = ExactlyOnce,
       connack_retain_available = True, connack_maximum_packet_size = 1, connack_assigned_client_id = None,
       connack_topic_alias_maximum = 0, connack_reason_string = None, connack_user_properties = [],
       connack_wildcard_subscription_available = True, connack_shared_subscription_available = True,
       connack_subscription_identifiers_available = True, connack_server_keep_alive = None,
       connack_response_information = None, connack_server_reference = None, connack_authentication =
       None\<rparr>\<rparr>, None),
      (ConnAckPacket \<lparr>connack_reason_code = ConnectSuccess True, connack_other_properties =
       \<lparr>connack_session_expiry_interval = None, connack_receive_maximum = - 1, connack_maximum_qos =
       ExactlyOnce, connack_retain_available = True, connack_maximum_packet_size = - 1, connack_assigned_client_id =
       None, connack_topic_alias_maximum = 10, connack_reason_string = None, connack_user_properties = [],
       connack_wildcard_subscription_available = True, connack_shared_subscription_available = True,
       connack_subscription_identifiers_available = True, connack_server_keep_alive = None,
       connack_response_information = None, connack_server_reference = None, connack_authentication =
       None\<rparr>\<rparr>, None),
      (ConnAckPacket \<lparr>connack_reason_code = ConnectSuccess True, connack_other_properties =
       \<lparr>connack_session_expiry_interval = None, connack_receive_maximum = - 1, connack_maximum_qos =
       ExactlyOnce, connack_retain_available = True, connack_maximum_packet_size = - 1, connack_assigned_client_id =
       None, connack_topic_alias_maximum = 0, connack_reason_string = None, connack_user_properties = [(str_lit
       ''key'', str_lit ''value'')], connack_wildcard_subscription_available = True,
       connack_shared_subscription_available = True, connack_subscription_identifiers_available = True,
       connack_server_keep_alive = None, connack_response_information = None, connack_server_reference = None,
       connack_authentication = None\<rparr>\<rparr>, None)]"

definition connect_v3_vectors :: "(packet \<times> bytes option) list" where
  "connect_v3_vectors =
     [(ConnectPacket \<lparr>connect_username = None, connect_password = None, connect_will = None, connect_client_id
       = Some (str_lit ''kittens''), connect_clean_start = False, connect_keep_alive = keep_alive_from_u16 30,
       connect_other_properties = (connect_other_properties_default\<lparr>connect_session_expiry_interval :=
       ExpiryInfinite\<rparr>)\<rparr>, None),
      (ConnectPacket \<lparr>connect_username = None, connect_password = None, connect_will = None, connect_client_id
       = None, connect_clean_start = True, connect_keep_alive = keep_alive_from_u16 30, connect_other_properties =
       (connect_other_properties_default\<lparr>connect_session_expiry_interval := ExpiryDuration 0\<rparr>)\<rparr>,
       None),
      (ConnectPacket \<lparr>connect_username = None, connect_password = None, connect_will = Some
       (\<lparr>publication_topic_name = Topic (str_lit ''foo/bar''), publication_qos = AtLeastOnce,
       publication_retain = True, publication_payload = ascii ''hello world'', publication_other_properties =
       \<lparr>publication_payload_is_utf8 = False, publication_message_expiry_interval = None,
       publication_response_topic = None, publication_correlation_data = None, publication_user_properties = [],
       publication_content_type = None\<rparr>\<rparr>, 0), connect_client_id = Some (str_lit ''kittens''),
       connect_clean_start = True, connect_keep_alive = keep_alive_from_u16 30, connect_other_properties =
       connect_other_properties_default\<rparr>, None)]"

definition connect_v5_vectors :: "(packet \<times> bytes option) list" where
  "connect_v5_vectors =
     [(ConnectPacket \<lparr>connect_username = None, connect_password = None, connect_will = None, connect_client_id
       = None, connect_clean_start = True, connect_keep_alive = keep_alive_from_u16 10, connect_other_properties =
       \<lparr>connect_session_expiry_interval = ExpiryDuration 0, connect_receive_maximum = 11,
       connect_maximum_packet_size = 10, connect_topic_alias_maximum = 10, connect_request_response_information =
       True, connect_request_problem_information = True, connect_user_properties = [], connect_authentication =
       None\<rparr>\<rparr>, None),
      (ConnectPacket \<lparr>connect_username = None, connect_password = None, connect_will = None, connect_client_id
       = None, connect_clean_start = False, connect_keep_alive = keep_alive_from_u16 10, connect_other_properties =
       \<lparr>connect_session_expiry_interval = ExpiryDuration 0, connect_receive_maximum = 11,
       connect_maximum_packet_size = 10, connect_topic_alias_maximum = 10, connect_request_response_information =
       True, connect_request_problem_information = True, connect_user_properties = [], connect_authentication =
       None\<rparr>\<rparr>, None),
      (ConnectPacket \<lparr>connect_username = None, connect_password = None, connect_will = None, connect_client_id
       = Some (str_lit ''client_id''), connect_clean_start = True, connect_keep_alive = keep_alive_from_u16 10,
       connect_other_properties = \<lparr>connect_session_expiry_interval = ExpiryDuration 0, connect_receive_maximum
       = 11, connect_maximum_packet_size = 10, connect_topic_alias_maximum = 10, connect_request_response_information
       = True, connect_request_problem_information = True, connect_user_properties = [], connect_authentication =
       None\<rparr>\<rparr>, None),
      (ConnectPacket \<lparr>connect_username = Some (str_lit ''username''), connect_password = Some (bin_lit
       ''password''), connect_will = Some (\<lparr>publication_topic_name = Topic (str_lit ''topic''), publication_qos
       = AtLeastOnce, publication_retain = True, publication_payload = ascii ''payload'', publication_other_properties
       = \<lparr>publication_payload_is_utf8 = True, publication_message_expiry_interval = Some 10,
       publication_response_topic = Some (Topic (str_lit ''response'')), publication_correlation_data = Some (bin_lit
       ''correlation''), publication_user_properties = [(str_lit ''foo'', str_lit ''bar'')], publication_content_type
       = Some (str_lit ''content'')\<rparr>\<rparr>, 10), connect_client_id = Some (str_lit ''client_id''),
       connect_clean_start = False, connect_keep_alive = keep_alive_from_u16 10, connect_other_properties =
       \<lparr>connect_session_expiry_interval = ExpiryDuration 30, connect_receive_maximum = 11,
       connect_maximum_packet_size = 10, connect_topic_alias_maximum = 10, connect_request_response_information =
       True, connect_request_problem_information = True, connect_user_properties = [(str_lit ''foo'', str_lit
       ''bar'')], connect_authentication = Some \<lparr>authentication_method = str_lit ''method'',
       authentication_data = Some (bin_lit ''data'')\<rparr>\<rparr>\<rparr>, None)]"

definition disconnect_v3_vectors :: "(packet \<times> bytes option) list" where
  "disconnect_v3_vectors =
     [(DisconnectPacket \<lparr>disconnect_reason_code = DisconnectNormal, disconnect_other_properties =
       disconnect_other_properties_default\<rparr>, None)]"

definition disconnect_v5_vectors :: "(packet \<times> bytes option) list" where
  "disconnect_v5_vectors =
     [(DisconnectPacket \<lparr>disconnect_reason_code = DisconnectNormal, disconnect_other_properties =
       \<lparr>disconnect_session_expiry_interval = Some (ExpiryDuration 0), disconnect_reason_string = Some (str_lit
       ''just cause''), disconnect_user_properties = [(str_lit ''key'', str_lit ''value'')],
       disconnect_server_reference = Some (str_lit ''server'')\<rparr>\<rparr>, None),
      (DisconnectPacket \<lparr>disconnect_reason_code = DisconnectNormal, disconnect_other_properties =
       \<lparr>disconnect_session_expiry_interval = Some (ExpiryDuration 1), disconnect_reason_string = Some (str_lit
       ''just cause''), disconnect_user_properties = [(str_lit ''key'', str_lit ''value'')],
       disconnect_server_reference = Some (str_lit ''server'')\<rparr>\<rparr>, None)]"

definition pingreq_v3_vectors :: "(packet \<times> bytes option) list" where
  "pingreq_v3_vectors =
     [(PingReqPacket, None)]"

definition pingreq_v5_vectors :: "(packet \<times> bytes option) list" where
  "pingreq_v5_vectors =
     [(PingReqPacket, None)]"

definition pingresp_v3_vectors :: "(packet \<times> bytes option) list" where
  "pingresp_v3_vectors =
     [(PingRespPacket, None)]"

definition pingresp_v5_vectors :: "(packet \<times> bytes option) list" where
  "pingresp_v5_vectors =
     [(PingRespPacket, None)]"

definition puback_v3_vectors :: "(packet \<times> bytes option) list" where
  "puback_v3_vectors =
     [(PubAckPacket \<lparr>puback_packet_identifier = 0x1234, puback_reason_code = PubAckSuccess,
       puback_other_properties = ack_other_properties_default\<rparr>, Some [0x40, 0x02, 0x12, 0x34])]"

definition puback_v5_vectors :: "(packet \<times> bytes option) list" where
  "puback_v5_vectors =
     [(PubAckPacket \<lparr>puback_packet_identifier = 0x1234, puback_reason_code = PubAckSuccess,
       puback_other_properties = ack_other_properties_default\<rparr>, Some [0x40, 0x02, 0x12, 0x34]),
      (PubAckPacket \<lparr>puback_packet_identifier = 0x1234, puback_reason_code = PubAckSuccess,
       puback_other_properties = \<lparr>ack_reason_string = Some (str_lit ''foo''), ack_user_properties = [(str_lit
       ''bar'', str_lit ''baz'')]\<rparr>\<rparr>, Some [0x40, 0x15, 0x12, 0x34, 0x00, 0x11, 0x1F, 0x00, 0x03, 0x66,
       0x6F, 0x6F, 0x26, 0x00, 0x03, 0x62, 0x61, 0x72, 0x00, 0x03, 0x62, 0x61, 0x7A]),
      (PubAckPacket \<lparr>puback_packet_identifier = 0x1234, puback_reason_code = PubAckNoMatchingSubscribers,
       puback_other_properties = ack_other_properties_default\<rparr>, Some [0x40, 0x03, 0x12, 0x34, 0x10]),
      (PubAckPacket \<lparr>puback_packet_identifier = 0x1234, puback_reason_code = PubAckNoMatchingSubscribers,
       puback_other_properties = \<lparr>ack_reason_string = Some (str_lit ''foo''), ack_user_properties = [(str_lit
       ''bar'', str_lit ''baz'')]\<rparr>\<rparr>, Some [0x40, 0x15, 0x12, 0x34, 0x10, 0x11, 0x1F, 0x00, 0x03, 0x66,
       0x6F, 0x6F, 0x26, 0x00, 0x03, 0x62, 0x61, 0x72, 0x00, 0x03, 0x62, 0x61, 0x7A]),
      (PubAckPacket \<lparr>puback_packet_identifier = 0x1234, puback_reason_code = PubAckUnspecifiedError,
       puback_other_properties = ack_other_properties_default\<rparr>, Some [0x40, 0x03, 0x12, 0x34, 0x80]),
      (PubAckPacket \<lparr>puback_packet_identifier = 0x1234, puback_reason_code = PubAckUnspecifiedError,
       puback_other_properties = \<lparr>ack_reason_string = Some (str_lit ''foo''), ack_user_properties = [(str_lit
       ''bar'', str_lit ''baz'')]\<rparr>\<rparr>, Some [0x40, 0x15, 0x12, 0x34, 0x80, 0x11, 0x1F, 0x00, 0x03, 0x66,
       0x6F, 0x6F, 0x26, 0x00, 0x03, 0x62, 0x61, 0x72, 0x00, 0x03, 0x62, 0x61, 0x7A]),
      (PubAckPacket \<lparr>puback_packet_identifier = 0x1234, puback_reason_code =
       PubAckImplementationSpecificError, puback_other_properties = ack_other_properties_default\<rparr>, None),
      (PubAckPacket \<lparr>puback_packet_identifier = 0x1234, puback_reason_code = PubAckNotAuthorized,
       puback_other_properties = ack_other_properties_default\<rparr>, None),
      (PubAckPacket \<lparr>puback_packet_identifier = 0x1234, puback_reason_code = PubAckTopicNameInvalid,
       puback_other_properties = ack_other_properties_default\<rparr>, None),
      (PubAckPacket \<lparr>puback_packet_identifier = 0x1234, puback_reason_code = PubAckPacketIdentifierInUse,
       puback_other_properties = ack_other_properties_default\<rparr>, None),
      (PubAckPacket \<lparr>puback_packet_identifier = 0x1234, puback_reason_code = PubAckQuotaExceeded,
       puback_other_properties = ack_other_properties_default\<rparr>, None),
      (PubAckPacket \<lparr>puback_packet_identifier = 0x1234, puback_reason_code = PubAckPayloadFormatInvalid,
       puback_other_properties = ack_other_properties_default\<rparr>, None)]"

definition pubrec_v3_vectors :: "(packet \<times> bytes option) list" where
  "pubrec_v3_vectors =
     [(PubRecPacket \<lparr>pubrec_packet_identifier = 0x1234, pubrec_reason_code = PubRecSuccess,
       pubrec_other_properties = ack_other_properties_default\<rparr>, Some [0x50, 0x02, 0x12, 0x34])]"

definition pubrec_v5_vectors :: "(packet \<times> bytes option) list" where
  "pubrec_v5_vectors =
     [(PubRecPacket \<lparr>pubrec_packet_identifier = 0x1234, pubrec_reason_code = PubRecSuccess,
       pubrec_other_properties = ack_other_properties_default\<rparr>, Some [0x50, 0x02, 0x12, 0x34]),
      (PubRecPacket \<lparr>pubrec_packet_identifier = 0x1234, pubrec_reason_code = PubRecSuccess,
       pubrec_other_properties = \<lparr>ack_reason_string = Some (str_lit ''foo''), ack_user_properties = [(str_lit
       ''bar'', str_lit ''baz'')]\<rparr>\<rparr>, Some [0x50, 0x15, 0x12, 0x34, 0x00, 0x11, 0x1F, 0x00, 0x03, 0x66,
       0x6F, 0x6F, 0x26, 0x00, 0x03, 0x62, 0x61, 0x72, 0x00, 0x03, 0x62, 0x61, 0x7A]),
      (PubRecPacket \<lparr>pubrec_packet_identifier = 0x1234, pubrec_reason_code = PubRecNoMatchingSubscribers,
       pubrec_other_properties = ack_other_properties_default\<rparr>, Some [0x50, 0x03, 0x12, 0x34, 0x10]),
      (PubRecPacket \<lparr>pubrec_packet_identifier = 0x1234, pubrec_reason_code = PubRecNoMatchingSubscribers,
       pubrec_other_properties = \<lparr>ack_reason_string = Some (str_lit ''foo''), ack_user_properties = [(str_lit
       ''bar'', str_lit ''baz'')]\<rparr>\<rparr>, Some [0x50, 0x15, 0x12, 0x34, 0x10, 0x11, 0x1F, 0x00, 0x03, 0x66,
       0x6F, 0x6F, 0x26, 0x00, 0x03, 0x62, 0x61, 0x72, 0x00, 0x03, 0x62, 0x61, 0x7A])]"

definition pubrel_v3_vectors :: "(packet \<times> bytes option) list" where
  "pubrel_v3_vectors =
     [(PubRelPacket \<lparr>pubrel_packet_identifier = 0x1234, pubrel_reason_code = PubRelSuccess,
       pubrel_other_properties = ack_other_properties_default\<rparr>, Some [0x62, 0x02, 0x12, 0x34])]"

definition pubrel_v5_vectors :: "(packet \<times> bytes option) list" where
  "pubrel_v5_vectors =
     [(PubRelPacket \<lparr>pubrel_packet_identifier = 0x1234, pubrel_reason_code = PubRelSuccess,
       pubrel_other_properties = ack_other_properties_default\<rparr>, Some [0x62, 0x02, 0x12, 0x34]),
      (PubRelPacket \<lparr>pubrel_packet_identifier = 0x1234, pubrel_reason_code = PubRelSuccess,
       pubrel_other_properties = \<lparr>ack_reason_string = Some (str_lit ''foo''), ack_user_properties = [(str_lit
       ''bar'', str_lit ''baz'')]\<rparr>\<rparr>, Some [0x62, 0x15, 0x12, 0x34, 0x00, 0x11, 0x1F, 0x00, 0x03, 0x66,
       0x6F, 0x6F, 0x26, 0x00, 0x03, 0x62, 0x61, 0x72, 0x00, 0x03, 0x62, 0x61, 0x7A]),
      (PubRelPacket \<lparr>pubrel_packet_identifier = 0x1234, pubrel_reason_code = PubRelPacketIdentifierNotFound,
       pubrel_other_properties = ack_other_properties_default\<rparr>, Some [0x62, 0x03, 0x12, 0x34, 0x92]),
      (PubRelPacket \<lparr>pubrel_packet_identifier = 0x1234, pubrel_reason_code = PubRelPacketIdentifierNotFound,
       pubrel_other_properties = \<lparr>ack_reason_string = Some (str_lit ''foo''), ack_user_properties = [(str_lit
       ''bar'', str_lit ''baz'')]\<rparr>\<rparr>, Some [0x62, 0x15, 0x12, 0x34, 0x92, 0x11, 0x1F, 0x00, 0x03, 0x66,
       0x6F, 0x6F, 0x26, 0x00, 0x03, 0x62, 0x61, 0x72, 0x00, 0x03, 0x62, 0x61, 0x7A])]"

definition pubcomp_v3_vectors :: "(packet \<times> bytes option) list" where
  "pubcomp_v3_vectors =
     [(PubCompPacket \<lparr>pubcomp_packet_identifier = 0x1234, pubcomp_reason_code = PubCompSuccess,
       pubcomp_other_properties = ack_other_properties_default\<rparr>, Some [0x70, 0x02, 0x12, 0x34])]"

definition pubcomp_v5_vectors :: "(packet \<times> bytes option) list" where
  "pubcomp_v5_vectors =
     [(PubCompPacket \<lparr>pubcomp_packet_identifier = 0x1234, pubcomp_reason_code = PubCompSuccess,
       pubcomp_other_properties = ack_other_properties_default\<rparr>, Some [0x70, 0x02, 0x12, 0x34]),
      (PubCompPacket \<lparr>pubcomp_packet_identifier = 0x1234, pubcomp_reason_code = PubCompSuccess,
       pubcomp_other_properties = \<lparr>ack_reason_string = Some (str_lit ''foo''), ack_user_properties = [(str_lit
       ''bar'', str_lit ''baz'')]\<rparr>\<rparr>, Some [0x70, 0x15, 0x12, 0x34, 0x00, 0x11, 0x1F, 0x00, 0x03, 0x66,
       0x6F, 0x6F, 0x26, 0x00, 0x03, 0x62, 0x61, 0x72, 0x00, 0x03, 0x62, 0x61, 0x7A]),
      (PubCompPacket \<lparr>pubcomp_packet_identifier = 0x1234, pubcomp_reason_code =
       PubCompPacketIdentifierNotFound, pubcomp_other_properties = ack_other_properties_default\<rparr>, Some [0x70,
       0x03, 0x12, 0x34, 0x92]),
      (PubCompPacket \<lparr>pubcomp_packet_identifier = 0x1234, pubcomp_reason_code =
       PubCompPacketIdentifierNotFound, pubcomp_other_properties = \<lparr>ack_reason_string = Some (str_lit ''foo''),
       ack_user_properties = [(str_lit ''bar'', str_lit ''baz'')]\<rparr>\<rparr>, Some [0x70, 0x15, 0x12, 0x34, 0x92,
       0x11, 0x1F, 0x00, 0x03, 0x66, 0x6F, 0x6F, 0x26, 0x00, 0x03, 0x62, 0x61, 0x72, 0x00, 0x03, 0x62, 0x61, 0x7A])]"

definition publish_v3_vectors :: "(packet \<times> bytes option) list" where
  "publish_v3_vectors =
     [(PublishPacket \<lparr>publish_topic_name = Topic (str_lit ''foo/bar''), packet_identifier_dup_qos =
       PdqAtLeastOnce 1 False, publish_retain = False, publish_payload = ascii ''hello world'',
       publish_other_properties = publish_other_properties_default\<rparr>, None)]"

definition publish_v5_vectors :: "(packet \<times> bytes option) list" where
  "publish_v5_vectors =
     [(PublishPacket \<lparr>publish_topic_name = Topic (str_lit ''foo/bar''), packet_identifier_dup_qos =
       PdqAtMostOnce, publish_retain = False, publish_payload = ascii ''hello world'', publish_other_properties =
       (publish_other_properties_default\<lparr>publish_user_properties := [(str_lit ''hello'', str_lit
       ''world'')]\<rparr>)\<rparr>, None),
      (PublishPacket \<lparr>publish_topic_name = Topic (str_lit ''foo/bar''), packet_identifier_dup_qos =
       PdqAtLeastOnce 1 False, publish_retain = False, publish_payload = ascii ''hello world'',
       publish_other_properties = (publish_other_properties_default\<lparr>publish_user_properties := [(str_lit
       ''hello'', str_lit ''world'')]\<rparr>)\<rparr>, None),
      (PublishPacket \<lparr>publish_topic_name = Topic (str_lit ''foo/bar''), packet_identifier_dup_qos =
       PdqExactlyOnce 1 False, publish_retain = False, publish_payload = ascii ''hello world'',
       publish_other_properties = (publish_other_properties_default\<lparr>publish_user_properties := [(str_lit
       ''hello'', str_lit ''world'')]\<rparr>)\<rparr>, None),
      (PublishPacket \<lparr>publish_topic_name = Topic (str_lit ''foo/bar''), packet_identifier_dup_qos =
       PdqAtLeastOnce 1 False, publish_retain = False, publish_payload = ascii ''hello world'',
       publish_other_properties = \<lparr>publish_payload_is_utf8 = True, publish_message_expiry_interval = Some 10,
       publish_topic_alias = Some 16, publish_response_topic = Some (Topic (str_lit ''response/topic'')),
       publish_correlation_data = Some (bin_lit ''cd''), publish_user_properties = [(str_lit ''hello'', str_lit
       ''world'')], publish_subscription_identifiers = [1, 2], publish_content_type = Some (str_lit
       ''stuff'')\<rparr>\<rparr>, None)]"

definition suback_v3_vectors :: "(packet \<times> bytes option) list" where
  "suback_v3_vectors =
     [(SubAckPacket \<lparr>suback_packet_identifier = 1, suback_reason_codes = [GrantedQoS1],
       suback_other_properties = ack_other_properties_default\<rparr>, None)]"

definition suback_v5_vectors :: "(packet \<times> bytes option) list" where
  "suback_v5_vectors =
     [(SubAckPacket \<lparr>suback_packet_identifier = 0x1234, suback_reason_codes = [GrantedQoS0, GrantedQoS1,
       GrantedQoS2, SubUnspecifiedError, SubImplementationSpecificError, SubNotAuthorized, SubTopicFilterInvalid,
       SubPacketIdentifierInUse, SubQuotaExceeded, SubSharedSubscriptionsNotSupported,
       SubSubscriptionIdentifiersNotSupported, SubWildcardSubscriptionsNotSupported], suback_other_properties =
       \<lparr>ack_reason_string = Some (str_lit ''reason''), ack_user_properties = [(str_lit ''foo'', str_lit
       ''bar'')]\<rparr>\<rparr>, None)]"

definition subscribe_v3_vectors :: "(packet \<times> bytes option) list" where
  "subscribe_v3_vectors =
     [(SubscribePacket \<lparr>subscribe_packet_identifier = 1, subscribe_to_list = [\<lparr>topic_filter =
       \<lparr>filter_inner = str_lit ''foo/bar'', filter_kind = Regular\<rparr>, options = \<lparr>maximum_qos =
       AtLeastOnce, options_other_properties = subscribe_options_default\<rparr>\<rparr>], subscribe_other_properties
       = \<lparr>subscription_identifier = None, subscribe_user_properties = []\<rparr>\<rparr>, None)]"

definition subscribe_v5_vectors :: "(packet \<times> bytes option) list" where
  "subscribe_v5_vectors =
     [(SubscribePacket \<lparr>subscribe_packet_identifier = 1, subscribe_to_list = [\<lparr>topic_filter =
       \<lparr>filter_inner = str_lit ''foo/bar'', filter_kind = Regular\<rparr>, options = \<lparr>maximum_qos =
       AtLeastOnce, options_other_properties = \<lparr>no_local = True, retain_as_published = True, retain_handling =
       DoNotSend\<rparr>\<rparr>\<rparr>], subscribe_other_properties = \<lparr>subscription_identifier = Some 1,
       subscribe_user_properties = [(str_lit ''cat'', str_lit ''dog'')]\<rparr>\<rparr>, None)]"

definition unsuback_v3_vectors :: "(packet \<times> bytes option) list" where
  "unsuback_v3_vectors =
     [(UnsubAckPacket \<lparr>unsuback_packet_identifier = 1, unsuback_reason_codes = [], unsuback_other_properties =
       ack_other_properties_default\<rparr>, None)]"

definition unsuback_v5_vectors :: "(packet \<times> bytes option) list" where
  "unsuback_v5_vectors =
     [(UnsubAckPacket \<lparr>unsuback_packet_identifier = 0x1234, unsuback_reason_codes = [UnsubSuccess,
       UnsubNoSubscriptionExisted, UnsubUnspecifiedError, UnsubImplementationSpecificError, UnsubNotAuthorized,
       UnsubTopicFilterInvalid, UnsubPacketIdentifierInUse], unsuback_other_properties = \<lparr>ack_reason_string =
       Some (str_lit ''reason''), ack_user_properties = [(str_lit ''foo'', str_lit ''bar'')]\<rparr>\<rparr>, None)]"

definition unsubscribe_v3_vectors :: "(packet \<times> bytes option) list" where
  "unsubscribe_v3_vectors =
     [(UnsubscribePacket \<lparr>unsubscribe_packet_identifier = 1, unsubscribe_from = [\<lparr>filter_inner =
       str_lit ''foo/bar'', filter_kind = Regular\<rparr>], unsubscribe_user_properties = []\<rparr>, None)]"

definition unsubscribe_v5_vectors :: "(packet \<times> bytes option) list" where
  "unsubscribe_v5_vectors =
     [(UnsubscribePacket \<lparr>unsubscribe_packet_identifier = 0x1234, unsubscribe_from = [\<lparr>filter_inner =
       str_lit ''topic'', filter_kind = Regular\<rparr>], unsubscribe_user_properties = [(str_lit ''foo'', str_lit
       ''bar'')]\<rparr>, None)]"

text \<open>The loops over all reason codes of CONNACK and DISCONNECT.\<close>

definition connack_all_the_codes :: "(packet \<times> bytes option) list" where
  "connack_all_the_codes =
     map (\<lambda>code. (ConnAckPacket \<lparr>connack_reason_code = ConnectRefused code,
        connack_other_properties = conn_ack_other_properties_default\<rparr>, None)) (map fst connection_refused_table)"

definition disconnect_all_the_codes :: "(packet \<times> bytes option) list" where
  "disconnect_all_the_codes =
     map (\<lambda>code. (DisconnectPacket \<lparr>disconnect_reason_code = code, disconnect_other_properties =
        \<lparr>disconnect_session_expiry_interval = Some (ExpiryDuration 1), disconnect_reason_string = Some (str_lit ''just cause''),
         disconnect_user_properties = [(str_lit ''key'', str_lit ''value'')],
         disconnect_server_reference = Some (str_lit ''server'')\<rparr>\<rparr>, None)) (map fst disconnect_table)"

definition codec_vectors :: "(protocol_version \<times> packet \<times> bytes option) list" where
  "codec_vectors =
     concat (map (\<lambda>(v, xs). map (\<lambda>x. (v, x)) xs)
       [(V5, auth_v5_vectors), (V3, connack_v3_vectors), (V5, connack_v5_vectors),
        (V3, connect_v3_vectors), (V5, connect_v5_vectors), (V3, disconnect_v3_vectors),
        (V5, disconnect_v5_vectors), (V3, pingreq_v3_vectors), (V5, pingreq_v5_vectors),
        (V3, pingresp_v3_vectors), (V5, pingresp_v5_vectors), (V3, puback_v3_vectors),
        (V5, puback_v5_vectors), (V3, pubrec_v3_vectors), (V5, pubrec_v5_vectors),
        (V3, pubrel_v3_vectors), (V5, pubrel_v5_vectors), (V3, pubcomp_v3_vectors),
        (V5, pubcomp_v5_vectors), (V3, publish_v3_vectors), (V5, publish_v5_vectors),
        (V3, suback_v3_vectors), (V5, suback_v5_vectors), (V3, subscribe_v3_vectors),
        (V5, subscribe_v5_vectors), (V3, unsuback_v3_vectors), (V5, unsuback_v5_vectors),
        (V3, unsubscribe_v3_vectors), (V5, unsubscribe_v5_vectors), (V5, connack_all_the_codes),
        (V5, disconnect_all_the_codes)])"

section \<open>They are well formed and have the expected bytes\<close>

context ascii_tables
begin

lemma auth_v5_vectors_ok: "list_all (vector_ok uc V5) auth_v5_vectors"
  by (simp add: auth_v5_vectors_def evals connection_evals table_evals)

lemma connack_v3_vectors_ok: "list_all (vector_ok uc V3) connack_v3_vectors"
  by (simp add: connack_v3_vectors_def evals connection_evals table_evals)

lemma connack_v5_vectors_ok: "list_all (vector_ok uc V5) connack_v5_vectors"
  by (simp add: connack_v5_vectors_def evals connection_evals table_evals)

lemma connect_v3_vectors_ok: "list_all (vector_ok uc V3) connect_v3_vectors"
  by (simp add: connect_v3_vectors_def evals connection_evals table_evals)

lemma connect_v5_vectors_ok: "list_all (vector_ok uc V5) connect_v5_vectors"
  by (simp add: connect_v5_vectors_def evals connection_evals table_evals)

lemma disconnect_v3_vectors_ok: "list_all (vector_ok uc V3) disconnect_v3_vectors"
  by (simp add: disconnect_v3_vectors_def evals connection_evals table_evals)

lemma disconnect_v5_vectors_ok: "list_all (vector_ok uc V5) disconnect_v5_vectors"
  by (simp add: disconnect_v5_vectors_def evals connection_evals table_evals)

lemma pingreq_v3_vectors_ok: "list_all (vector_ok uc V3) pingreq_v3_vectors"
  by (simp add: pingreq_v3_vectors_def evals connection_evals table_evals)

lemma pingreq_v5_vectors_ok: "list_all (vector_ok uc V5) pingreq_v5_vectors"
  by (simp add: pingreq_v5_vectors_def evals connection_evals table_evals)

lemma pingresp_v3_vectors_ok: "list_all (vector_ok uc V3) pingresp_v3_vectors"
  by (simp add: pingresp_v3_vectors_def evals connection_evals table_evals)

lemma pingresp_v5_vectors_ok: "list_all (vector_ok uc V5) pingresp_v5_vectors"
  by (simp add: pingresp_v5_vectors_def evals connection_evals table_evals)

lemma puback_v3_vectors_ok: "list_all (vector_ok uc V3) puback_v3_vectors"
  by (simp add: puback_v3_vectors_def evals ack_evals table_evals)

lemma puback_v5_vectors_ok: "list_all (vector_ok uc V5) puback_v5_vectors"
  by (simp add: puback_v5_vectors_def evals ack_evals table_evals)

lemma pubrec_v3_vectors_ok: "list_all (vector_ok uc V3) pubrec_v3_vectors"
  by (simp add: pubrec_v3_vectors_def evals ack_evals table_evals)

lemma pubrec_v5_vectors_ok: "list_all (vector_ok uc V5) pubrec_v5_vectors"
  by (simp add: pubrec_v5_vectors_def evals ack_evals table_evals)

lemma pubrel_v3_vectors_ok: "list_all (vector_ok uc V3) pubrel_v3_vectors"
  by (simp add: pubrel_v3_vectors_def evals ack_evals table_evals)

lemma pubrel_v5_vectors_ok: "list_all (vector_ok uc V5) pubrel_v5_vectors"
  by (simp add: pubrel_v5_vectors_def evals ack_evals table_evals)

lemma pubcomp_v3_vectors_ok: "list_all (vector_ok uc V3) pubcomp_v3_vectors"
  by (simp add: pubcomp_v3_vectors_def evals ack_evals table_evals)

lemma pubcomp_v5_vectors_ok: "list_all (vector_ok uc V5) pubcomp_v5_vectors"
  by (simp add: pubcomp_v5_vectors_def evals ack_evals table_evals)

lemma publish_v3_vectors_ok: "list_all (vector_ok uc V3) publish_v3_vectors"
  by (simp add: publish_v3_vectors_def evals message_evals table_evals)

lemma publish_v5_vectors_ok: "list_all (vector_ok uc V5) publish_v5_vectors"
  by (simp add: publish_v5_vectors_def evals message_evals table_evals)

lemma suback_v3_vectors_ok: "list_all (vector_ok uc V3) suback_v3_vectors"
  by (simp add: suback_v3_vectors_def evals ack_evals table_evals)

lemma suback_v5_vectors_ok: "list_all (vector_ok uc V5) suback_v5_vectors"
  by (simp add: suback_v5_vectors_def evals ack_evals table_evals)

lemma subscribe_v3_vectors_ok: "list_all (vector_ok uc V3) subscribe_v3_vectors"
  by (simp add: subscribe_v3_vectors_def evals message_evals table_evals)

lemma subscribe_v5_vectors_ok: "list_all (vector_ok uc V5) subscribe_v5_vectors"
  by (simp add: subscribe_v5_vectors_def evals message_evals table_evals)

lemma unsuback_v3_vectors_ok: "list_all (vector_ok uc V3) unsuback_v3_vectors"
  by (simp add: unsuback_v3_vectors_def evals ack_evals table_evals)

lemma unsuback_v5_vectors_ok: "list_all (vector_ok uc V5) unsuback_v5_vectors"
  by (simp add: unsuback_v5_vectors_def evals ack_evals table_evals)

lemma unsubscribe_v3_vectors_ok: "list_all (vector_ok uc V3) unsubscribe_v3_vectors"
  by (simp add: unsubscribe_v3_vectors_def evals message_evals table_evals)

lemma unsubscribe_v5_vectors_ok: "list_all (vector_ok uc V5) unsubscribe_v5_vectors"
  by (simp add: unsubscribe_v5_vectors_def evals message_evals table_evals)

lemma connack_all_the_codes_ok: "list_all (vector_ok uc V5) connack_all_the_codes"
  by (simp add: connack_all_the_codes_def list_all_iff evals connection_evals)

lemma disconnect_all_the_codes_ok: "list_all (vector_ok uc V5) disconnect_all_the_codes"
  by (simp add: disconnect_all_the_codes_def list_all_iff evals connection_evals)

lemmas vectors_ok = auth_v5_vectors_ok connack_v3_vectors_ok connack_v5_vectors_ok connect_v3_vectors_ok
  connect_v5_vectors_ok disconnect_v3_vectors_ok disconnect_v5_vectors_ok pingreq_v3_vectors_ok pingreq_v5_vectors_ok
  pingresp_v3_vectors_ok pingresp_v5_vectors_ok puback_v3_vectors_ok puback_v5_vectors_ok pubrec_v3_vectors_ok
  pubrec_v5_vectors_ok pubrel_v3_vectors_ok pubrel_v5_vectors_ok pubcomp_v3_vectors_ok pubcomp_v5_vectors_ok
  publish_v3_vectors_ok publish_v5_vectors_ok suback_v3_vectors_ok suback_v5_vectors_ok subscribe_v3_vectors_ok
  subscribe_v5_vectors_ok unsuback_v3_vectors_ok unsuback_v5_vectors_ok unsubscribe_v3_vectors_ok
  unsubscribe_v5_vectors_ok connack_all_the_codes_ok disconnect_all_the_codes_ok

lemma codec_vectors_ok: "list_all (\<lambda>(v, packet, expected). encode_decode uc v packet expected = Ready ()) codec_vectors"
  unfolding codec_vectors_def using vectors_ok [THEN vectors_pass]
  by (simp add: list.pred_map o_def)

end

end
