(* ===== verification/Value_Order.thy ===== *)
theory Value_Order
  imports Mqtt_Strings "HOL-Library.List_Lexorder"
begin

text \<open>
  The orders on keep alive values and session expiry intervals (src/src/mqtt_proto/property.rs), those
  on data and strings (binary_data.rs, byte_str.rs), and the small conversions of reason codes.
\<close>

section \<open>KeepAlive\<close>

datatype ordering = OrderingLess | OrderingEqual | OrderingGreater

definition cmp :: "'a::linorder \<Rightarrow> 'a \<Rightarrow> ordering" where
  "cmp x y = (if x < y then OrderingLess else if x = y then OrderingEqual else OrderingGreater)"

fun keep_alive_cmp :: "keep_alive \<Rightarrow> keep_alive \<Rightarrow> ordering" where
  "keep_alive_cmp KeepAliveInfinite KeepAliveInfinite = OrderingEqual"
| "keep_alive_cmp KeepAliveInfinite (KeepAliveDuration v) = OrderingGreater"
| "keep_alive_cmp (KeepAliveDuration v) KeepAliveInfinite = OrderingLess"
| "keep_alive_cmp (KeepAliveDuration v) (KeepAliveDuration w) = cmp v w"

text \<open>The timeout, in milliseconds: one and a half times the interval, a hundred years without one.\<close>

primrec keep_alive_into_duration :: "keep_alive \<Rightarrow> nat" where
  "keep_alive_into_duration KeepAliveInfinite = 100 * 365 * 24 * 60 * 60 * 1000"
| "keep_alive_into_duration (KeepAliveDuration v) = unat v * 1500"

instantiation keep_alive :: linorder
begin

definition less_eq_keep_alive :: "keep_alive \<Rightarrow> keep_alive \<Rightarrow> bool" where
  "less_eq_keep_alive x y \<longleftrightarrow> keep_alive_cmp x y \<noteq> OrderingGreater"

definition less_keep_alive :: "keep_alive \<Rightarrow> keep_alive \<Rightarrow> bool" where
  "less_keep_alive x y \<longleftrightarrow> keep_alive_cmp x y = OrderingLess"

instance
proof
  fix x y z :: keep_alive
  show "(x < y) = (x \<le> y \<and> \<not> y \<le> x)"
    by (cases x; cases y) (auto simp: less_keep_alive_def less_eq_keep_alive_def cmp_def)
  show "x \<le> x" by (cases x) (auto simp: less_eq_keep_alive_def cmp_def)
  show "x \<le> y \<Longrightarrow> y \<le> z \<Longrightarrow> x \<le> z"
    by (cases x; cases y; cases z) (auto simp: less_eq_keep_alive_def cmp_def split: if_splits)
  show "x \<le> y \<Longrightarrow> y \<le> x \<Longrightarrow> x = y"
    by (cases x; cases y) (auto simp: less_eq_keep_alive_def cmp_def split: if_splits)
  show "x \<le> y \<or> y \<le> x"
    by (cases x; cases y) (auto simp: less_eq_keep_alive_def cmp_def)
qed

end

text \<open>Longer keep alive values are longer timeouts, the infinite one the longest of all.\<close>

lemma keep_alive_order_durations:
  "(x :: keep_alive) \<le> y \<longleftrightarrow> keep_alive_into_duration x \<le> keep_alive_into_duration y"
proof -
  have small: "unat (v :: u16) * 1500 < 100 * 365 * 24 * 60 * 60 * 1000" for v
  proof -
    have "unat v < 2 ^ LENGTH(16)" by (rule unsigned_less)
    then show ?thesis by simp
  qed
  have "\<not> (100 * 365 * 24 * 60 * 60 * 1000 \<le> unat (v :: u16) * 1500)" "unat v * 1500 \<le> 100 * 365 * 24 * 60 * 60 * 1000" for v
    using small [of v] by linarith+
  then show ?thesis
    by (cases x; cases y) (auto simp: less_eq_keep_alive_def cmp_def word_le_nat_alt word_less_nat_alt dest: unsigned_word_eqI split: if_splits)
qed

section \<open>SessionExpiryInterval\<close>

definition session_expiry_cmp :: "session_expiry_interval \<Rightarrow> session_expiry_interval \<Rightarrow> ordering" where
  "session_expiry_cmp x y = cmp (session_expiry_to_u32 x) (session_expiry_to_u32 y)"

text \<open>
  The order is total and transitive but does not agree with equality: the interval of the greatest
  number of seconds and the infinite one differ and compare as equal.
\<close>

instantiation session_expiry_interval :: preorder
begin

definition less_eq_session_expiry_interval :: "session_expiry_interval \<Rightarrow> session_expiry_interval \<Rightarrow> bool" where
  "less_eq_session_expiry_interval x y \<longleftrightarrow> session_expiry_cmp x y \<noteq> OrderingGreater"

definition less_session_expiry_interval :: "session_expiry_interval \<Rightarrow> session_expiry_interval \<Rightarrow> bool" where
  "less_session_expiry_interval x y \<longleftrightarrow> session_expiry_cmp x y = OrderingLess"

instance
  by standard (auto simp: less_eq_session_expiry_interval_def less_session_expiry_interval_def session_expiry_cmp_def
      cmp_def split: if_splits)

end

lemma session_expiry_cmp_Equal_iff:
  "session_expiry_cmp x y = OrderingEqual \<longleftrightarrow>
     x = y \<or> {x, y} = {ExpiryInfinite, ExpiryDuration (- 1)}"
  by (cases x; cases y) (auto simp: session_expiry_cmp_def cmp_def doubleton_eq_iff)

text \<open>On what is read from the wire the order and equality agree.\<close>

lemma session_expiry_cmp_wire:
  "session_expiry_cmp (session_expiry_from_u32 v) (session_expiry_from_u32 w) = OrderingEqual \<longleftrightarrow>
     session_expiry_from_u32 v = session_expiry_from_u32 w"
  by (auto simp: session_expiry_cmp_Equal_iff session_expiry_from_u32_def doubleton_eq_iff)

section \<open>BinaryData and ByteStr\<close>

text \<open>Slices are compared byte by byte, a proper prefix is less; data and strings by their contents without the length.\<close>

fun slice_cmp :: "bytes \<Rightarrow> bytes \<Rightarrow> ordering" where
  "slice_cmp [] [] = OrderingEqual"
| "slice_cmp [] (b # bs) = OrderingLess"
| "slice_cmp (a # as) [] = OrderingGreater"
| "slice_cmp (a # as) (b # bs) = (if a = b then slice_cmp as bs else cmp a b)"

definition binary_cmp :: "binary_data \<Rightarrow> binary_data \<Rightarrow> ordering" where
  "binary_cmp s other = slice_cmp (binary_as_bytes s) (binary_as_bytes other)"

definition binary_eq :: "binary_data \<Rightarrow> binary_data \<Rightarrow> bool" where
  "binary_eq s other \<longleftrightarrow> binary_as_bytes s = binary_as_bytes other"

definition str_cmp :: "byte_str \<Rightarrow> byte_str \<Rightarrow> ordering" where
  "str_cmp s other = slice_cmp (str_as_ref s) (str_as_ref other)"

definition str_eq :: "byte_str \<Rightarrow> byte_str \<Rightarrow> bool" where
  "str_eq s other \<longleftrightarrow> str_as_ref s = str_as_ref other"

text \<open>This is the lexicographic order, so it is linear.\<close>

lemma slice_cmp_lexicographic: "slice_cmp s t = cmp s t"
  by (induction s t rule: slice_cmp.induct) (auto simp: cmp_def)

text \<open>
  Equality and order ignore the stored length, but on data that is well formed they agree with
  equality of all that is stored.
\<close>

lemma be16_of_u16: "be16 (u16_from_be a b) = [a, b]"
proof -
  have "ucast (drop_bit 8 (u16_from_be a b)) = a"
    by (rule bit_word_eqI) (auto simp: u16_from_be_def bit_simps dest: bit_imp_le_length)
  moreover have "ucast (u16_from_be a b) = b"
    by (rule bit_word_eqI) (auto simp: u16_from_be_def bit_simps)
  ultimately show ?thesis by (simp add: be16_def)
qed

lemma binary_eq_iff:
  assumes "binary_ok s" and "binary_ok t"
  shows "binary_eq s t \<longleftrightarrow> s = t" and "binary_cmp s t = OrderingEqual \<longleftrightarrow> s = t"
proof -
  have "s = t" if eq: "binary_as_bytes s = binary_as_bytes t"
  proof -
    obtain a b r where s: "s = BinaryData (a # b # r)" "length r = unat (u16_from_be a b)" using binary_okE [OF assms(1)] .
    obtain a' b' r' where t: "t = BinaryData (a' # b' # r')" "length r' = unat (u16_from_be a' b')" using binary_okE [OF assms(2)] .
    have "r = r'" using eq s t by (simp add: binary_as_bytes_def)
    with s t have "unat (u16_from_be a b) = unat (u16_from_be a' b')" by simp
    then have "u16_from_be a b = u16_from_be a' b'" by (rule unsigned_word_eqI)
    then have "be16 (u16_from_be a b) = be16 (u16_from_be a' b')" by simp
    then have "a = a' \<and> b = b'" by (simp add: be16_of_u16)
    with \<open>r = r'\<close> s t show ?thesis by simp
  qed
  then show "binary_eq s t \<longleftrightarrow> s = t" and "binary_cmp s t = OrderingEqual \<longleftrightarrow> s = t"
    by (auto simp: binary_eq_def binary_cmp_def slice_cmp_lexicographic cmp_def split: if_splits)
qed

section \<open>Reason codes\<close>

definition subscribe_code_is_success :: "subscribe_reason_code \<Rightarrow> bool" where
  "subscribe_code_is_success c = (c \<in> set [GrantedQoS0, GrantedQoS1, GrantedQoS2])"

primrec subscribe_code_of_qos :: "qos \<Rightarrow> subscribe_reason_code" where
  "subscribe_code_of_qos AtMostOnce = GrantedQoS0"
| "subscribe_code_of_qos AtLeastOnce = GrantedQoS1"
| "subscribe_code_of_qos ExactlyOnce = GrantedQoS2"

lemma granted_iff: "subscribe_code_is_success c \<longleftrightarrow> (\<exists>q. c = subscribe_code_of_qos q)"
proof
  show "subscribe_code_is_success c \<Longrightarrow> \<exists>q. c = subscribe_code_of_qos q"
    unfolding subscribe_code_is_success_def by (metis empty_iff empty_set set_ConsD subscribe_code_of_qos.simps)
next
  assume "\<exists>q. c = subscribe_code_of_qos q"
  then obtain q where "c = subscribe_code_of_qos q" by blast
  then show "subscribe_code_is_success c" by (cases q) (simp_all add: subscribe_code_is_success_def)
qed

definition disconnect_new :: "disconnect_reason_code \<Rightarrow> disconnect" where
  "disconnect_new c =
     \<lparr>disconnect_reason_code = c,
      disconnect_other_properties =
        \<lparr>disconnect_session_expiry_interval = None, disconnect_reason_string = None, disconnect_user_properties = [],
         disconnect_server_reference = None\<rparr>\<rparr>"

end
