(* ===== verification/Codec_Cases.thy ===== *)
theory Codec_Cases
  imports Codec_Tests Value_Order
begin

text \<open>
  The tests of src/src/mqtt_proto that are not round trips of a given packet: packets and strings that must be
  refused, wire forms that are read but not written, the variable byte integers and the counter of bytes.
  The few cases with characters outside ASCII are left out, since the UTF-8 decoder is a parameter.
\<close>

unbundle bit_operations_syntax

section \<open>CONNECT\<close>

definition will_flags_cases :: "(bytes \<times> protocol_version) list" where
  "will_flags_cases =
     [([0x10, 0x0C, 0, 4] @ ascii ''MQTT'' @ [0x04, 0x22, 0, 0x0A, 0, 0], V3),
      ([0x10, 0x0C, 0, 4] @ ascii ''MQTT'' @ [0x04, 0x0A, 0, 0x0A, 0, 0], V3),
      ([0x10, 0x0C, 0, 4] @ ascii ''MQTT'' @ [0x04, 0x2A, 0, 0x0A, 0, 0], V3),
      ([0x10, 0x0D, 0, 4] @ ascii ''MQTT'' @ [0x05, 0x22, 0, 0x0A, 0, 0, 0], V5),
      ([0x10, 0x0D, 0, 4] @ ascii ''MQTT'' @ [0x05, 0x0A, 0, 0x0A, 0, 0, 0], V5),
      ([0x10, 0x0D, 0, 4] @ ascii ''MQTT'' @ [0x05, 0x2A, 0, 0x0A, 0, 0, 0], V5)]"

definition will_properties_flags_set_but_not_will_flag :: "unicode \<Rightarrow> bytes \<Rightarrow> protocol_version \<Rightarrow> unit poll" where
  "will_properties_flags_set_but_not_will_flag uc encoding version =
     assert (packet_decode_full uc version encoding = Inl WillPropertiesFlagsSetButNotWillFlag)"

definition password_cases :: "(bytes \<times> protocol_version \<times> bool \<times> bool) list" where
  "password_cases =
     [([0x10, 0x0C, 0, 4] @ ascii ''MQTT'' @ [0x04, 0x02, 0, 0x0A, 0, 0], V3, False, False),
      ([0x10, 0x16, 0, 4] @ ascii ''MQTT'' @ [0x04, 0x42, 0, 0x0A, 0, 0, 0, 8] @ ascii ''password'', V3, False, True),
      ([0x10, 0x16, 0, 4] @ ascii ''MQTT'' @ [0x04, 0x82, 0, 0x0A, 0, 0, 0, 8] @ ascii ''username'', V3, True, False),
      ([0x10, 0x20, 0, 4] @ ascii ''MQTT'' @ [0x04, 0xC2, 0, 0x0A, 0, 0, 0, 8] @ ascii ''username'' @ [0, 8] @ ascii ''password'',
        V3, True, True),
      ([0x10, 0x0D, 0, 4] @ ascii ''MQTT'' @ [0x05, 0x02, 0, 0x0A, 0, 0, 0], V5, False, False),
      ([0x10, 0x17, 0, 4] @ ascii ''MQTT'' @ [0x05, 0x42, 0, 0x0A, 0, 0, 0, 0, 8] @ ascii ''password'', V5, False, True),
      ([0x10, 0x17, 0, 4] @ ascii ''MQTT'' @ [0x05, 0x82, 0, 0x0A, 0, 0, 0, 0, 8] @ ascii ''username'', V5, True, False),
      ([0x10, 0x21, 0, 4] @ ascii ''MQTT'' @ [0x05, 0xC2, 0, 0x0A, 0, 0, 0, 0, 8] @ ascii ''username'' @ [0, 8] @ ascii ''password'',
        V5, True, True)]"

definition password_packet :: "bool \<Rightarrow> bool \<Rightarrow> packet" where
  "password_packet username_present password_present =
     ConnectPacket
       \<lparr>connect_username = (if username_present then Some (str_lit ''username'') else None),
        connect_password = (if password_present then Some (bin_lit ''password'') else None),
        connect_will = None, connect_client_id = None, connect_clean_start = True,
        connect_keep_alive = keep_alive_from_u16 10, connect_other_properties = connect_other_properties_default\<rparr>"

definition password_flag_set_but_not_username_flag ::
  "unicode \<Rightarrow> bytes \<Rightarrow> protocol_version \<Rightarrow> bool \<Rightarrow> bool \<Rightarrow> unit poll"
where
  "password_flag_set_but_not_username_flag uc encoding version username_present password_present =
     (let packet = password_packet username_present password_present
      in if version = V3 \<and> \<not> username_present \<and> password_present then
           assert (packet_decode_full uc version encoding = Inl ConnectPasswordFlagSetButNotUsernameFlag \<and>
             test_try_encode version packet = Ready (Inl ConnectPasswordWithoutUsername))
         else assert (packet_decode_full uc version encoding = Inr packet \<and>
             test_try_encode version packet = Ready (Inr encoding)))"

section \<open>CONNACK and DISCONNECT\<close>

text \<open>
  Five tests read a packet, look at it and write it again: what was given, what the packet must look like, and what is
  written.
\<close>

definition connack_reencode_cases :: "((u8 \<times> bytes) \<times> (packet \<Rightarrow> bool) \<times> bytes) list" where
  "connack_reencode_cases =
     [((0x20, [0x00, 0x00, 0x05, 0x11, 0x00, 0x00, 0x00, 0x00]),
       (\<lambda>p. case p of ConnAckPacket c \<Rightarrow> connack_reason_code c = ConnectSuccess False \<and>
              connack_session_expiry_interval (connack_other_properties c) = Some (ExpiryDuration 0) | _ \<Rightarrow> False),
       [0x20, 0x08, 0x00, 0x00, 0x05, 0x11, 0x00, 0x00, 0x00, 0x00])]"

definition disconnect_reencode_cases :: "((u8 \<times> bytes) \<times> (packet \<Rightarrow> bool) \<times> bytes) list" where
  "disconnect_reencode_cases =
     [((0xE0, [0x04]),
       (\<lambda>p. case p of DisconnectPacket d \<Rightarrow> disconnect_reason_code d = DisconnectWithWillMessage | _ \<Rightarrow> False),
       [0xE0, 0x01, 0x04]),
      ((0xE0, [0x04, 0x00]),
       (\<lambda>p. case p of DisconnectPacket d \<Rightarrow> disconnect_reason_code d = DisconnectWithWillMessage | _ \<Rightarrow> False),
       [0xE0, 0x01, 0x04]),
      ((0xE0, [0x04, 0x05, 0x11, 0xFF, 0xFF, 0xFF, 0xFF]),
       (\<lambda>p. case p of DisconnectPacket d \<Rightarrow> disconnect_reason_code d = DisconnectWithWillMessage \<and>
              disconnect_session_expiry_interval (disconnect_other_properties d) = Some ExpiryInfinite | _ \<Rightarrow> False),
       [0xE0, 0x07, 0x04, 0x05, 0x11, 0xFF, 0xFF, 0xFF, 0xFF]),
      ((0xE0, [0x04, 0x05, 0x11, 0x00, 0x00, 0x00, 0x00]),
       (\<lambda>p. case p of DisconnectPacket d \<Rightarrow> disconnect_reason_code d = DisconnectWithWillMessage \<and>
              disconnect_session_expiry_interval (disconnect_other_properties d) = Some (ExpiryDuration 0) | _ \<Rightarrow> False),
       [0xE0, 0x07, 0x04, 0x05, 0x11, 0x00, 0x00, 0x00, 0x00])]"

definition reencode :: "unicode \<Rightarrow> u8 \<times> bytes \<Rightarrow> (packet \<Rightarrow> bool) \<Rightarrow> bytes \<Rightarrow> unit poll" where
  "reencode uc given matches expected =
     (case create_packet_as_shared (fst given) (snd given) of
        Ready src \<Rightarrow>
          (case test_decode uc V5 src of
             Ready packet \<Rightarrow> if matches packet then assert (test_encode V5 packet = Ready expected) else assert False
           | _ \<Rightarrow> assert False)
      | _ \<Rightarrow> assert False)"

section \<open>AUTH, SUBSCRIBE, SUBACK and UNSUBACK\<close>

definition auth_decode_v3_fails :: "unicode \<Rightarrow> unit poll" where
  "auth_decode_v3_fails uc = assert (auth_decode uc V3 0 [0x00, 0x00] = Inl (UnrecognizedPacket 0xF0 0x00 2))"

definition no_local_for_shared_subscription :: "unicode \<Rightarrow> unit poll" where
  "no_local_for_shared_subscription uc =
     assert (packet_decode_full uc V5
        ([0x82, 0x21, 0x00, 0x02, 0x0D, 0x0B, 0x01, 0x26, 0x00, 0x03] @ ascii ''cat'' @ [0x00, 0x03] @ ascii ''dog'' @
           [0x00, 0x0E] @ ascii ''$share/foo/bar'' @ [0x2D]) =
      Inl NoLocalWithSharedSubscription)"

definition suback_code_cases :: "(protocol_version \<times> subscribe_reason_code \<times> u8) list" where
  "suback_code_cases =
     [(V3, GrantedQoS0, 0x00), (V3, GrantedQoS1, 0x01), (V3, GrantedQoS2, 0x02), (V3, SubUnspecifiedError, 0x80),
      (V5, SubImplementationSpecificError, 0x83)]"

definition suback_qos_cases :: "(qos \<times> subscribe_reason_code) list" where
  "suback_qos_cases = [(AtMostOnce, GrantedQoS0), (AtLeastOnce, GrantedQoS1), (ExactlyOnce, GrantedQoS2)]"

definition unsuback_cases :: "(bytes \<times> unsub_ack_reason_code \<times> string) list" where
  "unsuback_cases =
     [([0xB0, 0x0E, 0x12, 0x34, 0x0A, 0x1F, 0x00, 0x07] @ ascii ''Success'' @ [0x00], UnsubSuccess, ''Success''),
      ([0xB0, 0x1E, 0x12, 0x34, 0x1A, 0x1F, 0x00, 0x17] @ ascii ''No subscription existed'' @ [0x11],
        UnsubNoSubscriptionExisted, ''No subscription existed''),
      ([0xB0, 0x18, 0x12, 0x34, 0x14, 0x1F, 0x00, 0x11] @ ascii ''Unspecified error'' @ [0x80],
        UnsubUnspecifiedError, ''Unspecified error''),
      ([0xB0, 0x24, 0x12, 0x34, 0x20, 0x1F, 0x00, 0x1D] @ ascii ''Implementation specific error'' @ [0x83],
        UnsubImplementationSpecificError, ''Implementation specific error''),
      ([0xB0, 0x15, 0x12, 0x34, 0x11, 0x1F, 0x00, 0x0E] @ ascii ''Not authorized'' @ [0x87],
        UnsubNotAuthorized, ''Not authorized''),
      ([0xB0, 0x1B, 0x12, 0x34, 0x17, 0x1F, 0x00, 0x14] @ ascii ''Topic Filter invalid'' @ [0x8F],
        UnsubTopicFilterInvalid, ''Topic Filter invalid''),
      ([0xB0, 0x1F, 0x12, 0x34, 0x1B, 0x1F, 0x00, 0x18] @ ascii ''Packet Identifier in use'' @ [0x91],
        UnsubPacketIdentifierInUse, ''Packet Identifier in use'')]"

definition unsuback_packet :: "unsub_ack_reason_code \<Rightarrow> string \<Rightarrow> packet" where
  "unsuback_packet reason reason_str =
     UnsubAckPacket \<lparr>unsuback_packet_identifier = 0x1234, unsuback_reason_codes = [reason],
       unsuback_other_properties = \<lparr>ack_reason_string = Some (str_lit reason_str), ack_user_properties = []\<rparr>\<rparr>"

definition decode_packet_unsuback_v5 :: "bytes \<Rightarrow> unsub_ack_reason_code \<Rightarrow> string \<Rightarrow> unit poll" where
  "decode_packet_unsuback_v5 encoding reason reason_str =
     assert (test_try_encode V5 (unsuback_packet reason reason_str) = Ready (Inr encoding))"

section \<open>Variable byte integers\<close>

definition encoded_into :: "test_accumulator \<Rightarrow> enc \<Rightarrow> encode_error + bytes" where
  "encoded_into acc e =
     (case run_enc test_try_put_slice test_put_shared test_put_done e acc of
        (_, Some err) \<Rightarrow> Inl err
      | (acc, None) \<Rightarrow> Inr (concat (the (test_to_iovecs 1 (test_put_done acc)))))"

definition varint_encode_cases :: "(u32 \<times> bytes) list" where
  "varint_encode_cases =
     [(0x00, [0x00]), (0x01, [0x01]), (0x7F, [0x7F]), (0x80, [0x80, 0x01]), (0x3FFF, [0xFF, 0x7F]),
      (0x4000, [0x80, 0x80, 0x01]), (0x1FFFFF, [0xFF, 0xFF, 0x7F]), (0x200000, [0x80, 0x80, 0x80, 0x01]),
      (0x0FFFFFFF, [0xFF, 0xFF, 0xFF, 0x7F])]"

definition varint_encode_inner_ok :: "u32 \<Rightarrow> bytes \<Rightarrow> unit poll" where
  "varint_encode_inner_ok v expected =
     assert (encoded_into (test_with_capacity 0) (encode_varint v) = Inl InsufficientBuffer \<and>
       encoded_into (test_with_capacity 8) (encode_varint v) = Inr expected \<and>
       (case test_try_put_slice [0, 0, 0] (test_with_capacity 8) of
          (False, _) \<Rightarrow> False
        | (True, acc) \<Rightarrow>
            (case encoded_into acc (encode_varint v) of Inl e \<Rightarrow> False | Inr b \<Rightarrow> drop 3 b = expected)))"

definition varint_encode_inner_too_high :: "u32 \<Rightarrow> unit poll" where
  "varint_encode_inner_too_high v = assert (encoded_into (test_with_capacity 8) (encode_varint v) = Inl (VarintTooHigh v))"

definition remaining_length_encode_inner_too_high :: "nat \<Rightarrow> unit poll" where
  "remaining_length_encode_inner_too_high v =
     assert (encoded_into (test_with_capacity 8) (encode_remaining_length v) = Inl (RemainingLengthTooHigh v))"

definition varint_decode_cases :: "(bytes \<times> u32) list" where
  "varint_decode_cases =
     [([0x00], 0x00), ([0x01], 0x01), ([0x7F], 0x7F), ([0x80, 0x01], 0x80), ([0xFF, 0x7F], 0x3FFF),
      ([0x80, 0x80, 0x01], 0x4000), ([0xFF, 0xFF, 0x7F], 0x1FFFFF), ([0x80, 0x80, 0x80, 0x01], 0x200000),
      ([0xFF, 0xFF, 0xFF, 0x7F], 0x0FFFFFFF), ([0x81, 0x00], 0x01), ([0x81, 0x80, 0x00], 0x01), ([0x81, 0x80, 0x80, 0x00], 0x01)]"

definition varint_decode_inner_ok :: "bytes \<Rightarrow> u32 \<Rightarrow> unit poll" where
  "varint_decode_inner_ok b expected = assert (decode_varint b = Inr (Some (expected, [])))"

definition varint_decode_inner_too_high :: "bytes \<Rightarrow> unit poll" where
  "varint_decode_inner_too_high b = assert (decode_varint b = Inl DecodeVarintTooHigh)"

definition varint_decode_inner_incomplete_packet :: "bytes \<Rightarrow> unit poll" where
  "varint_decode_inner_incomplete_packet b = assert (decode_varint b = Inr None)"

section \<open>Data, strings and the counter\<close>

definition binary_ord_cases :: "(string \<times> string \<times> ordering) list" where
  "binary_ord_cases =
     [(''cats'', ''cats'', OrderingEqual), (''cats'', ''dogs'', OrderingLess), (''dogs'', ''cats'', OrderingGreater)]"

definition binary_from_shared_tests :: "unit poll" where
  "binary_from_shared_tests =
     assert (binary_from_shared ([0x00, 0x01] @ ascii ''hello world'') = Inl TrailingGarbage \<and>
       binary_from_shared ([0x01, 0x00] @ ascii ''hello world'') = Inl IncompletePacket \<and>
       (\<exists>d. binary_from_shared [0x00, 0x00] = Inr d) \<and>
       (\<exists>d. binary_from_shared ([0x00, 0x0B] @ ascii ''hello world'') = Inr d))"

text \<open>A length whose two bytes are not UTF-8: the prefix must not be validated with the string.\<close>

definition into_shared_and_from_utf8_shared :: "unicode \<Rightarrow> bytes_mut \<Rightarrow> unit poll" where
  "into_shared_and_from_utf8_shared uc m =
     (let test_string = replicate 398 0x74
      in case binary_new (bytes_pool m) (take_empty_owned m) test_string of
           Ready (Inr (val, _)) \<Rightarrow>
             assert (case str_from_utf8_shared uc (bd_shared val) of
                Inr new_val \<Rightarrow> str_as_ref new_val = test_string | Inl e \<Rightarrow> False)
         | _ \<Rightarrow> assert False)"

definition count_shared_tests :: "unit poll" where
  "count_shared_tests =
     (let puts = enc_then (put_u8 1) (enc_then (put_shared (ascii ''foo'')) (put_u8 2))
      in assert (byte_count True puts = (1 + 3 + 1, None) \<and> byte_count False puts = (1 + 0 + 1, None)))"

section \<open>The cases pass\<close>

lemmas decode_evals = packet_decode_full_def decode_fixed_header_def decode_remaining_length_def decode_varint_def required_def
  packet_decode_def packet_decode_body_def dec_map_def Let_def

lemma slice_bytes_le: "slice_bytes e \<le> length (enc_bytes e)"
proof -
  have "sum_list (map slice_len ps) \<le> length (concat (map put_bytes ps))" for ps
  proof (induction ps)
    case (Cons p ps)
    then show ?case by (cases p) auto
  qed simp
  then show ?thesis by (simp add: slice_bytes_def enc_bytes_def)
qed

lemma ucast_max:
  "ucast (mask 8 :: u32) = (0xFF :: u8)" "ucast (mask 16 :: u32) = (0xFF :: u8)" "ucast (mask 24 :: u32) = (0xFF :: u8)"
  "ucast (- 1 :: u32) = (0xFF :: u8)"
proof -
  have "(- 1 :: u32) = 0xFFFFFFFF" by simp
  then show "ucast (- 1 :: u32) = (0xFF :: u8)" by (simp only:) simp
qed (simp_all add: mask_eq_exp_minus_1)

lemma create_packet_small:
  assumes "length payload < 128"
  shows "create_packet_as_shared b payload = Ready (b # of_nat (length payload) # payload)"
proof -
  let ?e = "enc_then (put_u8 b) (enc_then (encode_remaining_length (length payload)) (enc_then (put_slice payload) put_done))"
  note len = encode_remaining_length_bytes [of "length payload"]
  have e: "snd ?e = None" "enc_bytes ?e = b # of_nat (length payload) # payload"
    using len assms by (simp_all add: varint_small)
  have slices: "slice_bytes ?e \<le> length (enc_bytes ?e)" by (rule slice_bytes_le)
  obtain a where a: "run_enc test_try_put_slice test_put_shared test_put_done ?e (test_with_capacity (5 + length payload)) = (a, None)"
    "test_inner a = enc_bytes ?e"
    using test_run_exact [OF e(1), of "5 + length payload"] slices e(2) by auto
  obtain ps where ps: "fst ?e = ps @ [PutDone]"
    using len assms by (auto simp: enc_then_def put_done_def put_u8_def put_slice_def)
  have "\<not> put_done_required a"
    using a(1) run_puts_done [of ps "test_with_capacity (5 + length payload)"] ps
    by (auto simp: run_enc_def split: prod.splits option.splits)
  then show ?thesis
    using a e by (simp add: create_packet_as_shared_def test_to_iovecs_def)
qed

text \<open>What the cases of \<open>reencode\<close> read.\<close>

definition bare_disconnect :: "session_expiry_interval option \<Rightarrow> packet" where
  "bare_disconnect i =
     DisconnectPacket \<lparr>disconnect_reason_code = DisconnectWithWillMessage,
       disconnect_other_properties = disconnect_other_properties_default\<lparr>disconnect_session_expiry_interval := i\<rparr>\<rparr>"

definition bare_connack :: packet where
  "bare_connack =
     ConnAckPacket \<lparr>connack_reason_code = ConnectSuccess False,
       connack_other_properties = conn_ack_other_properties_default\<lparr>connack_session_expiry_interval := Some (ExpiryDuration 0)\<rparr>\<rparr>"

context ascii_tables
begin

lemma protocol_name_decodes:
  "str_decode uc (0x00 # 0x04 # 0x4D # 0x51 # 0x54 # 0x54 # r) = Inr (Some (ByteStr (BinaryData PROTOCOL_NAME), r))"
  using decode_protocol_name [OF ascii] by (simp add: PROTOCOL_NAME_def)

lemma empty_str_decodes: "str_decode uc (0x00 # 0x00 # r) = Inr (Some (ByteStr (BinaryData [0, 0]), r))"
  by (simp add: str_decode_def u16_from_be_def str_as_ref_def binary_as_bytes_def validate_mqtt_string.simps)

lemma vector_both_ways:
  assumes "vector_ok uc v (p, Some b)"
  shows "packet_decode_full uc v b = Inr p" and "test_try_encode v p = Ready (Inr b)"
  using assms ascii test_try_encode_ok [of uc v p] packet_full_roundtrip [of uc v p] packet_encode_bytes(1) [of uc v p]
  by (simp_all add: vector_ok_def)

lemmas connect_decode_evals = connect_decode_def decode_start_def protocol_name_decodes protocol_name_str decode_rest_v3_def
  decode_rest_v5_def decode_client_id_def empty_str_decodes binary_is_empty_def decode_will_def connect_flag_defs
  decode_properties_def decode_all_def decode_loop.simps

lemma will_flags_pass:
  "list_all (\<lambda>(encoding, version). will_properties_flags_set_but_not_will_flag uc encoding version = Ready ()) will_flags_cases"
  by (simp add: will_flags_cases_def will_properties_flags_set_but_not_will_flag_def decode_evals connect_decode_evals)

lemma password_vectors:
  "list_all (\<lambda>(encoding, version, username_present, password_present).
     version = V3 \<and> \<not> username_present \<and> password_present \<or>
     vector_ok uc version (password_packet username_present password_present, Some encoding)) password_cases"
  by (simp add: password_cases_def password_packet_def evals connection_evals table_evals connect_flags_of_def connect_flags_def connect_flag_defs)

lemma password_refused:
  "packet_decode_full uc V3 ([0x10, 0x16, 0, 4] @ ascii ''MQTT'' @ [0x04, 0x42, 0, 0x0A, 0, 0, 0, 8] @ ascii ''password'') =
     Inl ConnectPasswordFlagSetButNotUsernameFlag"
  "test_try_encode V3 (password_packet False True) = Ready (Inl ConnectPasswordWithoutUsername)"
  subgoal by (simp add: decode_evals connect_decode_evals)
  subgoal by (simp add: test_try_encode_def password_packet_def packet_encode_def encode_inner_def byte_count_all byte_count_slices
      connection_evals enc_then_def enc_fail_def)
  done

lemma password_pass:
  "list_all (\<lambda>(encoding, version, username_present, password_present).
     password_flag_set_but_not_username_flag uc encoding version username_present password_present = Ready ()) password_cases"
  using password_vectors password_refused
  by (simp add: password_cases_def password_flag_set_but_not_username_flag_def vector_both_ways)

lemma bare_vectors:
  "vector_ok uc V5 (bare_disconnect None, Some [0xE0, 0x01, 0x04])"
  "vector_ok uc V5 (bare_disconnect (Some ExpiryInfinite), Some [0xE0, 0x07, 0x04, 0x05, 0x11, 0xFF, 0xFF, 0xFF, 0xFF])"
  "vector_ok uc V5 (bare_disconnect (Some (ExpiryDuration 0)), Some [0xE0, 0x07, 0x04, 0x05, 0x11, 0x00, 0x00, 0x00, 0x00])"
  "vector_ok uc V5 (bare_connack, Some [0x20, 0x08, 0x00, 0x00, 0x05, 0x11, 0x00, 0x00, 0x00, 0x00])"
  by (simp_all add: bare_disconnect_def bare_connack_def ucast_max evals connection_evals table_evals)

lemma explicit_length_read: "packet_decode_full uc V5 [0xE0, 0x02, 0x04, 0x00] = Inr (bare_disconnect None)"
  by (simp add: decode_evals disconnect_decode_def decode_properties_def decode_all_def decode_loop.simps table_evals
      code_try_from_def collected_def bare_disconnect_def disconnect_other_properties_default_def)

lemma reencode_pass:
  "list_all (\<lambda>(given, matches, expected). reencode uc given matches expected = Ready ())
     (connack_reencode_cases @ disconnect_reencode_cases)"
proof -
  note read = bare_vectors [THEN vector_both_ways(1)] explicit_length_read
    and written = bare_vectors [THEN vector_both_ways(2)]
  show ?thesis
    by (simp add: connack_reencode_cases_def disconnect_reencode_cases_def reencode_def create_packet_small test_decode_def read test_encode_def written)
      (simp add: bare_disconnect_def bare_connack_def)
qed

lemma no_local_pass: "no_local_for_shared_subscription uc = Ready ()"
  by (simp add: no_local_for_shared_subscription_def decode_evals subscribe_decode_def subscribe_properties_decode_def
    try_get_packet_identifier_def pkid_new_def dec_nonzero_def u16_from_be_def
    decode_properties_def decode_all_def decode_loop.simps decode_property_def str_decode_def str_as_ref_def binary_as_bytes_def validate_ascii [OF ascii]
    subscribe_to_loop.simps subscribe_to_decode_def filter_decode_def filter_new_def filter_classify_def wildcard_defs strip_prefix_def parse_step_def
    options_decode_def code_try_from_def qos_table_def retain_handling_table_def filter_is_shared_def)

lemma small_cases_pass:
  "auth_decode_v3_fails uc = Ready ()"
  "list_all (\<lambda>(version, code, expect). subscribe_code_to_u8 version code = expect) suback_code_cases"
  "list_all (\<lambda>(qos, code). subscribe_code_of_qos qos = code) suback_qos_cases"
  by (simp_all add: auth_decode_v3_fails_def auth_decode_def suback_code_cases_def suback_qos_cases_def subscribe_code_to_u8_def table_evals)

lemma unsuback_pass:
  "list_all (\<lambda>(encoding, reason, reason_str). decode_packet_unsuback_v5 encoding reason reason_str = Ready ()) unsuback_cases"
proof -
  have "list_all (\<lambda>(encoding, reason, reason_str). vector_ok uc V5 (unsuback_packet reason reason_str, Some encoding)) unsuback_cases"
    by (simp add: unsuback_cases_def unsuback_packet_def evals ack_evals table_evals)
  then show ?thesis by (auto simp: list_all_iff decode_packet_unsuback_v5_def vector_both_ways)
qed

lemma replicate_4: "replicate 4 x = [x, x, x, x]"
  by (simp add: numeral_eq_Suc)

lemma varint_decode_pass:
  "list_all (\<lambda>(b, expected). varint_decode_inner_ok b expected = Ready ()) varint_decode_cases"
  "list_all (\<lambda>b. varint_decode_inner_too_high b = Ready ()) [replicate 4 0x80, replicate 4 0xFF]"
  "list_all (\<lambda>b. varint_decode_inner_incomplete_packet b = Ready ()) [[0x80], [0x80, 0x80], [0x80, 0x80, 0x80]]"
  by (simp_all add: varint_decode_cases_def varint_decode_inner_ok_def varint_decode_inner_too_high_def replicate_4
      varint_decode_inner_incomplete_packet_def decode_varint_def)

lemma varint_encode_pass:
  "list_all (\<lambda>(v, expected). varint_encode_inner_ok v expected = Ready ()) varint_encode_cases"
  by (simp add: varint_encode_cases_def varint_encode_inner_ok_def encoded_into_def encode_varint_def encode_varint_loop.simps
     run_enc_def test_try_put_slice_def test_with_capacity_def test_to_iovecs_def test_put_done_def enc_then_def put_u8_def put_slice_def Let_def enc_ok_def)

lemma varint_too_high_pass:
  "list_all (\<lambda>v. varint_encode_inner_too_high v = Ready ()) [0x10000000, 0xFFFFFFFF]"
  "list_all (\<lambda>v. remaining_length_encode_inner_too_high v = Ready ()) [0xFFFFFFFF + 1, 0xFFFFFFFFFFFFFFFF]"
  by (simp_all add: varint_encode_inner_too_high_def remaining_length_encode_inner_too_high_def encoded_into_def encode_varint_def encode_varint_loop.simps
     run_enc_def test_try_put_slice_def test_with_capacity_def test_to_iovecs_def test_put_done_def enc_then_def put_u8_def put_slice_def Let_def
     enc_fail_def encode_remaining_length_def)

lemma data_pass:
  "list_all (\<lambda>(l, r, expect). binary_cmp (bin_lit l) (bin_lit r) = expect) binary_ord_cases"
  "str_cmp (str_lit ''dummy1'') (str_lit ''dummy2'') = OrderingLess"
  "binary_from_shared_tests = Ready ()"
  "count_shared_tests = Ready ()"
  by (simp_all add: binary_ord_cases_def binary_cmp_def str_cmp_def cmp_def binary_from_shared_tests_def binary_from_shared_def u16_from_be_def
     count_shared_tests_def byte_count_all byte_count_slices slice_bytes_def enc_bytes_def enc_then_def put_u8_def put_slice_def put_shared_def)

lemma from_utf8_shared_pass:
  assumes "bytes_mut_ok m"
  shows "into_shared_and_from_utf8_shared uc m = Ready ()"
proof -
  let ?s = "replicate 398 (0x74 :: u8)"
  have pool: "pool_ok (bytes_pool m)" using assms by (auto simp: pool_ok_def bytes_pool_def bytes_mut_ok_def)
  obtain ow where "binary_new (bytes_pool m) (take_empty_owned m) ?s = Ready (Inr (BinaryData (be16 (of_nat (length ?s)) @ ?s), ow))"
    using binary_new_prefixed [OF pool, of "take_empty_owned m" ?s] by (auto simp: take_empty_owned_def bytes_pool_def)
  moreover have "validate_mqtt_string uc ?s = Inr ()" by (rule validate_ascii [OF ascii]) simp
  ultimately show ?thesis
    by (simp add: into_shared_and_from_utf8_shared_def str_from_utf8_shared_def binary_from_shared_def
        be16_def u16_from_be_def str_as_ref_def binary_as_bytes_def str_decode_def Let_def)
qed

end

end
