(* ===== verification/Filter_Tests.thy ===== *)
theory Filter_Tests
  imports Codec_Cases
begin

text \<open>
  The tests of topics and filters (src/src/mqtt_proto/topic.rs and filter.rs): which are valid and how they are
  split into levels, which are refused and with which error, which kind a filter has, and two tables of
  topics that filters match and do not match. The cases whose text is not ASCII are left out where they
  depend on the UTF-8 decoder.
\<close>

section \<open>Tables\<close>

definition filter_invalid_cases :: "(string \<times> decode_error) list" where
  "filter_invalid_cases =
     [('''', EmptyFilter),
      (''foo/#baz'', InvalidFilter (ascii ''foo/#baz'')),
      (''foo/baz#'', InvalidFilter (ascii ''foo/baz#'')),
      (''foo/#/baz'', InvalidFilter (ascii ''foo/#/baz'')),
      (''$share/mygroup'', InvalidFilter (ascii ''$share/mygroup'')),
      (''$share//mytopic'', InvalidFilter (ascii ''$share//mytopic'')),
      (''$share/mygroup/'', EmptyFilter),
      (''$share/mygroup+/'', InvalidFilter (ascii ''$share/mygroup+/'')),
      (''$share/#/'', InvalidFilter (ascii ''$share/#/''))]"

definition filter_valid_cases :: "(string \<times> string list) list" where
  "filter_valid_cases =
     [(''a'', [''a'']),
      (''foo/+/baz'', [''foo'', ''+'', ''baz'']),
      (''foo/+/#'', [''foo'', ''+'', ''#'']),
      (''#'', [''#'']),
      (''+/#'', [''+'', ''#''])]"

definition topic_valid_cases :: "(string \<times> string list) list" where
  "topic_valid_cases =
     [(''a'', [''a'']),
      (''a cat'', [''a cat'']),
      (''a/b/c'', [''a'', ''b'', ''c'']),
      (''$a/b/c'', [''$a'', ''b'', ''c''])]"

definition uniqueness_cases :: "(string \<times> string list \<times> string \<times> string list) list" where
  "uniqueness_cases =
     [(''/b'', ['''', ''b''], ''b'', [''b'']),
      (''a/'', [''a'', ''''], ''a'', [''a'']),
      (''C'', [''C''], ''c'', [''c''])]"

definition filter_kind_cases :: "(string \<times> filter_kind) list" where
  "filter_kind_cases =
     [(''$share/group1/mytopic'', Shared 13),
      (''$share/group1/m'', Shared 13),
      (''$sharetest/group1/mytopic'', Dollar),
      (''$test/group1/mytopic'', Dollar),
      (''share/group1/mytopic'', Regular)]"

definition filter_match_cases :: "(string \<times> string list) list" where
  "filter_match_cases =
     [(''sport'', [''sport'']),
      (''+'', [''sport'', ''finance'']),
      (''#'', [''sport'', ''sport/tennis'', ''sport/tennis/player1'', ''sport/tennis/player1/ranking'', ''sport/'',
       ''sport/'', ''/sport/'', ''/'', ''//'']),
      (''$share/consumer1/sport'', [''sport'']),
      (''$share/consumer1/+'', [''sport'', ''finance'']),
      (''$share/consumer1/#'', [''sport/tennis'', ''sport/tennis/player1'', ''sport/tennis/player1/ranking'',
       ''finance/bonds/banker1'', ''/'', ''//'']),
      (''$SYS'', [''$SYS'']),
      (''sport/tennis/player1'', [''sport/tennis/player1'']),
      (''sport/tennis/+'', [''sport/tennis/player1'', ''sport/tennis/player2'', ''sport/tennis/'']),
      (''sport/+/+'', [''sport/tennis/player1'', ''sport/tennis/player2'', ''sport/badminton/player1'',
       ''sport/badminton/player2'', ''sport//player1'']),
      (''sport/tennis/#'', [''sport/tennis/player1'', ''sport/tennis/player1/ranking'', ''sport/tennis/player2'',
       ''sport/tennis/player2/ranking'']),
      (''sport/+/#'', [''sport/tennis/player1'', ''sport/tennis/player1/ranking'', ''sport/tennis/player2'',
       ''sport/tennis/player2/ranking'', ''sport/badminton/player1'', ''sport/badminton/player1/ranking'',
       ''sport/badminton/player2'', ''sport/badminton/player2/ranking'', ''sport/tennis/'', ''sport//'']),
      (''+/+'', [''sport/tennis'', ''/sport'', ''sport/'', ''/'']),
      (''+/#'', [''sport/tennis'', ''sport/tennis/player1'', ''finance/banking'', ''finance/banking/banker1'', ''/'',
       ''//'']),
      (''/finance'', [''/finance'']),
      (''$share/consumer1/sport/tennis/player1'', [''sport/tennis/player1'']),
      (''$share/consumer1/sport/+/player1'', [''sport/tennis/player1'', ''sport/badminton/player1'',
       ''sport//player1'']),
      (''$share/consumer1/sport/#'', [''sport/tennis'', ''sport/tennis/player1'', ''sport/tennis/player1/ranking'',
       ''sport/badminton'', ''sport/'', ''sport//'']),
      (''$share/consumer1//finance'', [''/finance'']),
      (''$SYS/monitor/Clients'', [''$SYS/monitor/Clients'']),
      (''$SYS/monitor/+'', [''$SYS/monitor/Clients'', ''$SYS/monitor/Connections'']),
      (''$SYS/#'', [''$SYS/monitor/Clients'', ''$SYS/monitor/Connections'', ''$SYS/broker/log'']),
      (''$SYS//Clients'', [''$SYS//Clients''])]"

definition filter_mismatch_cases :: "(string \<times> string list) list" where
  "filter_mismatch_cases =
     [(''sport'', [''finance'', ''sport/tennis'']),
      (''+'', [''/sport'', ''sport/'', ''/sport/'', ''/'', ''//'', ''$SYS'']),
      (''#'', [''$SYS'', ''$SYS/monitor/Clients'']),
      (''$share/consumer1/sport'', [''finance/banking/banker1'', ''sport/tennis/player1'']),
      (''sport/tennis/player1'', [''sport/tennis/player2'', ''sport/tennis'', ''sport/tennis/player1/ranking'']),
      (''+/tennis/player1'', [''sport/badminton/player1'', ''$SYS/tennis/player1'', ''sport/two/tennis/player1'']),
      (''sport/tennis/+'', [''sport/tennis/player1/ranking'', ''sport/badminton/player1'', ''sport/tennis'']),
      (''sport/+/+'', [''sport/tennis/player1/ranking'', ''finance/banking/banker1'', ''sport'']),
      (''sport/tennis/#'', [''sport/tennis'', ''sport/badminton'', ''finance/banking/banker1'']),
      (''sport/+/#'', [''sport/tennis'', ''sport/badminton'', ''finance/banking/banker1'']),
      (''+/+'', [''/sport/tennis'', ''sport/tennis/'', ''/tennis/'', ''//'', ''$SYS/monitor'']),
      (''+/#'', [''sport'', ''$SYS/monitor'', ''$SYS/monitor/Clients'']),
      (''$share/consumer1/sport'', [''finance/banking/banker1'', ''sport/tennis/player1''])]"

text \<open>Strings that MQTT forbids: control characters, and more than 65535 bytes, also of characters of two bytes.\<close>

definition invalid_mqtt_string_cases :: "bytes list" where
  "invalid_mqtt_string_cases =
     [[0x61, 0x00, 0x62], [0x61, 0x01, 0x62], [0x61, 0x7F, 0x62], replicate 65536 0x61, concat (replicate 32768 [0xC3, 0xA9])]"

definition shared_invalid_mqtt_string_cases :: "bytes list" where
  "shared_invalid_mqtt_string_cases =
     [ascii ''$share/group/'' @ replicate (65535 - length ''$share/group/'' + 1) 0x61,
      ascii ''$share/gro'' @ [0x00] @ ascii ''up/a'',
      ascii ''$share/gro'' @ [0x01] @ ascii ''up/a'',
      ascii ''$share/gro'' @ [0x7F] @ ascii ''up/a'']"

definition combine_invalid_cases :: "bytes list" where
  "combine_invalid_cases = [[0x61, 0x00], [0x61, 0x01], [0x61, 0x7F], replicate 65535 0x61]"

section \<open>Tests\<close>

definition filter_invalid :: "unicode \<Rightarrow> string \<Rightarrow> decode_error \<Rightarrow> unit poll" where
  "filter_invalid uc f err = assert (filter_new uc id (ascii f) = Inl err)"

definition is_invalid_byte_str :: "decode_error + 'a \<Rightarrow> bool" where
  "is_invalid_byte_str r = (case r of Inl (InvalidByteStr _) \<Rightarrow> True | _ \<Rightarrow> False)"

definition filter_valid :: "unicode \<Rightarrow> string \<Rightarrow> string list \<Rightarrow> unit poll" where
  "filter_valid uc s components =
     (case test_filter uc s of
        Ready f \<Rightarrow> assert (split_levels (str_as_ref (filter_inner f)) = map ascii components)
      | Panic m \<Rightarrow> Panic m
      | Pending \<Rightarrow> Pending
      | Diverges \<Rightarrow> Diverges)"

definition topic_valid :: "unicode \<Rightarrow> string \<Rightarrow> string list \<Rightarrow> unit poll" where
  "topic_valid uc s components =
     (case test_topic uc s of
        Ready t \<Rightarrow> assert (split_levels (str_as_ref (topic_inner t)) = map ascii components)
      | Panic m \<Rightarrow> Panic m
      | Pending \<Rightarrow> Pending
      | Diverges \<Rightarrow> Diverges)"

definition topic_invalid :: "unicode \<Rightarrow> string \<Rightarrow> unit poll" where
  "topic_invalid uc s =
     (case str_from (ascii s) of
        Ready t \<Rightarrow> assert (topic_new uc str_as_ref t = Inl (InvalidTopic (ascii s)))
      | Panic m \<Rightarrow> Panic m
      | Pending \<Rightarrow> Pending
      | Diverges \<Rightarrow> Diverges)"

definition topic_uniqueness :: "unicode \<Rightarrow> string \<Rightarrow> string list \<Rightarrow> string \<Rightarrow> string list \<Rightarrow> unit poll" where
  "topic_uniqueness uc left left_comp right right_comp =
     assert (topic_valid uc left left_comp = Ready () \<and> topic_valid uc right right_comp = Ready () \<and>
       test_topic uc left \<noteq> test_topic uc right)"

definition filter_uniqueness :: "unicode \<Rightarrow> string \<Rightarrow> string list \<Rightarrow> string \<Rightarrow> string list \<Rightarrow> unit poll" where
  "filter_uniqueness uc left left_comp right right_comp =
     assert (filter_valid uc left left_comp = Ready () \<and> filter_valid uc right right_comp = Ready () \<and>
       test_filter uc left \<noteq> test_filter uc right)"

definition filter_kind_test :: "unicode \<Rightarrow> string \<Rightarrow> filter_kind \<Rightarrow> unit poll" where
  "filter_kind_test uc f kind =
     (case filter_new uc id (ascii f) of Inr f \<Rightarrow> assert (filter_kind f = kind) | Inl e \<Rightarrow> assert False)"

text \<open>\<open>filter_match\<close> and \<open>filter_mismatch\<close>: the topics are all matched, or none of them is.\<close>

definition filter_match :: "bool \<Rightarrow> unicode \<Rightarrow> string \<Rightarrow> string list \<Rightarrow> unit poll" where
  "filter_match expected uc f topics =
     (case filter_new uc id (ascii f) of
        Inl e \<Rightarrow> assert False
      | Inr f \<Rightarrow>
          assert (list_all (\<lambda>t. case topic_new uc id (ascii t) of Inl e \<Rightarrow> False | Inr t \<Rightarrow> matches_topic id f t = expected)
            topics))"

definition shared_subscription_valid :: "unicode \<Rightarrow> unit poll" where
  "shared_subscription_valid uc =
     (case filter_new uc id (ascii ''$share/group1/mytopic'') of
        Inl e \<Rightarrow> assert False
      | Inr f \<Rightarrow>
          (case classify id f of
             ClassifiedShared grp f \<Rightarrow>
               assert (grp = ascii ''group1'' \<and> filter_inner f = ascii ''mytopic'' \<and> filter_kind f = Regular)
           | _ \<Rightarrow> Panic ''Expected filter of type: Shared''))"

definition topic_maximum_length :: "unicode \<Rightarrow> unit poll" where
  "topic_maximum_length uc =
     (case topic_new uc id (replicate 65535 0x61) of
        Inr t \<Rightarrow> assert (length (topic_inner t) = 65535) | Inl e \<Rightarrow> assert False)"

definition filter_maximum_length :: "unicode \<Rightarrow> unit poll" where
  "filter_maximum_length uc =
     (case filter_new uc id (replicate 65535 0x61) of
        Inr f \<Rightarrow> assert (length (filter_inner f) = 65535) | Inl e \<Rightarrow> assert False)"

definition shared_subscription_maximum_length :: "unicode \<Rightarrow> unit poll" where
  "shared_subscription_maximum_length uc =
     (let pre = ascii ''$share/group/''
      in case filter_new uc id (pre @ replicate (65535 - length pre) 0x61) of
           Inr f \<Rightarrow> assert (length (filter_inner f) = 65535) | Inl e \<Rightarrow> assert False)"

definition combine_maximum_length :: "unicode \<Rightarrow> unit poll" where
  "combine_maximum_length uc =
     (case topic_new uc id (ascii ''b'') of
        Inl e \<Rightarrow> assert False
      | Inr second \<Rightarrow>
          (case topic_combine uc (replicate (65535 - length (topic_inner second)) 0x61) second of
             Inr t \<Rightarrow> assert (length (topic_inner t) = 65535) | Inl e \<Rightarrow> assert False))"

section \<open>The tests pass\<close>

text \<open>Splitting with an accumulator, which evaluates each level once.\<close>

fun split_from :: "bytes \<Rightarrow> bytes \<Rightarrow> bytes list" where
  "split_from l [] = [l]"
| "split_from l (c # cs) = (if c = SEPARATOR then l # split_from [] cs else split_from (l @ [c]) cs)"

lemma split_from_levels: "split_from l s = (l @ hd (split_levels s)) # tl (split_levels s)"
  by (induction l s rule: split_from.induct) simp_all

lemma split_levels_from: "split_levels s = split_from [] s"
  by (simp add: split_from_levels)

context ascii_tables
begin

text \<open>How a string of printable characters is taken apart, whatever backs it.\<close>

lemma new_text:
  assumes "as_ref s \<noteq> []" and "length (as_ref s) \<le> 65535" and "list_all (\<lambda>b. 32 \<le> unat b \<and> unat b < 127) (as_ref s)"
  shows "filter_new uc as_ref s =
      and_then (filter_classify (as_ref s)) (\<lambda>(kind, f).
        if f = [] then Inl EmptyFilter
        else if parse_filter PsSeparator f then Inr \<lparr>filter_inner = s, filter_kind = kind\<rparr>
        else Inl (InvalidFilter f))"
    and "topic_new uc as_ref s = (if contains_wildcard (as_ref s) then Inl (InvalidTopic (as_ref s)) else Inr (Topic s))"
  using assms validate_ascii [OF ascii, of "as_ref s"]
  by (auto simp: filter_new_def topic_new_def Let_def list_all_iff)

lemma from_text:
  "length s \<le> 65535 \<Longrightarrow> str_from s = Ready (ByteStr (BinaryData (be16 (of_nat (length s)) @ s)))"
  by (simp add: str_from_def binary_from_def)

lemmas text_evals = str_as_ref_def new_text [of id] new_text [of str_as_ref] from_text filter_classify_def strip_prefix_def parse_step_def
  wildcard_defs contains_wildcard_def

lemma filter_invalid_pass: "list_all (\<lambda>(f, err). filter_invalid uc f err = Ready ()) filter_invalid_cases"
proof -
  have "filter_new uc id [] = Inl EmptyFilter" by (simp add: filter_new_def)
  then show ?thesis by (simp add: filter_invalid_cases_def filter_invalid_def text_evals)
qed

lemma filter_valid_pass: "list_all (\<lambda>(f, components). filter_valid uc f components = Ready ()) filter_valid_cases"
  by (simp add: filter_valid_cases_def filter_valid_def test_filter_def text_evals)

lemma topic_valid_pass:
  "list_all (\<lambda>(t, components). topic_valid uc t components = Ready ()) topic_valid_cases"
  "list_all (\<lambda>t. topic_invalid uc t = Ready ()) [''+'', ''a/+'', ''b/#'']"
  by (simp_all add: topic_valid_cases_def topic_valid_def test_topic_def topic_invalid_def text_evals)

lemma uniqueness_pass:
  "list_all (\<lambda>(l, lc, r, rc). topic_uniqueness uc l lc r rc = Ready () \<and> filter_uniqueness uc l lc r rc = Ready ()) uniqueness_cases"
  by (simp add: uniqueness_cases_def topic_uniqueness_def filter_uniqueness_def topic_valid_def filter_valid_def test_topic_def
      test_filter_def text_evals)

lemma filter_kind_pass:
  "list_all (\<lambda>(f, kind). filter_kind_test uc f kind = Ready ()) filter_kind_cases"
  "shared_subscription_valid uc = Ready ()"
  by (simp_all add: filter_kind_cases_def filter_kind_test_def shared_subscription_valid_def classify_def text_evals)

lemma filter_match_pass: "list_all (\<lambda>(f, topics). filter_match True uc f topics = Ready ()) filter_match_cases"
  by (simp add: filter_match_cases_def filter_match_def matches_topic_def classify_def text_evals split_levels_from del: split_levels.simps)

lemma filter_mismatch_pass: "list_all (\<lambda>(f, topics). filter_match False uc f topics = Ready ()) filter_mismatch_cases"
  by (simp add: filter_mismatch_cases_def filter_match_def matches_topic_def classify_def text_evals split_levels_from del: split_levels.simps)

lemma of_byte_str_pass:
  "(case test_topic uc ''/a/b/c'' of Ready t \<Rightarrow> split_levels (str_as_ref (topic_inner t)) ! 2 = ascii ''b'' | _ \<Rightarrow> False)"
  "(case test_filter uc ''/a/b/c'' of Ready f \<Rightarrow> split_levels (str_as_ref (filter_inner f)) ! 2 = ascii ''b'' | _ \<Rightarrow> False)"
  by (simp_all add: test_topic_def test_filter_def text_evals)

lemma letter_levels: "set s \<subseteq> {0x61} \<Longrightarrow> split_levels s = [s]"
  by (induction s) (auto simp: wildcard_defs)

lemma long_levels: "split_levels (replicate n 0x61) = [replicate n 0x61]"
  by (rule letter_levels) auto

lemma maximum_length_pass:
  "topic_maximum_length uc = Ready ()" "filter_maximum_length uc = Ready ()"
  "shared_subscription_maximum_length uc = Ready ()" "combine_maximum_length uc = Ready ()"
proof -
  have valid: "validate_mqtt_string uc (replicate n 0x61) = Inr ()" "validate_mqtt_string uc (replicate n 0x61 @ [0x62]) = Inr ()"
      "validate_mqtt_string uc (ascii ''$share/group/'' @ replicate n 0x61) = Inr ()" "validate_mqtt_string uc (ascii ''b'') = Inr ()" for n
    by (rule validate_ascii [OF ascii]; auto)+
  have plain: "\<not> contains_wildcard (replicate n 0x61)" "\<not> contains_wildcard (replicate n 0x61 @ [0x62])"
      "\<not> contains_wildcard (ascii ''b'')" for n
    by (auto simp: contains_wildcard_def wildcard_defs)
  have levels: "valid_levels (split_levels (replicate n 0x61))" for n
    by (simp add: long_levels plain)
  show "topic_maximum_length uc = Ready ()"
    using valid(1) [of 65535] plain(1) [of 65535] by (simp add: topic_maximum_length_def topic_new_def)
  show "filter_maximum_length uc = Ready ()"
    using valid(1) [of 65535] levels [of 65535]
    by (simp add: filter_maximum_length_def filter_new_def filter_classify_def parse_filter_levels(4) DOLLAR_SIGN_def)
  show "shared_subscription_maximum_length uc = Ready ()"
    using valid(3) [of 65522] levels [of 65522]
    by (simp add: shared_subscription_maximum_length_def filter_new_def filter_classify_def strip_prefix_def parse_filter_levels(4)
        wildcard_defs)
  show "combine_maximum_length uc = Ready ()"
    using valid(2) [of 65534] valid(4) plain(1,2) [of 65534] plain(3)
    by (simp add: combine_maximum_length_def topic_combine_def topic_new_def)
qed

end

text \<open>Control characters are the general category of that name.\<close>

locale control_tables = ascii_tables +
  assumes controls: "c < 32 \<or> c = 127 \<Longrightarrow> general_category uc c = Control"
begin

lemma validate_control:
  assumes "list_all (\<lambda>b. 32 \<le> unat b \<and> unat b < 127) p" and "unat b < 32 \<or> unat b = 127"
  shows "\<exists>m. validate_mqtt_string uc (p @ b # r) = Inl (InvalidByteStr m)"
  using assms(1)
proof (induction p)
  case Nil
  have "unat b < 128" using assms(2) by auto
  with assms(2) ascii controls [of "unat b"] show ?case
    by (simp add: utf8_ascii_def validate_mqtt_string.simps [of uc "b # r"])
next
  case (Cons a p)
  with ascii show ?case
    by (simp add: utf8_ascii_def validate_mqtt_string.simps [of uc "a # p @ b # r"])
qed

lemma refused_new:
  assumes "list_all (\<lambda>b. 32 \<le> unat b \<and> unat b < 127) p" and "unat b < 32 \<or> unat b = 127" and "length (p @ b # r) \<le> 65535"
  shows "is_invalid_byte_str (topic_new uc id (p @ b # r))" and "is_invalid_byte_str (filter_new uc id (p @ b # r))"
  using validate_control [OF assms(1,2), of r] assms(3)
  by (auto simp: topic_new_def filter_new_def is_invalid_byte_str_def)

lemma overlong_new:
  assumes "length s > 65535"
  shows "is_invalid_byte_str (topic_new uc id s)" and "is_invalid_byte_str (filter_new uc id s)"
  using assms by (auto simp: topic_new_def filter_new_def is_invalid_byte_str_def)

lemma invalid_mqtt_string_pass:
  "list_all (\<lambda>s. is_invalid_byte_str (topic_new uc id s) \<and> is_invalid_byte_str (filter_new uc id s)) invalid_mqtt_string_cases"
  using refused_new [of "[0x61]" 0 "[0x62]"] refused_new [of "[0x61]" 1 "[0x62]"] refused_new [of "[0x61]" "0x7F" "[0x62]"]
    overlong_new [of "replicate 65536 0x61"] overlong_new [of "concat (replicate 32768 [0xC3, 0xA9])"]
  by (simp add: invalid_mqtt_string_cases_def length_concat sum_list_replicate)

lemma shared_invalid_mqtt_string_pass:
  "list_all (\<lambda>s. is_invalid_byte_str (filter_new uc id s)) shared_invalid_mqtt_string_cases"
  using refused_new(2) [of "ascii ''$share/gro''" 0 "ascii ''up/a''"] refused_new(2) [of "ascii ''$share/gro''" 1 "ascii ''up/a''"]
    refused_new(2) [of "ascii ''$share/gro''" "0x7F" "ascii ''up/a''"]
    overlong_new(2) [of "ascii ''$share/group/'' @ replicate 65523 0x61"]
  by (simp add: shared_invalid_mqtt_string_cases_def)

lemma combine_invalid_pass:
  "list_all (\<lambda>first. is_invalid_byte_str (topic_combine uc first (Topic [0x62]))) combine_invalid_cases"
  using refused_new(1) [of "[0x61]" 0 "[0x62]"] refused_new(1) [of "[0x61]" 1 "[0x62]"] refused_new(1) [of "[0x61]" "0x7F" "[0x62]"]
    overlong_new(1) [of "replicate 65535 0x61 @ [0x62]"]
  by (simp add: combine_invalid_cases_def topic_combine_def contains_wildcard_def wildcard_defs set_replicate_conv_if)

end

interpretation control_table: control_tables ascii_unicode
  by unfold_locales (auto simp: ascii_unicode_def)

end
