(* ===== verification/Session_Tests.thy ===== *)
theory Session_Tests
  imports Codec_Tests Client_Tokens
begin

text \<open>
  The unit tests of the client: of the pool of packet identifiers (src/src/client/session/pkid.rs), of the
  session (src/src/client/session.rs), of acknowledgement tokens (src/src/client/token/acknowledgement.rs) and of completion
  tokens (src/src/client/token/completion.rs). Each is a function that performs the calls of the test on the
  model and is shown to pass; where a test has a start time, it is any time. The test of the size of a pool passes for
  every size, and what the ping tests look at in two examples holds of every sequence of pings.
\<close>

section \<open>The pool of packet identifiers\<close>

datatype pool_call = Lease "pkid option" | Release pkid bool

text \<open>The calls in order, each with the result the test expects.\<close>

fun pool_calls :: "pool_call list \<Rightarrow> pkid_pool \<Rightarrow> unit poll" where
  "pool_calls [] p = Ready ()"
| "pool_calls (Lease r # cs) p =
     (case lease_next_pkid p of
        None \<Rightarrow> Diverges
      | Some (k, p) \<Rightarrow> if k = r then pool_calls cs p else assert False)"
| "pool_calls (Release k r # cs) p =
     (case release_pkid k p of (b, p) \<Rightarrow> if b = r then pool_calls cs p else assert False)"

definition pkid_lease_order :: "unit poll" where
  "pkid_lease_order =
     pool_calls
       [Lease (Some 1), Lease (Some 2), Lease (Some 3), Lease (Some 4), Lease (Some 5), Lease None,
        Release 1 True, Lease (Some 1), Lease None,
        Release 3 True, Lease (Some 3),
        Release 2 True, Release 5 True, Lease (Some 5), Lease (Some 2), Lease None] (pkid_pool_new 5)"

definition pkid_release_nonexistent :: "unit poll" where
  "pkid_release_nonexistent = pool_calls [Release 1 False, Release 6 False] (pkid_pool_new 5)"

definition pkid_pool_size :: "pkid \<Rightarrow> unit poll" where
  "pkid_pool_size m =
     pool_calls (map (\<lambda>i. Lease (Some (of_nat i))) [1..<unat m + 1] @ [Lease None]) (pkid_pool_new m)"

text \<open>One round of the search, as nested conditions: they are decided before the next round is looked at.\<close>

lemma lease_loop_round:
  "lease_loop p =
     (if fst (cycle_next (pool_cycle p)) = None then None
      else if the (fst (cycle_next (pool_cycle p))) \<notin> leased p then
        Some (the (fst (cycle_next (pool_cycle p))),
          p\<lparr>leased := insert (the (fst (cycle_next (pool_cycle p)))) (leased p), pool_cycle := snd (cycle_next (pool_cycle p))\<rparr>)
      else lease_loop (p\<lparr>pool_cycle := snd (cycle_next (pool_cycle p))\<rparr>))"
  by (subst lease_loop.simps) (simp split: prod.split option.split)

lemma pkid_lease_order_pass: "pkid_lease_order = Ready ()"
  by (simp add: pkid_lease_order_def pkid_pool_new_def lease_next_pkid_def lease_loop_round cycle_next_def pkid_range_next_def
      pkid_range_new_def pkid_add_def release_pkid_def Let_def insert_Diff_if)

lemma pkid_release_nonexistent_pass: "pkid_release_nonexistent = Ready ()"
  by (simp add: pkid_release_nonexistent_def pkid_pool_new_def release_pkid_def)

text \<open>A pool that has leased the first \<open>i\<close> of its identifiers, one after the other.\<close>

definition pool_after :: "pkid \<Rightarrow> nat \<Rightarrow> pkid_pool" where
  "pool_after m i =
     \<lparr>leased = of_nat ` {1..i},
      pool_cycle = \<lparr>orig = pkid_range_new 1 m,
        iter = (if i = unat m then \<lparr>current = m, end_pkid = m, finished = True\<rparr>
                else \<lparr>current = of_nat (Suc i), end_pkid = m, finished = False\<rparr>)\<rparr>,
      max_pkid = m\<rparr>"

lemma unat_of_nat_le: "i \<le> unat (m :: pkid) \<Longrightarrow> unat (of_nat i :: pkid) = i"
  using unsigned_less [of m, where ?'a = nat] by (simp add: unat_of_nat)

lemma of_nat_inj_le: "i \<le> unat (m :: pkid) \<Longrightarrow> j \<le> unat m \<Longrightarrow> (of_nat i :: pkid) = of_nat j \<longleftrightarrow> i = j"
  by (metis unat_of_nat_le)

lemma pool_after_leases:
  assumes "i < unat m"
  shows "lease_next_pkid (pool_after m i) = Some (Some (of_nat (Suc i)), pool_after m (Suc i))"
proof -
  have "card (of_nat ` {1..i} :: pkid set) = i"
    using assms by (subst card_image) (auto intro!: inj_onI simp: of_nat_inj_le [of _ m])
  moreover have "(of_nat (Suc i) :: pkid) \<notin> of_nat ` {1..i}"
    using assms by (auto simp: of_nat_inj_le [of _ m] simp del: of_nat_Suc)
  moreover have "(of_nat (Suc i) :: pkid) = m \<longleftrightarrow> Suc i = unat m"
    using assms unat_of_nat_le [of "Suc i" m] by (metis Suc_leI unsigned_word_eqI)
  moreover have "(of_nat (Suc i) + 1 :: pkid) \<noteq> 0" if "Suc i \<noteq> unat m"
    using assms that unat_of_nat_le [of "Suc (Suc i)" m] by (metis Suc_leI Suc_lessI add.commute of_nat_Suc unat_0 nat.distinct(1))
  ultimately show ?thesis
    using assms
    by (auto simp: pool_after_def lease_next_pkid_def lease_loop.simps cycle_next_def pkid_range_next_def pkid_add_def Let_def
        atLeastAtMostSuc_conv add.commute simp del: of_nat_Suc simp add: of_nat_Suc [of "Suc i"])
qed

lemma pool_after_full: "lease_next_pkid (pool_after m (unat m)) = Some (None, pool_after m (unat m))"
proof -
  have "card (of_nat ` {1..unat m} :: pkid set) = unat m"
    by (subst card_image) (auto intro!: inj_onI simp: of_nat_inj_le [of _ m])
  then show ?thesis by (simp add: pool_after_def lease_next_pkid_def)
qed

lemma pool_after_calls:
  assumes "i \<le> unat m"
  shows "pool_calls (map (\<lambda>i. Lease (Some (of_nat i))) [Suc i..<unat m + 1] @ [Lease None]) (pool_after m i) = Ready ()"
  using assms
proof (induction rule: inc_induct)
  case base
  show ?case by (simp add: pool_after_full)
next
  case (step i)
  then have "[Suc i..<unat m + 1] = Suc i # [Suc (Suc i)..<unat m + 1]" by (simp add: upt_conv_Cons)
  with step show ?case by (simp add: pool_after_leases del: upt_Suc of_nat_Suc)
qed

lemma pkid_pool_size_pass: "0 < m \<Longrightarrow> pkid_pool_size m = Ready ()"
proof -
  assume "0 < m"
  then have "pool_after m 0 = pkid_pool_new m"
    by (auto simp: pool_after_def pkid_pool_new_def pkid_range_new_def unat_eq_0)
  then show ?thesis using pool_after_calls [of 0 m] by (simp add: pkid_pool_size_def)
qed

section \<open>The session\<close>

definition test_session :: session where
  "test_session = session_new 0xFFFF"

definition test_connack :: conn_ack where
  "test_connack = \<lparr>connack_reason_code = ConnectSuccess False, connack_other_properties = conn_ack_other_properties_default\<rparr>"

definition connack_with_method :: "string \<Rightarrow> conn_ack" where
  "connack_with_method s =
     test_connack\<lparr>connack_other_properties := conn_ack_other_properties_default
       \<lparr>connack_authentication := Some \<lparr>authentication_method = str_lit s, authentication_data = None\<rparr>\<rparr>\<rparr>"

definition send_ping :: "notifier \<Rightarrow> session \<Rightarrow> session" where
  "send_ping n s = s\<lparr>ch := (ch s)\<lparr>ping_rx := ping_rx (ch s) @ [PingRequest n]\<rparr>\<rparr>"

text \<open>
  Awaiting the next packet on a paused clock: when nothing is ready, the clock goes on to the deadline of the
  timer. The result, the session and the time.
\<close>

definition await_packet :: "nat \<Rightarrow> session \<Rightarrow> packet poll \<times> session \<times> nat" where
  "await_packet now s =
     (case next_outgoing_packet now s of
        (Pending, s) \<Rightarrow>
          (case pingreq_timer s of
             None \<Rightarrow> (Pending, s, now)
           | Some t \<Rightarrow> (let now = max now (deadline t) in case next_outgoing_packet now s of (r, s) \<Rightarrow> (r, s, now)))
      | (r, s) \<Rightarrow> (r, s, now))"

definition pubcomp_bypasses_publish_acknowledgement_ordering :: "nat \<Rightarrow> unit poll" where
  "pubcomp_bypasses_publish_acknowledgement_ordering now =
     (let pubcomp = \<lparr>pubcomp_packet_identifier = 1, pubcomp_reason_code = PubCompSuccess,
                     pubcomp_other_properties = ack_other_properties_default\<rparr>;
          session = test_session\<lparr>ch := (ch test_session)\<lparr>ack_rx := [AckPubComp 0 pubcomp]\<rparr>\<rparr>
      in case next_outgoing_request now session of
           (Ready (OutAcknowledgement (AckPubComp _ outgoing_pubcomp)), session) \<Rightarrow>
             assert (outgoing_pubcomp = pubcomp \<and> in_application session = [])
         | _ \<Rightarrow> Panic ''expected PUBCOMP acknowledgement request'')"

definition keep_alive_pingresp_does_not_complete_manual_ping :: "bool \<Rightarrow> nat \<Rightarrow> unit poll" where
  "keep_alive_pingresp_does_not_complete_manual_ping allow now =
     (case incoming_connack allow now test_connack (KeepAliveDuration 1) None (ExpiryDuration 0) test_session of
        (Inl e, session) \<Rightarrow> assert False
      | (Inr _, session) \<Rightarrow>
          (case await_packet now session of
             (Ready PingReqPacket, session, now) \<Rightarrow>
               (let now = now + 100 in
                case await_packet now (send_ping 0 session) of
                  (Ready PingReqPacket, session, now) \<Rightarrow>
                    (let now = now + 250;
                         session = incoming_pingresp now session;
                         session' = incoming_pingresp now session
                     in assert (completion_poll 0 (notifications session) = Pending \<and>
                          completion_poll 0 (notifications session') = Ready (Inr (CompletedPing 250))))
                | _ \<Rightarrow> assert False)
           | _ \<Rightarrow> assert False))"

definition disconnect_cancels_inflight_manual_ping :: "bool \<Rightarrow> nat \<Rightarrow> unit poll" where
  "disconnect_cancels_inflight_manual_ping allow now =
     (case incoming_connack allow now test_connack KeepAliveInfinite None (ExpiryDuration 0) test_session of
        (Inl e, session) \<Rightarrow> assert False
      | (Inr _, session) \<Rightarrow>
          (case next_outgoing_packet now (send_ping 0 session) of
             (Ready PingReqPacket, session) \<Rightarrow>
               (let session = transport_disconnect session in
                case completion_poll 0 (notifications session) of
                  Ready (Inl (Canceled _)) \<Rightarrow>
                    (case incoming_connack allow now test_connack KeepAliveInfinite None (ExpiryDuration 0) session of
                       (Inl e, session) \<Rightarrow> assert False
                     | (Inr _, session) \<Rightarrow>
                         (case next_outgoing_packet now (send_ping 1 session) of
                            (Ready PingReqPacket, session) \<Rightarrow>
                              assert (case completion_poll 1 (notifications (incoming_pingresp now session)) of
                                        Ready (Inr _) \<Rightarrow> True | _ \<Rightarrow> False)
                          | _ \<Rightarrow> assert False))
                | _ \<Rightarrow> assert False)
           | _ \<Rightarrow> assert False))"

definition rejected_connack_leaves_session_unchanged :: "bool \<Rightarrow> nat \<Rightarrow> unit poll" where
  "rejected_connack_leaves_session_unchanged allow now =
     (let session = test_session\<lparr>inflight := (inflight test_session)\<lparr>packets_to_replay := [PingReqPacket]\<rparr>\<rparr>
      in case incoming_connack allow now (connack_with_method ''unexpected method'') KeepAliveInfinite None (ExpiryDuration 0)
                session of
           (Inr _, session) \<Rightarrow> assert False
         | (Inl e, session) \<Rightarrow>
             assert (length (packets_to_replay (inflight session)) = 1 \<and> connection_epoch session = 0 \<and>
               \<not> is_connected session))"

text \<open>The next two tests are compiled with the feature \<open>__allow_omitted_auth_method\<close>.\<close>

definition omitted_auth_method_tolerated_on_successful_connack :: "nat \<Rightarrow> unit poll" where
  "omitted_auth_method_tolerated_on_successful_connack now =
     (let method = Some (ascii ''expected method'')
      in case incoming_connack True now (connack_with_method ''other method'') KeepAliveInfinite method (ExpiryDuration 0)
                test_session of
           (Inr _, session) \<Rightarrow> assert False
         | (Inl e, session) \<Rightarrow>
             (case incoming_connack True now test_connack KeepAliveInfinite method (ExpiryDuration 0) session of
                (Inr _, session) \<Rightarrow> assert (is_connected session)
              | (Inl e, session) \<Rightarrow> assert False))"

definition bare_auth :: "authenticate_reason_code \<Rightarrow> auth" where
  "bare_auth reason =
     \<lparr>auth_reason_code = reason, auth_authentication = None, auth_reason_string = None, auth_user_properties = []\<rparr>"

definition omitted_auth_method_tolerated_on_reauth_success :: "unit poll" where
  "omitted_auth_method_tolerated_on_reauth_success =
     (let session = test_session\<lparr>inflight := (inflight test_session)\<lparr>inflight_auth := Some (str_lit ''expected method'', 0)\<rparr>\<rparr>
      in case incoming_auth True (bare_auth ContinueAuthentication) session of
           (Inr _, session) \<Rightarrow> assert False
         | (Inl e, session) \<Rightarrow>
             (case incoming_auth True (bare_auth AuthSuccess) session of
                (Inl e, session) \<Rightarrow> assert False
              | (Inr _, session) \<Rightarrow>
                  assert (case completion_poll 0 (notifications session) of
                            Ready (Inr (CompletedReauth (ReauthSuccess _))) \<Rightarrow> True | _ \<Rightarrow> False)))"

lemmas session_evals = test_session_def session_new_def channels_new_def inflight_tracker_default_def test_connack_def
  connack_with_method_def send_ping_def await_packet_def incoming_connack_def connack_auth_ok_def authentication_method_matches_def
  connack_is_success_def byte_str_bytes_def session_expired_def keep_alive_timer_def timer_new_def next_outgoing_packet_def is_connected_def
  poll_for_outgoing_request_def poll_control_def poll_subscriptions_def poll_publish_qos0_def poll_publish_qos12_def
  poll_keep_alive_def timer_poll_def reset_pingreq_timer_def timer_reset_def incoming_pingresp_def transport_disconnect_def disconnected_def
  expire_if_zero_def cancel_all_def release_all_def im_keys_def notify_def conn_ack_other_properties_default_def
  replay_list_def incoming_auth_def bare_auth_def map_filter_simps next_outgoing_request.simps Let_def

lemma session_tests_pass:
  "pubcomp_bypasses_publish_acknowledgement_ordering now = Ready ()"
  "keep_alive_pingresp_does_not_complete_manual_ping allow now = Ready ()"
  "disconnect_cancels_inflight_manual_ping allow now = Ready ()"
  "rejected_connack_leaves_session_unchanged allow now = Ready ()"
  "omitted_auth_method_tolerated_on_successful_connack now = Ready ()"
  "omitted_auth_method_tolerated_on_reauth_success = Ready ()"
  subgoal by (simp add: pubcomp_bypasses_publish_acknowledgement_ordering_def session_evals)
  subgoal by (simp add: keep_alive_pingresp_does_not_complete_manual_ping_def session_evals)
  subgoal by (simp add: disconnect_cancels_inflight_manual_ping_def session_evals)
  subgoal by (simp add: rejected_connack_leaves_session_unchanged_def session_evals)
  subgoal by (simp add: omitted_auth_method_tolerated_on_successful_connack_def session_evals)
  subgoal by (simp add: omitted_auth_method_tolerated_on_reauth_success_def session_evals)
  done

section \<open>Pings in general\<close>

text \<open>What a PINGRESP at time \<open>now\<close> does with the oldest PINGREQ: nothing for one of the keep alive timer.\<close>

fun ping_answer :: "nat \<times> notifier option \<Rightarrow> nat \<Rightarrow> notification list" where
  "ping_answer (sent_at, None) now = []"
| "ping_answer (sent_at, Some n) now = [NComplete n (CompletedPing (now - sent_at))]"

lemma pingresp_answers:
  "incoming_pingresp now s =
     notify (concat (map2 ping_answer (inflight_pingreq (inflight s)) [now]))
       (s\<lparr>inflight := (inflight s)\<lparr>inflight_pingreq := drop 1 (inflight_pingreq (inflight s))\<rparr>\<rparr>)"
  by (cases "inflight_pingreq (inflight s)") (auto simp: incoming_pingresp_def notify_def Let_def split: option.split)

lemma pingresps_answer:
  "fold incoming_pingresp ts s =
     notify (concat (map2 ping_answer (inflight_pingreq (inflight s)) ts))
       (s\<lparr>inflight := (inflight s)\<lparr>inflight_pingreq := drop (length ts) (inflight_pingreq (inflight s))\<rparr>\<rparr>)"
proof (induction ts arbitrary: s)
  case (Cons now ts)
  show ?case
    unfolding fold.simps comp_def Cons.IH
    by (cases "inflight_pingreq (inflight s)") (simp_all add: pingresp_answers notify_def)
qed (simp add: notify_def)

lemma disconnected_cancels_pings:
  "set (cancel_all ''Client disconnected'' (List.map_filter snd (inflight_pingreq (inflight s)))) \<subseteq> set (notifications (disconnected s))"
  by (auto simp: disconnected_def notify_def Let_def)

section \<open>Acknowledgement tokens\<close>

text \<open>
  A request for a PUBACK and the other half of its completion pair. \<open>os\<close> are the one-shot channels and \<open>c\<close> is that
  of the pair, whose receiving half the test still holds or has dropped.
\<close>

definition assert_default_puback ::
  "('c, unit) completion_ops \<Rightarrow> acknowledgement_request option \<Rightarrow> pkid \<Rightarrow> u64 \<Rightarrow> 'c \<Rightarrow> unit poll"
where
  "assert_default_puback os request packet_identifier epoch c =
     (case request of
        Some (AckPubAck _ puback request_epoch) \<Rightarrow>
          assert (request_epoch = epoch \<and> puback_packet_identifier puback = packet_identifier \<and>
            puback_reason_code puback = PubAckSuccess \<and> puback_other_properties puback = ack_other_properties_default \<and>
            fst (notifier_complete os () c) = Ready (Inl ()))
      | _ \<Rightarrow> Panic ''Did not receive automatic PubAck acknowledgement request'')"

definition test_properties :: "string \<Rightarrow> ack_other_properties" where
  "test_properties reason =
     \<lparr>ack_reason_string = Some (str_lit reason),
      ack_user_properties = [(str_lit ''key1'', str_lit ''value1''), (str_lit ''key2'', str_lit ''value2'')]\<rparr>"

text \<open>\<open>rx.recv()\<close> after a token was used: the request must carry what was asked for and complete the token returned.\<close>

definition assert_submitted ::
  "('c, unit) completion_ops \<Rightarrow> (completion_error + notifier) \<times> ack_channel \<Rightarrow> pkid \<Rightarrow> pub_ack_reason_code \<Rightarrow>
     ack_other_properties \<Rightarrow> u64 \<Rightarrow> unit poll"
where
  "assert_submitted os result k reason properties epoch =
     (case result of
        (Inr completion_token, Some (AckPubAck notifier puback req_epoch # rest)) \<Rightarrow>
          assert (req_epoch = epoch \<and> puback_packet_identifier puback = k \<and> puback_reason_code puback = reason \<and>
            puback_other_properties puback = properties \<and> completion_token = notifier \<and> rest = [] \<and>
            (case notifier_complete os () (completion_pair os) of
               (Ready (Inr _), c) \<Rightarrow> fst (token_poll os c) = Ready (Inr ())
             | _ \<Rightarrow> False))
      | _ \<Rightarrow> Panic ''Did not receive PubAck acknowledgement request'')"

definition test_puback_token_accept :: "('c, unit) completion_ops \<Rightarrow> unit poll" where
  "test_puback_token_accept os =
     assert_submitted os (pub_ack_token_accept 0 1 (pub_ack_token_new 1 3) (test_properties ''Test Success'') (Some []))
       1 PubAckSuccess (test_properties ''Test Success'') 3"

definition test_puback_token_reject :: "('c, unit) completion_ops \<Rightarrow> unit poll" where
  "test_puback_token_reject os =
     assert_submitted os
       (pub_ack_token_reject 0 1 (pub_ack_token_new 1 3) PubAckNotAuthorized (test_properties ''Test Reject'') (Some []))
       1 PubAckNotAuthorized (test_properties ''Test Reject'') 3"

definition puback_token_drop_before_use :: "('c, unit) completion_ops \<Rightarrow> unit poll" where
  "puback_token_drop_before_use os =
     (case pub_ack_token_drop 0 (pub_ack_token_new 1 3) (Some []) of
        Some [request] \<Rightarrow> assert_default_puback os (Some request) 1 3 (oneshot_drop_receiver os (completion_pair os))
      | _ \<Rightarrow> assert False)"

definition bulk_drop_without_receiver_progress_is_synchronous :: "unit poll" where
  "bulk_drop_without_receiver_progress_is_synchronous =
     (case fold (\<lambda>i. pub_ack_token_drop i (pub_ack_token_new (of_nat i) 3)) [1..<1024 + 1] (Some []) of
        None \<Rightarrow> assert False
      | Some rx \<Rightarrow> assert (length rx = 1024))"

definition detached_session_rejects_manual_submission_and_ignores_drop :: "unit poll" where
  "detached_session_rejects_manual_submission_and_ignores_drop =
     (case pub_ack_token_accept 0 1 (pub_ack_token_new 1 3) ack_other_properties_default None of
        (Inr _, tx) \<Rightarrow> assert False
      | (Inl _, tx) \<Rightarrow> assert (pub_ack_token_drop 2 (pub_ack_token_new 2 3) tx = None))"

lemma bulk_drop:
  "map_option length (fold (\<lambda>i. pub_ack_token_drop i (pub_ack_token_new (of_nat i) e)) ns (Some q)) = Some (length q + length ns)"
  by (induction ns arbitrary: q) (simp_all del: map_option_eq_Some)

section \<open>Completion tokens\<close>

definition simple_completion :: "('c, 'a) completion_ops \<Rightarrow> 'a \<Rightarrow> unit poll" where
  "simple_completion os v =
     (case notifier_complete os v (completion_pair os) of
        (Ready (Inr _), c) \<Rightarrow> assert (fst (token_poll os c) = Ready (Inr v)) | _ \<Rightarrow> assert False)"

definition dropped_token :: "('c, 'a) completion_ops \<Rightarrow> 'a \<Rightarrow> unit poll" where
  "dropped_token os v =
     assert (fst (notifier_complete os v (oneshot_drop_receiver os (completion_pair os))) = Ready (Inl v))"

text \<open>The two tests of each public token type; \<open>poll\<close> is the poll of the type, and that of the wrapped token gives the simple tests.\<close>

definition cancellation :: "('c, 'a) completion_ops \<Rightarrow> ('c \<Rightarrow> (completion_error + 'b) poll \<times> 'c) \<Rightarrow> unit poll" where
  "cancellation os poll =
     (case notifier_cancel os ''test'' (completion_pair os) of
        (Ready (Inr _), c) \<Rightarrow> assert (fst (poll c) = Ready (Inl (Canceled ''test''))) | _ \<Rightarrow> assert False)"

definition dropped_notifier :: "('c, 'a) completion_ops \<Rightarrow> ('c \<Rightarrow> (completion_error + 'b) poll \<times> 'c) \<Rightarrow> unit poll" where
  "dropped_notifier os poll = assert (fst (poll (oneshot_drop_sender os (completion_pair os))) = Ready (Inl Detached))"

definition wrapped_errors :: "('c, 'a) completion_ops \<Rightarrow> ('c \<Rightarrow> (completion_error + 'b) poll \<times> 'c) \<Rightarrow> bool" where
  "wrapped_errors os poll \<longleftrightarrow> cancellation os poll = Ready () \<and> dropped_notifier os poll = Ready ()"

lemma pair_completes:
  assumes "oneshot_ok os st"
  obtains c where "notifier_complete os v (completion_pair os) = (Ready (Inr ()), c)" and "fst (token_poll os c) = Ready (Inr v)"
  using notify_once(1,2) [OF assms oneshot_new(1) [OF assms], of v] by (metis prod.collapse)

lemma pair_cancels:
  assumes "oneshot_ok os st"
  obtains c where "notifier_cancel os r (completion_pair os) = (Ready (Inr ()), c)" and "fst (token_poll os c) = Ready (Inl (Canceled r))"
  using notify_once(3,4) [OF assms oneshot_new(1) [OF assms], of r] by (metis prod.collapse)

lemma dropped_pair:
  assumes "oneshot_ok os st"
  shows "fst (notifier_complete os v (oneshot_drop_receiver os (completion_pair os))) = Ready (Inl v)"
  using notify_dropped(1) [OF assms] assms by (simp add: oneshot_ok_def completion_pair_def)

lemma completion_tests_pass:
  assumes "oneshot_ok os st"
  shows "simple_completion os v = Ready ()" and "dropped_token os v = Ready ()"
proof -
  obtain c where "notifier_complete os v (completion_pair os) = (Ready (Inr ()), c)" "fst (token_poll os c) = Ready (Inr v)"
    by (rule pair_completes [OF assms])
  then show "simple_completion os v = Ready ()" by (simp add: simple_completion_def)
  show "dropped_token os v = Ready ()" by (simp add: dropped_token_def dropped_pair [OF assms])
qed

lemma wrapped_errors_poll:
  assumes "oneshot_ok os st"
  shows "wrapped_errors os (token_poll os)" and "wrapped_errors os (mapped_poll f os)"
proof -
  obtain c where "notifier_cancel os ''test'' (completion_pair os) = (Ready (Inr ()), c)"
    "fst (token_poll os c) = Ready (Inl (Canceled ''test''))"
    by (rule pair_cancels [OF assms])
  then show "wrapped_errors os (token_poll os)" and "wrapped_errors os (mapped_poll f os)"
    using send_once(3) [OF assms oneshot_new(1) [OF assms]]
    by (simp_all add: wrapped_errors_def cancellation_def dropped_notifier_def mapped_poll_error)
qed

lemma wrapped_errors_pass:
  "oneshot_ok os0 st0 \<Longrightarrow> wrapped_errors os0 (publish_qos0_token_poll os0)"
  "oneshot_ok os1 st1 \<Longrightarrow> wrapped_errors os1 (publish_qos1_token_poll os1)"
  "oneshot_ok os2 st2 \<Longrightarrow> wrapped_errors os2 (publish_qos2_token_poll os2)"
  "oneshot_ok os3 st3 \<Longrightarrow> wrapped_errors os3 (pub_rec_accept_token_poll os3)"
  "oneshot_ok os4 st4 \<Longrightarrow> wrapped_errors os4 (pub_rec_reject_token_poll os4)"
  "oneshot_ok os5 st5 \<Longrightarrow> wrapped_errors os5 (pub_rel_token_poll os5)"
  "oneshot_ok os6 st6 \<Longrightarrow> wrapped_errors os6 (subscribe_token_poll os6)"
  "oneshot_ok os7 st7 \<Longrightarrow> wrapped_errors os7 (unsubscribe_token_poll os7)"
  "oneshot_ok os8 st8 \<Longrightarrow> wrapped_errors os8 (ping_token_poll os8)"
  "oneshot_ok os9 st9 \<Longrightarrow> wrapped_errors os9 (reauth_token_poll os9)"
  "oneshot_ok os10 st10 \<Longrightarrow> wrapped_errors os10 (pub_ack_token_poll os10)"
  "oneshot_ok os11 st11 \<Longrightarrow> wrapped_errors os11 (pub_comp_confirm_token_poll os11)"
  by (simp_all add: wrapped_errors_poll publish_qos0_token_poll_def publish_qos1_token_poll_def publish_qos2_token_poll_def
      pub_rec_accept_token_poll_def pub_rec_reject_token_poll_def pub_rel_token_poll_def subscribe_token_poll_def
      unsubscribe_token_poll_def ping_token_poll_def reauth_token_poll_def pub_ack_token_poll_def pub_comp_confirm_token_poll_def)

text \<open>The tests of the acknowledgement tokens, whose completion pairs are tested with them.\<close>

lemma acknowledgement_tests_pass:
  assumes "oneshot_ok os st"
  shows "test_puback_token_accept os = Ready ()" and "test_puback_token_reject os = Ready ()"
    and "puback_token_drop_before_use os = Ready ()" and "bulk_drop_without_receiver_progress_is_synchronous = Ready ()"
    and "detached_session_rejects_manual_submission_and_ignores_drop = Ready ()"
proof -
  obtain c where "notifier_complete os () (completion_pair os) = (Ready (Inr ()), c)" "fst (token_poll os c) = Ready (Inr ())"
    by (rule pair_completes [OF assms])
  then show "test_puback_token_accept os = Ready ()" and "test_puback_token_reject os = Ready ()"
    by (simp_all add: test_puback_token_accept_def test_puback_token_reject_def assert_submitted_def
        pub_ack_token_accept_def pub_ack_token_reject_def pub_ack_token_new_def)
  show "puback_token_drop_before_use os = Ready ()"
    by (simp add: puback_token_drop_before_use_def assert_default_puback_def dropped_pair [OF assms])
  show "bulk_drop_without_receiver_progress_is_synchronous = Ready ()"
    using bulk_drop [of 3 "[1..<1024 + 1]" "[]"]
    by (auto simp: bulk_drop_without_receiver_progress_is_synchronous_def simp del: upt_Suc)
qed (simp add: detached_session_rejects_manual_submission_and_ignores_drop_def pub_ack_token_accept_def
    pub_ack_token_drop_def inner_send_def pub_ack_token_new_def)

end
