(* ===== verification/Conversion_Tests.thy ===== *)
theory Conversion_Tests
  imports Codec_Tests Api_Results
begin

text \<open>
  The tests of the conversions between the public packet types and those of the wire (the test module of
  src/src/packet.rs). A conversion into a wire type that panics gives \<open>None\<close>. The macros of the module generate, for a
  pair of a public and an internal packet, a comparison after conversion of the packet and two for its properties.
\<close>

section \<open>Oracles\<close>

definition compare_as_buffered :: "('t \<Rightarrow> 'u option) \<Rightarrow> 't \<Rightarrow> 'u \<Rightarrow> unit poll" where
  "compare_as_buffered into packet proto_packet =
     (case into packet of
        None \<Rightarrow> Panic ''called `Result::unwrap()` on an `Err` value''
      | Some buffered \<Rightarrow> assert (buffered = proto_packet))"

definition compare_as_unbuffered :: "('u \<Rightarrow> 't) \<Rightarrow> 't \<Rightarrow> 'u \<Rightarrow> unit poll" where
  "compare_as_unbuffered from packet proto_packet = assert (from proto_packet = packet)"

definition bidirectional_conversion :: "('u \<Rightarrow> 't) \<Rightarrow> ('t \<Rightarrow> 'u option) \<Rightarrow> 't \<times> 'u \<Rightarrow> unit poll" where
  "bidirectional_conversion from into c =
     assert (compare_as_unbuffered from (fst c) (snd c) = Ready () \<and> compare_as_buffered into (fst c) (snd c) = Ready ())"

definition packet_and_property_conversions ::
  "('u \<Rightarrow> 't) \<Rightarrow> ('q \<Rightarrow> 'p) \<Rightarrow> ('p \<Rightarrow> 'q option) \<Rightarrow> ('t \<Rightarrow> 'p) \<Rightarrow> ('u \<Rightarrow> 'q) \<Rightarrow> 't \<times> 'u \<Rightarrow> unit poll"
where
  "packet_and_property_conversions from props_from props_into properties other_properties c =
     assert (compare_as_unbuffered from (fst c) (snd c) = Ready () \<and>
       bidirectional_conversion props_from props_into (properties (fst c), other_properties (snd c)) = Ready ())"

section \<open>Cases\<close>

abbreviation public_pairs :: "(bytes \<times> bytes) list" where
  "public_pairs \<equiv> [(ascii ''key1'', ascii ''value1''), (ascii ''key2'', ascii ''value2'')]"

abbreviation wire_pairs :: user_properties where
  "wire_pairs \<equiv> [(str_lit ''key1'', str_lit ''value1''), (str_lit ''key2'', str_lit ''value2'')]"

abbreviation wire_ack_properties :: "string \<Rightarrow> ack_other_properties" where
  "wire_ack_properties s \<equiv> \<lparr>ack_reason_string = Some (str_lit s), ack_user_properties = wire_pairs\<rparr>"

definition connect_case :: "connect_properties_api \<times> connect_other_properties" where
  "connect_case =
     (\<lparr>cp_session_expiry_interval = ExpiryDuration 3600, cp_receive_maximum = 100, cp_maximum_packet_size = 1024,
       cp_topic_alias_maximum = 10, cp_request_response_information = True, cp_request_problem_information = False,
       cp_user_properties = public_pairs\<rparr>,
      \<lparr>connect_session_expiry_interval = ExpiryDuration 3600, connect_receive_maximum = 100, connect_maximum_packet_size = 1024,
       connect_topic_alias_maximum = 10, connect_request_response_information = True,
       connect_request_problem_information = False, connect_user_properties = wire_pairs, connect_authentication = None\<rparr>)"

definition connack_case :: "conn_ack_api \<times> conn_ack" where
  "connack_case =
     (\<lparr>ca_session_present = True, ca_reason = ConnAckReason_Success,
       ca_properties =
         \<lparr>cap_session_expiry_interval = Some (ExpiryDuration 3600), cap_receive_maximum = 100,
          cap_maximum_qos = QoS_AtLeastOnce, cap_retain_available = True, cap_maximum_packet_size = 1024,
          cap_assigned_client_identifier = Some (ascii ''client_id''), cap_topic_alias_maximum = 10,
          cap_reason_string = Some (ascii ''Not authorized''), cap_user_properties = public_pairs,
          cap_wildcard_subscription_available = True, cap_subscription_identifiers_available = True,
          cap_shared_subscription_available = False, cap_server_keep_alive = Some (KeepAliveDuration 30),
          cap_response_information = Some (ascii ''response info''), cap_server_reference = Some (ascii ''server ref'')\<rparr>\<rparr>,
      \<lparr>connack_reason_code = ConnectSuccess True,
       connack_other_properties =
         \<lparr>connack_session_expiry_interval = Some (ExpiryDuration 3600), connack_receive_maximum = 100,
          connack_maximum_qos = AtLeastOnce, connack_retain_available = True, connack_maximum_packet_size = 1024,
          connack_assigned_client_id = Some (str_lit ''client_id''), connack_topic_alias_maximum = 10,
          connack_reason_string = Some (str_lit ''Not authorized''), connack_user_properties = wire_pairs,
          connack_wildcard_subscription_available = True, connack_shared_subscription_available = False,
          connack_subscription_identifiers_available = True, connack_server_keep_alive = Some (KeepAliveDuration 30),
          connack_response_information = Some (str_lit ''response info''),
          connack_server_reference = Some (str_lit ''server ref''), connack_authentication = None\<rparr>\<rparr>)"

definition publish_case :: "publish_api \<times> publish" where
  "publish_case =
     (\<lparr>pub_payload = ascii ''payload'',
       pub_qos = DeliveryAtLeastOnce \<lparr>delivery_dup = True, delivery_packet_identifier = 42\<rparr>,
       pub_retain = True, pub_topic_name = Topic (ascii ''topic/name''),
       pub_properties =
         \<lparr>pp_payload_format_indicator = UTF8, pp_message_expiry_interval = Some 3600, pp_topic_alias = Some 1,
          pp_response_topic = Some (Topic (ascii ''response/topic'')), pp_correlation_data = Some (ascii ''correlation''),
          pp_user_properties = public_pairs, pp_subscription_identifiers = [1, 42],
          pp_content_type = Some (ascii ''content/type'')\<rparr>\<rparr>,
      \<lparr>publish_topic_name = Topic (str_lit ''topic/name''), packet_identifier_dup_qos = PdqAtLeastOnce 42 True,
       publish_retain = True, publish_payload = ascii ''payload'',
       publish_other_properties =
         \<lparr>publish_payload_is_utf8 = True, publish_message_expiry_interval = Some 3600, publish_topic_alias = Some 1,
          publish_response_topic = Some (Topic (str_lit ''response/topic'')),
          publish_correlation_data = Some (bin_lit ''correlation''), publish_user_properties = wire_pairs,
          publish_subscription_identifiers = [1, 42], publish_content_type = Some (str_lit ''content/type'')\<rparr>\<rparr>)"

definition puback_case :: "pub_ack_api \<times> pub_ack" where
  "puback_case =
     (\<lparr>pa_packet_identifier = 42, pa_reason = PubAckReason_NotAuthorized,
       pa_properties = \<lparr>pap_reason_string = Some (ascii ''Not authorized''), pap_user_properties = public_pairs\<rparr>\<rparr>,
      \<lparr>puback_packet_identifier = 42, puback_reason_code = PubAckNotAuthorized,
       puback_other_properties = wire_ack_properties ''Not authorized''\<rparr>)"

definition pubrec_case :: "pub_rec_api \<times> pub_rec" where
  "pubrec_case =
     (\<lparr>prc_packet_identifier = 42, prc_reason = PubRecReason_NotAuthorized,
       prc_properties = \<lparr>prc_reason_string = Some (ascii ''Not authorized''), prc_user_properties = public_pairs\<rparr>\<rparr>,
      \<lparr>pubrec_packet_identifier = 42, pubrec_reason_code = PubRecNotAuthorized,
       pubrec_other_properties = wire_ack_properties ''Not authorized''\<rparr>)"

definition pubrel_case :: "pub_rel_api \<times> pub_rel" where
  "pubrel_case =
     (\<lparr>prl_packet_identifier = 42, prl_reason = PubRelReason_PacketIdentifierNotFound,
       prl_properties = \<lparr>prl_reason_string = Some (ascii ''Packet ID not found''), prl_user_properties = public_pairs\<rparr>\<rparr>,
      \<lparr>pubrel_packet_identifier = 42, pubrel_reason_code = PubRelPacketIdentifierNotFound,
       pubrel_other_properties = wire_ack_properties ''Packet ID not found''\<rparr>)"

definition pubcomp_case :: "pub_comp_api \<times> pub_comp" where
  "pubcomp_case =
     (\<lparr>pc_packet_identifier = 42, pc_reason = PubCompReason_PacketIdentifierNotFound,
       pc_properties = \<lparr>pcp_reason_string = Some (ascii ''Packet ID not found''), pcp_user_properties = public_pairs\<rparr>\<rparr>,
      \<lparr>pubcomp_packet_identifier = 42, pubcomp_reason_code = PubCompPacketIdentifierNotFound,
       pubcomp_other_properties = wire_ack_properties ''Packet ID not found''\<rparr>)"

definition subscribe_case :: "subscribe_properties \<times> subscribe_other_properties" where
  "subscribe_case =
     (\<lparr>srp_subscription_identifier = Some 42, srp_user_properties = public_pairs\<rparr>,
      \<lparr>subscription_identifier = Some 42, subscribe_user_properties = wire_pairs\<rparr>)"

definition suback_case :: "sub_ack_api \<times> sub_ack" where
  "suback_case =
     (\<lparr>sa_packet_identifier = 42, sa_reasons = [SubAckReason_GrantedQoS0, SubAckReason_NotAuthorized],
       sa_properties = \<lparr>sap_reason_string = Some (ascii ''Not authorized''), sap_user_properties = public_pairs\<rparr>\<rparr>,
      \<lparr>suback_packet_identifier = 42, suback_reason_codes = [GrantedQoS0, SubNotAuthorized],
       suback_other_properties = wire_ack_properties ''Not authorized''\<rparr>)"

definition unsubscribe_case :: "(bytes \<times> bytes) list \<times> user_properties" where
  "unsubscribe_case = (public_pairs, wire_pairs)"

definition unsuback_case :: "unsub_ack_api \<times> unsub_ack" where
  "unsuback_case =
     (\<lparr>ua_packet_identifier = 42, ua_reasons = [UnsubAckReason_Success, UnsubAckReason_NotAuthorized],
       ua_properties = \<lparr>uap_reason_string = Some (ascii ''Not authorized''), uap_user_properties = public_pairs\<rparr>\<rparr>,
      \<lparr>unsuback_packet_identifier = 42, unsuback_reason_codes = [UnsubSuccess, UnsubNotAuthorized],
       unsuback_other_properties = wire_ack_properties ''Not authorized''\<rparr>)"

definition disconnect_case :: "disconnect_api \<times> disconnect" where
  "disconnect_case =
     (\<lparr>disconnect_reason = DisconnectReason_NormalDisconnection,
       disconnect_api_properties =
         \<lparr>dp_session_expiry_interval = Some (ExpiryDuration 3600), dp_reason_string = Some (ascii ''Normal disconnection''),
          dp_user_properties = public_pairs, dp_server_reference = Some (ascii ''server/ref'')\<rparr>\<rparr>,
      \<lparr>disconnect_reason_code = DisconnectNormal,
       disconnect_other_properties =
         \<lparr>disconnect_session_expiry_interval = Some (ExpiryDuration 3600),
          disconnect_reason_string = Some (str_lit ''Normal disconnection''), disconnect_user_properties = wire_pairs,
          disconnect_server_reference = Some (str_lit ''server/ref'')\<rparr>\<rparr>)"

definition auth_case :: "auth_api \<times> auth" where
  "auth_case =
     (\<lparr>auth_reason = AuthReason_ContinueAuthentication,
       auth_info = Some \<lparr>ai_method = ascii ''authmethod'', ai_data = Some (ascii ''authdata'')\<rparr>,
       auth_api_properties =
         \<lparr>ap_reason_string = Some (ascii ''Continue authentication''), ap_user_properties = public_pairs\<rparr>\<rparr>,
      \<lparr>auth_reason_code = ContinueAuthentication,
       auth_authentication = Some \<lparr>authentication_method = str_lit ''authmethod'', authentication_data = Some (bin_lit ''authdata'')\<rparr>,
       auth_reason_string = Some (str_lit ''Continue authentication''), auth_user_properties = wire_pairs\<rparr>)"

text \<open>The default of a public type converts into the default of the wire type.\<close>

definition property_defaults :: "unit poll" where
  "property_defaults =
     assert (compare_as_buffered connect_properties_into connect_properties_default connect_other_properties_default = Ready () \<and>
       compare_as_buffered conn_ack_properties_into conn_ack_properties_default conn_ack_other_properties_default = Ready () \<and>
       compare_as_buffered publish_properties_into publish_properties_default publish_other_properties_default = Ready () \<and>
       compare_as_buffered puback_properties_into \<lparr>pap_reason_string = None, pap_user_properties = []\<rparr>
         ack_other_properties_default = Ready () \<and>
       compare_as_buffered pubrec_properties_into \<lparr>prc_reason_string = None, prc_user_properties = []\<rparr>
         ack_other_properties_default = Ready () \<and>
       compare_as_buffered pubrel_properties_into \<lparr>prl_reason_string = None, prl_user_properties = []\<rparr>
         ack_other_properties_default = Ready () \<and>
       compare_as_buffered pubcomp_properties_into \<lparr>pcp_reason_string = None, pcp_user_properties = []\<rparr>
         ack_other_properties_default = Ready () \<and>
       compare_as_buffered subscribe_properties_into \<lparr>srp_subscription_identifier = None, srp_user_properties = []\<rparr>
         \<lparr>subscription_identifier = None, subscribe_user_properties = []\<rparr> = Ready () \<and>
       compare_as_buffered suback_properties_into \<lparr>sap_reason_string = None, sap_user_properties = []\<rparr>
         ack_other_properties_default = Ready () \<and>
       compare_as_buffered unsubscribe_properties_into [] [] = Ready () \<and>
       compare_as_buffered unsuback_properties_into \<lparr>uap_reason_string = None, uap_user_properties = []\<rparr>
         ack_other_properties_default = Ready () \<and>
       compare_as_buffered disconnect_properties_into
         \<lparr>dp_session_expiry_interval = None, dp_reason_string = None, dp_user_properties = [], dp_server_reference = None\<rparr>
         disconnect_other_properties_default = Ready ())"

section \<open>The tests pass\<close>

lemma short_lit_into [simp]:
  "length s \<le> 65535 \<Longrightarrow> str_into (ascii s) = Some (str_lit s)"
  "length s \<le> 65535 \<Longrightarrow> binary_into (ascii s) = Some (bin_lit s)"
  by (simp_all add: str_into_def binary_into_def poll_option_def lit_into)

lemma pair_lit [simp]:
  "length k \<le> 65535 \<Longrightarrow> length v \<le> 65535 \<Longrightarrow> pair_into (ascii k, ascii v) = Some (str_lit k, str_lit v)"
  "pair_of (str_lit k, str_lit v) = (ascii k, ascii v)"
  by (simp_all add: pair_into_def pair_of_def)

lemmas conversion_evals = bidirectional_conversion_def packet_and_property_conversions_def compare_as_buffered_def compare_as_unbuffered_def

lemma property_conversions_pass:
  "bidirectional_conversion connect_properties_from connect_properties_into connect_case = Ready ()"
  "bidirectional_conversion subscribe_properties_of subscribe_properties_into subscribe_case = Ready ()"
  "bidirectional_conversion unsubscribe_properties_of unsubscribe_properties_into unsubscribe_case = Ready ()"
  "bidirectional_conversion auth_of auth_into auth_case = Ready ()"
  by (simp_all add: conversion_evals connect_case_def connect_properties_from_def connect_properties_into_def
      subscribe_case_def subscribe_properties_of_def subscribe_properties_into_def unsubscribe_case_def unsubscribe_properties_of_def
      unsubscribe_properties_into_def auth_case_def auth_of_def auth_into_def authentication_info_of_def authentication_info_into_def
      del: ascii_simps lit_simps)

lemma connection_conversions_pass:
  "packet_and_property_conversions conn_ack_of conn_ack_properties_of conn_ack_properties_into ca_properties
     connack_other_properties connack_case = Ready ()"
  "packet_and_property_conversions publish_of publish_properties_of publish_properties_into pub_properties
     publish_other_properties publish_case = Ready ()"
  "packet_and_property_conversions disconnect_of disconnect_properties_of disconnect_properties_into disconnect_api_properties
     disconnect_other_properties disconnect_case = Ready ()"
  by (simp_all add: conversion_evals connack_case_def conn_ack_of_def conn_ack_properties_of_def conn_ack_properties_into_def
      publish_case_def publish_of_def publish_properties_of_def publish_properties_into_def topic_of_def
      disconnect_case_def disconnect_of_def disconnect_properties_of_def disconnect_properties_into_def del: ascii_simps lit_simps)

lemma acknowledgement_conversions_pass:
  "packet_and_property_conversions pub_ack_of puback_properties_of puback_properties_into pa_properties
     puback_other_properties puback_case = Ready ()"
  "packet_and_property_conversions pub_rec_of pubrec_properties_of pubrec_properties_into prc_properties
     pubrec_other_properties pubrec_case = Ready ()"
  "packet_and_property_conversions pub_rel_of pubrel_properties_of pubrel_properties_into prl_properties
     pubrel_other_properties pubrel_case = Ready ()"
  "packet_and_property_conversions pub_comp_of pubcomp_properties_of pubcomp_properties_into pc_properties
     pubcomp_other_properties pubcomp_case = Ready ()"
  "packet_and_property_conversions sub_ack_of suback_properties_of suback_properties_into sa_properties
     suback_other_properties suback_case = Ready ()"
  "packet_and_property_conversions unsub_ack_of unsuback_properties_of unsuback_properties_into ua_properties
     unsuback_other_properties unsuback_case = Ready ()"
  by (simp_all add: conversion_evals puback_case_def pub_ack_of_def puback_properties_of_def puback_properties_into_def
      pubrec_case_def pub_rec_of_def pubrec_properties_of_def pubrec_properties_into_def
      pubrel_case_def pub_rel_of_def pubrel_properties_of_def pubrel_properties_into_def
      pubcomp_case_def pub_comp_of_def pubcomp_properties_of_def pubcomp_properties_into_def
      suback_case_def sub_ack_of_def suback_properties_of_def suback_properties_into_def
      unsuback_case_def unsub_ack_of_def unsuback_properties_of_def unsuback_properties_into_def del: ascii_simps lit_simps)

lemma property_defaults_pass: "property_defaults = Ready ()"
  by (simp add: property_defaults_def compare_as_buffered_def connect_properties_into_def connect_properties_default_def
      connect_other_properties_default_def conn_ack_properties_into_def conn_ack_properties_default_def conn_ack_other_properties_default_def
      publish_properties_into_def publish_properties_default_def publish_other_properties_default_def ack_other_properties_default_def
      puback_properties_into_def pubrec_properties_into_def pubrel_properties_into_def pubcomp_properties_into_def
      subscribe_properties_into_def suback_properties_into_def unsubscribe_properties_into_def unsuback_properties_into_def
      disconnect_properties_into_def disconnect_other_properties_default_def)

end
