(* ===== verification/Conformance.thy ===== *)
theory Conformance
  imports Codec_Vectors Filter_Tests Session_Tests Conversion_Tests
begin

text \<open>
  The model against the crate's own unit tests: the tests that the theories \<open>Codec_Tests\<close> to
  \<open>Conversion_Tests\<close> translate pass on the model, and what they try on examples about pings holds in general.
\<close>

section \<open>The unit tests\<close>

text \<open>Unit tests of the codec, of topics and filters, of the session, the identifier pool and the tokens, and of the
  conversions of packet.rs pass on the model. Every test vector encodes to the bytes it names and is read back, malformed packets are
  refused with the error the test names, topics and filters are valid, invalid, equal and matched as their tables say, and
  the scripted calls on a session, on a pool of identifiers of any size and on tokens give the expected results. The tables of Unicode
  are only assumed to be right on ASCII, and the cases with other characters are left out.
\<close>

theorem unit_tests_pass:
  assumes ascii: "utf8_ascii uc" and controls: "\<forall>c. c < 32 \<or> c = 127 \<longrightarrow> general_category uc c = Control"
    and pool: "0 < m" and channels: "oneshot_ok os st"
  shows
    "list_all (\<lambda>(v, packet, expected). encode_decode uc v packet expected = Ready ()) codec_vectors \<and>
     list_all (\<lambda>(encoding, version). will_properties_flags_set_but_not_will_flag uc encoding version = Ready ()) will_flags_cases \<and>
     list_all (\<lambda>(encoding, version, username_present, password_present).
       password_flag_set_but_not_username_flag uc encoding version username_present password_present = Ready ()) password_cases \<and>
     list_all (\<lambda>(given, matches, expected). reencode uc given matches expected = Ready ())
       (connack_reencode_cases @ disconnect_reencode_cases) \<and>
     no_local_for_shared_subscription uc = Ready () \<and>
     list_all (\<lambda>(f, err). filter_invalid uc f err = Ready ()) filter_invalid_cases \<and>
     list_all (\<lambda>s. is_invalid_byte_str (topic_new uc id s) \<and> is_invalid_byte_str (filter_new uc id s)) invalid_mqtt_string_cases \<and>
     list_all (\<lambda>(f, topics). filter_match True uc f topics = Ready ()) filter_match_cases \<and>
     list_all (\<lambda>(f, topics). filter_match False uc f topics = Ready ()) filter_mismatch_cases \<and>
     pkid_lease_order = Ready () \<and>
     pkid_pool_size m = Ready () \<and>
     keep_alive_pingresp_does_not_complete_manual_ping allow now = Ready () \<and>
     disconnect_cancels_inflight_manual_ping allow now = Ready () \<and>
     rejected_connack_leaves_session_unchanged allow now = Ready () \<and>
     test_puback_token_reject os = Ready () \<and>
     packet_and_property_conversions publish_of publish_properties_of publish_properties_into pub_properties
       publish_other_properties publish_case = Ready ()"
proof -
  have c: "control_tables uc" using ascii controls by unfold_locales auto
  then have a: "ascii_tables uc" by (rule control_tables.axioms)
  note codec = ascii_tables.codec_vectors_ok [OF a] ascii_tables.will_flags_pass [OF a] ascii_tables.password_pass [OF a]
    ascii_tables.reencode_pass [OF a] ascii_tables.no_local_pass [OF a]
  note topics = ascii_tables.filter_invalid_pass [OF a] control_tables.invalid_mqtt_string_pass [OF c]
    ascii_tables.filter_match_pass [OF a] ascii_tables.filter_mismatch_pass [OF a]
  note client = pkid_lease_order_pass pkid_pool_size_pass [OF pool] session_tests_pass acknowledgement_tests_pass [OF channels] connection_conversions_pass
  show ?thesis using codec topics client by blast
qed

theorem unit_tests_pass_witness:
  "list_all (\<lambda>(v, packet, expected). encode_decode ascii_unicode v packet expected = Ready ()) codec_vectors \<and>
   list_all (\<lambda>(f, topics). filter_match True ascii_unicode f topics = Ready ()) filter_match_cases \<and>
   pkid_pool_size 0xFFFF = Ready ()"
proof -
  have controls: "\<forall>c. c < 32 \<or> c = 127 \<longrightarrow> general_category ascii_unicode c = Control"
    by (simp add: ascii_unicode_def)
  have "0 < (0xFFFF :: pkid)" by simp
  from unit_tests_pass [OF ascii_unicode_ok(1) controls this plain_oneshot_ok, of False 0] show ?thesis
    by - (elim conjE, intro conjI; assumption)
qed

section \<open>Pings\<close>

text \<open>C37. PINGRESPs answer the PINGREQs of a connection in the order these were sent: the token of each ping the application asked
  for completes with the time since its own PINGREQ, one of the keep alive timer completes nothing, responses beyond the last
  PINGREQ change nothing, and the end of the connection cancels the pings that are left.
\<close>

theorem pingresps_answer_in_order:
  "let pings = inflight_pingreq (inflight s); s' = fold incoming_pingresp arrivals s in
     notifications s' = notifications s @ concat (map2 ping_answer pings arrivals) \<and>
     s' = s\<lparr>inflight := (inflight s)\<lparr>inflight_pingreq := drop (length arrivals) pings\<rparr>, notifications := notifications s'\<rparr> \<and>
     set (map (\<lambda>n. NCancel n ''Client disconnected'') (List.map_filter snd (drop (length arrivals) pings))) \<subseteq>
       set (notifications (disconnected s')) \<and>
     inflight_pingreq (inflight (disconnected s')) = []"
proof -
  have "inflight_pingreq (inflight (disconnected s)) = []" for s by (simp add: disconnected_def notify_def Let_def)
  then show ?thesis
    using disconnected_cancels_pings [of "fold incoming_pingresp arrivals s"]
    by (simp add: Let_def pingresps_answer notify_def cancel_all_def)
qed

end
