(* ===== verification/Example_Apps.thy ===== *)
theory Example_Apps
  imports Client_Tokens
begin

text \<open>
  The workflows of the example programs (src/examples): receiving with explicit acknowledgement
  (scenario_1_simple.rs), the document that is kept up to date (scenario_2_document_update.rs) and the relay between two servers
  (scenario_3_relay.rs). A workflow is a task: its state is the \<open>await\<close> it stands at with the values it
  holds, and a step runs it to its next \<open>await\<close>. \<open>Pending\<close> means that it still waits there. Between two steps of a task
  anything may happen to the channels it shares with the session and to the log of completions. The locale
  \<open>serial_consumer\<close> has what all three share: they take messages one at a time and settle each before the next.
\<close>

section \<open>UTF-8\<close>

text \<open>\<open>str::from_utf8\<close> of the standard library: well-formed sequences of one to four bytes, shortest forms only, no surrogates.
  \<open>utf8_tail\<close> gives the bytes that may follow the first one.\<close>

definition utf8_tail :: "u8 \<Rightarrow> (u8 \<Rightarrow> bool) list option" where
  "utf8_tail a =
     (let continuation = (\<lambda>b. 0x80 \<le> b \<and> b \<le> 0xBF)
      in if a \<le> 0x7F then Some []
         else if 0xC2 \<le> a \<and> a \<le> 0xDF then Some [continuation]
         else if a = 0xE0 then Some [\<lambda>b. 0xA0 \<le> b \<and> b \<le> 0xBF, continuation]
         else if a = 0xED then Some [\<lambda>b. 0x80 \<le> b \<and> b \<le> 0x9F, continuation]
         else if 0xE1 \<le> a \<and> a \<le> 0xEF then Some [continuation, continuation]
         else if a = 0xF0 then Some [\<lambda>b. 0x90 \<le> b \<and> b \<le> 0xBF, continuation, continuation]
         else if 0xF1 \<le> a \<and> a \<le> 0xF3 then Some [continuation, continuation, continuation]
         else if a = 0xF4 then Some [\<lambda>b. 0x80 \<le> b \<and> b \<le> 0x8F, continuation, continuation]
         else None)"

fun utf8_valid :: "bytes \<Rightarrow> bool" where
  "utf8_valid [] = True"
| "utf8_valid (a # r) =
     (case utf8_tail a of
        None \<Rightarrow> False
      | Some ps \<Rightarrow> list_all2 (\<lambda>p b. p b) ps (take (length ps) r) \<and> utf8_valid (drop (length ps) r))"

lemma utf8_valid_append: "utf8_valid s \<Longrightarrow> utf8_valid t \<Longrightarrow> utf8_valid (s @ t)"
proof (induction s rule: utf8_valid.induct)
  case (2 a r)
  then obtain ps where ps: "utf8_tail a = Some ps" "list_all2 (\<lambda>p b. p b) ps (take (length ps) r)" "utf8_valid (drop (length ps) r)"
    by (auto split: option.splits)
  then have "length ps \<le> length r" by (auto dest: list_all2_lengthD)
  with ps 2 show ?case by simp
qed simp

lemma utf8_valid_ascii: "list_all (\<lambda>b. b \<le> 0x7F) s \<Longrightarrow> utf8_valid s"
  by (induction s) (simp_all add: utf8_tail_def)

section \<open>Tasks\<close>

text \<open>
  A run of a task from its first state: the steps it took, each with the world it found and the one it left. The world of a step is
  arbitrary, so it stands for whatever the session, the network and other tasks did in between.
\<close>

inductive task_run :: "(nat \<Rightarrow> 'st \<Rightarrow> 'w \<Rightarrow> ('st \<times> 'w) poll) \<Rightarrow> 'st \<Rightarrow> ('st \<times> 'w \<times> 'st \<times> 'w) list \<Rightarrow> 'st \<Rightarrow> bool"
  for step st0 where
  start: "task_run step st0 [] st0"
| step: "task_run step st0 tr st \<Longrightarrow> step n st w = Ready (st', w') \<Longrightarrow> task_run step st0 (tr @ [(st, w, st', w')]) st'"

text \<open>The messages a run takes and those it has settled, in order; \<open>holding\<close> is the message a state has in hand.\<close>

definition taken :: "('st \<Rightarrow> 'm option) \<Rightarrow> ('st \<times> 'w \<times> 'st \<times> 'w) list \<Rightarrow> 'm list" where
  "taken holding tr = List.map_filter (\<lambda>(st, w, st', w'). if holding st = None then holding st' else None) tr"

definition settled :: "('st \<Rightarrow> 'm option) \<Rightarrow> ('st \<times> 'w \<times> 'st \<times> 'w) list \<Rightarrow> 'm list" where
  "settled holding tr = List.map_filter (\<lambda>(st, w, st', w'). if holding st' = None then holding st else None) tr"

lemma map_filter_snoc [simp]:
  "List.map_filter f (xs @ [x]) = List.map_filter f xs @ (case f x of None \<Rightarrow> [] | Some y \<Rightarrow> [y])"
  by (simp add: List.map_filter_def split: option.split)

lemma settled_snoc: "settled h (tr @ [(st, w, st', w')]) = settled h tr @ (if h st' = None then case h st of None \<Rightarrow> [] | Some m \<Rightarrow> [m] else [])"
  by (simp add: settled_def split: option.split)

lemma taken_snoc: "taken h (tr @ [(st, w, st', w')]) = taken h tr @ (if h st = None then case h st' of None \<Rightarrow> [] | Some m \<Rightarrow> [m] else [])"
  by (simp add: taken_def split: option.split)

locale serial_consumer =
  fixes step :: "nat \<Rightarrow> 'st \<Rightarrow> 'w \<Rightarrow> ('st \<times> 'w) poll" and holding :: "'st \<Rightarrow> 'm option"
  assumes one_in_hand: "step n st w = Ready (st', w') \<Longrightarrow> holding st = Some m \<Longrightarrow> holding st' \<in> {None, Some m}"
begin

lemma settles_in_order:
  assumes "task_run step st0 tr st" and "holding st0 = None"
  shows "taken holding tr = settled holding tr @ (case holding st of None \<Rightarrow> [] | Some m \<Rightarrow> [m])"
  using assms(1)
proof induction
  case start
  then show ?case using assms(2) by (simp add: taken_def settled_def map_filter_simps)
next
  case (step tr st n w st' w')
  then show ?case
    using one_in_hand [OF step.hyps(2)] by (auto simp: taken_snoc settled_snoc split: option.splits)
qed

end

section \<open>Acknowledging\<close>

text \<open>Dropping a \<open>ManualAcknowledgement\<close>: the token of a QoS 1 publish submits the default PUBACK with the completion pair \<open>n\<close>.\<close>

primrec manual_ack_drop :: "notifier \<Rightarrow> manual_acknowledgement \<Rightarrow> ack_channel \<Rightarrow> ack_channel" where
  "manual_ack_drop n ManualQoS0 tx = tx"
| "manual_ack_drop n (ManualQoS1 token) tx = pub_ack_token_drop n token tx"

definition puback_properties_default :: puback_properties where
  "puback_properties_default = \<lparr>pap_reason_string = None, pap_user_properties = []\<rparr>"

section \<open>The relay\<close>

text \<open>
  What the relay shares with others: the queue of its downstream receiver, the acknowledgement channel of the downstream session,
  the channels and the log of the upstream session, whether these channels give permits (a parameter that may change from step to
  step), and the shutdown flag.
\<close>

record relay_world =
  ds_alive :: bool
  ds_incoming :: "incoming_publish_and_token list"
  ds_acks :: ack_channel
  us_channels :: "channels option"
  us_permit :: permits
  us_log :: "notification list"
  shutdown :: bool

datatype relay_state =
    Relay_Receiving
  | Relay_Publishing publish_api manual_acknowledgement
  | Relay_Completing notifier publish_api manual_acknowledgement
  | Relay_Returned "string + unit"

definition us_publish :: "permits \<Rightarrow> client \<Rightarrow> notifier \<Rightarrow> publish_api \<Rightarrow> channels option \<Rightarrow> notifier submitted" where
  "us_publish permit us_client n publish us =
     (case pub_qos publish of
        DeliveryAtMostOnce \<Rightarrow>
          client_publish_qos0 permit us_client n (pub_topic_name publish) (pub_payload publish) False (pub_properties publish) us
      | DeliveryAtLeastOnce _ \<Rightarrow>
          client_publish_qos1 permit us_client n (pub_topic_name publish) (pub_payload publish) False (pub_properties publish) us
      | DeliveryExactlyOnce _ \<Rightarrow> (Panic ''internal error: entered unreachable code'', us))"

text \<open>
  \<open>n\<close> is the completion pair that the upstream publish makes, \<open>n'\<close> the one of the acknowledgement. Errors of the upstream attempt are
  printed and otherwise ignored.
\<close>

fun message_relay :: "client \<Rightarrow> notifier \<Rightarrow> notifier \<Rightarrow> relay_state \<Rightarrow> relay_world \<Rightarrow> (relay_state \<times> relay_world) poll" where
  "message_relay us_client n n' Relay_Receiving w =
     (case receiver_recv (ds_alive w) (ds_incoming w) of
        (Ready (Some (publish, manual_ack)), rest) \<Rightarrow>
          Ready (Relay_Publishing publish manual_ack, w\<lparr>ds_incoming := rest\<rparr>)
      | (Ready None, rest) \<Rightarrow>
          Ready (Relay_Returned (if shutdown w then Inr () else Inl ''Downstream receiver closed unexpectedly''), w)
      | (_, rest) \<Rightarrow> Pending)"
| "message_relay us_client n n' (Relay_Publishing publish manual_ack) w =
     (case us_publish (us_permit w) us_client n publish (us_channels w) of
        (Ready (Inr completion), us) \<Rightarrow> Ready (Relay_Completing completion publish manual_ack, w\<lparr>us_channels := us\<rparr>)
      | (Ready (Inl error), us) \<Rightarrow>
          Ready (Relay_Receiving, w\<lparr>us_channels := us, ds_acks := manual_ack_drop n' manual_ack (ds_acks w)\<rparr>)
      | (Pending, us) \<Rightarrow> Pending
      | (Panic m, us) \<Rightarrow> Panic m
      | (Diverges, us) \<Rightarrow> Diverges)"
| "message_relay us_client n n' (Relay_Completing ct publish manual_ack) w =
     (case completion_poll ct (us_log w) of
        Ready result \<Rightarrow> Ready (Relay_Receiving, w\<lparr>ds_acks := manual_ack_drop n' manual_ack (ds_acks w)\<rparr>)
      | Pending \<Rightarrow> Pending
      | Panic m \<Rightarrow> Panic m
      | Diverges \<Rightarrow> Diverges)"
| "message_relay us_client n n' (Relay_Returned r) w = Pending"

fun relay_holding :: "relay_state \<Rightarrow> (publish_api \<times> manual_acknowledgement) option" where
  "relay_holding (Relay_Publishing publish manual_ack) = Some (publish, manual_ack)"
| "relay_holding (Relay_Completing ct publish manual_ack) = Some (publish, manual_ack)"
| "relay_holding _ = None"

abbreviation relay_step :: "client \<Rightarrow> nat \<Rightarrow> relay_state \<Rightarrow> relay_world \<Rightarrow> (relay_state \<times> relay_world) poll" where
  "relay_step us_client n \<equiv> message_relay us_client n (Suc n)"

interpretation relay: serial_consumer "relay_step us_client" relay_holding
proof
  fix n st w st' w' m
  assume "relay_step us_client n st w = Ready (st', w')" and "relay_holding st = Some m"
  then show "relay_holding st' \<in> {None, Some m}"
    by (cases st) (auto split: prod.splits poll.splits sum.splits)
qed

text \<open>The request of a publish that is relayed: everything is kept but the retain flag, which is cleared.\<close>

definition relayed :: "publish_api \<Rightarrow> notifier \<Rightarrow> channels \<Rightarrow> channels \<Rightarrow> bool" where
  "relayed p n us us' \<longleftrightarrow>
     (\<exists>topic props. topic_into (pub_topic_name p) = Some topic \<and> publish_properties_into (pub_properties p) = Some props \<and>
       (case pub_qos p of
          DeliveryAtMostOnce \<Rightarrow>
            us' = us\<lparr>o_pub_q0_rx := o_pub_q0_rx us @ [PublishRequestQoS0 n topic (pub_payload p) False props]\<rparr>
        | DeliveryAtLeastOnce _ \<Rightarrow>
            us' = us\<lparr>o_pub_q12_rx := o_pub_q12_rx us @ [PublishQoS1Request n topic (pub_payload p) False props]\<rparr>
        | DeliveryExactlyOnce _ \<Rightarrow> False))"

lemma us_publish_relays:
  assumes "us_publish permit us_client n p us = (Ready (Inr ct), us')"
  shows "ct = n \<and> (\<exists>c c'. us = Some c \<and> us' = Some c' \<and> relayed p n c c')"
  using assms
  by (auto simp: us_publish_def relayed_def client_publish_qos0_def client_publish_qos1_def or_panic_def mpsc_send_def
      split: delivery_qos.splits option.splits if_splits)

lemma us_publish_refused: "us_publish permit us_client n p us = (Ready (Inl e), us') \<Longrightarrow> us = None \<and> us' = None"
  by (auto simp: us_publish_def client_publish_qos0_def client_publish_qos1_def or_panic_def mpsc_send_def
      split: delivery_qos.splits option.splits if_splits)

text \<open>The relayed publishes of a run, in order.\<close>

definition relayed_publishes :: "(relay_state \<times> relay_world \<times> relay_state \<times> relay_world) list \<Rightarrow> publish_api list" where
  "relayed_publishes tr =
     List.map_filter (\<lambda>(st, w, st', w'). case (st, st') of
        (Relay_Publishing p a, Relay_Completing ct _ _) \<Rightarrow> Some p | _ \<Rightarrow> None) tr"

text \<open>
  What a step may do: submit the publish in hand upstream, or acknowledge it downstream once its attempt is over (refused because the
  upstream session is gone, or reported by its token), or neither.
\<close>

definition relay_effect :: "relay_state \<times> relay_world \<times> relay_state \<times> relay_world \<Rightarrow> bool" where
  "relay_effect = (\<lambda>(st, w, st', w').
     case (st, st') of
       (Relay_Publishing p a, Relay_Completing n p' a') \<Rightarrow>
         p' = p \<and> a' = a \<and> ds_acks w' = ds_acks w \<and>
         (\<exists>c c'. us_channels w = Some c \<and> us_channels w' = Some c' \<and> relayed p n c c')
     | (Relay_Publishing p a, Relay_Receiving) \<Rightarrow>
         us_channels w = None \<and> us_channels w' = None \<and> (\<exists>n. ds_acks w' = manual_ack_drop n a (ds_acks w))
     | (Relay_Completing ct p a, Relay_Receiving) \<Rightarrow>
         completion_poll ct (us_log w) \<noteq> Pending \<and> us_channels w' = us_channels w \<and>
         (\<exists>n. ds_acks w' = manual_ack_drop n a (ds_acks w))
     | _ \<Rightarrow> ds_acks w' = ds_acks w \<and> us_channels w' = us_channels w)"

lemma relay_step_effect: "relay_step us_client n st w = Ready (st', w') \<Longrightarrow> relay_effect (st, w, st', w')"
  by (cases st) (auto simp: relay_effect_def dest!: us_publish_relays us_publish_refused split: prod.splits poll.splits sum.splits option.splits)

lemma relay_run_effects: "task_run (relay_step us_client) st0 tr st \<Longrightarrow> list_all relay_effect tr"
  by (induction rule: task_run.induct) (auto dest: relay_step_effect)

definition completing :: "relay_state \<Rightarrow> publish_api list" where
  "completing st = (case st of Relay_Completing _ p _ \<Rightarrow> [p] | _ \<Rightarrow> [])"

lemma relay_run_publishes:
  assumes "task_run (relay_step us_client) Relay_Receiving tr st" and "list_all (\<lambda>(st, w, st', w'). us_channels w \<noteq> None) tr"
  shows "relayed_publishes tr = map fst (settled relay_holding tr) @ completing st"
  using assms
proof induction
  case start
  then show ?case by (simp add: relayed_publishes_def settled_def completing_def map_filter_simps)
next
  case (step tr st n w st' w')
  then have IH: "relayed_publishes tr = map fst (settled relay_holding tr) @ completing st" and us: "us_channels w \<noteq> None" by auto
  from step.hyps(2) us IH show ?case
    by (cases st) (auto simp: relayed_publishes_def settled_snoc completing_def dest: us_publish_refused
        split: prod.splits poll.splits sum.splits option.splits)
qed

section \<open>Receiving with explicit acknowledgement\<close>

text \<open>What a workflow on one session shares with it: incoming messages, acknowledgements, requests, permits and the log of
  completions.\<close>

record app_world =
  app_alive :: bool
  app_incoming :: "incoming_publish_and_token list"
  app_acks :: ack_channel
  app_channels :: "channels option"
  app_permit :: permits
  app_log :: "notification list"
  app_now :: nat

definition process_payload :: "bytes \<Rightarrow> string + unit" where
  "process_payload payload = (if utf8_valid payload then Inr () else Inl ''Utf8Error'')"

datatype receive_state =
    Receive_Waiting
  | Receive_Processing publish_api manual_acknowledgement
  | Receive_Completing notifier publish_api manual_acknowledgement
  | Receive_Returned "completion_error + unit"

text \<open>An invalid payload is rejected, a valid one accepted; \<open>?\<close> ends the workflow with the error of the session or the token.\<close>

fun receive :: "notifier \<Rightarrow> notifier \<Rightarrow> receive_state \<Rightarrow> app_world \<Rightarrow> (receive_state \<times> app_world) poll" where
  "receive n n' Receive_Waiting w =
     (case receiver_recv (app_alive w) (app_incoming w) of
        (Ready (Some (publish, manual_ack)), rest) \<Rightarrow>
          Ready (Receive_Processing publish manual_ack, w\<lparr>app_incoming := rest\<rparr>)
      | (Ready None, rest) \<Rightarrow> Ready (Receive_Returned (Inr ()), w)
      | (_, rest) \<Rightarrow> Pending)"
| "receive n n' (Receive_Processing publish manual_ack) w =
     (case manual_ack of
        ManualQoS0 \<Rightarrow> Ready (Receive_Waiting, w)
      | ManualQoS1 puback_token \<Rightarrow>
          (case (case process_payload (pub_payload publish) of
                   Inl error \<Rightarrow>
                     puback_token_reject n n' puback_token PubRejectReason_PayloadFormatInvalid puback_properties_default (app_acks w)
                 | Inr _ \<Rightarrow> puback_token_accept n n' puback_token puback_properties_default (app_acks w)) of
             (Ready (Inr ct), acks) \<Rightarrow> Ready (Receive_Completing ct publish manual_ack, w\<lparr>app_acks := acks\<rparr>)
           | (Ready (Inl e), acks) \<Rightarrow> Ready (Receive_Returned (Inl e), w\<lparr>app_acks := acks\<rparr>)
           | (Pending, acks) \<Rightarrow> Pending
           | (Panic m, acks) \<Rightarrow> Panic m
           | (Diverges, acks) \<Rightarrow> Diverges))"
| "receive n n' (Receive_Completing ct publish manual_ack) w =
     (case completion_poll ct (app_log w) of
        Ready (Inr _) \<Rightarrow> Ready (Receive_Waiting, w)
      | Ready (Inl e) \<Rightarrow> Ready (Receive_Returned (Inl e), w)
      | Pending \<Rightarrow> Pending
      | Panic m \<Rightarrow> Panic m
      | Diverges \<Rightarrow> Diverges)"
| "receive n n' (Receive_Returned r) w = Pending"

fun receive_holding :: "receive_state \<Rightarrow> (publish_api \<times> manual_acknowledgement) option" where
  "receive_holding (Receive_Processing publish manual_ack) = Some (publish, manual_ack)"
| "receive_holding (Receive_Completing ct publish manual_ack) = Some (publish, manual_ack)"
| "receive_holding _ = None"

abbreviation receive_step :: "nat \<Rightarrow> receive_state \<Rightarrow> app_world \<Rightarrow> (receive_state \<times> app_world) poll" where
  "receive_step n \<equiv> receive n (Suc n)"

interpretation receive: serial_consumer receive_step receive_holding
proof
  fix n st w st' w' m
  assume "receive_step n st w = Ready (st', w')" and "receive_holding st = Some m"
  then show "receive_holding st' \<in> {None, Some m}"
    by (cases st) (auto split: prod.splits poll.splits sum.splits manual_acknowledgement.splits)
qed

text \<open>The PUBACK of a message: it tells whether the payload was valid.\<close>

definition verdict :: "notifier \<Rightarrow> publish_api \<Rightarrow> pub_ack_token \<Rightarrow> acknowledgement_request" where
  "verdict n publish token =
     AckPubAck n \<lparr>puback_packet_identifier = token_pkid token,
       puback_reason_code = (if utf8_valid (pub_payload publish) then PubAckSuccess else PubAckPayloadFormatInvalid),
       puback_other_properties = ack_other_properties_default\<rparr> (token_epoch token)"

lemma default_properties_into: "puback_properties_into puback_properties_default = Some ack_other_properties_default"
  by (simp add: puback_properties_into_def puback_properties_default_def ack_other_properties_default_def)

text \<open>A step that acknowledges submits exactly this PUBACK; no other step touches the acknowledgements.\<close>

lemma receive_acknowledges:
  assumes "receive_step n st w = Ready (st', w')" and "app_acks w = Some q"
  shows "app_acks w' =
    (case (st, st') of
       (Receive_Processing p (ManualQoS1 t), Receive_Completing _ _ _) \<Rightarrow> Some (q @ [verdict n p t])
     | _ \<Rightarrow> Some q)"
  using assms
  by (cases st) (auto simp: process_payload_def verdict_def puback_token_accept_def puback_token_reject_def default_properties_into
      pub_ack_token_accept_def pub_ack_token_reject_def
      split: prod.splits poll.splits sum.splits option.splits manual_acknowledgement.splits if_splits)

section \<open>Publishing after subscribing\<close>

datatype program_state =
    Program_Subscribing
  | Program_Subscribed notifier
  | Program_Publishing
  | Program_Published notifier
  | Program_Sleeping nat
  | Program_Returned string

definition subscribe_properties_default :: subscribe_properties where
  "subscribe_properties_default = \<lparr>srp_subscription_identifier = None, srp_user_properties = []\<rparr>"

text \<open>\<open>flt\<close> and \<open>topic\<close> are the filter and the name made of \<open>TOPIC\<close>; a failed operation ends the program.\<close>

fun program :: "client \<Rightarrow> bytes filter \<Rightarrow> bytes topic \<Rightarrow> notifier \<Rightarrow> program_state \<Rightarrow> app_world \<Rightarrow> (program_state \<times> app_world) poll" where
  "program client flt topic n Program_Subscribing w =
     (case client_subscribe (app_permit w) client n flt QoS_AtLeastOnce False retain_options_default subscribe_properties_default (app_channels w) of
        (Ready (Inr ct), c) \<Rightarrow> Ready (Program_Subscribed ct, w\<lparr>app_channels := c\<rparr>)
      | (Ready (Inl e), c) \<Rightarrow> Ready (Program_Returned ''detached'', w\<lparr>app_channels := c\<rparr>)
      | (Pending, c) \<Rightarrow> Pending
      | (Panic m, c) \<Rightarrow> Panic m
      | (Diverges, c) \<Rightarrow> Diverges)"
| "program client flt topic n (Program_Subscribed ct) w =
     (case completion_poll ct (app_log w) of
        Ready (Inr (CompletedSubAck suback)) \<Rightarrow>
          (case sub_ack_as_result (sub_ack_of suback) of
             Inr _ \<Rightarrow> Ready (Program_Publishing, w)
           | Inl e \<Rightarrow> Ready (Program_Returned ''operation failure'', w))
      | Ready _ \<Rightarrow> Ready (Program_Returned ''completion error'', w)
      | Pending \<Rightarrow> Pending
      | Panic m \<Rightarrow> Panic m
      | Diverges \<Rightarrow> Diverges)"
| "program client flt topic n Program_Publishing w =
     (case client_publish_qos1 (app_permit w) client n topic (ascii ''Hello, MQTT!'') False publish_properties_default (app_channels w) of
        (Ready (Inr ct), c) \<Rightarrow> Ready (Program_Published ct, w\<lparr>app_channels := c\<rparr>)
      | (Ready (Inl e), c) \<Rightarrow> Ready (Program_Returned ''detached'', w\<lparr>app_channels := c\<rparr>)
      | (Pending, c) \<Rightarrow> Pending
      | (Panic m, c) \<Rightarrow> Panic m
      | (Diverges, c) \<Rightarrow> Diverges)"
| "program client flt topic n (Program_Published ct) w =
     (case completion_poll ct (app_log w) of
        Ready (Inr (CompletedPubAck puback)) \<Rightarrow>
          (case pub_ack_as_result (pub_ack_of puback) of
             Inr _ \<Rightarrow> Ready (Program_Sleeping (app_now w + 5000), w)
           | Inl e \<Rightarrow> Ready (Program_Returned ''operation failure'', w))
      | Ready _ \<Rightarrow> Ready (Program_Returned ''completion error'', w)
      | Pending \<Rightarrow> Pending
      | Panic m \<Rightarrow> Panic m
      | Diverges \<Rightarrow> Diverges)"
| "program client flt topic n (Program_Sleeping until) w = (if until \<le> app_now w then Ready (Program_Publishing, w) else Pending)"
| "program client flt topic n (Program_Returned r) w = Pending"

text \<open>The program publishes only when a SUBACK has granted its subscription.\<close>

definition granted_in :: "(program_state \<times> app_world \<times> program_state \<times> app_world) list \<Rightarrow> bool" where
  "granted_in tr \<longleftrightarrow>
     list_ex (\<lambda>(st, w, st', w'). case st of
        Program_Subscribed ct \<Rightarrow>
          (case completion_poll ct (app_log w) of
             Ready (Inr (CompletedSubAck suback)) \<Rightarrow> sub_ack_is_success (sub_ack_of suback)
           | _ \<Rightarrow> False)
      | _ \<Rightarrow> False) tr"

lemma program_publishes_when_granted:
  assumes "task_run (program client flt topic) Program_Subscribing tr st"
    and "st = Program_Publishing \<or> (\<exists>ct. st = Program_Published ct) \<or> (\<exists>until. st = Program_Sleeping until)"
  shows "granted_in tr"
  using assms
proof (induction rule: task_run.induct)
  case (step tr st n w st' w')
  then show ?case
    by (cases st) (auto simp: granted_in_def sub_ack_as_result_def split: prod.splits poll.splits sum.splits completion.splits if_splits)
qed simp

section \<open>The document\<close>

text \<open>The two routing queues of a connection, and what the workflow shares with the session.\<close>

record document_world =
  base_document_rx :: "(publish_api \<times> manual_acknowledgement) list"
  update_rx :: "(publish_api \<times> manual_acknowledgement) list"
  routes_open :: bool
  doc_alive :: bool
  doc_incoming :: "incoming_publish_and_token list"
  doc_acks :: ack_channel
  doc_channels :: "channels option"
  doc_permit :: permits
  doc_log :: "notification list"

text \<open>One round of \<open>dispatch_publishes\<close>; the result tells whether the receiver is closed, which ends it.\<close>

definition dispatch_publishes ::
  "notifier \<Rightarrow> bytes filter \<Rightarrow> bytes filter \<Rightarrow> document_world \<Rightarrow> (bool \<times> document_world) poll"
where
  "dispatch_publishes n base_document_filter update_filter w =
     (case receiver_recv (doc_alive w) (doc_incoming w) of
        (Ready None, rest) \<Rightarrow> Ready (True, w)
      | (Ready (Some (publish, manual_ack)), rest) \<Rightarrow>
          (let w = w\<lparr>doc_incoming := rest\<rparr>
           in Ready (False,
                if matches_topic_filter (pub_topic_name publish) base_document_filter then
                  w\<lparr>base_document_rx := base_document_rx w @ [(publish, manual_ack)]\<rparr>
                else if matches_topic_filter (pub_topic_name publish) update_filter then
                  w\<lparr>update_rx := update_rx w @ [(publish, manual_ack)]\<rparr>
                else w\<lparr>doc_acks := manual_ack_drop n manual_ack (doc_acks w)\<rparr>))
      | (_, rest) \<Rightarrow> Pending)"

text \<open>The messages are dropped with their acknowledgements, the \<open>i\<close>-th with the completion pair \<open>i\<close>.\<close>

definition discard_queued_messages :: "document_world \<Rightarrow> nat \<times> document_world" where
  "discard_queued_messages w =
     (let acks = map (snd \<circ> incoming_into) (doc_incoming w) @ map snd (base_document_rx w) @ map snd (update_rx w)
      in (length acks,
          w\<lparr>doc_incoming := [], base_document_rx := [], update_rx := [],
            doc_acks := fold (\<lambda>(i, a). manual_ack_drop i a) (enumerate 0 acks) (doc_acks w)\<rparr>))"

text \<open>The token to await, none for QoS 0.\<close>

primrec reject_invalid_utf8 ::
  "notifier \<Rightarrow> notifier \<Rightarrow> manual_acknowledgement \<Rightarrow> ack_channel \<Rightarrow> (completion_error + notifier option) poll \<times> ack_channel"
where
  "reject_invalid_utf8 n n' ManualQoS0 acks = (Ready (Inr None), acks)"
| "reject_invalid_utf8 n n' (ManualQoS1 token) acks =
     apfst (map_poll (map_sum id Some))
       (puback_token_reject n n' token PubRejectReason_PayloadFormatInvalid puback_properties_default acks)"

text \<open>
  \<open>maintain_document\<close>: subscribing to the base document and waiting for the SUBACK, waiting for a valid base document, then the same for
  updates, which are appended. \<open>None\<close> for the document stands for the first phase.
\<close>

datatype document_state =
    Doc_Subscribing "bytes option"
  | Doc_Subscribed "bytes option" notifier
  | Doc_Waiting "bytes option"
  | Doc_Processing "bytes option" publish_api manual_acknowledgement
  | Doc_Rejecting "bytes option" notifier publish_api manual_acknowledgement
  | Doc_Returned "string + unit"

fun next_document :: "bytes option \<Rightarrow> bytes \<Rightarrow> document_state" where
  "next_document None payload = Doc_Subscribing (Some payload)"
| "next_document (Some document) payload = Doc_Waiting (Some (document @ payload))"

text \<open>\<open>document_rx\<close> is the queue of the phase.\<close>

definition document_recv ::
  "bytes option \<Rightarrow> document_world \<Rightarrow> (publish_api \<times> manual_acknowledgement) option poll \<times> document_world"
where
  "document_recv doc w =
     (case if doc = None then base_document_rx w else update_rx w of
        [] \<Rightarrow> (if routes_open w then Pending else Ready None, w)
      | m # rest \<Rightarrow> (Ready (Some m), if doc = None then w\<lparr>base_document_rx := rest\<rparr> else w\<lparr>update_rx := rest\<rparr>))"

fun maintain_document ::
  "client \<Rightarrow> bytes filter \<Rightarrow> bytes filter \<Rightarrow> notifier \<Rightarrow> notifier \<Rightarrow> document_state \<Rightarrow> document_world \<Rightarrow>
     (document_state \<times> document_world) poll"
where
  "maintain_document client base_filter update_filter n n' (Doc_Subscribing doc) w =
     (case client_subscribe (doc_permit w) client n (if doc = None then base_filter else update_filter) QoS_AtLeastOnce False
             retain_options_default subscribe_properties_default (doc_channels w) of
        (Ready (Inr ct), c) \<Rightarrow> Ready (Doc_Subscribed doc ct, w\<lparr>doc_channels := c\<rparr>)
      | (Ready (Inl e), c) \<Rightarrow> Ready (Doc_Returned (Inl ''detached''), w\<lparr>doc_channels := c\<rparr>)
      | (Pending, c) \<Rightarrow> Pending
      | (Panic m, c) \<Rightarrow> Panic m
      | (Diverges, c) \<Rightarrow> Diverges)"
| "maintain_document client base_filter update_filter n n' (Doc_Subscribed doc ct) w =
     (case completion_poll ct (doc_log w) of
        Ready (Inr (CompletedSubAck suback)) \<Rightarrow>
          (case sub_ack_as_result (sub_ack_of suback) of
             Inr _ \<Rightarrow> Ready (Doc_Waiting doc, w)
           | Inl e \<Rightarrow> Ready (Doc_Returned (Inl ''operation failure''), w))
      | Ready _ \<Rightarrow> Ready (Doc_Returned (Inl ''completion error''), w)
      | Pending \<Rightarrow> Pending
      | Panic m \<Rightarrow> Panic m
      | Diverges \<Rightarrow> Diverges)"
| "maintain_document client base_filter update_filter n n' (Doc_Waiting doc) w =
     (case document_recv doc w of
        (Ready None, w) \<Rightarrow> Ready (Doc_Returned (Inr ()), w)
      | (Ready (Some (publish, manual_ack)), w) \<Rightarrow> Ready (Doc_Processing doc publish manual_ack, w)
      | (_, w) \<Rightarrow> Pending)"
| "maintain_document client base_filter update_filter n n' (Doc_Processing doc publish manual_ack) w =
     (if utf8_valid (pub_payload publish) then
        Ready (next_document doc (pub_payload publish), w\<lparr>doc_acks := manual_ack_drop n manual_ack (doc_acks w)\<rparr>)
      else case reject_invalid_utf8 n n' manual_ack (doc_acks w) of
        (Ready (Inr None), acks) \<Rightarrow> Ready (Doc_Waiting doc, w\<lparr>doc_acks := acks\<rparr>)
      | (Ready (Inr (Some ct)), acks) \<Rightarrow> Ready (Doc_Rejecting doc ct publish manual_ack, w\<lparr>doc_acks := acks\<rparr>)
      | (Ready (Inl e), acks) \<Rightarrow> Ready (Doc_Returned (Inl ''detached''), w\<lparr>doc_acks := acks\<rparr>)
      | (Pending, acks) \<Rightarrow> Pending
      | (Panic m, acks) \<Rightarrow> Panic m
      | (Diverges, acks) \<Rightarrow> Diverges)"
| "maintain_document client base_filter update_filter n n' (Doc_Rejecting doc ct publish manual_ack) w =
     (case completion_poll ct (doc_log w) of
        Ready (Inr _) \<Rightarrow> Ready (Doc_Waiting doc, w)
      | Ready (Inl e) \<Rightarrow> Ready (Doc_Returned (Inl ''completion error''), w)
      | Pending \<Rightarrow> Pending
      | Panic m \<Rightarrow> Panic m
      | Diverges \<Rightarrow> Diverges)"
| "maintain_document client base_filter update_filter n n' (Doc_Returned r) w = Pending"

fun document_holding :: "document_state \<Rightarrow> (publish_api \<times> manual_acknowledgement) option" where
  "document_holding (Doc_Processing doc publish manual_ack) = Some (publish, manual_ack)"
| "document_holding (Doc_Rejecting doc ct publish manual_ack) = Some (publish, manual_ack)"
| "document_holding _ = None"

fun document_of :: "document_state \<Rightarrow> bytes option option" where
  "document_of (Doc_Subscribing doc) = Some doc"
| "document_of (Doc_Subscribed doc ct) = Some doc"
| "document_of (Doc_Waiting doc) = Some doc"
| "document_of (Doc_Processing doc p a) = Some doc"
| "document_of (Doc_Rejecting doc ct p a) = Some doc"
| "document_of (Doc_Returned r) = None"

abbreviation document_step ::
  "client \<Rightarrow> bytes filter \<Rightarrow> bytes filter \<Rightarrow> nat \<Rightarrow> document_state \<Rightarrow> document_world \<Rightarrow> (document_state \<times> document_world) poll"
where
  "document_step client base_filter update_filter n \<equiv> maintain_document client base_filter update_filter n (Suc n)"

lemma next_document_simps [simp]:
  "document_holding (next_document doc p) = None"
  "document_of (next_document doc p) = Some (Some ((case doc of None \<Rightarrow> [] | Some d \<Rightarrow> d) @ p))"
  by (cases doc; simp)+

interpretation document: serial_consumer "document_step client base_filter update_filter" document_holding
proof
  fix n st w st' w' m
  assume "document_step client base_filter update_filter n st w = Ready (st', w')" and "document_holding st = Some m"
  then show "document_holding st' \<in> {None, Some m}"
    by (cases st) (auto split: prod.splits poll.splits sum.splits option.splits if_splits)
qed

text \<open>The payloads of the valid messages, one after the other, if there is any.\<close>

definition valid_payloads :: "(publish_api \<times> manual_acknowledgement) list \<Rightarrow> bytes option" where
  "valid_payloads ms =
     (case filter (\<lambda>m. utf8_valid (pub_payload (fst m))) ms of
        [] \<Rightarrow> None
      | vs \<Rightarrow> Some (concat (map (pub_payload \<circ> fst) vs)))"

lemma valid_payloads_snoc:
  "valid_payloads (ms @ [m]) =
     (if utf8_valid (pub_payload (fst m))
      then Some ((case valid_payloads ms of None \<Rightarrow> [] | Some d \<Rightarrow> d) @ pub_payload (fst m)) else valid_payloads ms)"
  by (simp add: valid_payloads_def split: list.split)

lemma valid_payloads_Nil [simp]: "valid_payloads [] = None"
  by (simp add: valid_payloads_def)

lemma valid_payloads_utf8: "valid_payloads ms = Some d \<Longrightarrow> utf8_valid d"
  by (induction ms arbitrary: d rule: rev_induct) (auto simp: valid_payloads_snoc utf8_valid_append split: if_splits option.splits)

text \<open>A message that is being rejected is not valid.\<close>

lemma document_run_rejecting:
  assumes "task_run (document_step client base_filter update_filter) (Doc_Subscribing None) tr st"
  shows "st = Doc_Rejecting doc ct p a \<Longrightarrow> \<not> utf8_valid (pub_payload p)"
  using assms
proof (induction arbitrary: doc ct p a rule: task_run.induct)
  case (step tr st n w st' w')
  have "next_document d b \<noteq> Doc_Rejecting doc ct p a" for d b by (cases d) auto
  with step.hyps(2) step.prems step.IH show ?case
    by (cases st) (auto split: prod.splits poll.splits sum.splits option.splits completion.splits if_splits)
qed simp

lemma document_run_content:
  assumes "task_run (document_step client base_filter update_filter) (Doc_Subscribing None) tr st"
  shows "document_of st = Some doc \<Longrightarrow> doc = valid_payloads (settled document_holding tr)"
  using assms
proof (induction arbitrary: doc rule: task_run.induct)
  case start
  then show ?case by (simp add: settled_def map_filter_simps)
next
  case (step tr st n w st' w')
  note invalid = document_run_rejecting [OF step.hyps(1)]
  from step.hyps(2) step.prems step.IH show ?case
    by (cases st) (auto simp: settled_snoc valid_payloads_snoc dest: invalid
        split: prod.splits poll.splits sum.splits option.splits completion.splits if_splits)
qed

text \<open>Discarding leaves nothing queued and acknowledges the QoS 1 messages among what it drops.\<close>

definition ack_pkids :: "manual_acknowledgement list \<Rightarrow> pkid list" where
  "ack_pkids as = List.map_filter (\<lambda>a. case a of ManualQoS1 t \<Rightarrow> Some (token_pkid t) | ManualQoS0 \<Rightarrow> None) as"

fun request_pkid :: "acknowledgement_request \<Rightarrow> pkid option" where
  "request_pkid (AckPubAck n p e) = Some (puback_packet_identifier p)"
| "request_pkid _ = None"

lemma drop_all_acks:
  assumes "list_all (\<lambda>a. case a of ManualQoS1 t \<Rightarrow> \<not> token_triggered t | ManualQoS0 \<Rightarrow> True) as"
  shows "\<exists>q'. fold (\<lambda>(i, a). manual_ack_drop i a) (enumerate k as) (Some q) = Some (q @ q') \<and> map request_pkid q' = map Some (ack_pkids as)"
  using assms
proof (induction "as" arbitrary: k q)
  case Nil
  then show ?case by (simp add: ack_pkids_def map_filter_simps)
next
  case (Cons a "as")
  show ?case
  proof (cases a)
    case ManualQoS0
    then show ?thesis using Cons by (simp add: ack_pkids_def map_filter_simps)
  next
    case (ManualQoS1 t)
    let ?r = "AckPubAck k \<lparr>puback_packet_identifier = token_pkid t, puback_reason_code = PubAckSuccess,
      puback_other_properties = ack_other_properties_default\<rparr> (token_epoch t)"
    have drop: "manual_ack_drop k a (Some q) = Some (q @ [?r])"
      using Cons.prems ManualQoS1 by (simp add: pub_ack_token_drop_def inner_send_def)
    obtain q' where "fold (\<lambda>(i, a). manual_ack_drop i a) (enumerate (Suc k) as) (Some (q @ [?r])) = Some ((q @ [?r]) @ q')"
      and "map request_pkid q' = map Some (ack_pkids as)"
      using Cons.IH [of "Suc k" "q @ [?r]"] Cons.prems by auto
    then show ?thesis using drop ManualQoS1 by (auto simp: ack_pkids_def map_filter_simps intro: exI [of _ "?r # q'"])
  qed
qed

text \<open>
  Processing a QoS 1 message submits the PUBACK of its verdict, default and successful for one that was applied; no other step of the
  workflow acknowledges.
\<close>

definition document_effect :: "document_state \<times> document_world \<times> document_state \<times> document_world \<Rightarrow> bool" where
  "document_effect = (\<lambda>(st, w, st', w').
     case (doc_acks w, st) of
       (Some q, Doc_Processing doc p (ManualQoS1 t)) \<Rightarrow> token_triggered t \<or> (\<exists>n. doc_acks w' = Some (q @ [verdict n p t]))
     | _ \<Rightarrow> doc_acks w' = doc_acks w)"

lemma manual_drop_closed [simp]: "manual_ack_drop n a None = None"
  by (cases a) (simp_all add: pub_ack_token_drop_def inner_send_def)

lemma reject_acks:
  "snd (reject_invalid_utf8 n n' ManualQoS0 acks) = acks"
  "snd (reject_invalid_utf8 n n' a None) = None"
  "snd (reject_invalid_utf8 n n' (ManualQoS1 t) (Some q)) =
     Some (q @ [AckPubAck n \<lparr>puback_packet_identifier = token_pkid t, puback_reason_code = PubAckPayloadFormatInvalid,
       puback_other_properties = ack_other_properties_default\<rparr> (token_epoch t)])"
  by (cases a; simp add: puback_token_reject_def default_properties_into pub_ack_token_reject_def)+

lemma document_step_effect:
  assumes "document_step client base_filter update_filter n st w = Ready (st', w')"
  shows "document_effect (st, w, st', w')"
proof (cases st)
  case (Doc_Processing doc p a)
  let ?r = "reject_invalid_utf8 n (Suc n) a (doc_acks w)"
  have "doc_acks w' = (if utf8_valid (pub_payload p) then manual_ack_drop n a (doc_acks w) else snd ?r)"
    using assms Doc_Processing by (auto split: prod.splits poll.splits sum.splits option.splits if_splits)
  then show ?thesis
    using Doc_Processing
    by (cases a) (auto simp: document_effect_def reject_acks verdict_def pub_ack_token_drop_def inner_send_def
        simp del: reject_invalid_utf8.simps split: option.splits)
qed (use assms in \<open>auto simp: document_effect_def document_recv_def split: prod.splits poll.splits sum.splits option.splits list.splits
      completion.splits if_splits\<close>)

text \<open>C36. The document of the update workflow is made of what the server sent: the workflow takes messages one at a time and settles
  them in order, and at every point of a run the document is the payloads of the settled messages that are valid UTF-8, one after
  the other (there is none before the first), and valid UTF-8 itself. Each QoS 1 message that is processed, with a token not used
  before, has one PUBACK submitted for it while the session lives: a success when its payload was applied, \<open>PayloadFormatInvalid\<close> when
  it was not. No other step acknowledges.\<close>

theorem document_is_kept:
  assumes "task_run (document_step client base_filter update_filter) (Doc_Subscribing None) tr st" and "document_of st = Some doc"
  shows "taken document_holding tr = settled document_holding tr @ (case document_holding st of None \<Rightarrow> [] | Some m \<Rightarrow> [m]) \<and>
    doc = valid_payloads (settled document_holding tr) \<and> pred_option utf8_valid doc \<and> list_all document_effect tr"
proof (intro conjI)
  show "taken document_holding tr = settled document_holding tr @ (case document_holding st of None \<Rightarrow> [] | Some m \<Rightarrow> [m])"
    by (rule document.settles_in_order [OF assms(1)]) simp
  show doc: "doc = valid_payloads (settled document_holding tr)" by (rule document_run_content [OF assms])
  show "pred_option utf8_valid doc" using doc valid_payloads_utf8 by (auto simp: option.pred_set)
  show "list_all document_effect tr"
    using assms(1) by (induction rule: task_run.induct) (auto dest: document_step_effect)
qed

text \<open>A run that subscribes, is granted its subscription and takes a base document of two bytes.\<close>

definition document_start :: document_world where
  "document_start =
     \<lparr>base_document_rx = [], update_rx = [], routes_open = True, doc_alive = True, doc_incoming = [], doc_acks = Some [],
      doc_channels = Some channels_new, doc_permit = (\<lambda>capacity len. len < capacity), doc_log = []\<rparr>"

definition document_publish :: publish_api where
  "document_publish =
     \<lparr>pub_payload = [72, 105], pub_qos = DeliveryAtMostOnce, pub_retain = False, pub_topic_name = Topic [97],
      pub_properties = publish_properties_default\<rparr>"

definition document_suback :: sub_ack where
  "document_suback =
     \<lparr>suback_packet_identifier = 1, suback_reason_codes = [GrantedQoS1], suback_other_properties = ack_other_properties_default\<rparr>"

lemma document_demo_steps:
  fixes client flt
  defines "client \<equiv> fst (new_client client_options_default)" and "flt \<equiv> \<lparr>filter_inner = [97], filter_kind = Regular\<rparr>"
  shows "\<exists>w. document_step client flt flt 3 (Doc_Subscribing None) document_start = Ready (Doc_Subscribed None 3, w)"
    and "\<exists>w. document_step client flt flt 5 (Doc_Subscribed None 3)
        (document_start\<lparr>doc_log := [NComplete 3 (CompletedSubAck document_suback)]\<rparr>) = Ready (Doc_Waiting None, w)"
    and "\<exists>w. document_step client flt flt 7 (Doc_Waiting None) (document_start\<lparr>base_document_rx := [(document_publish, ManualQoS0)]\<rparr>) =
        Ready (Doc_Processing None document_publish ManualQoS0, w)"
    and "\<exists>w. document_step client flt flt 9 (Doc_Processing None document_publish ManualQoS0) document_start =
        Ready (Doc_Subscribing (Some [72, 105]), w)"
  by (simp_all add: client_def flt_def document_start_def document_publish_def document_suback_def new_client_def
      client_options_default_def client_subscribe_def or_panic_def mpsc_send_def channels_new_def filter_into_def
      str_into_def str_from_def binary_from_def poll_option_def subscribe_properties_into_def subscribe_properties_default_def
      sub_ack_as_result_def sub_ack_is_success_def sub_ack_of_def granted_def document_recv_def utf8_tail_def)

theorem document_is_kept_witness:
  "\<exists>tr. task_run (document_step (fst (new_client client_options_default)) \<lparr>filter_inner = [97], filter_kind = Regular\<rparr>
       \<lparr>filter_inner = [97], filter_kind = Regular\<rparr>) (Doc_Subscribing None) tr (Doc_Subscribing (Some [72, 105])) \<and>
     length tr = 4 \<and> taken document_holding tr = [(document_publish, ManualQoS0)] \<and>
     Some [72, 105] = valid_payloads (settled document_holding tr)"
proof -
  let ?f = "\<lparr>filter_inner = [97], filter_kind = Regular\<rparr>"
  let ?step = "document_step (fst (new_client client_options_default)) ?f ?f" and ?p = "document_publish"
  note s = document_demo_steps
  obtain w1 w2 w3 w4 where w:
    "?step 3 (Doc_Subscribing None) document_start = Ready (Doc_Subscribed None 3, w1)"
    "?step 5 (Doc_Subscribed None 3) (document_start\<lparr>doc_log := [NComplete 3 (CompletedSubAck document_suback)]\<rparr>) =
      Ready (Doc_Waiting None, w2)"
    "?step 7 (Doc_Waiting None) (document_start\<lparr>base_document_rx := [(?p, ManualQoS0)]\<rparr>) =
      Ready (Doc_Processing None ?p ManualQoS0, w3)"
    "?step 9 (Doc_Processing None ?p ManualQoS0) document_start = Ready (Doc_Subscribing (Some [72, 105]), w4)"
    using s by blast
  note step = task_run.step [where step = ?step]
  from step [OF step [OF step [OF step [OF task_run.start w(1)] w(2)] w(3)] w(4)]
  obtain tr where run: "task_run ?step (Doc_Subscribing None) tr (Doc_Subscribing (Some [72, 105]))" and "length tr = 4"
    and "settled document_holding tr = [(?p, ManualQoS0)]" by (fastforce simp: settled_def map_filter_simps)
  moreover have "taken document_holding tr = settled document_holding tr" "Some [72, 105] = valid_payloads (settled document_holding tr)"
    using document_is_kept [OF run document_of.simps(1)] by simp_all
  ultimately show ?thesis using run by (intro exI [of _ tr] conjI) simp_all
qed

section \<open>The relay forwards and acknowledges\<close>

text \<open>C35. The relay takes messages one at a time and settles them in order. It submits each upstream with the same topic, payload
  and properties and without the retain flag, and acknowledges it downstream only when the upstream attempt is over:
  refused because the upstream session is gone, or reported by its completion token. While the upstream session lives, the
  publishes submitted are exactly the messages settled, and the one whose completion is awaited.\<close>

theorem relay_forwards_then_acknowledges:
  assumes "task_run (relay_step us_client) Relay_Receiving tr st"
  shows "taken relay_holding tr = settled relay_holding tr @ (case relay_holding st of None \<Rightarrow> [] | Some m \<Rightarrow> [m]) \<and>
    list_all relay_effect tr \<and>
    (list_all (\<lambda>(st, w, st', w'). us_channels w \<noteq> None) tr \<longrightarrow>
       relayed_publishes tr = map fst (settled relay_holding tr) @ completing st)"
  using relay.settles_in_order [OF assms] relay_run_effects [OF assms] relay_run_publishes [OF assms] by simp

text \<open>A QoS 1 publish with the retain flag, from an upstream session that reports a rejected attempt.\<close>

definition relay_publish :: publish where
  "relay_publish =
     \<lparr>publish_topic_name = Topic (ByteStr (BinaryData [0, 1, 97])), packet_identifier_dup_qos = PdqAtLeastOnce 7 False,
      publish_retain = True, publish_payload = [1, 2], publish_other_properties = publish_other_properties_default\<rparr>"

definition relay_start :: relay_world where
  "relay_start =
     \<lparr>ds_alive = True, ds_incoming = [IncomingQoS1 relay_publish (pub_ack_token_new 7 1)], ds_acks = Some [],
      us_channels = Some channels_new, us_permit = (\<lambda>capacity len. len < capacity), us_log = [], shutdown = False\<rparr>"

lemma relay_demo_steps:
  fixes client p a
  defines "client \<equiv> fst (new_client client_options_default)" and "p \<equiv> publish_of relay_publish"
    and "a \<equiv> ManualQoS1 (pub_ack_token_new 7 1)"
  shows "relay_step client 0 Relay_Receiving relay_start = Ready (Relay_Publishing p a, relay_start\<lparr>ds_incoming := []\<rparr>)"
    and "\<exists>w. relay_step client 3 (Relay_Publishing p a) relay_start = Ready (Relay_Completing 3 p a, w)"
    and "\<exists>w. relay_step client 5 (Relay_Completing 3 p a) (relay_start\<lparr>us_log := [NCancel 3 ''gone'']\<rparr>) = Ready (Relay_Receiving, w)"
  by (simp_all add: client_def p_def a_def relay_start_def us_publish_def relay_publish_def publish_of_def new_client_def
      client_options_default_def client_publish_qos1_def or_panic_def mpsc_send_def channels_new_def topic_of_def str_as_ref_def
      binary_as_bytes_def str_into_def str_from_def binary_from_def poll_option_def publish_properties_into_def
      publish_properties_of_def publish_other_properties_default_def)

theorem relay_forwards_then_acknowledges_witness:
  "\<exists>tr. task_run (relay_step (fst (new_client client_options_default))) Relay_Receiving tr Relay_Receiving \<and> length tr = 3 \<and>
     taken relay_holding tr = [(publish_of relay_publish, ManualQoS1 (pub_ack_token_new 7 1))] \<and>
     relayed_publishes tr = [publish_of relay_publish]"
proof -
  let ?c = "fst (new_client client_options_default)" and ?p = "publish_of relay_publish" and ?a = "ManualQoS1 (pub_ack_token_new 7 1)"
  note s = relay_demo_steps
  obtain w2 where w2: "relay_step ?c 3 (Relay_Publishing ?p ?a) relay_start = Ready (Relay_Completing 3 ?p ?a, w2)" using s(2) by blast
  let ?w = "relay_start\<lparr>us_log := [NCancel 3 ''gone'']\<rparr>"
  obtain w3 where w3: "relay_step ?c 5 (Relay_Completing 3 ?p ?a) ?w = Ready (Relay_Receiving, w3)" using s(3) by blast
  let ?tr = "[(Relay_Receiving, relay_start, Relay_Publishing ?p ?a, relay_start\<lparr>ds_incoming := []\<rparr>),
    (Relay_Publishing ?p ?a, relay_start, Relay_Completing 3 ?p ?a, w2), (Relay_Completing 3 ?p ?a, ?w, Relay_Receiving, w3)]"
  have run: "task_run (relay_step ?c) Relay_Receiving ?tr Relay_Receiving"
    using task_run.step [where step = "relay_step ?c", OF task_run.step [where step = "relay_step ?c",
      OF task_run.step [where step = "relay_step ?c", OF task_run.start s(1)] w2] w3] by simp
  note t = relay_forwards_then_acknowledges [OF run]
  have "settled relay_holding ?tr = [(?p, ?a)]" by (simp add: settled_def map_filter_simps)
  moreover have "list_all (\<lambda>(st, w, st', w'). us_channels w \<noteq> None) ?tr" by (simp add: relay_start_def)
  ultimately show ?thesis using run t by (intro exI [of _ ?tr]) (simp add: completing_def)
qed

end
