(* ===== verification/Spec2Isabelle.thy ===== *)
theory Spec2Isabelle
  imports Connection_Properties Api_Properties Fuzz_Targets Transport_Properties Conformance Example_Apps
begin

text \<open>
  This is the verification development of the Rust MQTT client, the crate under src/src. It models the
  crate from the bytes on the wire to the handles an application holds and shows that they fit
  together. Every definition that models code carries the name of the Rust item, prefixed by its
  type where two items have the same name.

  \<^bold>\<open>The program.\<close> An application calls \<open>new_client\<close> (client.rs) and gets a \<open>Client\<close> that submits
  publishes, subscribes and unsubscribes into bounded channels, a \<open>Receiver\<close> that yields incoming
  publishes with acknowledgement tokens, and a \<open>ConnectHandle\<close> that owns the \<open>Session\<close>
  (client/session.rs). Connecting performs the CONNECT/CONNACK handshake, with AUTH packets for enhanced
  authentication, and gives a connection whose event loop \<open>run_until_disconnect\<close> selects between the
  next outgoing packet of the session and the next packet of the \<open>Reader\<close> (io/reader.rs), writes
  packets through the \<open>Writer\<close> (io/writer.rs), and hands incoming packets to the handlers of the
  session. Each operation in flight owns a packet identifier leased from a pool
  (client/session/pkid.rs) and a completion notifier, whose other half is the token the
  application awaits (client/token). When the connection ends, the session is handed back in a new
  \<open>ConnectHandle\<close>, and a session the server still has is resumed by replaying what is in flight.
  Packets are encoded and decoded by mqtt_proto.rs and the modules below it, into
  accumulators (buffer_pool/accumulators) that gather slices for vectored writes. The types of the
  public API (packet.rs) are converted from and to those of the wire. Below the reader and the writer
  are the transports (io/stream.rs, io/tokio_tcp.rs, io/tokio_tls.rs, io/tokio_ws.rs): TCP, a tunnel through an HTTP or HTTPS
  proxy, TLS, and WebSockets, chosen and layered by \<open>transport_connect\<close> from a configuration (transport.rs).

  \<^bold>\<open>Base.\<close>
  \<^item> \<open>Mqtt_Prelude\<close>: machine integers as words of 8, 16, 32 and 64 bits, the \<open>Result\<close> combinators, \<open>poll\<close>
    for code that may wait or panic, the collections of rewrite rules, generic lemmas.
  \<^item> \<open>Pkid_Pool\<close>: \<open>PacketIdentifier\<close> and the pool of client/session/pkid.rs. The search for a free identifier
    is a \<open>partial_function\<close>; it is shown to return and to find the first free identifier in
    circular order (interface: locale \<open>pkid_allocator\<close>).
  \<^item> \<open>Index_Map\<close>: the insertion ordered maps of the session (interface: locale \<open>insertion_map\<close>).
  \<^item> \<open>Mqtt_Types\<close>: packets, properties, reason codes and errors as records and datatypes.

  \<^bold>\<open>The session.\<close>
  \<^item> \<open>Client_Channels\<close>: requests (client/channel_data.rs), completion and acknowledgement tokens (client/token), the
    reauthentication token, the keep alive timer (client/timer.rs).
  \<^item> \<open>Session\<close>: the state and every operation of client/session.rs. The state is passed explicitly;
    waiting and panicking are values of \<open>poll\<close>.
  \<^item> \<open>Session_Invariant\<close>: operations in flight hold distinct leased identifiers; each operation keeps this.
  \<^item> \<open>Client_System\<close>: session and application as one step relation in which their actions interleave
    freely, with its invariant by rule induction.
  \<^item> \<open>Notifier_Account\<close>: every notifier is either with the session or was used exactly once.
  \<^item> \<open>Client_Properties\<close>: PUBACKs leave in the order of the publishes; acknowledging never locks up; leased
    identifiers are exactly those in flight; a resumed session replays in order with DUP set;
    next_outgoing_packet never panics; a session that does not outlive its connection leaves nothing behind; and a flaw of the
    identifier accounting.

  \<^bold>\<open>The wire format.\<close> \<open>Codec_Base\<close> (integers, variable byte integers, the fixed header, the output
  of encoders), \<open>Accumulators\<close> (buffer_pool/accumulators, locale \<open>bytes_accumulator\<close>), \<open>Mqtt_Strings\<close> (binary_data.rs,
  byte_str.rs, mqtt_proto/topic.rs), \<open>Topic_Filter\<close> (mqtt_proto/filter.rs, topic.rs), \<open>Property_Codec\<close> (property.rs), \<open>Reason_Codes\<close>
  (the macro \<open>define_u8_code\<close>, locale \<open>u8_code\<close>), \<open>Ack_Codec\<close>, \<open>Message_Codec\<close>, \<open>Connection_Codec\<close>, \<open>Connect_Codec\<close> (one encoder and one decoder
  per packet type and protocol version), \<open>Packet_Codec\<close> (dispatch). An encoder is the
  list of what it puts into an accumulator, or the error it stops with; the accumulators are shown to hold
  exactly these bytes. Each codec theory proves that decoding undoes encoding for packets that
  satisfy its validity predicate (\<open>packet_ok\<close>: strings valid and short enough, properties representable).
  \<open>Codec_Properties\<close> collects the round trip of all packets, the limits of variable
  byte integers and of packet sizes, the accepted properties, strings and filters, the matching of
  topics, and what reserving and draining an accumulator do. \<open>Decoded_Packets\<close> shows the converse of the round
  trips, that whatever decodes is valid and encodes in no more bytes (AUTH in at most four, if it came in fewer); \<open>Decoding_Returns\<close> that every decoder
  returns on every input; \<open>Fuzz_Targets\<close> models the fuzz targets of src/fuzz and shows that they
  pass on every input.

  \<^bold>\<open>The connection.\<close>
  \<^item> \<open>Stream_Io\<close>, \<open>Stream_Writer\<close>, \<open>Writer_Progress\<close>: reader and writer over an arbitrary stream. A read takes exactly the next
    packet, loses nothing when it is cancelled, and returns when the packet has arrived; a write
    appends whole packets; a flush ends and has sent everything on a stream that accepts bytes.
  \<^item> \<open>Client_Connection\<close>: handshake, event loop, handles of client.rs. A step of the loop is one poll of the
    select or one packet written.
  \<^item> \<open>Event_Loop\<close>: each step of the loop is a sequence of steps of the client system; what reaches the stream is
    the encoding of the packets the session released.
  \<^item> \<open>Client_Life\<close>: connect, run, end, connect again, with the application acting at any time; every
    life keeps the session in a reachable state.
  \<^item> \<open>Connection_Properties\<close>: these facts as theorems, with the analysis of which packets make the event loop panic,
    seen on a transport that moves a few bytes at a time.

  \<^bold>\<open>The transports.\<close>
  \<^item> \<open>Buffer_Pool\<close>: \<open>BytesPool\<close>, the buffers it hands out (buffer_pool.rs, buffer_pool/bytes) and the accumulator of the tests.
  \<^item> \<open>Deep_Copy\<close>: the \<open>to_shared\<close> methods of mqtt_proto, which copy packets into the buffers of another pool; the locale \<open>deep_copy\<close> is
    interpreted for every packet that has a copy. \<open>Value_Order\<close>: the orders on keep alive and session expiry values (property.rs), and on
    data and strings (binary_data.rs, byte_str.rs).
  \<^item> \<open>Http_Proxy\<close>: the CONNECT exchange of io/stream.rs, byte by byte: which requests are sent, which responses accepted.
  \<^item> \<open>Web_Socket\<close>: the stream of bytes over WebSocket messages (io/tokio_ws.rs). Polling loops until a message with
    data comes; the loop is a \<open>partial_function\<close> and is shown to return for a WebSocket with finitely many messages. What was sent and
    what a flush has let leave are told apart. A write that stays suspended for ever stands for a failed call.
  \<^item> \<open>Test_Stream\<close>: the packet transport of the tests (io/test.rs), which restores packets however they are cut.
  \<^item> \<open>Transport_Setup\<close>: TLS configurations, the layers TCP, proxy and TLS, the three transports and \<open>transport_connect\<close>.
  \<^item> \<open>Client_Tokens\<close>: completion notifiers and tokens over one-shot channels, and the public tokens (client/token); over channels that
    keep their promise the log of notifications that the session's model keeps tells what a token reports.
  \<^item> \<open>Transport_Properties\<close>: proxies, WebSockets, the test transport, the security of a set-up and the copies of packets as theorems.

  \<^bold>\<open>The public API.\<close> \<open>Api_Reasons\<close>, \<open>Api_Packets\<close>, \<open>Api_Results\<close> (packet.rs: reason codes, properties, packets, \<open>is_success\<close> and \<open>as_result\<close>; locales
  \<open>reason_view\<close>, \<open>reason_byte\<close> and \<open>conversion\<close>), \<open>Client_Api\<close> (client.rs: \<open>new_client\<close>, \<open>Client\<close>, \<open>Receiver\<close> and the handles over
  bounded channels), \<open>Api_Properties\<close> (what each operation submits and when, lossless conversions, from a publish of one application to
  that of another, agreement of verdicts with the bytes on the wire).

  \<^bold>\<open>Unit tests.\<close> The model is checked against the crate's own tests, translated call by call; a failed assertion is a panic, and the
  tests are shown to return.
  \<^item> \<open>Codec_Tests\<close> (the oracles of mqtt_proto.rs), \<open>Codec_Vectors\<close> (the packets and bytes of \<open>encode_decode_v3\<close> and \<open>encode_decode_v5\<close> of
    every packet type), \<open>Codec_Cases\<close> (packets that must be refused, variable byte integers, data, counters), \<open>Filter_Tests\<close> (topics and filters).
    They hold for all Unicode tables that are right on ASCII (locales \<open>ascii_tables\<close> and \<open>control_tables\<close>).
  \<^item> \<open>Session_Tests\<close> (identifier pool, session, acknowledgement and completion tokens), \<open>Conversion_Tests\<close> (packet.rs).
  \<^item> \<open>Conformance\<close>: the tests pass, and what the session tests try about pings holds in general.

  \<^bold>\<open>The examples.\<close> \<open>Example_Apps\<close> models the workflows of src/examples as tasks over the handles of the client, with an
  arbitrary environment between their steps. The locale \<open>serial_consumer\<close> shows once that a task which has at most one message in hand
  settles messages in order; it is interpreted for the receiver, the document and the relay. The document is the sequence of the valid
  payloads that were settled; the relay acknowledges a message only after its upstream attempt.

  \<^bold>\<open>Parameters and bounds.\<close> Code outside the crate is an argument of the definitions that use it, with its
  documented behaviour as a hypothesis:
  \<^item> the UTF-8 decoder and the Unicode tables (\<open>unicode\<close>; \<open>utf8_ok\<close>, \<open>utf8_ascii\<close>: a decoded code point has at least one byte, and its bytes are
    there; ASCII decodes to itself);
  \<^item> the buffer pool (\<open>pool\<close>; \<open>pool_ok\<close>: reserving gives the room asked for; \<open>pool_total\<close>: it does
    not run out);
  \<^item> the network stream (\<open>readable\<close>, \<open>writable\<close>: bytes are neither lost nor invented; \<open>flowing\<close>, \<open>accepting\<close>: a call makes
    progress); these hypotheses are shown for the stream over a WebSocket, for \<open>TransportStream\<close> over its two
    kinds, and the first for the transport of the tests;
  \<^item> the stream to a proxy and its buffered lines (\<open>proxy_io\<close>; \<open>reads_lines\<close>: \<open>read_line\<close> gives the next line, an error if it is
    not UTF-8), the base64 encoder (its output has no carriage return), the WebSocket of the tungstenite crate (\<open>web_socket\<close>; \<open>delivers\<close>,
    \<open>transmits\<close>: messages come and go in order, no data follows a Close, a flush that returns has sent everything), sockets, OpenSSL and handshakes (\<open>network\<close>, \<open>openssl\<close>; \<open>tls_names\<close>: a session
    keeps the name and the configuration it was made for), \<open>BytesMut\<close> (\<open>bytes_mut\<close>; \<open>bytes_mut_ok\<close>);
  \<^item> the channels of tokio: when a bounded channel gives a permit (\<open>permits\<close>; nothing is assumed of it, so the statements hold whether or not
    the session has looked at the next value), and the one-shot channels (\<open>oneshot_ops\<close>; \<open>oneshot_ok\<close>: a value that is sent is received,
    a half that is gone is noticed by the other).

  Each property with such a hypothesis has a witness on a concrete instance. No definition uses
  fuel: the loops of the reader, the writer and the decoders are total functions with a measure, and
  the search of the identifier pool, whose end depends on its invariant, is shown to return. Integers
  keep their width; variable byte integers end at $128^4$ as in the code; the connection
  epoch is a 64 bit counter, and the properties of reconnecting assume it has not reached its last
  value.

  \<^bold>\<open>Not modelled.\<close>
  \<^item> What happens inside tokio, OpenSSL, tungstenite and the bytes crate: they are the parameters above.
  \<^item> Panics of slicing inside the decoders: a decoder of the model takes its input apart by cases and answers an input that is too short
    with an error, so that no index can be out of range. Decoders that would not return are modelled (\<open>NoProgress\<close>) and excluded.
  \<^item> How long a set-up takes: a phase either ends or is still pending when the caller's timer fires.
  \<^item> The QoS 2 exchange beyond the session: the event loop refuses QoS 2 publishes, and the methods of the tokens for
    PUBREC, PUBREL and PUBCOMP are \<open>unimplemented!()\<close> in the sources, a panic in the model.
  \<^item> A disconnect handle kept from an earlier connection, the display texts of errors, logging, and the
    loops of the examples that connect, reconnect and wait for signals.
  \<^item> The unit tests with characters outside ASCII, since the UTF-8 decoder of the codec is a parameter, those of hashes
    and of the sizes of types, and the tests of sockets and the integration tests against a broker.
\<close>

end
